(* ===== verification/Tuya_Prelude.thy ===== *)
theory Tuya_Prelude
  imports Main "HOL-Library.Word" "HOL-Library.Monad_Syntax"
begin

text \<open>
  Shared ground of the development: machine integers, the return codes of
  \<^verbatim>\<open>tuya_error_code.h\<close>, bounded memory accesses, counted loops, and the interfaces
  (locales) that several components promise or rely on.

  Undefined behaviour of C (an access outside an object, a null dereference, a division by
  zero) and a loop that never ends are the value \<^term>\<open>None\<close> of an option; what a C function
  returns otherwise is \<^term>\<open>Some\<close> of its return code and of the state it leaves.
\<close>

unbundle bit_operations_syntax

section \<open>Machine integers and return codes\<close>

type_synonym u8 = "8 word"
type_synonym u16 = "16 word"
type_synonym u32 = "32 word"

type_synonym OPERATE_RET = int

abbreviation (input) OPRT_OK :: OPERATE_RET where "OPRT_OK \<equiv> 0"
abbreviation (input) OPRT_COM_ERROR :: OPERATE_RET where "OPRT_COM_ERROR \<equiv> -1"
abbreviation (input) OPRT_INVALID_PARM :: OPERATE_RET where "OPRT_INVALID_PARM \<equiv> -2"
abbreviation (input) OPRT_MALLOC_FAILED :: OPERATE_RET where "OPRT_MALLOC_FAILED \<equiv> -3"
abbreviation (input) OPRT_NOT_SUPPORTED :: OPERATE_RET where "OPRT_NOT_SUPPORTED \<equiv> -4"
abbreviation (input) OPRT_SEND_ERR :: OPERATE_RET where "OPRT_SEND_ERR \<equiv> -14"

text \<open>Unsigned C values carried as naturals are cut to their width where they are stored.\<close>

definition cut8 :: "nat \<Rightarrow> nat" where "cut8 n = n mod 256"
definition cut16 :: "nat \<Rightarrow> nat" where "cut16 n = n mod 65536"
definition cut32 :: "nat \<Rightarrow> nat" where "cut32 n = n mod 4294967296"

lemma cut8_id [simp]: "n < 256 \<Longrightarrow> cut8 n = n" by (simp add: cut8_def)
lemma cut16_id [simp]: "n < 65536 \<Longrightarrow> cut16 n = n" by (simp add: cut16_def)
lemma cut32_id [simp]: "n < 4294967296 \<Longrightarrow> cut32 n = n" by (simp add: cut32_def)
lemma cut8_less [simp]: "cut8 n < 256" by (simp add: cut8_def)
lemma cut16_less [simp]: "cut16 n < 65536" by (simp add: cut16_def)
lemma cut32_less [simp]: "cut32 n < 4294967296" by (simp add: cut32_def)

text \<open>Unsigned subtraction that does not underflow.\<close>

lemma cut32_diff [simp]: "r \<le> n \<Longrightarrow> n < 4294967296 \<Longrightarrow> cut32 (n + 4294967296 - r) = n - r"
proof -
  assume "r \<le> n" "n < 4294967296"
  moreover from this have "n + 4294967296 - r = (n - r) + 4294967296" by simp
  ultimately show ?thesis unfolding cut32_def by (simp only: mod_add_self2) simp
qed

lemma cut16_diff [simp]: "r \<le> n \<Longrightarrow> n < 65536 \<Longrightarrow> cut16 (n + 65536 - r) = n - r"
proof -
  assume "r \<le> n" "n < 65536"
  moreover from this have "n + 65536 - r = (n - r) + 65536" by simp
  ultimately show ?thesis unfolding cut16_def by (simp only: mod_add_self2) simp
qed

section \<open>Memory objects\<close>

text \<open>A read or a write of one cell, and \<^verbatim>\<open>memcpy\<close> out of and into an object.\<close>

definition rd :: "'a list \<Rightarrow> nat \<Rightarrow> 'a option" where
  "rd xs i = (if i < length xs then Some (xs ! i) else None)"

definition wr :: "'a list \<Rightarrow> nat \<Rightarrow> 'a \<Rightarrow> 'a list option" where
  "wr xs i v = (if i < length xs then Some (xs[i := v]) else None)"

definition blit :: "'a list \<Rightarrow> nat \<Rightarrow> 'a list \<Rightarrow> 'a list" where
  "blit xs i ys = take i xs @ ys @ drop (i + length ys) xs"

definition memcpy_out :: "'a list \<Rightarrow> nat \<Rightarrow> nat \<Rightarrow> 'a list option" where
  "memcpy_out xs i n = (if i + n \<le> length xs then Some (take n (drop i xs)) else None)"

definition memcpy_in :: "'a list \<Rightarrow> nat \<Rightarrow> 'a list \<Rightarrow> 'a list option" where
  "memcpy_in xs i ys = (if i + length ys \<le> length xs then Some (blit xs i ys) else None)"

named_theorems mem_simps "successful memory accesses"

lemma rd_Some [mem_simps]: "i < length xs \<Longrightarrow> rd xs i = Some (xs ! i)"
  by (simp add: rd_def)

lemma rd_None [mem_simps]: "length xs \<le> i \<Longrightarrow> rd xs i = None"
  by (simp add: rd_def)

lemma wr_Some [mem_simps]: "i < length xs \<Longrightarrow> wr xs i v = Some (xs[i := v])"
  by (simp add: wr_def)

lemma wr_None [mem_simps]: "length xs \<le> i \<Longrightarrow> wr xs i v = None"
  by (simp add: wr_def)

lemma memcpy_out_Some [mem_simps]: "i + n \<le> length xs \<Longrightarrow> memcpy_out xs i n = Some (take n (drop i xs))"
  by (simp add: memcpy_out_def)

lemma memcpy_in_Some [mem_simps]: "i + length ys \<le> length xs \<Longrightarrow> memcpy_in xs i ys = Some (blit xs i ys)"
  by (simp add: memcpy_in_def)

lemma wr_length: "wr xs i v = Some ys \<Longrightarrow> length ys = length xs"
  by (auto simp: wr_def split: if_splits)

lemma blit_length [simp]: "i + length ys \<le> length xs \<Longrightarrow> length (blit xs i ys) = length xs"
  by (simp add: blit_def)

lemma blit_Nil [simp]: "blit xs i [] = xs"
  by (simp add: blit_def)

lemma blit_blit_adjacent:
  assumes "i + length ys \<le> length xs" and "j = i + length ys"
  shows "blit (blit xs i ys) j zs = blit xs i (ys @ zs)"
  using assms by (simp add: blit_def add.assoc add.commute [of "length zs"])

lemma blit_blit_before:
  assumes "j + length zs \<le> length xs" and "j = i + length ys"
  shows "blit (blit xs j zs) i ys = blit xs i (ys @ zs)"
  using assms by (simp add: blit_def add.assoc)

lemma take_drop_blit_below:
  "i + n \<le> j \<Longrightarrow> j \<le> length xs \<Longrightarrow> take n (drop i (blit xs j ys)) = take n (drop i xs)"
  by (auto simp: blit_def drop_take min_def)

lemma take_drop_blit_above:
  "j + length ys \<le> i \<Longrightarrow> j + length ys \<le> length xs \<Longrightarrow> take n (drop i (blit xs j ys)) = take n (drop i xs)"
  by (simp add: blit_def)

lemma length_take_drop: "i + n \<le> length xs \<Longrightarrow> length (take n (drop i xs)) = n"
  by simp

lemma take_drop_append:
  "take a (drop i xs) @ take b (drop (i + a) xs) = take (a + b) (drop i xs)"
  by (simp add: take_add add.commute)

lemma rotate_split: "n \<le> length xs \<Longrightarrow> rotate n xs = drop n xs @ take n xs"
  by (cases "n = length xs") (auto simp: rotate_drop_take)

lemma blit_single: "i < length xs \<Longrightarrow> blit xs i [v] = xs[i := v]"
  by (simp add: blit_def upd_conv_take_nth_drop)

lemma blit_two:
  assumes "Suc i < length xs"
  shows "(xs[i := u])[Suc i := v] = blit xs i [u, v]"
proof -
  have "blit (blit xs i [u]) (Suc i) [v] = blit xs i ([u] @ [v])"
    by (rule blit_blit_adjacent) (use assms in auto)
  then show ?thesis using assms by (simp add: blit_single)
qed

lemma nth_blit:
  "i + length ys \<le> length xs \<Longrightarrow>
    k < length xs \<Longrightarrow>
    blit xs i ys ! k = (if i \<le> k \<and> k < i + length ys then ys ! (k - i) else xs ! k)"
  by (auto simp: blit_def nth_append min_def)

section \<open>Counted loops\<close>

text \<open>\<^term>\<open>foldM f xs s\<close> is the \<^verbatim>\<open>for\<close> loop whose counter runs through \<^term>\<open>xs\<close>.\<close>

fun foldM :: "('a \<Rightarrow> 's \<Rightarrow> 's option) \<Rightarrow> 'a list \<Rightarrow> 's \<Rightarrow> 's option" where
  "foldM f [] s = Some s"
| "foldM f (x # xs) s = do { s' \<leftarrow> f x s; foldM f xs s' }"

lemma foldM_append: "foldM f (xs @ ys) s = do { s' \<leftarrow> foldM f xs s; foldM f ys s' }"
  by (induction xs arbitrary: s) (auto split: bind_splits)

lemma foldM_snoc: "foldM f (xs @ [y]) s = do { s' \<leftarrow> foldM f xs s; f y s' }"
  by (simp add: foldM_append split: bind_splits)

lemma foldM_cong:
  "(\<And>x s. x \<in> set xs \<Longrightarrow> f x s = g x s) \<Longrightarrow> foldM f xs s = foldM g xs s"
  by (induction xs arbitrary: s) (auto split: bind_splits)

lemma foldM_pure: "foldM (\<lambda>x s. Some (f x s)) xs s = Some (fold f xs s)"
  by (induction xs arbitrary: s) auto

lemma foldM_invariant:
  assumes "foldM f xs s = Some t" and "P s"
    and "\<And>x s t. x \<in> set xs \<Longrightarrow> P s \<Longrightarrow> f x s = Some t \<Longrightarrow> P t"
  shows "P t"
  using assms
proof (induction xs arbitrary: s)
  case Nil
  then show ?case by simp
next
  case (Cons x xs)
  from Cons.prems(1) obtain s' where s': "f x s = Some s'" "foldM f xs s' = Some t"
    by (auto split: bind_splits)
  from Cons.prems(3) [OF _ Cons.prems(2) s'(1)] have "P s'" by simp
  then show ?case
    using Cons.IH [OF s'(2)] Cons.prems(3) by (meson list.set_intros(2))
qed

lemma foldM_total:
  assumes "P s" and "\<And>x s. x \<in> set xs \<Longrightarrow> P s \<Longrightarrow> \<exists>t. f x s = Some t \<and> P t"
  shows "\<exists>t. foldM f xs s = Some t \<and> P t"
  using assms
proof (induction xs arbitrary: s)
  case (Cons x xs)
  obtain t where t: "f x s = Some t" "P t" using Cons.prems(1) Cons.prems(2) [of x s] by auto
  then show ?case using Cons.IH [OF t(2)] Cons.prems(2) by auto
qed simp

lemma foldM_collect:
  "\<forall>i \<in> set is. g i = Some (h i) \<Longrightarrow> foldM (\<lambda>i bs. do { b \<leftarrow> g i; Some (bs @ [b]) }) is bs = Some (bs @ map h is)"
  by (induction "is" arbitrary: bs) auto

lemma foldM_length:
  assumes "foldM f xs s = Some t" and "\<And>x s t. f x s = Some t \<Longrightarrow> length t = length s"
  shows "length t = length s"
  using assms(1) by (rule foldM_invariant [where P = "\<lambda>t. length t = length s"]) (auto dest: assms(2))

lemma unat_u8_less [simp]: "unat (b :: u8) < 256"
  using unsigned_less [of b, where 'a = nat] by simp

lemma unat_u16_less [simp]: "unat (b :: u16) < 65536"
  using unsigned_less [of b, where 'a = nat] by simp

lemma unat_u32_less [simp]: "unat (b :: u32) < 4294967296"
  using unsigned_less [of b, where 'a = nat] by simp

lemma unat_u8_u32 [simp]: "unat (ucast (b :: u8) :: u32) = unat b"
  by (simp add: unsigned_ucast_eq take_bit_nat_eq_self less_trans [OF unat_u8_less])

lemma unat_of_nat_u16: "n < 65536 \<Longrightarrow> unat (of_nat n :: u16) = n"
  by (simp add: unat_of_nat)

text \<open>
  A loop whose \<open>k\<close>-th round writes a block of \<open>m\<close> cells right after the blocks before it
  writes the concatenation of the blocks.
\<close>

lemma foldM_blocks:
  assumes step: "\<And>k d. k < n \<Longrightarrow> length d = L \<Longrightarrow> f k d = Some (blit d (a + m * k) (g k))"
    and len: "\<And>k. k < n \<Longrightarrow> length (g k) = m"
    and room: "a + m * n \<le> L" and d: "length d = L"
  shows "foldM f [0..<n] d = Some (blit d a (concat (map g [0..<n])))"
  using step len room
proof (induction n)
  case 0
  then show ?case by simp
next
  case (Suc n)
  have lc: "length (concat (map g [0..<n])) = m * n"
    using Suc.prems(2) by (induction n) auto
  have IH: "foldM f [0..<n] d = Some (blit d a (concat (map g [0..<n])))"
    by (rule Suc.IH) (use Suc.prems in auto)
  have "length (blit d a (concat (map g [0..<n]))) = L"
    using Suc.prems(3) d lc by simp
  with Suc.prems(1) [of n] have "f n (blit d a (concat (map g [0..<n])))
      = Some (blit (blit d a (concat (map g [0..<n]))) (a + m * n) (g n))"
    by simp
  also have "\<dots> = Some (blit d a (concat (map g [0..<n]) @ g n))"
    using Suc.prems(3) d lc by (simp add: blit_blit_adjacent)
  finally show ?case using IH by (simp add: foldM_snoc)
qed

lemma concat_map_nested: "concat (map (\<lambda>j. concat (map f (g j))) xs) = concat (map f (concat (map g xs)))"
  by (induction xs) auto

text \<open>The same where the loop carries its write position along.\<close>

lemma foldM_stream:
  assumes step: "\<And>k d. k < n \<Longrightarrow> length d = L \<Longrightarrow>
      f k (d, a + m * k) = Some (blit d (a + m * k) (g k), a + m * k + m)"
    and len: "\<And>k. k < n \<Longrightarrow> length (g k) = m"
    and room: "a + m * n \<le> L" and d: "length d = L"
  shows "foldM f [0..<n] (d, a) = Some (blit d a (concat (map g [0..<n])), a + m * n)"
  using step len room
proof (induction n)
  case 0
  then show ?case by simp
next
  case (Suc n)
  have lc: "length (concat (map g [0..<n])) = m * n"
    using Suc.prems(2) by (induction n) auto
  have IH: "foldM f [0..<n] (d, a) = Some (blit d a (concat (map g [0..<n])), a + m * n)"
    by (rule Suc.IH) (use Suc.prems in auto)
  have "length (blit d a (concat (map g [0..<n]))) = L"
    using Suc.prems(3) d lc by simp
  with Suc.prems(1) [of n] have "f n (blit d a (concat (map g [0..<n])), a + m * n)
      = Some (blit (blit d a (concat (map g [0..<n]))) (a + m * n) (g n), a + m * n + m)"
    by simp
  also have "blit (blit d a (concat (map g [0..<n]))) (a + m * n) (g n) = blit d a (concat (map g [0..<n]) @ g n)"
    using Suc.prems(3) d lc by (simp add: blit_blit_adjacent)
  finally show ?case using IH by (simp add: foldM_snoc algebra_simps)
qed

section \<open>Bits of words\<close>

text \<open>Writing one bit at a time at distinct positions.\<close>

definition put_bit :: "nat \<Rightarrow> bool \<Rightarrow> 'a::len word \<Rightarrow> 'a word" where
  "put_bit p b w = (if b then w OR push_bit p 1 else w AND NOT (push_bit p 1))"

lemma bit_put_bit:
  "p < LENGTH('a) \<Longrightarrow> bit (put_bit p b w) n = (if n = p then b else bit w n)"
  for w :: "'a::len word"
  by (auto simp: put_bit_def bit_simps dest: bit_imp_le_length)

lemma bit_fold_put_bit:
  fixes w :: "'a::len word"
  assumes "\<forall>p \<in> set ps. p < LENGTH('a)"
  shows "bit (fold (\<lambda>p. put_bit p (f p)) ps w) n = (if n \<in> set ps then f n else bit w n)"
  using assms by (induction ps arbitrary: w) (auto simp: bit_put_bit)

lemma fold_put_bit_all:
  fixes w v :: "'a::len word"
  assumes "set ps = {..<LENGTH('a)}"
  shows "fold (\<lambda>p. put_bit p (bit v p)) ps w = v"
proof (rule bit_word_eqI)
  fix n assume "n < LENGTH('a)"
  with assms show "bit (fold (\<lambda>p. put_bit p (bit v p)) ps w) n = bit v n"
    by (subst bit_fold_put_bit) auto
qed

lemma and_exp_eq [simp]: "((w :: 'a::len word) AND 2 ^ j = 0) = (\<not> bit w j)"
  by (simp add: bit_iff_and_push_bit_not_eq_0 push_bit_eq_mult)

section \<open>Interfaces\<close>

text \<open>
  A bounded first-in first-out buffer as its clients use it: a test for full, a count, a push, a
  read of everything that is there, a discard and a clear. \<open>contents\<close> is what the buffer means.
\<close>

locale fifo_buffer =
  fixes invar :: "'b \<Rightarrow> bool"
    and contents :: "'b \<Rightarrow> 'a list"
    and capacity :: "'b \<Rightarrow> nat"
    and is_full :: "'b \<Rightarrow> bool option"
    and count :: "'b \<Rightarrow> nat option"
    and push :: "'b \<Rightarrow> 'a \<Rightarrow> 'b option"
    and peek :: "'b \<Rightarrow> 'a list option"
    and discard :: "'b \<Rightarrow> nat \<Rightarrow> 'b option"
  assumes bounded: "invar b \<Longrightarrow> length (contents b) \<le> capacity b"
    and is_full: "invar b \<Longrightarrow> is_full b = Some (length (contents b) = capacity b)"
    and count: "invar b \<Longrightarrow> count b = Some (length (contents b))"
    and push: "invar b \<Longrightarrow> length (contents b) < capacity b \<Longrightarrow>
      \<exists>b'. push b x = Some b' \<and> invar b' \<and> capacity b' = capacity b \<and> contents b' = contents b @ [x]"
    and peek: "invar b \<Longrightarrow> contents b \<noteq> [] \<Longrightarrow> peek b = Some (contents b)"
    and discard: "invar b \<Longrightarrow> n < 65536 \<Longrightarrow>
      \<exists>b'. discard b n = Some b' \<and> invar b' \<and> capacity b' = capacity b \<and> contents b' = drop n (contents b)"
begin

text \<open>The writer that drops what does not fit, as the interrupt handlers do.\<close>

definition offer :: "'a \<Rightarrow> 'b \<Rightarrow> 'b option" where
  "offer x b = do { f \<leftarrow> is_full b; if f then Some b else push b x }"

lemma offer_spec:
  assumes "invar b"
  shows "\<exists>b'. offer x b = Some b' \<and> invar b' \<and> capacity b' = capacity b \<and>
    contents b' = take (capacity b) (contents b @ [x])"
proof (cases "length (contents b) < capacity b")
  case True
  with push [OF assms True, of x] is_full [OF assms] show ?thesis
    by (auto simp: offer_def)
next
  case False
  with bounded [OF assms] have "length (contents b) = capacity b" by simp
  with assms is_full [OF assms] show ?thesis by (simp add: offer_def)
qed

lemma offer_all_spec:
  assumes "invar b"
  shows "\<exists>b'. foldM offer xs b = Some b' \<and> invar b' \<and> capacity b' = capacity b \<and>
    contents b' = take (capacity b) (contents b @ xs)"
  using assms
proof (induction xs arbitrary: b)
  case Nil
  with bounded [of b] show ?case by simp
next
  case (Cons x xs)
  from offer_spec [OF Cons.prems, of x] obtain b1 where b1: "offer x b = Some b1" "invar b1"
    "capacity b1 = capacity b" "contents b1 = take (capacity b) (contents b @ [x])" by blast
  from Cons.IH [OF b1(2)] obtain b2 where b2: "foldM offer xs b1 = Some b2" "invar b2"
    "capacity b2 = capacity b1" "contents b2 = take (capacity b1) (contents b1 @ xs)" by blast
  have "take (capacity b) (take (capacity b) (contents b @ [x]) @ xs) = take (capacity b) (contents b @ x # xs)"
    using bounded [OF Cons.prems] by (cases "length (contents b) < capacity b") auto
  with b1 b2 show ?case by auto
qed

text \<open>What fits is read back in order and whole.\<close>

lemma offer_all_peek:
  assumes "invar b" and "contents b = []" and "xs \<noteq> []" and "length xs \<le> capacity b"
  shows "\<exists>b'. foldM offer xs b = Some b' \<and> peek b' = Some xs \<and> count b' = Some (length xs)"
  using offer_all_spec [OF assms(1), of xs] assms peek count by force

lemma discard_all:
  assumes "invar b" and "n < 65536" and "length (contents b) \<le> n"
  shows "\<exists>b'. discard b n = Some b' \<and> invar b' \<and> contents b' = []"
  using discard [OF assms(1,2)] assms(3) by force

end

text \<open>
  A list of named devices, as the infrared, pixel and dimmer managers keep one: a lookup by name
  that gives the position of the first match, and a registration that refuses a name that is taken
  and otherwise appends. \<open>valid\<close> names are those a node can store whole.
\<close>

fun find_index :: "('a \<Rightarrow> bool) \<Rightarrow> 'a list \<Rightarrow> nat option" where
  "find_index P [] = None"
| "find_index P (x # xs) = (if P x then Some 0 else map_option Suc (find_index P xs))"

lemma find_index_Some:
  "find_index P xs = Some i \<longleftrightarrow> i < length xs \<and> P (xs ! i) \<and> (\<forall>j < i. \<not> P (xs ! j))"
proof (induction xs arbitrary: i)
  case Nil
  then show ?case by simp
next
  case (Cons x xs)
  then show ?case
    by (cases i) (auto simp: less_Suc_eq_0_disj)
qed

lemma find_index_None: "find_index P xs = None \<longleftrightarrow> (\<forall>x \<in> set xs. \<not> P x)"
  by (induction xs) auto

lemma find_index_append:
  "find_index P (xs @ ys) =
    (case find_index P xs of Some i \<Rightarrow> Some i | None \<Rightarrow> map_option ((+) (length xs)) (find_index P ys))"
  by (induction xs; cases "find_index P ys") (auto split: option.splits)

lemma find_index_map: "find_index P (map f xs) = find_index (P \<circ> f) xs"
  by (induction xs) auto

locale device_registry =
  fixes names :: "'s \<Rightarrow> string list"
    and lookup :: "'s \<Rightarrow> string \<Rightarrow> nat option"
    and valid :: "string \<Rightarrow> bool"
    and register :: "string \<Rightarrow> 's \<Rightarrow> 's \<Rightarrow> bool"
  assumes lookup: "lookup s nm = find_index ((=) nm) (names s)"
    and register: "register nm s s' \<Longrightarrow> valid nm \<Longrightarrow> nm \<notin> set (names s) \<and> names s' = names s @ [nm]"
begin

text \<open>A registered device is found, at the end of the list; the others stay where they were.\<close>

lemma lookup_registered:
  assumes "register nm s s'" and "valid nm"
  shows "lookup s' nm = Some (length (names s))"
proof -
  have r: "nm \<notin> set (names s)" "names s' = names s @ [nm]" using register [OF assms] by auto
  then have "find_index ((=) nm) (names s) = None" by (auto simp: find_index_None)
  with r(2) show ?thesis by (simp add: lookup find_index_append)
qed

lemma lookup_others:
  assumes "register nm s s'" and "valid nm" and "lookup s x = Some h"
  shows "lookup s' x = Some h"
  using register [OF assms(1,2)] assms(3) by (simp add: lookup find_index_append)

lemma lookup_unknown:
  assumes "register nm s s'" and "valid nm" and "x \<noteq> nm" and "lookup s x = None"
  shows "lookup s' x = None"
  using register [OF assms(1,2)] assms(3,4) by (simp add: lookup find_index_append)

lemma distinct_names:
  assumes "register nm s s'" and "valid nm" and "distinct (names s)"
  shows "distinct (names s')"
  using register [OF assms(1,2)] assms(3) by simp

text \<open>Distinct names: a lookup gives exactly the device of that name.\<close>

lemma lookup_exact:
  assumes "distinct (names s)" and "i < length (names s)"
  shows "lookup s (names s ! i) = Some i"
  using assms by (auto simp: lookup find_index_Some nth_eq_iff_index_eq)

end

end
