(* ===== verification/Sensor_Float.thy ===== *)
theory Sensor_Float
  imports Tuya_Prelude Complex_Main "HOL-Library.Log_Nat"
begin

text \<open>
  The single-precision arithmetic that the sensor stack uses. A value of \<^verbatim>\<open>FLOAT_T\<close> is a rational number, an
  infinity or not a number; every operation gives the exact result rounded to the nearest representable value, ties to
  the even one, as IEEE 754 prescribes. The sign of a zero, which no comparison shows, is not kept. Values are kept in
  memory as their 32 bits.
\<close>

section \<open>Rounding\<close>

datatype FLOAT_T = Fin rat | Inf bool | NaN

definition pow2 :: "int \<Rightarrow> rat" where
  "pow2 e = (if e \<ge> 0 then 2 ^ nat e else 1 / 2 ^ nat (- e))"

lemma pow2_powi: "pow2 e = 2 powi e"
  by (simp add: pow2_def power_int_def field_simps)

lemma pow2_pos [simp]: "0 < pow2 e" "pow2 e \<noteq> 0" "0 \<le> pow2 e" by (simp_all add: pow2_def)

lemma pow2_add: "pow2 (a + b) = pow2 a * pow2 b" by (simp add: pow2_powi power_int_add)

lemma pow2_diff: "pow2 (a - b) = pow2 a / pow2 b" by (simp add: pow2_powi power_int_diff)

lemma pow2_one: "pow2 1 = 2" by (simp add: pow2_def)

lemma pow2_mono: "a \<le> b \<Longrightarrow> pow2 a \<le> pow2 b" by (simp add: pow2_powi power_int_increasing)

lemma pow2_less: "pow2 a < pow2 b \<longleftrightarrow> a < b"
  by (metis pow2_mono not_less power_int_strict_increasing pow2_powi one_less_numeral_iff semiring_norm(76))

lemma pow2_nat: "0 \<le> e \<Longrightarrow> pow2 e = of_int (2 ^ nat e)" by (simp add: pow2_def)

text \<open>The exponent of a positive number: its binary logarithm, rounded down.\<close>

definition exponent :: "rat \<Rightarrow> int" where
  "exponent q = (let (n, d) = quotient_of q; e = bitlen n - bitlen d in if pow2 e \<le> q then e else e - 1)"

lemma bitlen_pow2_bounds: "0 < (n::int) \<Longrightarrow> pow2 (bitlen n - 1) \<le> of_int n \<and> of_int n < pow2 (bitlen n)"
proof -
  assume n: "0 < n"
  then have b: "2 ^ nat (bitlen n - 1) \<le> n" "n < 2 ^ nat (bitlen n)" using bitlen_bounds by auto
  have "1 \<le> bitlen n" using n by (metis bitlen_eq_zero_iff bitlen_nonneg int_one_le_iff_zero_less linorder_not_le order_le_less)
  then show ?thesis using b by (simp add: pow2_nat flip: of_int_le_iff of_int_less_iff del: of_int_power)
qed

lemma exponent_bounds: "0 < q \<Longrightarrow> pow2 (exponent q) \<le> q \<and> q < pow2 (exponent q + 1)"
proof -
  assume q: "0 < q"
  obtain n d where nd: "quotient_of q = (n, d)" by (cases "quotient_of q")
  have d: "0 < d" using quotient_of_denom_pos [OF nd] .
  have qe: "q = of_int n / of_int d" using quotient_of_div [OF nd] .
  then have n: "0 < n" using q d by (simp add: zero_less_divide_iff)
  note B = bitlen_pow2_bounds [OF n] bitlen_pow2_bounds [OF d]
  let ?e = "bitlen n - bitlen d"
  have "q < pow2 (bitlen n) / pow2 (bitlen d - 1)"
    unfolding qe using B d n by (intro frac_less) auto
  then have hi: "q < pow2 (?e + 1)" by (simp add: pow2_diff [symmetric] algebra_simps)
  have "pow2 (bitlen n - 1) / pow2 (bitlen d) \<le> q"
    unfolding qe using B d n by (intro frac_le) auto
  then have lo: "pow2 (?e - 1) \<le> q" by (simp add: pow2_diff [symmetric] algebra_simps)
  show ?thesis using hi lo by (simp add: exponent_def nd Let_def)
qed

lemma exponentI: "pow2 e \<le> q \<Longrightarrow> q < pow2 (e + 1) \<Longrightarrow> exponent q = e"
proof -
  assume a: "pow2 e \<le> q" "q < pow2 (e + 1)"
  then have "0 < q" by (meson pow2_pos(1) order_less_le_trans)
  note b = exponent_bounds [OF this]
  have "pow2 e < pow2 (exponent q + 1)" "pow2 (exponent q) < pow2 (e + 1)" using a b by linarith+
  then show ?thesis by (simp add: pow2_less)
qed

definition rne :: "rat \<Rightarrow> int" where
  "rne x = (let f = \<lfloor>x\<rfloor>; r = x - of_int f
            in if r < 1/2 then f else if 1/2 < r then f + 1 else if even f then f else f + 1)"

lemma rne_near: "\<bar>of_int (rne x) - x\<bar> \<le> 1/2"
  using floor_correct [of x] by (auto simp: rne_def Let_def)

lemma rne_int [simp]: "rne (of_int k) = k" by (simp add: rne_def)

lemma rne_bounds: "of_int a \<le> x \<Longrightarrow> x \<le> of_int b \<Longrightarrow> a \<le> rne x \<and> rne x \<le> b"
proof
  assume a: "of_int a \<le> x" "x \<le> of_int b"
  have "of_int a - 1 < (of_int (rne x) :: rat)" "of_int (rne x) < (of_int b + 1 :: rat)"
    using rne_near [of x] a by linarith+
  then show "a \<le> rne x" "rne x \<le> b" by linarith+
qed

text \<open>
  Twenty-four significant bits, the smallest step being \<open>2\<close> to the power of \<open>-149\<close>; from \<open>2\<close> to the power of \<open>128\<close> on
  the result is an infinity.
\<close>

definition ulp :: "rat \<Rightarrow> int" where
  "ulp a = max (exponent a - 23) (- 149)"

definition rnd :: "rat \<Rightarrow> FLOAT_T" where
  "rnd q = (if q = 0 then Fin 0
     else let a = \<bar>q\<bar>; e = ulp a; r = of_int (rne (a / pow2 e)) * pow2 e
          in if r \<ge> pow2 128 then Inf (q < 0) else Fin (if q < 0 then - r else r))"

lemma ulp_below:
  assumes "0 < a" "a < pow2 k" "- 125 \<le> k" shows "ulp a \<le> k - 24"
proof -
  have "pow2 (exponent a) < pow2 k" using exponent_bounds [OF assms(1)] assms(2) by linarith
  then have "exponent a < k" by (simp add: pow2_less)
  then show ?thesis using assms(3) by (simp add: ulp_def)
qed

lemma rnd_exact:
  assumes k: "q = of_int k * pow2 e" "\<bar>k\<bar> < 2 ^ 24" and e: "- 149 \<le> e" and q: "\<bar>q\<bar> < pow2 128"
  shows "rnd q = Fin q"
proof (cases "k = 0")
  case False
  let ?a = "\<bar>q\<bar>" and ?u = "ulp \<bar>q\<bar>"
  have a: "?a = of_int \<bar>k\<bar> * pow2 e" "0 < ?a" using k False by (simp_all add: abs_mult)
  have "of_int \<bar>k\<bar> < (of_int (2 ^ 24) :: rat)" using k(2) by (simp only: of_int_less_iff)
  moreover have "pow2 24 = of_int (2 ^ 24)" by (simp add: pow2_def)
  ultimately have "?a < pow2 24 * pow2 e" unfolding a(1) by (simp add: mult_strict_right_mono)
  then have "?a < pow2 (e + 24)" by (simp add: pow2_add mult.commute)
  then have "ulp ?a \<le> e" using a(2) e by (cases "- 149 \<le> e") (use ulp_below [of ?a "e + 24"] in auto)
  then have "pow2 (e - ?u) = of_int (2 ^ nat (e - ?u))" by (simp add: pow2_nat)
  then have "?a / pow2 ?u = of_int (\<bar>k\<bar> * 2 ^ nat (e - ?u))" unfolding of_int_mult by (metis a(1) pow2_diff times_divide_eq_right)
  then have "of_int (rne (?a / pow2 ?u)) * pow2 ?u = ?a" by (metis rne_int nonzero_eq_divide_eq pow2_pos(2))
  then show ?thesis using q a(2) by (auto simp: rnd_def Let_def)
qed (use k in \<open>simp add: rnd_def\<close>)

text \<open>Below a power of two the error is at most half a step of that binade, and the sign and the bound are kept.\<close>

lemma rnd_error:
  assumes q: "\<bar>q\<bar> < pow2 k" and k: "- 125 \<le> k" "k \<le> 127"
  obtains r where "rnd q = Fin r" "\<bar>r - q\<bar> \<le> pow2 (k - 25)" "\<bar>r\<bar> \<le> pow2 k" "0 \<le> q \<Longrightarrow> 0 \<le> r" "q \<le> 0 \<Longrightarrow> r \<le> 0"
proof (cases "q = 0")
  case True
  then show thesis by (intro that [of 0]) (auto simp: rnd_def)
next
  case False
  let ?a = "\<bar>q\<bar>" and ?u = "ulp \<bar>q\<bar>"
  let ?m = "rne (?a / pow2 ?u)"
  let ?r = "of_int ?m * pow2 ?u"
  have u: "?u \<le> k - 24" using ulp_below [OF _ q k(1)] False by simp
  have m0: "0 \<le> ?m" using rne_bounds [of 0 "?a / pow2 ?u"] by (metis abs_ge_zero divide_nonneg_pos of_int_0 pow2_pos(1) order_refl of_int_ceiling_cancel le_of_int_ceiling)
  have "?a / pow2 ?u \<le> pow2 (k - ?u)" using q by (simp add: pow2_diff divide_right_mono)
  also have "\<dots> = of_int (2 ^ nat (k - ?u))" using u by (simp add: pow2_nat)
  finally have "?m \<le> 2 ^ nat (k - ?u)" using rne_bounds [of 0 "?a / pow2 ?u" "2 ^ nat (k - ?u)"] by simp
  then have "of_int ?m \<le> pow2 (k - ?u)" using u by (simp add: pow2_nat del: of_int_power flip: of_int_le_iff)
  then have r1: "?r \<le> pow2 k" by (simp add: pow2_diff field_simps)
  have "?r - ?a = (of_int ?m - ?a / pow2 ?u) * pow2 ?u" by (simp add: left_diff_distrib)
  then have "\<bar>?r - ?a\<bar> = \<bar>of_int ?m - ?a / pow2 ?u\<bar> * pow2 ?u" by (simp add: abs_mult)
  also have "\<dots> \<le> 1 / 2 * pow2 ?u" by (rule mult_right_mono [OF rne_near]) simp
  also have "\<dots> \<le> 1 / 2 * pow2 (k - 24)" using pow2_mono [OF u] by simp
  also have "\<dots> = pow2 (k - 25)" using pow2_add [of 1 "k - 25"] by (simp add: pow2_def)
  finally have r2: "\<bar>?r - ?a\<bar> \<le> pow2 (k - 25)" .
  have "pow2 k \<le> pow2 127" by (rule pow2_mono [OF k(2)])
  then have "?r < pow2 128" using r1 by (simp add: pow2_def)
  then have "rnd q = Fin (if q < 0 then - ?r else ?r)" using False by (simp add: rnd_def Let_def)
  moreover have "0 \<le> ?r" using m0 by simp
  ultimately show thesis using r1 r2 False by (intro that [of "if q < 0 then - ?r else ?r"]) auto
qed

lemma rnd_error':
  assumes "\<bar>q\<bar> < pow2 k" "- 125 \<le> k" "k \<le> 127" "0 \<le> q"
  shows "\<exists>r. rnd q = Fin r \<and> \<bar>r - q\<bar> \<le> pow2 (k - 25) \<and> 0 \<le> r"
  by (rule rnd_error [OF assms(1-3)]) (use assms(4) in blast)

text \<open>What was rounded once is representable.\<close>

definition repr :: "FLOAT_T \<Rightarrow> bool" where
  "repr v = (case v of Fin q \<Rightarrow> rnd q = Fin q | _ \<Rightarrow> True)"

lemma below_ulp: "0 < a \<Longrightarrow> a < pow2 (ulp a + 24)"
proof -
  assume a: "0 < a"
  have "exponent a + 1 \<le> ulp a + 24" by (simp add: ulp_def max_def)
  then show ?thesis using exponent_bounds [OF a] pow2_mono by (meson order_less_le_trans)
qed

lemma mant_bounds:
  assumes "0 < a" shows "0 \<le> rne (a / pow2 (ulp a))" "rne (a / pow2 (ulp a)) \<le> 2 ^ 24" "- 149 \<le> ulp a"
proof -
  have "a < pow2 (ulp a + 24)" by (rule below_ulp [OF assms])
  then have "a / pow2 (ulp a) \<le> pow2 24" by (simp add: pow2_add field_simps)
  then have "a / pow2 (ulp a) \<le> of_int (2 ^ 24)" by (simp add: pow2_def)
  then show "rne (a / pow2 (ulp a)) \<le> 2 ^ 24" "0 \<le> rne (a / pow2 (ulp a))"
    using rne_bounds [of 0 "a / pow2 (ulp a)" "2 ^ 24"] assms by simp_all
qed (simp add: ulp_def)

lemma rnd_repr: "repr (rnd q)"
proof (cases "rnd q")
  case (Fin r)
  show ?thesis
  proof (cases "q = 0")
    case True
    then show ?thesis by (simp add: repr_def rnd_def)
  next
    case False
    let ?u = "ulp \<bar>q\<bar>" let ?m = "rne (\<bar>q\<bar> / pow2 ?u)"
    have m: "0 \<le> ?m" "?m \<le> 2 ^ 24" "- 149 \<le> ?u" using mant_bounds [of "\<bar>q\<bar>"] False by simp_all
    have r: "r = of_int (if q < 0 then - ?m else ?m) * pow2 ?u" "\<bar>r\<bar> < pow2 128"
      using Fin False m by (auto simp: rnd_def Let_def not_le abs_mult split: if_splits)
    show ?thesis
    proof (cases "?m = 2 ^ 24")
      case True
      have "r = of_int (if q < 0 then - (2 ^ 23) else 2 ^ 23) * pow2 (?u + 1)"
        unfolding r(1) True by (simp add: pow2_add pow2_one)
      then show ?thesis using rnd_exact [OF _ _ _ r(2)] m(3) Fin by (simp add: repr_def split: if_splits)
    next
      case False
      then show ?thesis using rnd_exact [OF r(1) _ m(3) r(2)] m Fin by (cases "q < 0") (simp_all add: repr_def)
    qed
  qed
qed (simp_all add: repr_def)

section \<open>Operations\<close>

definition fadd :: "FLOAT_T \<Rightarrow> FLOAT_T \<Rightarrow> FLOAT_T" where
  "fadd x y = (case (x, y) of
     (Fin a, Fin b) \<Rightarrow> rnd (a + b)
   | (Fin a, Inf s) \<Rightarrow> Inf s
   | (Inf s, Fin b) \<Rightarrow> Inf s
   | (Inf s, Inf t) \<Rightarrow> if s = t then Inf s else NaN
   | _ \<Rightarrow> NaN)"

definition fneg :: "FLOAT_T \<Rightarrow> FLOAT_T" where
  "fneg x = (case x of Fin a \<Rightarrow> Fin (- a) | Inf s \<Rightarrow> Inf (\<not> s) | NaN \<Rightarrow> NaN)"

definition fsub :: "FLOAT_T \<Rightarrow> FLOAT_T \<Rightarrow> FLOAT_T" where
  "fsub x y = fadd x (fneg y)"

definition fsign :: "FLOAT_T \<Rightarrow> bool" where
  "fsign x = (case x of Fin a \<Rightarrow> a < 0 | Inf s \<Rightarrow> s | NaN \<Rightarrow> False)"

definition fmul :: "FLOAT_T \<Rightarrow> FLOAT_T \<Rightarrow> FLOAT_T" where
  "fmul x y = (if x = NaN \<or> y = NaN then NaN
     else case (x, y) of
       (Fin a, Fin b) \<Rightarrow> rnd (a * b)
     | _ \<Rightarrow> if x = Fin 0 \<or> y = Fin 0 then NaN else Inf (fsign x \<noteq> fsign y))"

definition fdiv :: "FLOAT_T \<Rightarrow> FLOAT_T \<Rightarrow> FLOAT_T" where
  "fdiv x y = (case (x, y) of
     (Fin a, Fin b) \<Rightarrow> if b \<noteq> 0 then rnd (a / b) else if a = 0 then NaN else Inf (a < 0)
   | (Fin a, Inf s) \<Rightarrow> Fin 0
   | (Inf s, Fin b) \<Rightarrow> Inf (s \<noteq> (b < 0))
   | _ \<Rightarrow> NaN)"

definition fless :: "FLOAT_T \<Rightarrow> FLOAT_T \<Rightarrow> bool" where
  "fless x y = (case (x, y) of
     (Fin a, Fin b) \<Rightarrow> a < b
   | (Fin a, Inf s) \<Rightarrow> \<not> s
   | (Inf s, Fin b) \<Rightarrow> s
   | (Inf s, Inf t) \<Rightarrow> s \<and> \<not> t
   | _ \<Rightarrow> False)"

definition feq :: "FLOAT_T \<Rightarrow> FLOAT_T \<Rightarrow> bool" where
  "feq x y = (x = y \<and> x \<noteq> NaN)"

text \<open>From an integer, and back to an unsigned one by dropping the fraction, which is undefined outside its range.\<close>

definition of_int_f :: "int \<Rightarrow> FLOAT_T" where "of_int_f k = rnd (of_int k)"

definition to_u16 :: "FLOAT_T \<Rightarrow> u16 option" where
  "to_u16 x = (case x of
     Fin a \<Rightarrow> if - 1 < a \<and> a < 65536 then Some (word_of_int (if a < 0 then 0 else \<lfloor>a\<rfloor>)) else None
   | _ \<Rightarrow> None)"

section \<open>Values in memory\<close>

definition sr_float :: "u32 \<Rightarrow> FLOAT_T" where
  "sr_float w = (let n = uint w; E = n div 2 ^ 23 mod 256; f = n mod 2 ^ 23; s = (2 ^ 31 \<le> n)
     in if E = 255 then (if f = 0 then Inf s else NaN)
        else let v = (if E = 0 then of_int f * pow2 (- 149) else of_int (2 ^ 23 + f) * pow2 (E - 150))
             in Fin (if s then - v else v))"

definition put_float :: "FLOAT_T \<Rightarrow> u32" where
  "put_float v = (case v of
     Fin q \<Rightarrow> if q = 0 then 0
       else word_of_int ((if q < 0 then 2 ^ 31 else 0) + (ulp \<bar>q\<bar> + 149) * 2 ^ 23 + rne (\<bar>q\<bar> / pow2 (ulp \<bar>q\<bar>)))
   | Inf s \<Rightarrow> if s then 0xFF800000 else 0x7F800000
   | NaN \<Rightarrow> 0x7FC00000)"

lemma word_split32:
  assumes "0 \<le> E" "E < 256" "0 \<le> f" "f < 2 ^ 23"
  shows "uint (word_of_int ((if s then 2 ^ 31 else 0) + E * 2 ^ 23 + f) :: u32) = (if s then 2 ^ 31 else 0) + E * 2 ^ 23 + f"
proof -
  let ?n = "(if s then 2 ^ 31 else 0) + E * 2 ^ 23 + f"
  have "0 \<le> ?n" "?n < 2 ^ 32" using assms by (simp_all split: if_splits)
  then have "take_bit 32 ?n = ?n" by (rule take_bit_int_eq_self)
  then show ?thesis by (simp only: uint_word_of_int_eq) simp
qed

lemma fields32:
  assumes n: "n = (if s then 2 ^ 31 else 0) + E * 2 ^ 23 + f" and b: "0 \<le> E" "E < 256" "0 \<le> f" "f < (2 ^ 23 :: int)"
  shows "n div 2 ^ 23 mod 256 = E" "n mod 2 ^ 23 = f" "2 ^ 31 \<le> n \<longleftrightarrow> s"
proof -
  have k: "n = 2 ^ 23 * ((if s then 256 else 0) + E) + f" using n by simp
  have "n div 2 ^ 23 = (if s then 256 else 0) + E" by (rule int_div_pos_eq [OF k b(3,4)])
  then show "n div 2 ^ 23 mod 256 = E" using b by simp
  show "n mod 2 ^ 23 = f" by (rule int_mod_pos_eq [OF k b(3,4)])
  show "2 ^ 31 \<le> n \<longleftrightarrow> s" using n b by (cases s) simp_all
qed

lemma put_float_sr_float: "repr v \<Longrightarrow> sr_float (put_float v) = v"
proof (cases v)
  case (Fin q)
  assume rp: "repr v"
  show ?thesis
  proof (cases "q = 0")
    case True
    then show ?thesis using Fin by (simp add: put_float_def sr_float_def)
  next
    case False
    let ?a = "\<bar>q\<bar>" let ?u = "ulp ?a" let ?m = "rne (?a / pow2 ?u)" let ?s = "q < 0"
    have a: "0 < ?a" using False by simp
    have ex: "of_int ?m * pow2 ?u = ?a" "?a < pow2 128"
      using rp Fin False by (auto simp: repr_def rnd_def Let_def not_le split: if_splits)
    note b = exponent_bounds [OF a]
    have m0: "0 \<le> ?m" "- 149 \<le> ?u" using mant_bounds [OF a] by simp_all
    have "pow2 (exponent ?a) < pow2 128" using b ex(2) by linarith
    then have e127: "exponent ?a \<le> 127" by (simp add: pow2_less)
    have "?a < pow2 (?u + 24)" by (rule below_ulp [OF a])
    then have "of_int ?m * pow2 ?u < of_int (2 ^ 24) * pow2 ?u" using ex(1) by (simp add: pow2_add) (simp add: pow2_def)
    then have m24: "?m < 2 ^ 24" by (simp only: mult_less_cancel_right_pos pow2_pos of_int_less_iff)
    show ?thesis
    proof (cases "?m < 2 ^ 23")
      case True
      have "?u = - 149"
      proof (rule ccontr)
        assume "?u \<noteq> - 149"
        then have "?u = exponent ?a - 23" by (simp add: ulp_def max_def split: if_splits)
        then have "pow2 (?u + 23) \<le> of_int ?m * pow2 ?u" using b ex(1) by simp
        then have "of_int (2 ^ 23) * pow2 ?u \<le> of_int ?m * pow2 ?u" by (simp add: pow2_add) (simp add: pow2_def)
        then have "(2 ^ 23 :: int) \<le> ?m" by (simp only: mult_le_cancel_right_pos pow2_pos of_int_le_iff)
        then show False using True by simp
      qed
      then have "uint (put_float v) = (if ?s then 2 ^ 31 else 0) + 0 * 2 ^ 23 + ?m"
        using word_split32 [of 0 ?m ?s] m0 True Fin False by (simp add: put_float_def)
      from fields32 [OF this _ _ m0(1) True]
      have "sr_float (put_float v) = Fin (if ?s then - (of_int ?m * pow2 (- 149)) else of_int ?m * pow2 (- 149))"
        by (simp only: sr_float_def Let_def) simp
      also have "\<dots> = Fin (if ?s then - ?a else ?a)" using ex(1) unfolding \<open>?u = - 149\<close> by (simp only:)
      finally show ?thesis using Fin by simp
    next
      case False
      have E: "?u + 150 < 255" using e127 by (simp add: ulp_def)
      have w: "uint (put_float v) = (if ?s then 2 ^ 31 else 0) + (?u + 150) * 2 ^ 23 + (?m - 2 ^ 23)"
        using word_split32 [of "?u + 150" "?m - 2 ^ 23" ?s] m0 m24 E Fin \<open>q \<noteq> 0\<close> False by (simp add: put_float_def algebra_simps)
      have r: "0 \<le> ?u + 150" "?u + 150 < 256" "0 \<le> ?m - 2 ^ 23" "?m - 2 ^ 23 < 2 ^ 23" using m0 m24 E False by simp_all
      have "?u + 150 \<noteq> 255" "?u + 150 \<noteq> 0" using m0 E by simp_all
      then have "sr_float (put_float v) = Fin (if ?s then - (of_int (2 ^ 23 + (?m - 2 ^ 23)) * pow2 (?u + 150 - 150))
          else of_int (2 ^ 23 + (?m - 2 ^ 23)) * pow2 (?u + 150 - 150))"
        unfolding sr_float_def Let_def fields32 [OF w r] by (simp only: if_False)
      also have "\<dots> = Fin (if ?s then - ?a else ?a)" using ex(1) by (simp only: add_diff_cancel_right' diff_add_cancel add.commute [of "2 ^ 23"])
      finally show ?thesis using Fin by simp
    qed
  qed
qed (simp_all add: put_float_def sr_float_def)

lemma sr_float_zero [simp]: "sr_float 0 = Fin 0" by (simp add: sr_float_def)

section \<open>Scaling a 16-bit reading\<close>

lemma pow2_val: "pow2 24 = 16777216" "pow2 16 = 65536" "pow2 8 = 256" "pow2 128 = 2 ^ 128" "pow2 (- 1) = 1 / 2" "pow2 (- 9) = 1 / 512" "pow2 (- 17) = 1 / 131072"
  by (simp_all add: pow2_def)

lemma rnd_int: "\<bar>k\<bar> < 2 ^ 24 \<Longrightarrow> rnd (of_int k) = Fin (of_int k)"
proof -
  assume k: "\<bar>k\<bar> < 2 ^ 24"
  then have "\<bar>of_int k :: rat\<bar> < of_int (2 ^ 24)" by (metis of_int_abs of_int_less_iff)
  also have "\<dots> < pow2 128" by (simp add: pow2_val)
  finally show ?thesis using k by (intro rnd_exact [of _ k 0]) (simp_all add: pow2_def)
qed

text \<open>A product of small integers is exact, and a quotient below 256 is off by at most \<open>2\<close> to the power of \<open>-17\<close>.\<close>

lemma scale_up:
  assumes "0 \<le> n" "n < 65536" "0 < D" "D < 256"
  obtains q where "fdiv (fmul (of_int_f n) (Fin (of_int D))) (Fin 65535) = Fin q" "\<bar>q - of_int n * of_int D / 65535\<bar> \<le> 1 / 131072" "0 \<le> q"
proof -
  have b: "0 \<le> n * D" "n * D \<le> 65535 * 255" using assms mult_mono [of n 65535 D 255] by simp_all
  have m: "fmul (of_int_f n) (Fin (of_int D)) = Fin (of_int (n * D))"
    using rnd_int [of n] rnd_int [of "n * D"] assms b by (simp add: of_int_f_def fmul_def)
  let ?q = "of_int (n * D) / 65535 :: rat"
  have "of_int (n * D) \<le> (of_int (65535 * 255) :: rat)" using b(2) by (simp only: of_int_le_iff)
  then have q: "0 \<le> ?q" "?q < pow2 8" using b(1) by (simp_all add: pow2_val del: of_int_mult)
  obtain r where "rnd ?q = Fin r" "\<bar>r - ?q\<bar> \<le> pow2 (8 - 25)" "0 \<le> r" using rnd_error' [of ?q 8] q by auto
  then show thesis using m by (intro that [of r]) (simp_all add: fdiv_def pow2_val)
qed

text \<open>The way back, from a number of at most 170 to the raw word.\<close>

lemma scale_down:
  assumes "0 \<le> a" "a \<le> 171" "a * 65535 / D \<le> 65535 + 1 / 100" "100 \<le> D"
  obtains c where "fdiv (fmul (Fin a) (Fin 65535)) (Fin D) = Fin c" "\<bar>c - a * 65535 / D\<bar> \<le> 1 / 200 + 1 / 512" "0 \<le> c" "c < 65536"
proof -
  have a: "\<bar>a * 65535\<bar> < pow2 24" "0 \<le> a * 65535" using assms(1,2) by (simp_all add: pow2_val)
  obtain b where "rnd (a * 65535) = Fin b" "\<bar>b - a * 65535\<bar> \<le> pow2 (24 - 25)" "0 \<le> b"
    using rnd_error' [OF a(1) _ _ a(2)] by auto
  then have b: "rnd (a * 65535) = Fin b" "\<bar>b - a * 65535\<bar> \<le> 1 / 2" "0 \<le> b" by (simp_all add: pow2_val)
  have D: "0 < D" using assms(4) by simp
  have "\<bar>b / D - a * 65535 / D\<bar> = \<bar>b - a * 65535\<bar> / D" 
    unfolding diff_divide_distrib [symmetric] abs_divide using D by (simp only: abs_of_pos)
  also have "\<dots> \<le> (1 / 2) / 100" using b(2) assms(4) by (intro frac_le) auto
  finally have bd: "\<bar>b / D - a * 65535 / D\<bar> \<le> 1 / 200" by simp
  have p: "0 \<le> b / D" using b(3) D by simp
  have q: "\<bar>b / D\<bar> < pow2 16" using bd assms(3) p unfolding pow2_val by linarith
  obtain c where "rnd (b / D) = Fin c" "\<bar>c - b / D\<bar> \<le> pow2 (16 - 25)" "0 \<le> c"
    using rnd_error' [OF q _ _ p] by auto
  then have c: "rnd (b / D) = Fin c" "\<bar>c - b / D\<bar> \<le> 1 / 512" "0 \<le> c" by (simp_all add: pow2_val)
  have "\<bar>c - a * 65535 / D\<bar> \<le> 1 / 200 + 1 / 512" using bd c(2) by linarith
  moreover from this have "c < 65536" using assms(3) by linarith
  moreover have "fdiv (fmul (Fin a) (Fin 65535)) (Fin D) = Fin c" using b(1) c(1) D by (simp add: fmul_def fdiv_def)
  ultimately show thesis using c(3) by (intro that)
qed

lemma rnd_off: "\<bar>q\<bar> < 256 \<Longrightarrow> \<exists>r. rnd q = Fin r \<and> \<bar>r - q\<bar> \<le> 1 / 131072"
  using rnd_error [of q 8] by (simp add: pow2_val) blast

text \<open>A reading times a factor, over 65535, less an offset, as the application finds it in memory.\<close>

lemma scale_shift:
  assumes "0 \<le> n" "n < 65536" "0 < D" "D < 256" "0 \<le> off" "off \<le> 100"
  shows "\<exists>r. sr_float (put_float (fsub (fdiv (fmul (of_int_f n) (Fin (of_int D))) (Fin 65535)) (Fin off))) = Fin r \<and>
    \<bar>r - (of_int n * of_int D / 65535 - off)\<bar> \<le> 1 / 65536"
proof -
  obtain q where q: "fdiv (fmul (of_int_f n) (Fin (of_int D))) (Fin 65535) = Fin q" "\<bar>q - of_int n * of_int D / 65535\<bar> \<le> 1 / 131072" "0 \<le> q"
    using scale_up [OF assms(1-4)] by blast
  have "n * D \<le> 65535 * 255" using mult_mono [of n 65535 D 255] assms by simp
  then have "of_int (n * D) \<le> (of_int (65535 * 255) :: rat)" by (simp only: of_int_le_iff)
  then have "of_int n * of_int D / 65535 \<le> (255 :: rat)" by simp
  then have "\<bar>q - off\<bar> < 256" using q(2,3) assms(5,6) by linarith
  then obtain r where r: "rnd (q - off) = Fin r" "\<bar>r - (q - off)\<bar> \<le> 1 / 131072" using rnd_off by blast
  have "sr_float (put_float (rnd (q - off))) = rnd (q - off)" by (rule put_float_sr_float [OF rnd_repr])
  moreover have "\<bar>r - (of_int n * of_int D / 65535 - off)\<bar> \<le> 1 / 65536" using q(2) r(2) by linarith
  ultimately show ?thesis using q(1) r(1) by (intro exI [of _ r] conjI) (simp_all add: fsub_def fadd_def fneg_def)
qed

lemma scale_only:
  assumes "0 \<le> n" "n < 65536" "0 < D" "D < 256"
  shows "\<exists>r. sr_float (put_float (fdiv (fmul (of_int_f n) (Fin (of_int D))) (Fin 65535))) = Fin r \<and>
    \<bar>r - of_int n * of_int D / 65535\<bar> \<le> 1 / 131072 \<and> 0 \<le> r"
proof -
  obtain q where q: "fdiv (fmul (of_int_f n) (Fin (of_int D))) (Fin 65535) = Fin q" "\<bar>q - of_int n * of_int D / 65535\<bar> \<le> 1 / 131072" "0 \<le> q"
    using scale_up [OF assms] by blast
  have m: "fmul (of_int_f n) (Fin (of_int D)) = Fin (of_int (n * D))"
    using rnd_int [of n] rnd_int [of "n * D"] assms mult_mono [of n 65535 D 255] by (simp add: of_int_f_def fmul_def)
  have "repr (Fin q)" using rnd_repr [of "of_int (n * D) / 65535"] q(1) by (simp add: m fdiv_def)
  then show ?thesis using q put_float_sr_float by auto
qed

text \<open>The raw word of a physical value, with the offset added first or without.\<close>

lemma raw_shift:
  assumes "- off \<le> t" "t \<le> 170 - off" "0 \<le> off" "off \<le> 100" "(t + off) * 65535 / D \<le> 65535" "140 \<le> D"
  shows "\<exists>c. to_u16 (fdiv (fmul (fadd (Fin t) (Fin off)) (Fin 65535)) (Fin D)) = Some (word_of_int \<lfloor>c\<rfloor>) \<and>
    \<bar>c - (t + off) * 65535 / D\<bar> \<le> 1 / 80 \<and> 0 \<le> c \<and> c < 65536"
proof -
  have q: "\<bar>t + off\<bar> < pow2 8" "0 \<le> t + off" using assms by (simp_all add: pow2_val)
  obtain a where "rnd (t + off) = Fin a" "\<bar>a - (t + off)\<bar> \<le> pow2 (8 - 25)" "0 \<le> a" using rnd_error' [OF q(1) _ _ q(2)] by auto
  then have a: "rnd (t + off) = Fin a" "\<bar>a - (t + off)\<bar> \<le> 1 / 131072" "0 \<le> a" by (simp_all add: pow2_val)
  have D: "0 < D" using assms(6) by simp
  have "\<bar>a * 65535 / D - (t + off) * 65535 / D\<bar> = \<bar>a - (t + off)\<bar> * 65535 / D"
    unfolding diff_divide_distrib [symmetric] left_diff_distrib [symmetric] abs_divide abs_mult using D by simp
  also have "\<dots> \<le> (1 / 131072 * 65535) / 140" using a(2) assms(6) by (intro frac_le mult_right_mono) auto
  finally have d: "\<bar>a * 65535 / D - (t + off) * 65535 / D\<bar> \<le> 1 / 240" by simp
  have "a \<le> 171" "a * 65535 / D \<le> 65535 + 1 / 100" using a(2) assms(2,5) d by linarith+
  from scale_down [OF a(3) this] assms(6) obtain c where c: "fdiv (fmul (Fin a) (Fin 65535)) (Fin D) = Fin c" "\<bar>c - a * 65535 / D\<bar> \<le> 1 / 200 + 1 / 512" "0 \<le> c" "c < 65536"
    by auto
  have "\<bar>c - (t + off) * 65535 / D\<bar> \<le> 1 / 80" using c(2) d by linarith
  then show ?thesis using c a(1) by (intro exI [of _ c]) (simp add: fadd_def to_u16_def)
qed

lemma raw_only:
  assumes "0 \<le> v" "v \<le> 100"
  shows "\<exists>c. to_u16 (fdiv (fmul (Fin v) (Fin 65535)) (Fin 100)) = Some (word_of_int \<lfloor>c\<rfloor>) \<and>
    \<bar>c - v * 65535 / 100\<bar> \<le> 1 / 80 \<and> 0 \<le> c \<and> c < 65536"
proof -
  have "v \<le> 171" "v * 65535 / 100 \<le> 65535 + 1 / 100" using assms by simp_all
  from scale_down [OF assms(1) this] obtain c where "fdiv (fmul (Fin v) (Fin 65535)) (Fin 100) = Fin c" "\<bar>c - v * 65535 / 100\<bar> \<le> 1 / 200 + 1 / 512" "0 \<le> c" "c < 65536"
    by auto
  then show ?thesis by (intro exI [of _ c]) (simp add: to_u16_def)
qed

end
