(* ===== verification/Sensor_Hub.thy ===== *)
theory Sensor_Hub
  imports Sensor_Float
begin

text \<open>
  The sensor manager, \<^verbatim>\<open>tdl_sensor_hub.c\<close>, with the types of \<^verbatim>\<open>tdl_sensor_type.h\<close>, \<^verbatim>\<open>tdl_sensor_driver.h\<close> and
  \<^verbatim>\<open>tdl_sensor_hub.h\<close>. Timers, pin interrupts and the acquisition task are events; a round of the task between two waits for
  its semaphore is one step. The drivers are called through the table of functions they register and act on a world
  of their own. What the operating system answers is a parameter, what it is asked for is recorded, and so is
  every report to the application, with the values the application can see in it.

  The union of an integer and a float is its 32 bits. The value area behind the element buffers of a FIFO is a list, and
  a pointer into it an index.
\<close>

section \<open>Data\<close>

type_synonym SR_VAL_U = u32

abbreviation (input) sr_int :: "SR_VAL_U \<Rightarrow> int" where "sr_int v \<equiv> sint v"

record SR_ELE_DATA_T =
  ed_id :: u8
  ed_val :: SR_VAL_U

record SR_RAW_DATA_T =
  raw_data_len :: u32
  raw_data_bytes :: "u8 list"

record SR_ELE_CFG_T =
  ec_id :: u8
  ec_val_tp :: u8

record SR_RSRC_T =
  rs_type :: u8
  rs_port :: u8
  rs_handle :: u32
  rs_info :: "u8 list"

record ('p, 'w) SR_INTFS_T =
  in_open :: "(SR_RSRC_T \<Rightarrow> 'w \<Rightarrow> (OPERATE_RET \<times> SR_RSRC_T \<times> 'w) option) option"
  in_close :: "(SR_RSRC_T \<Rightarrow> 'w \<Rightarrow> (OPERATE_RET \<times> SR_RSRC_T \<times> 'w) option) option"
  in_control :: "(SR_RSRC_T \<Rightarrow> u8 \<Rightarrow> 'p \<Rightarrow> 'w \<Rightarrow> (OPERATE_RET \<times> 'p \<times> SR_RSRC_T \<times> 'w) option) option"
  in_read_ele :: "(SR_RSRC_T \<Rightarrow> SR_ELE_DATA_T list \<Rightarrow> u8 \<Rightarrow> 'w \<Rightarrow> (OPERATE_RET \<times> SR_ELE_DATA_T list \<times> SR_RSRC_T \<times> 'w) option) option"
  in_read_raw :: "(SR_RSRC_T \<Rightarrow> SR_RAW_DATA_T \<Rightarrow> 'w \<Rightarrow> (OPERATE_RET \<times> SR_RAW_DATA_T \<times> SR_RSRC_T \<times> 'w) option) option"

record SR_WORK_MODE_T =
  m_trig_mode :: u8
  m_poll_intv_ms :: u32
  m_irq_pin :: u32
  m_irq_mode :: u32

record SR_ELE_BUFF_T =
  eb_id :: u8
  eb_val_tp :: u8
  eb_val_num :: u8
  eb_val :: nat

record SR_FILTETR_U =
  fl_max :: SR_VAL_U
  fl_min :: SR_VAL_U
  fl_step :: SR_VAL_U

record SR_ELE_SUB_RULE_T =
  rl_id :: u8
  rl_val_num :: u8
  rl_filter :: SR_FILTETR_U

record SR_ELE_SUB_CFG_T =
  sub_tp :: u8
  sub_num :: u8
  sub_rule :: "SR_ELE_SUB_RULE_T list option"

record SR_DEV_CFG_T =
  cfg_mode :: SR_WORK_MODE_T
  cfg_inform_cb :: "nat option"
  cfg_fifo_size :: u8
  cfg_ele_sub :: "SR_ELE_SUB_CFG_T option"

record SR_FLAG_U =
  is_start :: bool
  is_need_acquire :: bool
  is_irq_occur :: bool

text \<open>Both members of the union of work parameters: pin and interrupt mode, or interval and elapsed time.\<close>

record SR_WORK_PARAM_T =
  wp_irq_pin_intv_ms :: u32
  wp_irq_mode_run_time_ms :: u32

record SR_APP_DATA_FIFO_U =
  fifo_ele :: "(SR_ELE_BUFF_T list \<times> SR_VAL_U list) option"
  fifo_raw_len :: u32
  fifo_raw_data :: "SR_RAW_DATA_T list option"

record ('p, 'w) SR_DEV_NODE_T =
  sr_name :: string
  flag :: SR_FLAG_U
  work_param :: SR_WORK_PARAM_T
  app_fifo :: SR_APP_DATA_FIFO_U
  ele_num :: u8
  ele_info :: "SR_ELE_CFG_T list"
  resource :: SR_RSRC_T
  intfs :: "('p, 'w) SR_INTFS_T"
  trig_mode :: u8
  inform_cb :: "nat option"
  fifo_size :: u8
  ele_sub :: "SR_ELE_SUB_CFG_T option"

record ele_report =
  er_id :: u8
  er_val_tp :: u8
  er_vals :: "SR_VAL_U list"

datatype sr_report = Ele_report nat string "ele_report list" | Raw_report nat string "SR_RAW_DATA_T list"

datatype sr_call =
  Thread_create | Sem_create | Sw_timer_create | Sw_timer_start u32 | Hw_timer_init nat | Hw_timer_start nat u32
| Irq_init u32 u32 | Irq_enable u32

record ('p, 'w) sr_hub =
  sr_devs :: "('p, 'w) SR_DEV_NODE_T list"
  soft_tm_cnt :: u32
  hard_tm_cnt :: u32
  task_sem :: nat
  is_frame_init :: bool
  is_soft_timer_init :: bool
  is_hard_timer_init :: bool
  hard_timer :: nat
  sr_calls :: "sr_call list"
  sr_reports :: "sr_report list"
  sr_world :: 'w

text \<open>The answers of the operating system.\<close>

record sr_env =
  node_malloc :: bool
  sub_malloc :: bool
  rule_malloc :: bool
  fifo_malloc :: bool
  data_malloc :: bool
  filter_malloc :: bool
  mutex_ret :: OPERATE_RET
  thread_ret :: OPERATE_RET
  sem_ret :: OPERATE_RET
  sw_create_ret :: OPERATE_RET
  sw_start_ret :: OPERATE_RET
  hw_init_ret :: "nat \<Rightarrow> OPERATE_RET"
  hw_start_ret :: OPERATE_RET
  irq_init_ret :: OPERATE_RET
  irq_enable_ret :: OPERATE_RET

abbreviation (input) OPRT_NOT_FOUND :: OPERATE_RET where "OPRT_NOT_FOUND \<equiv> - 6"
abbreviation (input) SR_DEV_NAME_MAX_LEN :: nat where "SR_DEV_NAME_MAX_LEN \<equiv> 16"
abbreviation (input) SR_VAL_TP_INT :: u8 where "SR_VAL_TP_INT \<equiv> 0"
abbreviation (input) SR_VAL_TP_FLOAT :: u8 where "SR_VAL_TP_FLOAT \<equiv> 1"
abbreviation (input) SR_MODE_POLL_SOFT_TM :: u8 where "SR_MODE_POLL_SOFT_TM \<equiv> 0"
abbreviation (input) SR_MODE_POLL_HARD_TM :: u8 where "SR_MODE_POLL_HARD_TM \<equiv> 1"
abbreviation (input) SR_MODE_EXTI :: u8 where "SR_MODE_EXTI \<equiv> 2"
abbreviation (input) SR_ELE_SUB_TP_GROUP :: u8 where "SR_ELE_SUB_TP_GROUP \<equiv> 0"
abbreviation (input) SR_ELE_SUB_TP_SINGLE :: u8 where "SR_ELE_SUB_TP_SINGLE \<equiv> 1"
abbreviation (input) SR_SOFT_TM_MIN_INTV_MS :: u32 where "SR_SOFT_TM_MIN_INTV_MS \<equiv> 10"
abbreviation (input) SR_HARD_TM_MIN_INTV_MS :: u32 where "SR_HARD_TM_MIN_INTV_MS \<equiv> 1"
abbreviation (input) TIMER_NUM_MAX :: nat where "TIMER_NUM_MAX \<equiv> 6"

abbreviation (input) flag_zero :: SR_FLAG_U where
  "flag_zero \<equiv> \<lparr>is_start = False, is_need_acquire = False, is_irq_occur = False\<rparr>"
abbreviation (input) work_zero :: SR_WORK_PARAM_T where
  "work_zero \<equiv> \<lparr>wp_irq_pin_intv_ms = 0, wp_irq_mode_run_time_ms = 0\<rparr>"
abbreviation (input) fifo_zero :: SR_APP_DATA_FIFO_U where
  "fifo_zero \<equiv> \<lparr>fifo_ele = None, fifo_raw_len = 0, fifo_raw_data = None\<rparr>"
abbreviation (input) raw_zero :: SR_RAW_DATA_T where
  "raw_zero \<equiv> \<lparr>raw_data_len = 0, raw_data_bytes = replicate 32 0\<rparr>"

datatype SR_DATA_TP_E = SR_DATA_TP_ELE | SR_DATA_TP_RAW

definition tdl_sensor_get_data_tp :: "u8 \<Rightarrow> SR_DATA_TP_E" where
  "tdl_sensor_get_data_tp n = (if n = 0 then SR_DATA_TP_RAW else SR_DATA_TP_ELE)"

abbreviation (input) is_ele :: "('p, 'w) SR_DEV_NODE_T \<Rightarrow> bool" where
  "is_ele device \<equiv> tdl_sensor_get_data_tp (ele_num device) = SR_DATA_TP_ELE"

definition hub_call :: "sr_call \<Rightarrow> ('p, 'w) sr_hub \<Rightarrow> ('p, 'w) sr_hub" where
  "hub_call c h = h\<lparr>sr_calls := sr_calls h @ [c]\<rparr>"

section \<open>Registration\<close>

definition tdl_sensor_find_dev_node :: "('p, 'w) SR_DEV_NODE_T list \<Rightarrow> string option \<Rightarrow> nat option" where
  "tdl_sensor_find_dev_node list name =
     (case name of None \<Rightarrow> None | Some nm \<Rightarrow> find_index (\<lambda>n. nm = sr_name n) list)"

definition static_tdl_sensor_register ::
  "sr_env \<Rightarrow> string \<Rightarrow> ('p, 'w) SR_INTFS_T \<Rightarrow> u8 \<Rightarrow> SR_ELE_CFG_T list \<Rightarrow> SR_RSRC_T \<Rightarrow> ('p, 'w) sr_hub \<Rightarrow> OPERATE_RET \<times> ('p, 'w) sr_hub" where
  "static_tdl_sensor_register env name ifs num cfg rs h =
     (if tdl_sensor_find_dev_node (sr_devs h) (Some name) \<noteq> None then (OPRT_COM_ERROR, h)
      else if \<not> node_malloc env then (OPRT_MALLOC_FAILED, h)
      else if mutex_ret env \<noteq> OPRT_OK then (mutex_ret env, h)
      else (OPRT_OK, h\<lparr>sr_devs := sr_devs h @
        [\<lparr>sr_name = take SR_DEV_NAME_MAX_LEN name, flag = flag_zero, work_param = work_zero, app_fifo = fifo_zero, ele_num = num,
          ele_info = (if tdl_sensor_get_data_tp num = SR_DATA_TP_ELE then cfg else []), resource = rs, intfs = ifs,
          trig_mode = 0, inform_cb = None, fifo_size = 0, ele_sub = None\<rparr>]\<rparr>))"

definition tdl_sensor_hub_frame_init :: "sr_env \<Rightarrow> ('p, 'w) sr_hub \<Rightarrow> OPERATE_RET \<times> ('p, 'w) sr_hub" where
  "tdl_sensor_hub_frame_init env h =
     (let h = hub_call Thread_create h
      in if thread_ret env \<noteq> OPRT_OK then (thread_ret env, h)
         else let h = hub_call Sem_create h
              in if sem_ret env \<noteq> OPRT_OK then (sem_ret env, h) else (OPRT_OK, h\<lparr>task_sem := 0\<rparr>))"

definition tdl_sensor_register ::
  "sr_env \<Rightarrow> string option \<Rightarrow> ('p, 'w) SR_INTFS_T option \<Rightarrow> u8 \<Rightarrow> SR_ELE_CFG_T list option \<Rightarrow> SR_RSRC_T \<Rightarrow> ('p, 'w) sr_hub
     \<Rightarrow> OPERATE_RET \<times> ('p, 'w) sr_hub" where
  "tdl_sensor_register env name ifs num cfg rs h =
     (case (name, ifs) of
        (Some nm, Some i) \<Rightarrow>
          if num \<noteq> 0 \<and> cfg = None then (OPRT_INVALID_PARM, h)
          else if in_open i = None \<or> in_close i = None \<or> in_control i = None then (OPRT_INVALID_PARM, h)
          else if num = 0 \<and> in_read_raw i = None \<or> num \<noteq> 0 \<and> in_read_ele i = None then (OPRT_INVALID_PARM, h)
          else let (r, h) = (if is_frame_init h then (OPRT_OK, h)
                             else let (r, h) = tdl_sensor_hub_frame_init env h
                                  in if r \<noteq> OPRT_OK then (r, h) else (OPRT_OK, h\<lparr>is_frame_init := True\<rparr>))
               in if r \<noteq> OPRT_OK then (r, h)
                  else static_tdl_sensor_register env nm i num (case cfg of None \<Rightarrow> [] | Some c \<Rightarrow> c) rs h
      | _ \<Rightarrow> (OPRT_INVALID_PARM, h))"

definition tdl_sensor_dev_find :: "('p, 'w) sr_hub \<Rightarrow> string option \<Rightarrow> OPERATE_RET \<times> nat option" where
  "tdl_sensor_dev_find h name =
     (case tdl_sensor_find_dev_node (sr_devs h) name of None \<Rightarrow> (OPRT_COM_ERROR, None) | Some d \<Rightarrow> (OPRT_OK, Some d))"

section \<open>Configuration\<close>

definition fle :: "FLOAT_T \<Rightarrow> FLOAT_T \<Rightarrow> bool" where "fle x y = (fless x y \<or> feq x y)"

text \<open>The two range macros name the lower bound twice, so the upper one never counts when the lower one is zero.\<close>

definition SR_IS_RANG_ERR :: "u8 \<Rightarrow> SR_VAL_U \<Rightarrow> SR_VAL_U \<Rightarrow> bool" where
  "SR_IS_RANG_ERR tp mx mn =
     (if tp = SR_VAL_TP_INT then sr_int mx \<le> sr_int mn \<and> (sr_int mn \<noteq> 0 \<or> sr_int mn \<noteq> 0)
      else fle (sr_float mx) (sr_float mn) \<and> (\<not> feq (sr_float mn) (Fin 0) \<or> \<not> feq (sr_float mn) (Fin 0)))"

definition SR_IS_VAL_OVER_RANG :: "u8 \<Rightarrow> SR_VAL_U \<Rightarrow> SR_VAL_U \<Rightarrow> SR_VAL_U \<Rightarrow> bool" where
  "SR_IS_VAL_OVER_RANG tp v mx mn =
     (if tp = SR_VAL_TP_INT
      then (sr_int v > sr_int mx \<or> sr_int v < sr_int mn) \<and> (sr_int mn \<noteq> 0 \<or> sr_int mn \<noteq> 0)
      else (fless (sr_float mx) (sr_float v) \<or> fless (sr_float v) (sr_float mn)) \<and>
        (\<not> feq (sr_float mn) (Fin 0) \<or> \<not> feq (sr_float mn) (Fin 0)))"

text \<open>With integers the step is unsigned, so sums and comparisons are unsigned as well.\<close>

definition SR_IS_VAL_DIFF_IN_STEP :: "u8 \<Rightarrow> SR_VAL_U \<Rightarrow> SR_VAL_U \<Rightarrow> SR_VAL_U \<Rightarrow> bool" where
  "SR_IS_VAL_DIFF_IN_STEP tp v1 v2 step =
     (if tp = SR_VAL_TP_INT then v1 < v2 + step \<and> v1 > v2 - step
      else fless (sr_float v1) (fadd (sr_float v2) (sr_float step)) \<and> fless (fsub (sr_float v2) (sr_float step)) (sr_float v1))"

text \<open>The search for an element among those of the device; the index where it stopped, or nothing when it ran to the end.\<close>

fun ele_search :: "SR_ELE_CFG_T list \<Rightarrow> u8 \<Rightarrow> nat list \<Rightarrow> nat option option" where
  "ele_search info eid [] = Some None"
| "ele_search info eid (j # js) = do { c \<leftarrow> rd info j; if ec_id c = eid then Some (Some j) else ele_search info eid js }"

text \<open>One rule of a subscription: an error, or the rule with its number of values corrected.\<close>

definition check_rule ::
  "('p, 'w) SR_DEV_NODE_T \<Rightarrow> u8 \<Rightarrow> u8 \<Rightarrow> SR_ELE_SUB_RULE_T \<Rightarrow> (SR_ELE_SUB_RULE_T option \<times> SR_ELE_SUB_RULE_T) option" where
  "check_rule device fsz tp r = do {
     f \<leftarrow> ele_search (ele_info device) (rl_id r) [0..<unat (ele_num device)];
     case f of
       None \<Rightarrow> Some (None, r)
     | Some j \<Rightarrow>
         if tp = SR_ELE_SUB_TP_SINGLE \<and> rl_val_num r > fsz then Some (None, r)
         else do {
           let r = (if tp = SR_ELE_SUB_TP_SINGLE then (if rl_val_num r = 0 then r\<lparr>rl_val_num := 1\<rparr> else r)
                    else r\<lparr>rl_val_num := fsz\<rparr>);
           c \<leftarrow> rd (ele_info device) j;
           Some (if SR_IS_RANG_ERR (ec_val_tp c) (fl_max (rl_filter r)) (fl_min (rl_filter r)) then (None, r) else (Some r, r)) } }"

fun check_rules ::
  "('p, 'w) SR_DEV_NODE_T \<Rightarrow> u8 \<Rightarrow> u8 \<Rightarrow> nat list \<Rightarrow> SR_ELE_SUB_RULE_T list \<Rightarrow> (OPERATE_RET \<times> SR_ELE_SUB_RULE_T list) option" where
  "check_rules device fsz tp [] rs = Some (OPRT_OK, rs)"
| "check_rules device fsz tp (i # is) rs = do {
     r \<leftarrow> rd rs i;
     (ok, r') \<leftarrow> check_rule device fsz tp r;
     case ok of
       None \<Rightarrow> Some (OPRT_INVALID_PARM, rs[i := r'])
     | Some r'' \<Rightarrow> check_rules device fsz tp is (rs[i := r'']) }"

definition tdl_sensor_check_config ::
  "('p, 'w) SR_DEV_NODE_T \<Rightarrow> SR_DEV_CFG_T \<Rightarrow> (OPERATE_RET \<times> SR_DEV_CFG_T) option" where
  "tdl_sensor_check_config device config =
     (if m_trig_mode (cfg_mode config) > SR_MODE_EXTI then Some (OPRT_INVALID_PARM, config)
      else if m_trig_mode (cfg_mode config) = SR_MODE_POLL_SOFT_TM \<and> m_poll_intv_ms (cfg_mode config) < SR_SOFT_TM_MIN_INTV_MS \<or>
              m_trig_mode (cfg_mode config) = SR_MODE_POLL_HARD_TM \<and> m_poll_intv_ms (cfg_mode config) < SR_HARD_TM_MIN_INTV_MS
      then Some (OPRT_INVALID_PARM, config)
      else if cfg_inform_cb config = None then Some (OPRT_INVALID_PARM, config)
      else let config = (if cfg_fifo_size config = 0 then config\<lparr>cfg_fifo_size := 1\<rparr> else config)
           in case cfg_ele_sub config of
                None \<Rightarrow> Some (OPRT_OK, config)
              | Some sub \<Rightarrow>
                  if \<not> is_ele device then Some (OPRT_OK, config\<lparr>cfg_ele_sub := None\<rparr>)
                  else if sub_tp sub > SR_ELE_SUB_TP_SINGLE then Some (OPRT_INVALID_PARM, config)
                  else if sub_num sub = 0 then Some (OPRT_INVALID_PARM, config)
                  else case sub_rule sub of
                    None \<Rightarrow> Some (OPRT_INVALID_PARM, config)
                  | Some rs \<Rightarrow> do {
                      (r, rs) \<leftarrow> check_rules device (cfg_fifo_size config) (sub_tp sub) [0..<unat (sub_num sub)] rs;
                      Some (r, config\<lparr>cfg_ele_sub := Some (sub\<lparr>sub_rule := Some rs\<rparr>)\<rparr>) })"

definition tdl_sensor_load_config ::
  "sr_env \<Rightarrow> ('p, 'w) SR_DEV_NODE_T \<Rightarrow> SR_DEV_CFG_T \<Rightarrow> (OPERATE_RET \<times> ('p, 'w) SR_DEV_NODE_T) option" where
  "tdl_sensor_load_config env device config = do {
     let m = cfg_mode config;
     let device = device\<lparr>trig_mode := m_trig_mode m\<rparr>;
     let device = (if m_trig_mode m = SR_MODE_EXTI
                   then device\<lparr>work_param := \<lparr>wp_irq_pin_intv_ms = m_irq_pin m, wp_irq_mode_run_time_ms = m_irq_mode m\<rparr>\<rparr>
                   else device\<lparr>work_param := (work_param device)\<lparr>wp_irq_pin_intv_ms := m_poll_intv_ms m\<rparr>\<rparr>);
     let device = device\<lparr>inform_cb := cfg_inform_cb config, fifo_size := cfg_fifo_size config\<rparr>;
     case cfg_ele_sub config of
       None \<Rightarrow> Some (OPRT_OK, device)
     | Some sub \<Rightarrow>
         let device = device\<lparr>ele_sub := None\<rparr>
         in if \<not> sub_malloc env \<or> \<not> rule_malloc env then Some (OPRT_MALLOC_FAILED, device)
            else do {
              src \<leftarrow> sub_rule sub;
              rs \<leftarrow> memcpy_out src 0 (unat (sub_num sub));
              Some (OPRT_OK, device\<lparr>ele_sub := Some \<lparr>sub_tp = sub_tp sub, sub_num = sub_num sub, sub_rule = Some rs\<rparr>\<rparr>) } }"

section \<open>Triggers\<close>

definition sem_post :: "('p, 'w) sr_hub \<Rightarrow> ('p, 'w) sr_hub" where
  "sem_post h = h\<lparr>task_sem := 1\<rparr>"

definition tdl_sensor_soft_timer_cb :: "('p, 'w) sr_hub \<Rightarrow> ('p, 'w) sr_hub" where
  "tdl_sensor_soft_timer_cb h = sem_post (h\<lparr>soft_tm_cnt := soft_tm_cnt h + SR_SOFT_TM_MIN_INTV_MS\<rparr>)"

definition tdl_sensor_hard_timer_cb :: "('p, 'w) sr_hub \<Rightarrow> ('p, 'w) sr_hub" where
  "tdl_sensor_hard_timer_cb h = sem_post (h\<lparr>hard_tm_cnt := hard_tm_cnt h + SR_HARD_TM_MIN_INTV_MS\<rparr>)"

text \<open>The interrupt is given a pointer to the pin of the device that was set up for it; here that device.\<close>

definition tdl_sensor_exti_cb :: "nat \<Rightarrow> ('p, 'w) sr_hub \<Rightarrow> ('p, 'w) sr_hub option" where
  "tdl_sensor_exti_cb arg h = do {
     d \<leftarrow> rd (sr_devs h) arg;
     let pin = wp_irq_pin_intv_ms (work_param d);
     Some (sem_post (case find_index (\<lambda>d. is_start (flag d) \<and> trig_mode d = SR_MODE_EXTI \<and> wp_irq_pin_intv_ms (work_param d) = pin) (sr_devs h) of
       None \<Rightarrow> h
     | Some i \<Rightarrow> let d = sr_devs h ! i in h\<lparr>sr_devs := (sr_devs h)[i := d\<lparr>flag := (flag d)\<lparr>is_irq_occur := True\<rparr>\<rparr>]\<rparr>)) }"

definition tdl_sensor_soft_timer_init :: "sr_env \<Rightarrow> ('p, 'w) sr_hub \<Rightarrow> OPERATE_RET \<times> ('p, 'w) sr_hub" where
  "tdl_sensor_soft_timer_init env h =
     (if is_soft_timer_init h then (OPRT_OK, h)
      else let h = hub_call Sw_timer_create h
           in if sw_create_ret env \<noteq> OPRT_OK then (sw_create_ret env, h)
              else let h = hub_call (Sw_timer_start SR_SOFT_TM_MIN_INTV_MS) h
                   in if sw_start_ret env \<noteq> OPRT_OK then (sw_start_ret env, h)
                      else (OPRT_OK, h\<lparr>is_soft_timer_init := True\<rparr>))"

definition tdl_sensor_hard_timer_init :: "sr_env \<Rightarrow> ('p, 'w) sr_hub \<Rightarrow> OPERATE_RET \<times> ('p, 'w) sr_hub" where
  "tdl_sensor_hard_timer_init env h =
     (if is_hard_timer_init h then (OPRT_OK, h)
      else case find_index (\<lambda>i. hw_init_ret env i = OPRT_OK) [0..<TIMER_NUM_MAX] of
        None \<Rightarrow> (OPRT_NOT_FOUND, fold (\<lambda>i. hub_call (Hw_timer_init i)) [0..<TIMER_NUM_MAX] h)
      | Some i \<Rightarrow>
          let h = (fold (\<lambda>i. hub_call (Hw_timer_init i)) [0..<i + 1] h)\<lparr>hard_timer := i\<rparr>;
              h = hub_call (Hw_timer_start i (SR_HARD_TM_MIN_INTV_MS * 1000)) h
          in if hw_start_ret env \<noteq> OPRT_OK then (hw_start_ret env, h)
             else (OPRT_OK, h\<lparr>is_hard_timer_init := True\<rparr>))"

definition tdl_sensor_exti_init :: "sr_env \<Rightarrow> ('p, 'w) SR_DEV_NODE_T \<Rightarrow> ('p, 'w) sr_hub \<Rightarrow> OPERATE_RET \<times> ('p, 'w) sr_hub" where
  "tdl_sensor_exti_init env device h =
     (let pin = wp_irq_pin_intv_ms (work_param device);
          h = hub_call (Irq_init pin (wp_irq_mode_run_time_ms (work_param device))) h
      in if irq_init_ret env \<noteq> OPRT_OK then (irq_init_ret env, h)
         else let h = hub_call (Irq_enable pin) h
              in if irq_enable_ret env \<noteq> OPRT_OK then (irq_enable_ret env, h) else (OPRT_OK, h))"

definition tdl_sensor_daq_trig_init :: "sr_env \<Rightarrow> ('p, 'w) SR_DEV_NODE_T \<Rightarrow> ('p, 'w) sr_hub \<Rightarrow> OPERATE_RET \<times> ('p, 'w) sr_hub" where
  "tdl_sensor_daq_trig_init env device h =
     (if trig_mode device = SR_MODE_POLL_HARD_TM then tdl_sensor_hard_timer_init env h
      else if trig_mode device = SR_MODE_EXTI then tdl_sensor_exti_init env device h
      else tdl_sensor_soft_timer_init env h)"

section \<open>Opening and closing\<close>

definition sub_count :: "('p, 'w) SR_DEV_NODE_T \<Rightarrow> nat" where
  "sub_count device = unat (case ele_sub device of None \<Rightarrow> ele_num device | Some sub \<Rightarrow> sub_num sub)"

text \<open>The \<open>i\<close>-th element buffer; its type is that of the last element of the device with the same number.\<close>

definition ele_buff_init :: "('p, 'w) SR_DEV_NODE_T \<Rightarrow> nat \<Rightarrow> SR_ELE_BUFF_T option" where
  "ele_buff_init device i =
     (let val = i * unat (fifo_size device)
      in case ele_sub device of
           None \<Rightarrow> do { c \<leftarrow> rd (ele_info device) i; Some \<lparr>eb_id = ec_id c, eb_val_tp = ec_val_tp c, eb_val_num = 0, eb_val = val\<rparr> }
         | Some sub \<Rightarrow> do {
             rs \<leftarrow> sub_rule sub;
             r \<leftarrow> rd rs i;
             tp \<leftarrow> foldM (\<lambda>j tp. do { c \<leftarrow> rd (ele_info device) j; Some (if rl_id r = ec_id c then ec_val_tp c else tp) })
               [0..<unat (ele_num device)] 0;
             Some \<lparr>eb_id = rl_id r, eb_val_tp = tp, eb_val_num = 0, eb_val = val\<rparr> })"

definition tdl_sensor_prepare_app_fifo :: "sr_env \<Rightarrow> ('p, 'w) SR_DEV_NODE_T \<Rightarrow> (OPERATE_RET \<times> ('p, 'w) SR_DEV_NODE_T) option" where
  "tdl_sensor_prepare_app_fifo env device =
     (if is_ele device
      then let device = device\<lparr>app_fifo := (app_fifo device)\<lparr>fifo_ele := None\<rparr>\<rparr>; n = sub_count device
           in if \<not> fifo_malloc env then Some (OPRT_MALLOC_FAILED, device)
              else do {
                ele \<leftarrow> foldM (\<lambda>i bs. do { b \<leftarrow> ele_buff_init device i; Some (bs @ [b]) }) [0..<n] [];
                Some (OPRT_OK, device\<lparr>app_fifo := (app_fifo device)\<lparr>fifo_ele := Some (ele, replicate (n * unat (fifo_size device)) 0)\<rparr>\<rparr>) }
      else let device = device\<lparr>app_fifo := (app_fifo device)\<lparr>fifo_raw_data := None\<rparr>\<rparr>
           in if \<not> fifo_malloc env then Some (OPRT_MALLOC_FAILED, device)
              else Some (OPRT_OK, device\<lparr>app_fifo := (app_fifo device)\<lparr>fifo_raw_data := Some (replicate (unat (fifo_size device)) raw_zero)\<rparr>\<rparr>))"

definition static_tdl_sensor_dev_open ::
  "sr_env \<Rightarrow> ('p, 'w) SR_DEV_NODE_T \<Rightarrow> SR_DEV_CFG_T \<Rightarrow> ('p, 'w) sr_hub \<Rightarrow> (OPERATE_RET \<times> ('p, 'w) SR_DEV_NODE_T \<times> ('p, 'w) sr_hub) option" where
  "static_tdl_sensor_dev_open env device config h = do {
     (r, device) \<leftarrow> tdl_sensor_load_config env device config;
     if r \<noteq> OPRT_OK then Some (r, device, h) else do {
       (r, device) \<leftarrow> tdl_sensor_prepare_app_fifo env device;
       if r \<noteq> OPRT_OK then Some (r, device, h) else do {
         let (r, h) = tdl_sensor_daq_trig_init env device h;
         if r \<noteq> OPRT_OK then Some (r, device, h) else do {
           drv_open \<leftarrow> in_open (intfs device);
           (r, rs, w) \<leftarrow> drv_open (resource device) (sr_world h);
           let device = device\<lparr>resource := rs\<rparr>;
           let h = h\<lparr>sr_world := w\<rparr>;
           if r \<noteq> OPRT_OK then Some (r, device, h)
           else Some (OPRT_OK, device\<lparr>flag := (flag device)\<lparr>is_start := True\<rparr>\<rparr>, h) } } } }"

definition static_tdl_sensor_dev_close ::
  "('p, 'w) SR_DEV_NODE_T \<Rightarrow> ('p, 'w) sr_hub \<Rightarrow> (OPERATE_RET \<times> ('p, 'w) SR_DEV_NODE_T \<times> ('p, 'w) sr_hub) option" where
  "static_tdl_sensor_dev_close device h = do {
     drv_close \<leftarrow> in_close (intfs device);
     (r, rs, w) \<leftarrow> drv_close (resource device) (sr_world h);
     let device = device\<lparr>resource := rs\<rparr>;
     let h = h\<lparr>sr_world := w\<rparr>;
     if r \<noteq> OPRT_OK then Some (r, device, h)
     else do {
       let device = device\<lparr>flag := flag_zero, work_param := work_zero\<rparr>;
       let device = (if is_ele device then device\<lparr>app_fifo := (app_fifo device)\<lparr>fifo_ele := None\<rparr>\<rparr>
                     else device\<lparr>app_fifo := (app_fifo device)\<lparr>fifo_raw_data := None, fifo_raw_len := 0\<rparr>\<rparr>);
       Some (OPRT_OK, device\<lparr>trig_mode := 0, fifo_size := 0, inform_cb := None, ele_sub := None\<rparr>, h) } }"

text \<open>An operation on the device behind a handle, which is its place in the list.\<close>

definition on_dev ::
  "nat option \<Rightarrow> ('p, 'w) sr_hub \<Rightarrow> (('p, 'w) SR_DEV_NODE_T \<Rightarrow> ('p, 'w) sr_hub \<Rightarrow> ('r \<times> ('p, 'w) SR_DEV_NODE_T \<times> ('p, 'w) sr_hub) option)
     \<Rightarrow> 'r \<Rightarrow> ('r \<times> ('p, 'w) sr_hub) option" where
  "on_dev handle h f err =
     (case handle of
        None \<Rightarrow> Some (err, h)
      | Some i \<Rightarrow> do {
          device \<leftarrow> rd (sr_devs h) i;
          (r, device, h) \<leftarrow> f device h;
          Some (r, h\<lparr>sr_devs := (sr_devs h)[i := device]\<rparr>) })"

definition tdl_sensor_dev_open ::
  "sr_env \<Rightarrow> nat option \<Rightarrow> SR_DEV_CFG_T option \<Rightarrow> ('p, 'w) sr_hub \<Rightarrow> (OPERATE_RET \<times> ('p, 'w) sr_hub) option" where
  "tdl_sensor_dev_open env handle config h =
     (case config of
        None \<Rightarrow> Some (OPRT_INVALID_PARM, h)
      | Some c \<Rightarrow> on_dev handle h (\<lambda>device h. do {
          (r, c) \<leftarrow> tdl_sensor_check_config device c;
          if r \<noteq> OPRT_OK then Some (r, device, h) else static_tdl_sensor_dev_open env device c h }) OPRT_INVALID_PARM)"

definition tdl_sensor_dev_close :: "nat option \<Rightarrow> ('p, 'w) sr_hub \<Rightarrow> (OPERATE_RET \<times> ('p, 'w) sr_hub) option" where
  "tdl_sensor_dev_close handle h = on_dev handle h static_tdl_sensor_dev_close OPRT_INVALID_PARM"

definition tdl_sensor_dev_config ::
  "nat option \<Rightarrow> u8 \<Rightarrow> 'p \<Rightarrow> ('p, 'w) sr_hub \<Rightarrow> ((OPERATE_RET \<times> 'p) \<times> ('p, 'w) sr_hub) option" where
  "tdl_sensor_dev_config handle cmd param h = on_dev handle h (\<lambda>device h. do {
     control \<leftarrow> in_control (intfs device);
     (r, p, rs, w) \<leftarrow> control (resource device) cmd param (sr_world h);
     Some ((r, p), device\<lparr>resource := rs\<rparr>, h\<lparr>sr_world := w\<rparr>) }) (OPRT_INVALID_PARM, param)"

section \<open>Reading on demand\<close>

fun check_ids :: "SR_ELE_CFG_T list \<Rightarrow> nat \<Rightarrow> SR_ELE_DATA_T list \<Rightarrow> nat list \<Rightarrow> bool option" where
  "check_ids info n d [] = Some True"
| "check_ids info n d (i # is) = do {
     e \<leftarrow> rd d i;
     f \<leftarrow> ele_search info (ed_id e) [0..<n];
     if f = None then Some False else check_ids info n d is }"

definition static_tdl_sensor_dev_read ::
  "('p, 'w) SR_DEV_NODE_T \<Rightarrow> u8 \<Rightarrow> SR_ELE_DATA_T list option \<Rightarrow> SR_RAW_DATA_T option \<Rightarrow> ('p, 'w) sr_hub
     \<Rightarrow> ((OPERATE_RET \<times> SR_ELE_DATA_T list option \<times> SR_RAW_DATA_T option) \<times> ('p, 'w) SR_DEV_NODE_T \<times> ('p, 'w) sr_hub) option" where
  "static_tdl_sensor_dev_read device num ele_data raw h =
     (if \<not> is_start (flag device) then Some ((OPRT_COM_ERROR, ele_data, raw), device, h)
      else if is_ele device
      then do {
        let d = (case ele_data of None \<Rightarrow> [] | Some d \<Rightarrow> d);
        (ok, d) \<leftarrow> (if num = ele_num device
           then do { d \<leftarrow> foldM (\<lambda>i d. do { e \<leftarrow> rd d i; c \<leftarrow> rd (ele_info device) i; wr d i (e\<lparr>ed_id := ec_id c\<rparr>) }) [0..<unat num] d;
                     Some (True, d) }
           else do { ok \<leftarrow> check_ids (ele_info device) (unat (ele_num device)) d [0..<unat num]; Some (ok, d) });
        if \<not> ok then Some ((OPRT_INVALID_PARM, ele_data, raw), device, h)
        else do {
          read \<leftarrow> in_read_ele (intfs device);
          (r, d, rs, w) \<leftarrow> read (resource device) d num (sr_world h);
          Some ((r, map_option (\<lambda>_. d) ele_data, raw), device\<lparr>resource := rs\<rparr>, h\<lparr>sr_world := w\<rparr>) } }
      else do {
        read \<leftarrow> in_read_raw (intfs device);
        buf \<leftarrow> raw;
        (r, b, rs, w) \<leftarrow> read (resource device) buf (sr_world h);
        Some ((r, ele_data, Some b), device\<lparr>resource := rs\<rparr>, h\<lparr>sr_world := w\<rparr>) })"

definition tdl_sensor_dev_read ::
  "nat option \<Rightarrow> u8 \<Rightarrow> SR_ELE_DATA_T list option \<Rightarrow> SR_RAW_DATA_T option \<Rightarrow> ('p, 'w) sr_hub
     \<Rightarrow> ((OPERATE_RET \<times> SR_ELE_DATA_T list option \<times> SR_RAW_DATA_T option) \<times> ('p, 'w) sr_hub) option" where
  "tdl_sensor_dev_read handle num ele_data raw h = on_dev handle h (\<lambda>device h.
     if num \<noteq> 0 \<and> ele_data = None \<or> num = 0 \<and> raw = None \<or> num > ele_num device
     then Some ((OPRT_INVALID_PARM, ele_data, raw), device, h)
     else static_tdl_sensor_dev_read device num ele_data raw h) (OPRT_INVALID_PARM, ele_data, raw)"

section \<open>The acquisition task\<close>

definition timer_proc_dev :: "u32 \<Rightarrow> u32 \<Rightarrow> ('p, 'w) SR_DEV_NODE_T \<Rightarrow> ('p, 'w) SR_DEV_NODE_T" where
  "timer_proc_dev soft hard d =
     (if \<not> is_start (flag d) \<or> trig_mode d > SR_MODE_POLL_HARD_TM then d
      else let t = wp_irq_mode_run_time_ms (work_param d) + (if trig_mode d = SR_MODE_POLL_SOFT_TM then soft else hard);
               d = d\<lparr>work_param := (work_param d)\<lparr>wp_irq_mode_run_time_ms := t\<rparr>\<rparr>
           in if t \<ge> wp_irq_pin_intv_ms (work_param d)
              then d\<lparr>flag := (flag d)\<lparr>is_need_acquire := True\<rparr>, work_param := (work_param d)\<lparr>wp_irq_mode_run_time_ms := 0\<rparr>\<rparr>
              else d)"

definition tdl_sensor_timer_proc :: "u32 \<Rightarrow> u32 \<Rightarrow> ('p, 'w) sr_hub \<Rightarrow> ('p, 'w) sr_hub" where
  "tdl_sensor_timer_proc soft hard h =
     (if soft = 0 \<and> hard = 0 then h else h\<lparr>sr_devs := map (timer_proc_dev soft hard) (sr_devs h)\<rparr>)"

definition exti_proc_dev :: "('p, 'w) SR_DEV_NODE_T \<Rightarrow> ('p, 'w) SR_DEV_NODE_T" where
  "exti_proc_dev d =
     (if is_start (flag d) \<and> trig_mode d = SR_MODE_EXTI \<and> is_irq_occur (flag d)
      then d\<lparr>flag := (flag d)\<lparr>is_irq_occur := False, is_need_acquire := True\<rparr>\<rparr> else d)"

definition tdl_sensor_exti_proc :: "('p, 'w) sr_hub \<Rightarrow> ('p, 'w) sr_hub" where
  "tdl_sensor_exti_proc h = h\<lparr>sr_devs := map exti_proc_dev (sr_devs h)\<rparr>"

definition tdl_sensor_is_need_filter :: "SR_VAL_U \<Rightarrow> SR_VAL_U \<Rightarrow> SR_FILTETR_U \<Rightarrow> u8 \<Rightarrow> bool" where
  "tdl_sensor_is_need_filter cur prv rule tp =
     (SR_IS_VAL_OVER_RANG tp cur (fl_max rule) (fl_min rule) \<or> SR_IS_VAL_DIFF_IN_STEP tp cur prv (fl_step rule))"

text \<open>
  The loop that filters. Its index into the stored values is a variable outside the loop and keeps its last value where a
  buffer is empty. The result is nothing when a group is dropped, otherwise one mark per element.
\<close>

fun filter_loop ::
  "SR_ELE_SUB_CFG_T \<Rightarrow> SR_ELE_BUFF_T list \<Rightarrow> SR_VAL_U list \<Rightarrow> SR_ELE_DATA_T list \<Rightarrow> nat list \<Rightarrow> u8 \<Rightarrow> bool list option
     \<Rightarrow> bool list option option option" where
  "filter_loop sub ele vals d [] val_num marks = Some (Some marks)"
| "filter_loop sub ele vals d (i # is) val_num marks = do {
     b \<leftarrow> rd ele i;
     let val_num = (if eb_val_num b > 0 then eb_val_num b - 1 else val_num);
     e \<leftarrow> rd d i;
     prv \<leftarrow> rd vals (eb_val b + unat val_num);
     rs \<leftarrow> sub_rule sub;
     r \<leftarrow> rd rs i;
     if tdl_sensor_is_need_filter (ed_val e) prv (rl_filter r) (eb_val_tp b)
     then if sub_tp sub = SR_ELE_SUB_TP_GROUP then Some None
          else do { m \<leftarrow> marks; m \<leftarrow> wr m i True; filter_loop sub ele vals d is val_num (Some m) }
     else filter_loop sub ele vals d is val_num marks }"

definition store_value ::
  "SR_ELE_SUB_CFG_T option \<Rightarrow> bool list option \<Rightarrow> SR_ELE_DATA_T list \<Rightarrow> nat \<Rightarrow> SR_ELE_BUFF_T list \<times> SR_VAL_U list
     \<Rightarrow> (SR_ELE_BUFF_T list \<times> SR_VAL_U list) option" where
  "store_value sub marks d i = (\<lambda>(ele, vals). do {
     keep \<leftarrow> (case sub of
        None \<Rightarrow> Some True
      | Some s \<Rightarrow> if sub_tp s = SR_ELE_SUB_TP_GROUP then Some True
          else if sub_tp s = SR_ELE_SUB_TP_SINGLE then do { m \<leftarrow> marks; x \<leftarrow> rd m i; Some (\<not> x) }
          else Some False);
     if keep then do {
       b \<leftarrow> rd ele i;
       e \<leftarrow> rd d i;
       vals \<leftarrow> wr vals (eb_val b + unat (eb_val_num b)) (ed_val e);
       Some (ele[i := b\<lparr>eb_val_num := eb_val_num b + 1\<rparr>], vals) }
     else Some (ele, vals) })"

definition tdl_sensor_load_ele_value ::
  "sr_env \<Rightarrow> ('p, 'w) SR_DEV_NODE_T \<Rightarrow> 'w \<Rightarrow> (OPERATE_RET \<times> ('p, 'w) SR_DEV_NODE_T \<times> 'w) option" where
  "tdl_sensor_load_ele_value env device w =
     (let n = sub_count device
      in if \<not> data_malloc env then Some (OPRT_MALLOC_FAILED, device, w)
         else do {
           (ele, vals) \<leftarrow> fifo_ele (app_fifo device);
           d \<leftarrow> foldM (\<lambda>i d. do { b \<leftarrow> rd ele i; Some (d @ [\<lparr>ed_id = eb_id b, ed_val = 0\<rparr>]) }) [0..<n] [];
           read \<leftarrow> in_read_ele (intfs device);
           (r, d, rs, w) \<leftarrow> read (resource device) d (of_nat n) w;
           let device = device\<lparr>resource := rs, flag := (flag device)\<lparr>is_need_acquire := False\<rparr>\<rparr>;
           if r \<noteq> OPRT_OK then Some (r, device, w)
           else do {
             sub \<leftarrow> ele_sub device;
             if sub_tp sub = SR_ELE_SUB_TP_SINGLE \<and> \<not> filter_malloc env then Some (OPRT_MALLOC_FAILED, device, w)
             else do {
               let marks = (if sub_tp sub = SR_ELE_SUB_TP_SINGLE then Some (replicate n False) else None);
               f \<leftarrow> filter_loop sub ele vals d [0..<n] 0 marks;
               case f of
                 None \<Rightarrow> Some (OPRT_OK, device, w)
               | Some marks \<Rightarrow> do {
                   (ele, vals) \<leftarrow> foldM (store_value (ele_sub device) marks d) [0..<n] (ele, vals);
                   Some (OPRT_OK, device\<lparr>app_fifo := (app_fifo device)\<lparr>fifo_ele := Some (ele, vals)\<rparr>\<rparr>, w) } } } })"

text \<open>What the application sees behind a pointer to an element buffer, and the buffer emptied after the report.\<close>

definition report_of :: "SR_VAL_U list \<Rightarrow> SR_ELE_BUFF_T \<Rightarrow> ele_report" where
  "report_of vals b = \<lparr>er_id = eb_id b, er_val_tp = eb_val_tp b, er_vals = take (unat (eb_val_num b)) (drop (eb_val b) vals)\<rparr>"

definition clear_buff :: "nat \<Rightarrow> nat \<Rightarrow> SR_ELE_BUFF_T list \<times> SR_VAL_U list \<Rightarrow> (SR_ELE_BUFF_T list \<times> SR_VAL_U list) option" where
  "clear_buff n i = (\<lambda>(ele, vals). do {
     b \<leftarrow> rd ele i;
     vals \<leftarrow> memcpy_in vals (eb_val b) (replicate n 0);
     Some (ele[i := b\<lparr>eb_val_num := 0\<rparr>], vals) })"

fun inform_single ::
  "('p, 'w) SR_DEV_NODE_T \<Rightarrow> SR_ELE_SUB_RULE_T list \<Rightarrow> nat list \<Rightarrow> sr_report list \<times> SR_ELE_BUFF_T list \<times> SR_VAL_U list
     \<Rightarrow> (sr_report list \<times> SR_ELE_BUFF_T list \<times> SR_VAL_U list) option" where
  "inform_single device rs [] x = Some x"
| "inform_single device rs (i # is) (out, ele, vals) = do {
     b \<leftarrow> rd ele i;
     r \<leftarrow> rd rs i;
     if eb_val_num b < rl_val_num r then inform_single device rs is (out, ele, vals)
     else do {
       cb \<leftarrow> inform_cb device;
       let out = out @ [Ele_report cb (sr_name device) [report_of vals b]];
       (ele, vals) \<leftarrow> clear_buff (unat (eb_val_num b)) i (ele, vals);
       inform_single device rs is (out, ele, vals) } }"

definition tdl_sensor_inform_ele_value :: "('p, 'w) SR_DEV_NODE_T \<Rightarrow> (sr_report list \<times> ('p, 'w) SR_DEV_NODE_T) option" where
  "tdl_sensor_inform_ele_value device = do {
     let n = sub_count device;
     (ele, vals) \<leftarrow> fifo_ele (app_fifo device);
     let put = (\<lambda>x. device\<lparr>app_fifo := (app_fifo device)\<lparr>fifo_ele := Some x\<rparr>\<rparr>);
     if ele_sub device = None \<or> sub_tp (the (ele_sub device)) = SR_ELE_SUB_TP_GROUP
     then do {
       b \<leftarrow> rd ele 0;
       if eb_val_num b \<ge> fifo_size device
       then do {
         cb \<leftarrow> inform_cb device;
         x \<leftarrow> foldM (clear_buff (unat (fifo_size device))) [0..<n] (ele, vals);
         Some ([Ele_report cb (sr_name device) (map (report_of vals) (take n ele))], put x) }
       else Some ([], device) }
     else do {
       rs \<leftarrow> sub_rule (the (ele_sub device));
       (out, x) \<leftarrow> inform_single device rs [0..<n] ([], ele, vals);
       Some (out, put x) } }"

definition tdl_sensor_load_and_inform_raw_value ::
  "('p, 'w) SR_DEV_NODE_T \<Rightarrow> 'w \<Rightarrow> (sr_report list \<times> ('p, 'w) SR_DEV_NODE_T \<times> 'w) option" where
  "tdl_sensor_load_and_inform_raw_value device w = do {
     data \<leftarrow> fifo_raw_data (app_fifo device);
     let idx = unat (fifo_raw_len (app_fifo device));
     buf \<leftarrow> rd data idx;
     read \<leftarrow> in_read_raw (intfs device);
     (r, buf, rs, w) \<leftarrow> read (resource device) buf w;
     let data = data[idx := buf];
     let device = device\<lparr>resource := rs, app_fifo := (app_fifo device)\<lparr>fifo_raw_data := Some data\<rparr>\<rparr>;
     if r \<noteq> OPRT_OK then Some ([], device, w)
     else do {
       let len = fifo_raw_len (app_fifo device) + 1;
       if len \<ge> ucast (fifo_size device)
       then do {
         cb \<leftarrow> inform_cb device;
         cleared \<leftarrow> memcpy_in data 0 (replicate (unat len) raw_zero);
         Some ([Raw_report cb (sr_name device) (take (unat len) data)],
               device\<lparr>app_fifo := (app_fifo device)\<lparr>fifo_raw_len := 0, fifo_raw_data := Some cleared\<rparr>\<rparr>, w) }
       else Some ([], device\<lparr>app_fifo := (app_fifo device)\<lparr>fifo_raw_len := len\<rparr>\<rparr>, w) } }"

definition acquire_dev ::
  "sr_env \<Rightarrow> ('p, 'w) SR_DEV_NODE_T \<Rightarrow> 'w \<Rightarrow> (sr_report list \<times> ('p, 'w) SR_DEV_NODE_T \<times> 'w) option" where
  "acquire_dev env device w =
     (if \<not> is_start (flag device) \<or> \<not> is_need_acquire (flag device) then Some ([], device, w)
      else if is_ele device
      then do {
        (r, device, w) \<leftarrow> tdl_sensor_load_ele_value env device w;
        if r = OPRT_OK then do { (out, device) \<leftarrow> tdl_sensor_inform_ele_value device; Some (out, device, w) }
        else Some ([], device, w) }
      else tdl_sensor_load_and_inform_raw_value device w)"

definition tdl_sensor_acquire_handle :: "sr_env \<Rightarrow> ('p, 'w) sr_hub \<Rightarrow> ('p, 'w) sr_hub option" where
  "tdl_sensor_acquire_handle env h =
     foldM (\<lambda>i h. do {
       device \<leftarrow> rd (sr_devs h) i;
       (out, device, w) \<leftarrow> acquire_dev env device (sr_world h);
       Some (h\<lparr>sr_devs := (sr_devs h)[i := device], sr_world := w, sr_reports := sr_reports h @ out\<rparr>) }) [0..<length (sr_devs h)] h"

text \<open>One round of the task, possible when its semaphore was posted.\<close>

definition tdl_sensor_main_task :: "sr_env \<Rightarrow> ('p, 'w) sr_hub \<Rightarrow> ('p, 'w) sr_hub option" where
  "tdl_sensor_main_task env h =
     (if task_sem h = 0 then Some h
      else let h = h\<lparr>task_sem := task_sem h - 1\<rparr>;
               soft = soft_tm_cnt h;
               hard = hard_tm_cnt h;
               h = h\<lparr>soft_tm_cnt := 0, hard_tm_cnt := 0\<rparr>
           in tdl_sensor_acquire_handle env (tdl_sensor_exti_proc (tdl_sensor_timer_proc soft hard h)))"

end
