(* ===== verification/Sensor_Fifo.thy ===== *)
theory Sensor_Fifo
  imports Sensor_Hub
begin

text \<open>
  The element buffers of the sensor manager as queues. The FIFO of a device, one block of memory with pointers into it, is a queue of
  values per element; filtering, storing, reporting and clearing are proved to be what the contract of a subscription
  says on these queues.
\<close>

section \<open>Queues in a FIFO\<close>

text \<open>
  A FIFO of \<open>n\<close> elements with room for \<open>F\<close> values each: the areas of the elements lie one behind the other, and what is
  not in use is zero. The values in use are a queue per element.
\<close>

type_synonym ele_fifo = "SR_ELE_BUFF_T list \<times> SR_VAL_U list"

definition fill :: "ele_fifo \<Rightarrow> nat \<Rightarrow> nat" where
  "fill x i = unat (eb_val_num (fst x ! i))"

definition queue :: "nat \<Rightarrow> ele_fifo \<Rightarrow> nat \<Rightarrow> SR_VAL_U list" where
  "queue F x i = take (fill x i) (drop (i * F) (snd x))"

definition fifo_wf :: "nat \<Rightarrow> nat \<Rightarrow> ele_fifo \<Rightarrow> bool" where
  "fifo_wf n F x \<longleftrightarrow> length (fst x) = n \<and> length (snd x) = n * F \<and> F < 256 \<and>
     (\<forall>i < n. eb_val (fst x ! i) = i * F \<and> fill x i \<le> F \<and> (\<forall>k < F. fill x i \<le> k \<longrightarrow> snd x ! (i * F + k) = 0))"

definition prev_val :: "SR_VAL_U list \<Rightarrow> SR_VAL_U" where
  "prev_val q = (if q = [] then 0 else last q)"

lemma unat_u8_Suc: "unat (b :: u8) < 255 \<Longrightarrow> unat (b + 1) = Suc (unat b)"
  by (simp add: unat_word_ariths)

lemma area: "i < n \<Longrightarrow> k < F \<Longrightarrow> i * F + k < n * (F :: nat)"
proof -
  assume "i < n" "k < F"
  then have "i * F + k < Suc i * F" by simp
  also have "\<dots> \<le> n * F" using \<open>i < n\<close> by (intro mult_right_mono) auto
  finally show ?thesis .
qed

lemma area_le: "i < n \<Longrightarrow> k \<le> F \<Longrightarrow> i * F + k \<le> n * (F :: nat)"
  using area [of i n "k - 1" F] by (cases k) (auto intro: mult_right_mono less_imp_le)

lemma area_apart: "i \<noteq> j \<Longrightarrow> k < F \<Longrightarrow> l < F \<Longrightarrow> i * F + k \<noteq> j * F + (l :: nat)"
  by (metis (no_types, lifting) add.commute div_mult_self1 div_less less_nat_zero_code add_0 mult.commute)

lemma length_queue: "fifo_wf n F x \<Longrightarrow> i < n \<Longrightarrow> length (queue F x i) = fill x i"
  using area_le [of i n "fill x i" F] by (auto simp: fifo_wf_def queue_def)

lemma nth_queue: "fifo_wf n F x \<Longrightarrow> i < n \<Longrightarrow> k < fill x i \<Longrightarrow> queue F x i ! k = snd x ! (i * F + k)"
  using area_le [of i n "fill x i" F] by (auto simp: fifo_wf_def queue_def)

text \<open>The value that the filter compares with, whatever index an empty buffer is read at.\<close>

lemma rd_prev:
  assumes wf: "fifo_wf n F x" and i: "i < n" and v: "v < F" "0 < fill x i \<Longrightarrow> v = fill x i - 1"
  shows "rd (snd x) (eb_val (fst x ! i) + v) = Some (prev_val (queue F x i))"
proof (cases "fill x i = 0")
  case True
  then have "queue F x i = []" "snd x ! (i * F + v) = 0" using wf i v by (auto simp: fifo_wf_def queue_def)
  then show ?thesis using wf i area [OF i v(1)] by (simp add: fifo_wf_def rd_Some prev_val_def)
next
  case False
  have "queue F x i \<noteq> []" using length_queue [OF wf i] False by auto
  then have "prev_val (queue F x i) = snd x ! (i * F + v)"
    using length_queue [OF wf i] nth_queue [OF wf i, of v] v(2) False by (simp add: prev_val_def last_conv_nth)
  then show ?thesis using wf i area [OF i v(1)] by (simp add: fifo_wf_def rd_Some)
qed

text \<open>A change of one element that leaves the areas of the others alone.\<close>

lemma queue_other:
  assumes wf: "fifo_wf n F x" and j: "j < n" "j \<noteq> i" and e: "fst y = (fst x)[i := b]" "length (snd y) = length (snd x)"
    and same: "\<And>k. k < F \<Longrightarrow> snd y ! (j * F + k) = snd x ! (j * F + k)"
  shows "queue F y j = queue F x j" "fill y j = fill x j" "eb_val (fst y ! j) = eb_val (fst x ! j)"
proof -
  show f: "fill y j = fill x j" "eb_val (fst y ! j) = eb_val (fst x ! j)" using e j by (simp_all add: fill_def)
  have "fill x j \<le> F" using wf j by (simp add: fifo_wf_def)
  then show "queue F y j = queue F x j"
    using f e(2) same area_le [OF j(1), of "fill x j" F] area_le [OF j(1), of 0 F] wf
    by (intro nth_equalityI) (simp_all add: queue_def fifo_wf_def)
qed

lemma store_queue:
  assumes wf: "fifo_wf n F x" and i: "i < n" and room: "fill x i < F"
    and y: "y = ((fst x)[i := (fst x ! i)\<lparr>eb_val_num := eb_val_num (fst x ! i) + 1\<rparr>], (snd x)[i * F + fill x i := v])"
  shows "fifo_wf n F y" "queue F y i = queue F x i @ [v]" "j < n \<Longrightarrow> j \<noteq> i \<Longrightarrow> queue F y j = queue F x j"
proof -
  let ?p = "i * F + fill x i"
  have F: "F < 256" and len: "length (fst x) = n" "length (snd x) = n * F" using wf by (auto simp: fifo_wf_def)
  have p: "?p < n * F" using area [OF i room] .
  have fi: "fill y i = Suc (fill x i)"
    using y i len room F by (simp add: fill_def unat_u8_Suc)
  have other: "snd y ! (j * F + k) = snd x ! (j * F + k)" if "j \<noteq> i" "k < F" for j k
    using area_apart [OF that(1) that(2) room] y by simp
  have o: "queue F y j = queue F x j" "fill y j = fill x j" "eb_val (fst y ! j) = eb_val (fst x ! j)" if "j < n" "j \<noteq> i" for j
    by (rule queue_other [OF wf that]; use y other that in auto)+
  then show "j < n \<Longrightarrow> j \<noteq> i \<Longrightarrow> queue F y j = queue F x j" by simp
  show "queue F y i = queue F x i @ [v]"
    using fi y p len by (simp add: queue_def take_Suc_conv_app_nth drop_update_swap nth_append)
  show "fifo_wf n F y" unfolding fifo_wf_def
  proof (intro conjI allI impI)
    fix j assume j: "j < n"
    show "eb_val (fst y ! j) = j * F" "fill y j \<le> F"
      using wf j o [OF j] fi room y i len by (cases "j = i"; simp add: fifo_wf_def)+
    fix k assume k: "k < F" "fill y j \<le> k"
    show "snd y ! (j * F + k) = 0"
    proof (cases "j = i")
      case True
      then show ?thesis using k fi y wf i by (auto simp: fifo_wf_def)
    qed (use k o(2) [OF j] other wf j in \<open>auto simp: fifo_wf_def\<close>)
  qed (use y len F in auto)
qed

definition tags :: "ele_fifo \<Rightarrow> (u8 \<times> u8) list" where
  "tags x = map (\<lambda>b. (eb_id b, eb_val_tp b)) (fst x)"

lemma tags_update: "i < length ele \<Longrightarrow> eb_id b = eb_id (ele ! i) \<Longrightarrow> eb_val_tp b = eb_val_tp (ele ! i) \<Longrightarrow> tags (ele[i := b], v) = tags (ele, u)"
  by (auto simp: tags_def list_eq_iff_nth_eq nth_list_update)

lemma tags_nth: "i < length (fst x) \<Longrightarrow> eb_id (fst x ! i) = fst (tags x ! i)" "i < length (fst x) \<Longrightarrow> eb_val_tp (fst x ! i) = snd (tags x ! i)"
  by (simp_all add: tags_def)

lemma clear_queue:
  assumes wf: "fifo_wf n F x" and i: "i < n" and m: "fill x i \<le> m" "m \<le> F"
  obtains y where "clear_buff m i x = Some y" "fifo_wf n F y" "queue F y i = []" "\<And>j. j < n \<Longrightarrow> j \<noteq> i \<Longrightarrow> queue F y j = queue F x j"
    "tags y = tags x"
proof -
  have F: "F < 256" and len: "length (fst x) = n" "length (snd x) = n * F" and v: "eb_val (fst x ! i) = i * F"
    using wf i by (auto simp: fifo_wf_def)
  let ?b = "(fst x ! i)\<lparr>eb_val_num := 0\<rparr>" and ?v = "blit (snd x) (i * F) (replicate m 0)"
  let ?y = "((fst x)[i := ?b], ?v)"
  have fit: "i * F + m \<le> length (snd x)" using area_le [OF i m(2)] len by simp
  have 1: "clear_buff m i x = Some ?y" using i len v fit by (cases x) (simp add: clear_buff_def rd_Some memcpy_in_Some)
  have at: "?v ! (j * F + k) = (if j = i \<and> k < m then 0 else snd x ! (j * F + k))" if "j < n" "k < F" for j k
  proof (cases "j = i")
    case False
    have "\<not> (i * F \<le> j * F + k \<and> j * F + k < i * F + m)"
    proof
      assume a: "i * F \<le> j * F + k \<and> j * F + k < i * F + m"
      then have "j * F + k = i * F + (j * F + k - i * F)" "j * F + k - i * F < F" using m(2) by auto
      then show False using area_apart [OF False that(2), of "j * F + k - i * F"] by simp
    qed
    then show ?thesis using False fit area [OF that] len by (auto simp: nth_blit)
  qed (use fit area [OF that] len in \<open>auto simp: nth_blit\<close>)
  have fi: "fill ?y i = 0" using i len by (simp add: fill_def)
  have o: "queue F ?y j = queue F x j" "fill ?y j = fill x j" "eb_val (fst ?y ! j) = eb_val (fst x ! j)" if "j < n" "j \<noteq> i" for j
    by (rule queue_other [OF wf that, of ?y ?b]; use that at fit in auto)+
  have 2: "fifo_wf n F ?y" unfolding fifo_wf_def
  proof (intro conjI allI impI)
    fix j assume j: "j < n"
    show "eb_val (fst ?y ! j) = j * F" "fill ?y j \<le> F"
      using wf j o [OF j] fi i len by (cases "j = i"; simp add: fifo_wf_def)+
    fix k assume k: "k < F" "fill ?y j \<le> k"
    show "snd ?y ! (j * F + k) = 0"
      using at [OF j k(1)] k o(2) [OF j] wf j m by (cases "j = i"; cases "k < m") (auto simp: fifo_wf_def)
  qed (use len F fit in auto)
  show thesis
  proof (rule that [OF 1 2])
    show "queue F ?y i = []" using fi by (simp add: queue_def)
    show "tags ?y = tags x" using tags_update [of i "fst x" ?b ?v "snd x"] i len by simp
  qed (use o in auto)
qed

lemma clear_all:
  assumes wf: "fifo_wf n F x" and k: "k \<le> n"
  shows "\<exists>y. foldM (clear_buff F) [0..<k] x = Some y \<and> fifo_wf n F y \<and> tags y = tags x \<and>
    (\<forall>j < n. queue F y j = (if j < k then [] else queue F x j))"
  using k
proof (induction k)
  case (Suc k)
  then obtain y where y: "foldM (clear_buff F) [0..<k] x = Some y" "fifo_wf n F y" "tags y = tags x"
    "\<forall>j < n. queue F y j = (if j < k then [] else queue F x j)" by auto
  obtain z where z: "clear_buff F k y = Some z" "fifo_wf n F z" "queue F z k = []" "\<And>j. j < n \<Longrightarrow> j \<noteq> k \<Longrightarrow> queue F z j = queue F y j"
    "tags z = tags y"
    by (rule clear_queue [OF y(2), of k F]) (use Suc.prems y(2) in \<open>auto simp: fifo_wf_def\<close>)
  have "foldM (clear_buff F) [0..<Suc k] x = Some z" using y(1) z(1) by (simp add: foldM_snoc)
  moreover have "\<forall>j < n. queue F z j = (if j < Suc k then [] else queue F x j)"
    using y(4) z(3,4) by (auto simp: less_Suc_eq)
  ultimately show ?case using y(3) z(2,5) by auto
qed (use wf in auto)

lemma store_all:
  assumes wf: "fifo_wf n F x" and k: "k \<le> n" and d: "length d = n"
    and kept: "\<And>i x. i < n \<Longrightarrow> store_value sub marks d i x = (if keep i then store_value None marks d i x else Some x)"
    and room: "\<And>i. i < n \<Longrightarrow> keep i \<Longrightarrow> fill x i < F"
  shows "\<exists>y. foldM (store_value sub marks d) [0..<k] x = Some y \<and> fifo_wf n F y \<and> tags y = tags x \<and>
    (\<forall>j < n. queue F y j = (if j < k \<and> keep j then queue F x j @ [ed_val (d ! j)] else queue F x j))"
  using k
proof (induction k)
  case (Suc k)
  then obtain y where y: "foldM (store_value sub marks d) [0..<k] x = Some y" "fifo_wf n F y" "tags y = tags x"
    "\<forall>j < n. queue F y j = (if j < k \<and> keep j then queue F x j @ [ed_val (d ! j)] else queue F x j)" by auto
  have kn: "k < n" using Suc.prems by simp
  show ?case
  proof (cases "keep k")
    case False
    then show ?thesis using y kept [OF kn] by (auto simp: foldM_snoc less_Suc_eq)
  next
    case True
    have fk: "fill y k < F" using y(4) kn length_queue [OF wf kn] length_queue [OF y(2) kn] room [OF kn True] by auto
    let ?z = "((fst y)[k := (fst y ! k)\<lparr>eb_val_num := eb_val_num (fst y ! k) + 1\<rparr>], (snd y)[k * F + fill y k := ed_val (d ! k)])"
    note z = store_queue [OF y(2) kn fk refl, where v = "ed_val (d ! k)"]
    have len: "length (fst y) = n" "length (snd y) = n * F" "eb_val (fst y ! k) = k * F" using y(2) kn by (auto simp: fifo_wf_def)
    have "store_value sub marks d k y = Some ?z"
      using kept [OF kn, of y] True kn d len area [OF kn fk] by (cases y) (simp add: store_value_def rd_Some wr_Some fill_def)
    then have "foldM (store_value sub marks d) [0..<Suc k] x = Some ?z" using y(1) by (simp add: foldM_snoc)
    moreover have "tags ?z = tags x" using tags_update [of k "fst y" _ _ "snd y"] kn len y(3) by simp
    moreover have "\<forall>j < n. queue F ?z j = (if j < Suc k \<and> keep j then queue F x j @ [ed_val (d ! j)] else queue F x j)"
    proof (intro allI impI)
      fix j assume "j < n"
      then show "queue F ?z j = (if j < Suc k \<and> keep j then queue F x j @ [ed_val (d ! j)] else queue F x j)"
        using y(4) z(2) z(3) [of j] True kn by (cases "j = k") (simp_all add: less_Suc_eq)
    qed
    ultimately show ?thesis using z(1) by blast
  qed
qed (use wf in auto)

text \<open>Whether the filter rejects the new value of an element, in terms of its queue.\<close>

definition rejects :: "nat \<Rightarrow> SR_ELE_SUB_RULE_T list \<Rightarrow> SR_ELE_DATA_T list \<Rightarrow> ele_fifo \<Rightarrow> nat \<Rightarrow> bool" where
  "rejects F rs d x i = tdl_sensor_is_need_filter (ed_val (d ! i)) (prev_val (queue F x i)) (rl_filter (rs ! i)) (snd (tags x ! i))"

lemma filter_loop_step:
  assumes wf: "fifo_wf n F x" and i: "i < n" and F: "0 < F" and len: "length d = n" "length rs = n"
    and sub: "sub_rule sub = Some rs" and v: "unat vn < F"
  obtains vn' where "unat vn' < F" "filter_loop sub (fst x) (snd x) d (i # is) vn marks =
    (if rejects F rs d x i
     then if sub_tp sub = SR_ELE_SUB_TP_GROUP then Some None
          else do { m \<leftarrow> marks; m \<leftarrow> wr m i True; filter_loop sub (fst x) (snd x) d is vn' (Some m) }
     else filter_loop sub (fst x) (snd x) d is vn' marks)"
proof -
  let ?b = "fst x ! i"
  let ?vn = "if eb_val_num ?b > 0 then eb_val_num ?b - 1 else vn"
  have l: "length (fst x) = n" "fill x i \<le> F" using wf i by (auto simp: fifo_wf_def)
  have un: "unat ?vn = (if 0 < fill x i then fill x i - 1 else unat vn)"
  proof (cases "eb_val_num ?b = 0")
    case False
    then have "unat (eb_val_num ?b - 1) = unat (eb_val_num ?b) - 1" by (simp add: unat_minus_one)
    then show ?thesis using False by (simp add: fill_def word_gt_0 unat_gt_0)
  qed (simp add: fill_def)
  then have vF: "unat ?vn < F" using l(2) v F by auto
  have "rd (snd x) (eb_val ?b + unat ?vn) = Some (prev_val (queue F x i))"
    by (rule rd_prev [OF wf i vF]) (simp add: un)
  then show thesis
    using i l len sub by (intro that [OF vF]) (simp add: rd_Some Let_def rejects_def tags_nth [symmetric])
qed

lemma filter_loop_group:
  assumes wf: "fifo_wf n F x" and F: "0 < F" and len: "length d = n" "length rs = n"
    and sub: "sub_rule sub = Some rs" "sub_tp sub = SR_ELE_SUB_TP_GROUP"
  shows "\<forall>i \<in> set is. i < n \<Longrightarrow> unat vn < F \<Longrightarrow>
    filter_loop sub (fst x) (snd x) d is vn marks = Some (if \<exists>i \<in> set is. rejects F rs d x i then None else Some marks)"
proof (induction "is" arbitrary: vn)
  case (Cons i "is")
  obtain vn' where v: "unat vn' < F" "filter_loop sub (fst x) (snd x) d (i # is) vn marks =
    (if rejects F rs d x i then Some None else filter_loop sub (fst x) (snd x) d is vn' marks)"
    by (rule filter_loop_step [OF wf _ F len sub(1) Cons.prems(2), of i "is" marks]) (use Cons.prems sub(2) in auto)
  show ?case unfolding v(2) using Cons.IH [OF _ v(1)] Cons.prems(1) by auto
qed simp

lemma filter_loop_single:
  assumes wf: "fifo_wf n F x" and F: "0 < F" and len: "length d = n" "length rs = n"
    and sub: "sub_rule sub = Some rs" "sub_tp sub = SR_ELE_SUB_TP_SINGLE"
  shows "\<forall>i \<in> set is. i < n \<Longrightarrow> unat vn < F \<Longrightarrow> length m = n \<Longrightarrow>
    \<exists>m'. filter_loop sub (fst x) (snd x) d is vn (Some m) = Some (Some (Some m')) \<and> length m' = n \<and>
      (\<forall>j < n. m' ! j = (if j \<in> set is then m ! j \<or> rejects F rs d x j else m ! j))"
proof (induction "is" arbitrary: vn m)
  case (Cons i "is")
  obtain vn' where v: "unat vn' < F" "filter_loop sub (fst x) (snd x) d (i # is) vn (Some m) =
    (if rejects F rs d x i then filter_loop sub (fst x) (snd x) d is vn' (Some (m[i := True]))
     else filter_loop sub (fst x) (snd x) d is vn' (Some m))"
    by (rule filter_loop_step [OF wf _ F len sub(1) Cons.prems(2), of i "is" "Some m"]) (use Cons.prems sub(2) in \<open>auto simp: wr_Some\<close>)
  let ?m = "if rejects F rs d x i then m[i := True] else m"
  obtain m' where m': "filter_loop sub (fst x) (snd x) d is vn' (Some ?m) = Some (Some (Some m'))" "length m' = n"
    "\<forall>j < n. m' ! j = (if j \<in> set is then ?m ! j \<or> rejects F rs d x j else ?m ! j)"
  proof -
    have "length ?m = n" using Cons.prems(3) by simp
    from Cons.IH [OF _ v(1) this] Cons.prems(1) show thesis by (auto intro: that)
  qed
  have "filter_loop sub (fst x) (snd x) d (i # is) vn (Some m) = Some (Some (Some m'))"
    unfolding v(2) using m'(1) by (simp split: if_splits)
  moreover have "\<forall>j < n. m' ! j = (if j \<in> set (i # is) then m ! j \<or> rejects F rs d x j else m ! j)"
    using m'(3) Cons.prems(1,3) by (auto simp: nth_list_update)
  ultimately show ?case using m'(2) by blast
qed auto

text \<open>Reports of single elements: those whose queue has reached its number of values, and these queues are emptied.\<close>

definition single_report :: "nat \<Rightarrow> ele_fifo \<Rightarrow> nat \<Rightarrow> ele_report" where
  "single_report F x i = \<lparr>er_id = fst (tags x ! i), er_val_tp = snd (tags x ! i), er_vals = queue F x i\<rparr>"

lemma report_of_queue: "fifo_wf n F x \<Longrightarrow> i < n \<Longrightarrow> report_of (snd x) (fst x ! i) = single_report F x i"
  by (simp add: report_of_def single_report_def tags_nth [symmetric] queue_def fifo_wf_def fill_def)

lemma inform_single_spec:
  assumes "fifo_wf n F x" and rs: "length rs = n" and cb: "inform_cb device = Some cb"
  shows "distinct is \<Longrightarrow> \<forall>i \<in> set is. i < n \<Longrightarrow>
    \<exists>y. inform_single device rs is (out, x) =
        Some (out @ map (\<lambda>i. Ele_report cb (sr_name device) [single_report F x i]) (filter (\<lambda>i. unat (rl_val_num (rs ! i)) \<le> length (queue F x i)) is), y) \<and>
      fifo_wf n F y \<and> tags y = tags x \<and>
      (\<forall>j < n. queue F y j = (if j \<in> set is \<and> unat (rl_val_num (rs ! j)) \<le> length (queue F x j) then [] else queue F x j))"
  using assms(1)
proof (induction "is" arbitrary: out x)
  case (Cons i "is")
  have i: "i < n" and l: "length (fst x) = n" "fill x i \<le> F" using Cons.prems by (auto simp: fifo_wf_def)
  have full: "eb_val_num (fst x ! i) < rl_val_num (rs ! i) \<longleftrightarrow> \<not> unat (rl_val_num (rs ! i)) \<le> length (queue F x i)"
    using length_queue [OF Cons.prems(3) i] by (simp add: fill_def word_less_nat_alt not_le)
  show ?case
  proof (cases "unat (rl_val_num (rs ! i)) \<le> length (queue F x i)")
    case False
    then show ?thesis using Cons.IH [OF _ _ Cons.prems(3), of out] Cons.prems(1,2) full i l rs by (cases x) (auto simp: rd_Some)
  next
    case True
    obtain y where y: "clear_buff (fill x i) i x = Some y" "fifo_wf n F y" "queue F y i = []" "\<And>j. j < n \<Longrightarrow> j \<noteq> i \<Longrightarrow> queue F y j = queue F x j" "tags y = tags x"
      by (rule clear_queue [OF Cons.prems(3) i order_refl l(2)]) blast
    let ?r = "\<lambda>x i. Ele_report cb (sr_name device) [single_report F x i]"
    have same: "queue F y j = queue F x j" "single_report F y j = single_report F x j" if "j \<in> set is" for j
      using y(4) [of j] that Cons.prems(1,2) y(5) by (auto simp: single_report_def)
    obtain z where z: "inform_single device rs is (out @ [?r x i], y) =
        Some ((out @ [?r x i]) @ map (?r y) (filter (\<lambda>i. unat (rl_val_num (rs ! i)) \<le> length (queue F y i)) is), z)"
      "fifo_wf n F z" "tags z = tags y"
      "\<forall>j < n. queue F z j = (if j \<in> set is \<and> unat (rl_val_num (rs ! j)) \<le> length (queue F y j) then [] else queue F y j)"
      using Cons.IH [OF _ _ y(2), of "out @ [?r x i]"] Cons.prems(1,2) by auto
    have "map (?r y) (filter (\<lambda>i. unat (rl_val_num (rs ! i)) \<le> length (queue F y i)) is) =
        map (?r x) (filter (\<lambda>i. unat (rl_val_num (rs ! i)) \<le> length (queue F x i)) is)"
      using same by (auto cong: filter_cong)
    moreover have "inform_single device rs (i # is) (out, x) = inform_single device rs is (out @ [?r x i], y)"
      using True full i l rs cb y(1) report_of_queue [OF Cons.prems(3) i] by (cases x) (simp add: rd_Some fill_def)
    moreover have "\<forall>j < n. queue F z j = (if j \<in> set (i # is) \<and> unat (rl_val_num (rs ! j)) \<le> length (queue F x j) then [] else queue F x j)"
      using z(4) y(3,4) same Cons.prems(1) True by auto
    ultimately show ?thesis using z(1,2,3) y(5) True by auto
  qed
qed auto

section \<open>What an acquisition does\<close>

text \<open>
  The contract of a subscription: one queue per element. A group takes a row of values when the filter rejects none of
  them, and reports all queues once they hold as many values as the FIFO has room for. Single elements take, reject and
  report each for itself, at the number of values of their rule.
\<close>

definition spec_rejects :: "SR_ELE_SUB_CFG_T \<Rightarrow> (u8 \<times> u8) list \<Rightarrow> SR_VAL_U list list \<Rightarrow> SR_VAL_U list \<Rightarrow> nat \<Rightarrow> bool" where
  "spec_rejects sub tg qs vs i =
     tdl_sensor_is_need_filter (vs ! i) (prev_val (qs ! i)) (rl_filter (the (sub_rule sub) ! i)) (snd (tg ! i))"

definition spec_report :: "(u8 \<times> u8) list \<Rightarrow> SR_VAL_U list list \<Rightarrow> nat \<Rightarrow> ele_report" where
  "spec_report tg qs i = \<lparr>er_id = fst (tg ! i), er_val_tp = snd (tg ! i), er_vals = qs ! i\<rparr>"

definition spec_acquire ::
  "SR_ELE_SUB_CFG_T \<Rightarrow> nat \<Rightarrow> (u8 \<times> u8) list \<Rightarrow> SR_VAL_U list list \<Rightarrow> SR_VAL_U list \<Rightarrow> ele_report list list \<times> SR_VAL_U list list" where
  "spec_acquire sub F tg qs vs =
     (let n = length qs
      in if sub_tp sub = SR_ELE_SUB_TP_GROUP
         then if \<exists>i \<in> set [0..<n]. spec_rejects sub tg qs vs i then ([], qs)
              else let qs' = map (\<lambda>i. qs ! i @ [vs ! i]) [0..<n]
                   in if F \<le> length (qs' ! 0) then ([map (spec_report tg qs') [0..<n]], replicate n []) else ([], qs')
         else let qs' = map (\<lambda>i. if spec_rejects sub tg qs vs i then qs ! i else qs ! i @ [vs ! i]) [0..<n];
                  full = (\<lambda>i. unat (rl_val_num (the (sub_rule sub) ! i)) \<le> length (qs' ! i))
              in (map (\<lambda>i. [spec_report tg qs' i]) (filter full [0..<n]), map (\<lambda>i. if full i then [] else qs' ! i) [0..<n]))"

definition cap :: "('p, 'w) SR_DEV_NODE_T \<Rightarrow> nat" where "cap device = unat (fifo_size device)"

definition fifo_of :: "('p, 'w) SR_DEV_NODE_T \<Rightarrow> ele_fifo" where "fifo_of device = the (fifo_ele (app_fifo device))"

definition queues :: "('p, 'w) SR_DEV_NODE_T \<Rightarrow> SR_VAL_U list list" where
  "queues device = map (queue (cap device) (fifo_of device)) [0..<sub_count device]"

definition limit :: "('p, 'w) SR_DEV_NODE_T \<Rightarrow> SR_ELE_SUB_CFG_T \<Rightarrow> nat \<Rightarrow> nat" where
  "limit device sub i = (if sub_tp sub = SR_ELE_SUB_TP_GROUP then cap device else unat (rl_val_num (the (sub_rule sub) ! i)))"

text \<open>The invariant of a subscription of elements, and of a stream of raw data.\<close>

definition sub_ok :: "('p, 'w) SR_DEV_NODE_T \<Rightarrow> SR_ELE_SUB_CFG_T \<Rightarrow> bool" where
  "sub_ok device sub \<longleftrightarrow> (sub_tp sub = SR_ELE_SUB_TP_GROUP \<or> sub_tp sub = SR_ELE_SUB_TP_SINGLE) \<and> 0 < sub_num sub \<and>
     (\<exists>rs. sub_rule sub = Some rs \<and> length rs = unat (sub_num sub)) \<and>
     (\<forall>i < unat (sub_num sub). 0 < limit device sub i \<and> limit device sub i \<le> cap device)"

definition ele_ok :: "('p, 'w) SR_DEV_NODE_T \<Rightarrow> bool" where
  "ele_ok device \<longleftrightarrow> is_ele device \<and> inform_cb device \<noteq> None \<and> 0 < cap device \<and> in_read_ele (intfs device) \<noteq> None \<and>
     (\<exists>sub. ele_sub device = Some sub \<and> sub_ok device sub \<and>
        (\<forall>i < sub_count device. length (queues device ! i) < limit device sub i) \<and>
        (sub_tp sub = SR_ELE_SUB_TP_GROUP \<longrightarrow> (\<exists>L. \<forall>i < sub_count device. length (queues device ! i) = L))) \<and>
     fifo_ele (app_fifo device) \<noteq> None \<and> fifo_wf (sub_count device) (cap device) (fifo_of device)"

lemma queues_nth [simp]: "i < sub_count device \<Longrightarrow> queues device ! i = queue (cap device) (fifo_of device) i"
  and length_queues [simp]: "length (queues device) = sub_count device"
  by (simp_all add: queues_def)

lemma ele_setup: "ele_ok device \<Longrightarrow> foldM (\<lambda>i d. do { b \<leftarrow> rd (fst (fifo_of device)) i; Some (d @ [\<lparr>ed_id = eb_id b, ed_val = 0\<rparr>]) }) [0..<k] [] =
    Some (map (\<lambda>i. \<lparr>ed_id = fst (tags (fifo_of device) ! i), ed_val = 0\<rparr>) [0..<k])" if "k \<le> sub_count device"
  using that
proof (induction k)
  case (Suc k)
  then have "k < length (fst (fifo_of device))" by (simp add: ele_ok_def fifo_wf_def)
  then show ?case using Suc by (simp add: foldM_snoc rd_Some tags_nth)
qed simp

text \<open>The request that the driver is given.\<close>

definition request :: "('p, 'w) SR_DEV_NODE_T \<Rightarrow> SR_ELE_DATA_T list" where
  "request device = map (\<lambda>i. \<lparr>ed_id = fst (tags (fifo_of device) ! i), ed_val = 0\<rparr>) [0..<sub_count device]"

lemma ele_okD:
  assumes "ele_ok device"
  obtains cb sub rs where "inform_cb device = Some cb" "ele_sub device = Some sub" "sub_rule sub = Some rs"
    "length rs = sub_count device" "sub_count device = unat (sub_num sub)" "0 < sub_count device" "fifo_ele (app_fifo device) = Some (fifo_of device)"
    "fifo_wf (sub_count device) (cap device) (fifo_of device)" "0 < cap device" "sub_tp sub = SR_ELE_SUB_TP_GROUP \<or> sub_tp sub = SR_ELE_SUB_TP_SINGLE"
    "\<And>i. i < sub_count device \<Longrightarrow> length (queue (cap device) (fifo_of device) i) < limit device sub i \<and> limit device sub i \<le> cap device"
    "sub_tp sub = SR_ELE_SUB_TP_GROUP \<Longrightarrow> \<exists>L. \<forall>i < sub_count device. length (queue (cap device) (fifo_of device) i) = L"
proof -
  from assms obtain cb sub where s: "inform_cb device = Some cb" "ele_sub device = Some sub" "sub_ok device sub" by (auto simp: ele_ok_def)
  moreover have n: "sub_count device = unat (sub_num sub)" using s(2) by (simp add: sub_count_def)
  moreover have "0 < sub_count device" using s(3) n by (simp add: sub_ok_def unat_gt_0 word_gt_0)
  moreover obtain rs where "sub_rule sub = Some rs" "length rs = sub_count device" using s(3) n by (auto simp: sub_ok_def)
  ultimately show thesis using assms by (intro that) (auto simp: ele_ok_def sub_ok_def fifo_of_def)
qed

definition kept :: "SR_ELE_SUB_CFG_T \<Rightarrow> nat \<Rightarrow> nat \<Rightarrow> SR_ELE_DATA_T list \<Rightarrow> ele_fifo \<Rightarrow> nat \<Rightarrow> bool" where
  "kept sub n F d x j =
     (if sub_tp sub = SR_ELE_SUB_TP_GROUP then \<forall>i < n. \<not> rejects F (the (sub_rule sub)) d x i else \<not> rejects F (the (sub_rule sub)) d x j)"

lemma put_same_fifo: "fifo_ele (app_fifo device) = Some x \<Longrightarrow> device\<lparr>app_fifo := (app_fifo device)\<lparr>fifo_ele := Some x\<rparr>\<rparr> = device"
  by (cases "app_fifo device", cases device) simp

lemma load_spec:
  assumes ok: "ele_ok device" and env: "data_malloc env" "sub_tp sub = SR_ELE_SUB_TP_SINGLE \<Longrightarrow> filter_malloc env" and rd: "in_read_ele (intfs device) = Some read"
    and r: "read (resource device) (request device) (of_nat (sub_count device)) w = Some (OPRT_OK, d, rs', w')"
    and d: "length d = sub_count device" and sub: "ele_sub device = Some sub"
  shows "\<exists>y. tdl_sensor_load_ele_value env device w =
      Some (OPRT_OK, device\<lparr>resource := rs', flag := (flag device)\<lparr>is_need_acquire := False\<rparr>, app_fifo := (app_fifo device)\<lparr>fifo_ele := Some y\<rparr>\<rparr>, w') \<and>
    fifo_wf (sub_count device) (cap device) y \<and> tags y = tags (fifo_of device) \<and>
    (\<forall>j < sub_count device. queue (cap device) y j =
       (if kept sub (sub_count device) (cap device) d (fifo_of device) j then queue (cap device) (fifo_of device) j @ [ed_val (d ! j)]
        else queue (cap device) (fifo_of device) j))"
proof -
  obtain cb rs where o: "inform_cb device = Some cb" "sub_rule sub = Some rs"
    "length rs = sub_count device" "fifo_ele (app_fifo device) = Some (fifo_of device)"
    "fifo_wf (sub_count device) (cap device) (fifo_of device)" "0 < cap device" "sub_tp sub = SR_ELE_SUB_TP_GROUP \<or> sub_tp sub = SR_ELE_SUB_TP_SINGLE"
    "\<And>i. i < sub_count device \<Longrightarrow> length (queue (cap device) (fifo_of device) i) < limit device sub i \<and> limit device sub i \<le> cap device"
    by (rule ele_okD [OF ok]) (use sub in simp)
  let ?n = "sub_count device" and ?F = "cap device" and ?x = "fifo_of device"
  let ?D = "device\<lparr>resource := rs', flag := (flag device)\<lparr>is_need_acquire := False\<rparr>\<rparr>"
  have nf: "\<not> (sub_tp sub = SR_ELE_SUB_TP_SINGLE \<and> \<not> filter_malloc env)" using env(2) by blast
  have load: "tdl_sensor_load_ele_value env device w =
     do { let marks = (if sub_tp sub = SR_ELE_SUB_TP_SINGLE then Some (replicate ?n False) else None);
          f \<leftarrow> filter_loop sub (fst ?x) (snd ?x) d [0..<?n] 0 marks;
          case f of None \<Rightarrow> Some (OPRT_OK, ?D, w')
          | Some marks \<Rightarrow> do { y \<leftarrow> foldM (store_value (Some sub) marks d) [0..<?n] ?x;
              Some (OPRT_OK, ?D\<lparr>app_fifo := (app_fifo device)\<lparr>fifo_ele := Some y\<rparr>\<rparr>, w') } }"
    using o(4) r rd env(1) sub ele_setup [OF order_refl ok] nf
    by (auto simp add: tdl_sensor_load_ele_value_def request_def Let_def case_prod_beta' cong: option.case_cong)
  have room: "fill ?x i < ?F" if "i < ?n" for i using o(8) [OF that] length_queue [OF o(5) that] by simp
  have dd: "\<exists>y. foldM (store_value (Some sub) marks d) [0..<?n] ?x = Some y \<and> fifo_wf ?n ?F y \<and> tags y = tags ?x \<and>
      (\<forall>j < ?n. queue ?F y j = (if keep j then queue ?F ?x j @ [ed_val (d ! j)] else queue ?F ?x j))"
    if "\<And>i x. i < ?n \<Longrightarrow> store_value (Some sub) marks d i x = (if keep i then store_value None marks d i x else Some x)" for marks keep
    using store_all [OF o(5) order_refl d that room] by (auto cong: if_cong)
  show ?thesis
  proof (cases "sub_tp sub = SR_ELE_SUB_TP_GROUP")
    case True
    have f: "filter_loop sub (fst ?x) (snd ?x) d [0..<?n] 0 None = Some (if \<exists>i \<in> set [0..<?n]. rejects ?F rs d ?x i then None else Some None)"
      by (rule filter_loop_group [OF o(5,6) d o(3,2) True]) (use o(6) in auto)
    show ?thesis
    proof (cases "\<exists>i < ?n. rejects ?F rs d ?x i")
      case rej: True
      then have "tdl_sensor_load_ele_value env device w = Some (OPRT_OK, ?D\<lparr>app_fifo := (app_fifo device)\<lparr>fifo_ele := Some ?x\<rparr>\<rparr>, w')"
        using put_same_fifo [of ?D, OF ] o(4) unfolding load using f True by auto
      then show ?thesis using rej o(2,5) True by (intro exI [of _ ?x]) (auto simp: kept_def)
    next
      case nrej: False
      obtain y where y: "foldM (store_value (Some sub) None d) [0..<?n] ?x = Some y" "fifo_wf ?n ?F y" "tags y = tags ?x"
        "\<forall>j < ?n. queue ?F y j = queue ?F ?x j @ [ed_val (d ! j)]"
        using dd [of None "\<lambda>_. True"] True by (auto simp: store_value_def fun_eq_iff)
      then show ?thesis unfolding load using f True nrej o(2) by (intro exI [of _ y]) (auto simp: kept_def)
    qed
  next
    case False
    then have tp: "sub_tp sub = SR_ELE_SUB_TP_SINGLE" using o(7) by simp
    obtain m where m: "filter_loop sub (fst ?x) (snd ?x) d [0..<?n] 0 (Some (replicate ?n False)) = Some (Some (Some m))" "length m = ?n"
      "\<forall>j < ?n. m ! j = rejects ?F rs d ?x j"
      using filter_loop_single [OF o(5,6) d o(3,2) tp, of "[0..<?n]" 0 "replicate ?n False"] o(6) by auto
    obtain y where y: "foldM (store_value (Some sub) (Some m) d) [0..<?n] ?x = Some y" "fifo_wf ?n ?F y" "tags y = tags ?x"
      "\<forall>j < ?n. queue ?F y j = (if \<not> m ! j then queue ?F ?x j @ [ed_val (d ! j)] else queue ?F ?x j)"
    proof -
      have "store_value (Some sub) (Some m) d i x = (if \<not> m ! i then store_value None (Some m) d i x else Some x)" if "i < ?n" for i x
        using that tp m(2) by (cases x) (simp add: store_value_def rd_Some)
      from dd [of "Some m" "\<lambda>j. \<not> m ! j", OF this] show thesis by (blast intro: that)
    qed
    then show ?thesis unfolding load using m False tp o(2) by (intro exI [of _ y]) (auto simp: kept_def)
  qed
qed

lemma inform_group_spec:
  assumes wf: "fifo_wf (sub_count device) (cap device) x" and f: "fifo_ele (app_fifo device) = Some x" and n: "0 < sub_count device"
    and sub: "ele_sub device = Some sub" "sub_tp sub = SR_ELE_SUB_TP_GROUP" and cb: "inform_cb device = Some cb"
  shows "\<exists>y. tdl_sensor_inform_ele_value device =
      Some (if cap device \<le> length (queue (cap device) x 0)
            then [Ele_report cb (sr_name device) (map (single_report (cap device) x) [0..<sub_count device])] else [],
            device\<lparr>app_fifo := (app_fifo device)\<lparr>fifo_ele := Some y\<rparr>\<rparr>) \<and>
    fifo_wf (sub_count device) (cap device) y \<and> tags y = tags x \<and>
    (\<forall>j < sub_count device. queue (cap device) y j = (if cap device \<le> length (queue (cap device) x 0) then [] else queue (cap device) x j))"
proof -
  let ?n = "sub_count device" and ?F = "cap device"
  have len: "length (fst x) = ?n" using wf by (simp add: fifo_wf_def)
  have full: "fifo_size device \<le> eb_val_num (fst x ! 0) \<longleftrightarrow> ?F \<le> length (queue ?F x 0)"
    using length_queue [OF wf n] by (simp add: cap_def fill_def word_le_nat_alt)
  show ?thesis
  proof (cases "?F \<le> length (queue ?F x 0)")
    case False
    then show ?thesis using full f sub n len wf put_same_fifo [OF f]
      by (intro exI [of _ x]) (simp add: tdl_sensor_inform_ele_value_def split_beta rd_Some)
  next
    case True
    obtain y where y: "foldM (clear_buff ?F) [0..<?n] x = Some y" "fifo_wf ?n ?F y" "tags y = tags x" "\<forall>j < ?n. queue ?F y j = []"
      using clear_all [OF wf order_refl] by auto
    have "map (report_of (snd x)) (take ?n (fst x)) = map (single_report ?F x) [0..<?n]"
      using report_of_queue [OF wf] len by (intro nth_equalityI) auto
    then show ?thesis using True full f sub n len cb y
      by (intro exI [of _ y]) (simp add: tdl_sensor_inform_ele_value_def split_beta rd_Some cap_def [symmetric])
  qed
qed

lemma inform_single_dev:
  assumes wf: "fifo_wf (sub_count device) (cap device) x" and f: "fifo_ele (app_fifo device) = Some x"
    and sub: "ele_sub device = Some sub" "sub_tp sub = SR_ELE_SUB_TP_SINGLE" "sub_rule sub = Some rs" "length rs = sub_count device"
    and cb: "inform_cb device = Some cb"
  shows "\<exists>y. tdl_sensor_inform_ele_value device =
      Some (map (\<lambda>i. Ele_report cb (sr_name device) [single_report (cap device) x i])
              (filter (\<lambda>i. unat (rl_val_num (rs ! i)) \<le> length (queue (cap device) x i)) [0..<sub_count device]),
            device\<lparr>app_fifo := (app_fifo device)\<lparr>fifo_ele := Some y\<rparr>\<rparr>) \<and>
    fifo_wf (sub_count device) (cap device) y \<and> tags y = tags x \<and>
    (\<forall>j < sub_count device. queue (cap device) y j =
       (if unat (rl_val_num (rs ! j)) \<le> length (queue (cap device) x j) then [] else queue (cap device) x j))"
proof -
  let ?P = "\<lambda>i. unat (rl_val_num (rs ! i)) \<le> length (queue (cap device) x i)"
  obtain y where y: "inform_single device rs [0..<sub_count device] ([], x) =
      Some (map (\<lambda>i. Ele_report cb (sr_name device) [single_report (cap device) x i]) (filter ?P [0..<sub_count device]), y)"
    "fifo_wf (sub_count device) (cap device) y" "tags y = tags x"
    "\<forall>j < sub_count device. queue (cap device) y j = (if ?P j then [] else queue (cap device) x j)"
    using inform_single_spec [OF wf sub(4) cb, of "[0..<sub_count device]" "[]"] by auto
  then show ?thesis using f sub by (intro exI [of _ y]) (simp add: tdl_sensor_inform_ele_value_def split_beta)
qed

text \<open>The same counts, capacity and rules after a change of FIFO, flags and resource.\<close>

lemma setup_same [simp]:
  "sub_count (device\<lparr>resource := rs, flag := fl, app_fifo := ff\<rparr>) = sub_count device"
  "cap (device\<lparr>resource := rs, flag := fl, app_fifo := ff\<rparr>) = cap device"
  "limit (device\<lparr>resource := rs, flag := fl, app_fifo := ff\<rparr>) = limit device"
  "sub_ok (device\<lparr>resource := rs, flag := fl, app_fifo := ff\<rparr>) = sub_ok device"
  "fifo_of (device\<lparr>resource := rs, flag := fl, app_fifo := ff\<lparr>fifo_ele := Some y\<rparr>\<rparr>) = y"
  by (simp_all add: sub_count_def cap_def limit_def sub_ok_def fifo_of_def fun_eq_iff split: option.split)

lemma acquire_ele:
  assumes ok: "ele_ok device" and st: "is_start (flag device)" "is_need_acquire (flag device)" and env: "data_malloc env" "sub_tp sub = SR_ELE_SUB_TP_SINGLE \<Longrightarrow> filter_malloc env"
    and rd: "in_read_ele (intfs device) = Some read"
    and r: "read (resource device) (request device) (of_nat (sub_count device)) w = Some (OPRT_OK, d, rs', w')"
    and d: "length d = sub_count device" and sub: "ele_sub device = Some sub" and cb: "inform_cb device = Some cb"
    and S: "S = spec_acquire sub (cap device) (tags (fifo_of device)) (queues device) (map ed_val d)"
  shows "\<exists>y. acquire_dev env device w = Some (map (Ele_report cb (sr_name device)) (fst S),
      device\<lparr>resource := rs', flag := (flag device)\<lparr>is_need_acquire := False\<rparr>, app_fifo := (app_fifo device)\<lparr>fifo_ele := Some y\<rparr>\<rparr>, w') \<and>
    fifo_wf (sub_count device) (cap device) y \<and> tags y = tags (fifo_of device) \<and>
    map (queue (cap device) y) [0..<sub_count device] = snd S"
proof -
  obtain rs where o: "sub_rule sub = Some rs" "length rs = sub_count device" "0 < sub_count device" "sub_tp sub = SR_ELE_SUB_TP_GROUP \<or> sub_tp sub = SR_ELE_SUB_TP_SINGLE"
    "\<And>i. i < sub_count device \<Longrightarrow> length (queue (cap device) (fifo_of device) i) < limit device sub i \<and> limit device sub i \<le> cap device"
    by (rule ele_okD [OF ok]) (use sub in simp)
  let ?n = "sub_count device" and ?F = "cap device" and ?x = "fifo_of device" and ?fl = "(flag device)\<lparr>is_need_acquire := False\<rparr>"
  obtain x where x: "tdl_sensor_load_ele_value env device w =
      Some (OPRT_OK, device\<lparr>resource := rs', flag := ?fl, app_fifo := (app_fifo device)\<lparr>fifo_ele := Some x\<rparr>\<rparr>, w')"
    "fifo_wf ?n ?F x" "tags x = tags ?x"
    "\<forall>j < ?n. queue ?F x j = (if kept sub ?n ?F d ?x j then queue ?F ?x j @ [ed_val (d ! j)] else queue ?F ?x j)"
    using load_spec [OF ok env rd r d sub] by blast
  let ?D = "device\<lparr>resource := rs', flag := ?fl, app_fifo := (app_fifo device)\<lparr>fifo_ele := Some x\<rparr>\<rparr>"
  have rej: "rejects ?F rs d ?x i = spec_rejects sub (tags ?x) (queues device) (map ed_val d) i" if "i < ?n" for i
    using that o d by (simp add: rejects_def spec_rejects_def)
  have queue0: "sub_tp sub = SR_ELE_SUB_TP_GROUP \<Longrightarrow> length (queue ?F ?x 0) < ?F"
    using o(5) [OF o(3)] by (simp add: limit_def)
  have acq: "acquire_dev env device w = do { (out, D) \<leftarrow> tdl_sensor_inform_ele_value ?D; Some (out, D, w') }"
    using st x(1) ok by (simp add: acquire_dev_def ele_ok_def)
  have wf: "fifo_wf (sub_count ?D) (cap ?D) x" and f: "fifo_ele (app_fifo ?D) = Some x" using x(2) by simp_all
  show ?thesis
  proof (cases "sub_tp sub = SR_ELE_SUB_TP_GROUP")
    case True
    obtain y where y: "tdl_sensor_inform_ele_value ?D =
      Some (if ?F \<le> length (queue ?F x 0) then [Ele_report cb (sr_name device) (map (single_report ?F x) [0..<?n])] else [],
            ?D\<lparr>app_fifo := (app_fifo ?D)\<lparr>fifo_ele := Some y\<rparr>\<rparr>)"
      "fifo_wf ?n ?F y" "tags y = tags x" "\<forall>j < ?n. queue ?F y j = (if ?F \<le> length (queue ?F x 0) then [] else queue ?F x j)"
      using inform_group_spec [OF wf f, of sub cb] o(3) sub True cb by auto
    have "fst S = (if ?F \<le> length (queue ?F x 0) then [map (single_report ?F x) [0..<?n]] else []) \<and> map (queue ?F y) [0..<?n] = snd S"
    proof (cases "\<exists>i < ?n. rejects ?F rs d ?x i")
      case rejd: True
      have "length (queue ?F ?x 0) < ?F" using queue0 True by simp
      moreover have q: "queue ?F x j = queue ?F ?x j" if "j < ?n" for j using x(4) that rejd True o(1) by (auto simp: kept_def)
      ultimately have nf: "\<not> ?F \<le> length (queue ?F x 0)" using o(3) by simp
      then have "queue ?F y j = queue ?F ?x j" if "j < ?n" for j using y(4) q that by simp
      then have "map (queue ?F y) [0..<?n] = queues device" by (simp add: queues_def)
      moreover have "\<exists>i \<in> set [0..<?n]. spec_rejects sub (tags ?x) (queues device) (map ed_val d) i" using rejd rej by auto
      then have "S = ([], queues device)" using S True by (simp add: spec_acquire_def)
      ultimately show ?thesis using nf by simp
    next
      case False
      have q: "queue ?F x j = queue ?F ?x j @ [ed_val (d ! j)]" if "j < ?n" for j using x(4) that False True o(1) by (auto simp: kept_def)
      let ?qs = "map (\<lambda>i. queues device ! i @ [map ed_val d ! i]) [0..<?n]"
      have qs: "?qs = map (queue ?F x) [0..<?n]" using q d by auto
      have rp: "map (spec_report (tags ?x) ?qs) [0..<?n] = map (single_report ?F x) [0..<?n]"
        unfolding qs using x(3) by (auto simp: spec_report_def single_report_def)
      have "\<not> (\<exists>i \<in> set [0..<?n]. spec_rejects sub (tags ?x) (queues device) (map ed_val d) i)" using False rej by auto
      then have "S = (if ?F \<le> length (?qs ! 0) then ([map (spec_report (tags ?x) ?qs) [0..<?n]], replicate ?n []) else ([], ?qs))"
        using S True by (simp add: spec_acquire_def Let_def)
      then have "S = (if ?F \<le> length (queue ?F x 0) then ([map (single_report ?F x) [0..<?n]], replicate ?n []) else ([], map (queue ?F x) [0..<?n]))"
        unfolding rp unfolding qs using o(3) by simp
      then show ?thesis using y(4) by (auto simp: list_eq_iff_nth_eq)
    qed
    then show ?thesis using acq y x(3) by (intro exI [of _ y]) simp
  next
    case False
    then have tp: "sub_tp sub = SR_ELE_SUB_TP_SINGLE" using o(4) by simp
    let ?full = "\<lambda>i. unat (rl_val_num (rs ! i)) \<le> length (queue ?F x i)"
    obtain y where y: "tdl_sensor_inform_ele_value ?D =
      Some (map (\<lambda>i. Ele_report cb (sr_name device) [single_report ?F x i]) (filter ?full [0..<?n]), ?D\<lparr>app_fifo := (app_fifo ?D)\<lparr>fifo_ele := Some y\<rparr>\<rparr>)"
      "fifo_wf ?n ?F y" "tags y = tags x" "\<forall>j < ?n. queue ?F y j = (if ?full j then [] else queue ?F x j)"
      using inform_single_dev [OF wf f _ tp o(1), of cb] o(2) sub cb by auto
    let ?qs = "map (\<lambda>i. if spec_rejects sub (tags ?x) (queues device) (map ed_val d) i then queues device ! i else queues device ! i @ [map ed_val d ! i]) [0..<?n]"
    have q: "?qs ! j = queue ?F x j" if "j < ?n" for j using x(4) that False o(1) d rej [OF that] by (simp add: kept_def)
    have fl: "filter (\<lambda>i. unat (rl_val_num (the (sub_rule sub) ! i)) \<le> length (?qs ! i)) [0..<?n] = filter ?full [0..<?n]"
      by (rule filter_cong) (use q o(1) in auto)
    have rp: "spec_report (tags ?x) ?qs j = single_report ?F x j" if "j < ?n" for j
      using q [OF that] x(3) by (simp only: spec_report_def single_report_def)
    have "S = (map (\<lambda>i. [spec_report (tags ?x) ?qs i]) (filter (\<lambda>i. unat (rl_val_num (the (sub_rule sub) ! i)) \<le> length (?qs ! i)) [0..<?n]),
        map (\<lambda>i. if unat (rl_val_num (the (sub_rule sub) ! i)) \<le> length (?qs ! i) then [] else ?qs ! i) [0..<?n])"
      using S tp by (simp add: spec_acquire_def Let_def)
    also have "\<dots> = (map (\<lambda>i. [single_report ?F x i]) (filter ?full [0..<?n]), map (\<lambda>i. if ?full i then [] else queue ?F x i) [0..<?n])"
      unfolding fl using rp q o(1) by (simp cong: map_cong)
    finally have "S = (map (\<lambda>i. [single_report ?F x i]) (filter ?full [0..<?n]), map (\<lambda>i. if ?full i then [] else queue ?F x i) [0..<?n])" .
    then show ?thesis using acq y x(3) by (intro exI [of _ y]) (simp add: comp_def)
  qed
qed

lemma spec_acquire_bounds:
  assumes sub: "sub_ok device sub" and n: "length qs = unat (sub_num sub)"
    and lt: "\<forall>i < length qs. length (qs ! i) < limit device sub i"
    and eq: "sub_tp sub = SR_ELE_SUB_TP_GROUP \<longrightarrow> (\<exists>L. \<forall>i < length qs. length (qs ! i) = L)"
    and Q_def: "Q = snd (spec_acquire sub (cap device) tg qs vs)"
  shows "length Q = length qs" "\<forall>i < length qs. length (Q ! i) < limit device sub i"
    "sub_tp sub = SR_ELE_SUB_TP_GROUP \<longrightarrow> (\<exists>L. \<forall>i < length qs. length (Q ! i) = L)"
proof -
  have pos: "\<forall>i < length qs. 0 < limit device sub i" using sub n by (simp add: sub_ok_def)
  have n0: "0 < length qs" using sub n by (simp add: sub_ok_def word_gt_0 unat_gt_0)
  show "length Q = length qs" by (simp add: Q_def spec_acquire_def Let_def)
  show "sub_tp sub = SR_ELE_SUB_TP_GROUP \<longrightarrow> (\<exists>L. \<forall>i < length qs. length (Q ! i) = L)"
    using eq n0 by (auto simp: Q_def spec_acquire_def Let_def)
  show "\<forall>i < length qs. length (Q ! i) < limit device sub i"
  proof (cases "sub_tp sub = SR_ELE_SUB_TP_GROUP")
    case True
    then show ?thesis using lt eq pos n0 by (auto simp: Q_def spec_acquire_def Let_def limit_def)
  next
    case False
    then show ?thesis using lt pos by (auto simp: Q_def spec_acquire_def Let_def limit_def)
  qed
qed

lemma ele_ok_put:
  assumes ok: "ele_ok device" and sub: "ele_sub device = Some sub" and y: "fifo_wf (sub_count device) (cap device) y"
    and q: "\<forall>i < sub_count device. length (queue (cap device) y i) < limit device sub i"
    "sub_tp sub = SR_ELE_SUB_TP_GROUP \<longrightarrow> (\<exists>L. \<forall>i < sub_count device. length (queue (cap device) y i) = L)"
  shows "ele_ok (device\<lparr>resource := rs, flag := fl, app_fifo := (app_fifo device)\<lparr>fifo_ele := Some y\<rparr>\<rparr>)"
  using assms by (auto simp: ele_ok_def)

text \<open>What an acquisition changes of a device.\<close>

definition acquired :: "('p, 'w) SR_DEV_NODE_T \<Rightarrow> SR_RSRC_T \<Rightarrow> ('p, 'w) SR_DEV_NODE_T \<Rightarrow> bool" where
  "acquired d rs e \<longleftrightarrow> (\<exists>ff. e = d\<lparr>resource := rs, flag := (flag d)\<lparr>is_need_acquire := False\<rparr>, app_fifo := ff\<rparr>)"

lemma acquire_keeps:
  assumes ok: "ele_ok device" and st: "is_start (flag device)" "is_need_acquire (flag device)" and env: "data_malloc env" "sub_tp sub = SR_ELE_SUB_TP_SINGLE \<Longrightarrow> filter_malloc env"
    and rd: "in_read_ele (intfs device) = Some read"
    and r: "read (resource device) (request device) (of_nat (sub_count device)) w = Some (OPRT_OK, d, rs', w')"
    and d: "length d = sub_count device" and sub: "ele_sub device = Some sub" and cb: "inform_cb device = Some cb"
  shows "\<exists>device'. acquire_dev env device w =
      Some (map (Ele_report cb (sr_name device)) (fst (spec_acquire sub (cap device) (tags (fifo_of device)) (queues device) (map ed_val d))), device', w') \<and>
    queues device' = snd (spec_acquire sub (cap device) (tags (fifo_of device)) (queues device) (map ed_val d)) \<and>
    ele_ok device' \<and> acquired device rs' device' \<and> tags (fifo_of device') = tags (fifo_of device)"
proof -
  let ?S = "spec_acquire sub (cap device) (tags (fifo_of device)) (queues device) (map ed_val d)"
  obtain y where y: "acquire_dev env device w = Some (map (Ele_report cb (sr_name device)) (fst ?S),
      device\<lparr>resource := rs', flag := (flag device)\<lparr>is_need_acquire := False\<rparr>, app_fifo := (app_fifo device)\<lparr>fifo_ele := Some y\<rparr>\<rparr>, w')"
    "fifo_wf (sub_count device) (cap device) y" "tags y = tags (fifo_of device)" "map (queue (cap device) y) [0..<sub_count device] = snd ?S"
    using acquire_ele [OF ok st env rd r d sub cb refl] by blast
  let ?D = "device\<lparr>resource := rs', flag := (flag device)\<lparr>is_need_acquire := False\<rparr>, app_fifo := (app_fifo device)\<lparr>fifo_ele := Some y\<rparr>\<rparr>"
  have nth: "snd ?S ! i = queue (cap device) y i" if "i < sub_count device" for i using that by (simp add: y(4) [symmetric])
  have s: "sub_ok device sub" "length (queues device) = unat (sub_num sub)" using ok sub by (auto simp: ele_ok_def sub_count_def)
  have n0: "0 < sub_count device" using ele_okD [OF ok] by blast
  have q: "\<forall>i < length (queues device). length (queues device ! i) < limit device sub i"
    "sub_tp sub = SR_ELE_SUB_TP_GROUP \<longrightarrow> (\<exists>L. \<forall>i < length (queues device). length (queues device ! i) = L)"
    using ok sub by (auto simp: ele_ok_def)
  note b = spec_acquire_bounds [OF s q refl, of "tags (fifo_of device)" "map ed_val d"]
  have "\<forall>i < sub_count device. length (queue (cap device) y i) < limit device sub i"
    "sub_tp sub = SR_ELE_SUB_TP_GROUP \<longrightarrow> (\<exists>L. \<forall>i < sub_count device. length (queue (cap device) y i) = L)"
    using b(2,3) nth n0 by simp_all
  then have "ele_ok ?D" by (rule ele_ok_put [OF ok sub y(2)])
  moreover have "queues ?D = snd ?S" using y(4) by (simp add: queues_def)
  moreover have "acquired device rs' ?D" unfolding acquired_def by blast
  ultimately show ?thesis using y(1,3) by (intro exI [of _ ?D]) simp
qed

text \<open>C11: An acquisition implements the contract of the subscription. When the driver delivers a row of values for a started device
  whose buffers are in order, the call returns, touches no memory outside its buffers, makes exactly the reports of the contract, in
  its order and with its values, and leaves exactly its queues; the buffers are in order again and the request for an acquisition is
  done.\<close>

theorem sensor_acquire_refines:
  assumes ok: "ele_ok device" and st: "is_start (flag device)" "is_need_acquire (flag device)" and env: "data_malloc env" "sub_tp sub = SR_ELE_SUB_TP_SINGLE \<Longrightarrow> filter_malloc env"
    and rd: "in_read_ele (intfs device) = Some read"
    and r: "read (resource device) (request device) (of_nat (sub_count device)) w = Some (OPRT_OK, d, rs', w')"
    and d: "length d = sub_count device" and sub: "ele_sub device = Some sub" and cb: "inform_cb device = Some cb"
  shows "\<exists>device'. acquire_dev env device w =
      Some (map (Ele_report cb (sr_name device)) (fst (spec_acquire sub (cap device) (tags (fifo_of device)) (queues device) (map ed_val d))), device', w') \<and>
    queues device' = snd (spec_acquire sub (cap device) (tags (fifo_of device)) (queues device) (map ed_val d)) \<and>
    ele_ok device' \<and> acquired device rs' device' \<and> tags (fifo_of device') = tags (fifo_of device)"
  by (rule acquire_keeps [OF assms])

text \<open>A device whose queue of two holds one value, and a driver that delivers another.\<close>

definition ex_rule :: SR_ELE_SUB_RULE_T where
  "ex_rule = \<lparr>rl_id = 4, rl_val_num = 2, rl_filter = \<lparr>fl_max = 0, fl_min = 0, fl_step = 3\<rparr>\<rparr>"

definition ex_sub :: SR_ELE_SUB_CFG_T where
  "ex_sub = \<lparr>sub_tp = SR_ELE_SUB_TP_SINGLE, sub_num = 1, sub_rule = Some [ex_rule]\<rparr>"

definition ex_read :: "SR_RSRC_T \<Rightarrow> SR_ELE_DATA_T list \<Rightarrow> u8 \<Rightarrow> unit \<Rightarrow> (OPERATE_RET \<times> SR_ELE_DATA_T list \<times> SR_RSRC_T \<times> unit) option" where
  "ex_read rs d n w = Some (OPRT_OK, map (\<lambda>e. e\<lparr>ed_val := 42\<rparr>) d, rs, w)"

definition ex_node :: "(unit, unit) SR_DEV_NODE_T" where
  "ex_node = \<lparr>sr_name = ''adc'', flag = \<lparr>is_start = True, is_need_acquire = True, is_irq_occur = False\<rparr>, work_param = work_zero,
     app_fifo = \<lparr>fifo_ele = Some ([\<lparr>eb_id = 4, eb_val_tp = SR_VAL_TP_INT, eb_val_num = 1, eb_val = 0\<rparr>], [5, 0]), fifo_raw_len = 0, fifo_raw_data = None\<rparr>,
     ele_num = 1, ele_info = [\<lparr>ec_id = 4, ec_val_tp = SR_VAL_TP_INT\<rparr>], resource = \<lparr>rs_type = 0, rs_port = 0, rs_handle = 0, rs_info = []\<rparr>,
     intfs = \<lparr>in_open = None, in_close = None, in_control = None, in_read_ele = Some ex_read, in_read_raw = None\<rparr>,
     trig_mode = 0, inform_cb = Some 7, fifo_size = 2, ele_sub = Some ex_sub\<rparr>"

definition ex_answers :: sr_env where
  "ex_answers = \<lparr>node_malloc = True, sub_malloc = True, rule_malloc = True, fifo_malloc = True, data_malloc = True, filter_malloc = True,
     mutex_ret = OPRT_OK, thread_ret = OPRT_OK, sem_ret = OPRT_OK, sw_create_ret = OPRT_OK, sw_start_ret = OPRT_OK, hw_init_ret = (\<lambda>_. OPRT_OK),
     hw_start_ret = OPRT_OK, irq_init_ret = OPRT_OK, irq_enable_ret = OPRT_OK\<rparr>"

theorem sensor_acquire_refines_witness:
  "\<exists>d. acquire_dev ex_answers ex_node () =
      Some ([Ele_report 7 ''adc'' [\<lparr>er_id = 4, er_val_tp = SR_VAL_TP_INT, er_vals = [5, 42]\<rparr>]], d, ()) \<and> queues d = [[]] \<and> ele_ok d"
proof -
  have c: "sub_count ex_node = 1" "cap ex_node = 2" by (simp_all add: sub_count_def cap_def ex_node_def ex_sub_def)
  have f: "fifo_of ex_node = ([\<lparr>eb_id = 4, eb_val_tp = SR_VAL_TP_INT, eb_val_num = 1, eb_val = 0\<rparr>], [5, 0])" by (simp add: fifo_of_def ex_node_def)
  have q: "queues ex_node = [[5]]" by (simp add: queues_def c f queue_def fill_def)
  have "fifo_wf 1 2 (fifo_of ex_node)" by (simp add: f fifo_wf_def fill_def All_less_Suc eval_nat_numeral)
  moreover have n: "ele_sub ex_node = Some ex_sub" "is_ele ex_node" "inform_cb ex_node = Some 7" "in_read_ele (intfs ex_node) \<noteq> None" "fifo_ele (app_fifo ex_node) \<noteq> None"
    by (simp_all add: ex_node_def tdl_sensor_get_data_tp_def)
  moreover have l: "limit ex_node ex_sub 0 = 2" by (simp add: limit_def ex_sub_def ex_rule_def)
  moreover have "sub_ok ex_node ex_sub" using l by (simp add: sub_ok_def c) (simp add: ex_sub_def)
  ultimately have ok: "ele_ok ex_node" by (simp add: ele_ok_def c q ex_sub_def [THEN arg_cong, of sub_tp])
  have r: "ex_read (resource ex_node) (request ex_node) (of_nat (sub_count ex_node)) () =
    Some (OPRT_OK, [\<lparr>ed_id = 4, ed_val = 42\<rparr>], resource ex_node, ())" by (simp add: ex_read_def request_def c f tags_def)
  have s: "spec_acquire ex_sub 2 [(4, 0)] [[5]] [42] = ([[\<lparr>er_id = 4, er_val_tp = 0, er_vals = [5, 42]\<rparr>]], [[]])"
    by (simp add: spec_acquire_def ex_sub_def ex_rule_def spec_rejects_def spec_report_def tdl_sensor_is_need_filter_def SR_IS_VAL_OVER_RANG_def
      SR_IS_VAL_DIFF_IN_STEP_def prev_val_def Let_def)
  have t: "is_start (flag ex_node)" "is_need_acquire (flag ex_node)" "in_read_ele (intfs ex_node) = Some ex_read" "data_malloc ex_answers" "filter_malloc ex_answers"
    "sr_name ex_node = ''adc''" by (simp_all add: ex_node_def ex_answers_def)
  show ?thesis using sensor_acquire_refines [OF ok t(1,2,4,5,3) r _ n(1,3)] by (simp add: c q f tags_def s t(6)) auto
qed

end
