(* ===== verification/Sensor_Life.thy ===== *)
theory Sensor_Life
  imports Sensor_Fifo
begin

text \<open>
  The life of the devices of the sensor manager: what the checks of a configuration guarantee, that opening a device gives buffers
  in order, and that every call and every interrupt keeps them so, for any drivers that keep the contract of the locale
  \<open>sensor_drivers\<close>.
\<close>

section \<open>Opening gives buffers in order\<close>

text \<open>A device as registration leaves it and every call keeps it: its functions and the description of its elements are there.\<close>

definition node_ok :: "('p, 'w) SR_DEV_NODE_T \<Rightarrow> bool" where
  "node_ok d \<longleftrightarrow> in_open (intfs d) \<noteq> None \<and> in_close (intfs d) \<noteq> None \<and> in_control (intfs d) \<noteq> None \<and>
     (if is_ele d then in_read_ele (intfs d) \<noteq> None \<and> unat (ele_num d) \<le> length (ele_info d) else in_read_raw (intfs d) \<noteq> None)"

lemma ele_search_total:
  "\<forall>j \<in> set js. j < length info \<Longrightarrow> \<exists>f. ele_search info e js = Some f \<and> (\<forall>j. f = Some j \<longrightarrow> j \<in> set js)"
  by (induction js) (auto simp: rd_Some)

lemma u8_ge_1: "0 < F \<Longrightarrow> 1 \<le> (F :: u8)"
  by (simp add: word_le_nat_alt word_less_nat_alt)

lemma check_rule_total:
  assumes "node_ok d" "is_ele d" "0 < F"
  shows "\<exists>ok r'. check_rule d F tp r = Some (ok, r') \<and>
    (\<forall>q. ok = Some q \<longrightarrow> q = r' \<and> 0 < rl_val_num q \<and> rl_val_num q \<le> F)"
proof -
  have "\<forall>j \<in> set [0..<unat (ele_num d)]. j < length (ele_info d)" using assms by (auto simp: node_ok_def)
  from ele_search_total [OF this, of "rl_id r"] obtain f where f: "ele_search (ele_info d) (rl_id r) [0..<unat (ele_num d)] = Some f"
    "\<forall>j. f = Some j \<longrightarrow> j < unat (ele_num d)" by auto
  show ?thesis
  proof (cases f)
    case (Some j)
    then have "j < length (ele_info d)" using f(2) assms by (auto simp: node_ok_def)
    then show ?thesis using f(1) Some assms(3) u8_ge_1 [OF assms(3)]
      by (auto simp: check_rule_def rd_Some Let_def not_less word_neq_0_conv)
  qed (use f(1) in \<open>simp add: check_rule_def\<close>)
qed

lemma check_rules_total:
  assumes "node_ok d" "is_ele d" "0 < F"
  shows "\<forall>i \<in> set is. i < length rs \<Longrightarrow> \<exists>r rs'. check_rules d F tp is rs = Some (r, rs') \<and> length rs' = length rs \<and>
    (r = OPRT_OK \<longrightarrow> (\<forall>i < length rs. (i \<in> set is \<longrightarrow> 0 < rl_val_num (rs' ! i) \<and> rl_val_num (rs' ! i) \<le> F) \<and> (i \<notin> set is \<longrightarrow> rs' ! i = rs ! i)))"
proof (induction "is" arbitrary: rs)
  case (Cons i "is")
  obtain ok r' where c: "check_rule d F tp (rs ! i) = Some (ok, r')" "\<forall>q. ok = Some q \<longrightarrow> q = r' \<and> 0 < rl_val_num q \<and> rl_val_num q \<le> F"
    using check_rule_total [OF assms] by blast
  show ?case
  proof (cases ok)
    case None
    then show ?thesis using c(1) Cons.prems by (simp add: rd_Some)
  next
    case (Some q)
    obtain r rs' where IH: "check_rules d F tp is (rs[i := q]) = Some (r, rs')" "length rs' = length rs"
      "r = OPRT_OK \<longrightarrow> (\<forall>j < length rs. (j \<in> set is \<longrightarrow> 0 < rl_val_num (rs' ! j) \<and> rl_val_num (rs' ! j) \<le> F) \<and> (j \<notin> set is \<longrightarrow> rs' ! j = rs[i := q] ! j))"
      using Cons.IH [of "rs[i := q]"] Cons.prems by auto
    have "check_rules d F tp (i # is) rs = Some (r, rs')" using c(1) Some IH(1) Cons.prems by (simp add: rd_Some)
    then show ?thesis using IH(2,3) c(2) Some Cons.prems by (auto simp: nth_list_update split: if_splits)
  qed
qed simp

text \<open>A valid configuration object: the array of rules of a subscription, when there is one, has as many entries as it says.\<close>

definition cfg_ok :: "('p, 'w) SR_DEV_NODE_T \<Rightarrow> SR_DEV_CFG_T \<Rightarrow> bool" where
  "cfg_ok d c \<longleftrightarrow> (is_ele d \<longrightarrow> (\<forall>sub rs. cfg_ele_sub c = Some sub \<longrightarrow> sub_rule sub = Some rs \<longrightarrow> unat (sub_num sub) \<le> length rs))"

text \<open>A checked configuration.\<close>

definition checked :: "('p, 'w) SR_DEV_NODE_T \<Rightarrow> SR_DEV_CFG_T \<Rightarrow> bool" where
  "checked d c \<longleftrightarrow> cfg_inform_cb c \<noteq> None \<and> 0 < cfg_fifo_size c \<and>
     (is_ele d \<longrightarrow> (\<forall>sub. cfg_ele_sub c = Some sub \<longrightarrow> (\<exists>rs. sub_rule sub = Some rs \<and> unat (sub_num sub) \<le> length rs \<and> 0 < sub_num sub \<and>
        (sub_tp sub = SR_ELE_SUB_TP_GROUP \<or> sub_tp sub = SR_ELE_SUB_TP_SINGLE) \<and>
        (\<forall>i < unat (sub_num sub). 0 < rl_val_num (rs ! i) \<and> rl_val_num (rs ! i) \<le> cfg_fifo_size c)))) \<and>
     (\<not> is_ele d \<longrightarrow> cfg_ele_sub c = None)"

lemma u8_le_1: "\<not> (1 :: u8) < t \<Longrightarrow> t = 0 \<or> t = 1"
proof -
  assume "\<not> (1 :: u8) < t"
  then have "unat t = unat (0 :: u8) \<or> unat t = unat (1 :: u8)" by (simp add: not_less word_le_nat_alt) linarith
  then show ?thesis unfolding word_unat_eq_iff .
qed

lemma check_config_total:
  assumes d: "node_ok d" and c: "cfg_ok d c"
  shows "\<exists>r c'. tdl_sensor_check_config d c = Some (r, c') \<and> (r = OPRT_OK \<longrightarrow> checked d c' \<and> (cfg_ele_sub c' = None \<longleftrightarrow> cfg_ele_sub c = None \<or> \<not> is_ele d))"
proof -
  let ?c = "if cfg_fifo_size c = 0 then c\<lparr>cfg_fifo_size := 1\<rparr> else c"
  have F: "0 < cfg_fifo_size ?c" by (simp add: word_gt_0)
  have keep: "cfg_ele_sub ?c = cfg_ele_sub c" "cfg_inform_cb ?c = cfg_inform_cb c" by simp_all
  show ?thesis
  proof (cases "is_ele d \<and> cfg_ele_sub c \<noteq> None")
    case False
    then show ?thesis using F by (auto simp: tdl_sensor_check_config_def Let_def checked_def keep split: option.split)
  next
    case ele: True
    then have True: "is_ele d" by simp
    obtain sub where sub: "cfg_ele_sub c = Some sub" "\<forall>rs. sub_rule sub = Some rs \<longrightarrow> unat (sub_num sub) \<le> length rs"
      using c ele by (auto simp: cfg_ok_def)
    show ?thesis
    proof (cases "sub_rule sub")
      case None
      then show ?thesis using True sub by (auto simp: tdl_sensor_check_config_def Let_def)
    next
      case (Some rs)
      obtain r rs' where r: "check_rules d (cfg_fifo_size ?c) (sub_tp sub) [0..<unat (sub_num sub)] rs = Some (r, rs')" "length rs' = length rs"
        "r = OPRT_OK \<longrightarrow> (\<forall>i < unat (sub_num sub). 0 < rl_val_num (rs' ! i) \<and> rl_val_num (rs' ! i) \<le> cfg_fifo_size ?c)"
        using check_rules_total [OF d True F, of "[0..<unat (sub_num sub)]" rs "sub_tp sub"] sub(2) Some by auto
      have "tdl_sensor_check_config d c = Some (r, ?c\<lparr>cfg_ele_sub := Some (sub\<lparr>sub_rule := Some rs'\<rparr>)\<rparr>) \<or>
          (\<exists>c'. tdl_sensor_check_config d c = Some (OPRT_INVALID_PARM, c'))"
        using True sub(1) Some r(1) keep(1) by (auto simp: tdl_sensor_check_config_def Let_def)
      moreover have "checked d (?c\<lparr>cfg_ele_sub := Some (sub\<lparr>sub_rule := Some rs'\<rparr>)\<rparr>)"
        if "r = OPRT_OK" "cfg_inform_cb c \<noteq> None" "sub_num sub \<noteq> 0" "\<not> 1 < sub_tp sub"
        using that True F r(2,3) sub(2) Some u8_le_1 [OF that(4)] by (auto simp: checked_def word_gt_0)
      ultimately show ?thesis using True sub(1) Some keep
        by (auto simp: tdl_sensor_check_config_def Let_def split: if_splits)
    qed
  qed
qed

text \<open>A device between two calls.\<close>

definition raw_ok :: "('p, 'w) SR_DEV_NODE_T \<Rightarrow> bool" where
  "raw_ok d \<longleftrightarrow> \<not> is_ele d \<and> inform_cb d \<noteq> None \<and> in_read_raw (intfs d) \<noteq> None \<and> unat (fifo_raw_len (app_fifo d)) < cap d \<and>
     (\<exists>data. fifo_raw_data (app_fifo d) = Some data \<and> length data = cap d)"

text \<open>The copy of the subscription has its rules; a device that is not started has no raw data.\<close>

definition subs_ok :: "('p, 'w) SR_DEV_NODE_T \<Rightarrow> bool" where
  "subs_ok d \<longleftrightarrow> (\<forall>sub. ele_sub d = Some sub \<longrightarrow> (\<exists>rs. sub_rule sub = Some rs \<and> length rs = unat (sub_num sub)))"

definition dev_ok :: "('p, 'w) SR_DEV_NODE_T \<Rightarrow> bool" where
  "dev_ok d \<longleftrightarrow> node_ok d \<and> subs_ok d \<and> (is_start (flag d) \<or> is_ele d \<or> fifo_raw_len (app_fifo d) = 0)"

text \<open>What a device needs for the task to acquire from it.\<close>

definition in_order :: "('p, 'w) SR_DEV_NODE_T \<Rightarrow> bool" where
  "in_order d \<longleftrightarrow> (is_start (flag d) \<longrightarrow> ele_ok d \<or> raw_ok d)"

text \<open>What is fixed when a device is registered.\<close>

definition same_node :: "('p, 'w) SR_DEV_NODE_T \<Rightarrow> ('p, 'w) SR_DEV_NODE_T \<Rightarrow> bool" where
  "same_node d e \<longleftrightarrow> sr_name e = sr_name d \<and> intfs e = intfs d \<and> ele_num e = ele_num d \<and> ele_info e = ele_info d"

lemma same_node_ok: "same_node d e \<Longrightarrow> node_ok d \<Longrightarrow> node_ok e"
  by (simp add: same_node_def node_ok_def)

lemma load_config_ok:
  assumes c: "checked d c" and d: "subs_ok d"
  shows "\<exists>r e. tdl_sensor_load_config env d c = Some (r, e) \<and> same_node d e \<and> resource e = resource d \<and> flag e = flag d \<and>
    app_fifo e = app_fifo d \<and> subs_ok e \<and>
    (r = OPRT_OK \<longrightarrow> inform_cb e = cfg_inform_cb c \<and> fifo_size e = cfg_fifo_size c \<and>
       (cfg_ele_sub c \<noteq> None \<longrightarrow> (\<exists>sub. ele_sub e = Some sub \<and> sub_ok e sub)))"
proof (cases "cfg_ele_sub c")
  case None
  then show ?thesis using d by (auto simp: tdl_sensor_load_config_def Let_def same_node_def subs_ok_def)
next
  case (Some sub)
  then obtain rs where s: "sub_rule sub = Some rs" "unat (sub_num sub) \<le> length rs" "0 < sub_num sub"
    "sub_tp sub = SR_ELE_SUB_TP_GROUP \<or> sub_tp sub = SR_ELE_SUB_TP_SINGLE"
    "\<forall>i < unat (sub_num sub). 0 < rl_val_num (rs ! i) \<and> rl_val_num (rs ! i) \<le> cfg_fifo_size c" "0 < cfg_fifo_size c"
    using c by (cases "is_ele d") (auto simp: checked_def)
  have "memcpy_out rs 0 (unat (sub_num sub)) = Some (take (unat (sub_num sub)) rs)" using s(2) by (simp add: memcpy_out_def)
  moreover have "sub_ok e \<lparr>sub_tp = sub_tp sub, sub_num = sub_num sub, sub_rule = Some (take (unat (sub_num sub)) rs)\<rparr>"
    if "fifo_size e = cfg_fifo_size c" for e :: "('a, 'b) SR_DEV_NODE_T"
    using s that by (auto simp: sub_ok_def limit_def cap_def word_le_nat_alt word_less_nat_alt)
  ultimately show ?thesis using Some s(1,2) by (auto simp: tdl_sensor_load_config_def Let_def same_node_def subs_ok_def)
qed

lemma ele_buff_total:
  assumes d: "node_ok d" "is_ele d" "subs_ok d" and i: "i < sub_count d"
  shows "\<exists>b. ele_buff_init d i = Some b \<and> eb_val_num b = 0 \<and> eb_val b = i * cap d"
proof -
  have n: "unat (ele_num d) \<le> length (ele_info d)" using d by (simp add: node_ok_def)
  have tp: "\<exists>tp. foldM (\<lambda>j tp. do { c \<leftarrow> rd (ele_info d) j; Some (if x = ec_id c then ec_val_tp c else tp) }) [0..<unat (ele_num d)] 0 = Some tp \<and> True" for x
    by (rule foldM_total) (use n in \<open>auto simp: rd_Some\<close>)
  show ?thesis
  proof (cases "ele_sub d")
    case None
    then show ?thesis using n i by (auto simp: ele_buff_init_def sub_count_def rd_Some Let_def cap_def)
  next
    case (Some sub)
    then obtain rs where rs: "sub_rule sub = Some rs" "length rs = unat (sub_num sub)" using d(3) by (auto simp: subs_ok_def)
    then show ?thesis using Some i tp [of "rl_id (rs ! i)"] by (auto simp: ele_buff_init_def sub_count_def rd_Some Let_def cap_def)
  qed
qed

lemma fresh_fifo:
  assumes "length ele = n" "\<forall>i < n. eb_val_num (ele ! i) = 0 \<and> eb_val (ele ! i) = i * F" "F < 256"
  shows "fifo_wf n F (ele, replicate (n * F) 0)" "i < n \<Longrightarrow> queue F (ele, replicate (n * F) 0) i = []"
  using assms area by (auto simp: fifo_wf_def fill_def queue_def)

lemma fresh_ele_ok:
  assumes d: "node_ok d" "is_ele d" "inform_cb d \<noteq> None" "0 < cap d" and s: "ele_sub d = Some sub" "sub_ok d sub"
    and ele: "length ele = sub_count d" "\<forall>i < sub_count d. eb_val_num (ele ! i) = 0 \<and> eb_val (ele ! i) = i * cap d"
  shows "ele_ok (d\<lparr>app_fifo := (app_fifo d)\<lparr>fifo_ele := Some (ele, replicate (sub_count d * cap d) 0)\<rparr>\<rparr>)" (is "ele_ok ?d")
proof -
  have "cap d < 256" by (simp add: cap_def)
  note wf = fresh_fifo [OF ele this]
  have same: "sub_count ?d = sub_count d" "cap ?d = cap d" "fifo_of ?d = (ele, replicate (sub_count d * cap d) 0)" "limit ?d = limit d" "sub_ok ?d = sub_ok d"
    using s(1) by (simp_all add: sub_count_def cap_def fifo_of_def limit_def sub_ok_def fun_eq_iff)
  have pos: "\<forall>i < sub_count d. 0 < limit d sub i" using s by (simp add: sub_ok_def sub_count_def)
  show ?thesis unfolding ele_ok_def same
  proof (intro conjI)
    show "\<exists>sub. ele_sub ?d = Some sub \<and> sub_ok d sub \<and> (\<forall>i < sub_count d. length (queues ?d ! i) < limit d sub i) \<and>
        (sub_tp sub = SR_ELE_SUB_TP_GROUP \<longrightarrow> (\<exists>L. \<forall>i < sub_count d. length (queues ?d ! i) = L))"
      using s wf(2) pos by (intro exI [of _ sub]) (simp add: same)
  qed (use wf(1) d in \<open>auto simp: node_ok_def\<close>)
qed

text \<open>The buffers are made, or there is no memory; they are in order when the subscription is, or when there are no raw data yet.\<close>

lemma prepare_ok:
  assumes d: "node_ok d" "inform_cb d \<noteq> None" "0 < fifo_size d" "subs_ok d"
  shows "\<exists>r f. tdl_sensor_prepare_app_fifo env d = Some (r, d\<lparr>app_fifo := f\<rparr>) \<and> fifo_raw_len f = fifo_raw_len (app_fifo d) \<and>
    (r = OPRT_OK \<longrightarrow> (if is_ele d then \<exists>sub. ele_sub d = Some sub \<and> sub_ok d sub else fifo_raw_len (app_fifo d) = 0) \<longrightarrow>
       ele_ok (d\<lparr>app_fifo := f\<rparr>) \<or> raw_ok (d\<lparr>app_fifo := f\<rparr>))"
proof (cases "is_ele d")
  case False
  then show ?thesis using d
    by (auto simp: tdl_sensor_prepare_app_fifo_def Let_def raw_ok_def node_ok_def cap_def unat_gt_0 word_gt_0)
next
  case True
  let ?n = "sub_count d" and ?F = "cap d"
  let ?e = "d\<lparr>app_fifo := (app_fifo d)\<lparr>fifo_ele := None\<rparr>\<rparr>"
  let ?ele = "map (\<lambda>i. the (ele_buff_init d i)) [0..<?n]"
  let ?d = "d\<lparr>app_fifo := (app_fifo d)\<lparr>fifo_ele := Some (?ele, replicate (?n * ?F) 0)\<rparr>\<rparr>"
  have ini: "ele_buff_init ?e i = ele_buff_init d i" for i by (cases "ele_sub d") (simp_all add: ele_buff_init_def)
  have b: "ele_buff_init d i = Some (?ele ! i) \<and> eb_val_num (?ele ! i) = 0 \<and> eb_val (?ele ! i) = i * ?F" if "i < ?n" for i
    using ele_buff_total [OF d(1) True d(4) that] that by auto
  then have "\<forall>i \<in> set [0..<?n]. ele_buff_init ?e i = Some (the (ele_buff_init d i))" using ini by simp
  from foldM_collect [OF this, of "[]"] have col: "foldM (\<lambda>i bs. do { b \<leftarrow> ele_buff_init ?e i; Some (bs @ [b]) }) [0..<?n] [] = Some ?ele" by simp
  have cnt: "sub_count ?e = ?n" by (simp add: sub_count_def split: option.split)
  have prep: "tdl_sensor_prepare_app_fifo env d =
    (if fifo_malloc env then Some (OPRT_OK, ?d) else Some (OPRT_MALLOC_FAILED, ?e))"
    using True col cnt by (simp add: tdl_sensor_prepare_app_fifo_def Let_def cap_def)
  have "length ?ele = ?n" "\<forall>i < ?n. eb_val_num (?ele ! i) = 0 \<and> eb_val (?ele ! i) = i * ?F" using b by (simp, blast)
  moreover have "0 < ?F" using d(3) by (simp add: cap_def unat_gt_0 word_gt_0)
  ultimately have "ele_ok ?d" if "ele_sub d = Some sub" "sub_ok d sub" for sub
    using fresh_ele_ok [OF d(1) True d(2) _ that] by blast
  then show ?thesis using prep True by (cases "fifo_malloc env") auto
qed

section \<open>Runs of the manager\<close>

text \<open>
  What can happen: the calls of the interface, each with the answers of the operating system, the two timers, the pin interrupt and a
  round of the task.
\<close>

datatype ('p, 'w) hub_event =
  Ev_register sr_env "string option" "('p, 'w) SR_INTFS_T option" u8 "SR_ELE_CFG_T list option" SR_RSRC_T
| Ev_open sr_env "nat option" "SR_DEV_CFG_T option"
| Ev_close "nat option"
| Ev_config "nat option" u8 'p
| Ev_read "nat option" u8 "SR_ELE_DATA_T list option" "SR_RAW_DATA_T option"
| Ev_soft_timer | Ev_hard_timer | Ev_exti nat | Ev_task sr_env

fun hub_step :: "('p, 'w) hub_event \<Rightarrow> ('p, 'w) sr_hub \<Rightarrow> ('p, 'w) sr_hub option" where
  "hub_step (Ev_register env name ifs num cfg rs) h = Some (snd (tdl_sensor_register env name ifs num cfg rs h))"
| "hub_step (Ev_open env handle config) h = map_option snd (tdl_sensor_dev_open env handle config h)"
| "hub_step (Ev_close handle) h = map_option snd (tdl_sensor_dev_close handle h)"
| "hub_step (Ev_config handle cmd param) h = map_option snd (tdl_sensor_dev_config handle cmd param h)"
| "hub_step (Ev_read handle num ele raw) h = map_option snd (tdl_sensor_dev_read handle num ele raw h)"
| "hub_step Ev_soft_timer h = Some (tdl_sensor_soft_timer_cb h)"
| "hub_step Ev_hard_timer h = Some (tdl_sensor_hard_timer_cb h)"
| "hub_step (Ev_exti i) h = tdl_sensor_exti_cb i h"
| "hub_step (Ev_task env) h = tdl_sensor_main_task env h"

text \<open>
  What the callers owe: handles come from a lookup and arrays are as long as their count says. Interfaces and driver data are those that
  \<open>drv\<close> knows, and \<open>arg\<close> knows the parameters of the control calls. A device may be opened again while it
  runs, and a device of elements may be opened without a subscription.
\<close>

fun allowed :: "(('p, 'w) SR_INTFS_T \<Rightarrow> SR_RSRC_T \<Rightarrow> bool) \<Rightarrow> (('p, 'w) SR_INTFS_T \<Rightarrow> u8 \<Rightarrow> 'p \<Rightarrow> bool) \<Rightarrow> ('p, 'w) sr_hub \<Rightarrow> ('p, 'w) hub_event \<Rightarrow> bool" where
  "allowed drv arg h (Ev_register env name ifs num cfg rs) \<longleftrightarrow>
     (\<forall>i. ifs = Some i \<longrightarrow> drv i rs) \<and> (\<forall>c. cfg = Some c \<longrightarrow> unat num \<le> length c)"
| "allowed drv arg h (Ev_open env handle config) \<longleftrightarrow>
     (\<forall>i. handle = Some i \<longrightarrow> i < length (sr_devs h) \<and>
        (\<forall>c. config = Some c \<longrightarrow> cfg_ok (sr_devs h ! i) c))"
| "allowed drv arg h (Ev_close handle) \<longleftrightarrow> (\<forall>i. handle = Some i \<longrightarrow> i < length (sr_devs h))"
| "allowed drv arg h (Ev_config handle cmd param) \<longleftrightarrow>
     (\<forall>i. handle = Some i \<longrightarrow> i < length (sr_devs h) \<and> arg (intfs (sr_devs h ! i)) cmd param)"
| "allowed drv arg h (Ev_read handle num ele raw) \<longleftrightarrow>
     (\<forall>i. handle = Some i \<longrightarrow> i < length (sr_devs h)) \<and> (\<forall>x. ele = Some x \<longrightarrow> unat num \<le> length x)"
| "allowed drv arg h (Ev_exti i) \<longleftrightarrow> i < length (sr_devs h)"
| "allowed drv arg h _ \<longleftrightarrow> True"

text \<open>
  The two ways of opening a device the manager accepts without being ready for them: a device that runs is opened again, so that what fails
  half-way leaves a running device without its buffers, and a device of elements is opened without a subscription.
\<close>

fun misopened :: "('p, 'w) hub_event \<Rightarrow> ('p, 'w) sr_hub \<Rightarrow> nat set" where
  "misopened (Ev_open env (Some i) (Some c)) h =
     (if is_start (flag (sr_devs h ! i)) \<or> is_ele (sr_devs h ! i) \<and> cfg_ele_sub c = None then {i} else {})"
| "misopened _ h = {}"

definition running :: "nat set \<Rightarrow> ('p, 'w) sr_hub \<Rightarrow> nat set" where
  "running B h = {i \<in> B. i < length (sr_devs h) \<and> is_start (flag (sr_devs h ! i))}"

section \<open>The contract of a driver\<close>

text \<open>Flags and the driver's own data do not matter for the buffers.\<close>

lemma sub_count_frame [simp]: "sub_count (d\<lparr>resource := rs\<rparr>) = sub_count d" "sub_count (d\<lparr>flag := fl\<rparr>) = sub_count d" "sub_count (d\<lparr>work_param := wp\<rparr>) = sub_count d"
  by (simp_all add: sub_count_def split: option.split)

lemma frame [simp]: "cap (d\<lparr>resource := rs\<rparr>) = cap d" "cap (d\<lparr>flag := fl\<rparr>) = cap d" "cap (d\<lparr>work_param := wp\<rparr>) = cap d"
    "fifo_of (d\<lparr>resource := rs\<rparr>) = fifo_of d" "fifo_of (d\<lparr>flag := fl\<rparr>) = fifo_of d" "fifo_of (d\<lparr>work_param := wp\<rparr>) = fifo_of d"
    "limit (d\<lparr>resource := rs\<rparr>) = limit d" "limit (d\<lparr>flag := fl\<rparr>) = limit d" "limit (d\<lparr>work_param := wp\<rparr>) = limit d"
  by (simp_all add: cap_def fifo_of_def limit_def fun_eq_iff)

lemma frame2 [simp]: "queues (d\<lparr>resource := rs\<rparr>) = queues d" "queues (d\<lparr>flag := fl\<rparr>) = queues d" "queues (d\<lparr>work_param := wp\<rparr>) = queues d"
    "sub_ok (d\<lparr>resource := rs\<rparr>) = sub_ok d" "sub_ok (d\<lparr>flag := fl\<rparr>) = sub_ok d" "sub_ok (d\<lparr>work_param := wp\<rparr>) = sub_ok d"
  by (simp_all add: queues_def sub_ok_def fun_eq_iff)

lemma frame3 [simp]: "ele_ok (d\<lparr>resource := rs\<rparr>) = ele_ok d" "ele_ok (d\<lparr>flag := fl\<rparr>) = ele_ok d" "ele_ok (d\<lparr>work_param := wp\<rparr>) = ele_ok d"
    "raw_ok (d\<lparr>resource := rs\<rparr>) = raw_ok d" "raw_ok (d\<lparr>flag := fl\<rparr>) = raw_ok d" "raw_ok (d\<lparr>work_param := wp\<rparr>) = raw_ok d"
    "node_ok (d\<lparr>resource := rs\<rparr>) = node_ok d" "node_ok (d\<lparr>flag := fl\<rparr>) = node_ok d" "node_ok (d\<lparr>work_param := wp\<rparr>) = node_ok d"
    "node_ok (d\<lparr>app_fifo := ff\<rparr>) = node_ok d"
  by (simp_all add: ele_ok_def raw_ok_def node_ok_def)

lemma frame4 [simp]: "subs_ok (d\<lparr>resource := rs\<rparr>) = subs_ok d" "subs_ok (d\<lparr>flag := fl\<rparr>) = subs_ok d" "subs_ok (d\<lparr>work_param := wp\<rparr>) = subs_ok d"
    "subs_ok (d\<lparr>app_fifo := ff\<rparr>) = subs_ok d"
    "in_order (d\<lparr>resource := rs\<rparr>) = in_order d" "in_order (d\<lparr>work_param := wp\<rparr>) = in_order d"
    "is_start fl = is_start (flag d) \<Longrightarrow> in_order (d\<lparr>flag := fl\<rparr>) = in_order d"
  by (simp_all add: subs_ok_def in_order_def)

text \<open>
  A subscription is what the acquisition counts on: on a device of elements that was opened without one, the first acquisition whose reading
  succeeds goes through a null pointer.
\<close>

lemma acquire_null_subscription:
  assumes d: "is_start (flag d)" "is_need_acquire (flag d)" "is_ele d" "ele_sub d = None"
    and fifo: "fifo_ele (app_fifo d) = Some (ele, vals)" "length ele = unat (ele_num d)" and env: "data_malloc env"
    and read: "in_read_ele (intfs d) = Some read"
      "read (resource d) (map (\<lambda>i. \<lparr>ed_id = eb_id (ele ! i), ed_val = 0\<rparr>) [0..<unat (ele_num d)]) (ele_num d) w = Some (OPRT_OK, b, rs, w')"
  shows "acquire_dev env d w = None"
proof -
  have "foldM (\<lambda>i d. do { b \<leftarrow> do { b \<leftarrow> rd ele i; Some \<lparr>ed_id = eb_id b, ed_val = 0\<rparr> }; Some (d @ [b]) }) [0..<unat (ele_num d)] [] =
    Some ([] @ map (\<lambda>i. \<lparr>ed_id = eb_id (ele ! i), ed_val = 0\<rparr>) [0..<unat (ele_num d)])"
    by (rule foldM_collect) (use fifo(2) in \<open>simp add: rd_Some\<close>)
  then show ?thesis using d fifo env read by (simp add: acquire_dev_def tdl_sensor_load_ele_value_def sub_count_def Let_def)
qed

text \<open>Whatever an acquisition does, it changes the driver's data, the flags and the buffers only.\<close>

lemma request_length:
  "foldM (\<lambda>i d. do { b \<leftarrow> rd ele i; Some (d @ [f b]) }) is d = Some x \<Longrightarrow> length x = length d + length is"
  by (induction "is" arbitrary: d) (auto split: bind_splits)

definition acquires :: "('p, 'w) SR_DEV_NODE_T \<Rightarrow> SR_RSRC_T \<Rightarrow> ('p, 'w) SR_DEV_NODE_T \<Rightarrow> bool" where
  "acquires d rs e \<longleftrightarrow> same_node d e \<and> ele_sub e = ele_sub d \<and> is_start (flag e) = is_start (flag d) \<and> resource e = rs"

lemma acquires_refl: "acquires d (resource d) d"
  by (simp add: acquires_def same_node_def)

lemma acquires_trans: "acquires d rs e \<Longrightarrow> acquires e (resource e) e' \<Longrightarrow> acquires d rs e'"
  by (auto simp: acquires_def same_node_def)

lemma load_ele_shape:
  assumes "tdl_sensor_load_ele_value env d w = Some (r, e, w')"
  shows "e = d \<and> w' = w \<or> (\<exists>read b k c rs. in_read_ele (intfs d) = Some read \<and> length b = sub_count d \<and>
    read (resource d) b (of_nat (sub_count d)) w = Some (k, c, rs, w') \<and> acquires d rs e)"
proof (cases "data_malloc env")
  case True
  obtain ele vals where fe: "fifo_ele (app_fifo d) = Some (ele, vals)"
    using assms True by (auto simp: tdl_sensor_load_ele_value_def Let_def split: bind_splits)
  obtain b where b: "foldM (\<lambda>i d. do { b \<leftarrow> rd ele i; Some (d @ [\<lparr>ed_id = eb_id b, ed_val = 0\<rparr>]) }) [0..<sub_count d] [] = Some b"
    using assms True fe by (auto simp: tdl_sensor_load_ele_value_def Let_def split: bind_splits)
  obtain read k c rs w1 where rd: "in_read_ele (intfs d) = Some read" "read (resource d) b (of_nat (sub_count d)) w = Some (k, c, rs, w1)"
    using assms True fe b by (auto simp: tdl_sensor_load_ele_value_def Let_def split: bind_splits)
  have "w1 = w' \<and> acquires d rs e"
    using assms True fe b rd
    by (auto simp: tdl_sensor_load_ele_value_def Let_def acquires_def same_node_def split: bind_splits if_splits option.splits)
  then show ?thesis using rd request_length [OF b] by auto
qed (use assms in \<open>simp add: tdl_sensor_load_ele_value_def\<close>)

lemma inform_shape: "tdl_sensor_inform_ele_value d = Some (out, e) \<Longrightarrow> acquires d (resource d) e"
  by (auto simp: tdl_sensor_inform_ele_value_def Let_def acquires_def same_node_def split: bind_splits if_splits)

lemma acquire_shape:
  assumes "acquire_dev env d w = Some (out, e, w')"
  shows "e = d \<and> w' = w \<or> is_start (flag d) \<and> (\<exists>rs. acquires d rs e \<and> (rs = resource d \<and> w' = w \<or>
    (\<exists>read b k c. in_read_ele (intfs d) = Some read \<and> length b = sub_count d \<and> read (resource d) b (of_nat (sub_count d)) w = Some (k, c, rs, w')) \<or>
    (\<exists>read b k c. in_read_raw (intfs d) = Some read \<and> read (resource d) b w = Some (k, c, rs, w'))))"
proof (cases "is_start (flag d) \<and> is_need_acquire (flag d)")
  case st: True
  show ?thesis
  proof (cases "is_ele d")
    case True
    obtain r d1 where l: "tdl_sensor_load_ele_value env d w = Some (r, d1, w')"
      using assms st True by (auto simp: acquire_dev_def split: bind_splits if_splits)
    have "acquires d1 (resource d1) e"
      using assms st True l by (auto simp: acquire_dev_def acquires_refl split: bind_splits if_splits dest: inform_shape)
    then have "acquires d rs e" if "acquires d rs d1" for rs using that acquires_trans by blast
    moreover note acquires_refl [of d]
    ultimately show ?thesis using load_ele_shape [OF l] st by blast
  next
    case False
    then show ?thesis using assms st
      by (auto simp: acquire_dev_def tdl_sensor_load_and_inform_raw_value_def Let_def acquires_def same_node_def split: bind_splits if_splits)
  qed
qed (use assms in \<open>auto simp: acquire_dev_def\<close>)

lemma trig_frame:
  "sr_devs (snd (tdl_sensor_daq_trig_init env d h)) = sr_devs h \<and> sr_world (snd (tdl_sensor_daq_trig_init env d h)) = sr_world h"
proof -
  have calls: "sr_devs (hub_call c h) = sr_devs h" "sr_world (hub_call c h) = sr_world h" for c and h :: "('p, 'w) sr_hub" by (simp_all add: hub_call_def)
  have folds: "sr_devs (fold (\<lambda>i. hub_call (f i)) xs h) = sr_devs h \<and> sr_world (fold (\<lambda>i. hub_call (f i)) xs h) = sr_world h" for f xs and h :: "('p, 'w) sr_hub"
    by (induction xs arbitrary: h) (simp_all add: calls)
  show ?thesis
    by (simp add: tdl_sensor_daq_trig_init_def tdl_sensor_hard_timer_init_def tdl_sensor_exti_init_def tdl_sensor_soft_timer_init_def
      Let_def calls folds split: option.split)
qed

locale sensor_drivers =
  fixes drv :: "('p, 'w) SR_INTFS_T \<Rightarrow> SR_RSRC_T \<Rightarrow> bool" and wok :: "'w \<Rightarrow> bool" and arg :: "('p, 'w) SR_INTFS_T \<Rightarrow> u8 \<Rightarrow> 'p \<Rightarrow> bool"
  assumes open_law: "drv i rs \<Longrightarrow> wok w \<Longrightarrow> in_open i = Some f \<Longrightarrow> \<exists>r rs' w'. f rs w = Some (r, rs', w') \<and> drv i rs' \<and> wok w'"
    and close_law: "drv i rs \<Longrightarrow> wok w \<Longrightarrow> in_close i = Some f \<Longrightarrow> \<exists>r rs' w'. f rs w = Some (r, rs', w') \<and> drv i rs' \<and> wok w'"
    and control_law: "drv i rs \<Longrightarrow> wok w \<Longrightarrow> arg i c p \<Longrightarrow> in_control i = Some f2 \<Longrightarrow>
      \<exists>r p' rs' w'. f2 rs c p w = Some (r, p', rs', w') \<and> drv i rs' \<and> wok w'"
    and read_ele_law: "drv i rs \<Longrightarrow> wok w \<Longrightarrow> unat n \<le> length d \<Longrightarrow> in_read_ele i = Some f3 \<Longrightarrow>
      \<exists>r d' rs' w'. f3 rs d n w = Some (r, d', rs', w') \<and> length d' = length d \<and> drv i rs' \<and> wok w'"
    and read_raw_law: "drv i rs \<Longrightarrow> wok w \<Longrightarrow> in_read_raw i = Some f4 \<Longrightarrow>
      \<exists>r b' rs' w'. f4 rs b w = Some (r, b', rs', w') \<and> drv i rs' \<and> wok w'"
begin

text \<open>
  A device whose driver has its data in order, and the whole manager; all devices but those in \<open>B\<close> are ready for the task.
\<close>

definition dev_inv :: "('p, 'w) SR_DEV_NODE_T \<Rightarrow> bool" where
  "dev_inv d \<longleftrightarrow> dev_ok d \<and> drv (intfs d) (resource d)"

definition hub_inv :: "nat set \<Rightarrow> ('p, 'w) sr_hub \<Rightarrow> bool" where
  "hub_inv B h \<longleftrightarrow> wok (sr_world h) \<and> (\<forall>i < length (sr_devs h). dev_inv (sr_devs h ! i) \<and> (i \<in> B \<or> in_order (sr_devs h ! i)))"

lemma nth_update: "j < length xs \<Longrightarrow> xs[i := x] ! j = (if i = j then x else xs ! j)"
  by (cases "i = j") simp_all

lemma hub_inv_mono: "hub_inv B h \<Longrightarrow> B \<subseteq> B' \<Longrightarrow> hub_inv B' h"
  by (auto simp: hub_inv_def)

lemma hub_inv_running: "hub_inv B h \<Longrightarrow> hub_inv (running B h) h"
  by (auto simp: hub_inv_def running_def in_order_def)

lemma static_open_ok:
  assumes d: "dev_inv d" and c: "checked d c" and w: "wok (sr_world h)"
  shows "\<exists>r e h'. static_tdl_sensor_dev_open env d c h = Some (r, e, h') \<and> dev_inv e \<and> wok (sr_world h') \<and> sr_devs h' = sr_devs h \<and>
    (\<not> is_start (flag d) \<and> (is_ele d \<longrightarrow> cfg_ele_sub c \<noteq> None) \<longrightarrow> in_order e)"
proof -
  have n: "node_ok d" "subs_ok d" "drv (intfs d) (resource d)" "is_start (flag d) \<or> is_ele d \<or> fifo_raw_len (app_fifo d) = 0"
    using d by (auto simp: dev_inv_def dev_ok_def)
  obtain r1 e1 where e1: "tdl_sensor_load_config env d c = Some (r1, e1)" "same_node d e1" "resource e1 = resource d" "flag e1 = flag d"
    "app_fifo e1 = app_fifo d" "subs_ok e1" "r1 = OPRT_OK \<longrightarrow> inform_cb e1 = cfg_inform_cb c \<and> fifo_size e1 = cfg_fifo_size c \<and>
       (cfg_ele_sub c \<noteq> None \<longrightarrow> (\<exists>sub. ele_sub e1 = Some sub \<and> sub_ok e1 sub))"
    using load_config_ok [OF c n(2), of env] by blast
  have i1: "node_ok e1" "intfs e1 = intfs d" "ele_num e1 = ele_num d" using same_node_ok [OF e1(2) n(1)] e1(2) by (simp_all add: same_node_def)
  show ?thesis
  proof (cases "r1 = OPRT_OK")
    case False
    then show ?thesis using e1 i1 n by (auto simp: static_tdl_sensor_dev_open_def dev_inv_def dev_ok_def in_order_def w)
  next
    case r1: True
    have "inform_cb e1 \<noteq> None" "0 < fifo_size e1" using r1 e1(7) c by (auto simp: checked_def)
    from prepare_ok [OF i1(1) this e1(6), of env, unfolded e1(5) i1(3)] obtain r2 f where
      p: "tdl_sensor_prepare_app_fifo env e1 = Some (r2, e1\<lparr>app_fifo := f\<rparr>)" "fifo_raw_len f = fifo_raw_len (app_fifo d)"
        "r2 = OPRT_OK \<Longrightarrow> if is_ele d then \<exists>sub. ele_sub e1 = Some sub \<and> sub_ok e1 sub else fifo_raw_len (app_fifo d) = 0 \<Longrightarrow>
           ele_ok (e1\<lparr>app_fifo := f\<rparr>) \<or> raw_ok (e1\<lparr>app_fifo := f\<rparr>)" by blast
    let ?e = "e1\<lparr>app_fifo := f\<rparr>"
    have e: "node_ok ?e" "intfs ?e = intfs d" "drv (intfs d) (resource ?e)" "flag ?e = flag d" "subs_ok ?e" "ele_num ?e = ele_num d"
      using i1 e1(3,4,6) n(3) by simp_all
    obtain r3 h3 where t: "tdl_sensor_daq_trig_init env ?e h = (r3, h3)" by force
    then have h3: "sr_devs h3 = sr_devs h" "sr_world h3 = sr_world h"
      using trig_frame [of env ?e h] by simp_all
    obtain drv_open where op: "in_open (intfs d) = Some drv_open" using n(1) by (auto simp: node_ok_def)
    obtain r4 rs4 w4 where o: "drv_open (resource ?e) (sr_world h3) = Some (r4, rs4, w4)" "drv (intfs d) rs4" "wok w4"
      using open_law [OF e(3) _ op] w h3(2) by metis
    have run: "static_tdl_sensor_dev_open env d c h =
      Some (if r2 \<noteq> OPRT_OK then (r2, ?e, h) else if r3 \<noteq> OPRT_OK then (r3, ?e, h3)
            else if r4 \<noteq> OPRT_OK then (r4, ?e\<lparr>resource := rs4\<rparr>, h3\<lparr>sr_world := w4\<rparr>)
            else (OPRT_OK, ?e\<lparr>resource := rs4, flag := (flag ?e)\<lparr>is_start := True\<rparr>\<rparr>, h3\<lparr>sr_world := w4\<rparr>))"
      using e1(1) r1 p(1) t o(1) op e(2) by (simp add: static_tdl_sensor_dev_open_def Let_def)
    have idle: "dev_inv ?e" "dev_inv (?e\<lparr>resource := rs4\<rparr>)" "dev_inv (?e\<lparr>resource := rs4, flag := (flag ?e)\<lparr>is_start := True\<rparr>\<rparr>)"
      using e p(2) o(2) n(4) by (auto simp: dev_inv_def dev_ok_def)
    have stopped: "in_order ?e" "in_order (?e\<lparr>resource := rs4\<rparr>)" if "\<not> is_start (flag d)" using that e(4) by (simp_all add: in_order_def)
    have started: "in_order (?e\<lparr>resource := rs4, flag := (flag ?e)\<lparr>is_start := True\<rparr>\<rparr>)"
      if "r2 = OPRT_OK" "\<not> is_start (flag d)" "is_ele d \<longrightarrow> cfg_ele_sub c \<noteq> None"
      using p(3) e1(7) r1 n(4) that by (auto simp: in_order_def split: if_splits)
    show ?thesis unfolding run using idle stopped started h3 w o(3) by simp
  qed
qed

lemma static_close_ok:
  assumes d: "dev_inv d" and w: "wok (sr_world h)"
  shows "\<exists>r e h'. static_tdl_sensor_dev_close d h = Some (r, e, h') \<and> dev_inv e \<and> wok (sr_world h') \<and> sr_devs h' = sr_devs h \<and>
    (in_order d \<longrightarrow> in_order e)"
proof -
  have n: "node_ok d" "drv (intfs d) (resource d)" using d by (auto simp: dev_inv_def dev_ok_def)
  then obtain f where f: "in_close (intfs d) = Some f" by (auto simp: node_ok_def)
  obtain r rs w' where o: "f (resource d) (sr_world h) = Some (r, rs, w')" "drv (intfs d) rs" "wok w'"
    using close_law [OF n(2) w f] by blast
  show ?thesis using d n f o
    by (cases "r = OPRT_OK"; cases "is_ele d")
      (auto simp: static_tdl_sensor_dev_close_def Let_def dev_inv_def dev_ok_def node_ok_def subs_ok_def in_order_def)
qed

text \<open>An acquisition returns whatever the driver and the allocator answer, and leaves the device in order.\<close>

lemma acquire_ele_ok:
  assumes d: "dev_inv d" "ele_ok d" and st: "is_start (flag d)" "is_need_acquire (flag d)" and w: "wok w"
  shows "\<exists>out e w'. acquire_dev env d w = Some (out, e, w') \<and> in_order e"
proof -
  obtain cb sub where o: "inform_cb d = Some cb" "ele_sub d = Some sub" "sub_count d = unat (sub_num sub)"
    "fifo_ele (app_fifo d) = Some (fifo_of d)" by (rule ele_okD [OF d(2)]) auto
  have i: "drv (intfs d) (resource d)" "node_ok d" "is_ele d" using d by (auto simp: dev_inv_def dev_ok_def ele_ok_def)
  then obtain read where read: "in_read_ele (intfs d) = Some read" by (auto simp: node_ok_def)
  have "unat (of_nat (sub_count d) :: u8) \<le> length (request d)" using o(3) by (simp add: request_def)
  from read_ele_law [OF i(1) w this read] obtain r b rs' w' where
    r: "read (resource d) (request d) (of_nat (sub_count d)) w = Some (r, b, rs', w')" "length b = sub_count d" "drv (intfs d) rs'" "wok w'"
    by (auto simp: request_def)
  let ?d = "d\<lparr>resource := rs', flag := (flag d)\<lparr>is_need_acquire := False\<rparr>\<rparr>"
  have dd: "in_order ?d" "in_order d" using d(2) by (simp_all add: in_order_def)
  consider (nodata) "\<not> data_malloc env" | (rfail) "data_malloc env" "r \<noteq> OPRT_OK"
    | (ffail) "data_malloc env" "r = OPRT_OK" "sub_tp sub = SR_ELE_SUB_TP_SINGLE \<and> \<not> filter_malloc env"
    | (ok) "data_malloc env" "r = OPRT_OK" "sub_tp sub = SR_ELE_SUB_TP_SINGLE \<Longrightarrow> filter_malloc env" by blast
  then show ?thesis
  proof cases
    case nodata
    then show ?thesis using st i dd(2)
      by (simp add: acquire_dev_def tdl_sensor_load_ele_value_def Let_def)
  next
    case rfail
    then have "acquire_dev env d w = Some ([], ?d, w')" using st i(3) o(4) read r(1) ele_setup [OF order_refl d(2)]
      by (simp add: acquire_dev_def tdl_sensor_load_ele_value_def Let_def request_def case_prod_beta')
    then show ?thesis using dd by blast
  next
    case ffail
    then have "acquire_dev env d w = Some ([], ?d, w')" using st i(3) o(2,4) read r(1) ele_setup [OF order_refl d(2)]
      by (simp add: acquire_dev_def tdl_sensor_load_ele_value_def Let_def request_def case_prod_beta')
    then show ?thesis using dd by blast
  next
    case ok
    obtain e where e: "acquire_dev env d w = Some (map (Ele_report cb (sr_name d)) (fst (spec_acquire sub (cap d) (tags (fifo_of d)) (queues d) (map ed_val b))), e, w')"
      "ele_ok e" "acquired d rs' e"
      using acquire_keeps [OF d(2) st ok(1,3) read r(1) [unfolded ok(2)] r(2) o(2,1)] by blast
    then have "in_order e" by (simp add: in_order_def)
    then show ?thesis using e(1) by blast
  qed
qed

lemma acquire_raw_ok:
  assumes d: "dev_inv d" "raw_ok d" and st: "is_start (flag d)" "is_need_acquire (flag d)" and w: "wok w"
  shows "\<exists>out e w'. acquire_dev env d w = Some (out, e, w') \<and> in_order e"
proof -
  obtain cb read data where o: "inform_cb d = Some cb" "in_read_raw (intfs d) = Some read" "fifo_raw_data (app_fifo d) = Some data"
    "length data = cap d" "unat (fifo_raw_len (app_fifo d)) < cap d" "\<not> is_ele d"
    using d(2) by (auto simp: raw_ok_def)
  have i: "drv (intfs d) (resource d)" "node_ok d" using d by (auto simp: dev_inv_def dev_ok_def)
  let ?k = "unat (fifo_raw_len (app_fifo d))"
  obtain r b rs' w' where r: "read (resource d) (data ! ?k) w = Some (r, b, rs', w')" "drv (intfs d) rs'" "wok w'"
    using read_raw_law [OF i(1) w o(2)] by blast
  have c: "cap d < 256" by (simp add: cap_def)
  have len: "unat (fifo_raw_len (app_fifo d) + 1) = ?k + 1" using o(5) c by (simp add: unat_word_ariths)
  have full: "ucast (fifo_size d) \<le> fifo_raw_len (app_fifo d) + 1 \<longleftrightarrow> cap d \<le> ?k + 1"
    using len by (simp add: word_le_nat_alt cap_def)
  let ?f = "if r \<noteq> OPRT_OK then (app_fifo d)\<lparr>fifo_raw_data := Some (data[?k := b])\<rparr>
    else if cap d \<le> ?k + 1 then (app_fifo d)\<lparr>fifo_raw_len := 0, fifo_raw_data := Some (blit (data[?k := b]) 0 (replicate (?k + 1) raw_zero))\<rparr>
    else (app_fifo d)\<lparr>fifo_raw_data := Some (data[?k := b]), fifo_raw_len := fifo_raw_len (app_fifo d) + 1\<rparr>"
  let ?e = "d\<lparr>resource := rs', app_fifo := ?f\<rparr>"
  have "\<exists>out. acquire_dev env d w = Some (out, ?e, w')"
    using st o r(1) len full
    by (auto simp: acquire_dev_def tdl_sensor_load_and_inform_raw_value_def Let_def rd_Some memcpy_in_Some)
  moreover have "raw_ok ?e" using o len by (simp add: raw_ok_def cap_def)
  then have "in_order ?e" by (simp add: in_order_def)
  ultimately show ?thesis by blast
qed

text \<open>From a device in order an acquisition returns; from any device it keeps what it leaves.\<close>

lemma acquire_ok:
  assumes d: "dev_inv d" "in_order d" and w: "wok w"
  shows "\<exists>out e w'. acquire_dev env d w = Some (out, e, w') \<and> in_order e"
proof (cases "is_start (flag d) \<and> is_need_acquire (flag d)")
  case False
  then show ?thesis using d by (auto simp: acquire_dev_def)
next
  case True
  then have "ele_ok d \<or> raw_ok d" using d(2) by (auto simp: in_order_def)
  then show ?thesis using acquire_ele_ok [OF d(1) _ _ _ w] acquire_raw_ok [OF d(1) _ _ _ w] True by blast
qed

lemma acquire_inv:
  assumes a: "acquire_dev env d w = Some (out, e, w')" and d: "dev_inv d" and w: "wok w"
  shows "dev_inv e \<and> wok w' \<and> (in_order d \<longrightarrow> in_order e)"
proof -
  have i: "drv (intfs d) (resource d)" "node_ok d" "subs_ok d" using d by (auto simp: dev_inv_def dev_ok_def)
  have small: "unat (of_nat (sub_count d) :: u8) \<le> sub_count d" by (simp add: sub_count_def split: option.split)
  have "drv (intfs d) rs \<and> wok w'" if "in_read_ele (intfs d) = Some read" "length b = sub_count d"
    "read (resource d) b (of_nat (sub_count d)) w = Some (k, c, rs, w')" for read b k c rs
    using read_ele_law [OF i(1) w _ that(1), of "of_nat (sub_count d)" b] that small by auto
  moreover have "drv (intfs d) rs \<and> wok w'" if "in_read_raw (intfs d) = Some read" "read (resource d) b w = Some (k, c, rs, w')" for read b k c rs
    using read_raw_law [OF i(1) w that(1), of b] that(2) by auto
  ultimately have "e = d \<and> w' = w \<or> is_start (flag d) \<and> (\<exists>rs. acquires d rs e \<and> drv (intfs d) rs \<and> wok w')"
    using acquire_shape [OF a] i(1) w by blast
  then have "dev_inv e \<and> wok w'" using d w i same_node_ok [of d e]
    by (auto simp: acquires_def dev_inv_def dev_ok_def subs_ok_def same_node_def)
  then show ?thesis using acquire_ok [OF d _ w, of env] a by auto
qed

lemma hub_inv_update:
  "hub_inv B h \<Longrightarrow> dev_inv d \<Longrightarrow> i \<in> B \<or> in_order d \<Longrightarrow> wok w \<Longrightarrow> hub_inv B (h\<lparr>sr_devs := (sr_devs h)[i := d], sr_world := w, sr_reports := x\<rparr>)"
  by (simp add: hub_inv_def nth_update)

lemma acquire_handle_inv:
  assumes a: "tdl_sensor_acquire_handle env h = Some h'" and h: "hub_inv B h"
  shows "hub_inv B h'"
  using a [unfolded tdl_sensor_acquire_handle_def] h
proof (rule foldM_invariant [where P = "hub_inv B"])
  fix i g t
  assume g: "hub_inv B g" and "do { device \<leftarrow> rd (sr_devs g) i; (out, device, w) \<leftarrow> acquire_dev env device (sr_world g);
      Some (g\<lparr>sr_devs := (sr_devs g)[i := device], sr_world := w, sr_reports := sr_reports g @ out\<rparr>) } = Some t"
  then obtain out e w where e: "i < length (sr_devs g)" "acquire_dev env (sr_devs g ! i) (sr_world g) = Some (out, e, w)"
    "t = g\<lparr>sr_devs := (sr_devs g)[i := e], sr_world := w, sr_reports := sr_reports g @ out\<rparr>"
    by (auto simp: rd_def split: bind_splits if_splits)
  then have "dev_inv (sr_devs g ! i)" "i \<in> B \<or> in_order (sr_devs g ! i)" "wok (sr_world g)" using g by (auto simp: hub_inv_def)
  then show "hub_inv B t" using acquire_inv [OF e(2)] hub_inv_update [OF g] e(3) by blast
qed

lemma acquire_handle_ok:
  assumes "hub_inv {} h"
  shows "\<exists>h'. tdl_sensor_acquire_handle env h = Some h'"
proof -
  have "\<exists>h'. tdl_sensor_acquire_handle env h = Some h' \<and> hub_inv {} h' \<and> length (sr_devs h') = length (sr_devs h)"
    unfolding tdl_sensor_acquire_handle_def
  proof (rule foldM_total [where P = "\<lambda>h'. hub_inv {} h' \<and> length (sr_devs h') = length (sr_devs h)"])
    fix i g
    assume i: "i \<in> set [0..<length (sr_devs h)]" and g: "hub_inv {} g \<and> length (sr_devs g) = length (sr_devs h)"
    then have d: "dev_inv (sr_devs g ! i)" "in_order (sr_devs g ! i)" "wok (sr_world g)" "rd (sr_devs g) i = Some (sr_devs g ! i)"
      by (auto simp: hub_inv_def rd_Some)
    obtain out e w' where a: "acquire_dev env (sr_devs g ! i) (sr_world g) = Some (out, e, w')" "dev_inv e" "in_order e" "wok w'"
      using acquire_ok [OF d(1-3), of env] acquire_inv [OF _ d(1,3)] by blast
    then show "\<exists>t. do { device \<leftarrow> rd (sr_devs g) i; (out, device, w) \<leftarrow> acquire_dev env device (sr_world g);
        Some (g\<lparr>sr_devs := (sr_devs g)[i := device], sr_world := w, sr_reports := sr_reports g @ out\<rparr>) } = Some t \<and>
        hub_inv {} t \<and> length (sr_devs t) = length (sr_devs h)"
      using d(4) g hub_inv_update [OF conjunct1 [OF g] a(2) _ a(4)] by simp
  qed (use assms in simp)
  then show ?thesis by blast
qed

lemma dev_inv_frame [simp]: "dev_inv (d\<lparr>work_param := wp\<rparr>) = dev_inv d" "is_start fl = is_start (flag d) \<Longrightarrow> dev_inv (d\<lparr>flag := fl\<rparr>) = dev_inv d"
  by (simp_all add: dev_inv_def dev_ok_def)

lemma timer_proc_dev_ok: "dev_inv (timer_proc_dev soft hard d) = dev_inv d" "in_order (timer_proc_dev soft hard d) = in_order d"
    "is_start (flag (timer_proc_dev soft hard d)) = is_start (flag d)"
  by (simp_all add: timer_proc_dev_def Let_def)

lemma exti_proc_dev_ok: "dev_inv (exti_proc_dev d) = dev_inv d" "in_order (exti_proc_dev d) = in_order d"
    "is_start (flag (exti_proc_dev d)) = is_start (flag d)"
  by (simp_all add: exti_proc_dev_def)

lemma triggers_inv: "hub_inv B (tdl_sensor_exti_proc (tdl_sensor_timer_proc soft hard h)) = hub_inv B h"
  by (simp add: hub_inv_def tdl_sensor_exti_proc_def tdl_sensor_timer_proc_def timer_proc_dev_ok exti_proc_dev_ok)

lemma main_task_ok:
  assumes h: "hub_inv B h"
  shows "B = {} \<Longrightarrow> \<exists>h'. tdl_sensor_main_task env h = Some h'" and "tdl_sensor_main_task env h = Some h' \<Longrightarrow> hub_inv B h'"
proof -
  let ?h = "tdl_sensor_exti_proc (tdl_sensor_timer_proc (soft_tm_cnt h) (hard_tm_cnt h) (h\<lparr>task_sem := task_sem h - 1, soft_tm_cnt := 0, hard_tm_cnt := 0\<rparr>))"
  have t: "tdl_sensor_main_task env h = (if task_sem h = 0 then Some h else tdl_sensor_acquire_handle env ?h)"
    by (simp add: tdl_sensor_main_task_def Let_def)
  have i: "hub_inv B ?h" using h by (simp add: triggers_inv) (simp add: hub_inv_def)
  show "\<exists>h'. tdl_sensor_main_task env h = Some h'" if "B = {}" using t acquire_handle_ok i that by simp
  show "hub_inv B h'" if "tdl_sensor_main_task env h = Some h'" using t acquire_handle_inv [OF _ i] h that by (auto split: if_splits)
qed

lemma on_dev_ok:
  assumes h: "hub_inv B h" and i: "\<And>i. handle = Some i \<Longrightarrow> i < length (sr_devs h)"
    and f: "\<And>i d. handle = Some i \<Longrightarrow> d = sr_devs h ! i \<Longrightarrow> dev_inv d \<Longrightarrow> wok (sr_world h) \<Longrightarrow>
      \<exists>r e h'. f d h = Some (r, e, h') \<and> dev_inv e \<and> wok (sr_world h') \<and> sr_devs h' = sr_devs h \<and> (i \<in> B \<or> in_order d \<longrightarrow> i \<in> B \<or> in_order e)"
  shows "\<exists>r h'. on_dev handle h f err = Some (r, h') \<and> hub_inv B h'"
proof (cases handle)
  case (Some j)
  then have j: "j < length (sr_devs h)" using i by simp
  then have "dev_inv (sr_devs h ! j)" "wok (sr_world h)" "j \<in> B \<or> in_order (sr_devs h ! j)" using h by (auto simp: hub_inv_def)
  with f [OF Some refl this(1,2)] obtain r e h' where e: "f (sr_devs h ! j) h = Some (r, e, h')" "dev_inv e" "wok (sr_world h')" "sr_devs h' = sr_devs h"
    "j \<in> B \<or> in_order e" by blast
  then have "hub_inv B (h'\<lparr>sr_devs := (sr_devs h)[j := e]\<rparr>)" using h
    by (simp add: hub_inv_def nth_update)
  then show ?thesis using Some j e by (simp add: on_dev_def rd_Some)
qed (use h in \<open>simp add: on_dev_def\<close>)

lemma open_ok:
  assumes h: "hub_inv B h" and ok: "allowed drv arg h (Ev_open env handle c)"
  shows "\<exists>r h'. tdl_sensor_dev_open env handle c h = Some (r, h') \<and> hub_inv (B \<union> misopened (Ev_open env handle c) h) h'"
proof (cases c)
  case (Some cfg)
  have h': "hub_inv (B \<union> misopened (Ev_open env handle c) h) h" using hub_inv_mono [OF h] by blast
  show ?thesis unfolding Some tdl_sensor_dev_open_def option.case
  proof (rule on_dev_ok [OF h' [unfolded Some]])
    fix i d
    assume d: "handle = Some i" "d = sr_devs h ! i" "dev_inv d" "wok (sr_world h)"
    then have c: "cfg_ok d cfg" using ok Some by auto
    obtain r c' where k: "tdl_sensor_check_config d cfg = Some (r, c')"
      "r = OPRT_OK \<longrightarrow> checked d c' \<and> (cfg_ele_sub c' = None \<longleftrightarrow> cfg_ele_sub cfg = None \<or> \<not> is_ele d)"
      using check_config_total [OF _ c] d(3) by (auto simp: dev_inv_def dev_ok_def)
    have "i \<in> misopened (Ev_open env handle (Some cfg)) h \<or> \<not> is_start (flag d) \<and> (is_ele d \<longrightarrow> cfg_ele_sub cfg \<noteq> None)"
      using d(1,2) by auto
    then show "\<exists>r e h'. (do { (r, c) \<leftarrow> tdl_sensor_check_config d cfg;
        if r \<noteq> OPRT_OK then Some (r, d, h) else static_tdl_sensor_dev_open env d c h }) = Some (r, e, h') \<and> dev_inv e \<and> wok (sr_world h') \<and> sr_devs h' = sr_devs h \<and>
        (i \<in> B \<union> misopened (Ev_open env handle (Some cfg)) h \<or> in_order d \<longrightarrow> i \<in> B \<union> misopened (Ev_open env handle (Some cfg)) h \<or> in_order e)"
      using k d(3,4) static_open_ok [OF d(3) _ d(4), of c' env] by (cases "r = OPRT_OK") auto
  qed (use ok Some in auto)
qed (use h in \<open>simp add: tdl_sensor_dev_open_def\<close>)

lemma close_ok: "hub_inv B h \<Longrightarrow> allowed drv arg h (Ev_close handle) \<Longrightarrow> \<exists>r h'. tdl_sensor_dev_close handle h = Some (r, h') \<and> hub_inv B h'"
  unfolding tdl_sensor_dev_close_def by (rule on_dev_ok) (auto dest: static_close_ok)

lemma config_ok:
  assumes h: "hub_inv B h" and ok: "allowed drv arg h (Ev_config handle cmd p)"
  shows "\<exists>r h'. tdl_sensor_dev_config handle cmd p h = Some (r, h') \<and> hub_inv B h'"
  unfolding tdl_sensor_dev_config_def
proof (rule on_dev_ok [OF h])
  fix i d
  assume d: "handle = Some i" "d = sr_devs h ! i" "dev_inv d" "wok (sr_world h)"
  then obtain f where f: "in_control (intfs d) = Some f" by (auto simp: dev_inv_def dev_ok_def node_ok_def)
  have a: "drv (intfs d) (resource d)" "arg (intfs d) cmd p" using d ok by (auto simp: dev_inv_def)
  obtain r p' rs' w' where "f (resource d) cmd p (sr_world h) = Some (r, p', rs', w')" "drv (intfs d) rs'" "wok w'"
    using control_law [OF a(1) d(4) a(2) f] by blast
  then show "\<exists>r e h'. (do { control \<leftarrow> in_control (intfs d);
     (r, p, rs, w) \<leftarrow> control (resource d) cmd p (sr_world h);
     Some ((r, p), d\<lparr>resource := rs\<rparr>, h\<lparr>sr_world := w\<rparr>) }) = Some (r, e, h') \<and> dev_inv e \<and> wok (sr_world h') \<and> sr_devs h' = sr_devs h \<and>
     (i \<in> B \<or> in_order d \<longrightarrow> i \<in> B \<or> in_order e)"
    using f d(3) by (auto simp: dev_inv_def dev_ok_def)
qed (use ok in auto)

lemma check_ids_total:
  "\<forall>i \<in> set is. i < length d \<Longrightarrow> n \<le> length info \<Longrightarrow> \<exists>ok. check_ids info n d is = Some ok"
proof (induction "is")
  case (Cons i "is")
  obtain f where "ele_search info (ed_id (d ! i)) [0..<n] = Some f" using ele_search_total [of "[0..<n]" info] Cons.prems(2) by auto
  then show ?case using Cons by (auto simp: rd_Some)
qed auto

lemma static_read_ok:
  assumes d: "dev_inv d" and w: "wok (sr_world h)" and p: "num \<noteq> 0 \<longrightarrow> ele \<noteq> None" "num = 0 \<longrightarrow> raw \<noteq> None" "num \<le> ele_num d"
    and len: "\<forall>x. ele = Some x \<longrightarrow> unat num \<le> length x"
  shows "\<exists>r e h'. static_tdl_sensor_dev_read d num ele raw h = Some (r, e, h') \<and> dev_inv e \<and> wok (sr_world h') \<and> sr_devs h' = sr_devs h \<and> in_order e = in_order d"
proof (cases "is_start (flag d)")
  case True
  have n: "node_ok d" "drv (intfs d) (resource d)" using d by (auto simp: dev_inv_def dev_ok_def)
  show ?thesis
  proof (cases "is_ele d")
    case ele: True
    let ?x = "case ele of None \<Rightarrow> [] | Some d \<Rightarrow> d"
    let ?set = "foldM (\<lambda>i d'. do { e \<leftarrow> rd d' i; c \<leftarrow> rd (ele_info d) i; wr d' i (e\<lparr>ed_id := ec_id c\<rparr>) }) [0..<unat num] ?x"
    have x: "unat num \<le> length ?x" using p(1) len by (cases ele) auto
    have info: "unat (ele_num d) \<le> length (ele_info d)" using n ele by (simp add: node_ok_def)
    have "\<exists>y. ?set = Some y \<and> length y = length ?x" if "num = ele_num d"
      by (rule foldM_total) (use that x info in \<open>auto simp: rd_Some wr_Some\<close>)
    moreover have "\<exists>ok. check_ids (ele_info d) (unat (ele_num d)) ?x [0..<unat num] = Some ok"
      by (rule check_ids_total) (use x info in auto)
    ultimately obtain ok y where y: "(if num = ele_num d then do { d' \<leftarrow> ?set; Some (True, d') }
        else do { ok \<leftarrow> check_ids (ele_info d) (unat (ele_num d)) ?x [0..<unat num]; Some (ok, ?x) }) = Some (ok, y)" "length y = length ?x"
      by (cases "num = ele_num d") auto
    obtain f where f: "in_read_ele (intfs d) = Some f" using n ele by (auto simp: node_ok_def)
    obtain r y' rs' w' where r: "f (resource d) y num (sr_world h) = Some (r, y', rs', w')" "drv (intfs d) rs'" "wok w'"
      using read_ele_law [OF n(2) w _ f, of num y] x y(2) by auto
    have "\<exists>res. static_tdl_sensor_dev_read d num ele raw h =
      Some (if ok then (res, d\<lparr>resource := rs'\<rparr>, h\<lparr>sr_world := w'\<rparr>) else (res, d, h))"
      using True ele y(1) f r(1) by (simp add: static_tdl_sensor_dev_read_def Let_def)
    moreover have "dev_inv (d\<lparr>resource := rs'\<rparr>)" using d r(2) by (simp add: dev_inv_def dev_ok_def)
    ultimately show ?thesis using d w r(3) by (cases ok) auto
  next
    case False
    then have "ele_num d = 0" by (auto simp: tdl_sensor_get_data_tp_def split: if_splits)
    then obtain b where b: "raw = Some b" using p by auto
    obtain f where f: "in_read_raw (intfs d) = Some f" using n False by (auto simp: node_ok_def)
    obtain r b' rs' w' where r: "f (resource d) b (sr_world h) = Some (r, b', rs', w')" "drv (intfs d) rs'" "wok w'"
      using read_raw_law [OF n(2) w f] by blast
    moreover have "dev_inv (d\<lparr>resource := rs'\<rparr>)" using d r(2) by (simp add: dev_inv_def dev_ok_def)
    ultimately show ?thesis using True False f b by (simp add: static_tdl_sensor_dev_read_def)
  qed
qed (use d w in \<open>simp add: static_tdl_sensor_dev_read_def\<close>)

lemma read_ok:
  assumes h: "hub_inv B h" and ok: "allowed drv arg h (Ev_read handle num ele raw)"
  shows "\<exists>r h'. tdl_sensor_dev_read handle num ele raw h = Some (r, h') \<and> hub_inv B h'"
  unfolding tdl_sensor_dev_read_def
proof (rule on_dev_ok [OF h])
  fix i d
  assume d: "handle = Some i" "d = sr_devs h ! i" "dev_inv d" "wok (sr_world h)"
  let ?bad = "num \<noteq> 0 \<and> ele = None \<or> num = 0 \<and> raw = None \<or> num > ele_num d"
  have "\<exists>r e h'. static_tdl_sensor_dev_read d num ele raw h = Some (r, e, h') \<and> dev_inv e \<and> wok (sr_world h') \<and> sr_devs h' = sr_devs h \<and> in_order e = in_order d"
    if "\<not> ?bad" using that ok by (intro static_read_ok [OF d(3,4)]) auto
  then show "\<exists>r e h'. (if ?bad then Some ((OPRT_INVALID_PARM, ele, raw), d, h) else static_tdl_sensor_dev_read d num ele raw h) = Some (r, e, h') \<and>
      dev_inv e \<and> wok (sr_world h') \<and> sr_devs h' = sr_devs h \<and> (i \<in> B \<or> in_order d \<longrightarrow> i \<in> B \<or> in_order e)"
    using d(3,4) by (cases ?bad) (simp, metis)
qed (use ok in auto)

lemma hub_inv_append: "hub_inv B g \<Longrightarrow> dev_inv d \<Longrightarrow> in_order d \<Longrightarrow> hub_inv B (g\<lparr>sr_devs := sr_devs g @ [d]\<rparr>)"
  by (simp add: hub_inv_def nth_append less_Suc_eq)

lemma register_ok:
  assumes h: "hub_inv B h" and ok: "allowed drv arg h (Ev_register env name ifs num cfg rs)"
  shows "hub_inv B (snd (tdl_sensor_register env name ifs num cfg rs h))"
proof -
  have frame: "sr_devs (snd (tdl_sensor_hub_frame_init env h)) = sr_devs h \<and> sr_world (snd (tdl_sensor_hub_frame_init env h)) = sr_world h"
    by (simp add: tdl_sensor_hub_frame_init_def Let_def hub_call_def)
  have new: "hub_inv B (snd (static_tdl_sensor_register env nm i num c rs g))"
    if "hub_inv B g" "drv i rs" "num \<noteq> 0 \<longrightarrow> unat num \<le> length c" "in_open i \<noteq> None" "in_close i \<noteq> None" "in_control i \<noteq> None"
      "num = 0 \<longrightarrow> in_read_raw i \<noteq> None" "num \<noteq> 0 \<longrightarrow> in_read_ele i \<noteq> None" for nm i c g
  proof -
    let ?d = "\<lparr>sr_name = take SR_DEV_NAME_MAX_LEN nm, flag = flag_zero, work_param = work_zero, app_fifo = fifo_zero, ele_num = num,
      ele_info = (if tdl_sensor_get_data_tp num = SR_DATA_TP_ELE then c else []), resource = rs, intfs = i,
      trig_mode = 0, inform_cb = None, fifo_size = 0, ele_sub = None\<rparr>"
    have "dev_inv ?d" "in_order ?d" using that
      by (auto simp: dev_inv_def dev_ok_def node_ok_def subs_ok_def in_order_def tdl_sensor_get_data_tp_def)
    then show ?thesis using that(1) hub_inv_append [OF that(1), of ?d] by (simp add: static_tdl_sensor_register_def)
  qed
  have fr: "hub_inv B (snd (tdl_sensor_hub_frame_init env h))" "hub_inv B ((snd (tdl_sensor_hub_frame_init env h))\<lparr>is_frame_init := True\<rparr>)"
    using h frame by (simp_all add: hub_inv_def)
  let ?c = "case cfg of None \<Rightarrow> [] | Some c \<Rightarrow> c"
  let ?fi = "tdl_sensor_hub_frame_init env h"
  show ?thesis
  proof (cases "name = None \<or> ifs = None")
    case False
    then obtain nm i where ni: "name = Some nm" "ifs = Some i" by auto
    show ?thesis
    proof (cases "(num \<noteq> 0 \<and> cfg = None) \<or> (in_open i = None \<or> in_close i = None \<or> in_control i = None) \<or> (num = 0 \<and> in_read_raw i = None \<or> num \<noteq> 0 \<and> in_read_ele i = None)")
      case True
      then show ?thesis using ni h by (auto simp: tdl_sensor_register_def)
    next
      case False
      then have f: "\<not> (num \<noteq> 0 \<and> cfg = None)" "\<not> (in_open i = None \<or> in_close i = None \<or> in_control i = None)"
        "\<not> (num = 0 \<and> in_read_raw i = None \<or> num \<noteq> 0 \<and> in_read_ele i = None)" by blast+
      have "num \<noteq> 0 \<longrightarrow> unat num \<le> length ?c" using False ok by auto
      then have n: "hub_inv B (snd (static_tdl_sensor_register env nm i num ?c rs g))" if "hub_inv B g" for g
        using new [OF that] False ok ni(2) by auto
      have "snd (tdl_sensor_register env name ifs num cfg rs h) =
        (if is_frame_init h then snd (static_tdl_sensor_register env nm i num ?c rs h)
         else if fst ?fi \<noteq> OPRT_OK then snd ?fi
         else snd (static_tdl_sensor_register env nm i num ?c rs ((snd ?fi)\<lparr>is_frame_init := True\<rparr>)))"
        unfolding tdl_sensor_register_def ni prod.case option.case if_not_P [OF f(1)] if_not_P [OF f(2)] if_not_P [OF f(3)]
        by (simp add: Let_def case_prod_beta')
      then show ?thesis using n h fr by simp
    qed
  qed (use h in \<open>auto simp: tdl_sensor_register_def split: option.split\<close>)
qed

lemma exti_ok: "hub_inv B h \<Longrightarrow> i < length (sr_devs h) \<Longrightarrow> \<exists>h'. tdl_sensor_exti_cb i h = Some h' \<and> hub_inv B h'"
  by (auto simp: tdl_sensor_exti_cb_def rd_Some Let_def sem_post_def hub_inv_def nth_update find_index_Some split: option.split)

text \<open>Every allowed event but a round of the task returns, and that one too when no device was misopened.\<close>

theorem step_ok:
  assumes h: "hub_inv B h" and ok: "allowed drv arg h ev"
  shows "B = {} \<or> (\<forall>env. ev \<noteq> Ev_task env) \<Longrightarrow> \<exists>h'. hub_step ev h = Some h'"
    and "hub_step ev h = Some h' \<Longrightarrow> hub_inv (running (B \<union> misopened ev h) h') h'"
proof -
  have "((B = {} \<or> (\<forall>env. ev \<noteq> Ev_task env)) \<longrightarrow> (\<exists>h'. hub_step ev h = Some h')) \<and>
    (\<forall>h'. hub_step ev h = Some h' \<longrightarrow> hub_inv (B \<union> misopened ev h) h')"
  proof (cases ev)
    case (Ev_register env name ifs num cfg rs)
    then show ?thesis using register_ok [OF h] ok by simp
  next
    case (Ev_open env handle config)
    then show ?thesis using open_ok [OF h ok [unfolded Ev_open]] by auto
  next
    case (Ev_close handle)
    then show ?thesis using close_ok [OF h ok [unfolded Ev_close]] by auto
  next
    case (Ev_config handle cmd p)
    then show ?thesis using config_ok [OF h ok [unfolded Ev_config]] by auto
  next
    case (Ev_read handle num ele raw)
    then show ?thesis using read_ok [OF h ok [unfolded Ev_read]] by auto
  next
    case (Ev_exti i)
    then show ?thesis using exti_ok [OF h, of i] ok by auto
  next
    case (Ev_task env)
    then show ?thesis using main_task_ok [OF h, of env] by simp
  qed (use h in \<open>auto simp: hub_inv_def tdl_sensor_soft_timer_cb_def tdl_sensor_hard_timer_cb_def sem_post_def\<close>)
  then show "B = {} \<or> (\<forall>env. ev \<noteq> Ev_task env) \<Longrightarrow> \<exists>h'. hub_step ev h = Some h'"
    "hub_step ev h = Some h' \<Longrightarrow> hub_inv (running (B \<union> misopened ev h) h') h'" using hub_inv_running by blast+
qed

end

end
