(* ===== verification/Dimmer_I2C.thy ===== *)
theory Dimmer_I2C
  imports Tuya_Prelude
begin

text \<open>
  The bit-banged I2C bus of the dimmer drivers, \<^verbatim>\<open>tdd_sw_i2c.c\<close>, and the two send functions of
  \<^verbatim>\<open>tdd_dimmer_common.c\<close>. A bus is the sequence of GPIO calls made so far together with the levels
  that the calls of \<^verbatim>\<open>tkl_gpio_read\<close> on the data line will give. Busy-wait delays only fix the speed of the
  bus and are left out. Below the model, an observer of the two lines reads start and stop conditions
  and clocked bits off the GPIO calls, and a receiver puts bytes together from them.
\<close>

section \<open>Pins\<close>

datatype gpio_mode = TUYA_GPIO_PUSH_PULL | TUYA_GPIO_PULLUP
datatype gpio_direct = TUYA_GPIO_INPUT | TUYA_GPIO_OUTPUT

record gpio_cfg =
  g_mode :: gpio_mode
  g_direct :: gpio_direct
  g_level :: bool

datatype gpio_op = Gpio_init nat gpio_cfg | Gpio_write nat bool | Gpio_read nat | Gpio_deinit nat

record TDD_I2C_PIN_T =
  scl :: nat
  sda :: nat

record TDD_I2C_MSG_T =
  msg_flags :: u32
  msg_addr :: u16
  msg_len :: u16
  msg_buff :: "u8 list option"

record sw_bus =
  gpio_ops :: "gpio_op list"
  sda_in :: "nat \<Rightarrow> bool"
  sda_reads :: nat

abbreviation (input) I2C_FLAG_WR :: u32 where "I2C_FLAG_WR \<equiv> 0x01"
abbreviation (input) I2C_FLAG_NO_START :: u32 where "I2C_FLAG_NO_START \<equiv> 0x08"
abbreviation (input) I2C_FLAG_IGNORE_NACK :: u32 where "I2C_FLAG_IGNORE_NACK \<equiv> 0x10"
abbreviation (input) I2C_FLAG_NO_READ_ACK :: u32 where "I2C_FLAG_NO_READ_ACK \<equiv> 0x20"
abbreviation (input) I2C_FLAG_NO_ADDR :: u32 where "I2C_FLAG_NO_ADDR \<equiv> 0x40"
abbreviation (input) DELAY_US :: nat where "DELAY_US \<equiv> 10"

definition gpio_do :: "gpio_op \<Rightarrow> sw_bus \<Rightarrow> sw_bus" where
  "gpio_do op w = w\<lparr>gpio_ops := gpio_ops w @ [op]\<rparr>"

definition sw_i2c_scl_init :: "nat \<Rightarrow> sw_bus \<Rightarrow> sw_bus" where
  "sw_i2c_scl_init pin =
     gpio_do (Gpio_init pin \<lparr>g_mode = TUYA_GPIO_PUSH_PULL, g_direct = TUYA_GPIO_OUTPUT, g_level = False\<rparr>)"

definition sw_i2c_sda_init :: "nat \<Rightarrow> bool \<Rightarrow> sw_bus \<Rightarrow> sw_bus" where
  "sw_i2c_sda_init pin inp =
     gpio_do (Gpio_init pin
       (if inp then \<lparr>g_mode = TUYA_GPIO_PULLUP, g_direct = TUYA_GPIO_INPUT, g_level = True\<rparr>
        else \<lparr>g_mode = TUYA_GPIO_PUSH_PULL, g_direct = TUYA_GPIO_OUTPUT, g_level = False\<rparr>))"

definition sw_i2c_sda_read :: "nat \<Rightarrow> sw_bus \<Rightarrow> bool \<times> sw_bus" where
  "sw_i2c_sda_read pin w =
     (sda_in w (sda_reads w), (gpio_do (Gpio_read pin) w)\<lparr>sda_reads := sda_reads w + 1\<rparr>)"

definition sw_i2c_write :: "nat \<Rightarrow> bool \<Rightarrow> sw_bus \<Rightarrow> sw_bus" where
  "sw_i2c_write pin level = gpio_do (Gpio_write pin level)"

abbreviation (input) SCL_H where "SCL_H p \<equiv> sw_i2c_write (scl p) True"
abbreviation (input) SCL_L where "SCL_L p \<equiv> sw_i2c_write (scl p) False"
abbreviation (input) SDA_H where "SDA_H p \<equiv> sw_i2c_write (sda p) True"
abbreviation (input) SDA_L where "SDA_L p \<equiv> sw_i2c_write (sda p) False"
abbreviation (input) SDA_INIT_OUT where "SDA_INIT_OUT p \<equiv> sw_i2c_sda_init (sda p) False"
abbreviation (input) SDA_INIT_IN where "SDA_INIT_IN p \<equiv> sw_i2c_sda_init (sda p) True"

text \<open>Statements one after the other.\<close>

definition run :: "('s \<Rightarrow> 's) list \<Rightarrow> 's \<Rightarrow> 's" where "run = fold id"

lemma run_simps [simp]: "run [] s = s" "run (f # fs) s = run fs (f s)" by (simp_all add: run_def)

section \<open>Conditions, bits and bytes\<close>

definition sw_i2c_start :: "TDD_I2C_PIN_T \<Rightarrow> sw_bus \<Rightarrow> sw_bus" where
  "sw_i2c_start p = run [SCL_H p, SDA_H p, SDA_L p, SCL_L p]"

definition sw_i2c_stop :: "TDD_I2C_PIN_T \<Rightarrow> sw_bus \<Rightarrow> sw_bus" where
  "sw_i2c_stop p = run [SCL_L p, SDA_INIT_OUT p, SDA_L p, SCL_H p, SDA_H p]"

definition sw_i2c_ack :: "TDD_I2C_PIN_T \<Rightarrow> sw_bus \<Rightarrow> sw_bus" where
  "sw_i2c_ack p = run [SCL_L p, SDA_INIT_OUT p, SDA_L p, SCL_H p, SCL_L p]"

definition sw_i2c_no_ack :: "TDD_I2C_PIN_T \<Rightarrow> sw_bus \<Rightarrow> sw_bus" where
  "sw_i2c_no_ack p = run [SCL_L p, SDA_INIT_OUT p, SDA_H p, SCL_H p, SCL_L p]"

text \<open>The \<^verbatim>\<open>while\<close> loop of \<^verbatim>\<open>__sw_i2c_get_ack\<close>: false when it gives up.\<close>

function sw_i2c_wait_ack :: "TDD_I2C_PIN_T \<Rightarrow> nat \<Rightarrow> sw_bus \<Rightarrow> bool \<times> sw_bus" where
  "sw_i2c_wait_ack p timeout_count w =
     (let (high, w) = sw_i2c_sda_read (sda p) w
      in if high
         then if timeout_count \<ge> DELAY_US then (False, sw_i2c_stop p w)
              else sw_i2c_wait_ack p (timeout_count + 1) w
         else (True, w))"
  by auto
termination by (relation "measure (\<lambda>(p, t, w). 11 - t)") auto

declare sw_i2c_wait_ack.simps [simp del]

definition sw_i2c_get_ack :: "TDD_I2C_PIN_T \<Rightarrow> u32 \<Rightarrow> sw_bus \<Rightarrow> bool \<times> sw_bus" where
  "sw_i2c_get_ack p flags w =
     (let w = run [SCL_L p, SDA_INIT_IN p] w;
          (ok, w) = (if flags AND I2C_FLAG_IGNORE_NACK = 0 then sw_i2c_wait_ack p 0 w else (True, w))
      in if \<not> ok then (False, w) else (True, run [SCL_H p, SCL_L p] w))"

definition sw_i2c_send_bit :: "TDD_I2C_PIN_T \<Rightarrow> u8 \<times> sw_bus \<Rightarrow> u8 \<times> sw_bus" where
  "sw_i2c_send_bit p = (\<lambda>(data, w).
     (push_bit 1 data, run [if data AND 0x80 \<noteq> 0 then SDA_H p else SDA_L p, SCL_H p, SCL_L p] w))"

definition sw_i2c_send_byte :: "TDD_I2C_PIN_T \<Rightarrow> u8 \<Rightarrow> sw_bus \<Rightarrow> sw_bus" where
  "sw_i2c_send_byte p data w =
     snd (fold (\<lambda>i. sw_i2c_send_bit p) [0..<8] (data, run [SCL_L p, SDA_INIT_OUT p] w))"

definition sw_i2c_read_bit :: "TDD_I2C_PIN_T \<Rightarrow> u8 \<times> sw_bus \<Rightarrow> u8 \<times> sw_bus" where
  "sw_i2c_read_bit p = (\<lambda>(read_byte, w).
     let w = run [SCL_L p, SCL_H p] w;
         read_byte = push_bit 1 read_byte;
         (high, w) = sw_i2c_sda_read (sda p) w
     in (if high then read_byte + 1 else read_byte, w))"

definition sw_i2c_read_byte :: "TDD_I2C_PIN_T \<Rightarrow> bool \<Rightarrow> sw_bus \<Rightarrow> u8 \<times> sw_bus" where
  "sw_i2c_read_byte p need_ack w =
     (let (read_byte, w) = fold (\<lambda>i. sw_i2c_read_bit p) [0..<8] (0, run [SCL_L p, SDA_INIT_IN p] w)
      in (read_byte, if need_ack then sw_i2c_ack p w else sw_i2c_no_ack p w))"

section \<open>Transfers\<close>

text \<open>One byte and its acknowledge; false when the slave did not answer.\<close>

definition sw_i2c_put :: "TDD_I2C_PIN_T \<Rightarrow> u32 \<Rightarrow> u8 \<Rightarrow> sw_bus \<Rightarrow> bool \<times> sw_bus" where
  "sw_i2c_put p flags b w =
     (let w = sw_i2c_send_byte p b w
      in if flags AND I2C_FLAG_NO_READ_ACK = 0 then sw_i2c_get_ack p flags w else (True, w))"

fun sw_i2c_put_loop :: "TDD_I2C_PIN_T \<Rightarrow> u32 \<Rightarrow> u8 list \<Rightarrow> nat list \<Rightarrow> sw_bus \<Rightarrow> (int \<times> sw_bus) option" where
  "sw_i2c_put_loop p flags buf [] w = Some (0, sw_i2c_stop p w)"
| "sw_i2c_put_loop p flags buf (i # is) w = do {
     b \<leftarrow> rd buf i;
     let (ok, w) = sw_i2c_put p flags b w;
     if ok then sw_i2c_put_loop p flags buf is w else Some (-1, sw_i2c_stop p w) }"

definition sw_i2c_write_data ::
  "TDD_I2C_PIN_T \<Rightarrow> u8 \<Rightarrow> u8 list \<Rightarrow> u8 \<Rightarrow> u32 \<Rightarrow> sw_bus \<Rightarrow> (int \<times> sw_bus) option" where
  "sw_i2c_write_data p addr buf len flags w =
     (let w = (if flags AND I2C_FLAG_NO_START = 0 then sw_i2c_start p w else w);
          (ok, w) = (if flags AND I2C_FLAG_NO_ADDR = 0 then sw_i2c_put p flags (push_bit 1 addr OR 0) w else (True, w))
      in if \<not> ok then Some (-1, sw_i2c_stop p w)
         else sw_i2c_put_loop p flags buf [0..<unat len] w)"

definition sw_i2c_init :: "TDD_I2C_PIN_T \<Rightarrow> sw_bus \<Rightarrow> sw_bus" where
  "sw_i2c_init p = run [sw_i2c_scl_init (scl p), SDA_INIT_OUT p, SCL_H p, SDA_H p]"

definition tdd_sw_i2c_init :: "TDD_I2C_PIN_T \<Rightarrow> sw_bus \<Rightarrow> OPERATE_RET \<times> sw_bus" where
  "tdd_sw_i2c_init p w = (OPRT_OK, sw_i2c_init p w)"

definition tdd_sw_i2c_deinit :: "TDD_I2C_PIN_T \<Rightarrow> sw_bus \<Rightarrow> OPERATE_RET \<times> sw_bus" where
  "tdd_sw_i2c_deinit p w = (OPRT_OK, run [gpio_do (Gpio_deinit (scl p)), gpio_do (Gpio_deinit (sda p))] w)"

definition tdd_sw_i2c_xfer ::
  "TDD_I2C_PIN_T \<Rightarrow> TDD_I2C_MSG_T option \<Rightarrow> sw_bus \<Rightarrow> (OPERATE_RET \<times> sw_bus) option" where
  "tdd_sw_i2c_xfer p msg w =
     (case msg of
        None \<Rightarrow> Some (OPRT_INVALID_PARM, w)
      | Some m \<Rightarrow>
          (case msg_buff m of
             None \<Rightarrow> Some (OPRT_INVALID_PARM, w)
           | Some buf \<Rightarrow>
               if msg_len m = 0 then Some (OPRT_INVALID_PARM, w)
               else if msg_flags m AND I2C_FLAG_WR \<noteq> 0
               then do {
                 (_, w) \<leftarrow> sw_i2c_write_data p (ucast (msg_addr m)) buf (ucast (msg_len m)) (msg_flags m) w;
                 Some (OPRT_OK, w) }
               else Some (OPRT_OK, w)))"

definition tdd_dimmer_i2c_flag_send_data ::
  "TDD_I2C_PIN_T \<Rightarrow> u32 \<Rightarrow> u8 list \<Rightarrow> u8 \<Rightarrow> sw_bus \<Rightarrow> (OPERATE_RET \<times> sw_bus) option" where
  "tdd_dimmer_i2c_flag_send_data p flags data len =
     tdd_sw_i2c_xfer p (Some \<lparr>msg_flags = flags, msg_addr = 0, msg_len = ucast len, msg_buff = Some data\<rparr>)"

definition tdd_dimmer_i2c_send_data ::
  "TDD_I2C_PIN_T \<Rightarrow> u8 list \<Rightarrow> u8 \<Rightarrow> sw_bus \<Rightarrow> (OPERATE_RET \<times> sw_bus) option" where
  "tdd_dimmer_i2c_send_data p data len =
     tdd_sw_i2c_xfer p (Some \<lparr>msg_flags = I2C_FLAG_WR OR I2C_FLAG_NO_ADDR, msg_addr = 0,
       msg_len = ucast len, msg_buff = Some data\<rparr>)"

section \<open>The lines as a receiver sees them\<close>

text \<open>
  The two lines as the master drives them. A clock pulse while the data line is an input is a free
  slot: the slave answers there. A change of the data line while the clock is high is a condition.
\<close>

record lines =
  l_scl :: bool
  l_sda :: bool
  l_out :: bool

datatype i2c_sym = I_start | I_stop | I_bit bool | I_free

fun line_step :: "TDD_I2C_PIN_T \<Rightarrow> gpio_op \<Rightarrow> lines \<Rightarrow> lines \<times> i2c_sym list" where
  "line_step p (Gpio_write n v) l =
     (if n = scl p
      then (l\<lparr>l_scl := v\<rparr>, if v \<and> \<not> l_scl l then [if l_out l then I_bit (l_sda l) else I_free] else [])
      else if n = sda p \<and> l_out l
      then (l\<lparr>l_sda := v\<rparr>, if l_scl l \<and> v \<noteq> l_sda l then [if v then I_stop else I_start] else [])
      else (l, []))"
| "line_step p (Gpio_init n c) l =
     (if n = scl p then (l\<lparr>l_scl := g_level c\<rparr>, [])
      else if n = sda p
      then if g_direct c = TUYA_GPIO_INPUT then (l\<lparr>l_out := False\<rparr>, [])
           else (l\<lparr>l_out := True, l_sda := g_level c\<rparr>,
             if l_scl l \<and> l_out l \<and> g_level c \<noteq> l_sda l then [if g_level c then I_stop else I_start] else [])
      else (l, []))"
| "line_step p _ l = (l, [])"

fun watch :: "TDD_I2C_PIN_T \<Rightarrow> lines \<Rightarrow> gpio_op list \<Rightarrow> i2c_sym list" where
  "watch p l [] = []"
| "watch p l (op # ops) = snd (line_step p op l) @ watch p (fst (line_step p op l)) ops"

definition lines_after :: "TDD_I2C_PIN_T \<Rightarrow> lines \<Rightarrow> gpio_op list \<Rightarrow> lines" where
  "lines_after p l ops = fold (\<lambda>op l. fst (line_step p op l)) ops l"

definition byte_of :: "bool list \<Rightarrow> u8" where
  "byte_of bs = fold (\<lambda>b v. push_bit 1 v + (if b then 1 else 0)) bs 0"

text \<open>
  A receiver: idle until a start condition, then eight bits and one acknowledge slot per byte, until
  a stop condition, when it hands over the bytes that are complete.
\<close>

fun receive :: "(bool list \<times> u8 list) option \<Rightarrow> i2c_sym list \<Rightarrow> u8 list list" where
  "receive st [] = []"
| "receive st (I_start # s) = receive (Some ([], [])) s"
| "receive None (_ # s) = receive None s"
| "receive (Some (bits, bytes)) (I_stop # s) =
     (if length bits = 8 then bytes @ [byte_of bits] else bytes) # receive None s"
| "receive (Some (bits, bytes)) (I_bit b # s) =
     (if length bits = 8 then receive (Some ([], bytes @ [byte_of bits])) s
      else receive (Some (bits @ [b], bytes)) s)"
| "receive (Some (bits, bytes)) (I_free # s) =
     (if length bits = 8 then receive (Some ([], bytes @ [byte_of bits])) s
      else receive (Some (bits, bytes)) s)"

section \<open>What the primitives put on the lines\<close>

text \<open>\<open>conveys p l ops syms l'\<close>: from the levels \<open>l\<close> the calls \<open>ops\<close> show \<open>syms\<close> and leave \<open>l'\<close>.\<close>

definition conveys :: "TDD_I2C_PIN_T \<Rightarrow> lines \<Rightarrow> gpio_op list \<Rightarrow> i2c_sym list \<Rightarrow> lines \<Rightarrow> bool" where
  "conveys p l ops syms l' \<longleftrightarrow> watch p l ops = syms \<and> lines_after p l ops = l'"

lemma conveys_Nil [simp]: "conveys p l [] syms l' \<longleftrightarrow> syms = [] \<and> l' = l"
  by (auto simp: conveys_def lines_after_def)

lemma conveys_append:
  assumes "conveys p l xs s l'" and "conveys p l' ys t l''"
  shows "conveys p l (xs @ ys) (s @ t) l''"
  using assms
proof (induction xs arbitrary: l s)
  case (Cons x xs)
  then show ?case by (auto simp: conveys_def lines_after_def)
qed simp

lemma conveys_Cons:
  "conveys p l (op # ops) syms l' \<longleftrightarrow>
    (\<exists>t. syms = snd (line_step p op l) @ t \<and> conveys p (fst (line_step p op l)) ops t l')"
  by (auto simp: conveys_def lines_after_def)

abbreviation (input) put_ops :: "gpio_op list \<Rightarrow> sw_bus \<Rightarrow> sw_bus" where
  "put_ops ops w \<equiv> w\<lparr>gpio_ops := gpio_ops w @ ops\<rparr>"

lemmas pin_defs = sw_i2c_write_def sw_i2c_sda_init_def sw_i2c_scl_init_def gpio_do_def

definition sda_cfg :: "bool \<Rightarrow> gpio_cfg" where
  "sda_cfg inp = (if inp then \<lparr>g_mode = TUYA_GPIO_PULLUP, g_direct = TUYA_GPIO_INPUT, g_level = True\<rparr>
     else \<lparr>g_mode = TUYA_GPIO_PUSH_PULL, g_direct = TUYA_GPIO_OUTPUT, g_level = False\<rparr>)"

lemma start_ops: "sw_i2c_start p w = put_ops
    [Gpio_write (scl p) True, Gpio_write (sda p) True, Gpio_write (sda p) False, Gpio_write (scl p) False] w"
  by (simp add: sw_i2c_start_def pin_defs)

lemma stop_ops: "sw_i2c_stop p w = put_ops
    [Gpio_write (scl p) False, Gpio_init (sda p) (sda_cfg False), Gpio_write (sda p) False,
     Gpio_write (scl p) True, Gpio_write (sda p) True] w"
  by (simp add: sw_i2c_stop_def pin_defs sda_cfg_def)

text \<open>Bits, most significant first.\<close>

fun msb_bits :: "nat \<Rightarrow> u8 \<Rightarrow> bool list" where
  "msb_bits 0 d = []"
| "msb_bits (Suc n) d = bit d 7 # msb_bits n (push_bit 1 d)"

definition bit_ops :: "TDD_I2C_PIN_T \<Rightarrow> bool \<Rightarrow> gpio_op list" where
  "bit_ops p b = [Gpio_write (sda p) b, Gpio_write (scl p) True, Gpio_write (scl p) False]"

lemma and_msb: "((d :: u8) AND 0x80 = 0) \<longleftrightarrow> \<not> bit d 7"
  using and_exp_eq [of d 7] by simp

lemma send_bit_eq: "sw_i2c_send_bit p (d, w) = (push_bit 1 d, put_ops (bit_ops p (bit d 7)) w)"
  by (simp add: sw_i2c_send_bit_def and_msb pin_defs bit_ops_def)

lemma send_bits_eq:
  "snd (fold (\<lambda>i. sw_i2c_send_bit p) xs (d, w)) = put_ops (concat (map (bit_ops p) (msb_bits (length xs) d))) w"
  by (induction xs arbitrary: d w) (auto simp: send_bit_eq)

definition byte_ops :: "TDD_I2C_PIN_T \<Rightarrow> u8 \<Rightarrow> gpio_op list" where
  "byte_ops p d = [Gpio_write (scl p) False, Gpio_init (sda p) (sda_cfg False)] @
     concat (map (bit_ops p) (msb_bits 8 d))"

lemma send_byte_eq: "sw_i2c_send_byte p d w = put_ops (byte_ops p d) w"
  by (simp add: sw_i2c_send_byte_def send_bits_eq byte_ops_def pin_defs sda_cfg_def del: upt_Suc)

lemma length_msb_bits [simp]: "length (msb_bits n d) = n"
  by (induction n arbitrary: d) auto

lemma bit_shl: "bit (push_bit n v) k \<longleftrightarrow> n \<le> k \<and> k < 8 \<and> bit v (k - n)" for v :: u8
  by (simp only: bit_push_bit_iff) auto

lemmas bit_shl1 = bit_shl [of 1]

lemma bit_above: "8 \<le> k \<Longrightarrow> \<not> bit v k" for v :: u8
  by (auto dest: bit_imp_le_length)

lemma add_low_bit: "push_bit 1 v + (if b then 1 else 0) = push_bit 1 (v :: u8) OR of_bool b"
proof -
  have "push_bit 1 v AND of_bool b = (0 :: u8)"
    by (rule bit_word_eqI) (auto simp only: bit_and_iff bit_shl1 bit_of_bool_iff bit_0_eq bot_apply bot_bool_def)
  then show ?thesis by (simp only: disjunctive_add_eq_or of_bool_def)
qed

lemma fold_msb_bits:
  "n \<le> 8 \<Longrightarrow> fold (\<lambda>b v. push_bit 1 v + (if b then 1 else 0)) (msb_bits n d) v = push_bit n v OR drop_bit (8 - n) d"
proof (induction n arbitrary: d v)
  case 0
  have "drop_bit 8 d = 0"
    by (rule bit_word_eqI) (auto simp: bit_drop_bit_eq dest: bit_imp_le_length)
  then show ?case by simp
next
  case (Suc n)
  have "push_bit n (push_bit 1 v OR of_bool (bit d 7)) OR drop_bit (8 - n) (push_bit 1 d)
      = push_bit (Suc n) v OR drop_bit (8 - Suc n) d"
  proof (rule bit_word_eqI)
    fix k assume "k < LENGTH(8)"
    then have "k < 8" by simp
    consider (lo) "k < n" | (eq) "k = n" | (hi) "n < k" by linarith
    then show "bit (push_bit n (push_bit 1 v OR of_bool (bit d 7)) OR drop_bit (8 - n) (push_bit 1 d)) k
        = bit (push_bit (Suc n) v OR drop_bit (8 - Suc n) d) k"
    proof cases
      case lo
      then have "8 - n + k - 1 = 8 - Suc n + k" "8 - n + k < 8" "1 \<le> 8 - n + k" using Suc.prems by auto
      with lo show ?thesis by (simp only: bit_or_iff bit_shl bit_drop_bit_eq comp_apply) simp
    next
      case eq
      then have "8 - n + n = 8" "8 - Suc n + n = 7" using Suc.prems by auto
      with eq \<open>k < 8\<close> show ?thesis
        by (simp only: bit_or_iff bit_shl bit_drop_bit_eq comp_apply bit_of_bool_iff) simp
    next
      case hi
      then have "8 \<le> 8 - Suc n + k" "\<not> 8 - n + k < 8" "k - n - 1 = k - Suc n" using Suc.prems by auto
      with hi \<open>k < 8\<close> bit_above [of "8 - Suc n + k" d] show ?thesis
        by (simp only: bit_or_iff bit_shl bit_drop_bit_eq comp_apply bit_of_bool_iff) auto
    qed
  qed
  then show ?case using Suc by (simp only: msb_bits.simps fold_simps add_low_bit)
qed

lemma msb_bits_nth: "n \<le> 8 \<Longrightarrow> msb_bits n b = map (\<lambda>i. bit b (7 - i)) [0..<n]"
proof (induction n arbitrary: b)
  case (Suc n)
  have "map (\<lambda>i. bit (push_bit 1 b) (7 - i)) [0..<n] = map (\<lambda>i. bit b (7 - Suc i)) [0..<n]"
    using Suc.prems unfolding bit_shl by auto
  moreover have "map (\<lambda>i. bit b (7 - i)) [0..<Suc n] = bit b 7 # map (\<lambda>i. bit b (7 - Suc i)) [0..<n]"
    by (subst map_upt_Suc) simp
  ultimately show ?case using Suc by (simp only: msb_bits.simps)
qed simp

lemma byte_of_msb_bits [simp]: "byte_of (msb_bits 8 d) = d"
  unfolding byte_of_def by (subst fold_msb_bits) simp_all

lemma conveys_bits:
  assumes "scl p \<noteq> sda p" and "\<not> l_scl l" and "l_out l"
  shows "\<exists>v. conveys p l (concat (map (bit_ops p) bs)) (map I_bit bs) (l\<lparr>l_sda := v\<rparr>)"
  using assms(2,3)
proof (induction bs arbitrary: l)
  case Nil
  then show ?case by (intro exI [of _ "l_sda l"]) simp
next
  case (Cons b bs)
  have "conveys p l (bit_ops p b) [I_bit b] (l\<lparr>l_sda := b\<rparr>)"
    using Cons.prems assms(1) by (simp add: bit_ops_def conveys_Cons)
  moreover obtain v where "conveys p (l\<lparr>l_sda := b\<rparr>) (concat (map (bit_ops p) bs)) (map I_bit bs) (l\<lparr>l_sda := v\<rparr>)"
    using Cons.IH [of "l\<lparr>l_sda := b\<rparr>"] Cons.prems by auto
  ultimately have "conveys p l (bit_ops p b @ concat (map (bit_ops p) bs)) ([I_bit b] @ map I_bit bs) (l\<lparr>l_sda := v\<rparr>)"
    by (rule conveys_append)
  then show ?case by auto
qed

abbreviation (input) idle_lines :: lines where
  "idle_lines \<equiv> \<lparr>l_scl = True, l_sda = True, l_out = True\<rparr>"

lemma conveys_byte:
  assumes "scl p \<noteq> sda p"
  shows "\<exists>v. conveys p l (byte_ops p d) (map I_bit (msb_bits 8 d)) \<lparr>l_scl = False, l_sda = v, l_out = True\<rparr>"
proof -
  have head: "conveys p l [Gpio_write (scl p) False, Gpio_init (sda p) (sda_cfg False)] []
      \<lparr>l_scl = False, l_sda = False, l_out = True\<rparr>"
    using assms by (cases l) (simp add: conveys_Cons sda_cfg_def)
  obtain v where "conveys p \<lparr>l_scl = False, l_sda = False, l_out = True\<rparr>
      (concat (map (bit_ops p) (msb_bits 8 d))) (map I_bit (msb_bits 8 d)) \<lparr>l_scl = False, l_sda = v, l_out = True\<rparr>"
    using conveys_bits [OF assms, of "\<lparr>l_scl = False, l_sda = False, l_out = True\<rparr>" "msb_bits 8 d"] by auto
  from conveys_append [OF head this] show ?thesis by (auto simp: byte_ops_def)
qed

definition stop_seq :: "TDD_I2C_PIN_T \<Rightarrow> gpio_op list" where
  "stop_seq p = [Gpio_write (scl p) False, Gpio_init (sda p) (sda_cfg False), Gpio_write (sda p) False,
     Gpio_write (scl p) True, Gpio_write (sda p) True]"

lemma conveys_stop: "scl p \<noteq> sda p \<Longrightarrow> conveys p l (stop_seq p) [I_bit False, I_stop] idle_lines"
  by (cases l) (simp add: stop_seq_def conveys_Cons sda_cfg_def)

definition start_seq :: "TDD_I2C_PIN_T \<Rightarrow> gpio_op list" where
  "start_seq p = [Gpio_write (scl p) True, Gpio_write (sda p) True, Gpio_write (sda p) False, Gpio_write (scl p) False]"

text \<open>A start condition is seen from whatever levels the master held, once the data line is its own.\<close>

lemma conveys_start:
  assumes "scl p \<noteq> sda p" and "l_out l"
  shows "\<exists>s l'. conveys p l (start_seq p) s l' \<and> (\<forall>t. receive None (s @ t) = receive (Some ([], [])) t)"
  using assms by (cases l) (auto simp: start_seq_def conveys_Cons)

lemma conveys_reads [simp]: "conveys p l (replicate n (Gpio_read q)) s l' \<longleftrightarrow> s = [] \<and> l' = l"
  by (induction n) (auto simp: conveys_Cons)

section \<open>The acknowledge\<close>

text \<open>After how many reads of a high level the slave answers, within \<open>n\<close> reads from the \<open>k\<close>-th on.\<close>

fun answer :: "(nat \<Rightarrow> bool) \<Rightarrow> nat \<Rightarrow> nat \<Rightarrow> nat option" where
  "answer f k 0 = None"
| "answer f k (Suc n) = (if f k then map_option Suc (answer f (k + 1) n) else Some 0)"

lemma wait_ack_eq:
  "t \<le> 10 \<Longrightarrow> sw_i2c_wait_ack p t w =
    (case answer (sda_in w) (sda_reads w) (11 - t) of
       Some j \<Rightarrow> (True, w\<lparr>gpio_ops := gpio_ops w @ replicate (j + 1) (Gpio_read (sda p)), sda_reads := sda_reads w + j + 1\<rparr>)
     | None \<Rightarrow> (False, w\<lparr>gpio_ops := gpio_ops w @ replicate (11 - t) (Gpio_read (sda p)) @ stop_seq p,
         sda_reads := sda_reads w + (11 - t)\<rparr>))"
proof (induction "10 - t" arbitrary: t w)
  case 0
  then have "t = 10" by simp
  then show ?case
    by (subst sw_i2c_wait_ack.simps)
      (simp add: sw_i2c_sda_read_def gpio_do_def stop_ops stop_seq_def)
next
  case (Suc x)
  then have t: "t < 10" "11 - t = Suc (11 - (t + 1))" by auto
  define w' where "w' = (gpio_do (Gpio_read (sda p)) w)\<lparr>sda_reads := sda_reads w + 1\<rparr>"
  have "sw_i2c_wait_ack p t w = (if sda_in w (sda_reads w) then sw_i2c_wait_ack p (t + 1) w' else (True, w'))"
    using t by (subst sw_i2c_wait_ack.simps) (simp add: sw_i2c_sda_read_def w'_def)
  moreover have "sda_in w' = sda_in w" "sda_reads w' = sda_reads w + 1"
      "gpio_ops w' = gpio_ops w @ [Gpio_read (sda p)]"
    by (simp_all add: w'_def gpio_do_def)
  ultimately show ?case
    using Suc.hyps(1) [of "t + 1" w'] Suc.hyps(2) t
    by (auto simp: w'_def gpio_do_def replicate_append_same split: option.splits)
qed

text \<open>
  The bytes that reach the slave: those up to the first that it does not acknowledge within eleven
  reads, that one included; the flag tells whether it took them all. With \<^verbatim>\<open>I2C_FLAG_IGNORE_NACK\<close> the
  master does not look.
\<close>

fun taken :: "bool \<Rightarrow> (nat \<Rightarrow> bool) \<Rightarrow> nat \<Rightarrow> u8 list \<Rightarrow> u8 list \<times> bool" where
  "taken ign f k [] = ([], True)"
| "taken ign f k (b # bs) =
     (if ign then (let (xs, ok) = taken ign f k bs in (b # xs, ok))
      else case answer f k 11 of
        None \<Rightarrow> ([b], False)
      | Some j \<Rightarrow> (let (xs, ok) = taken ign f (k + j + 1) bs in (b # xs, ok)))"

lemma receive_bits:
  "length pre + length bs \<le> 8 \<Longrightarrow>
    receive (Some (pre, bytes)) (map I_bit bs @ s) = receive (Some (pre @ bs, bytes)) s"
  by (induction bs arbitrary: pre) auto

text \<open>One byte: acknowledged, or given up with a stop condition.\<close>

lemma put_eq:
  assumes "scl p \<noteq> sda p" and "flags AND I2C_FLAG_NO_READ_ACK = 0"
  defines "ign \<equiv> flags AND I2C_FLAG_IGNORE_NACK \<noteq> 0"
  obtains ok w' ops s l' where "sw_i2c_put p flags b w = (ok, w')" "gpio_ops w' = gpio_ops w @ ops"
    "sda_in w' = sda_in w" "conveys p l ops s l'"
    "if ign then ok \<and> sda_reads w' = sda_reads w
     else case answer (sda_in w) (sda_reads w) 11 of
       None \<Rightarrow> \<not> ok | Some j \<Rightarrow> ok \<and> sda_reads w' = sda_reads w + j + 1"
    "\<And>bytes t. receive (Some ([], bytes)) (s @ t) =
      (if ok then receive (Some ([], bytes @ [b])) t else (bytes @ [b]) # receive None t)"
proof -
  obtain v where byte: "conveys p l (byte_ops p b) (map I_bit (msb_bits 8 b)) \<lparr>l_scl = False, l_sda = v, l_out = True\<rparr>"
    using conveys_byte [OF assms(1)] by blast
  define q where "q = [Gpio_write (scl p) False, Gpio_init (sda p) (sda_cfg True)]"
  define c where "c = [Gpio_write (scl p) True, Gpio_write (scl p) False]"
  define l1 where "l1 = \<lparr>l_scl = False, l_sda = v, l_out = False\<rparr>"
  have q: "conveys p \<lparr>l_scl = False, l_sda = v, l_out = True\<rparr> q [] l1"
    using assms(1) by (simp add: q_def conveys_Cons sda_cfg_def l1_def)
  have c: "conveys p l1 c [I_free] l1"
    using assms(1) by (simp add: c_def l1_def conveys_Cons)
  define w1 where "w1 = w\<lparr>gpio_ops := gpio_ops w @ byte_ops p b @ q\<rparr>"
  have put: "sw_i2c_put p flags b w =
      (let (ok, w) = (if \<not> ign then sw_i2c_wait_ack p 0 w1 else (True, w1))
       in if \<not> ok then (False, w) else (True, w\<lparr>gpio_ops := gpio_ops w @ c\<rparr>))"
    using assms(2) by (auto simp: sw_i2c_put_def send_byte_eq sw_i2c_get_ack_def w1_def q_def c_def
        pin_defs sda_cfg_def ign_def split: prod.splits)
  have rx: "receive (Some ([], bytes)) (map I_bit (msb_bits 8 b) @ t) = receive (Some (msb_bits 8 b, bytes)) t"
    for bytes t using receive_bits [of "[]" "msb_bits 8 b"] by simp
  note bq = conveys_append [OF byte q]
  show thesis
  proof (cases "ign \<or> answer (sda_in w) (sda_reads w) 11 \<noteq> None")
    case True
    define j where "j = (if ign then 0 else the (answer (sda_in w) (sda_reads w) 11) + 1)"
    have r: "conveys p l1 (replicate j (Gpio_read (sda p))) [] l1" by simp
    have "sw_i2c_put p flags b w = (True, w\<lparr>gpio_ops := gpio_ops w @ (byte_ops p b @ q) @ replicate j (Gpio_read (sda p)) @ c,
        sda_reads := sda_reads w + j\<rparr>)"
      unfolding put using True by (auto simp: wait_ack_eq w1_def j_def)
    then show thesis
      by (rule that [OF _ _ _ conveys_append [OF bq conveys_append [OF r c]]])
        (use True in \<open>auto simp: j_def rx split: option.splits\<close>)
  next
    case False
    have r: "conveys p l1 (replicate 11 (Gpio_read (sda p))) [] l1" by (simp only: conveys_reads)
    have "sw_i2c_put p flags b w = (False, w\<lparr>gpio_ops := gpio_ops w @ (byte_ops p b @ q) @
        replicate 11 (Gpio_read (sda p)) @ stop_seq p, sda_reads := sda_reads w + 11\<rparr>)"
      unfolding put using False by (auto simp: wait_ack_eq w1_def)
    then show thesis
      by (rule that [OF _ _ _ conveys_append [OF bq conveys_append [OF r conveys_stop [OF assms(1)]]]])
        (use False in \<open>auto simp: rx split: option.splits\<close>)
  qed
qed

text \<open>The loop over the bytes and the stop condition after it.\<close>

lemma put_loop_received:
  assumes pins: "scl p \<noteq> sda p" and ack: "flags AND I2C_FLAG_NO_READ_ACK = 0"
    and "map (rd buf) is = map Some bs"
  defines "ign \<equiv> flags AND I2C_FLAG_IGNORE_NACK \<noteq> 0"
  shows "\<exists>r w' ops s. sw_i2c_put_loop p flags buf is w = Some (r, w') \<and> gpio_ops w' = gpio_ops w @ ops
    \<and> sda_in w' = sda_in w \<and> conveys p l ops s idle_lines
    \<and> (r = 0 \<longleftrightarrow> snd (taken ign (sda_in w) (sda_reads w) bs))
    \<and> (\<forall>bytes t. receive (Some ([], bytes)) (s @ t) =
        (bytes @ fst (taken ign (sda_in w) (sda_reads w) bs)) # receive None t)"
  using assms(3)
proof (induction bs arbitrary: "is" w l)
  case Nil
  then show ?case
    using conveys_stop [OF pins, of l] by (auto simp: stop_ops stop_seq_def [symmetric] intro!: exI)
next
  case (Cons b bs)
  then obtain i is' where is': "is = i # is'" "rd buf i = Some b" "map (rd buf) is' = map Some bs" by auto
  obtain ok w1 ops s l1 where put: "sw_i2c_put p flags b w = (ok, w1)" "gpio_ops w1 = gpio_ops w @ ops"
      "sda_in w1 = sda_in w" "conveys p l ops s l1"
      "if ign then ok \<and> sda_reads w1 = sda_reads w
       else case answer (sda_in w) (sda_reads w) 11 of
         None \<Rightarrow> \<not> ok | Some j \<Rightarrow> ok \<and> sda_reads w1 = sda_reads w + j + 1"
      "\<And>bytes t. receive (Some ([], bytes)) (s @ t) =
        (if ok then receive (Some ([], bytes @ [b])) t else (bytes @ [b]) # receive None t)"
    unfolding ign_def by (rule put_eq [OF pins ack]) blast
  show ?case
  proof (cases ok)
    case True
    with put(5) have tk: "taken ign (sda_in w) (sda_reads w) (b # bs) =
        (b # fst (taken ign (sda_in w1) (sda_reads w1) bs), snd (taken ign (sda_in w1) (sda_reads w1) bs))"
      by (auto simp: put(3) split: option.splits prod.splits if_splits)
    obtain r w2 ops2 s2 where rest: "sw_i2c_put_loop p flags buf is' w1 = Some (r, w2)"
        "gpio_ops w2 = gpio_ops w1 @ ops2" "sda_in w2 = sda_in w1" "conveys p l1 ops2 s2 idle_lines"
        "r = 0 \<longleftrightarrow> snd (taken ign (sda_in w1) (sda_reads w1) bs)"
        "\<And>bytes t. receive (Some ([], bytes)) (s2 @ t) =
          (bytes @ fst (taken ign (sda_in w1) (sda_reads w1) bs)) # receive None t"
      using Cons.IH [OF is'(3)] by blast
    have "sw_i2c_put_loop p flags buf is w = Some (r, w2)" using is' put(1) True rest(1) by simp
    moreover have "gpio_ops w2 = gpio_ops w @ ops @ ops2" using put(2) rest(2) by simp
    ultimately show ?thesis
      using conveys_append [OF put(4) rest(4)] rest(3,5,6) put(3,6) True unfolding tk
      by (intro exI [of _ r] exI [of _ w2] exI [of _ "ops @ ops2"] exI [of _ "s @ s2"]) simp
  next
    case False
    with put(5) have tk: "taken ign (sda_in w) (sda_reads w) (b # bs) = ([b], False)"
      by (auto split: option.splits if_splits)
    have "sw_i2c_put_loop p flags buf is w = Some (-1, sw_i2c_stop p w1)" using is' put(1) False by simp
    moreover have "gpio_ops (sw_i2c_stop p w1) = gpio_ops w @ ops @ stop_seq p"
      "sda_in (sw_i2c_stop p w1) = sda_in w" using put(2,3) by (simp_all add: stop_ops stop_seq_def)
    ultimately show ?thesis
      using conveys_append [OF put(4) conveys_stop [OF pins]] put(6) False unfolding tk
      by (intro exI [of _ "-1"] exI [of _ "sw_i2c_stop p w1"] exI [of _ "ops @ stop_seq p"]
          exI [of _ "s @ [I_bit False, I_stop]"]) simp
  qed
qed

text \<open>A whole transfer without address, as the dimmer chips are written to.\<close>

lemma send_received:
  assumes "scl p \<noteq> sda p" and "l_out l"
    and "flags AND I2C_FLAG_WR \<noteq> 0" and "flags AND I2C_FLAG_NO_START = 0"
    and "flags AND I2C_FLAG_NO_ADDR \<noteq> 0" and "flags AND I2C_FLAG_NO_READ_ACK = 0"
    and len: "0 < n" "n < 256" "n \<le> length data"
  shows "\<exists>w' ops. tdd_dimmer_i2c_flag_send_data p flags data (of_nat n) w = Some (OPRT_OK, w')
    \<and> gpio_ops w' = gpio_ops w @ ops \<and> sda_in w' = sda_in w \<and> lines_after p l ops = idle_lines
    \<and> (\<forall>t. receive None (watch p l ops @ t) =
        fst (taken (flags AND I2C_FLAG_IGNORE_NACK \<noteq> 0) (sda_in w) (sda_reads w) (take n data)) # receive None t)"
proof -
  have n: "unat (of_nat n :: u8) = n" using len by (simp add: unat_of_nat)
  have uu: "ucast (ucast (of_nat n :: u8) :: u16) = (of_nat n :: u8)"
    by (rule bit_word_eqI) (simp add: bit_simps)
  then have nz: "(ucast (of_nat n :: u8) :: u16) \<noteq> 0" using len(1) n by (metis less_irrefl unat_0 ucast_0)
  have idx: "map (rd data) [0..<n] = map Some (take n data)"
    using len(3) by (auto simp: rd_def intro!: nth_equalityI)
  obtain s l1 where start: "conveys p l (start_seq p) s l1"
      "\<And>t. receive None (s @ t) = receive (Some ([], [])) t"
    using conveys_start [OF assms(1,2)] by blast
  define w1 where "w1 = sw_i2c_start p w"
  have w1: "gpio_ops w1 = gpio_ops w @ start_seq p" "sda_in w1 = sda_in w" "sda_reads w1 = sda_reads w"
    by (simp_all add: w1_def start_ops start_seq_def)
  obtain r w2 ops s2 where loop: "sw_i2c_put_loop p flags data [0..<n] w1 = Some (r, w2)"
      "gpio_ops w2 = gpio_ops w1 @ ops" "sda_in w2 = sda_in w1" "conveys p l1 ops s2 idle_lines"
      "\<And>bytes t. receive (Some ([], bytes)) (s2 @ t) =
        (bytes @ fst (taken (flags AND I2C_FLAG_IGNORE_NACK \<noteq> 0) (sda_in w1) (sda_reads w1) (take n data)))
          # receive None t"
    using put_loop_received [OF assms(1,6) idx, of w1 l1] by blast
  have "tdd_dimmer_i2c_flag_send_data p flags data (of_nat n) w = Some (OPRT_OK, w2)"
    using assms(3,4,5) loop(1) n nz uu
    by (simp add: tdd_dimmer_i2c_flag_send_data_def tdd_sw_i2c_xfer_def sw_i2c_write_data_def w1_def)
  moreover have "gpio_ops w2 = gpio_ops w @ start_seq p @ ops" using w1 loop(2) by simp
  ultimately show ?thesis
    using conveys_append [OF start(1) loop(4)] loop(3) loop(5) [of "[]"] start(2) w1
    unfolding conveys_def by (intro exI [of _ w2] exI [of _ "start_seq p @ ops"]) simp
qed

lemma send_data_flags: "tdd_dimmer_i2c_send_data p = tdd_dimmer_i2c_flag_send_data p (I2C_FLAG_WR OR I2C_FLAG_NO_ADDR)"
  by (intro ext) (simp add: tdd_dimmer_i2c_send_data_def tdd_dimmer_i2c_flag_send_data_def)

section \<open>Properties\<close>

lemma answer_within: "j < n \<Longrightarrow> \<not> f (k + j) \<Longrightarrow> answer f k n \<noteq> None"
proof (induction n arbitrary: k j)
  case (Suc n)
  then show ?case
  proof (cases j)
    case (Suc i)
    with Suc.prems Suc.IH [of i "k + 1"] show ?thesis by simp
  qed simp
qed simp

lemma answer_never: "(\<And>j. j < n \<Longrightarrow> f (k + j)) \<Longrightarrow> answer f k n = None"
proof (induction n arbitrary: k)
  case (Suc n)
  have "f k" using Suc.prems [of 0] by simp
  moreover have "answer f (k + 1) n = None" by (rule Suc.IH) (use Suc.prems [of "Suc j" for j] in simp)
  ultimately show ?case by simp
qed simp

lemma taken_all: "(\<And>k. \<exists>j \<le> 10. \<not> f (k + j)) \<Longrightarrow> taken ign f k bs = (bs, True)"
proof (induction bs arbitrary: k)
  case (Cons b bs)
  from Cons.prems [of k] obtain j where "j \<le> 10" "\<not> f (k + j)" by blast
  then have "answer f k 11 \<noteq> None" by (intro answer_within [of j]) auto
  with Cons show ?case by (auto split: option.splits)
qed simp

lemma taken_ignored: "taken True f k bs = (bs, True)"
  by (induction bs) auto

lemma taken_prefix:
  assumes "m < length bs" and "\<And>i. i < m \<Longrightarrow> \<not> f (k + i)" and "\<And>j. j < 11 \<Longrightarrow> f (k + m + j)"
  shows "taken False f k bs = (take (Suc m) bs, False)"
  using assms
proof (induction m arbitrary: k bs)
  case 0
  then have "answer f k 11 = None" by (intro answer_never) simp
  with 0 show ?case by (cases bs) simp_all
next
  case (Suc m)
  then obtain b bs' where bs: "bs = b # bs'" by (cases bs) auto
  have "\<not> f k" using Suc.prems(2) [of 0] by simp
  then have "answer f k 11 = Some 0" by (simp add: eval_nat_numeral)
  moreover have "taken False f (k + 1) bs' = (take (Suc m) bs', False)"
    by (rule Suc.IH) (use Suc.prems(1) Suc.prems(2) [of "Suc i" for i] Suc.prems(3) in \<open>auto simp: bs\<close>)
  ultimately show ?case by (simp add: bs)
qed

text \<open>The same for callers: a chip that answers, or that need not, gets the first \<open>n\<close> bytes of the buffer.\<close>

lemma frame_sent:
  assumes "scl p \<noteq> sda p" and "l_out l"
    and "flags = I2C_FLAG_WR OR I2C_FLAG_NO_ADDR \<and> (\<forall>k. \<exists>j \<le> 10. \<not> sda_in w (k + j))
      \<or> flags = I2C_FLAG_WR OR I2C_FLAG_NO_ADDR OR I2C_FLAG_IGNORE_NACK"
    and "0 < n" "n < 256" "n \<le> length data"
  obtains w' ops where "tdd_dimmer_i2c_flag_send_data p flags data (of_nat n) w = Some (OPRT_OK, w')"
    "gpio_ops w' = gpio_ops w @ ops" "sda_in w' = sda_in w" "lines_after p l ops = idle_lines"
    "\<And>t. receive None (watch p l ops @ t) = take n data # receive None t"
proof -
  have "flags AND I2C_FLAG_WR \<noteq> 0" "flags AND I2C_FLAG_NO_START = 0" "flags AND I2C_FLAG_NO_ADDR \<noteq> 0"
    "flags AND I2C_FLAG_NO_READ_ACK = 0" using assms(3) by auto
  from send_received [OF assms(1,2) this assms(4-6), of w]
  obtain w' ops where r: "tdd_dimmer_i2c_flag_send_data p flags data (of_nat n) w = Some (OPRT_OK, w')"
    "gpio_ops w' = gpio_ops w @ ops" "sda_in w' = sda_in w" "lines_after p l ops = idle_lines"
    "\<And>t. receive None (watch p l ops @ t) = fst (taken (flags AND I2C_FLAG_IGNORE_NACK \<noteq> 0) (sda_in w) (sda_reads w) (take n data)) # receive None t"
    by blast
  have "fst (taken (flags AND I2C_FLAG_IGNORE_NACK \<noteq> 0) (sda_in w) (sda_reads w) (take n data)) = take n data"
    using assms(3) by (auto simp: taken_all taken_ignored)
  with r show thesis by (intro that [of w' ops]) simp_all
qed

text \<open>C6: A chip on the software I2C bus that answers every byte within eleven looks of the master receives,
between one start and one stop condition, exactly the bytes handed to \<^verbatim>\<open>tdd_dimmer_i2c_send_data\<close>, and the
lines are left idle for the next transfer. The receiver samples the data line on each rising edge of
the clock; it knows nothing of the master's code.\<close>
theorem i2c_frame_received:
  assumes "scl p \<noteq> sda p" and "l_out l" and "data \<noteq> []" and "length data < 256"
    and answers: "\<And>k. \<exists>j \<le> 10. \<not> sda_in w (k + j)"
  shows "\<exists>w' ops. tdd_dimmer_i2c_send_data p data (of_nat (length data)) w = Some (OPRT_OK, w')
    \<and> gpio_ops w' = gpio_ops w @ ops \<and> lines_after p l ops = \<lparr>l_scl = True, l_sda = True, l_out = True\<rparr>
    \<and> receive None (watch p l ops) = [data]"
proof -
  have "0 < length data" using assms(3) by simp
  then obtain w' ops where "tdd_dimmer_i2c_send_data p data (of_nat (length data)) w = Some (OPRT_OK, w')"
      "gpio_ops w' = gpio_ops w @ ops" "lines_after p l ops = idle_lines"
      "\<And>t. receive None (watch p l ops @ t) = data # receive None t"
    unfolding send_data_flags
    using frame_sent [OF assms(1,2) _ _ assms(4), of "I2C_FLAG_WR OR I2C_FLAG_NO_ADDR" w data] answers
    by (metis le_refl take_all)
  from this(1-3) this(4) [of "[]"] show ?thesis by auto
qed

text \<open>C30: When the chip stops acknowledging at some byte, the master puts a stop condition after that byte and
gives up the rest, so the chip holds a frame that is cut short; \<^verbatim>\<open>tdd_sw_i2c_xfer\<close> drops the error code
of the transfer and its caller is told \<^verbatim>\<open>OPRT_OK\<close>.\<close>
theorem i2c_nack_swallowed:
  assumes "scl p \<noteq> sda p" and "l_out l" and "m < length data" and "length data < 256"
    and "\<And>i. i < m \<Longrightarrow> \<not> sda_in w (sda_reads w + i)" and "\<And>j. j < 11 \<Longrightarrow> sda_in w (sda_reads w + m + j)"
  shows "\<exists>w' ops. tdd_dimmer_i2c_send_data p data (of_nat (length data)) w = Some (OPRT_OK, w')
    \<and> gpio_ops w' = gpio_ops w @ ops \<and> receive None (watch p l ops) = [take (m + 1) data]"
proof -
  have "0 < length data" using assms(3) by linarith
  from send_received [OF assms(1,2), of "I2C_FLAG_WR OR I2C_FLAG_NO_ADDR" "length data" data w, OF _ _ _ _ this assms(4)]
  obtain w' ops where "tdd_dimmer_i2c_send_data p data (of_nat (length data)) w = Some (OPRT_OK, w')"
      "gpio_ops w' = gpio_ops w @ ops" "\<And>t. receive None (watch p l ops @ t) = take (m + 1) data # receive None t"
    unfolding send_data_flags by (auto simp: taken_prefix [OF assms(3,5,6)])
  from this(1,2) this(3) [of "[]"] show ?thesis by auto
qed

definition ex_pins :: TDD_I2C_PIN_T where "ex_pins = \<lparr>scl = 26, sda = 6\<rparr>"

definition ex_bus :: "(nat \<Rightarrow> bool) \<Rightarrow> sw_bus" where
  "ex_bus f = \<lparr>gpio_ops = [], sda_in = f, sda_reads = 0\<rparr>"

theorem i2c_frame_received_witness:
  "\<exists>w' ops. tdd_dimmer_i2c_send_data ex_pins [0x90, 0x1F] 2 (ex_bus odd) = Some (OPRT_OK, w')
    \<and> gpio_ops w' = ops \<and> lines_after ex_pins \<lparr>l_scl = True, l_sda = False, l_out = True\<rparr> ops = \<lparr>l_scl = True, l_sda = True, l_out = True\<rparr>
    \<and> receive None (watch ex_pins \<lparr>l_scl = True, l_sda = False, l_out = True\<rparr> ops) = [[0x90, 0x1F]]"
proof -
  have "\<exists>j \<le> 10. \<not> sda_in (ex_bus odd) (k + j)" for k
    by (cases "odd k") (auto simp: ex_bus_def intro: exI [of _ 1] exI [of _ 0])
  from i2c_frame_received [of ex_pins "\<lparr>l_scl = True, l_sda = False, l_out = True\<rparr>" "[0x90, 0x1F]" "ex_bus odd", OF _ _ _ _ this]
  show ?thesis by (simp add: ex_pins_def) (simp add: ex_bus_def)
qed

theorem i2c_nack_swallowed_witness:
  "\<exists>w' ops. tdd_dimmer_i2c_send_data ex_pins [0x90, 0x1F, 0x01] 3 (ex_bus (\<lambda>k. k \<ge> 1)) = Some (OPRT_OK, w')
    \<and> gpio_ops w' = ops \<and> receive None (watch ex_pins \<lparr>l_scl = True, l_sda = True, l_out = True\<rparr> ops) = [[0x90, 0x1F]]"
  using i2c_nack_swallowed [of ex_pins "\<lparr>l_scl = True, l_sda = True, l_out = True\<rparr>" 1 "[0x90, 0x1F, 0x01]" "ex_bus (\<lambda>k. k \<ge> 1)"]
  by (simp add: ex_pins_def ex_bus_def)

end
