(* ===== verification/Sensor_I2C.thy ===== *)
theory Sensor_I2C
  imports Dimmer_I2C
begin

text \<open>
  The bit-banged I2C bus of the sensor drivers, \<^verbatim>\<open>tdd_sensor_i2c.c\<close>. Its functions on the two lines are, word for word,
  those of the dimmer bus, and their model is that of theory \<open>Dimmer_I2C\<close>; new are the four ports, the
  transfers that read, and errors that reach the caller. The world of a sensor driver is the pins of the ports, the bus, the calls for
  pin interrupts, the times slept, what a local buffer happens to hold before anything is written to it (as a function of the calls made
  so far and the place in the buffer), and the answers of the analog converter.
\<close>

section \<open>Ports and messages\<close>

record SR_I2C_MSG_T =
  sm_flags :: u32
  sm_addr :: u16
  sm_len :: u16
  sm_buff :: "u8 list option"

datatype irq_call = Gpio_irq_init nat nat | Gpio_irq_enable nat | Gpio_irq_disable nat

datatype adc_call = Adc_init u8 nat | Adc_read u8

record sr_io =
  sg_i2c_pin :: "TDD_I2C_PIN_T list"
  io_bus :: sw_bus
  io_irq_ret :: "irq_call \<Rightarrow> OPERATE_RET"
  io_irqs :: "irq_call list"
  io_sleeps :: "u32 list"
  io_junk :: "nat \<Rightarrow> nat \<Rightarrow> u8"
  io_adc_ret :: "nat \<Rightarrow> OPERATE_RET \<times> int"
  io_adcs :: "adc_call list"

abbreviation (input) SR_I2C_FLAG_WR :: u32 where "SR_I2C_FLAG_WR \<equiv> 0x01"
abbreviation (input) SR_I2C_FLAG_RD :: u32 where "SR_I2C_FLAG_RD \<equiv> 0x02"

definition sr_i2c_write_data :: "u8 \<Rightarrow> u8 \<Rightarrow> u8 list \<Rightarrow> u8 \<Rightarrow> u32 \<Rightarrow> sr_io \<Rightarrow> (int \<times> sr_io) option" where
  "sr_i2c_write_data port addr buf len flags io = do {
     p \<leftarrow> rd (sg_i2c_pin io) (unat port);
     (r, w) \<leftarrow> sw_i2c_write_data p addr buf len flags (io_bus io);
     Some (r, io\<lparr>io_bus := w\<rparr>) }"

text \<open>The loop that reads, with its counter compared with a signed number.\<close>

definition sr_i2c_get_loop :: "TDD_I2C_PIN_T \<Rightarrow> nat \<Rightarrow> u8 list \<times> sw_bus \<Rightarrow> (u8 list \<times> sw_bus) option" where
  "sr_i2c_get_loop p n x = do {
     (buf, w) \<leftarrow> foldM (\<lambda>i (buf, w). let (b, w) = sw_i2c_read_byte p True w in do { buf \<leftarrow> wr buf i b; Some (buf, w) }) [0..<n - 1] x;
     let (b, w) = sw_i2c_read_byte p False w;
     buf \<leftarrow> wr buf (n - 1) b;
     Some (buf, w) }"

definition sr_i2c_read_data :: "u8 \<Rightarrow> u8 \<Rightarrow> u8 list \<Rightarrow> u8 \<Rightarrow> u32 \<Rightarrow> sr_io \<Rightarrow> (int \<times> u8 list \<times> sr_io) option" where
  "sr_i2c_read_data port addr buf len flags io = do {
     p \<leftarrow> rd (sg_i2c_pin io) (unat port);
     let w = io_bus io;
     let w = (if flags AND I2C_FLAG_NO_START = 0 then sw_i2c_start p w else w);
     let (ok, w) = (if flags AND I2C_FLAG_NO_ADDR = 0 then sw_i2c_put p flags (push_bit 1 addr OR 1) w else (True, w));
     if \<not> ok then Some (-1, buf, io\<lparr>io_bus := sw_i2c_stop p w\<rparr>)
     else do {
       (buf, w) \<leftarrow> sr_i2c_get_loop p (unat len) (buf, w);
       Some (0, buf, io\<lparr>io_bus := sw_i2c_stop p w\<rparr>) } }"

definition tdd_sensor_i2c_init :: "u8 \<Rightarrow> TDD_I2C_PIN_T \<Rightarrow> sr_io \<Rightarrow> (OPERATE_RET \<times> sr_io) option" where
  "tdd_sensor_i2c_init port pin io =
     (if port > 3 then Some (OPRT_INVALID_PARM, io)
      else do {
        pins \<leftarrow> wr (sg_i2c_pin io) (unat port) pin;
        Some (OPRT_OK, io\<lparr>sg_i2c_pin := pins, io_bus := sw_i2c_init pin (io_bus io)\<rparr>) })"

definition tdd_sensor_i2c_deinit :: "u8 \<Rightarrow> sr_io \<Rightarrow> (OPERATE_RET \<times> sr_io) option" where
  "tdd_sensor_i2c_deinit port io =
     (if port > 3 then Some (OPRT_INVALID_PARM, io)
      else do {
        p \<leftarrow> rd (sg_i2c_pin io) (unat port);
        Some (OPRT_OK, io\<lparr>io_bus := run [gpio_do (Gpio_deinit (scl p)), gpio_do (Gpio_deinit (sda p))] (io_bus io)\<rparr>) })"

definition tdd_sensor_i2c_xfer :: "u8 \<Rightarrow> SR_I2C_MSG_T option \<Rightarrow> sr_io \<Rightarrow> (OPERATE_RET \<times> SR_I2C_MSG_T option \<times> sr_io) option" where
  "tdd_sensor_i2c_xfer port msg io =
     (case msg of
        None \<Rightarrow> Some (OPRT_INVALID_PARM, msg, io)
      | Some m \<Rightarrow>
          (case sm_buff m of
             None \<Rightarrow> Some (OPRT_INVALID_PARM, msg, io)
           | Some buf \<Rightarrow>
               if port > 3 \<or> sm_len m = 0 then Some (OPRT_INVALID_PARM, msg, io)
               else do {
                 (r, io) \<leftarrow> (if sm_flags m AND SR_I2C_FLAG_WR \<noteq> 0
                   then sr_i2c_write_data port (ucast (sm_addr m)) buf (ucast (sm_len m)) (sm_flags m) io else Some (0, io));
                 if r < 0 then Some (OPRT_COM_ERROR, msg, io)
                 else do {
                   (r, buf, io) \<leftarrow> (if sm_flags m AND SR_I2C_FLAG_RD \<noteq> 0
                     then sr_i2c_read_data port (ucast (sm_addr m)) buf (ucast (sm_len m)) (sm_flags m) io else Some (0, buf, io));
                   let msg = Some (m\<lparr>sm_buff := Some buf\<rparr>);
                   if r < 0 then Some (OPRT_COM_ERROR, msg, io) else Some (OPRT_OK, msg, io) } }))"

section \<open>Reading bytes\<close>

text \<open>The byte that the data line shows in eight looks, most significant bit first, and a row of them.\<close>

definition byte_at :: "(nat \<Rightarrow> bool) \<Rightarrow> nat \<Rightarrow> u8" where
  "byte_at f k = byte_of (map (\<lambda>j. f (k + j)) [0..<8])"

definition bytes_at :: "(nat \<Rightarrow> bool) \<Rightarrow> nat \<Rightarrow> nat \<Rightarrow> u8 list" where
  "bytes_at f k n = map (\<lambda>i. byte_at f (k + 8 * i)) [0..<n]"

lemma length_bytes_at [simp]: "length (bytes_at f k n) = n"
  by (simp add: bytes_at_def)

definition slot_ops :: "TDD_I2C_PIN_T \<Rightarrow> gpio_op list" where
  "slot_ops p = [Gpio_write (scl p) False, Gpio_write (scl p) True, Gpio_read (sda p)]"

definition ack_ops :: "TDD_I2C_PIN_T \<Rightarrow> bool \<Rightarrow> gpio_op list" where
  "ack_ops p ack = [Gpio_write (scl p) False, Gpio_init (sda p) (sda_cfg False), Gpio_write (sda p) (\<not> ack),
     Gpio_write (scl p) True, Gpio_write (scl p) False]"

definition read_ops :: "TDD_I2C_PIN_T \<Rightarrow> bool \<Rightarrow> gpio_op list" where
  "read_ops p ack = [Gpio_write (scl p) False, Gpio_init (sda p) (sda_cfg True)] @ concat (replicate 8 (slot_ops p)) @ ack_ops p ack"

lemma concat_replicate_Suc: "concat (replicate (Suc n) xs) = concat (replicate n xs) @ xs"
proof -
  have "replicate (Suc n) xs = replicate n xs @ [xs]" by (simp add: replicate_append_same)
  then show ?thesis by (simp only: concat_append) simp
qed

lemma read_bits_eq:
  "fold (\<lambda>i. sw_i2c_read_bit p) [0..<n] (v, w) =
    (fold (\<lambda>b v. push_bit 1 v + (if b then 1 else 0)) (map (\<lambda>j. sda_in w (sda_reads w + j)) [0..<n]) v,
     w\<lparr>gpio_ops := gpio_ops w @ concat (replicate n (slot_ops p)), sda_reads := sda_reads w + n\<rparr>)"
proof (induction n)
  case (Suc n)
  have "concat (replicate (Suc n) (slot_ops p)) = concat (replicate n (slot_ops p)) @ slot_ops p" by (rule concat_replicate_Suc)
  then show ?case using Suc by (simp add: sw_i2c_read_bit_def sw_i2c_sda_read_def pin_defs slot_ops_def)
qed simp

lemma read_byte_eq:
  "sw_i2c_read_byte p ack w = (byte_at (sda_in w) (sda_reads w), w\<lparr>gpio_ops := gpio_ops w @ read_ops p ack, sda_reads := sda_reads w + 8\<rparr>)"
  by (cases ack) (simp_all add: sw_i2c_read_byte_def read_bits_eq byte_at_def byte_of_def read_ops_def ack_ops_def sw_i2c_ack_def
    sw_i2c_no_ack_def pin_defs sda_cfg_def del: upt_Suc replicate.simps)

lemma conveys_read:
  assumes "scl p \<noteq> sda p"
  shows "\<exists>l'. conveys p l (read_ops p ack) (replicate 8 I_free @ [I_bit (\<not> ack)]) l' \<and> \<not> l_scl l'"
  using assms by (cases l) (auto simp: read_ops_def slot_ops_def ack_ops_def conveys_Cons sda_cfg_def eval_nat_numeral)

lemma conveys_reads_acked:
  assumes "scl p \<noteq> sda p"
  shows "\<exists>l'. conveys p l (concat (replicate m (read_ops p True))) (concat (replicate m (replicate 8 I_free @ [I_bit False]))) l'"
proof (induction m arbitrary: l)
  case (Suc m)
  obtain l1 where 1: "conveys p l (read_ops p True) (replicate 8 I_free @ [I_bit False]) l1" using conveys_read [OF assms, of l True] by auto
  obtain l2 where "conveys p l1 (concat (replicate m (read_ops p True))) (concat (replicate m (replicate 8 I_free @ [I_bit False]))) l2" using Suc by blast
  from conveys_append [OF 1 this] show ?case by auto
qed auto

lemma bytes_at_snoc: "bytes_at f k (Suc n) = bytes_at f k n @ [byte_at f (k + 8 * n)]"
  by (simp add: bytes_at_def)

lemma get_acked_eq:
  "m \<le> length buf \<Longrightarrow>
   foldM (\<lambda>i (buf, w). let (b, w) = sw_i2c_read_byte p True w in do { buf \<leftarrow> wr buf i b; Some (buf, w) }) [0..<m] (buf, w) =
     Some (bytes_at (sda_in w) (sda_reads w) m @ drop m buf,
       w\<lparr>gpio_ops := gpio_ops w @ concat (replicate m (read_ops p True)), sda_reads := sda_reads w + 8 * m\<rparr>)"
proof (induction m)
  case (Suc m)
  have d: "drop m buf = buf ! m # drop (Suc m) buf" using Suc.prems by (simp add: Cons_nth_drop_Suc)
  show ?case using Suc d
    by (simp add: foldM_snoc read_byte_eq wr_Some bytes_at_snoc concat_replicate_Suc list_update_append nth_append del: replicate.simps)
qed (simp add: bytes_at_def)

lemma get_loop_eq:
  assumes "0 < n" "n \<le> length buf"
  shows "sr_i2c_get_loop p n (buf, w) =
    Some (bytes_at (sda_in w) (sda_reads w) n @ drop n buf,
      w\<lparr>gpio_ops := gpio_ops w @ concat (replicate (n - 1) (read_ops p True)) @ read_ops p False, sda_reads := sda_reads w + 8 * n\<rparr>)"
proof -
  obtain m where n: "n = Suc m" using assms(1) by (cases n) auto
  have d: "drop m buf = buf ! m # drop (Suc m) buf" using assms(2) n by (simp add: Cons_nth_drop_Suc)
  show ?thesis using get_acked_eq [of m buf p w] assms(2) n d unfolding sr_i2c_get_loop_def n
    by (simp add: read_byte_eq wr_Some bytes_at_snoc list_update_append del: replicate.simps)
qed

text \<open>One byte and its acknowledge, on the lines.\<close>

definition put_ok_ops :: "TDD_I2C_PIN_T \<Rightarrow> u8 \<Rightarrow> nat \<Rightarrow> gpio_op list" where
  "put_ok_ops p b j = byte_ops p b @ [Gpio_write (scl p) False, Gpio_init (sda p) (sda_cfg True)] @ replicate (j + 1) (Gpio_read (sda p)) @
     [Gpio_write (scl p) True, Gpio_write (scl p) False]"

definition put_err_ops :: "TDD_I2C_PIN_T \<Rightarrow> u8 \<Rightarrow> gpio_op list" where
  "put_err_ops p b = byte_ops p b @ [Gpio_write (scl p) False, Gpio_init (sda p) (sda_cfg True)] @ replicate 11 (Gpio_read (sda p)) @ stop_seq p"

lemma put_checked:
  assumes "flags AND I2C_FLAG_NO_READ_ACK = 0" "flags AND I2C_FLAG_IGNORE_NACK = 0"
  shows "sw_i2c_put p flags b w =
    (case answer (sda_in w) (sda_reads w) 11 of
       Some j \<Rightarrow> (True, w\<lparr>gpio_ops := gpio_ops w @ put_ok_ops p b j, sda_reads := sda_reads w + j + 1\<rparr>)
     | None \<Rightarrow> (False, w\<lparr>gpio_ops := gpio_ops w @ put_err_ops p b, sda_reads := sda_reads w + 11\<rparr>))"
  using assms by (auto simp: sw_i2c_put_def send_byte_eq sw_i2c_get_ack_def wait_ack_eq pin_defs sda_cfg_def put_ok_ops_def put_err_ops_def
    replicate_append_same split: option.split)

lemma conveys_put_ok:
  assumes "scl p \<noteq> sda p"
  shows "\<exists>l'. conveys p l (put_ok_ops p b j) (map I_bit (msb_bits 8 b) @ [I_free]) l' \<and> \<not> l_scl l' \<and> \<not> l_out l'"
proof -
  obtain v where byte: "conveys p l (byte_ops p b) (map I_bit (msb_bits 8 b)) \<lparr>l_scl = False, l_sda = v, l_out = True\<rparr>"
    using conveys_byte [OF assms] by blast
  let ?l = "\<lparr>l_scl = False, l_sda = v, l_out = False\<rparr>"
  have "conveys p \<lparr>l_scl = False, l_sda = v, l_out = True\<rparr> [Gpio_write (scl p) False, Gpio_init (sda p) (sda_cfg True)] [] ?l"
    "conveys p ?l [Gpio_write (scl p) True, Gpio_write (scl p) False] [I_free] ?l"
    using assms by (simp_all add: conveys_Cons sda_cfg_def)
  moreover have "conveys p ?l (replicate (j + 1) (Gpio_read (sda p))) [] ?l" by (simp only: conveys_reads)
  ultimately have "conveys p l (put_ok_ops p b j) (map I_bit (msb_bits 8 b) @ [] @ [] @ [I_free]) ?l"
    unfolding put_ok_ops_def by (intro conveys_append [OF byte] conveys_append)
  then show ?thesis by auto
qed

section \<open>Transfers\<close>

lemma u16_len:
  assumes "0 < n" "n < 256"
  shows "(of_nat n :: u16) \<noteq> 0" "unat (ucast (of_nat n :: u16) :: u8) = n"
proof -
  have u: "unat (of_nat n :: u16) = n" using assms by (simp add: unat_of_nat)
  then show "(of_nat n :: u16) \<noteq> 0" using assms(1) by auto
  show "unat (ucast (of_nat n :: u16) :: u8) = n" using assms u by (simp add: unsigned_ucast_eq take_bit_nat_eq_self)
qed

text \<open>What a chip that is read sees on the lines from idle to idle.\<close>

definition read_syms :: "u8 \<Rightarrow> nat \<Rightarrow> i2c_sym list" where
  "read_syms addr n = [I_start] @ map I_bit (msb_bits 8 (push_bit 1 addr OR 1)) @ [I_free] @
     concat (replicate (n - 1) (replicate 8 I_free @ [I_bit False])) @ replicate 8 I_free @ [I_bit True, I_bit False, I_stop]"

lemma conveys_start_idle: "scl p \<noteq> sda p \<Longrightarrow> conveys p idle_lines (start_seq p) [I_start] \<lparr>l_scl = False, l_sda = False, l_out = True\<rparr>"
  by (simp add: start_seq_def conveys_Cons)

definition rd_msg :: "u8 \<Rightarrow> nat \<Rightarrow> u8 list \<Rightarrow> SR_I2C_MSG_T" where
  "rd_msg addr n buf = \<lparr>sm_flags = SR_I2C_FLAG_RD, sm_addr = ucast addr, sm_len = of_nat n, sm_buff = Some buf\<rparr>"

definition wr_msg :: "u8 \<Rightarrow> nat \<Rightarrow> u8 list \<Rightarrow> SR_I2C_MSG_T" where
  "wr_msg addr n buf = \<lparr>sm_flags = SR_I2C_FLAG_WR, sm_addr = ucast addr, sm_len = of_nat n, sm_buff = Some buf\<rparr>"

lemma ucast_u8_u16 [simp]: "ucast (ucast (a :: u8) :: u16) = a"
  by (rule bit_word_eqI) (simp add: bit_simps)

lemma read_xfer_eq:
  assumes p: "rd (sg_i2c_pin io) (unat port) = Some p" "\<not> port > 3" and n: "0 < n" "n < 256" "n \<le> length buf"
  shows "tdd_sensor_i2c_xfer port (Some (rd_msg addr n buf)) io =
    (case answer (sda_in (io_bus io)) (sda_reads (io_bus io)) 11 of
       None \<Rightarrow> Some (OPRT_COM_ERROR, Some (rd_msg addr n buf), io\<lparr>io_bus := (io_bus io)\<lparr>
         gpio_ops := gpio_ops (io_bus io) @ start_seq p @ put_err_ops p (push_bit 1 addr OR 1) @ stop_seq p,
         sda_reads := sda_reads (io_bus io) + 11\<rparr>\<rparr>)
     | Some j \<Rightarrow> Some (OPRT_OK, Some (rd_msg addr n (bytes_at (sda_in (io_bus io)) (sda_reads (io_bus io) + j + 1) n @ drop n buf)),
         io\<lparr>io_bus := (io_bus io)\<lparr>
         gpio_ops := gpio_ops (io_bus io) @ start_seq p @ put_ok_ops p (push_bit 1 addr OR 1) j @
           concat (replicate (n - 1) (read_ops p True)) @ read_ops p False @ stop_seq p,
         sda_reads := sda_reads (io_bus io) + j + 1 + 8 * n\<rparr>\<rparr>))"
proof -
  note u = u16_len [OF n(1,2)]
  define w where "w = sw_i2c_start p (io_bus io)"
  have w: "gpio_ops w = gpio_ops (io_bus io) @ start_seq p" "sda_in w = sda_in (io_bus io)" "sda_reads w = sda_reads (io_bus io)"
    "\<And>ops k. w\<lparr>gpio_ops := ops, sda_reads := k\<rparr> = (io_bus io)\<lparr>gpio_ops := ops, sda_reads := k\<rparr>"
    by (simp_all add: w_def start_ops start_seq_def)
  have "sr_i2c_read_data port addr buf (ucast (of_nat n :: u16)) SR_I2C_FLAG_RD io =
    (case answer (sda_in w) (sda_reads w) 11 of
       None \<Rightarrow> Some (-1, buf, io\<lparr>io_bus := w\<lparr>gpio_ops := gpio_ops w @ put_err_ops p (push_bit 1 addr OR 1) @ stop_seq p, sda_reads := sda_reads w + 11\<rparr>\<rparr>)
     | Some j \<Rightarrow> Some (0, bytes_at (sda_in w) (sda_reads w + j + 1) n @ drop n buf,
         io\<lparr>io_bus := w\<lparr>gpio_ops := gpio_ops w @ put_ok_ops p (push_bit 1 addr OR 1) j @
           concat (replicate (n - 1) (read_ops p True)) @ read_ops p False @ stop_seq p, sda_reads := sda_reads w + j + 1 + 8 * n\<rparr>\<rparr>))"
    using p(1) put_checked [of SR_I2C_FLAG_RD p "push_bit 1 addr OR 1" w] u(2) n
    by (auto simp: sr_i2c_read_data_def w_def [symmetric] get_loop_eq stop_ops stop_seq_def split: option.split)
  then show ?thesis using p(2) u(1) w
    by (auto simp: tdd_sensor_i2c_xfer_def rd_msg_def split: option.split)
qed

lemma conveys_read_xfer:
  assumes p: "scl p \<noteq> sda p"
  shows "conveys p idle_lines (start_seq p @ put_ok_ops p (push_bit 1 addr OR 1) j @
     concat (replicate (n - 1) (read_ops p True)) @ read_ops p False @ stop_seq p) (read_syms addr n) idle_lines"
proof -
  obtain l1 where 1: "conveys p \<lparr>l_scl = False, l_sda = False, l_out = True\<rparr> (put_ok_ops p (push_bit 1 addr OR 1) j)
    (map I_bit (msb_bits 8 (push_bit 1 addr OR 1)) @ [I_free]) l1" using conveys_put_ok [OF p] by blast
  obtain l2 where 2: "conveys p l1 (concat (replicate (n - 1) (read_ops p True))) (concat (replicate (n - 1) (replicate 8 I_free @ [I_bit False]))) l2"
    using conveys_reads_acked [OF p] by blast
  obtain l3 where 3: "conveys p l2 (read_ops p False) (replicate 8 I_free @ [I_bit True]) l3" using conveys_read [OF p, of l2 False] by auto
  show ?thesis
    using conveys_append [OF conveys_start_idle [OF p] conveys_append [OF 1 conveys_append [OF 2 conveys_append [OF 3 conveys_stop [OF p]]]]]
    by (simp add: read_syms_def)
qed

text \<open>A write is the loop over the address and the bytes.\<close>

lemma put_loop_shift: "sw_i2c_put_loop p flags (x # buf) (map Suc is) w = sw_i2c_put_loop p flags buf is w"
  by (induction "is" arbitrary: w) (simp_all add: rd_def case_prod_beta' Let_def)

lemma write_as_loop:
  assumes "flags AND I2C_FLAG_NO_START = 0" "flags AND I2C_FLAG_NO_ADDR = 0"
  shows "sw_i2c_write_data p addr buf len flags w =
    sw_i2c_put_loop p flags (push_bit 1 addr # buf) [0..<Suc (unat len)] (sw_i2c_start p w)"
proof -
  have "[0..<Suc (unat len)] = 0 # map Suc [0..<unat len]" by (simp only: upt_conv_Cons map_Suc_upt zero_less_Suc)
  then show ?thesis using assms by (simp add: sw_i2c_write_data_def put_loop_shift rd_def case_prod_beta' Let_def del: upt_Suc)
qed

lemma put_loop_code: "sw_i2c_put_loop p flags buf is w = Some (r, w') \<Longrightarrow> r = 0 \<or> r = -1"
  by (induction "is" arbitrary: w) (auto split: prod.splits if_splits bind_splits)

lemma write_xfer_eq:
  assumes p: "rd (sg_i2c_pin io) (unat port) = Some p" "\<not> port > 3" "scl p \<noteq> sda p" and n: "0 < n" "n < 256" "n \<le> length buf"
    and tk_def: "tk = taken False (sda_in (io_bus io)) (sda_reads (io_bus io)) (push_bit 1 addr # take n buf)"
  shows "\<exists>w' ops. tdd_sensor_i2c_xfer port (Some (wr_msg addr n buf)) io =
      Some (if snd tk then OPRT_OK else OPRT_COM_ERROR, Some (wr_msg addr n buf), io\<lparr>io_bus := w'\<rparr>) \<and>
    gpio_ops w' = gpio_ops (io_bus io) @ ops \<and> sda_in w' = sda_in (io_bus io) \<and> lines_after p idle_lines ops = idle_lines \<and>
    (\<forall>t. receive None (watch p idle_lines ops @ t) = fst tk # receive None t)"
proof -
  note u = u16_len [OF n(1,2)]
  define w where "w = sw_i2c_start p (io_bus io)"
  have w: "gpio_ops w = gpio_ops (io_bus io) @ start_seq p" "sda_in w = sda_in (io_bus io)" "sda_reads w = sda_reads (io_bus io)"
    by (simp_all add: w_def start_ops start_seq_def)
  have "[0..<Suc n] = 0 # map Suc [0..<n]" by (simp only: upt_conv_Cons map_Suc_upt zero_less_Suc)
  then have idx: "map (rd (push_bit 1 addr # buf)) [0..<Suc n] = map Some (push_bit 1 addr # take n buf)"
    using n(3) by (auto simp: rd_def intro!: nth_equalityI simp del: upt_Suc)
  obtain s l1 where start: "conveys p idle_lines (start_seq p) s l1" "\<And>t. receive None (s @ t) = receive (Some ([], [])) t"
    using conveys_start [OF p(3), of idle_lines] by auto
  obtain r w2 ops s2 where loop: "sw_i2c_put_loop p SR_I2C_FLAG_WR (push_bit 1 addr # buf) [0..<Suc n] w = Some (r, w2)"
    "gpio_ops w2 = gpio_ops w @ ops" "sda_in w2 = sda_in w" "conveys p l1 ops s2 idle_lines"
    "(r = 0) = snd (taken False (sda_in w) (sda_reads w) (push_bit 1 addr # take n buf))"
    "\<And>bytes t. receive (Some ([], bytes)) (s2 @ t) =
      (bytes @ fst (taken False (sda_in w) (sda_reads w) (push_bit 1 addr # take n buf))) # receive None t"
    using put_loop_received [OF p(3) _ idx, of SR_I2C_FLAG_WR w l1] by auto
  have r: "r = 0 \<or> r = -1" using loop(1) by (rule put_loop_code)
  have "sr_i2c_write_data port addr buf (ucast (of_nat n :: u16)) SR_I2C_FLAG_WR io = Some (r, io\<lparr>io_bus := w2\<rparr>)"
    using p(1) loop(1) u(2) write_as_loop [of SR_I2C_FLAG_WR p addr buf "ucast (of_nat n :: u16)" "io_bus io"]
    by (simp add: sr_i2c_write_data_def w_def)
  then have "tdd_sensor_i2c_xfer port (Some (wr_msg addr n buf)) io =
    Some (if snd tk then OPRT_OK else OPRT_COM_ERROR, Some (wr_msg addr n buf), io\<lparr>io_bus := w2\<rparr>)"
    using p(2) u(1) loop(5) r w by (auto simp: tdd_sensor_i2c_xfer_def wr_msg_def tk_def)
  moreover have "gpio_ops w2 = gpio_ops (io_bus io) @ start_seq p @ ops" using w(1) loop(2) by simp
  ultimately show ?thesis
    using conveys_append [OF start(1) loop(4)] loop(3) loop(6) [of "[]"] start(2) w
    unfolding conveys_def tk_def by (intro exI [of _ w2] exI [of _ "start_seq p @ ops"]) simp
qed

text \<open>Every transfer ends: the loops are bounded, whatever the lines do.\<close>

lemma put_loop_total: "\<forall>i \<in> set is. i < length buf \<Longrightarrow> \<exists>r w'. sw_i2c_put_loop p flags buf is w = Some (r, w')"
proof (induction "is" arbitrary: w)
  case (Cons i "is")
  then show ?case by (cases "sw_i2c_put p flags (buf ! i) w") (auto simp: rd_Some)
qed auto

lemma get_loop_total: "n \<le> length buf \<Longrightarrow> buf \<noteq> [] \<Longrightarrow> \<exists>buf' w'. sr_i2c_get_loop p n (buf, w) = Some (buf', w') \<and> length buf' = length buf"
proof (cases "n = 0")
  case True
  assume "buf \<noteq> []"
  then show ?thesis using True by (auto simp: sr_i2c_get_loop_def read_byte_eq wr_Some)
qed (auto simp: get_loop_eq)

lemma xfer_total:
  assumes "length (sg_i2c_pin io) = 4" "sm_buff m = Some buf" "unat (ucast (sm_len m) :: u8) \<le> length buf" "buf \<noteq> []"
  shows "\<exists>r buf' w. tdd_sensor_i2c_xfer port (Some m) io = Some (r, Some (m\<lparr>sm_buff := Some buf'\<rparr>), io\<lparr>io_bus := w\<rparr>) \<and> length buf' = length buf"
proof (cases "port > 3 \<or> sm_len m = 0")
  case True
  then show ?thesis using assms(2) by (auto simp: tdd_sensor_i2c_xfer_def intro!: exI [of _ buf] exI [of _ "io_bus io"])
next
  case False
  then have "unat port < 4" by (simp add: not_less word_le_nat_alt)
  then obtain p where p: "rd (sg_i2c_pin io) (unat port) = Some p" using assms(1) by (simp add: rd_def)
  let ?a = "ucast (sm_addr m) :: u8" and ?n = "ucast (sm_len m) :: u8"
  have wr: "\<exists>r w'. sr_i2c_write_data port ?a buf ?n (sm_flags m) io = Some (r, io\<lparr>io_bus := w'\<rparr>)"
  proof -
    have "\<exists>r w'. sw_i2c_write_data p ?a buf ?n (sm_flags m) w = Some (r, w')" for w
      using put_loop_total [of "[0..<unat ?n]" buf] assms(3) by (auto simp: sw_i2c_write_data_def Let_def case_prod_beta')
    then obtain r w' where "sw_i2c_write_data p ?a buf ?n (sm_flags m) (io_bus io) = Some (r, w')" by blast
    then show ?thesis using p by (intro exI [of _ r] exI [of _ w']) (simp add: sr_i2c_write_data_def)
  qed
  have rdd: "\<exists>r buf' w'. sr_i2c_read_data port ?a buf ?n (sm_flags m) (io\<lparr>io_bus := w\<rparr>) = Some (r, buf', io\<lparr>io_bus := w'\<rparr>) \<and> length buf' = length buf" for w
  proof -
    let ?w = "if sm_flags m AND I2C_FLAG_NO_START = 0 then sw_i2c_start p w else w"
    obtain ok v where ok: "(if sm_flags m AND I2C_FLAG_NO_ADDR = 0 then sw_i2c_put p (sm_flags m) (push_bit 1 ?a OR 1) ?w else (True, ?w)) = (ok, v)" by force
    obtain b v' where "sr_i2c_get_loop p (unat ?n) (buf, v) = Some (b, v')" "length b = length buf" using get_loop_total [OF assms(3,4)] by blast
    then show ?thesis using p ok unfolding sr_i2c_read_data_def by (cases ok) (auto simp: Let_def)
  qed
  obtain r1 w1 where 1: "(if sm_flags m AND SR_I2C_FLAG_WR \<noteq> 0 then sr_i2c_write_data port ?a buf ?n (sm_flags m) io else Some (0, io)) = Some (r1, io\<lparr>io_bus := w1\<rparr>)"
    using wr by (cases "sm_flags m AND SR_I2C_FLAG_WR \<noteq> 0") (auto intro: that [of 0 "io_bus io"])
  obtain r2 b2 w2 where 2: "(if sm_flags m AND SR_I2C_FLAG_RD \<noteq> 0 then sr_i2c_read_data port ?a buf ?n (sm_flags m) (io\<lparr>io_bus := w1\<rparr>)
      else Some (0, buf, io\<lparr>io_bus := w1\<rparr>)) = Some (r2, b2, io\<lparr>io_bus := w2\<rparr>)" "length b2 = length buf"
    using rdd [of w1] by (cases "sm_flags m AND SR_I2C_FLAG_RD \<noteq> 0") (auto intro: that [of 0 buf w1])
  have "tdd_sensor_i2c_xfer port (Some m) io =
    Some (if r1 < 0 then (OPRT_COM_ERROR, Some m, io\<lparr>io_bus := w1\<rparr>)
          else (if r2 < 0 then OPRT_COM_ERROR else OPRT_OK, Some (m\<lparr>sm_buff := Some b2\<rparr>), io\<lparr>io_bus := w2\<rparr>))"
    using False assms(2) 1 2(1) unfolding tdd_sensor_i2c_xfer_def by (simp add: Let_def)
  moreover have "Some m = Some (m\<lparr>sm_buff := Some buf\<rparr>)" using assms(2) by simp
  ultimately show ?thesis using 2(2) by (cases "r1 < 0") (auto intro!: exI)
qed

section \<open>A chip that is read\<close>

text \<open>
  A chip that acknowledges its address at the \<open>j\<close>-th look after the first and then puts out its bytes, most significant bit
  first, one bit for each look of the master.
\<close>

definition answers_with :: "(nat \<Rightarrow> bool) \<Rightarrow> nat \<Rightarrow> nat \<Rightarrow> u8 list \<Rightarrow> bool" where
  "answers_with f k j data \<longleftrightarrow> j \<le> 10 \<and> (\<forall>i < j. f (k + i)) \<and> \<not> f (k + j) \<and>
     (\<forall>i < length data. \<forall>b < 8. f (k + j + 1 + 8 * i + b) = bit (data ! i) (7 - b))"

lemma answer_at: "(\<And>i. i < j \<Longrightarrow> f (k + i)) \<Longrightarrow> \<not> f (k + j) \<Longrightarrow> j < n \<Longrightarrow> answer f k n = Some j"
proof (induction n arbitrary: k j)
  case (Suc n)
  show ?case
  proof (cases j)
    case (Suc i)
    have "answer f (k + 1) n = Some i" by (rule Suc.IH) (use Suc Suc.prems(1) [of "Suc m" for m] Suc.prems in auto)
    moreover have "f k" using Suc.prems(1) [of 0] Suc by simp
    ultimately show ?thesis using Suc by simp
  qed (use Suc.prems in simp)
qed simp

lemma byte_at_eq: "(\<And>b. b < 8 \<Longrightarrow> f (k + b) = bit d (7 - b)) \<Longrightarrow> byte_at f k = d"
proof -
  assume "\<And>b. b < 8 \<Longrightarrow> f (k + b) = bit d (7 - b)"
  then have "map (\<lambda>j. f (k + j)) [0..<8] = msb_bits 8 d" by (simp add: msb_bits_nth)
  then show ?thesis by (simp add: byte_at_def)
qed

lemma answers_with_bytes:
  assumes "answers_with f k j data"
  shows "answer f k 11 = Some j" "bytes_at f (k + j + 1) (length data) = data"
proof -
  show "answer f k 11 = Some j" using assms by (intro answer_at) (auto simp: answers_with_def)
  have "byte_at f (k + j + 1 + 8 * i) = data ! i" if "i < length data" for i
    using assms that by (intro byte_at_eq) (auto simp: answers_with_def)
  then show "bytes_at f (k + j + 1) (length data) = data" by (intro nth_equalityI) (simp_all add: bytes_at_def)
qed

text \<open>C22: A read transfer on the sensor bus brings in exactly the bytes the chip puts out. For a chip that acknowledges its address within
  eleven looks, the call returns \<^verbatim>\<open>OPRT_OK\<close>, the buffer begins with the chip's bytes and keeps the rest, and the lines show
  from idle to idle one start condition, the address with the read bit, the acknowledge of every byte but the last and one
  stop condition, which is when the chip lets go of the bus.\<close>

theorem sensor_i2c_read:
  assumes "port \<le> 3" and "rd (sg_i2c_pin io) (unat port) = Some p" and "scl p \<noteq> sda p"
    and "data \<noteq> []" and "length data < 256" and "length data \<le> length buf"
    and "answers_with (sda_in (io_bus io)) (sda_reads (io_bus io)) j data"
  shows "\<exists>w' ops. tdd_sensor_i2c_xfer port (Some (rd_msg addr (length data) buf)) io =
      Some (OPRT_OK, Some (rd_msg addr (length data) (data @ drop (length data) buf)), io\<lparr>io_bus := w'\<rparr>) \<and>
    gpio_ops w' = gpio_ops (io_bus io) @ ops \<and> watch p idle_lines ops = read_syms addr (length data) \<and> lines_after p idle_lines ops = idle_lines"
proof -
  have n: "0 < length data" "\<not> port > 3" using assms(1,4) by auto
  note a = answers_with_bytes [OF assms(7)]
  show ?thesis
    using read_xfer_eq [OF assms(2) n(2,1) assms(5,6), of addr] conveys_read_xfer [OF assms(3), of addr j "length data"] a
    by (auto simp: conveys_def)
qed

definition ex_io :: "(nat \<Rightarrow> bool) \<Rightarrow> sr_io" where
  "ex_io f = \<lparr>sg_i2c_pin = replicate 4 ex_pins, io_bus = ex_bus f, io_irq_ret = (\<lambda>_. OPRT_OK), io_irqs = [], io_sleeps = [], io_junk = (\<lambda>_ _. 0xA5),
     io_adc_ret = (\<lambda>_. (OPRT_OK, 1200)), io_adcs = []\<rparr>"

theorem sensor_i2c_read_witness:
  "\<exists>w' ops. tdd_sensor_i2c_xfer 2 (Some (rd_msg 0x44 2 [0, 0, 9])) (ex_io (\<lambda>k. k = 0 \<or> k = 3 \<or> 10 \<le> k)) =
      Some (OPRT_OK, Some (rd_msg 0x44 2 [0x40, 0xFF, 9]), (ex_io (\<lambda>k. k = 0 \<or> k = 3 \<or> 10 \<le> k))\<lparr>io_bus := w'\<rparr>) \<and>
    gpio_ops w' = ops \<and> watch ex_pins idle_lines ops = read_syms 0x44 2 \<and> lines_after ex_pins idle_lines ops = idle_lines"
proof -
  have "answers_with (\<lambda>k. k = 0 \<or> k = 3 \<or> 10 \<le> k) 0 1 [0x40, 0xFF]"
    by (simp add: answers_with_def All_less_Suc eval_nat_numeral)
  moreover have "rd (sg_i2c_pin (ex_io f)) (unat (2 :: u8)) = Some ex_pins" "io_bus (ex_io f) = ex_bus f" "sda_in (ex_bus f) = f"
    "sda_reads (ex_bus f) = 0" "gpio_ops (ex_bus f) = []" "scl ex_pins \<noteq> sda ex_pins" "(2 :: u8) \<le> 3" for f
    by (simp_all add: ex_io_def ex_bus_def ex_pins_def rd_def)
  ultimately show ?thesis
    using sensor_i2c_read [where port = 2 and io = "ex_io (\<lambda>k. k = 0 \<or> k = 3 \<or> 10 \<le> k)" and p = ex_pins and data = "[0x40, 0xFF]" and buf = "[0, 0, 9]"
      and j = 1 and addr = "0x44"] by (simp add: numeral_2_eq_2)
qed

end
