(* ===== verification/Sensor_Crc.thy ===== *)
theory Sensor_Crc
  imports Dimmer_I2C
begin

text \<open>
  The check byte of the Sensirion chips, from \<^verbatim>\<open>__sht3x_get_crc8\<close> of \<^verbatim>\<open>tdd_sensor_sht3x.c\<close> and its copy in \<^verbatim>\<open>tdd_sensor_sht4x.c\<close>, and
  the algebra that tells which errors it shows.
\<close>

section \<open>The check byte\<close>

definition crc8_bit :: "u8 \<Rightarrow> u8" where
  "crc8_bit crc = (if crc AND 0x80 \<noteq> 0 then push_bit 1 crc XOR 0x31 else push_bit 1 crc)"

definition crc8_byte :: "u8 \<Rightarrow> u8 \<Rightarrow> u8" where
  "crc8_byte crc b = (crc8_bit ^^ 8) (crc XOR b)"

section \<open>Errors that the check byte shows\<close>

lemma crc8_bit_eq: "crc8_bit x = push_bit 1 x XOR (if bit x 7 then 0x31 else 0)"
  by (simp add: crc8_bit_def and_msb)

lemma crc8_bit_xor: "crc8_bit (x XOR y) = crc8_bit x XOR crc8_bit y"
proof -
  have "push_bit 1 (x XOR y) = push_bit 1 x XOR push_bit 1 y" by (simp only: push_bit_xor)
  then show ?thesis by (cases "bit x 7"; cases "bit y 7") (simp_all add: crc8_bit_eq bit_xor_iff ac_simps)
qed

lemma crc8_bits_xor: "(crc8_bit ^^ n) (x XOR y) = (crc8_bit ^^ n) x XOR (crc8_bit ^^ n) y"
  by (induction n) (simp_all add: crc8_bit_xor)

lemma crc8_bit_zero: "crc8_bit x = 0 \<longleftrightarrow> x = 0"
proof
  assume z: "crc8_bit x = 0"
  have 7: "\<not> bit x 7"
  proof
    assume "bit x 7"
    then have "bit (crc8_bit x) 0" by (simp only: crc8_bit_eq bit_xor_iff bit_shl1) simp
    then show False using z by simp
  qed
  then have "push_bit 1 x = 0" using z by (simp add: crc8_bit_eq)
  show "x = 0"
  proof (rule bit_word_eqI)
    fix k assume "k < LENGTH(8)"
    then consider "k = 7" | "k < 7" by fastforce
    then show "bit x k = bit 0 k"
    proof cases
      case 2
      have "\<not> bit (push_bit 1 x) (k + 1)" using \<open>push_bit 1 x = 0\<close> by simp
      then show ?thesis using 2 by (simp only: bit_shl1) simp
    qed (use 7 in simp)
  qed
qed (simp add: crc8_bit_def)

lemma crc8_bits_zero: "(crc8_bit ^^ n) x = 0 \<longleftrightarrow> x = 0"
  by (induction n) (simp_all add: crc8_bit_zero)

lemma crc8_bits_shift: "n \<le> 8 \<Longrightarrow> (\<And>k. 8 - n \<le> k \<Longrightarrow> \<not> bit x k) \<Longrightarrow> (crc8_bit ^^ n) x = push_bit n x"
proof (induction n)
  case (Suc n)
  have "(crc8_bit ^^ n) x = push_bit n x" by (rule Suc.IH) (use Suc.prems in auto)
  moreover have "\<not> bit (push_bit n x) 7" using Suc.prems(1) Suc.prems(2) [of "7 - n"] by (simp only: bit_shl) auto
  ultimately have "(crc8_bit ^^ Suc n) x = push_bit 1 (push_bit n x)" by (simp only: funpow.simps comp_apply crc8_bit_eq) simp
  then show ?case by (simp only: push_bit_push_bit) simp
qed simp

text \<open>The bits that cross from one byte into the next, seen as one row.\<close>

lemma crc8_window:
  assumes "t \<le> 8"
  shows "(crc8_bit ^^ 8) (drop_bit (8 - t) p) XOR push_bit t p = (crc8_bit ^^ t) (p :: u8)"
proof -
  let ?hi = "push_bit (8 - t) (drop_bit (8 - t) p)" and ?lo = "p XOR push_bit (8 - t) (drop_bit (8 - t) p)"
  have lo: "bit ?lo k \<longleftrightarrow> k < 8 - t \<and> bit p k" for k
    using assms bit_above [of k p] by (simp only: bit_xor_iff bit_shl bit_drop_bit_eq comp_apply) (cases "k < 8"; auto)
  have "(crc8_bit ^^ t) p = (crc8_bit ^^ t) ?hi XOR (crc8_bit ^^ t) ?lo"
    by (simp only: crc8_bits_xor [symmetric]) (simp add: xor.left_commute)
  moreover have "(crc8_bit ^^ (8 - t)) (drop_bit (8 - t) p) = ?hi"
    by (rule crc8_bits_shift) (use assms bit_above in \<open>auto simp: bit_drop_bit_eq\<close>)
  then have "(crc8_bit ^^ t) ?hi = (crc8_bit ^^ 8) (drop_bit (8 - t) p)"
    using assms by (metis comp_apply funpow_add le_add_diff_inverse)
  moreover have "(crc8_bit ^^ t) ?lo = push_bit t ?lo" by (rule crc8_bits_shift [OF assms]) (use lo in auto)
  moreover have "push_bit t ?lo = push_bit t p"
    by (rule bit_word_eqI) (simp only: bit_shl lo, use assms in auto)
  ultimately show ?thesis by simp
qed

text \<open>What the check makes of an error in the two data bytes and the check byte; zero means that it goes unseen.\<close>

definition syndrome :: "u8 \<Rightarrow> u8 \<Rightarrow> u8 \<Rightarrow> u8" where
  "syndrome x y z = (crc8_bit ^^ 8) ((crc8_bit ^^ 8) x XOR y) XOR z"

lemma syndrome_low: "t \<le> 8 \<Longrightarrow> syndrome 0 (drop_bit (8 - t) p) (push_bit t p) = (crc8_bit ^^ t) p"
proof -
  have "(crc8_bit ^^ 8) 0 = 0" by (simp only: crc8_bits_zero)
  then show "t \<le> 8 \<Longrightarrow> ?thesis" by (simp only: syndrome_def xor.left_neutral crc8_window)
qed

lemma syndrome_high: "t \<le> 8 \<Longrightarrow> syndrome (drop_bit (8 - t) p) (push_bit t p) 0 = (crc8_bit ^^ (8 + t)) p"
  by (simp only: syndrome_def xor.right_neutral crc8_window funpow_add comp_apply)

lemma xor_cancel: "n XOR s = n XOR z \<longleftrightarrow> s XOR z = 0" for n s :: u8
proof
  assume "n XOR s = n XOR z"
  then have "n XOR (n XOR s) = n XOR (n XOR z)" by simp
  then show "s XOR z = 0" by (simp only: xor.assoc [symmetric] xor_self_eq xor.left_neutral)
next
  assume "s XOR z = 0"
  then have "(s XOR z) XOR z = z" by simp
  then show "n XOR s = n XOR z" by (simp only: xor.assoc xor_self_eq xor.right_neutral)
qed

lemma syndrome_check:
  "crc8_byte (crc8_byte i (a XOR x)) (b XOR y) = crc8_byte (crc8_byte i a) b XOR z \<longleftrightarrow> syndrome x y z = 0"
proof -
  let ?n = "crc8_byte (crc8_byte i a) b" and ?s = "(crc8_bit ^^ 8) ((crc8_bit ^^ 8) x XOR y)"
  have "crc8_byte (crc8_byte i (a XOR x)) (b XOR y) = (crc8_bit ^^ 8) (((crc8_bit ^^ 8) (i XOR a) XOR b) XOR ((crc8_bit ^^ 8) x XOR y))"
    by (simp only: crc8_byte_def crc8_bits_xor ac_simps)
  also have "\<dots> = ?n XOR ?s" by (simp only: crc8_byte_def crc8_bits_xor)
  finally have e: "crc8_byte (crc8_byte i (a XOR x)) (b XOR y) = ?n XOR ?s" .
  show ?thesis unfolding e xor_cancel syndrome_def ..
qed

text \<open>An error in the 24 bits on the wire: a burst of up to eight bits anywhere, or any two bits.\<close>

definition err_bytes :: "u32 \<Rightarrow> u8 \<times> u8 \<times> u8" where
  "err_bytes e = (ucast (drop_bit 16 e), ucast (drop_bit 8 e), ucast e)"

definition wire_error :: "u32 \<Rightarrow> bool" where
  "wire_error e \<longleftrightarrow> (\<exists>s p. s \<le> 16 \<and> p \<noteq> (0 :: u8) \<and> e = push_bit s (ucast p)) \<or> (\<exists>i j. i < j \<and> j < 24 \<and> e = push_bit i 1 XOR push_bit j 1)"

lemma bit_burst: "bit (ucast (drop_bit n (push_bit s (ucast (p :: u8)) :: u32)) :: u8) k \<longleftrightarrow> k < 8 \<and> n + k < 32 \<and> s \<le> n + k \<and> bit p (n + k - s)"
  by (simp only: bit_ucast_iff bit_drop_bit_eq comp_apply bit_push_bit_iff) (auto dest: bit_imp_le_length)

lemma burst_low:
  assumes "s \<le> 8"
  shows "err_bytes (push_bit s (ucast p)) = (0, drop_bit (8 - s) p, push_bit s p)"
proof -
  have "ucast (drop_bit 16 (push_bit s (ucast p) :: u32)) = (0 :: u8)"
    by (rule bit_word_eqI) (simp only: bit_burst, use assms bit_above in auto)
  moreover have "ucast (drop_bit 8 (push_bit s (ucast p) :: u32)) = drop_bit (8 - s) p"
    by (rule bit_word_eqI) (simp only: bit_burst bit_drop_bit_eq comp_apply, use assms bit_above in auto)
  moreover have "ucast (drop_bit 0 (push_bit s (ucast p) :: u32)) = push_bit s p"
    by (rule bit_word_eqI) (simp only: bit_burst bit_shl, use assms bit_above in auto)
  ultimately show ?thesis by (simp add: err_bytes_def)
qed

lemma burst_high:
  assumes "t \<le> 8"
  shows "err_bytes (push_bit (8 + t) (ucast p)) = (drop_bit (8 - t) p, push_bit t p, 0)"
proof -
  have "ucast (drop_bit 16 (push_bit (8 + t) (ucast p) :: u32)) = drop_bit (8 - t) p"
    by (rule bit_word_eqI) (simp only: bit_burst bit_drop_bit_eq comp_apply, use assms bit_above in auto)
  moreover have "ucast (drop_bit 8 (push_bit (8 + t) (ucast p) :: u32)) = push_bit t p"
    by (rule bit_word_eqI) (simp only: bit_burst bit_shl, use assms bit_above in auto)
  moreover have "ucast (drop_bit 0 (push_bit (8 + t) (ucast p) :: u32)) = (0 :: u8)"
    by (rule bit_word_eqI) (simp only: bit_burst, use assms in auto)
  ultimately show ?thesis by (simp add: err_bytes_def)
qed

text \<open>A single bit, counted from the end of the check byte.\<close>

definition syn :: "u32 \<Rightarrow> u8" where
  "syn e = (case err_bytes e of (x, y, z) \<Rightarrow> syndrome x y z)"

lemma syn_xor: "syn (d XOR e) = syn d XOR syn e"
proof -
  have u: "ucast (d XOR e) = (ucast d XOR ucast e :: u8)" for d e :: u32 by (rule bit_word_eqI) (simp add: bit_simps)
  have "syndrome (a XOR x) (b XOR y) (c XOR z) = syndrome a b c XOR syndrome x y z" for a b c x y z
    by (simp only: syndrome_def crc8_bits_xor ac_simps)
  then show ?thesis by (simp only: syn_def err_bytes_def prod.case drop_bit_xor u)
qed

lemma syn_burst:
  assumes "s \<le> 16" shows "syn (push_bit s (ucast (p :: u8))) = (crc8_bit ^^ s) p"
proof (cases "s \<le> 8")
  case True
  then show ?thesis by (simp only: syn_def burst_low prod.case syndrome_low)
next
  case False
  define t where "t = s - 8"
  have t: "s = 8 + t" "t \<le> 8" using assms False by (auto simp: t_def)
  show ?thesis unfolding t(1) by (simp only: syn_def burst_high [OF t(2)] prod.case syndrome_high [OF t(2)])
qed

lemma syn_bit: "i < 24 \<Longrightarrow> syn (push_bit i 1) = (crc8_bit ^^ i) 1"
proof (cases "i \<le> 16")
  case True
  then show ?thesis using syn_burst [OF True, of 1] by simp
next
  case False
  assume i: "i < 24"
  define t where "t = i - 16"
  have t: "i = 16 + t" "t \<le> 7" using i False by (auto simp: t_def)
  have "(crc8_bit ^^ t) 1 = push_bit t 1" by (rule crc8_bits_shift) (use t(2) in \<open>auto simp: bit_1_iff\<close>)
  moreover have "push_bit i 1 = push_bit 16 (ucast (push_bit t 1 :: u8) :: u32)"
    by (rule bit_word_eqI) (use t in \<open>auto simp: bit_simps\<close>)
  ultimately show ?thesis using syn_burst [of 16 "push_bit t 1"] unfolding t(1) by (simp only: funpow_add comp_apply)
qed

primrec orbit :: "nat \<Rightarrow> u8 \<Rightarrow> u8 list" where
  "orbit 0 x = []"
| "orbit (Suc n) x = x # orbit n (crc8_bit x)"

lemma orbit_mem: "d < n \<Longrightarrow> (crc8_bit ^^ d) x \<in> set (orbit n x)"
proof (induction n arbitrary: d x)
  case (Suc n)
  then show ?case using Suc.IH [of "d - 1" "crc8_bit x"] by (cases d) (simp_all add: funpow_swap1)
qed simp

lemma crc8_steps: "crc8_bit 0x2 = 0x4" "crc8_bit 0x4 = 0x8" "crc8_bit 0x8 = 0x10" "crc8_bit 0x10 = 0x20" "crc8_bit 0x20 = 0x40" "crc8_bit 0x40 = 0x80"
    "crc8_bit 0x80 = 0x31" "crc8_bit 0x31 = 0x62" "crc8_bit 0x62 = 0xc4" "crc8_bit 0xc4 = 0xb9" "crc8_bit 0xb9 = 0x43" "crc8_bit 0x43 = 0x86"
    "crc8_bit 0x86 = 0x3d" "crc8_bit 0x3d = 0x7a" "crc8_bit 0x7a = 0xf4" "crc8_bit 0xf4 = 0xd9" "crc8_bit 0xd9 = 0x83" "crc8_bit 0x83 = 0x37"
    "crc8_bit 0x37 = 0x6e" "crc8_bit 0x6e = 0xdc" "crc8_bit 0xdc = 0x89" "crc8_bit 0x89 = 0x23"
  by (simp_all add: crc8_bit_def)

lemma crc8_order: "d \<in> {1..23} \<Longrightarrow> (crc8_bit ^^ d) 1 \<noteq> 1"
proof -
  have c: "orbit 23 2 = [0x2, 0x4, 0x8, 0x10, 0x20, 0x40, 0x80, 0x31, 0x62, 0xc4, 0xb9, 0x43, 0x86, 0x3d, 0x7a, 0xf4, 0xd9, 0x83, 0x37, 0x6e, 0xdc, 0x89, 0x23]" by (simp add: eval_nat_numeral crc8_steps)
  assume d: "d \<in> {1..23}"
  then have "(crc8_bit ^^ (d - 1)) 2 \<in> set (orbit 23 2)" by (intro orbit_mem) auto
  moreover have "(crc8_bit ^^ d) 1 = (crc8_bit ^^ (d - 1)) 2" using d by (cases d) (simp_all add: funpow_swap1 crc8_bit_def)
  ultimately show ?thesis unfolding c by auto
qed

text \<open>No error of these kinds goes unseen.\<close>

lemma wire_error_shown:
  assumes "wire_error e" shows "syn e \<noteq> 0"
  using assms unfolding wire_error_def
proof (elim disjE exE conjE)
  fix s and p :: u8
  assume "s \<le> 16" "p \<noteq> 0" "e = push_bit s (ucast p)"
  then show ?thesis by (simp only: syn_burst crc8_bits_zero not_False_eq_True)
next
  fix i j
  assume a: "i < j" "j < 24" "e = push_bit i 1 XOR push_bit j 1"
  have "syn e = (crc8_bit ^^ i) 1 XOR (crc8_bit ^^ (i + (j - i))) 1" using a by (simp only: syn_xor syn_bit) (simp add: syn_bit)
  also have "\<dots> = (crc8_bit ^^ i) (1 XOR (crc8_bit ^^ (j - i)) 1)" by (simp only: crc8_bits_xor funpow_add comp_apply)
  finally have e: "syn e = (crc8_bit ^^ i) (1 XOR (crc8_bit ^^ (j - i)) 1)" .
  have "(crc8_bit ^^ (j - i)) 1 \<noteq> 1" by (rule crc8_order) (use a in auto)
  then have "1 XOR (crc8_bit ^^ (j - i)) 1 \<noteq> 0" using xor_cancel [of 0 1 "(crc8_bit ^^ (j - i)) 1"] by (auto simp only: xor.left_neutral)
  then show ?thesis unfolding e by (simp only: crc8_bits_zero not_False_eq_True)
qed

end
