(* ===== verification/Sensor_Th.thy ===== *)
theory Sensor_Th
  imports Sensor_Hub Sensor_I2C Sensor_Crc
begin

text \<open>
  What the drivers of the temperature and humidity chips have in common: the types of \<^verbatim>\<open>tdd_sensor_temp_humi.h\<close>, the
  messages to a chip on the bus, the check byte of the Sensirion chips and the single-precision formulas. The build with floating point is modelled; the other
  one does not compile for the SHT3x and the CHT8305. The untyped parameter of a control call is one of the objects that the
  commands name, those of the motion sensor included, or null.
\<close>

section \<open>Data\<close>

record SR_TH_LIMIT_T =
  temp_high_set :: SR_VAL_U
  temp_high_clear :: SR_VAL_U
  temp_low_set :: SR_VAL_U
  temp_low_clear :: SR_VAL_U
  humi_high_set :: SR_VAL_U
  humi_high_clear :: SR_VAL_U
  humi_low_set :: SR_VAL_U
  humi_low_clear :: SR_VAL_U

record SR_TH_ALT_CFG_T =
  alt_pin :: nat
  alt_irq :: nat

record SR_TH_HEATER_T =
  ht_power :: u8
  ht_time :: u8

record SR_TH_I2C_CFG_T =
  ic_port :: u8
  ic_addr :: u8
  ic_gpio :: TDD_I2C_PIN_T

record SR_TH_MEAS_CFG_T =
  mc_prec :: u8
  mc_freq :: u8

record SR_IMU_BASE_CFG_T =
  im_clk_src :: u8
  im_gyro_fsr :: u8
  im_accel_fsr :: u8
  im_freq_hz :: u16

datatype th_param = P_dev_id u8 | P_imu_cfg SR_IMU_BASE_CFG_T | P_int bool | P_null | P_byte u8 | P_serial u32 | P_limit SR_TH_LIMIT_T | P_alert SR_TH_ALT_CFG_T | P_pin nat | P_status u16 | P_heater SR_TH_HEATER_T

type_synonym th_intfs = "(th_param, sr_io) SR_INTFS_T"

abbreviation (input) OPRT_CRC32_FAILED :: OPERATE_RET where "OPRT_CRC32_FAILED \<equiv> - 19"
abbreviation (input) SR_TH_ELE_ID_TEMP :: u8 where "SR_TH_ELE_ID_TEMP \<equiv> 0"
abbreviation (input) SR_TH_ELE_ID_HUMI :: u8 where "SR_TH_ELE_ID_HUMI \<equiv> 1"
abbreviation (input) SR_TH_ELE_NUM :: u8 where "SR_TH_ELE_NUM \<equiv> 2"
abbreviation (input) SR_TH_CMD_SOFT_RESET :: u8 where "SR_TH_CMD_SOFT_RESET \<equiv> 0x00"
abbreviation (input) SR_TH_CMD_GET_SERIAL_NBR :: u8 where "SR_TH_CMD_GET_SERIAL_NBR \<equiv> 0x01"
abbreviation (input) SR_TH_CMD_SET_PREC :: u8 where "SR_TH_CMD_SET_PREC \<equiv> 0x02"
abbreviation (input) SR_TH_CMD_SET_FREQ :: u8 where "SR_TH_CMD_SET_FREQ \<equiv> 0x03"
abbreviation (input) SR_TH_CMD_SET_ALT_LIMIT :: u8 where "SR_TH_CMD_SET_ALT_LIMIT \<equiv> 0x04"
abbreviation (input) SR_TH_CMD_GET_ALT_LIMIT :: u8 where "SR_TH_CMD_GET_ALT_LIMIT \<equiv> 0x05"
abbreviation (input) SR_TH_CMD_ENABLE_ALT_PIN :: u8 where "SR_TH_CMD_ENABLE_ALT_PIN \<equiv> 0x06"
abbreviation (input) SR_TH_CMD_DISABLE_ALT_PIN :: u8 where "SR_TH_CMD_DISABLE_ALT_PIN \<equiv> 0x07"
abbreviation (input) SR_TH_CMD_GET_STATUS :: u8 where "SR_TH_CMD_GET_STATUS \<equiv> 0x08"
abbreviation (input) SR_TH_CMD_CLR_STATUS :: u8 where "SR_TH_CMD_CLR_STATUS \<equiv> 0x09"
abbreviation (input) SR_TH_CMD_ENABLE_HEATER :: u8 where "SR_TH_CMD_ENABLE_HEATER \<equiv> 0x0A"
abbreviation (input) SR_TH_CMD_DISABLE_HEATER :: u8 where "SR_TH_CMD_DISABLE_HEATER \<equiv> 0x0B"
abbreviation (input) SR_TH_CMD_ACTIVATE_HEATER :: u8 where "SR_TH_CMD_ACTIVATE_HEATER \<equiv> 0x0C"
abbreviation (input) SR_TH_PREC_INVALID :: u8 where "SR_TH_PREC_INVALID \<equiv> 3"
abbreviation (input) SR_TH_FREQ_INVALID :: u8 where "SR_TH_FREQ_INVALID \<equiv> 5"
abbreviation (input) RSRC_INDEX_STAT :: nat where "RSRC_INDEX_STAT \<equiv> 0"
abbreviation (input) RSRC_INDEX_ADDR :: nat where "RSRC_INDEX_ADDR \<equiv> 1"
abbreviation (input) RSRC_INDEX_PREC :: nat where "RSRC_INDEX_PREC \<equiv> 2"
abbreviation (input) RSRC_INDEX_FREQ :: nat where "RSRC_INDEX_FREQ \<equiv> 3"

definition th_ele_val_tp :: "SR_ELE_CFG_T list" where
  "th_ele_val_tp = [\<lparr>ec_id = SR_TH_ELE_ID_TEMP, ec_val_tp = SR_VAL_TP_FLOAT\<rparr>, \<lparr>ec_id = SR_TH_ELE_ID_HUMI, ec_val_tp = SR_VAL_TP_FLOAT\<rparr>]"

definition th_sleep :: "u32 \<Rightarrow> sr_io \<Rightarrow> sr_io" where
  "th_sleep tm io = io\<lparr>io_sleeps := io_sleeps io @ [tm]\<rparr>"

definition th_irq :: "irq_call \<Rightarrow> sr_io \<Rightarrow> OPERATE_RET \<times> sr_io" where
  "th_irq c io = (io_irq_ret io c, io\<lparr>io_irqs := io_irqs io @ [c]\<rparr>)"

text \<open>A message to or from the chip whose address is in the driver's data.\<close>

definition th_xfer :: "u32 \<Rightarrow> SR_RSRC_T \<Rightarrow> u16 \<Rightarrow> u8 list \<Rightarrow> sr_io \<Rightarrow> (OPERATE_RET \<times> u8 list \<times> sr_io) option" where
  "th_xfer flags dev len data io = do {
     addr \<leftarrow> rd (rs_info dev) RSRC_INDEX_ADDR;
     (r, msg, io) \<leftarrow> tdd_sensor_i2c_xfer (rs_port dev) (Some \<lparr>sm_flags = flags, sm_addr = ucast addr, sm_len = len, sm_buff = Some data\<rparr>) io;
     m \<leftarrow> msg;
     buf \<leftarrow> sm_buff m;
     Some (r, buf, io) }"

definition put_info :: "nat \<Rightarrow> u8 \<Rightarrow> SR_RSRC_T \<Rightarrow> SR_RSRC_T option" where
  "put_info i v dev = do { info \<leftarrow> wr (rs_info dev) i v; Some (dev\<lparr>rs_info := info\<rparr>) }"

definition be16 :: "u8 \<Rightarrow> u8 \<Rightarrow> u16" where
  "be16 a b = push_bit 8 (ucast a) OR ucast b"

definition be32 :: "u8 \<Rightarrow> u8 \<Rightarrow> u8 \<Rightarrow> u8 \<Rightarrow> u32" where
  "be32 a b c d = push_bit 24 (ucast a) OR push_bit 16 (ucast b) OR push_bit 8 (ucast c) OR ucast d"

section \<open>Common parts of the drivers\<close>

text \<open>A pointer to a byte; an object of another kind is no valid argument.\<close>

definition byte_arg :: "th_param \<Rightarrow> u8 option option" where
  "byte_arg p = (case p of P_null \<Rightarrow> Some None | P_byte v \<Rightarrow> Some (Some v) | _ \<Rightarrow> None)"

text \<open>A value written through the parameter, where there is one to write.\<close>

definition put_serial :: "u32 option \<Rightarrow> th_param \<Rightarrow> th_param option" where
  "put_serial v p = (case v of None \<Rightarrow> Some p | Some n \<Rightarrow> (case p of P_serial _ \<Rightarrow> Some (P_serial n) | _ \<Rightarrow> None))"

definition put_status :: "u16 option \<Rightarrow> th_param \<Rightarrow> th_param option" where
  "put_status v p = (case v of None \<Rightarrow> Some p | Some n \<Rightarrow> (case p of P_status _ \<Rightarrow> Some (P_status n) | _ \<Rightarrow> None))"

text \<open>The loop that hands out the values to the elements asked for.\<close>

definition th_fill :: "SR_VAL_U \<Rightarrow> SR_VAL_U \<Rightarrow> u8 \<Rightarrow> SR_ELE_DATA_T list \<Rightarrow> SR_ELE_DATA_T list option" where
  "th_fill t v num = foldM (\<lambda>i d. do {
     e \<leftarrow> rd d i;
     if ed_id e = SR_TH_ELE_ID_TEMP then wr d i (e\<lparr>ed_val := t\<rparr>)
     else if ed_id e = SR_TH_ELE_ID_HUMI then wr d i (e\<lparr>ed_val := v\<rparr>)
     else Some d }) [0..<unat num]"

definition th_enable_alert :: "SR_TH_ALT_CFG_T \<Rightarrow> sr_io \<Rightarrow> OPERATE_RET \<times> sr_io" where
  "th_enable_alert alert io =
     (let (r, io) = th_irq (Gpio_irq_init (alt_pin alert) (alt_irq alert)) io
      in if r \<noteq> OPRT_OK then (r, io) else let (r, io) = th_irq (Gpio_irq_enable (alt_pin alert)) io in (OPRT_OK, io))"

definition th_disable_alert :: "nat \<Rightarrow> sr_io \<Rightarrow> OPERATE_RET \<times> sr_io" where
  "th_disable_alert pin io =
     (let (r, io) = th_irq (Gpio_irq_disable pin) io in if r \<noteq> OPRT_OK then (r, io) else (OPRT_OK, io))"

text \<open>Registration: the pins, the bus, the driver's data and the call of the manager.\<close>

definition th_register ::
  "th_intfs \<Rightarrow> u8 list \<Rightarrow> sr_env \<Rightarrow> string option \<Rightarrow> SR_TH_I2C_CFG_T \<Rightarrow> (th_param, sr_io) sr_hub \<Rightarrow> (OPERATE_RET \<times> (th_param, sr_io) sr_hub) option" where
  "th_register ifs info env name cfg h =
     (if scl (ic_gpio cfg) = sda (ic_gpio cfg) then Some (OPRT_INVALID_PARM, h)
      else do {
        (_, io) \<leftarrow> tdd_sensor_i2c_init (ic_port cfg) (ic_gpio cfg) (sr_world h);
        Some (tdl_sensor_register env name (Some ifs) SR_TH_ELE_NUM (Some th_ele_val_tp)
          \<lparr>rs_type = 0, rs_port = ic_port cfg, rs_handle = 0, rs_info = info\<rparr> (h\<lparr>sr_world := io\<rparr>)) })"

section \<open>Calls that return\<close>

text \<open>\<open>wp m Q\<close>: the computation \<open>m\<close> returns, and what it returns has the property \<open>Q\<close>.\<close>

definition wp :: "'a option \<Rightarrow> ('a \<Rightarrow> bool) \<Rightarrow> bool" where
  "wp m Q = (case m of None \<Rightarrow> False | Some x \<Rightarrow> Q x)"

lemma wp_simps [simp]: "wp None Q = False" "wp (Some x) Q = Q x" "wp (m \<bind> f) Q = wp m (\<lambda>x. wp (f x) Q)"
  by (simp_all add: wp_def split: option.split bind_split)

lemma wp_if [simp]: "wp (if b then m else n) Q = (if b then wp m Q else wp n Q)"
  and wp_prod [simp]: "wp (case x of (a, b) \<Rightarrow> f a b) Q = (case x of (a, b) \<Rightarrow> wp (f a b) Q)"
  and wp_let [simp]: "wp (let x = e in g x) Q = (let x = e in wp (g x) Q)"
  by (simp_all split: prod.split)

lemma wp_mono: "wp m P \<Longrightarrow> (\<And>x. P x \<Longrightarrow> Q x) \<Longrightarrow> wp m Q"
  by (auto simp: wp_def split: option.splits)

lemma wp_iff: "wp m Q \<longleftrightarrow> (\<exists>x. m = Some x \<and> Q x)"
  by (auto simp: wp_def split: option.splits)

lemma wp_foldM: "P s \<Longrightarrow> (\<And>x s. x \<in> set xs \<Longrightarrow> P s \<Longrightarrow> wp (f x s) P) \<Longrightarrow> wp (foldM f xs s) P"
  using foldM_total [of P s xs f] by (simp add: wp_iff)

lemma wp_rd: "i < length xs \<Longrightarrow> wp (rd xs i) Q = Q (xs ! i)"
  and wp_wr: "i < length xs \<Longrightarrow> wp (wr xs i v) R = R (xs[i := v])"
  by (simp_all add: rd_Some wr_Some)

text \<open>Four ports, and eight bytes of driver data, are there from the start and stay.\<close>

definition io_ok :: "sr_io \<Rightarrow> bool" where "io_ok io \<longleftrightarrow> length (sg_i2c_pin io) = 4"

definition rs_ok :: "SR_RSRC_T \<Rightarrow> bool" where "rs_ok dev \<longleftrightarrow> length (rs_info dev) = 8"

lemma info_rd: "rs_ok dev \<Longrightarrow> i < 8 \<Longrightarrow> rd (rs_info dev) i = Some (rs_info dev ! i)"
  by (simp add: rs_ok_def rd_Some)

named_theorems calls "calls of the drivers that return"

lemma th_xfer_calls [calls]:
  assumes "io_ok io" "rs_ok dev" "unat (ucast len :: u8) \<le> length data" "data \<noteq> []"
  shows "wp (th_xfer flags dev len data io) (\<lambda>(r, buf, io'). length buf = length data \<and> io_ok io')"
proof -
  obtain addr where a: "rd (rs_info dev) RSRC_INDEX_ADDR = Some addr" using assms(2) by (simp add: rs_ok_def rd_def)
  show ?thesis
    using xfer_total [of io "\<lparr>sm_flags = flags, sm_addr = ucast addr, sm_len = len, sm_buff = Some data\<rparr>" data "rs_port dev"] assms a
    by (auto simp: th_xfer_def io_ok_def)
qed

text \<open>A read of a driver, from a chip that answers with the bytes \<open>data\<close>.\<close>

lemma th_read_eq:
  assumes dev: "rs_ok dev" "rs_port dev \<le> 3" and io: "io_ok io" and data: "data \<noteq> []" "length data < 256" "length buf = length data"
    and chip: "answers_with (sda_in (io_bus io)) (sda_reads (io_bus io)) j data"
  shows "\<exists>io'. th_xfer SR_I2C_FLAG_RD dev (of_nat (length data)) buf io = Some (OPRT_OK, data, io')"
proof -
  have "unat (rs_port dev) \<le> unat (3 :: u8)" using dev(2) by (simp only: word_le_nat_alt)
  then obtain p where p: "rd (sg_i2c_pin io) (unat (rs_port dev)) = Some p" using io by (simp add: io_ok_def rd_def)
  have n: "\<not> rs_port dev > 3" "0 < length data" "length data \<le> length buf" using dev(2) data by auto
  note a = answers_with_bytes [OF chip]
  show ?thesis using read_xfer_eq [OF p n(1,2) data(2) n(3), of "rs_info dev ! 1"] a info_rd [OF dev(1), of 1] data(3)
    by (simp add: th_xfer_def rd_msg_def)
qed

lemma th_sleep_ok [simp]: "io_ok (th_sleep tm io) = io_ok io"
  by (simp add: th_sleep_def io_ok_def)

lemma th_irq_ok [simp]: "io_ok (snd (th_enable_alert a io)) = io_ok io" "io_ok (snd (th_disable_alert n io)) = io_ok io"
  by (simp_all add: th_enable_alert_def th_disable_alert_def th_irq_def io_ok_def)

lemma put_info_calls [calls]: "rs_ok dev \<Longrightarrow> i < 8 \<Longrightarrow> wp (put_info i v dev) (\<lambda>dev'. rs_ok dev' \<and> rs_port dev' = rs_port dev \<and> rs_info dev' = (rs_info dev)[i := v])"
  by (simp add: put_info_def rs_ok_def wp_wr)

lemma th_fill_calls [calls]: "unat num \<le> length d \<Longrightarrow> wp (th_fill t v num d) (\<lambda>d'. length d' = length d)"
  unfolding th_fill_def by (rule wp_foldM) (auto simp: wp_rd wp_wr)

text \<open>What the loop hands out, element by element.\<close>

lemma th_fill_eq:
  assumes "unat num \<le> length d"
  shows "th_fill t v num d = Some (map (\<lambda>e. if ed_id e = SR_TH_ELE_ID_TEMP then e\<lparr>ed_val := t\<rparr> else if ed_id e = SR_TH_ELE_ID_HUMI then e\<lparr>ed_val := v\<rparr> else e)
    (take (unat num) d) @ drop (unat num) d)"
proof -
  let ?f = "\<lambda>e. if ed_id e = SR_TH_ELE_ID_TEMP then e\<lparr>ed_val := t\<rparr> else if ed_id e = SR_TH_ELE_ID_HUMI then e\<lparr>ed_val := v\<rparr> else e"
  have "foldM (\<lambda>i d. do { e \<leftarrow> rd d i; if ed_id e = SR_TH_ELE_ID_TEMP then wr d i (e\<lparr>ed_val := t\<rparr>)
     else if ed_id e = SR_TH_ELE_ID_HUMI then wr d i (e\<lparr>ed_val := v\<rparr>) else Some d }) [0..<n] d = Some (map ?f (take n d) @ drop n d)" if "n \<le> length d" for n
    using that
  proof (induction n)
    case (Suc n)
    have s: "drop n d = d ! n # drop (Suc n) d" "take (Suc n) d = take n d @ [d ! n]" using Suc.prems by (simp_all add: Cons_nth_drop_Suc take_Suc_conv_app_nth)
    show ?case using Suc s by (simp add: foldM_snoc rd_Some wr_Some nth_append list_update_append)
  qed simp
  from this [OF assms] show ?thesis by (simp only: th_fill_def)
qed

section \<open>Control parameters\<close>

text \<open>The object that goes with a command. A limit to be set is a number; what is not one passes the range checks of the drivers.\<close>

definition limit_num :: "SR_TH_LIMIT_T \<Rightarrow> bool" where
  "limit_num l \<longleftrightarrow> (\<forall>v \<in> set [temp_high_set l, temp_high_clear l, temp_low_set l, temp_low_clear l, humi_high_set l, humi_high_clear l, humi_low_set l, humi_low_clear l].
     sr_float v \<noteq> NaN)"

definition th_arg :: "u8 \<Rightarrow> th_param \<Rightarrow> bool" where
  "th_arg cmd p =
     (if cmd = SR_TH_CMD_GET_SERIAL_NBR then (\<exists>v. p = P_serial v)
      else if cmd = SR_TH_CMD_SET_PREC \<or> cmd = SR_TH_CMD_SET_FREQ then p = P_null \<or> (\<exists>v. p = P_byte v)
      else if cmd = SR_TH_CMD_SET_ALT_LIMIT then (\<exists>l. p = P_limit l \<and> limit_num l)
      else if cmd = SR_TH_CMD_GET_ALT_LIMIT then (\<exists>l. p = P_limit l)
      else if cmd = SR_TH_CMD_ENABLE_ALT_PIN then (\<exists>a. p = P_alert a)
      else if cmd = SR_TH_CMD_DISABLE_ALT_PIN then (\<exists>n. p = P_pin n)
      else if cmd = SR_TH_CMD_GET_STATUS then (\<exists>s. p = P_status s)
      else if cmd = SR_TH_CMD_ACTIVATE_HEATER then p = P_null \<or> (\<exists>ht. p = P_heater ht)
      else True)"

text \<open>A number inside the limits, from the comparisons that the drivers make.\<close>

lemma in_range:
  assumes "sr_float v \<noteq> NaN" "\<not> fless (sr_float v) (Fin a)" "\<not> fless (Fin b) (sr_float v)"
  obtains x where "sr_float v = Fin x" "a \<le> x" "x \<le> b"
  using assms by (cases "sr_float v") (auto simp: fless_def)

section \<open>Packed limits\<close>

text \<open>The upper bits of the humidity and of the temperature in one word, and how they come out again.\<close>

lemma limit_unpack:
  "push_bit 7 ((h AND 0xFE00) OR (drop_bit 7 t AND 0x001FF)) = push_bit 7 (drop_bit 7 (t :: u16))"
  "((h AND 0xFE00) OR (drop_bit 7 t AND 0x001FF)) AND 0xFE00 = push_bit 9 (drop_bit 9 (h :: u16))"
proof -
  have n: "(0xFE00 :: u16) = push_bit 9 (mask 7)" "(0x1FF :: u16) = mask 9" by (simp_all add: mask_eq_exp_minus_1)
  show "push_bit 7 ((h AND 0xFE00) OR (drop_bit 7 t AND 0x001FF)) = push_bit 7 (drop_bit 7 t)"
    unfolding n by (rule bit_word_eqI) (auto simp: bit_simps)
  show "((h AND 0xFE00) OR (drop_bit 7 t AND 0x001FF)) AND 0xFE00 = push_bit 9 (drop_bit 9 h)"
    unfolding n by (rule bit_word_eqI) (auto simp: bit_simps dest: bit_imp_le_length)
qed

lemma uint_clear_low: "uint (push_bit k (drop_bit k (w :: u16))) = 2 ^ k * (uint w div 2 ^ k)"
proof -
  have "uint w = 2 ^ k * (uint w div 2 ^ k) + uint w mod 2 ^ k" "0 \<le> uint w mod 2 ^ k" by simp_all
  then have "2 ^ k * (uint w div 2 ^ k) \<le> uint w" by linarith
  moreover have "uint w < 2 ^ 16" using uint_lt2p [of w] by simp
  moreover have "0 \<le> 2 ^ k * (uint w div 2 ^ k)" by (simp add: pos_imp_zdiv_nonneg_iff)
  ultimately have "take_bit 16 (2 ^ k * (uint w div 2 ^ k)) = 2 ^ k * (uint w div 2 ^ k)" by (intro take_bit_int_eq_self) auto
  moreover have "uint (push_bit k (drop_bit k w)) = take_bit 16 (push_bit k (drop_bit k (uint w)))"
    using \<open>uint w < 2 ^ 16\<close> by (simp add: unsigned_push_bit_eq unsigned_drop_bit_eq take_bit_int_eq_self)
  ultimately show ?thesis by (simp only: drop_bit_eq_div push_bit_eq_mult mult.commute)
qed

text \<open>A value cut down to a multiple of \<open>2 ^ k\<close> raw steps.\<close>

lemma cut_bounds:
  assumes c: "0 \<le> c" "c < 65536" and k: "k \<le> 9"
  defines "n \<equiv> uint (push_bit k (drop_bit k (word_of_int \<lfloor>c\<rfloor> :: u16)))"
  shows "0 \<le> n" "n < 65536" "of_int n \<le> c" "c < of_int n + 2 ^ k"
proof -
  have f: "0 \<le> \<lfloor>c\<rfloor>" "\<lfloor>c\<rfloor> < 65536" using c by (auto simp: floor_less_iff)
  then have u: "uint (word_of_int \<lfloor>c\<rfloor> :: u16) = \<lfloor>c\<rfloor>" by (simp add: uint_word_of_int_eq take_bit_int_eq_self)
  have n: "n = 2 ^ k * (\<lfloor>c\<rfloor> div 2 ^ k)" by (simp only: n_def uint_clear_low u)
  have "\<lfloor>c\<rfloor> = n + \<lfloor>c\<rfloor> mod 2 ^ k" "0 \<le> \<lfloor>c\<rfloor> mod 2 ^ k" "\<lfloor>c\<rfloor> mod 2 ^ k < 2 ^ k" by (simp_all add: n)
  then have b: "n \<le> \<lfloor>c\<rfloor>" "\<lfloor>c\<rfloor> + 1 \<le> n + 2 ^ k" by linarith+
  show "0 \<le> n" using f(1) by (simp add: n pos_imp_zdiv_nonneg_iff)
  show "n < 65536" using b(1) f(2) by linarith
  show "of_int n \<le> c" using b(1) by (simp add: le_floor_iff)
  have "c < of_int (\<lfloor>c\<rfloor> + 1)" using floor_correct [of c] by simp
  also have "\<dots> \<le> of_int (n + 2 ^ k)" using b(2) by (simp only: of_int_le_iff)
  finally show "c < of_int n + 2 ^ k" by simp
qed

end
