(* ===== verification/Sensor_Sht3x.thy ===== *)
theory Sensor_Sht3x
  imports Sensor_Th
begin

text \<open>The driver of the temperature and humidity chip SHT3x, \<^verbatim>\<open>tdd_sensor_sht3x.c\<close>.\<close>

abbreviation (input) SHT3X_CMD_SOFT_RESET :: u16 where "SHT3X_CMD_SOFT_RESET \<equiv> 0x30A2"
abbreviation (input) SHT3X_CMD_READ_SERIALNBR :: u16 where "SHT3X_CMD_READ_SERIALNBR \<equiv> 0x3780"
abbreviation (input) SHT3X_CMD_HEATER_ENABLE :: u16 where "SHT3X_CMD_HEATER_ENABLE \<equiv> 0x306D"
abbreviation (input) SHT3X_CMD_HEATER_DISABLE :: u16 where "SHT3X_CMD_HEATER_DISABLE \<equiv> 0x3066"
abbreviation (input) SHT3X_CMD_READ_STATUS :: u16 where "SHT3X_CMD_READ_STATUS \<equiv> 0xF32D"
abbreviation (input) SHT3X_CMD_CLEAR_STATUS :: u16 where "SHT3X_CMD_CLEAR_STATUS \<equiv> 0x3041"
abbreviation (input) SHT3X_CMD_BREAK :: u16 where "SHT3X_CMD_BREAK \<equiv> 0x3093"
abbreviation (input) SHT3X_CMD_FETCH_DATA :: u16 where "SHT3X_CMD_FETCH_DATA \<equiv> 0xE000"
abbreviation (input) SHT3X_CMD_W_AL_LIM_HS :: u16 where "SHT3X_CMD_W_AL_LIM_HS \<equiv> 0x611D"
abbreviation (input) SHT3X_CMD_W_AL_LIM_HC :: u16 where "SHT3X_CMD_W_AL_LIM_HC \<equiv> 0x6116"
abbreviation (input) SHT3X_CMD_W_AL_LIM_LC :: u16 where "SHT3X_CMD_W_AL_LIM_LC \<equiv> 0x610B"
abbreviation (input) SHT3X_CMD_W_AL_LIM_LS :: u16 where "SHT3X_CMD_W_AL_LIM_LS \<equiv> 0x6100"
abbreviation (input) SHT3X_CMD_R_AL_LIM_LS :: u16 where "SHT3X_CMD_R_AL_LIM_LS \<equiv> 0xE102"
abbreviation (input) SHT3X_CMD_R_AL_LIM_LC :: u16 where "SHT3X_CMD_R_AL_LIM_LC \<equiv> 0xE109"
abbreviation (input) SHT3X_CMD_R_AL_LIM_HS :: u16 where "SHT3X_CMD_R_AL_LIM_HS \<equiv> 0xE11F"
abbreviation (input) SHT3X_CMD_R_AL_LIM_HC :: u16 where "SHT3X_CMD_R_AL_LIM_HC \<equiv> 0xE114"

section \<open>Messages\<close>

definition sht3x_get_crc8 :: "u8 list \<Rightarrow> nat \<Rightarrow> nat \<Rightarrow> u8 option" where
  "sht3x_get_crc8 data off len = foldM (\<lambda>i crc. do { b \<leftarrow> rd data (off + i); Some (crc8_byte crc b) }) [0..<len] 0xFF"

definition sht3x_check_crc8 :: "u8 list \<Rightarrow> nat \<Rightarrow> nat \<Rightarrow> u8 \<Rightarrow> bool option" where
  "sht3x_check_crc8 data off len crc_val = do { c \<leftarrow> sht3x_get_crc8 data off len; Some (c = crc_val) }"

definition sht3x_read_data :: "SR_RSRC_T \<Rightarrow> u16 \<Rightarrow> u8 list \<Rightarrow> sr_io \<Rightarrow> (OPERATE_RET \<times> u8 list \<times> sr_io) option" where
  "sht3x_read_data dev len data io = th_xfer SR_I2C_FLAG_RD dev len data io"

definition sht3x_write_cmd :: "SR_RSRC_T \<Rightarrow> u16 \<Rightarrow> sr_io \<Rightarrow> (OPERATE_RET \<times> sr_io) option" where
  "sht3x_write_cmd dev cmd io = do {
     (r, _, io) \<leftarrow> th_xfer SR_I2C_FLAG_WR dev 2 [ucast (drop_bit 8 cmd), ucast (cmd AND 0x00FF)] io;
     Some (r, io) }"

definition sht3x_write_2bytes_data :: "SR_RSRC_T \<Rightarrow> u16 \<Rightarrow> u16 \<Rightarrow> sr_io \<Rightarrow> sr_io option" where
  "sht3x_write_2bytes_data dev cmd data io = do {
     let buf = [ucast (drop_bit 8 cmd), ucast (cmd AND 0x00FF), ucast (drop_bit 8 data), ucast (data AND 0x00FF), 0];
     crc \<leftarrow> sht3x_get_crc8 buf 2 2;
     buf \<leftarrow> wr buf 4 crc;
     (_, _, io) \<leftarrow> th_xfer SR_I2C_FLAG_WR dev 5 buf io;
     Some io }"

text \<open>The command of the periodic measurement, by repeatability and rate.\<close>

definition sht3x_peri_cmd :: "u8 \<Rightarrow> u8 \<Rightarrow> u16" where
  "sht3x_peri_cmd prec freq =
     (let sel = (\<lambda>hz5 hz1 hz2 hz4 hz10. if freq = 0 then hz5 else if freq = 2 then hz2 else if freq = 3 then hz4 else if freq = 4 then hz10 else hz1)
      in if prec = 1 then sel 0x2024 0x2126 0x2220 0x2322 0x2721
         else if prec = 2 then sel 0x202F 0x212D 0x222B 0x2329 0x272A
         else sel 0x2032 0x2130 0x2236 0x2334 0x2737)"

definition sht3x_start_periodic_measurement :: "SR_RSRC_T \<Rightarrow> sr_io \<Rightarrow> sr_io option" where
  "sht3x_start_periodic_measurement dev io = do {
     prec \<leftarrow> rd (rs_info dev) RSRC_INDEX_PREC;
     freq \<leftarrow> rd (rs_info dev) RSRC_INDEX_FREQ;
     (_, io) \<leftarrow> sht3x_write_cmd dev (sht3x_peri_cmd prec freq) io;
     Some io }"

definition sht3x_stop_periodic_measurement :: "SR_RSRC_T \<Rightarrow> sr_io \<Rightarrow> sr_io option" where
  "sht3x_stop_periodic_measurement dev io = do { (_, io) \<leftarrow> sht3x_write_cmd dev SHT3X_CMD_BREAK io; Some io }"

definition sht3x_set_precision :: "SR_RSRC_T \<Rightarrow> u8 option \<Rightarrow> sr_io \<Rightarrow> (OPERATE_RET \<times> SR_RSRC_T \<times> sr_io) option" where
  "sht3x_set_precision dev prec io =
     (case prec of
        None \<Rightarrow> Some (OPRT_INVALID_PARM, dev, io)
      | Some v \<Rightarrow>
          if v \<ge> SR_TH_PREC_INVALID then Some (OPRT_INVALID_PARM, dev, io)
          else do { dev \<leftarrow> put_info RSRC_INDEX_PREC v dev; io \<leftarrow> sht3x_start_periodic_measurement dev io; Some (OPRT_OK, dev, io) })"

text \<open>The rate is put where the repeatability belongs.\<close>

definition sht3x_set_frequency :: "SR_RSRC_T \<Rightarrow> u8 option \<Rightarrow> sr_io \<Rightarrow> (OPERATE_RET \<times> SR_RSRC_T \<times> sr_io) option" where
  "sht3x_set_frequency dev freq io =
     (case freq of
        None \<Rightarrow> Some (OPRT_INVALID_PARM, dev, io)
      | Some v \<Rightarrow>
          if v \<ge> SR_TH_FREQ_INVALID then Some (OPRT_INVALID_PARM, dev, io)
          else do { dev \<leftarrow> put_info RSRC_INDEX_PREC v dev; io \<leftarrow> sht3x_start_periodic_measurement dev io; Some (OPRT_OK, dev, io) })"

section \<open>Physical values\<close>

definition sht3x_calc_temp :: "u16 \<Rightarrow> SR_VAL_U" where
  "sht3x_calc_temp temp = put_float (fsub (fdiv (fmul (of_int_f (uint temp)) (Fin 175)) (Fin 65535)) (Fin 45))"

definition sht3x_calc_temp_raw :: "SR_VAL_U \<Rightarrow> u16 option" where
  "sht3x_calc_temp_raw v = to_u16 (fdiv (fmul (fadd (sr_float v) (Fin 45)) (Fin 65535)) (Fin 175))"

definition sht3x_calc_humi :: "u16 \<Rightarrow> SR_VAL_U" where
  "sht3x_calc_humi humi = put_float (fdiv (fmul (of_int_f (uint humi)) (Fin 100)) (Fin 65535))"

definition sht3x_calc_humi_raw :: "SR_VAL_U \<Rightarrow> u16 option" where
  "sht3x_calc_humi_raw v = to_u16 (fdiv (fmul (sr_float v) (Fin 65535)) (Fin 100))"

definition sht3x_read_temp_humi :: "SR_RSRC_T \<Rightarrow> sr_io \<Rightarrow> (OPERATE_RET \<times> u16 \<times> u16 \<times> sr_io) option" where
  "sht3x_read_temp_humi dev io = do {
     (_, io) \<leftarrow> sht3x_write_cmd dev SHT3X_CMD_FETCH_DATA io;
     (r, buf, io) \<leftarrow> sht3x_read_data dev 6 (replicate 6 0) io;
     if r \<noteq> OPRT_OK then Some (r, 0, 0, io)
     else do {
       c2 \<leftarrow> rd buf 2;
       ok1 \<leftarrow> sht3x_check_crc8 buf 0 2 c2;
       c5 \<leftarrow> rd buf 5;
       ok2 \<leftarrow> sht3x_check_crc8 buf 3 2 c5;
       if \<not> ok1 \<or> \<not> ok2 then Some (OPRT_CRC32_FAILED, 0, 0, io)
       else do {
         a \<leftarrow> rd buf 0; b \<leftarrow> rd buf 1; c \<leftarrow> rd buf 3; d \<leftarrow> rd buf 4;
         Some (OPRT_OK, be16 a b, be16 c d, io) } } }"

section \<open>Alert limits\<close>

definition sht3x_read_limit :: "SR_RSRC_T \<Rightarrow> u16 \<Rightarrow> SR_VAL_U \<times> SR_VAL_U \<Rightarrow> sr_io \<Rightarrow> (OPERATE_RET \<times> (SR_VAL_U \<times> SR_VAL_U) \<times> sr_io) option" where
  "sht3x_read_limit dev cmd old io = do {
     (_, io) \<leftarrow> sht3x_write_cmd dev cmd io;
     (r, buf, io) \<leftarrow> sht3x_read_data dev 3 (replicate 3 0) io;
     if r \<noteq> OPRT_OK then Some (r, old, io)
     else do {
       c \<leftarrow> rd buf 2;
       ok \<leftarrow> sht3x_check_crc8 buf 0 2 c;
       if \<not> ok then Some (OPRT_CRC32_FAILED, old, io)
       else do {
         a \<leftarrow> rd buf 0; b \<leftarrow> rd buf 1;
         let limit = be16 a b;
         Some (OPRT_OK, (sht3x_calc_temp (push_bit 7 limit), sht3x_calc_humi (limit AND 0xFE00)), io) } } }"

definition sht3x_limit_raw :: "SR_VAL_U \<Rightarrow> SR_VAL_U \<Rightarrow> u16 option" where
  "sht3x_limit_raw temp_limit humi_limit = do {
     h \<leftarrow> sht3x_calc_humi_raw humi_limit;
     t \<leftarrow> sht3x_calc_temp_raw temp_limit;
     Some ((h AND 0xFE00) OR (drop_bit 7 t AND 0x001FF)) }"

definition sht3x_write_limit :: "SR_RSRC_T \<Rightarrow> u16 \<Rightarrow> SR_VAL_U \<Rightarrow> SR_VAL_U \<Rightarrow> sr_io \<Rightarrow> (OPERATE_RET \<times> sr_io) option" where
  "sht3x_write_limit dev cmd temp_limit humi_limit io =
     (if fless (sr_float humi_limit) (Fin 0) \<or> fless (Fin 100) (sr_float humi_limit) \<or>
         fless (sr_float temp_limit) (Fin (- 40)) \<or> fless (Fin 125) (sr_float temp_limit)
      then Some (OPRT_INVALID_PARM, io)
      else do {
        raw \<leftarrow> sht3x_limit_raw temp_limit humi_limit;
        io \<leftarrow> sht3x_write_2bytes_data dev cmd raw io;
        Some (OPRT_OK, io) })"

definition sht3x_get_alert_limit :: "SR_RSRC_T \<Rightarrow> SR_TH_LIMIT_T \<Rightarrow> sr_io \<Rightarrow> (OPERATE_RET \<times> SR_TH_LIMIT_T \<times> sr_io) option" where
  "sht3x_get_alert_limit dev l io = do {
     (r, (t, v), io) \<leftarrow> sht3x_read_limit dev SHT3X_CMD_R_AL_LIM_HS (temp_high_set l, humi_high_set l) io;
     let l = l\<lparr>temp_high_set := t, humi_high_set := v\<rparr>;
     if r \<noteq> OPRT_OK then Some (r, l, io) else do {
       (r, (t, v), io) \<leftarrow> sht3x_read_limit dev SHT3X_CMD_R_AL_LIM_HC (temp_high_clear l, humi_high_clear l) io;
       let l = l\<lparr>temp_high_clear := t, humi_high_clear := v\<rparr>;
       if r \<noteq> OPRT_OK then Some (r, l, io) else do {
         (r, (t, v), io) \<leftarrow> sht3x_read_limit dev SHT3X_CMD_R_AL_LIM_LS (temp_low_set l, humi_low_set l) io;
         let l = l\<lparr>temp_low_set := t, humi_low_set := v\<rparr>;
         if r \<noteq> OPRT_OK then Some (r, l, io) else do {
           (r, (t, v), io) \<leftarrow> sht3x_read_limit dev SHT3X_CMD_R_AL_LIM_LC (temp_low_clear l, humi_low_clear l) io;
           let l = l\<lparr>temp_low_clear := t, humi_low_clear := v\<rparr>;
           if r \<noteq> OPRT_OK then Some (r, l, io) else Some (OPRT_OK, l, io) } } } }"

definition sht3x_set_alert_limit :: "SR_RSRC_T \<Rightarrow> SR_TH_LIMIT_T \<Rightarrow> sr_io \<Rightarrow> (OPERATE_RET \<times> sr_io) option" where
  "sht3x_set_alert_limit dev l io = do {
     (r, io) \<leftarrow> sht3x_write_limit dev SHT3X_CMD_W_AL_LIM_HS (temp_high_set l) (humi_high_set l) io;
     if r \<noteq> OPRT_OK then Some (r, io) else do {
       (r, io) \<leftarrow> sht3x_write_limit dev SHT3X_CMD_W_AL_LIM_HC (temp_high_clear l) (humi_high_clear l) io;
       if r \<noteq> OPRT_OK then Some (r, io) else do {
         (r, io) \<leftarrow> sht3x_write_limit dev SHT3X_CMD_W_AL_LIM_LS (temp_low_set l) (humi_low_set l) io;
         if r \<noteq> OPRT_OK then Some (r, io) else do {
           (r, io) \<leftarrow> sht3x_write_limit dev SHT3X_CMD_W_AL_LIM_LC (temp_low_clear l) (humi_low_clear l) io;
           if r \<noteq> OPRT_OK then Some (r, io) else Some (OPRT_OK, io) } } } }"

section \<open>Commands\<close>

definition sht3x_enable_alert :: "SR_TH_ALT_CFG_T \<Rightarrow> sr_io \<Rightarrow> OPERATE_RET \<times> sr_io" where
  "sht3x_enable_alert = th_enable_alert"

definition sht3x_disable_alert :: "nat \<Rightarrow> sr_io \<Rightarrow> OPERATE_RET \<times> sr_io" where
  "sht3x_disable_alert = th_disable_alert"

definition sht3x_read_status :: "SR_RSRC_T \<Rightarrow> sr_io \<Rightarrow> (OPERATE_RET \<times> u16 option \<times> sr_io) option" where
  "sht3x_read_status dev io = do {
     (_, io) \<leftarrow> sht3x_write_cmd dev SHT3X_CMD_READ_STATUS io;
     (r, buf, io) \<leftarrow> sht3x_read_data dev 3 (replicate 3 0) io;
     if r \<noteq> OPRT_OK then Some (r, None, io)
     else do {
       c \<leftarrow> rd buf 2;
       ok \<leftarrow> sht3x_check_crc8 buf 0 2 c;
       if \<not> ok then Some (OPRT_COM_ERROR, None, io)
       else do { a \<leftarrow> rd buf 0; b \<leftarrow> rd buf 1; Some (OPRT_OK, Some (be16 a b), io) } } }"

definition sht3x_clear_status :: "SR_RSRC_T \<Rightarrow> sr_io \<Rightarrow> (OPERATE_RET \<times> sr_io) option" where
  "sht3x_clear_status dev io = do { (_, io) \<leftarrow> sht3x_write_cmd dev SHT3X_CMD_CLEAR_STATUS io; Some (OPRT_OK, io) }"

definition sht3x_set_heater :: "SR_RSRC_T \<Rightarrow> bool \<Rightarrow> sr_io \<Rightarrow> (OPERATE_RET \<times> sr_io) option" where
  "sht3x_set_heater dev enabled io = do {
     (_, io) \<leftarrow> sht3x_write_cmd dev (if enabled then SHT3X_CMD_HEATER_ENABLE else SHT3X_CMD_HEATER_DISABLE) io;
     Some (OPRT_OK, io) }"

definition sht3x_soft_reset :: "SR_RSRC_T \<Rightarrow> sr_io \<Rightarrow> (OPERATE_RET \<times> sr_io) option" where
  "sht3x_soft_reset dev io = do { (_, io) \<leftarrow> sht3x_write_cmd dev SHT3X_CMD_SOFT_RESET io; Some (OPRT_OK, th_sleep 50 io) }"

definition sht3x_read_serial_number :: "SR_RSRC_T \<Rightarrow> sr_io \<Rightarrow> (OPERATE_RET \<times> u32 option \<times> sr_io) option" where
  "sht3x_read_serial_number dev io = do {
     (_, io) \<leftarrow> sht3x_write_cmd dev SHT3X_CMD_READ_SERIALNBR io;
     let io = th_sleep 20 io;
     (r, buf, io) \<leftarrow> sht3x_read_data dev 6 (replicate 6 0) io;
     if r \<noteq> OPRT_OK then Some (r, None, io)
     else do {
       c2 \<leftarrow> rd buf 2;
       ok1 \<leftarrow> sht3x_check_crc8 buf 0 2 c2;
       c5 \<leftarrow> rd buf 5;
       ok2 \<leftarrow> sht3x_check_crc8 buf 3 2 c5;
       if \<not> ok1 \<or> \<not> ok2 then Some (OPRT_CRC32_FAILED, None, io)
       else do {
         a \<leftarrow> rd buf 0; b \<leftarrow> rd buf 1; c \<leftarrow> rd buf 3; d \<leftarrow> rd buf 4;
         Some (OPRT_OK, Some (be32 a b c d), io) } } }"

section \<open>The interface of the driver\<close>

definition tdd_sensor_sht3x_open :: "SR_RSRC_T \<Rightarrow> sr_io \<Rightarrow> (OPERATE_RET \<times> SR_RSRC_T \<times> sr_io) option" where
  "tdd_sensor_sht3x_open dev io = do {
     io \<leftarrow> sht3x_start_periodic_measurement dev io;
     dev \<leftarrow> put_info RSRC_INDEX_STAT 1 dev;
     Some (OPRT_OK, dev, io) }"

definition tdd_sensor_sht3x_close :: "SR_RSRC_T \<Rightarrow> sr_io \<Rightarrow> (OPERATE_RET \<times> SR_RSRC_T \<times> sr_io) option" where
  "tdd_sensor_sht3x_close dev io = do {
     io \<leftarrow> sht3x_stop_periodic_measurement dev io;
     dev \<leftarrow> put_info RSRC_INDEX_STAT 0 dev;
     Some (OPRT_OK, dev, io) }"

definition tdd_sensor_sht3x_control :: "SR_RSRC_T \<Rightarrow> u8 \<Rightarrow> th_param \<Rightarrow> sr_io \<Rightarrow> (OPERATE_RET \<times> th_param \<times> SR_RSRC_T \<times> sr_io) option" where
  "tdd_sensor_sht3x_control dev cmd param io = do {
     stat \<leftarrow> rd (rs_info dev) RSRC_INDEX_STAT;
     if stat = 1 \<and> (cmd = SR_TH_CMD_SET_PREC \<or> cmd = SR_TH_CMD_SET_FREQ \<or> cmd = SR_TH_CMD_SOFT_RESET \<or> cmd = SR_TH_CMD_GET_SERIAL_NBR)
     then Some (OPRT_COM_ERROR, param, dev, io)
     else if cmd = SR_TH_CMD_SOFT_RESET then do { (r, io) \<leftarrow> sht3x_soft_reset dev io; Some (r, param, dev, io) }
     else if cmd = SR_TH_CMD_GET_SERIAL_NBR then do {
       (r, v, io) \<leftarrow> sht3x_read_serial_number dev io;
       p \<leftarrow> put_serial v param;
       Some (r, p, dev, io) }
     else if cmd = SR_TH_CMD_SET_PREC then do {
       v \<leftarrow> byte_arg param; (r, dev, io) \<leftarrow> sht3x_set_precision dev v io; Some (r, param, dev, io) }
     else if cmd = SR_TH_CMD_SET_FREQ then do {
       v \<leftarrow> byte_arg param; (r, dev, io) \<leftarrow> sht3x_set_frequency dev v io; Some (r, param, dev, io) }
     else if cmd = SR_TH_CMD_SET_ALT_LIMIT then (case param of
       P_limit l \<Rightarrow> do { (r, io) \<leftarrow> sht3x_set_alert_limit dev l io; Some (r, param, dev, io) } | _ \<Rightarrow> None)
     else if cmd = SR_TH_CMD_GET_ALT_LIMIT then (case param of
       P_limit l \<Rightarrow> do { (r, l, io) \<leftarrow> sht3x_get_alert_limit dev l io; Some (r, P_limit l, dev, io) } | _ \<Rightarrow> None)
     else if cmd = SR_TH_CMD_ENABLE_ALT_PIN then (case param of
       P_alert a \<Rightarrow> let (r, io) = sht3x_enable_alert a io in Some (r, param, dev, io) | _ \<Rightarrow> None)
     else if cmd = SR_TH_CMD_DISABLE_ALT_PIN then (case param of
       P_pin n \<Rightarrow> let (r, io) = sht3x_disable_alert n io in Some (r, param, dev, io) | _ \<Rightarrow> None)
     else if cmd = SR_TH_CMD_GET_STATUS then do {
       (r, v, io) \<leftarrow> sht3x_read_status dev io;
       p \<leftarrow> put_status v param;
       Some (r, p, dev, io) }
     else if cmd = SR_TH_CMD_CLR_STATUS then do { (r, io) \<leftarrow> sht3x_clear_status dev io; Some (r, param, dev, io) }
     else if cmd = SR_TH_CMD_ENABLE_HEATER then do { (r, io) \<leftarrow> sht3x_set_heater dev True io; Some (r, param, dev, io) }
     else if cmd = SR_TH_CMD_DISABLE_HEATER then do { (r, io) \<leftarrow> sht3x_set_heater dev False io; Some (r, param, dev, io) }
     else Some (OPRT_INVALID_PARM, param, dev, io) }"

definition tdd_sensor_sht3x_read :: "SR_RSRC_T \<Rightarrow> SR_ELE_DATA_T list \<Rightarrow> u8 \<Rightarrow> sr_io \<Rightarrow> (OPERATE_RET \<times> SR_ELE_DATA_T list \<times> SR_RSRC_T \<times> sr_io) option" where
  "tdd_sensor_sht3x_read dev ele_data num io = do {
     (r, temp, humi, io) \<leftarrow> sht3x_read_temp_humi dev io;
     if r \<noteq> OPRT_OK then Some (r, ele_data, dev, io)
     else do {
       d \<leftarrow> th_fill (sht3x_calc_temp temp) (sht3x_calc_humi humi) num ele_data;
       Some (OPRT_OK, d, dev, io) } }"

definition sht3x_intfs :: th_intfs where
  "sht3x_intfs = \<lparr>in_open = Some tdd_sensor_sht3x_open, in_close = Some tdd_sensor_sht3x_close, in_control = Some tdd_sensor_sht3x_control,
     in_read_ele = Some tdd_sensor_sht3x_read, in_read_raw = None\<rparr>"

definition tdd_sensor_sht3x_register ::
  "sr_env \<Rightarrow> string option \<Rightarrow> SR_TH_I2C_CFG_T \<Rightarrow> SR_TH_MEAS_CFG_T \<Rightarrow> (th_param, sr_io) sr_hub \<Rightarrow> (OPERATE_RET \<times> (th_param, sr_io) sr_hub) option" where
  "tdd_sensor_sht3x_register env name i2c_cfg meas_cfg =
     th_register sht3x_intfs [0, ic_addr i2c_cfg, mc_prec meas_cfg, mc_freq meas_cfg, 0, 0, 0, 0] env name i2c_cfg"

section \<open>The driver returns\<close>

lemma sht3x_crc_calls [calls]: "off + len \<le> length data \<Longrightarrow> wp (sht3x_get_crc8 data off len) (\<lambda>_. True)"
  unfolding sht3x_get_crc8_def by (rule wp_foldM) (auto simp: wp_rd)

lemma sht3x_check_calls [calls]: "off + len \<le> length data \<Longrightarrow> wp (sht3x_check_crc8 data off len c) (\<lambda>_. True)"
  by (simp add: sht3x_check_crc8_def) (rule sht3x_crc_calls)

lemma sht3x_write_cmd_calls [calls]: "io_ok io \<Longrightarrow> rs_ok dev \<Longrightarrow> wp (sht3x_write_cmd dev cmd io) (\<lambda>(r, io'). io_ok io')"
  by (auto simp: sht3x_write_cmd_def intro!: th_xfer_calls [THEN wp_mono])

lemma sht3x_read_data_calls [calls]:
  "io_ok io \<Longrightarrow> rs_ok dev \<Longrightarrow> unat (ucast len :: u8) \<le> length data \<Longrightarrow> data \<noteq> [] \<Longrightarrow>
    wp (sht3x_read_data dev len data io) (\<lambda>(r, buf, io'). length buf = length data \<and> io_ok io')"
  unfolding sht3x_read_data_def by (rule th_xfer_calls)

lemma sht3x_2bytes_calls [calls]: "io_ok io \<Longrightarrow> rs_ok dev \<Longrightarrow> wp (sht3x_write_2bytes_data dev cmd data io) io_ok"
  by (auto simp: sht3x_write_2bytes_data_def Let_def wp_wr intro!: sht3x_crc_calls [THEN wp_mono] th_xfer_calls [THEN wp_mono])

lemma sht3x_start_calls [calls]: "io_ok io \<Longrightarrow> rs_ok dev \<Longrightarrow> wp (sht3x_start_periodic_measurement dev io) io_ok"
  by (auto simp: sht3x_start_periodic_measurement_def rs_ok_def wp_rd intro!: sht3x_write_cmd_calls [unfolded rs_ok_def, THEN wp_mono])

lemma sht3x_stop_calls [calls]: "io_ok io \<Longrightarrow> rs_ok dev \<Longrightarrow> wp (sht3x_stop_periodic_measurement dev io) io_ok"
  by (auto simp: sht3x_stop_periodic_measurement_def intro!: sht3x_write_cmd_calls [THEN wp_mono])

lemma sht3x_set_calls [calls]:
  "io_ok io \<Longrightarrow> rs_ok dev \<Longrightarrow> wp (sht3x_set_precision dev v io) (\<lambda>(r, dev', io'). rs_ok dev' \<and> io_ok io')"
  "io_ok io \<Longrightarrow> rs_ok dev \<Longrightarrow> wp (sht3x_set_frequency dev v io) (\<lambda>(r, dev', io'). rs_ok dev' \<and> io_ok io')"
  by (auto simp: sht3x_set_precision_def sht3x_set_frequency_def intro!: put_info_calls [THEN wp_mono] sht3x_start_calls [THEN wp_mono] split: option.split)

lemma sht3x_temp_humi_calls [calls]: "io_ok io \<Longrightarrow> rs_ok dev \<Longrightarrow> wp (sht3x_read_temp_humi dev io) (\<lambda>(r, t, v, io'). io_ok io')"
  by (auto simp: sht3x_read_temp_humi_def wp_rd intro!: sht3x_write_cmd_calls [THEN wp_mono] sht3x_read_data_calls [THEN wp_mono]
    sht3x_check_calls [THEN wp_mono])

lemma sht3x_read_limit_calls [calls]: "io_ok io \<Longrightarrow> rs_ok dev \<Longrightarrow> wp (sht3x_read_limit dev cmd old io) (\<lambda>(r, v, io'). io_ok io')"
  by (auto simp: sht3x_read_limit_def wp_rd Let_def intro!: sht3x_write_cmd_calls [THEN wp_mono] sht3x_read_data_calls [THEN wp_mono]
    sht3x_check_calls [THEN wp_mono])

lemma sht3x_status_calls [calls]: "io_ok io \<Longrightarrow> rs_ok dev \<Longrightarrow> wp (sht3x_read_status dev io) (\<lambda>(r, v, io'). io_ok io')"
  by (auto simp: sht3x_read_status_def wp_rd Let_def intro!: sht3x_write_cmd_calls [THEN wp_mono] sht3x_read_data_calls [THEN wp_mono]
    sht3x_check_calls [THEN wp_mono])

lemma sht3x_serial_calls [calls]: "io_ok io \<Longrightarrow> rs_ok dev \<Longrightarrow> wp (sht3x_read_serial_number dev io) (\<lambda>(r, v, io'). io_ok io')"
  by (auto simp: sht3x_read_serial_number_def wp_rd Let_def intro!: sht3x_write_cmd_calls [THEN wp_mono] sht3x_read_data_calls [THEN wp_mono]
    sht3x_check_calls [THEN wp_mono])

lemma sht3x_command_calls [calls]:
  "io_ok io \<Longrightarrow> rs_ok dev \<Longrightarrow> wp (sht3x_clear_status dev io) (\<lambda>(r, io'). io_ok io')"
  "io_ok io \<Longrightarrow> rs_ok dev \<Longrightarrow> wp (sht3x_set_heater dev b io) (\<lambda>(r, io'). io_ok io')"
  "io_ok io \<Longrightarrow> rs_ok dev \<Longrightarrow> wp (sht3x_soft_reset dev io) (\<lambda>(r, io'). io_ok io')"
  by (auto simp: sht3x_clear_status_def sht3x_set_heater_def sht3x_soft_reset_def intro!: sht3x_write_cmd_calls [THEN wp_mono])

lemma sht3x_limit_raw_eq:
  assumes "sr_float tv = Fin t" "- 40 \<le> t" "t \<le> 125" "sr_float hv = Fin v" "0 \<le> v" "v \<le> 100"
  shows "\<exists>c d. sht3x_limit_raw tv hv = Some ((word_of_int \<lfloor>d\<rfloor> AND 0xFE00) OR (drop_bit 7 (word_of_int \<lfloor>c\<rfloor>) AND 0x001FF)) \<and>
    \<bar>c - (t + 45) * 65535 / 175\<bar> \<le> 1 / 80 \<and> 0 \<le> c \<and> c < 65536 \<and> \<bar>d - v * 65535 / 100\<bar> \<le> 1 / 80 \<and> 0 \<le> d \<and> d < 65536"
proof -
  obtain c where c: "sht3x_calc_temp_raw tv = Some (word_of_int \<lfloor>c\<rfloor>)" "\<bar>c - (t + 45) * 65535 / 175\<bar> \<le> 1 / 80" "0 \<le> c" "c < 65536"
    using raw_shift [of 45 t 175] assms by (auto simp: sht3x_calc_temp_raw_def)
  obtain d where d: "sht3x_calc_humi_raw hv = Some (word_of_int \<lfloor>d\<rfloor>)" "\<bar>d - v * 65535 / 100\<bar> \<le> 1 / 80" "0 \<le> d" "d < 65536"
    using raw_only [of v] assms by (auto simp: sht3x_calc_humi_raw_def)
  show ?thesis using c d by (intro exI [of _ c] exI [of _ d]) (simp add: sht3x_limit_raw_def)
qed

lemma sht3x_write_limit_calls [calls]:
  assumes "io_ok io" "rs_ok dev" "sr_float tv \<noteq> NaN" "sr_float hv \<noteq> NaN"
  shows "wp (sht3x_write_limit dev cmd tv hv io) (\<lambda>(r, io'). io_ok io')"
proof (cases "fless (sr_float hv) (Fin 0) \<or> fless (Fin 100) (sr_float hv) \<or> fless (sr_float tv) (Fin (- 40)) \<or> fless (Fin 125) (sr_float tv)")
  case False
  obtain t v where t: "sr_float tv = Fin t" "- 40 \<le> t" "t \<le> 125" and v: "sr_float hv = Fin v" "0 \<le> v" "v \<le> 100"
    using in_range [OF assms(3), of "- 40" 125] in_range [OF assms(4), of 0 100] False by metis
  obtain raw where "sht3x_limit_raw tv hv = Some raw" using sht3x_limit_raw_eq [OF t v] by blast
  then show ?thesis using False assms(1,2) by (auto simp: sht3x_write_limit_def intro!: sht3x_2bytes_calls [THEN wp_mono])
qed (use assms in \<open>simp add: sht3x_write_limit_def\<close>)

lemma sht3x_set_limit_calls [calls]: "io_ok io \<Longrightarrow> rs_ok dev \<Longrightarrow> limit_num l \<Longrightarrow> wp (sht3x_set_alert_limit dev l io) (\<lambda>(r, io'). io_ok io')"
  by (auto simp: sht3x_set_alert_limit_def limit_num_def intro!: sht3x_write_limit_calls [THEN wp_mono])

lemma sht3x_get_limit_calls [calls]: "io_ok io \<Longrightarrow> rs_ok dev \<Longrightarrow> wp (sht3x_get_alert_limit dev l io) (\<lambda>(r, l', io'). io_ok io')"
  by (auto simp: sht3x_get_alert_limit_def Let_def intro!: sht3x_read_limit_calls [THEN wp_mono])

section \<open>The contract of the manager\<close>

lemma sht3x_open_calls: "io_ok io \<Longrightarrow> rs_ok dev \<Longrightarrow> wp (tdd_sensor_sht3x_open dev io) (\<lambda>(r, dev', io'). rs_ok dev' \<and> io_ok io')"
  by (auto simp: tdd_sensor_sht3x_open_def intro!: sht3x_start_calls [THEN wp_mono] put_info_calls [THEN wp_mono])

lemma sht3x_close_calls: "io_ok io \<Longrightarrow> rs_ok dev \<Longrightarrow> wp (tdd_sensor_sht3x_close dev io) (\<lambda>(r, dev', io'). rs_ok dev' \<and> io_ok io')"
  by (auto simp: tdd_sensor_sht3x_close_def intro!: sht3x_stop_calls [THEN wp_mono] put_info_calls [THEN wp_mono])

lemma sht3x_read_calls:
  "io_ok io \<Longrightarrow> rs_ok dev \<Longrightarrow> unat n \<le> length d \<Longrightarrow>
    wp (tdd_sensor_sht3x_read dev d n io) (\<lambda>(r, d', dev', io'). length d' = length d \<and> rs_ok dev' \<and> io_ok io')"
  by (auto simp: tdd_sensor_sht3x_read_def intro!: sht3x_temp_humi_calls [THEN wp_mono] th_fill_calls [THEN wp_mono])

lemma sht3x_control_calls:
  assumes "io_ok io" "rs_ok dev" "th_arg cmd p"
  shows "wp (tdd_sensor_sht3x_control dev cmd p io) (\<lambda>(r, p', dev', io'). rs_ok dev' \<and> io_ok io')"
proof -
  note s = info_rd [OF assms(2), of RSRC_INDEX_STAT]
  show ?thesis using assms s
    by (auto simp: tdd_sensor_sht3x_control_def th_arg_def byte_arg_def put_serial_def put_status_def sht3x_enable_alert_def sht3x_disable_alert_def
        case_prod_beta' split: option.split
      intro!: sht3x_command_calls [THEN wp_mono] sht3x_serial_calls [THEN wp_mono] sht3x_set_calls [THEN wp_mono] sht3x_set_limit_calls [THEN wp_mono]
        sht3x_get_limit_calls [THEN wp_mono] sht3x_status_calls [THEN wp_mono])
qed

section \<open>Readings\<close>

text \<open>The check byte of two data bytes.\<close>

definition sht_crc :: "u8 \<Rightarrow> u8 \<Rightarrow> u8" where
  "sht_crc a b = crc8_byte (crc8_byte 0xFF a) b"

lemma sht3x_crc_eq: "off + 1 < length data \<Longrightarrow> sht3x_check_crc8 data off 2 c = Some (sht_crc (data ! off) (data ! (off + 1)) = c)"
  by (simp add: sht3x_check_crc8_def sht3x_get_crc8_def sht_crc_def rd_Some numeral_2_eq_2)

lemma sht3x_read_eq:
  assumes "sht3x_write_cmd dev 0xE000 io = Some (r1, io1)" and "rs_ok dev" and "rs_port dev \<le> 3" and "io_ok io"
    and "answers_with (sda_in (io_bus io1)) (sda_reads (io_bus io1)) j [t1, t2, tc, h1, h2, hc]" and "unat num \<le> length d"
  shows "\<exists>io2. tdd_sensor_sht3x_read dev d num io =
    (if sht_crc t1 t2 = tc \<and> sht_crc h1 h2 = hc
     then Some (OPRT_OK, map (\<lambda>e. if ed_id e = 0 then e\<lparr>ed_val := sht3x_calc_temp (be16 t1 t2)\<rparr>
       else if ed_id e = 1 then e\<lparr>ed_val := sht3x_calc_humi (be16 h1 h2)\<rparr> else e) (take (unat num) d) @ drop (unat num) d, dev, io2)
     else Some (OPRT_CRC32_FAILED, d, dev, io2))"
proof -
  have "io_ok io1" using sht3x_write_cmd_calls [OF assms(4,2), of "0xE000"] assms(1) by simp
  from th_read_eq [OF assms(2,3) this _ _ _ assms(5), of "replicate 6 0"] obtain io2
    where "th_xfer SR_I2C_FLAG_RD dev 6 (replicate 6 0) io1 = Some (OPRT_OK, [t1, t2, tc, h1, h2, hc], io2)" by (auto simp: numeral_eq_Suc)
  then have "sht3x_read_temp_humi dev io =
    (if sht_crc t1 t2 = tc \<and> sht_crc h1 h2 = hc then Some (OPRT_OK, be16 t1 t2, be16 h1 h2, io2) else Some (OPRT_CRC32_FAILED, 0, 0, io2))"
    using assms(1) by (simp add: sht3x_read_temp_humi_def sht3x_read_data_def sht3x_crc_eq rd_Some)
  then show ?thesis using th_fill_eq [OF assms(6)] by (auto simp: tdd_sensor_sht3x_read_def)
qed

text \<open>C21: A reading of the SHT3x. Whatever became of the fetch command, when the chip then answers with two words and their check bytes, the
  driver returns \<^verbatim>\<open>OPRT_OK\<close> exactly if both check bytes are right, and then every element asked for has the value of its
  word; otherwise it returns \<^verbatim>\<open>OPRT_CRC32_FAILED\<close> and the elements are as they were.\<close>

theorem sht3x_reading:
  assumes "sht3x_write_cmd dev 0xE000 io = Some (r1, io1)" and "rs_ok dev" and "rs_port dev \<le> 3" and "io_ok io"
    and "answers_with (sda_in (io_bus io1)) (sda_reads (io_bus io1)) j [t1, t2, tc, h1, h2, hc]" and "unat num \<le> length d"
  shows "\<exists>io2. tdd_sensor_sht3x_read dev d num io =
    (if sht_crc t1 t2 = tc \<and> sht_crc h1 h2 = hc
     then Some (OPRT_OK, map (\<lambda>e. if ed_id e = 0 then e\<lparr>ed_val := sht3x_calc_temp (be16 t1 t2)\<rparr>
       else if ed_id e = 1 then e\<lparr>ed_val := sht3x_calc_humi (be16 h1 h2)\<rparr> else e) (take (unat num) d) @ drop (unat num) d, dev, io2)
     else Some (OPRT_CRC32_FAILED, d, dev, io2))"
  by (rule sht3x_read_eq [OF assms])

text \<open>Two data bytes and their check byte that an error on the wire has changed.\<close>

definition corrupted :: "u8 \<Rightarrow> u8 \<Rightarrow> u8 \<Rightarrow> bool" where
  "corrupted p q r \<longleftrightarrow> (\<exists>a b e x y z. wire_error e \<and> err_bytes e = (x, y, z) \<and> p = a XOR x \<and> q = b XOR y \<and> r = sht_crc a b XOR z)"

lemma corrupted_shown: "corrupted p q r \<Longrightarrow> sht_crc p q \<noteq> r"
proof -
  assume "corrupted p q r"
  then obtain a b e x y z where c: "wire_error e" "err_bytes e = (x, y, z)" "p = a XOR x" "q = b XOR y" "r = sht_crc a b XOR z"
    by (auto simp: corrupted_def)
  have "syndrome x y z \<noteq> 0" using wire_error_shown [OF c(1)] c(2) by (simp add: syn_def)
  then show ?thesis using syndrome_check [of "0xFF" a x b y z] unfolding c(3-5) sht_crc_def by simp
qed

text \<open>C12: A reading of the SHT3x that was disturbed on the wire never reaches the application. If in either word, check byte included, a
  burst of up to eight bits or any two bits were turned over, the driver returns \<^verbatim>\<open>OPRT_CRC32_FAILED\<close> and the elements are as
  they were.\<close>

theorem sht3x_error_detected:
  assumes "sht3x_write_cmd dev 0xE000 io = Some (r1, io1)" and "rs_ok dev" and "rs_port dev \<le> 3" and "io_ok io"
    and "answers_with (sda_in (io_bus io1)) (sda_reads (io_bus io1)) j [t1, t2, tc, h1, h2, hc]" and "unat num \<le> length d"
    and "corrupted t1 t2 tc \<or> corrupted h1 h2 hc"
  shows "\<exists>io2. tdd_sensor_sht3x_read dev d num io = Some (OPRT_CRC32_FAILED, d, dev, io2)"
  using sht3x_read_eq [OF assms(1-6)] assms(7) corrupted_shown [of t1 t2 tc] corrupted_shown [of h1 h2 hc] by auto

text \<open>C40: The values of a reading are those of the data sheet to within the last bits of single precision: for every raw word the
  temperature is a finite number within \<open>2\<close> to the power of \<open>-16\<close> of \<open>175 * raw / 65535 - 45\<close> degrees and the
  humidity within \<open>2\<close> to the power of \<open>-17\<close> of \<open>100 * raw / 65535\<close> percent, and never negative.\<close>

theorem sht3x_accuracy:
  "(\<exists>t. sr_float (sht3x_calc_temp raw) = Fin t \<and> \<bar>t - (of_int (uint raw) * 175 / 65535 - 45)\<bar> \<le> 1 / 65536) \<and>
   (\<exists>v. sr_float (sht3x_calc_humi raw) = Fin v \<and> \<bar>v - of_int (uint raw) * 100 / 65535\<bar> \<le> 1 / 131072 \<and> 0 \<le> v)"
proof -
  have "uint raw < 65536" using uint_lt2p [of raw] by simp
  then show ?thesis using scale_shift [of "uint raw" 175 45] scale_only [of "uint raw" 100]
    by (simp add: sht3x_calc_temp_def sht3x_calc_humi_def)
qed

section \<open>Limits there and back\<close>

definition limit_frame :: "u16 \<Rightarrow> u8 list" where
  "limit_frame raw = [ucast (drop_bit 8 raw), ucast (raw AND 0x00FF), sht_crc (ucast (drop_bit 8 raw)) (ucast (raw AND 0x00FF))]"

lemma be16_bytes: "be16 (ucast (drop_bit 8 raw)) (ucast (raw AND 0x00FF)) = raw"
proof -
  have n: "(0x00FF :: u16) = mask 8" by (simp add: mask_eq_exp_minus_1)
  show ?thesis unfolding be16_def n by (rule bit_word_eqI) (auto simp: bit_simps dest: bit_imp_le_length)
qed

lemma sht3x_2bytes_eq:
  "sht3x_write_2bytes_data dev cmd raw io =
    do { (_, _, io) \<leftarrow> th_xfer SR_I2C_FLAG_WR dev 5 ([ucast (drop_bit 8 cmd), ucast (cmd AND 0x00FF)] @ limit_frame raw) io; Some io }"
  by (simp add: sht3x_write_2bytes_data_def sht3x_get_crc8_def sht_crc_def limit_frame_def rd_Some wr_Some Let_def numeral_2_eq_2 numeral_eq_Suc)

lemma abs_bounds: "\<bar>x - y\<bar> \<le> e \<Longrightarrow> x \<le> y + e" "\<bar>x - y\<bar> \<le> e \<Longrightarrow> y - e \<le> x" for x :: rat
  by linarith+

lemma temp_arith:
  fixes c t T m :: rat
  assumes "m \<le> c" "c < m + 128" "\<bar>T - (m * 175 / 65535 - 45)\<bar> \<le> 1 / 65536" "\<bar>c - (t + 45) * 65535 / 175\<bar> \<le> 1 / 80"
  shows "t - 342 / 1000 \<le> T" "T \<le> t + 1 / 10000"
proof -
  note a = abs_bounds [OF assms(3)] and b = abs_bounds [OF assms(4)]
  show "t - 342 / 1000 \<le> T" using a(2) assms(2) b(2) by (simp add: field_simps)
  show  "T \<le> t + 1 / 10000" using a(1) assms(1) b(1) by (simp add: field_simps)
qed

lemma humi_arith:
  fixes c v H m :: rat
  assumes "m \<le> c" "c < m + 512" "\<bar>H - m * 100 / 65535\<bar> \<le> 1 / 131072" "\<bar>c - v * 65535 / 100\<bar> \<le> 1 / 80"
  shows "v - 782 / 1000 \<le> H" "H \<le> v + 1 / 10000"
proof -
  note a = abs_bounds [OF assms(3)] and b = abs_bounds [OF assms(4)]
  show "v - 782 / 1000 \<le> H" using a(2) assms(2) b(2) by (simp add: field_simps)
  show  "H \<le> v + 1 / 10000" using a(1) assms(1) b(1) by (simp add: field_simps)
qed

lemma temp_back:
  assumes c: "\<bar>c - (t + 45) * 65535 / 175\<bar> \<le> 1 / 80" "0 \<le> c" "c < 65536"
  shows "\<exists>T. sr_float (sht3x_calc_temp (push_bit 7 (drop_bit 7 (word_of_int \<lfloor>c\<rfloor>)))) = Fin T \<and> t - 342 / 1000 \<le> T \<and> T \<le> t + 1 / 10000"
proof -
  let ?n = "uint (push_bit 7 (drop_bit 7 (word_of_int \<lfloor>c\<rfloor> :: u16)))"
  note n = cut_bounds [OF c(2,3), of 7]
  obtain T where T: "sr_float (sht3x_calc_temp (push_bit 7 (drop_bit 7 (word_of_int \<lfloor>c\<rfloor>)))) = Fin T" "\<bar>T - (of_int ?n * 175 / 65535 - 45)\<bar> \<le> 1 / 65536"
    using scale_shift [of ?n 175 45] n by (auto simp: sht3x_calc_temp_def)
  define m :: rat where "m = of_int ?n"
  have m: "m \<le> c" "c < m + 128" "\<bar>T - (m * 175 / 65535 - 45)\<bar> \<le> 1 / 65536" using n T(2) by (simp_all add: m_def)
  have "t - 342 / 1000 \<le> T" "T \<le> t + 1 / 10000" using temp_arith [OF m c(1)] by simp_all
  then show ?thesis using T(1) by blast
qed

lemma humi_back:
  assumes c: "\<bar>c - v * 65535 / 100\<bar> \<le> 1 / 80" "0 \<le> c" "c < 65536"
  shows "\<exists>H. sr_float (sht3x_calc_humi (push_bit 9 (drop_bit 9 (word_of_int \<lfloor>c\<rfloor>)))) = Fin H \<and> v - 782 / 1000 \<le> H \<and> H \<le> v + 1 / 10000"
proof -
  let ?n = "uint (push_bit 9 (drop_bit 9 (word_of_int \<lfloor>c\<rfloor> :: u16)))"
  note n = cut_bounds [OF c(2,3), of 9]
  obtain H where H: "sr_float (sht3x_calc_humi (push_bit 9 (drop_bit 9 (word_of_int \<lfloor>c\<rfloor>)))) = Fin H" "\<bar>H - of_int ?n * 100 / 65535\<bar> \<le> 1 / 131072"
    using scale_only [of ?n 100] n by (auto simp: sht3x_calc_humi_def)
  define m :: rat where "m = of_int ?n"
  have m: "m \<le> c" "c < m + 512" "\<bar>H - m * 100 / 65535\<bar> \<le> 1 / 131072" using n H(2) by (simp_all add: m_def)
  have "v - 782 / 1000 \<le> H" "H \<le> v + 1 / 10000" using humi_arith [OF m c(1)] by simp_all
  then show ?thesis using H(1) by blast
qed

lemma th_write_eq:
  assumes dev: "rs_ok dev" "rs_port dev \<le> 3" and p: "rd (sg_i2c_pin io) (unat (rs_port dev)) = Some p" "scl p \<noteq> sda p"
    and data: "data \<noteq> []" "length data < 256"
    and tk_def: "tk = taken False (sda_in (io_bus io)) (sda_reads (io_bus io)) (push_bit 1 (rs_info dev ! 1) # data)"
  shows "\<exists>r w ops. th_xfer SR_I2C_FLAG_WR dev (of_nat (length data)) data io = Some (r, data, io\<lparr>io_bus := w\<rparr>) \<and>
    gpio_ops w = gpio_ops (io_bus io) @ ops \<and> lines_after p idle_lines ops = idle_lines \<and> receive None (watch p idle_lines ops) = [fst tk]"
proof -
  have n: "\<not> rs_port dev > 3" "0 < length data" using dev(2) data(1) by auto
  show ?thesis using write_xfer_eq [OF p(1) n(1) p(2) n(2) data(2) le_refl, of tk "rs_info dev ! 1"] tk_def info_rd [OF dev(1), of 1]
    by (force simp: th_xfer_def wr_msg_def dest: spec [of _ "[]"])
qed

lemma sht3x_read_limit_eq:
  assumes "sht3x_write_cmd dev cmd io = Some (r1, io1)" and "rs_ok dev" and "rs_port dev \<le> 3" and "io_ok io"
    and "answers_with (sda_in (io_bus io1)) (sda_reads (io_bus io1)) j (limit_frame raw)"
  shows "\<exists>io2. sht3x_read_limit dev cmd old io = Some (OPRT_OK, (sht3x_calc_temp (push_bit 7 raw), sht3x_calc_humi (raw AND 0xFE00)), io2)"
proof -
  have "io_ok io1" using sht3x_write_cmd_calls [OF assms(4,2), of cmd] assms(1) by simp
  from th_read_eq [OF assms(2,3) this _ _ _ assms(5), of "replicate 3 0"] obtain io2
    where "th_xfer SR_I2C_FLAG_RD dev 3 (replicate 3 0) io1 = Some (OPRT_OK, limit_frame raw, io2)" by (auto simp: limit_frame_def numeral_eq_Suc)
  then show ?thesis using assms(1) be16_bytes [of raw]
    by (simp add: sht3x_read_limit_def sht3x_read_data_def sht3x_crc_eq rd_Some limit_frame_def Let_def)
qed

text \<open>C23: An alert limit that is set is the limit that is read back, to within what the chip's register holds. For a temperature
  from \<open>-40\<close> to \<open>125\<close> degrees and a humidity from \<open>0\<close> to \<open>100\<close> percent there are three bytes such
  that the chip receives, in one message, its address, the command and these bytes; and when the chip answers a later query
  with them, the driver returns \<^verbatim>\<open>OPRT_OK\<close> with a temperature less than \<open>0.342\<close> degrees below and a
  humidity less than \<open>0.782\<close> percent below the ones set, and neither more than a ten-thousandth above.\<close>

theorem sht3x_limit_roundtrip:
  assumes "rs_ok dev" and "rs_port dev \<le> 3" and "io_ok io" and "rd (sg_i2c_pin io) (unat (rs_port dev)) = Some p" and "scl p \<noteq> sda p"
    and "sr_float tv = Fin t" and "- 40 \<le> t" and "t \<le> 125" and "sr_float hv = Fin v" and "0 \<le> v" and "v \<le> 100"
  shows "\<exists>frame w ops. length frame = 3 \<and> sht3x_write_limit dev wcmd tv hv io = Some (OPRT_OK, io\<lparr>io_bus := w\<rparr>) \<and>
    gpio_ops w = gpio_ops (io_bus io) @ ops \<and>
    receive None (watch p idle_lines ops) = [fst (taken False (sda_in (io_bus io)) (sda_reads (io_bus io))
      ([push_bit 1 (rs_info dev ! 1), ucast (drop_bit 8 wcmd), ucast (wcmd AND 0x00FF)] @ frame))] \<and>
    (\<forall>io1 r io2 j. io_ok io1 \<longrightarrow> sht3x_write_cmd dev rcmd io1 = Some (r, io2) \<longrightarrow>
      answers_with (sda_in (io_bus io2)) (sda_reads (io_bus io2)) j frame \<longrightarrow>
      (\<exists>tv' hv' T H io3. sht3x_read_limit dev rcmd old io1 = Some (OPRT_OK, (tv', hv'), io3) \<and> sr_float tv' = Fin T \<and> sr_float hv' = Fin H \<and>
        t - 342 / 1000 \<le> T \<and> T \<le> t + 1 / 10000 \<and> v - 782 / 1000 \<le> H \<and> H \<le> v + 1 / 10000))"
proof -
  obtain c d where raw: "sht3x_limit_raw tv hv = Some ((word_of_int \<lfloor>d\<rfloor> AND 0xFE00) OR (drop_bit 7 (word_of_int \<lfloor>c\<rfloor>) AND 0x001FF))"
    and c: "\<bar>c - (t + 45) * 65535 / 175\<bar> \<le> 1 / 80" "0 \<le> c" "c < 65536" and d: "\<bar>d - v * 65535 / 100\<bar> \<le> 1 / 80" "0 \<le> d" "d < 65536"
    using sht3x_limit_raw_eq [OF assms(6-11)] by blast
  define rw :: u16 where "rw = (word_of_int \<lfloor>d\<rfloor> AND 0xFE00) OR (drop_bit 7 (word_of_int \<lfloor>c\<rfloor>) AND 0x001FF)"
  note unpack = limit_unpack [of "word_of_int \<lfloor>d\<rfloor>" "word_of_int \<lfloor>c\<rfloor>", folded rw_def]
  obtain T where T: "sr_float (sht3x_calc_temp (push_bit 7 rw)) = Fin T" "t - 342 / 1000 \<le> T" "T \<le> t + 1 / 10000"
    using temp_back [OF c] unpack(1) by auto
  obtain H where H: "sr_float (sht3x_calc_humi (rw AND 0xFE00)) = Fin H" "v - 782 / 1000 \<le> H" "H \<le> v + 1 / 10000"
    using humi_back [OF d] unpack(2) by auto
  let ?data = "[ucast (drop_bit 8 wcmd), ucast (wcmd AND 0x00FF)] @ limit_frame rw"
  have len: "length ?data = 5" by (simp add: limit_frame_def)
  obtain r w ops where wr: "th_xfer SR_I2C_FLAG_WR dev 5 ?data io = Some (r, ?data, io\<lparr>io_bus := w\<rparr>)" "gpio_ops w = gpio_ops (io_bus io) @ ops"
    "receive None (watch p idle_lines ops) = [fst (taken False (sda_in (io_bus io)) (sda_reads (io_bus io)) (push_bit 1 (rs_info dev ! 1) # ?data))]"
    using th_write_eq [OF assms(1,2,4,5), of ?data] len by auto
  have rng: "\<not> fless (sr_float hv) (Fin 0)" "\<not> fless (Fin 100) (sr_float hv)" "\<not> fless (sr_float tv) (Fin (- 40))" "\<not> fless (Fin 125) (sr_float tv)"
    using assms(6-11) by (simp_all add: fless_def)
  have "sht3x_write_limit dev wcmd tv hv io = Some (OPRT_OK, io\<lparr>io_bus := w\<rparr>)"
    using rng raw wr(1) by (simp add: sht3x_write_limit_def sht3x_2bytes_eq rw_def)
  moreover have "\<exists>io3. sht3x_read_limit dev rcmd old io1 = Some (OPRT_OK, (sht3x_calc_temp (push_bit 7 rw), sht3x_calc_humi (rw AND 0xFE00)), io3)"
    if "io_ok io1" "sht3x_write_cmd dev rcmd io1 = Some (r, io2)" "answers_with (sda_in (io_bus io2)) (sda_reads (io_bus io2)) j (limit_frame rw)" for io1 r io2 j
    using sht3x_read_limit_eq [OF that(2) assms(1,2) that(1,3)] .
  ultimately show ?thesis using wr(2,3) T H
    by (intro exI [of _ "limit_frame rw"] exI [of _ w] exI [of _ ops]) (force simp: limit_frame_def)
qed

text \<open>A new rate goes where the repeatability is kept; the rate in use stays what it was.\<close>

lemma sht3x_frequency_ignored:
  assumes "rs_ok dev" "io_ok io" "v < SR_TH_FREQ_INVALID"
  shows "\<exists>dev' io'. sht3x_set_frequency dev (Some v) io = Some (OPRT_OK, dev', io') \<and>
    rs_info dev' = (rs_info dev)[RSRC_INDEX_PREC := v] \<and> rs_info dev' ! RSRC_INDEX_FREQ = rs_info dev ! RSRC_INDEX_FREQ"
proof -
  let ?dev = "dev\<lparr>rs_info := (rs_info dev)[RSRC_INDEX_PREC := v]\<rparr>"
  have d: "put_info RSRC_INDEX_PREC v dev = Some ?dev" "rs_ok ?dev" using assms(1) by (simp_all add: put_info_def rs_ok_def wr_Some)
  obtain io' where "sht3x_start_periodic_measurement ?dev io = Some io'" using sht3x_start_calls [OF assms(2) d(2)] by (auto simp: wp_iff)
  then show ?thesis using d(1) assms(3) by (simp add: sht3x_set_frequency_def not_le)
qed

section \<open>A reading, bit by bit\<close>

text \<open>A chip on a quiet bus that acknowledges a command of two bytes and then a read, and answers with \<open>data\<close>.\<close>

definition ex_chip :: "u8 list \<Rightarrow> nat \<Rightarrow> bool" where
  "ex_chip data k \<longleftrightarrow> 4 \<le> k \<and> k < 4 + 8 * length data \<and> bit (data ! ((k - 4) div 8)) (7 - (k - 4) mod 8)"

lemma ex_chip_answers: "answers_with (ex_chip data) 3 0 data"
proof -
  have "3 + 0 + 1 + 8 * i + b - 4 = b + i * 8" for i b :: nat by simp
  then show ?thesis by (auto simp: answers_with_def ex_chip_def)
qed

definition ex_dev :: SR_RSRC_T where
  "ex_dev = \<lparr>rs_type = 0, rs_port = 1, rs_handle = 0, rs_info = [0, 0x44, 2, 1, 0, 0, 0, 0]\<rparr>"

lemma ex_ok: "rs_ok ex_dev" "rs_port ex_dev \<le> 3" "io_ok (ex_io f)" "rd (sg_i2c_pin (ex_io f)) (unat (rs_port ex_dev)) = Some ex_pins"
  "scl ex_pins \<noteq> sda ex_pins" "rd (rs_info ex_dev) 1 = Some 0x44"
  by (simp_all add: rs_ok_def ex_dev_def io_ok_def ex_io_def rd_def ex_pins_def)

lemma ex_info: "rs_info ex_dev ! 1 = 0x44" "rs_info ex_dev ! Suc 0 = 0x44"
  by (simp_all add: ex_dev_def)

lemma ex_cmd:
  "\<exists>io. sht3x_write_cmd ex_dev cmd (ex_io (ex_chip data)) = Some (OPRT_OK, io) \<and> sda_in (io_bus io) = ex_chip data \<and> sda_reads (io_bus io) = 3"
proof -
  let ?c = "ex_chip data" and ?b = "[ucast (drop_bit 8 cmd), ucast (cmd AND 0x00FF)] :: u8 list"
  have a: "answer ?c k 11 = Some 0" if "k < 3" for k using that by (intro answer_at) (auto simp: ex_chip_def)
  have "\<exists>w. sw_i2c_write_data ex_pins 0x44 ?b 2 SR_I2C_FLAG_WR (ex_bus ?c) = Some (0, w) \<and> sda_in w = ?c \<and> sda_reads w = 3"
    by (simp add: write_as_loop put_checked a rd_def start_ops ex_bus_def stop_ops upt_conv_Cons)
  then show ?thesis
    by (auto simp: sht3x_write_cmd_def th_xfer_def ex_ok tdd_sensor_i2c_xfer_def sr_i2c_write_data_def ex_dev_def ex_io_def rd_def)
qed

lemma ex_crc: "sht_crc 0 0 = 0x81" "sht_crc 0xBE 0xEF = 0x92"
proof -
  have step: "crc8_bit 0xff = 0xcf" "crc8_bit 0xcf = 0xaf" "crc8_bit 0xaf = 0x6f" "crc8_bit 0x6f = 0xde" "crc8_bit 0xde = 0x8d" "crc8_bit 0x8d = 0x2b" "crc8_bit 0x2b = 0x56" "crc8_bit 0x56 = 0xac" "crc8_bit 0xac = 0x69" "crc8_bit 0x69 = 0xd2" "crc8_bit 0xd2 = 0x95" "crc8_bit 0x95 = 0x1b" "crc8_bit 0x1b = 0x36" "crc8_bit 0x36 = 0x6c" "crc8_bit 0x6c = 0xd8" "crc8_bit 0xd8 = 0x81" "crc8_bit 0x41 = 0x82" "crc8_bit 0x82 = 0x35" "crc8_bit 0x35 = 0x6a" "crc8_bit 0x6a = 0xd4" "crc8_bit 0xd4 = 0x99" "crc8_bit 0x99 = 0x3" "crc8_bit 0x3 = 0x6" "crc8_bit 0x6 = 0xc" "crc8_bit 0xe3 = 0xf7" "crc8_bit 0xf7 = 0xdf" "crc8_bit 0xdf = 0x8f" "crc8_bit 0x8f = 0x2f" "crc8_bit 0x2f = 0x5e" "crc8_bit 0x5e = 0xbc" "crc8_bit 0xbc = 0x49" "crc8_bit 0x49 = 0x92"
    by (simp_all add: crc8_bit_def)
  show "sht_crc 0 0 = 0x81" "sht_crc 0xBE 0xEF = 0x92" by (simp_all add: sht_crc_def crc8_byte_def step eval_nat_numeral)
qed

theorem sht3x_reading_witness:
  "\<exists>io. tdd_sensor_sht3x_read ex_dev [\<lparr>ed_id = 1, ed_val = 0\<rparr>, \<lparr>ed_id = 0, ed_val = 0\<rparr>] 2 (ex_io (ex_chip [0xBE, 0xEF, 0x92, 0, 0, 0x81])) =
    Some (OPRT_OK, [\<lparr>ed_id = 1, ed_val = sht3x_calc_humi 0\<rparr>, \<lparr>ed_id = 0, ed_val = sht3x_calc_temp 0xBEEF\<rparr>], ex_dev, io)"
proof -
  let ?data = "[0xBE, 0xEF, 0x92, 0, 0, 0x81] :: u8 list"
  obtain io where io: "sht3x_write_cmd ex_dev 0xE000 (ex_io (ex_chip ?data)) = Some (OPRT_OK, io)" "sda_in (io_bus io) = ex_chip ?data" "sda_reads (io_bus io) = 3"
    using ex_cmd by blast
  have "answers_with (sda_in (io_bus io)) (sda_reads (io_bus io)) 0 ?data" unfolding io(2,3) by (rule ex_chip_answers)
  from sht3x_reading [OF io(1) ex_ok(1,2,3) this, of 2 "[\<lparr>ed_id = 1, ed_val = 0\<rparr>, \<lparr>ed_id = 0, ed_val = 0\<rparr>]"]
  show ?thesis by (simp add: ex_crc be16_def)
qed

text \<open>The last bit of the first word turned over.\<close>

lemma ex_corrupted: "corrupted 0xBE 0xEE 0x92"
proof -
  have "wire_error 0x100" unfolding wire_error_def by (intro disjI1 exI [of _ 8] exI [of _ 1]) simp
  moreover have "err_bytes 0x100 = (0, 1, 0)" by (simp add: err_bytes_def)
  ultimately show ?thesis unfolding corrupted_def
    by (intro exI [of _ "0xBE"] exI [of _ "0xEF"] exI [of _ "0x100"] exI [of _ 0] exI [of _ 1]) (simp add: ex_crc)
qed

theorem sht3x_error_detected_witness:
  "\<exists>io. tdd_sensor_sht3x_read ex_dev [\<lparr>ed_id = 0, ed_val = 7\<rparr>] 1 (ex_io (ex_chip [0xBE, 0xEE, 0x92, 0, 0, 0x81])) =
    Some (OPRT_CRC32_FAILED, [\<lparr>ed_id = 0, ed_val = 7\<rparr>], ex_dev, io)"
proof -
  let ?data = "[0xBE, 0xEE, 0x92, 0, 0, 0x81] :: u8 list"
  obtain io where io: "sht3x_write_cmd ex_dev 0xE000 (ex_io (ex_chip ?data)) = Some (OPRT_OK, io)" "sda_in (io_bus io) = ex_chip ?data" "sda_reads (io_bus io) = 3"
    using ex_cmd by blast
  have "answers_with (sda_in (io_bus io)) (sda_reads (io_bus io)) 0 ?data" unfolding io(2,3) by (rule ex_chip_answers)
  from sht3x_error_detected [OF io(1) ex_ok(1,2,3) this, of 1 "[\<lparr>ed_id = 0, ed_val = 7\<rparr>]"] ex_corrupted
  show ?thesis by simp
qed

theorem sht3x_limit_roundtrip_witness:
  "\<exists>frame w ops. length frame = 3 \<and> sht3x_write_limit ex_dev 0x611D 0 0 (ex_io (\<lambda>_. False)) = Some (OPRT_OK, (ex_io (\<lambda>_. False))\<lparr>io_bus := w\<rparr>) \<and>
    gpio_ops w = ops \<and> receive None (watch ex_pins idle_lines ops) = [[0x88, 0x61, 0x1D] @ frame] \<and>
    (\<exists>tv hv T H io. sht3x_read_limit ex_dev 0xE11F (1, 1) (ex_io (ex_chip frame)) = Some (OPRT_OK, (tv, hv), io) \<and> sr_float tv = Fin T \<and> sr_float hv = Fin H \<and>
      - 342 / 1000 \<le> T \<and> T \<le> 1 / 10000 \<and> - 782 / 1000 \<le> H \<and> H \<le> 1 / 10000)"
proof -
  let ?io = "ex_io (\<lambda>_. False)"
  have z: "sr_float 0 = Fin 0" by (simp add: sr_float_def)
  have bus: "sda_in (io_bus ?io) = (\<lambda>_. False)" "sda_reads (io_bus ?io) = 0" "gpio_ops (io_bus ?io) = []" by (simp_all add: ex_io_def ex_bus_def)
  have tk: "taken False (\<lambda>_. False) k bs = (bs, True)" for k bs by (induction bs arbitrary: k) (simp_all add: eval_nat_numeral)
  define gives :: "u8 list \<Rightarrow> bool" where
    "gives frame \<longleftrightarrow> (\<forall>io1 r io2 j. io_ok io1 \<longrightarrow> sht3x_write_cmd ex_dev 0xE11F io1 = Some (r, io2) \<longrightarrow>
      answers_with (sda_in (io_bus io2)) (sda_reads (io_bus io2)) j frame \<longrightarrow>
      (\<exists>tv hv T H io. sht3x_read_limit ex_dev 0xE11F (1, 1) io1 = Some (OPRT_OK, (tv, hv), io) \<and> sr_float tv = Fin T \<and> sr_float hv = Fin H \<and>
        0 - 342 / 1000 \<le> T \<and> T \<le> 0 + 1 / 10000 \<and> 0 - 782 / 1000 \<le> H \<and> H \<le> 0 + 1 / 10000))" for frame
  obtain frame w ops where f: "length frame = 3" "sht3x_write_limit ex_dev 0x611D 0 0 ?io = Some (OPRT_OK, ?io\<lparr>io_bus := w\<rparr>)" "gpio_ops w = ops"
    "receive None (watch ex_pins idle_lines ops) = [[0x88, 0x61, 0x1D] @ frame]" "gives frame"
    using sht3x_limit_roundtrip [OF ex_ok(1,2) ex_ok(3,4) [of "\<lambda>_. False"] ex_ok(5) z _ _ z, where wcmd = "0x611D" and rcmd = "0xE11F" and old = "(1, 1)", folded gives_def]
    unfolding bus tk by (auto simp: ex_info)
  obtain io where io: "sht3x_write_cmd ex_dev 0xE11F (ex_io (ex_chip frame)) = Some (OPRT_OK, io)" "sda_in (io_bus io) = ex_chip frame" "sda_reads (io_bus io) = 3"
    using ex_cmd by blast
  have a: "answers_with (sda_in (io_bus io)) (sda_reads (io_bus io)) 0 frame" unfolding io(2,3) by (rule ex_chip_answers)
  obtain tv hv T H io' where rd: "sht3x_read_limit ex_dev 0xE11F (1, 1) (ex_io (ex_chip frame)) = Some (OPRT_OK, (tv, hv), io')" "sr_float tv = Fin T" "sr_float hv = Fin H"
    "0 - 342 / 1000 \<le> T" "T \<le> 0 + 1 / 10000" "0 - 782 / 1000 \<le> H" "H \<le> 0 + 1 / 10000"
    using f(5) [unfolded gives_def] ex_ok(3) io(1) a by blast
  show ?thesis using f(1-4) rd by (intro exI [of _ frame] exI [of _ w] exI [of _ ops]) simp
qed

end
