(* ===== verification/Sensor_Sht4x.thy ===== *)
theory Sensor_Sht4x
  imports Sensor_Th
begin

text \<open>The driver of the temperature and humidity chip SHT4x, \<^verbatim>\<open>tdd_sensor_sht4x.c\<close>.\<close>

abbreviation (input) SHT4X_CMD_READ_SERIALNBR :: u8 where "SHT4X_CMD_READ_SERIALNBR \<equiv> 0x89"
abbreviation (input) SHT4X_CMD_SOFT_RESET :: u8 where "SHT4X_CMD_SOFT_RESET \<equiv> 0x94"
abbreviation (input) SR_TH_HEATER_PWR_INVALID :: u8 where "SR_TH_HEATER_PWR_INVALID \<equiv> 3"
abbreviation (input) SR_TH_HEATER_TIM_INVALID :: u8 where "SR_TH_HEATER_TIM_INVALID \<equiv> 2"

section \<open>Messages\<close>

definition sht4x_get_crc8 :: "u8 list \<Rightarrow> nat \<Rightarrow> nat \<Rightarrow> u8 option" where
  "sht4x_get_crc8 data off len = foldM (\<lambda>i crc. do { b \<leftarrow> rd data (off + i); Some (crc8_byte crc b) }) [0..<len] 0xFF"

definition sht4x_check_crc8 :: "u8 list \<Rightarrow> nat \<Rightarrow> nat \<Rightarrow> u8 \<Rightarrow> bool option" where
  "sht4x_check_crc8 data off len crc_val = do { c \<leftarrow> sht4x_get_crc8 data off len; Some (c = crc_val) }"

definition sht4x_read_data :: "SR_RSRC_T \<Rightarrow> u16 \<Rightarrow> u8 list \<Rightarrow> sr_io \<Rightarrow> (u8 list \<times> sr_io) option" where
  "sht4x_read_data dev len data io = do { (_, buf, io) \<leftarrow> th_xfer SR_I2C_FLAG_RD dev len data io; Some (buf, io) }"

definition sht4x_write_cmd :: "SR_RSRC_T \<Rightarrow> u8 \<Rightarrow> sr_io \<Rightarrow> sr_io option" where
  "sht4x_write_cmd dev cmd io = do { (_, _, io) \<leftarrow> th_xfer SR_I2C_FLAG_WR dev 1 [cmd] io; Some io }"

definition sht4x_start_single_measurement :: "SR_RSRC_T \<Rightarrow> sr_io \<Rightarrow> sr_io option" where
  "sht4x_start_single_measurement dev io = do {
     prec \<leftarrow> rd (rs_info dev) RSRC_INDEX_PREC;
     sht4x_write_cmd dev (if prec = 1 then 0xF6 else if prec = 2 then 0xE0 else 0xFD) io }"

definition sht4x_set_precision :: "SR_RSRC_T \<Rightarrow> u8 option \<Rightarrow> (OPERATE_RET \<times> SR_RSRC_T) option" where
  "sht4x_set_precision dev prec =
     (case prec of
        None \<Rightarrow> Some (OPRT_INVALID_PARM, dev)
      | Some v \<Rightarrow> if v \<ge> SR_TH_PREC_INVALID then Some (OPRT_INVALID_PARM, dev)
          else do { dev \<leftarrow> put_info RSRC_INDEX_PREC v dev; Some (OPRT_OK, dev) })"

definition sht4x_calc_temp :: "u16 \<Rightarrow> SR_VAL_U" where
  "sht4x_calc_temp temp = put_float (fsub (fdiv (fmul (of_int_f (uint temp)) (Fin 175)) (Fin 65535)) (Fin 45))"

definition sht4x_calc_humi :: "u16 \<Rightarrow> SR_VAL_U" where
  "sht4x_calc_humi humi = put_float (fsub (fdiv (fmul (of_int_f (uint humi)) (Fin 125)) (Fin 65535)) (Fin 6))"

definition sht4x_read_temp_humi :: "SR_RSRC_T \<Rightarrow> sr_io \<Rightarrow> (OPERATE_RET \<times> u16 \<times> u16 \<times> sr_io) option" where
  "sht4x_read_temp_humi dev io = do {
     (buf, io) \<leftarrow> sht4x_read_data dev 6 (replicate 6 0) io;
     c2 \<leftarrow> rd buf 2;
     ok1 \<leftarrow> sht4x_check_crc8 buf 0 2 c2;
     c5 \<leftarrow> rd buf 5;
     ok2 \<leftarrow> sht4x_check_crc8 buf 3 2 c5;
     if \<not> ok1 \<or> \<not> ok2 then Some (OPRT_CRC32_FAILED, 0, 0, io)
     else do {
       a \<leftarrow> rd buf 0; b \<leftarrow> rd buf 1; c \<leftarrow> rd buf 3; d \<leftarrow> rd buf 4;
       Some (OPRT_OK, be16 a b, be16 c d, io) } }"

section \<open>Commands\<close>

definition sht4x_activate_heater :: "SR_RSRC_T \<Rightarrow> SR_TH_HEATER_T option \<Rightarrow> sr_io \<Rightarrow> (OPERATE_RET \<times> sr_io) option" where
  "sht4x_activate_heater dev heater io =
     (case heater of
        None \<Rightarrow> Some (OPRT_INVALID_PARM, io)
      | Some ht \<Rightarrow>
          if ht_power ht \<ge> SR_TH_HEATER_PWR_INVALID \<or> ht_time ht \<ge> SR_TH_HEATER_TIM_INVALID then Some (OPRT_INVALID_PARM, io)
          else do {
            io \<leftarrow> sht4x_write_cmd dev
              (if ht_power ht = 0 then (if ht_time ht = 0 then 0x39 else 0x32)
               else if ht_power ht = 1 then (if ht_time ht = 0 then 0x2F else 0x24)
               else (if ht_time ht = 0 then 0x1E else 0x15)) io;
            Some (OPRT_OK, io) })"

definition sht4x_soft_reset :: "SR_RSRC_T \<Rightarrow> sr_io \<Rightarrow> (OPERATE_RET \<times> sr_io) option" where
  "sht4x_soft_reset dev io = do { io \<leftarrow> sht4x_write_cmd dev SHT4X_CMD_SOFT_RESET io; Some (OPRT_OK, th_sleep 50 io) }"

definition sht4x_read_serial_number :: "SR_RSRC_T \<Rightarrow> sr_io \<Rightarrow> (OPERATE_RET \<times> u32 option \<times> sr_io) option" where
  "sht4x_read_serial_number dev io = do {
     io \<leftarrow> sht4x_write_cmd dev SHT4X_CMD_READ_SERIALNBR io;
     let io = th_sleep 20 io;
     (buf, io) \<leftarrow> sht4x_read_data dev 6 (replicate 6 0) io;
     c2 \<leftarrow> rd buf 2;
     ok1 \<leftarrow> sht4x_check_crc8 buf 0 2 c2;
     c5 \<leftarrow> rd buf 5;
     ok2 \<leftarrow> sht4x_check_crc8 buf 3 2 c5;
     if \<not> ok1 \<or> \<not> ok2 then Some (OPRT_CRC32_FAILED, None, io)
     else do {
       a \<leftarrow> rd buf 0; b \<leftarrow> rd buf 1; c \<leftarrow> rd buf 3; d \<leftarrow> rd buf 4;
       Some (OPRT_OK, Some (be32 a b c d), io) } }"

section \<open>The interface of the driver\<close>

definition tdd_sensor_sht4x_open :: "SR_RSRC_T \<Rightarrow> sr_io \<Rightarrow> (OPERATE_RET \<times> SR_RSRC_T \<times> sr_io) option" where
  "tdd_sensor_sht4x_open dev io = do { dev \<leftarrow> put_info RSRC_INDEX_STAT 1 dev; Some (OPRT_OK, dev, io) }"

definition tdd_sensor_sht4x_close :: "SR_RSRC_T \<Rightarrow> sr_io \<Rightarrow> (OPERATE_RET \<times> SR_RSRC_T \<times> sr_io) option" where
  "tdd_sensor_sht4x_close dev io = do { dev \<leftarrow> put_info RSRC_INDEX_STAT 0 dev; Some (OPRT_OK, dev, io) }"

definition tdd_sensor_sht4x_control :: "SR_RSRC_T \<Rightarrow> u8 \<Rightarrow> th_param \<Rightarrow> sr_io \<Rightarrow> (OPERATE_RET \<times> th_param \<times> SR_RSRC_T \<times> sr_io) option" where
  "tdd_sensor_sht4x_control dev cmd param io = do {
     stat \<leftarrow> rd (rs_info dev) RSRC_INDEX_STAT;
     if stat = 1 \<and> (cmd = SR_TH_CMD_SOFT_RESET \<or> cmd = SR_TH_CMD_GET_SERIAL_NBR) then Some (OPRT_COM_ERROR, param, dev, io)
     else if cmd = SR_TH_CMD_SOFT_RESET then do { (r, io) \<leftarrow> sht4x_soft_reset dev io; Some (r, param, dev, io) }
     else if cmd = SR_TH_CMD_GET_SERIAL_NBR then do {
       (r, v, io) \<leftarrow> sht4x_read_serial_number dev io;
       p \<leftarrow> put_serial v param;
       Some (r, p, dev, io) }
     else if cmd = SR_TH_CMD_SET_PREC then do {
       v \<leftarrow> byte_arg param; (r, dev) \<leftarrow> sht4x_set_precision dev v; Some (r, param, dev, io) }
     else if cmd = SR_TH_CMD_ACTIVATE_HEATER then do {
       ht \<leftarrow> (case param of P_null \<Rightarrow> Some None | P_heater ht \<Rightarrow> Some (Some ht) | _ \<Rightarrow> None);
       (r, io) \<leftarrow> sht4x_activate_heater dev ht io;
       Some (r, param, dev, io) }
     else Some (OPRT_INVALID_PARM, param, dev, io) }"

definition tdd_sensor_sht4x_read :: "SR_RSRC_T \<Rightarrow> SR_ELE_DATA_T list \<Rightarrow> u8 \<Rightarrow> sr_io \<Rightarrow> (OPERATE_RET \<times> SR_ELE_DATA_T list \<times> SR_RSRC_T \<times> sr_io) option" where
  "tdd_sensor_sht4x_read dev ele_data num io = do {
     io \<leftarrow> sht4x_start_single_measurement dev io;
     let io = th_sleep 20 io;
     (r, temp, humi, io) \<leftarrow> sht4x_read_temp_humi dev io;
     if r \<noteq> OPRT_OK then Some (r, ele_data, dev, io)
     else do {
       d \<leftarrow> th_fill (sht4x_calc_temp temp) (sht4x_calc_humi humi) num ele_data;
       Some (OPRT_OK, d, dev, io) } }"

definition sht4x_intfs :: th_intfs where
  "sht4x_intfs = \<lparr>in_open = Some tdd_sensor_sht4x_open, in_close = Some tdd_sensor_sht4x_close, in_control = Some tdd_sensor_sht4x_control,
     in_read_ele = Some tdd_sensor_sht4x_read, in_read_raw = None\<rparr>"

definition tdd_sensor_sht4x_register ::
  "sr_env \<Rightarrow> string option \<Rightarrow> SR_TH_I2C_CFG_T \<Rightarrow> u8 \<Rightarrow> (th_param, sr_io) sr_hub \<Rightarrow> (OPERATE_RET \<times> (th_param, sr_io) sr_hub) option" where
  "tdd_sensor_sht4x_register env name i2c_cfg prec = th_register sht4x_intfs [0, ic_addr i2c_cfg, prec, 0, 0, 0, 0, 0] env name i2c_cfg"

section \<open>The contract of the manager\<close>

lemma sht4x_check_calls [calls]: "off + len \<le> length data \<Longrightarrow> wp (sht4x_check_crc8 data off len c) (\<lambda>_. True)"
  unfolding sht4x_check_crc8_def sht4x_get_crc8_def wp_simps by (rule wp_foldM) (auto simp: wp_rd)

lemma sht4x_write_cmd_calls [calls]: "io_ok io \<Longrightarrow> rs_ok dev \<Longrightarrow> wp (sht4x_write_cmd dev cmd io) io_ok"
  by (auto simp: sht4x_write_cmd_def intro!: th_xfer_calls [THEN wp_mono])

lemma sht4x_read_data_calls [calls]:
  "io_ok io \<Longrightarrow> rs_ok dev \<Longrightarrow> unat (ucast len :: u8) \<le> length data \<Longrightarrow> data \<noteq> [] \<Longrightarrow>
    wp (sht4x_read_data dev len data io) (\<lambda>(buf, io'). length buf = length data \<and> io_ok io')"
  by (auto simp: sht4x_read_data_def intro!: th_xfer_calls [THEN wp_mono])

lemma sht4x_temp_humi_calls [calls]: "io_ok io \<Longrightarrow> rs_ok dev \<Longrightarrow> wp (sht4x_read_temp_humi dev io) (\<lambda>(r, t, v, io'). io_ok io')"
  by (auto simp: sht4x_read_temp_humi_def wp_rd intro!: sht4x_read_data_calls [THEN wp_mono] sht4x_check_calls [THEN wp_mono])

lemma sht4x_serial_calls [calls]: "io_ok io \<Longrightarrow> rs_ok dev \<Longrightarrow> wp (sht4x_read_serial_number dev io) (\<lambda>(r, v, io'). io_ok io')"
  by (auto simp: sht4x_read_serial_number_def wp_rd Let_def intro!: sht4x_write_cmd_calls [THEN wp_mono] sht4x_read_data_calls [THEN wp_mono]
    sht4x_check_calls [THEN wp_mono])

lemma sht4x_start_calls [calls]: "io_ok io \<Longrightarrow> rs_ok dev \<Longrightarrow> wp (sht4x_start_single_measurement dev io) io_ok"
proof -
  assume a: "io_ok io" "rs_ok dev"
  then obtain prec where "rd (rs_info dev) RSRC_INDEX_PREC = Some prec" by (simp add: rs_ok_def rd_def)
  then show ?thesis using a by (auto simp: sht4x_start_single_measurement_def intro: sht4x_write_cmd_calls)
qed

lemma sht4x_command_calls [calls]:
  "io_ok io \<Longrightarrow> rs_ok dev \<Longrightarrow> wp (sht4x_activate_heater dev ht io) (\<lambda>(r, io'). io_ok io')"
  "io_ok io \<Longrightarrow> rs_ok dev \<Longrightarrow> wp (sht4x_soft_reset dev io) (\<lambda>(r, io'). io_ok io')"
  "rs_ok dev \<Longrightarrow> wp (sht4x_set_precision dev v) (\<lambda>(r, dev'). rs_ok dev')"
  by (auto simp: sht4x_activate_heater_def sht4x_soft_reset_def sht4x_set_precision_def split: option.split
    intro!: sht4x_write_cmd_calls [THEN wp_mono] put_info_calls [THEN wp_mono])

lemma sht4x_open_calls: "rs_ok dev \<Longrightarrow> wp (tdd_sensor_sht4x_open dev io) (\<lambda>(r, dev', io'). rs_ok dev' \<and> io' = io)"
  and sht4x_close_calls: "rs_ok dev \<Longrightarrow> wp (tdd_sensor_sht4x_close dev io) (\<lambda>(r, dev', io'). rs_ok dev' \<and> io' = io)"
  by (auto simp: tdd_sensor_sht4x_open_def tdd_sensor_sht4x_close_def intro!: put_info_calls [THEN wp_mono])

lemma sht4x_read_calls:
  "io_ok io \<Longrightarrow> rs_ok dev \<Longrightarrow> unat n \<le> length d \<Longrightarrow>
    wp (tdd_sensor_sht4x_read dev d n io) (\<lambda>(r, d', dev', io'). length d' = length d \<and> rs_ok dev' \<and> io_ok io')"
  by (auto simp: tdd_sensor_sht4x_read_def Let_def intro!: sht4x_start_calls [THEN wp_mono] sht4x_temp_humi_calls [THEN wp_mono] th_fill_calls [THEN wp_mono])

lemma sht4x_control_calls:
  assumes "io_ok io" "rs_ok dev" "th_arg cmd p"
  shows "wp (tdd_sensor_sht4x_control dev cmd p io) (\<lambda>(r, p', dev', io'). rs_ok dev' \<and> io_ok io')"
proof -
  note s = info_rd [OF assms(2), of RSRC_INDEX_STAT]
  show ?thesis using assms s
    by (auto simp: tdd_sensor_sht4x_control_def th_arg_def byte_arg_def put_serial_def split: option.split
      intro!: sht4x_command_calls [THEN wp_mono] sht4x_serial_calls [THEN wp_mono])
qed

end
