(* ===== verification/Sensor_Cht.thy ===== *)
theory Sensor_Cht
  imports Sensor_Th
begin

text \<open>The driver of the temperature and humidity chip CHT8305, \<^verbatim>\<open>tdd_sensor_cht8305.c\<close>, a chip of 16-bit registers.\<close>

abbreviation (input) CHT8305_RA_TEMP :: u8 where "CHT8305_RA_TEMP \<equiv> 0x00"
abbreviation (input) CHT8305_RA_CONFIG :: u8 where "CHT8305_RA_CONFIG \<equiv> 0x02"
abbreviation (input) CHT8305_RA_ALERT :: u8 where "CHT8305_RA_ALERT \<equiv> 0x03"
abbreviation (input) CHT8305_RA_VER_ID :: u8 where "CHT8305_RA_VER_ID \<equiv> 0xFF"
abbreviation (input) CHT8305_CFG_BIT_SRST :: u16 where "CHT8305_CFG_BIT_SRST \<equiv> 0x8000"
abbreviation (input) CHT8305_CFG_BIT_HEATER :: u16 where "CHT8305_CFG_BIT_HEATER \<equiv> 0x2000"
abbreviation (input) CHT8305_CFG_BIT_TRES :: u16 where "CHT8305_CFG_BIT_TRES \<equiv> 0x0400"
abbreviation (input) CHT8305_CFG_BIT_HRES :: u16 where "CHT8305_CFG_BIT_HRES \<equiv> 0x0300"
abbreviation (input) CHT8305_CFG_BIT_STATUS :: u16 where "CHT8305_CFG_BIT_STATUS \<equiv> 0x0038"
abbreviation (input) CHT8305_RES_8 :: u16 where "CHT8305_RES_8 \<equiv> 0x0200"
abbreviation (input) CHT8305_RES_11 :: u16 where "CHT8305_RES_11 \<equiv> 0x0500"

section \<open>Registers\<close>

text \<open>The errors of the two transfers are dropped; a buffer that nothing was read into is zero.\<close>

definition cht8305_read_register :: "SR_RSRC_T \<Rightarrow> u8 \<Rightarrow> u16 list \<Rightarrow> u8 \<Rightarrow> u32 \<Rightarrow> sr_io \<Rightarrow> (u16 list \<times> sr_io) option" where
  "cht8305_read_register dev reg_addr reg_val reg_num wait_ms io =
     (if reg_num = 0 \<or> reg_num > 2 then Some (reg_val, io)
      else do {
        (_, _, io) \<leftarrow> th_xfer SR_I2C_FLAG_WR dev 1 [reg_addr] io;
        let io = (if wait_ms \<noteq> 0 then th_sleep wait_ms io else io);
        (_, buf, io) \<leftarrow> th_xfer SR_I2C_FLAG_RD dev (ucast reg_num * 2) (replicate 4 0) io;
        reg_val \<leftarrow> foldM (\<lambda>i v. do { a \<leftarrow> rd buf (i * 2); b \<leftarrow> rd buf (i * 2 + 1); wr v i (be16 a b) }) [0..<unat reg_num] reg_val;
        Some (reg_val, io) })"

definition cht8305_write_register :: "SR_RSRC_T \<Rightarrow> u8 \<Rightarrow> u16 \<Rightarrow> sr_io \<Rightarrow> sr_io option" where
  "cht8305_write_register dev reg_addr reg_val io = do {
     (_, _, io) \<leftarrow> th_xfer SR_I2C_FLAG_WR dev 3 [reg_addr, ucast (drop_bit 8 reg_val), ucast (reg_val AND 0xFF)] io;
     Some io }"

definition cht8305_calc_temp :: "u16 \<Rightarrow> SR_VAL_U" where
  "cht8305_calc_temp temp = put_float (fsub (fdiv (fmul (of_int_f (uint temp)) (Fin 165)) (Fin 65535)) (Fin 40))"

definition cht8305_calc_temp_raw :: "SR_VAL_U \<Rightarrow> u16 option" where
  "cht8305_calc_temp_raw v = to_u16 (fdiv (fmul (fadd (sr_float v) (Fin 40)) (Fin 65535)) (Fin 165))"

definition cht8305_calc_humi :: "u16 \<Rightarrow> SR_VAL_U" where
  "cht8305_calc_humi humi = put_float (fdiv (fmul (of_int_f (uint humi)) (Fin 100)) (Fin 65535))"

definition cht8305_calc_humi_raw :: "SR_VAL_U \<Rightarrow> u16 option" where
  "cht8305_calc_humi_raw v = to_u16 (fdiv (fmul (sr_float v) (Fin 65535)) (Fin 100))"

definition cht8305_read_temp_humi :: "SR_RSRC_T \<Rightarrow> sr_io \<Rightarrow> (OPERATE_RET \<times> u16 \<times> u16 \<times> sr_io) option" where
  "cht8305_read_temp_humi dev io = do {
     (v, io) \<leftarrow> cht8305_read_register dev CHT8305_RA_TEMP [0, 0] 2 20 io;
     t \<leftarrow> rd v 0;
     u \<leftarrow> rd v 1;
     Some (OPRT_OK, t, u, io) }"

definition cht8305_get_config :: "SR_RSRC_T \<Rightarrow> u16 \<Rightarrow> u16 \<Rightarrow> sr_io \<Rightarrow> (u16 \<times> sr_io) option" where
  "cht8305_get_config dev cfg_bit bit_val io = do {
     (v, io) \<leftarrow> cht8305_read_register dev CHT8305_RA_CONFIG [0] 1 0 io;
     c \<leftarrow> rd v 0;
     Some ((c AND NOT cfg_bit) OR bit_val, io) }"

section \<open>Commands\<close>

definition cht8305_set_precision :: "SR_RSRC_T \<Rightarrow> u8 option \<Rightarrow> sr_io \<Rightarrow> (OPERATE_RET \<times> sr_io) option" where
  "cht8305_set_precision dev prec io =
     (case prec of
        None \<Rightarrow> Some (OPRT_INVALID_PARM, io)
      | Some v \<Rightarrow>
          if v \<ge> SR_TH_PREC_INVALID then Some (OPRT_INVALID_PARM, io)
          else do {
            (res, io) \<leftarrow> (if v = 1 then cht8305_get_config dev (CHT8305_CFG_BIT_TRES OR CHT8305_CFG_BIT_HRES) CHT8305_RES_11 io
              else if v = 2 then cht8305_get_config dev CHT8305_CFG_BIT_HRES CHT8305_RES_8 io
              else cht8305_get_config dev (CHT8305_CFG_BIT_TRES OR CHT8305_CFG_BIT_HRES) 0 io);
            io \<leftarrow> cht8305_write_register dev CHT8305_RA_CONFIG res io;
            Some (OPRT_OK, io) })"

definition cht8305_limit_raw :: "SR_VAL_U \<Rightarrow> SR_VAL_U \<Rightarrow> u16 option" where
  "cht8305_limit_raw temp humi = do {
     h \<leftarrow> cht8305_calc_humi_raw humi;
     t \<leftarrow> cht8305_calc_temp_raw temp;
     Some ((h AND 0xFE00) OR (drop_bit 7 t AND 0x001FF)) }"

definition cht8305_set_alert_limit :: "SR_RSRC_T \<Rightarrow> SR_TH_LIMIT_T \<Rightarrow> sr_io \<Rightarrow> (OPERATE_RET \<times> sr_io) option" where
  "cht8305_set_alert_limit dev l io =
     (if fless (sr_float (humi_high_set l)) (Fin 0) \<or> fless (Fin 100) (sr_float (humi_high_set l)) \<or>
         fless (sr_float (temp_high_set l)) (Fin (- 40)) \<or> fless (Fin 125) (sr_float (temp_high_set l))
      then Some (OPRT_INVALID_PARM, io)
      else do {
        raw \<leftarrow> cht8305_limit_raw (temp_high_set l) (humi_high_set l);
        io \<leftarrow> cht8305_write_register dev CHT8305_RA_ALERT raw io;
        Some (OPRT_OK, io) })"

definition cht8305_get_alert_limit :: "SR_RSRC_T \<Rightarrow> SR_TH_LIMIT_T \<Rightarrow> sr_io \<Rightarrow> (OPERATE_RET \<times> SR_TH_LIMIT_T \<times> sr_io) option" where
  "cht8305_get_alert_limit dev l io = do {
     (v, io) \<leftarrow> cht8305_read_register dev CHT8305_RA_ALERT [0] 1 0 io;
     raw \<leftarrow> rd v 0;
     Some (OPRT_OK, l\<lparr>temp_high_set := cht8305_calc_temp (push_bit 7 raw), humi_high_set := cht8305_calc_humi (raw AND 0xFE00)\<rparr>, io) }"

definition cht8305_enable_alert :: "SR_TH_ALT_CFG_T \<Rightarrow> sr_io \<Rightarrow> OPERATE_RET \<times> sr_io" where
  "cht8305_enable_alert = th_enable_alert"

definition cht8305_disable_alert :: "nat \<Rightarrow> sr_io \<Rightarrow> OPERATE_RET \<times> sr_io" where
  "cht8305_disable_alert = th_disable_alert"

text \<open>The bits of the status word that the chip knows: pending, temperature, humidity; the others are the caller's.\<close>

definition cht8305_read_status :: "SR_RSRC_T \<Rightarrow> u16 \<Rightarrow> sr_io \<Rightarrow> (OPERATE_RET \<times> u16 \<times> sr_io) option" where
  "cht8305_read_status dev status io = do {
     (v, io) \<leftarrow> cht8305_read_register dev CHT8305_RA_CONFIG [0] 1 0 io;
     c \<leftarrow> rd v 0;
     Some (OPRT_OK, put_bit 11 (bit c 4) (put_bit 10 (bit c 3) (put_bit 15 (bit c 5) status)), io) }"

definition cht8305_clear_status :: "SR_RSRC_T \<Rightarrow> sr_io \<Rightarrow> (OPERATE_RET \<times> sr_io) option" where
  "cht8305_clear_status dev io = do {
     (c, io) \<leftarrow> cht8305_get_config dev CHT8305_CFG_BIT_STATUS 0 io;
     io \<leftarrow> cht8305_write_register dev CHT8305_RA_CONFIG c io;
     Some (OPRT_OK, io) }"

definition cht8305_set_heater :: "SR_RSRC_T \<Rightarrow> bool \<Rightarrow> sr_io \<Rightarrow> (OPERATE_RET \<times> sr_io) option" where
  "cht8305_set_heater dev enabled io = do {
     (c, io) \<leftarrow> cht8305_get_config dev CHT8305_CFG_BIT_HEATER (if enabled then CHT8305_CFG_BIT_HEATER else 0) io;
     io \<leftarrow> cht8305_write_register dev CHT8305_RA_CONFIG c io;
     Some (OPRT_OK, io) }"

definition cht8305_soft_reset :: "SR_RSRC_T \<Rightarrow> sr_io \<Rightarrow> (OPERATE_RET \<times> sr_io) option" where
  "cht8305_soft_reset dev io = do {
     (c, io) \<leftarrow> cht8305_get_config dev CHT8305_CFG_BIT_SRST CHT8305_CFG_BIT_SRST io;
     io \<leftarrow> cht8305_write_register dev CHT8305_RA_CONFIG c io;
     Some (OPRT_OK, io) }"

definition cht8305_read_serial_number :: "SR_RSRC_T \<Rightarrow> sr_io \<Rightarrow> (OPERATE_RET \<times> u32 option \<times> sr_io) option" where
  "cht8305_read_serial_number dev io = do {
     (v, io) \<leftarrow> cht8305_read_register dev CHT8305_RA_VER_ID [0] 1 0 io;
     c \<leftarrow> rd v 0;
     Some (OPRT_OK, Some (ucast c), io) }"

section \<open>The interface of the driver\<close>

definition tdd_sensor_cht8305_open :: "SR_RSRC_T \<Rightarrow> sr_io \<Rightarrow> (OPERATE_RET \<times> SR_RSRC_T \<times> sr_io) option" where
  "tdd_sensor_cht8305_open dev io = do { dev \<leftarrow> put_info RSRC_INDEX_STAT 1 dev; Some (OPRT_OK, dev, io) }"

definition tdd_sensor_cht8305_close :: "SR_RSRC_T \<Rightarrow> sr_io \<Rightarrow> (OPERATE_RET \<times> SR_RSRC_T \<times> sr_io) option" where
  "tdd_sensor_cht8305_close dev io = do { dev \<leftarrow> put_info RSRC_INDEX_STAT 0 dev; Some (OPRT_OK, dev, io) }"

definition tdd_sensor_cht8305_control :: "SR_RSRC_T \<Rightarrow> u8 \<Rightarrow> th_param \<Rightarrow> sr_io \<Rightarrow> (OPERATE_RET \<times> th_param \<times> SR_RSRC_T \<times> sr_io) option" where
  "tdd_sensor_cht8305_control dev cmd param io = do {
     stat \<leftarrow> rd (rs_info dev) RSRC_INDEX_STAT;
     if stat = 1 \<and> (cmd = SR_TH_CMD_SOFT_RESET \<or> cmd = SR_TH_CMD_GET_SERIAL_NBR) then Some (OPRT_COM_ERROR, param, dev, io)
     else if cmd = SR_TH_CMD_SOFT_RESET then do { (r, io) \<leftarrow> cht8305_soft_reset dev io; Some (r, param, dev, io) }
     else if cmd = SR_TH_CMD_GET_SERIAL_NBR then do {
       (r, v, io) \<leftarrow> cht8305_read_serial_number dev io;
       p \<leftarrow> put_serial v param;
       Some (r, p, dev, io) }
     else if cmd = SR_TH_CMD_SET_PREC then do {
       v \<leftarrow> byte_arg param; (r, io) \<leftarrow> cht8305_set_precision dev v io; Some (r, param, dev, io) }
     else if cmd = SR_TH_CMD_SET_ALT_LIMIT then (case param of
       P_limit l \<Rightarrow> do { (r, io) \<leftarrow> cht8305_set_alert_limit dev l io; Some (r, param, dev, io) } | _ \<Rightarrow> None)
     else if cmd = SR_TH_CMD_GET_ALT_LIMIT then (case param of
       P_limit l \<Rightarrow> do { (r, l, io) \<leftarrow> cht8305_get_alert_limit dev l io; Some (r, P_limit l, dev, io) } | _ \<Rightarrow> None)
     else if cmd = SR_TH_CMD_ENABLE_ALT_PIN then (case param of
       P_alert a \<Rightarrow> let (r, io) = cht8305_enable_alert a io in Some (r, param, dev, io) | _ \<Rightarrow> None)
     else if cmd = SR_TH_CMD_DISABLE_ALT_PIN then (case param of
       P_pin n \<Rightarrow> let (r, io) = cht8305_disable_alert n io in Some (r, param, dev, io) | _ \<Rightarrow> None)
     else if cmd = SR_TH_CMD_GET_STATUS then (case param of
       P_status s \<Rightarrow> do { (r, s, io) \<leftarrow> cht8305_read_status dev s io; Some (r, P_status s, dev, io) } | _ \<Rightarrow> None)
     else if cmd = SR_TH_CMD_CLR_STATUS then do { (r, io) \<leftarrow> cht8305_clear_status dev io; Some (r, param, dev, io) }
     else if cmd = SR_TH_CMD_ENABLE_HEATER then do { (r, io) \<leftarrow> cht8305_set_heater dev True io; Some (r, param, dev, io) }
     else if cmd = SR_TH_CMD_DISABLE_HEATER then do { (r, io) \<leftarrow> cht8305_set_heater dev False io; Some (r, param, dev, io) }
     else Some (OPRT_INVALID_PARM, param, dev, io) }"

definition tdd_sensor_cht8305_read :: "SR_RSRC_T \<Rightarrow> SR_ELE_DATA_T list \<Rightarrow> u8 \<Rightarrow> sr_io \<Rightarrow> (OPERATE_RET \<times> SR_ELE_DATA_T list \<times> SR_RSRC_T \<times> sr_io) option" where
  "tdd_sensor_cht8305_read dev ele_data num io = do {
     (r, temp, humi, io) \<leftarrow> cht8305_read_temp_humi dev io;
     if r \<noteq> OPRT_OK then Some (r, ele_data, dev, io)
     else do {
       d \<leftarrow> th_fill (cht8305_calc_temp temp) (cht8305_calc_humi humi) num ele_data;
       Some (OPRT_OK, d, dev, io) } }"

definition cht8305_intfs :: th_intfs where
  "cht8305_intfs = \<lparr>in_open = Some tdd_sensor_cht8305_open, in_close = Some tdd_sensor_cht8305_close, in_control = Some tdd_sensor_cht8305_control,
     in_read_ele = Some tdd_sensor_cht8305_read, in_read_raw = None\<rparr>"

definition tdd_sensor_cht8305_register ::
  "sr_env \<Rightarrow> string option \<Rightarrow> SR_TH_I2C_CFG_T \<Rightarrow> (th_param, sr_io) sr_hub \<Rightarrow> (OPERATE_RET \<times> (th_param, sr_io) sr_hub) option" where
  "tdd_sensor_cht8305_register env name i2c_cfg = th_register cht8305_intfs [0, ic_addr i2c_cfg, 0, 0, 0, 0, 0, 0] env name i2c_cfg"

section \<open>The contract of the manager\<close>

lemma cht8305_read_register_calls [calls]:
  assumes "io_ok io" "rs_ok dev" "unat n \<le> length v"
  shows "wp (cht8305_read_register dev reg v n wait io) (\<lambda>(v', io'). length v' = length v \<and> io_ok io')"
proof (cases "n = 0 \<or> n > 2")
  case False
  then have n: "unat n \<le> 2" by (simp add: not_less word_le_nat_alt)
  have "unat n * 2 < 65536" using n by simp
  then have u: "unat (ucast n * 2 :: u16) = unat n * 2"
    using n by (simp add: unat_word_ariths unsigned_ucast_eq take_bit_nat_eq_self)
  then have "unat (ucast (ucast n * 2 :: u16) :: u8) \<le> 4" using n by (simp add: unsigned_ucast_eq take_bit_nat_eq_self)
  moreover have "wp (foldM (\<lambda>i v. do { a \<leftarrow> rd buf (i * 2); b \<leftarrow> rd buf (i * 2 + 1); wr v i (be16 a b) }) [0..<unat n] v) (\<lambda>v'. length v' = length v)"
    if "length buf = 4" for buf
    by (rule wp_foldM) (use that n assms(3) in \<open>auto simp: wp_rd wp_wr\<close>)
  ultimately show ?thesis using assms False
    by (auto simp: cht8305_read_register_def Let_def intro!: th_xfer_calls [THEN wp_mono] elim: wp_mono)
qed (use assms in \<open>auto simp: cht8305_read_register_def\<close>)

lemma cht8305_write_register_calls [calls]: "io_ok io \<Longrightarrow> rs_ok dev \<Longrightarrow> wp (cht8305_write_register dev reg v io) io_ok"
  by (auto simp: cht8305_write_register_def intro!: th_xfer_calls [THEN wp_mono])

lemma cht8305_get_config_calls [calls]: "io_ok io \<Longrightarrow> rs_ok dev \<Longrightarrow> wp (cht8305_get_config dev m b io) (\<lambda>(c, io'). io_ok io')"
  by (auto simp: cht8305_get_config_def wp_rd intro!: cht8305_read_register_calls [THEN wp_mono])

lemma cht8305_temp_humi_calls [calls]: "io_ok io \<Longrightarrow> rs_ok dev \<Longrightarrow> wp (cht8305_read_temp_humi dev io) (\<lambda>(r, t, v, io'). io_ok io')"
  by (auto simp: cht8305_read_temp_humi_def wp_rd intro!: cht8305_read_register_calls [THEN wp_mono])

lemma cht8305_command_calls [calls]:
  assumes "io_ok io" "rs_ok dev"
  shows "wp (cht8305_set_precision dev v io) (\<lambda>(r, io'). io_ok io')" "wp (cht8305_clear_status dev io) (\<lambda>(r, io'). io_ok io')"
    "wp (cht8305_set_heater dev b io) (\<lambda>(r, io'). io_ok io')" "wp (cht8305_soft_reset dev io) (\<lambda>(r, io'). io_ok io')"
    "wp (cht8305_read_serial_number dev io) (\<lambda>(r, n, io'). io_ok io')" "wp (cht8305_read_status dev s io) (\<lambda>(r, s', io'). io_ok io')"
    "wp (cht8305_get_alert_limit dev l io) (\<lambda>(r, l', io'). io_ok io')"
  using assms
  by (auto simp: cht8305_set_precision_def cht8305_clear_status_def cht8305_set_heater_def cht8305_soft_reset_def cht8305_read_serial_number_def
      cht8305_read_status_def cht8305_get_alert_limit_def wp_rd split: option.split
    intro!: cht8305_get_config_calls [THEN wp_mono] cht8305_write_register_calls [THEN wp_mono] cht8305_read_register_calls [THEN wp_mono])

lemma cht8305_limit_raw_eq:
  assumes "sr_float tv = Fin t" "- 40 \<le> t" "t \<le> 125" "sr_float hv = Fin v" "0 \<le> v" "v \<le> 100"
  shows "\<exists>c d. cht8305_limit_raw tv hv = Some ((word_of_int \<lfloor>d\<rfloor> AND 0xFE00) OR (drop_bit 7 (word_of_int \<lfloor>c\<rfloor>) AND 0x001FF)) \<and>
    \<bar>c - (t + 40) * 65535 / 165\<bar> \<le> 1 / 80 \<and> 0 \<le> c \<and> c < 65536 \<and> \<bar>d - v * 65535 / 100\<bar> \<le> 1 / 80 \<and> 0 \<le> d \<and> d < 65536"
proof -
  obtain c where c: "cht8305_calc_temp_raw tv = Some (word_of_int \<lfloor>c\<rfloor>)" "\<bar>c - (t + 40) * 65535 / 165\<bar> \<le> 1 / 80" "0 \<le> c" "c < 65536"
    using raw_shift [of 40 t 165] assms by (auto simp: cht8305_calc_temp_raw_def)
  obtain d where d: "cht8305_calc_humi_raw hv = Some (word_of_int \<lfloor>d\<rfloor>)" "\<bar>d - v * 65535 / 100\<bar> \<le> 1 / 80" "0 \<le> d" "d < 65536"
    using raw_only [of v] assms by (auto simp: cht8305_calc_humi_raw_def)
  show ?thesis using c d by (intro exI [of _ c] exI [of _ d]) (simp add: cht8305_limit_raw_def)
qed

lemma cht8305_set_limit_calls [calls]:
  assumes "io_ok io" "rs_ok dev" "limit_num l"
  shows "wp (cht8305_set_alert_limit dev l io) (\<lambda>(r, io'). io_ok io')"
proof (cases "fless (sr_float (humi_high_set l)) (Fin 0) \<or> fless (Fin 100) (sr_float (humi_high_set l)) \<or>
    fless (sr_float (temp_high_set l)) (Fin (- 40)) \<or> fless (Fin 125) (sr_float (temp_high_set l))")
  case False
  have nan: "sr_float (temp_high_set l) \<noteq> NaN" "sr_float (humi_high_set l) \<noteq> NaN" using assms(3) by (auto simp: limit_num_def)
  obtain t v where t: "sr_float (temp_high_set l) = Fin t" "- 40 \<le> t" "t \<le> 125" and v: "sr_float (humi_high_set l) = Fin v" "0 \<le> v" "v \<le> 100"
    using in_range [OF nan(1), of "- 40" 125] in_range [OF nan(2), of 0 100] False by metis
  obtain raw where "cht8305_limit_raw (temp_high_set l) (humi_high_set l) = Some raw" using cht8305_limit_raw_eq [OF t v] by blast
  then show ?thesis using False assms(1,2) by (auto simp: cht8305_set_alert_limit_def intro!: cht8305_write_register_calls [THEN wp_mono])
qed (use assms in \<open>simp add: cht8305_set_alert_limit_def\<close>)

lemma cht8305_open_calls: "rs_ok dev \<Longrightarrow> wp (tdd_sensor_cht8305_open dev io) (\<lambda>(r, dev', io'). rs_ok dev' \<and> io' = io)"
  and cht8305_close_calls: "rs_ok dev \<Longrightarrow> wp (tdd_sensor_cht8305_close dev io) (\<lambda>(r, dev', io'). rs_ok dev' \<and> io' = io)"
  by (auto simp: tdd_sensor_cht8305_open_def tdd_sensor_cht8305_close_def intro!: put_info_calls [THEN wp_mono])

lemma cht8305_read_calls:
  "io_ok io \<Longrightarrow> rs_ok dev \<Longrightarrow> unat n \<le> length d \<Longrightarrow>
    wp (tdd_sensor_cht8305_read dev d n io) (\<lambda>(r, d', dev', io'). length d' = length d \<and> rs_ok dev' \<and> io_ok io')"
  by (auto simp: tdd_sensor_cht8305_read_def intro!: cht8305_temp_humi_calls [THEN wp_mono] th_fill_calls [THEN wp_mono])

lemma cht8305_control_calls:
  assumes "io_ok io" "rs_ok dev" "th_arg cmd p"
  shows "wp (tdd_sensor_cht8305_control dev cmd p io) (\<lambda>(r, p', dev', io'). rs_ok dev' \<and> io_ok io')"
proof -
  note s = info_rd [OF assms(2), of RSRC_INDEX_STAT]
  show ?thesis using assms s
    by (auto simp: tdd_sensor_cht8305_control_def th_arg_def byte_arg_def put_serial_def cht8305_enable_alert_def cht8305_disable_alert_def
        case_prod_beta' split: option.split
      intro!: cht8305_command_calls [THEN wp_mono] cht8305_set_limit_calls [THEN wp_mono])
qed

end
