(* ===== verification/Sensor_Imu.thy ===== *)
theory Sensor_Imu
  imports Sensor_Th
begin

text \<open>
  The driver of the motion sensor MPU60x0, \<^verbatim>\<open>tdd_sensor_mpu60x0.c\<close>, a chip of 8-bit registers. The driver drops the results of its
  transfers, so a buffer that nothing was read into keeps what it happened to hold.
  The bus configuration \<^verbatim>\<open>SR_IMU_I2C_CFG_T\<close> has the fields of \<^verbatim>\<open>SR_TH_I2C_CFG_T\<close>, and is the same record here. Shown are the fields of the
  registers that are written, the divider of the sample rate, the contract of the manager and the values of a reading.
\<close>

abbreviation (input) MPU60X0_RSRC_INDEX_GFSR :: nat where "MPU60X0_RSRC_INDEX_GFSR \<equiv> 2"
abbreviation (input) MPU60X0_RSRC_INDEX_AFSR :: nat where "MPU60X0_RSRC_INDEX_AFSR \<equiv> 3"
abbreviation (input) MPU60X0_DEV_ID :: u8 where "MPU60X0_DEV_ID \<equiv> 0x68"
abbreviation (input) MPU60X0_REG_BIT_DEVICE_RESET :: u8 where "MPU60X0_REG_BIT_DEVICE_RESET \<equiv> 0x80"
abbreviation (input) MPU60X0_REG_BIT_SLEEP :: u8 where "MPU60X0_REG_BIT_SLEEP \<equiv> 0x40"
abbreviation (input) MPU60X0_REG_BIT_CLKSEL :: u8 where "MPU60X0_REG_BIT_CLKSEL \<equiv> 0x07"
abbreviation (input) MPU60X0_REG_BIT_FS_SEL :: u8 where "MPU60X0_REG_BIT_FS_SEL \<equiv> 0x18"
abbreviation (input) MPU60X0_REG_BIT_AFS_SEL :: u8 where "MPU60X0_REG_BIT_AFS_SEL \<equiv> 0x18"
abbreviation (input) MPU60X0_REG_BIT_DLPF_CFG :: u8 where "MPU60X0_REG_BIT_DLPF_CFG \<equiv> 0x03"
abbreviation (input) MPU60X0_RA_SMPRT_DIV :: u8 where "MPU60X0_RA_SMPRT_DIV \<equiv> 0x19"
abbreviation (input) MPU60X0_RA_CONFIG :: u8 where "MPU60X0_RA_CONFIG \<equiv> 0x1A"
abbreviation (input) MPU60X0_RA_GYRO_CONFIG :: u8 where "MPU60X0_RA_GYRO_CONFIG \<equiv> 0x1B"
abbreviation (input) MPU60X0_RA_ACCEL_CONFIG :: u8 where "MPU60X0_RA_ACCEL_CONFIG \<equiv> 0x1C"
abbreviation (input) MPU60X0_RA_INT_PIN_CFG :: u8 where "MPU60X0_RA_INT_PIN_CFG \<equiv> 0x37"
abbreviation (input) MPU60X0_RA_INT_ENABLE :: u8 where "MPU60X0_RA_INT_ENABLE \<equiv> 0x38"
abbreviation (input) MPU60X0_RA_ACCEL_XOUT_H :: u8 where "MPU60X0_RA_ACCEL_XOUT_H \<equiv> 0x3B"
abbreviation (input) MPU60X0_RA_TEMP_OUT_H :: u8 where "MPU60X0_RA_TEMP_OUT_H \<equiv> 0x41"
abbreviation (input) MPU60X0_RA_GYRO_XOUT_H :: u8 where "MPU60X0_RA_GYRO_XOUT_H \<equiv> 0x43"
abbreviation (input) MPU60X0_RA_PWR_MGMT_1 :: u8 where "MPU60X0_RA_PWR_MGMT_1 \<equiv> 0x6B"
abbreviation (input) MPU60X0_RA_WHO_AM_I :: u8 where "MPU60X0_RA_WHO_AM_I \<equiv> 0x75"
abbreviation (input) SR_IMU_CMD_SOFT_RST :: u8 where "SR_IMU_CMD_SOFT_RST \<equiv> 0x00"
abbreviation (input) SR_IMU_CMD_GET_DEV_ID :: u8 where "SR_IMU_CMD_GET_DEV_ID \<equiv> 0x01"
abbreviation (input) SR_IMU_CMD_INIT_DEV :: u8 where "SR_IMU_CMD_INIT_DEV \<equiv> 0x02"
abbreviation (input) SR_IMU_CMD_SET_INT :: u8 where "SR_IMU_CMD_SET_INT \<equiv> 0x03"
abbreviation (input) SR_IMU_ELE_NUM :: u8 where "SR_IMU_ELE_NUM \<equiv> 7"

record MPU60X0_AXIS_T =
  axis_x :: u16
  axis_y :: u16
  axis_z :: u16

definition mpu60x0_ele_val_tp :: "SR_ELE_CFG_T list" where
  "mpu60x0_ele_val_tp = map (\<lambda>i. \<lparr>ec_id = i, ec_val_tp = SR_VAL_TP_FLOAT\<rparr>) [0, 1, 2, 3, 4, 5, 6]"

section \<open>Registers\<close>

text \<open>A local buffer of \<open>n\<close> bytes before anything is written to it.\<close>

definition local_buf :: "nat \<Rightarrow> sr_io \<Rightarrow> u8 list" where
  "local_buf n io = map (io_junk io (length (gpio_ops (io_bus io)))) [0..<n]"

definition mpu60x0_read_register :: "SR_RSRC_T \<Rightarrow> u8 \<Rightarrow> u8 list \<Rightarrow> u8 \<Rightarrow> sr_io \<Rightarrow> (u8 list \<times> sr_io) option" where
  "mpu60x0_read_register dev reg_addr reg_val reg_num io = do {
     (_, _, io) \<leftarrow> th_xfer SR_I2C_FLAG_WR dev 1 [reg_addr] io;
     (_, buf, io) \<leftarrow> th_xfer SR_I2C_FLAG_RD dev (ucast reg_num) reg_val io;
     Some (buf, io) }"

definition mpu60x0_write_register :: "SR_RSRC_T \<Rightarrow> u8 \<Rightarrow> u8 \<Rightarrow> sr_io \<Rightarrow> sr_io option" where
  "mpu60x0_write_register dev reg_addr reg_val io = do {
     (_, _, io) \<leftarrow> th_xfer SR_I2C_FLAG_WR dev 2 [reg_addr, reg_val] io;
     Some io }"

fun lsb_search :: "u8 \<Rightarrow> u8 \<Rightarrow> nat list \<Rightarrow> u8" where
  "lsb_search reg_bit find_code [] = 0"
| "lsb_search reg_bit find_code (i # is) = (if reg_bit AND find_code \<noteq> 0 then of_nat i else lsb_search reg_bit (push_bit 1 find_code) is)"

definition mpu60x0_get_lsb_num :: "u8 \<Rightarrow> u8" where
  "mpu60x0_get_lsb_num reg_bit = lsb_search reg_bit 0x01 [0..<8]"

definition mpu60x0_write_register_bit :: "SR_RSRC_T \<Rightarrow> u8 \<Rightarrow> u8 \<Rightarrow> u8 \<Rightarrow> sr_io \<Rightarrow> sr_io option" where
  "mpu60x0_write_register_bit dev reg_addr reg_bit bit_val io = do {
     (buf, io) \<leftarrow> mpu60x0_read_register dev reg_addr (local_buf 1 io) 1 io;
     reg_val \<leftarrow> rd buf 0;
     let reg_val = reg_val AND NOT reg_bit;
     let reg_val = reg_val OR push_bit (unat (mpu60x0_get_lsb_num reg_bit)) bit_val;
     mpu60x0_write_register dev reg_addr reg_val io }"

section \<open>Commands\<close>

definition mpu60x0_soft_reset :: "SR_RSRC_T \<Rightarrow> sr_io \<Rightarrow> (OPERATE_RET \<times> sr_io) option" where
  "mpu60x0_soft_reset dev io = do {
     io \<leftarrow> mpu60x0_write_register_bit dev MPU60X0_RA_PWR_MGMT_1 MPU60X0_REG_BIT_DEVICE_RESET 1 io;
     Some (OPRT_OK, th_sleep 200 io) }"

definition mpu60x0_get_device_id :: "SR_RSRC_T \<Rightarrow> u8 \<Rightarrow> sr_io \<Rightarrow> (OPERATE_RET \<times> u8 \<times> sr_io) option" where
  "mpu60x0_get_device_id dev dev_id io = do {
     (buf, io) \<leftarrow> mpu60x0_read_register dev MPU60X0_RA_WHO_AM_I [dev_id] 1 io;
     v \<leftarrow> rd buf 0;
     Some (OPRT_OK, v, io) }"

definition mpu60x0_set_sleep_mode :: "SR_RSRC_T \<Rightarrow> bool \<Rightarrow> sr_io \<Rightarrow> (OPERATE_RET \<times> sr_io) option" where
  "mpu60x0_set_sleep_mode dev enabled io = do {
     io \<leftarrow> mpu60x0_write_register_bit dev MPU60X0_RA_PWR_MGMT_1 MPU60X0_REG_BIT_SLEEP (if enabled then 1 else 0) io;
     Some (OPRT_OK, io) }"

text \<open>The codes of clock sources and ranges are those of the chip; others are refused.\<close>

definition mpu60x0_set_clk_src :: "SR_RSRC_T \<Rightarrow> u8 \<Rightarrow> sr_io \<Rightarrow> (OPERATE_RET \<times> sr_io) option" where
  "mpu60x0_set_clk_src dev clk io =
     (if clk > 5 then Some (OPRT_INVALID_PARM, io)
      else do { io \<leftarrow> mpu60x0_write_register_bit dev MPU60X0_RA_PWR_MGMT_1 MPU60X0_REG_BIT_CLKSEL clk io; Some (OPRT_OK, io) })"

definition mpu60x0_set_gyro_fsr :: "SR_RSRC_T \<Rightarrow> u8 \<Rightarrow> sr_io \<Rightarrow> (OPERATE_RET \<times> SR_RSRC_T \<times> sr_io) option" where
  "mpu60x0_set_gyro_fsr dev g_fsr io =
     (if g_fsr > 3 then Some (OPRT_INVALID_PARM, dev, io)
      else do {
        dev \<leftarrow> put_info MPU60X0_RSRC_INDEX_GFSR g_fsr dev;
        io \<leftarrow> mpu60x0_write_register_bit dev MPU60X0_RA_GYRO_CONFIG MPU60X0_REG_BIT_FS_SEL g_fsr io;
        Some (OPRT_OK, dev, io) })"

definition mpu60x0_set_accel_fsr :: "SR_RSRC_T \<Rightarrow> u8 \<Rightarrow> sr_io \<Rightarrow> (OPERATE_RET \<times> SR_RSRC_T \<times> sr_io) option" where
  "mpu60x0_set_accel_fsr dev a_fsr io =
     (if a_fsr > 3 then Some (OPRT_INVALID_PARM, dev, io)
      else do {
        dev \<leftarrow> put_info MPU60X0_RSRC_INDEX_AFSR a_fsr dev;
        io \<leftarrow> mpu60x0_write_register_bit dev MPU60X0_RA_ACCEL_CONFIG MPU60X0_REG_BIT_AFS_SEL a_fsr io;
        Some (OPRT_OK, dev, io) })"

definition mpu60x0_get_dlpf_cfg :: "int \<Rightarrow> u8" where
  "mpu60x0_get_dlpf_cfg bw =
     (if bw \<ge> 184 then 1 else if bw \<ge> 94 then 2 else if bw \<ge> 44 then 3 else if bw \<ge> 21 then 4 else if bw \<ge> 10 then 5 else 6)"

definition mpu60x0_smprt_div :: "u16 \<Rightarrow> u16 \<times> u8" where
  "mpu60x0_smprt_div freq_hz =
     (let smp_rt = (if freq_hz > 1000 then 1000 else freq_hz);
          smp_rt = (if smp_rt < 3 then 3 else smp_rt)
      in (smp_rt, word_of_int (1000 div uint smp_rt - 1)))"

definition mpu60x0_set_sample_rate :: "SR_RSRC_T \<Rightarrow> u16 \<Rightarrow> sr_io \<Rightarrow> (OPERATE_RET \<times> sr_io) option" where
  "mpu60x0_set_sample_rate dev freq_hz io = do {
     let (smp_rt, dv) = mpu60x0_smprt_div freq_hz;
     io \<leftarrow> mpu60x0_write_register dev MPU60X0_RA_SMPRT_DIV dv io;
     io \<leftarrow> mpu60x0_write_register_bit dev MPU60X0_RA_CONFIG MPU60X0_REG_BIT_DLPF_CFG (mpu60x0_get_dlpf_cfg (uint smp_rt div 2)) io;
     Some (OPRT_OK, io) }"

definition mpu60x0_set_int :: "SR_RSRC_T \<Rightarrow> bool \<Rightarrow> sr_io \<Rightarrow> (OPERATE_RET \<times> sr_io) option" where
  "mpu60x0_set_int dev active_low io = do {
     io \<leftarrow> mpu60x0_write_register dev MPU60X0_RA_INT_PIN_CFG (if active_low then 0x90 else 0x50) io;
     io \<leftarrow> mpu60x0_write_register dev MPU60X0_RA_INT_ENABLE 0x01 io;
     Some (OPRT_OK, io) }"

definition mpu60x0_init :: "SR_RSRC_T \<Rightarrow> SR_IMU_BASE_CFG_T \<Rightarrow> sr_io \<Rightarrow> (OPERATE_RET \<times> SR_RSRC_T \<times> sr_io) option" where
  "mpu60x0_init dev cfg io = do {
     let dev_id = io_junk io (length (gpio_ops (io_bus io))) 0;
     (_, io) \<leftarrow> mpu60x0_soft_reset dev io;
     (_, dev_id, io) \<leftarrow> mpu60x0_get_device_id dev dev_id io;
     if dev_id \<noteq> MPU60X0_DEV_ID then Some (OPRT_NOT_FOUND, dev, io)
     else do {
       (_, io) \<leftarrow> mpu60x0_set_sleep_mode dev False io;
       (_, io) \<leftarrow> mpu60x0_set_clk_src dev (im_clk_src cfg) io;
       (_, dev, io) \<leftarrow> mpu60x0_set_gyro_fsr dev (im_gyro_fsr cfg) io;
       (_, dev, io) \<leftarrow> mpu60x0_set_accel_fsr dev (im_accel_fsr cfg) io;
       (_, io) \<leftarrow> mpu60x0_set_sample_rate dev (im_freq_hz cfg) io;
       Some (OPRT_OK, dev, io) } }"

section \<open>Readings\<close>

definition axis_of :: "u8 list \<Rightarrow> MPU60X0_AXIS_T option" where
  "axis_of buf = do {
     b0 \<leftarrow> rd buf 0; b1 \<leftarrow> rd buf 1; b2 \<leftarrow> rd buf 2; b3 \<leftarrow> rd buf 3; b4 \<leftarrow> rd buf 4; b5 \<leftarrow> rd buf 5;
     Some \<lparr>axis_x = be16 b0 b1, axis_y = be16 b2 b3, axis_z = be16 b4 b5\<rparr> }"

definition mpu60x0_read_gyro :: "SR_RSRC_T \<Rightarrow> sr_io \<Rightarrow> (MPU60X0_AXIS_T \<times> sr_io) option" where
  "mpu60x0_read_gyro dev io = do {
     (buf, io) \<leftarrow> mpu60x0_read_register dev MPU60X0_RA_GYRO_XOUT_H (local_buf 6 io) 6 io;
     a \<leftarrow> axis_of buf;
     Some (a, io) }"

definition mpu60x0_read_accel :: "SR_RSRC_T \<Rightarrow> sr_io \<Rightarrow> (MPU60X0_AXIS_T \<times> sr_io) option" where
  "mpu60x0_read_accel dev io = do {
     (buf, io) \<leftarrow> mpu60x0_read_register dev MPU60X0_RA_ACCEL_XOUT_H (local_buf 6 io) 6 io;
     a \<leftarrow> axis_of buf;
     Some (a, io) }"

definition mpu60x0_read_temp :: "SR_RSRC_T \<Rightarrow> sr_io \<Rightarrow> (u16 \<times> sr_io) option" where
  "mpu60x0_read_temp dev io = do {
     (buf, io) \<leftarrow> mpu60x0_read_register dev MPU60X0_RA_TEMP_OUT_H (local_buf 2 io) 2 io;
     a \<leftarrow> rd buf 0; b \<leftarrow> rd buf 1;
     Some (be16 a b, io) }"

text \<open>The shift and the product are on signed integers and overflow beyond a shift by 23.\<close>

definition full_scale :: "u8 \<Rightarrow> int \<Rightarrow> int option" where
  "full_scale sel k = (if unat sel < 31 \<and> 2 ^ unat sel * k < 2 ^ 31 then Some (2 ^ unat sel * k) else None)"

definition mpu60x0_calc_gyro :: "u16 \<Rightarrow> u8 \<Rightarrow> SR_VAL_U option" where
  "mpu60x0_calc_gyro gyro fs_sel = do {
     s \<leftarrow> full_scale fs_sel 250;
     let gyro_sens = fdiv (Fin 32768) (of_int_f s);
     Some (put_float (fdiv (of_int_f (sint gyro)) gyro_sens)) }"

definition mpu60x0_calc_accel :: "u16 \<Rightarrow> u8 \<Rightarrow> SR_VAL_U option" where
  "mpu60x0_calc_accel accel afs_sel = do {
     s \<leftarrow> full_scale afs_sel 2;
     let accel_sens = fdiv (Fin 32768) (of_int_f s);
     Some (put_float (fdiv (of_int_f (sint accel)) accel_sens)) }"

definition mpu60x0_calc_temp :: "u16 \<Rightarrow> SR_VAL_U" where
  "mpu60x0_calc_temp temp = put_float (fadd (fdiv (of_int_f (sint temp)) (Fin 340)) (rnd (3653 / 100)))"

definition imu_value :: "SR_RSRC_T \<Rightarrow> MPU60X0_AXIS_T \<Rightarrow> MPU60X0_AXIS_T \<Rightarrow> u16 \<Rightarrow> u8 \<Rightarrow> SR_VAL_U option option" where
  "imu_value dev gyro accel temp i = do {
     g \<leftarrow> rd (rs_info dev) MPU60X0_RSRC_INDEX_GFSR;
     a \<leftarrow> rd (rs_info dev) MPU60X0_RSRC_INDEX_AFSR;
     let some = map_option Some;
     if i = 0 then some (mpu60x0_calc_gyro (axis_x gyro) g)
     else if i = 1 then some (mpu60x0_calc_gyro (axis_y gyro) g)
     else if i = 2 then some (mpu60x0_calc_gyro (axis_z gyro) g)
     else if i = 3 then some (mpu60x0_calc_accel (axis_x accel) a)
     else if i = 4 then some (mpu60x0_calc_accel (axis_y accel) a)
     else if i = 5 then some (mpu60x0_calc_accel (axis_z accel) a)
     else if i = 6 then Some (Some (mpu60x0_calc_temp temp))
     else Some None }"

section \<open>The interface of the driver\<close>

definition tdd_sensor_mpu60x0_open :: "SR_RSRC_T \<Rightarrow> sr_io \<Rightarrow> (OPERATE_RET \<times> SR_RSRC_T \<times> sr_io) option" where
  "tdd_sensor_mpu60x0_open dev io = do { dev \<leftarrow> put_info RSRC_INDEX_STAT 1 dev; Some (OPRT_OK, dev, io) }"

definition tdd_sensor_mpu60x0_close :: "SR_RSRC_T \<Rightarrow> sr_io \<Rightarrow> (OPERATE_RET \<times> SR_RSRC_T \<times> sr_io) option" where
  "tdd_sensor_mpu60x0_close dev io = do { dev \<leftarrow> put_info RSRC_INDEX_STAT 0 dev; Some (OPRT_OK, dev, io) }"

definition tdd_sensor_mpu60x0_control :: "SR_RSRC_T \<Rightarrow> u8 \<Rightarrow> th_param \<Rightarrow> sr_io \<Rightarrow> (OPERATE_RET \<times> th_param \<times> SR_RSRC_T \<times> sr_io) option" where
  "tdd_sensor_mpu60x0_control dev cmd param io = do {
     stat \<leftarrow> rd (rs_info dev) RSRC_INDEX_STAT;
     if stat = 1 \<and> (cmd = SR_IMU_CMD_SOFT_RST \<or> cmd = SR_IMU_CMD_GET_DEV_ID) then Some (OPRT_COM_ERROR, param, dev, io)
     else if cmd = SR_IMU_CMD_SOFT_RST then do { (r, io) \<leftarrow> mpu60x0_soft_reset dev io; Some (r, param, dev, io) }
     else if cmd = SR_IMU_CMD_GET_DEV_ID then (case param of
       P_dev_id v \<Rightarrow> do { (r, v, io) \<leftarrow> mpu60x0_get_device_id dev v io; Some (r, P_dev_id v, dev, io) } | _ \<Rightarrow> None)
     else if cmd = SR_IMU_CMD_INIT_DEV then (case param of
       P_imu_cfg c \<Rightarrow> do { (r, dev, io) \<leftarrow> mpu60x0_init dev c io; Some (r, param, dev, io) } | _ \<Rightarrow> None)
     else if cmd = SR_IMU_CMD_SET_INT then (case param of
       P_int b \<Rightarrow> do { (r, io) \<leftarrow> mpu60x0_set_int dev b io; Some (r, param, dev, io) } | _ \<Rightarrow> None)
     else Some (OPRT_INVALID_PARM, param, dev, io) }"

definition tdd_sensor_mpu60x0_read :: "SR_RSRC_T \<Rightarrow> SR_ELE_DATA_T list \<Rightarrow> u8 \<Rightarrow> sr_io \<Rightarrow> (OPERATE_RET \<times> SR_ELE_DATA_T list \<times> SR_RSRC_T \<times> sr_io) option" where
  "tdd_sensor_mpu60x0_read dev ele_data num io = do {
     (gyro, io) \<leftarrow> mpu60x0_read_gyro dev io;
     (accel, io) \<leftarrow> mpu60x0_read_accel dev io;
     (temp, io) \<leftarrow> mpu60x0_read_temp dev io;
     d \<leftarrow> foldM (\<lambda>i d. do {
       e \<leftarrow> rd d i;
       v \<leftarrow> imu_value dev gyro accel temp (ed_id e);
       case v of None \<Rightarrow> Some d | Some x \<Rightarrow> wr d i (e\<lparr>ed_val := x\<rparr>) }) [0..<unat num] ele_data;
     Some (OPRT_OK, d, dev, io) }"

definition mpu60x0_intfs :: th_intfs where
  "mpu60x0_intfs = \<lparr>in_open = Some tdd_sensor_mpu60x0_open, in_close = Some tdd_sensor_mpu60x0_close, in_control = Some tdd_sensor_mpu60x0_control,
     in_read_ele = Some tdd_sensor_mpu60x0_read, in_read_raw = None\<rparr>"

definition tdd_sensor_mpu60x0_register ::
  "sr_env \<Rightarrow> string option \<Rightarrow> SR_TH_I2C_CFG_T \<Rightarrow> (th_param, sr_io) sr_hub \<Rightarrow> (OPERATE_RET \<times> (th_param, sr_io) sr_hub) option" where
  "tdd_sensor_mpu60x0_register env name cfg h =
     (if scl (ic_gpio cfg) = sda (ic_gpio cfg) then Some (OPRT_INVALID_PARM, h)
      else do {
        (_, io) \<leftarrow> tdd_sensor_i2c_init (ic_port cfg) (ic_gpio cfg) (sr_world h);
        Some (tdl_sensor_register env name (Some mpu60x0_intfs) SR_IMU_ELE_NUM (Some mpu60x0_ele_val_tp)
          \<lparr>rs_type = 0, rs_port = ic_port cfg, rs_handle = 0, rs_info = [0, ic_addr cfg, 0, 0, 0, 0, 0, 0]\<rparr> (h\<lparr>sr_world := io\<rparr>)) })"

section \<open>The contract of the manager\<close>

text \<open>The selected ranges stay those of the chip, so the shift of a reading is defined.\<close>

definition imu_ok :: "SR_RSRC_T \<Rightarrow> bool" where
  "imu_ok dev \<longleftrightarrow> rs_ok dev \<and> rs_info dev ! MPU60X0_RSRC_INDEX_GFSR \<le> 3 \<and> rs_info dev ! MPU60X0_RSRC_INDEX_AFSR \<le> 3"

lemma imu_rs_ok [simp]: "imu_ok dev \<Longrightarrow> rs_ok dev" by (simp add: imu_ok_def)

lemma imu_put_calls [calls]: "imu_ok dev \<Longrightarrow> i < 8 \<Longrightarrow> i = 2 \<or> i = 3 \<longrightarrow> v \<le> 3 \<Longrightarrow> wp (put_info i v dev) imu_ok"
  by (rule put_info_calls [THEN wp_mono]) (auto simp: imu_ok_def rs_ok_def nth_list_update)

lemma local_buf_length [simp]: "length (local_buf n io) = n" by (simp add: local_buf_def)

lemma local_buf_empty [simp]: "local_buf n io = [] \<longleftrightarrow> n = 0" by (simp add: local_buf_def)

lemma mpu60x0_register_calls [calls]:
  assumes "io_ok io" "rs_ok dev"
  shows "unat n \<le> length v \<Longrightarrow> v \<noteq> [] \<Longrightarrow> wp (mpu60x0_read_register dev reg v n io) (\<lambda>(v', io'). length v' = length v \<and> io_ok io')"
    "wp (mpu60x0_write_register dev reg x io) io_ok"
proof -
  have "unat (ucast (ucast n :: u16) :: u8) = unat n" for n :: u8 by simp
  then show "unat n \<le> length v \<Longrightarrow> v \<noteq> [] \<Longrightarrow> wp (mpu60x0_read_register dev reg v n io) (\<lambda>(v', io'). length v' = length v \<and> io_ok io')"
    "wp (mpu60x0_write_register dev reg x io) io_ok"
    using assms by (auto simp: mpu60x0_read_register_def mpu60x0_write_register_def intro!: th_xfer_calls [THEN wp_mono])
qed

lemma mpu60x0_bit_calls [calls]: "io_ok io \<Longrightarrow> rs_ok dev \<Longrightarrow> wp (mpu60x0_write_register_bit dev reg m v io) io_ok"
  by (auto simp: mpu60x0_write_register_bit_def wp_rd intro!: mpu60x0_register_calls [THEN wp_mono])

lemma mpu60x0_command_calls [calls]:
  assumes "io_ok io" "rs_ok dev"
  shows "wp (mpu60x0_soft_reset dev io) (\<lambda>(r, io'). io_ok io')" "wp (mpu60x0_get_device_id dev v io) (\<lambda>(r, v', io'). io_ok io')"
    "wp (mpu60x0_set_sleep_mode dev b io) (\<lambda>(r, io'). io_ok io')" "wp (mpu60x0_set_clk_src dev c io) (\<lambda>(r, io'). io_ok io')"
    "wp (mpu60x0_set_sample_rate dev f io) (\<lambda>(r, io'). io_ok io')" "wp (mpu60x0_set_int dev b io) (\<lambda>(r, io'). io_ok io')"
  using assms
  by (auto simp: mpu60x0_soft_reset_def mpu60x0_get_device_id_def mpu60x0_set_sleep_mode_def mpu60x0_set_clk_src_def mpu60x0_set_sample_rate_def
      mpu60x0_set_int_def wp_rd Let_def case_prod_beta' intro!: mpu60x0_register_calls [THEN wp_mono] mpu60x0_bit_calls [THEN wp_mono])

lemma mpu60x0_fsr_calls [calls]:
  assumes "io_ok io" "imu_ok dev"
  shows "wp (mpu60x0_set_gyro_fsr dev v io) (\<lambda>(r, dev', io'). imu_ok dev' \<and> io_ok io')"
    "wp (mpu60x0_set_accel_fsr dev v io) (\<lambda>(r, dev', io'). imu_ok dev' \<and> io_ok io')"
  using assms by (auto simp: mpu60x0_set_gyro_fsr_def mpu60x0_set_accel_fsr_def not_less
    intro!: imu_put_calls [THEN wp_mono] mpu60x0_bit_calls [THEN wp_mono])

lemma mpu60x0_init_calls [calls]:
  "io_ok io \<Longrightarrow> imu_ok dev \<Longrightarrow> wp (mpu60x0_init dev cfg io) (\<lambda>(r, dev', io'). imu_ok dev' \<and> io_ok io')"
  by (auto simp: mpu60x0_init_def intro!: mpu60x0_command_calls [THEN wp_mono] mpu60x0_fsr_calls [THEN wp_mono])

lemma mpu60x0_axes_calls [calls]:
  assumes "io_ok io" "rs_ok dev"
  shows "wp (mpu60x0_read_gyro dev io) (\<lambda>(a, io'). io_ok io')" "wp (mpu60x0_read_accel dev io) (\<lambda>(a, io'). io_ok io')"
    "wp (mpu60x0_read_temp dev io) (\<lambda>(t, io'). io_ok io')"
  using assms by (auto simp: mpu60x0_read_gyro_def mpu60x0_read_accel_def mpu60x0_read_temp_def axis_of_def wp_rd
    intro!: mpu60x0_register_calls [THEN wp_mono])

lemma full_scale_eq: "sel \<le> 3 \<Longrightarrow> 0 \<le> k \<Longrightarrow> k \<le> 250 \<Longrightarrow> full_scale sel k = Some (2 ^ unat sel * k)"
proof -
  assume a: "sel \<le> 3" "0 \<le> k" "k \<le> 250"
  have u: "unat sel \<le> 3" using a(1) by (simp add: word_le_nat_alt)
  then have "(2 ^ unat sel :: int) \<le> 2 ^ 3" by (intro power_increasing) simp_all
  then have "2 ^ unat sel * k \<le> 8 * 250" using a by (intro mult_mono) simp_all
  then show ?thesis using u by (simp add: full_scale_def)
qed

lemma imu_value_calls [calls]: "imu_ok dev \<Longrightarrow> wp (imu_value dev g a t i) (\<lambda>_. True)"
  by (auto simp: imu_value_def imu_ok_def rs_ok_def wp_rd full_scale_eq mpu60x0_calc_gyro_def mpu60x0_calc_accel_def Let_def)

lemma mpu60x0_open_calls: "imu_ok dev \<Longrightarrow> wp (tdd_sensor_mpu60x0_open dev io) (\<lambda>(r, dev', io'). imu_ok dev' \<and> io' = io)"
  and mpu60x0_close_calls: "imu_ok dev \<Longrightarrow> wp (tdd_sensor_mpu60x0_close dev io) (\<lambda>(r, dev', io'). imu_ok dev' \<and> io' = io)"
  by (auto simp: tdd_sensor_mpu60x0_open_def tdd_sensor_mpu60x0_close_def intro!: imu_put_calls [THEN wp_mono])

lemma mpu60x0_read_calls:
  assumes "io_ok io" "imu_ok dev" "unat n \<le> length d"
  shows "wp (tdd_sensor_mpu60x0_read dev d n io) (\<lambda>(r, d', dev', io'). length d' = length d \<and> imu_ok dev' \<and> io_ok io')"
proof -
  have "wp (foldM (\<lambda>i d. do { e \<leftarrow> rd d i; v \<leftarrow> imu_value dev g a t (ed_id e);
      case v of None \<Rightarrow> Some d | Some x \<Rightarrow> wr d i (e\<lparr>ed_val := x\<rparr>) }) [0..<unat n] d) (\<lambda>d'. length d' = length d)" for g a t
    by (rule wp_foldM) (use assms in \<open>auto simp: wp_rd wp_wr split: option.split intro!: imu_value_calls [THEN wp_mono]\<close>)
  then show ?thesis using assms
    by (auto simp: tdd_sensor_mpu60x0_read_def intro!: mpu60x0_axes_calls [THEN wp_mono] elim: wp_mono)
qed

text \<open>The object that goes with a command of the motion sensor.\<close>

definition imu_arg :: "u8 \<Rightarrow> th_param \<Rightarrow> bool" where
  "imu_arg cmd p =
     (if cmd = SR_IMU_CMD_GET_DEV_ID then (\<exists>v. p = P_dev_id v)
      else if cmd = SR_IMU_CMD_INIT_DEV then (\<exists>c. p = P_imu_cfg c)
      else if cmd = SR_IMU_CMD_SET_INT then (\<exists>b. p = P_int b)
      else True)"

lemma mpu60x0_control_calls:
  assumes "io_ok io" "imu_ok dev" "imu_arg cmd p"
  shows "wp (tdd_sensor_mpu60x0_control dev cmd p io) (\<lambda>(r, p', dev', io'). imu_ok dev' \<and> io_ok io')"
  using assms info_rd [OF imu_rs_ok [OF assms(2)], of RSRC_INDEX_STAT]
  by (auto simp: tdd_sensor_mpu60x0_control_def imu_arg_def
    intro!: mpu60x0_command_calls [THEN wp_mono] mpu60x0_init_calls [THEN wp_mono])

section \<open>Fields of registers\<close>

text \<open>
  For the fields that the driver sets, the value written has the new field and the other bits that were read. The field of
  the low-pass filter has three bits, of which its mask has two: the third one stays set once it was set.
\<close>

lemma field_written:
  assumes "(m, w) \<in> {(MPU60X0_REG_BIT_DEVICE_RESET, 1), (MPU60X0_REG_BIT_SLEEP, 1), (MPU60X0_REG_BIT_CLKSEL, 3), (MPU60X0_REG_BIT_FS_SEL, 2)}" and "v = take_bit w v"
  shows "((old AND NOT m) OR push_bit (unat (mpu60x0_get_lsb_num m)) v) AND NOT m = old AND NOT m"
    "drop_bit (unat (mpu60x0_get_lsb_num m)) (((old AND NOT m) OR push_bit (unat (mpu60x0_get_lsb_num m)) v) AND m) = v"
proof -
  have l: "mpu60x0_get_lsb_num 0x80 = 7" "mpu60x0_get_lsb_num 0x40 = 6" "mpu60x0_get_lsb_num 0x07 = 0" "mpu60x0_get_lsb_num 0x18 = 3"
    by (simp_all add: mpu60x0_get_lsb_num_def upt_conv_Cons)
  define k where "k = unat (mpu60x0_get_lsb_num m)"
  have k: "m = push_bit k (mask w)" "k + w \<le> 8" using assms(1) by (auto simp: k_def l mask_eq_exp_minus_1)
  have v: "bit v n \<Longrightarrow> n < w \<and> k + n < 8" for n using k(2) by (subst (asm) assms(2)) (simp add: bit_take_bit_iff)
  show "((old AND NOT m) OR push_bit (unat (mpu60x0_get_lsb_num m)) v) AND NOT m = old AND NOT m"
    "drop_bit (unat (mpu60x0_get_lsb_num m)) (((old AND NOT m) OR push_bit (unat (mpu60x0_get_lsb_num m)) v) AND m) = v"
    unfolding k_def [symmetric] unfolding k(1) by (auto intro!: bit_word_eqI simp: bit_simps dest: v)
qed

lemma dlpf_stale: "((0x04 AND NOT MPU60X0_REG_BIT_DLPF_CFG) OR push_bit (unat (mpu60x0_get_lsb_num MPU60X0_REG_BIT_DLPF_CFG)) 1) AND 7 = (5 :: u8)"
  by (simp add: mpu60x0_get_lsb_num_def upt_conv_Cons)

text \<open>The divider of a rate from four to a thousand hertz is right; for lower rates it does not fit into its eight bits.\<close>

lemma sample_rate_divider:
  "4 \<le> f \<Longrightarrow> f \<le> 1000 \<Longrightarrow> uint (snd (mpu60x0_smprt_div f)) + 1 = 1000 div uint f"
  "f \<le> 3 \<Longrightarrow> mpu60x0_smprt_div f = (3, 76)"
proof -
  assume f: "4 \<le> f" "f \<le> 1000"
  then have u: "4 \<le> uint f" "uint f \<le> 1000" by (simp_all add: word_le_def)
  then have "1000 div uint f \<le> 1000 div 4" by (intro zdiv_mono2) simp_all
  moreover have "1 \<le> 1000 div uint f" using u zdiv_mono1 [of "uint f" 1000 "uint f"] by simp
  ultimately have "take_bit 8 (1000 div uint f - 1) = 1000 div uint f - 1" by (intro take_bit_int_eq_self) simp_all
  then have "uint (word_of_int (1000 div uint f - 1) :: u8) = 1000 div uint f - 1" by (simp only: uint_word_of_int_eq) simp
  moreover have "\<not> 1000 < f" "\<not> f < 3" using f by (auto simp: word_le_nat_alt word_less_nat_alt)
  ultimately show "uint (snd (mpu60x0_smprt_div f)) + 1 = 1000 div uint f" by (simp add: mpu60x0_smprt_div_def Let_def)
next
  assume f: "f \<le> 3"
  then have "f < 3 \<or> f = 3" "\<not> 1000 < f" by (auto simp: order.order_iff_strict word_less_nat_alt)
  then show "mpu60x0_smprt_div f = (3, 76)" by (auto simp: mpu60x0_smprt_div_def Let_def)
qed

section \<open>Accuracy of the values\<close>

lemma rnd_consts: "rnd (16384 / 125) = Fin (8589935 / 65536)" "rnd (8192 / 125) = Fin (8589935 / 131072)" "rnd (4096 / 125) = Fin (8589935 / 262144)"
  "rnd (2048 / 125) = Fin (8589935 / 524288)" "rnd (3653 / 100) = Fin (1197015 / 32768)"
  by code_simp+

lemma gyro_quot:
  fixes n :: int
  assumes n: "\<bar>n\<bar> \<le> 32768" and g: "g \<le> 3"
  shows "\<exists>r. fdiv (of_int_f n) (fdiv (Fin 32768) (of_int_f (2 ^ g * 250))) = Fin r \<and> \<bar>r - of_int n * (2 ^ g * 250) / 32768\<bar> \<le> 1 / 5000"
proof -
  define x :: rat where "x = of_int n"
  have x: "\<bar>x\<bar> \<le> 32768" using n unfolding x_def by linarith
  have i: "of_int_f n = Fin x" using rnd_int [of n] n by (simp add: of_int_f_def x_def)
  have k: "of_int_f 250 = Fin 250" "of_int_f 500 = Fin 500" "of_int_f 1000 = Fin 1000" "of_int_f 2000 = Fin 2000"
    using rnd_int [of 250] rnd_int [of 500] rnd_int [of 1000] rnd_int [of 2000] by (simp_all add: of_int_f_def)
  consider "g = 0" | "g = 1" | "g = 2" | "g = 3" using g by linarith
  then obtain q where q: "fdiv (of_int_f n) (fdiv (Fin 32768) (of_int_f (2 ^ g * 250))) = rnd q" "\<bar>q - x * (2 ^ g * 250) / 32768\<bar> \<le> 1 / 8000"
  proof cases
    case 1 show thesis by (rule that [of "x / (8589935/65536)"]) (use 1 x in \<open>simp_all add: i k fdiv_def rnd_consts\<close>)
  next
    case 2 show thesis by (rule that [of "x / (8589935/131072)"]) (use 2 x in \<open>simp_all add: i k fdiv_def rnd_consts\<close>)
  next
    case 3 show thesis by (rule that [of "x / (8589935/262144)"]) (use 3 x in \<open>simp_all add: i k fdiv_def rnd_consts\<close>)
  next
    case 4 show thesis by (rule that [of "x / (8589935/524288)"]) (use 4 x in \<open>simp_all add: i k fdiv_def rnd_consts\<close>)
  qed
  have "(2 ^ g :: rat) \<le> 2 ^ 3" using g by (intro power_increasing) simp_all
  then have "\<bar>x * (2 ^ g * 250) / 32768\<bar> \<le> 2000" using mult_mono [OF x, of "2 ^ g" 8] by (simp add: abs_mult)
  then have "\<bar>q\<bar> < 2048" using q(2) by linarith
  then have "\<bar>q\<bar> < pow2 11" by (simp add: pow2_def)
  then obtain r where r: "rnd q = Fin r" "\<bar>r - q\<bar> \<le> pow2 (11 - 25)" using rnd_error [of q 11] by auto
  moreover have "pow2 (11 - 25) = 1 / 16384" by (simp add: pow2_def)
  ultimately have "\<bar>r - q\<bar> \<le> 1 / 16384" by simp
  then have "\<bar>r - x * (2 ^ g * 250) / 32768\<bar> \<le> 1 / 5000" using q(2) by linarith
  then show ?thesis using q(1) r(1) by (intro exI [of _ r]) (simp add: x_def)
qed

lemma accel_quot:
  fixes n :: int
  assumes n: "\<bar>n\<bar> \<le> 32768" and g: "g \<le> 3"
  shows "fdiv (of_int_f n) (fdiv (Fin 32768) (of_int_f (2 ^ g * 2))) = Fin (of_int n * (2 ^ g * 2) / 32768)"
proof -
  have i: "of_int_f n = Fin (of_int n)" using rnd_int [of n] n by (simp add: of_int_f_def)
  have p: "rnd 16384 = Fin 16384" "rnd 8192 = Fin 8192" "rnd 4096 = Fin 4096" "rnd 2048 = Fin 2048" "of_int_f 2 = Fin 2" "of_int_f 4 = Fin 4" "of_int_f 8 = Fin 8" "of_int_f 16 = Fin 16"
    using rnd_int [of 16384] rnd_int [of 8192] rnd_int [of 4096] rnd_int [of 2048] rnd_int [of 2] rnd_int [of 4] rnd_int [of 8] rnd_int [of 16] by (simp_all add: of_int_f_def)
  have b: "\<bar>of_int n :: rat\<bar> \<le> 32768" using n by linarith
  have e: "rnd (of_int n / of_int (2 ^ m)) = Fin (of_int n / of_int (2 ^ m))" if "m \<le> 14" "1 \<le> m" for m
  proof (rule rnd_exact [of _ n "- int m"])
    have "\<bar>of_int n / of_int (2 ^ m) :: rat\<bar> \<le> \<bar>of_int n\<bar> / 1" unfolding abs_divide by (rule frac_le) simp_all
    then show "\<bar>of_int n / of_int (2 ^ m) :: rat\<bar> < pow2 128" using b by (simp add: pow2_val)
  qed (use n that in \<open>simp_all add: pow2_def\<close>)
  consider "g = 0" | "g = 1" | "g = 2" | "g = 3" using g by linarith
  then show ?thesis using p e [of 14] e [of 13] e [of 12] e [of 11] by cases (simp_all add: fdiv_def i)
qed

lemma temp_sum:
  assumes "\<bar>n\<bar> \<le> 32768"
  shows "\<exists>r. fadd (fdiv (of_int_f n) (Fin 340)) (rnd (3653 / 100)) = Fin r \<and> \<bar>r - (of_int n / 340 + 3653 / 100)\<bar> \<le> 1 / 50000"
proof -
  have i: "of_int_f n = Fin (of_int n)" using rnd_int [of n] assms by (simp add: of_int_f_def)
  have b: "\<bar>of_int n / 340 :: rat\<bar> \<le> 97" using assms by linarith
  then obtain q where q: "rnd (of_int n / 340) = Fin q" "\<bar>q - of_int n / 340\<bar> \<le> 1 / 131072" using rnd_off [of "of_int n / 340"] by auto
  then have "\<bar>q + 1197015 / 32768\<bar> < 256" using b by linarith
  then obtain r where "rnd (q + 1197015 / 32768) = Fin r" "\<bar>r - (q + 1197015 / 32768)\<bar> \<le> 1 / 131072" using rnd_off by blast
  moreover from this have "\<bar>r - (of_int n / 340 + 3653 / 100)\<bar> \<le> 1 / 50000" using q(2) by linarith
  ultimately show ?thesis using q(1) by (intro exI [of _ r]) (simp add: i fdiv_def fadd_def rnd_consts)
qed

section \<open>Readings from the chip\<close>

text \<open>The chip answers the query for a register, whatever became of the query itself, with the bytes \<open>data\<close>.\<close>

definition register_gives :: "SR_RSRC_T \<Rightarrow> u8 \<Rightarrow> sr_io \<Rightarrow> u8 list \<Rightarrow> bool" where
  "register_gives dev reg io data \<longleftrightarrow> (\<exists>r b io1 j. th_xfer SR_I2C_FLAG_WR dev 1 [reg] io = Some (r, b, io1) \<and>
     answers_with (sda_in (io_bus io1)) (sda_reads (io_bus io1)) j data)"

lemma read_register_eq:
  assumes "rs_ok dev" "rs_port dev \<le> 3" "io_ok io" "register_gives dev reg io data" "data \<noteq> []" "length data < 256" "length buf = length data"
  shows "\<exists>io'. mpu60x0_read_register dev reg buf (of_nat (length data)) io = Some (data, io') \<and> io_ok io'"
proof -
  obtain r b io1 j where q: "th_xfer SR_I2C_FLAG_WR dev 1 [reg] io = Some (r, b, io1)"
    "answers_with (sda_in (io_bus io1)) (sda_reads (io_bus io1)) j data" using assms(4) by (auto simp: register_gives_def)
  have ok: "io_ok io1" using th_xfer_calls [OF assms(3,1), of 1 "[reg]" SR_I2C_FLAG_WR] q(1) by simp
  obtain io' where x: "th_xfer SR_I2C_FLAG_RD dev (of_nat (length data)) buf io1 = Some (OPRT_OK, data, io')"
    using th_read_eq [OF assms(1,2) ok assms(5-7) q(2)] by blast
  have "ucast (of_nat (length data) :: u8) = (of_nat (length data) :: u16)" using assms(6)
    by (simp add: unsigned_of_nat take_bit_nat_eq_self)
  then have e: "mpu60x0_read_register dev reg buf (of_nat (length data)) io = Some (data, io')" using q(1) x by (simp add: mpu60x0_read_register_def)
  have "unat (of_nat (length data) :: u8) \<le> length buf" using assms(6,7) by (simp add: unat_of_nat take_bit_nat_eq_self)
  moreover have "buf \<noteq> []" using assms(5,7) by auto
  ultimately have "io_ok io'" using mpu60x0_register_calls(1) [OF assms(3,1), of "of_nat (length data)" buf reg] e by simp
  then show ?thesis using e by blast
qed

text \<open>The loop over the elements asked for, where every value is defined.\<close>

lemma elem_loop:
  assumes "\<And>i. f i = Some (w i)" and "n \<le> length d"
  shows "foldM (\<lambda>i d. do { e \<leftarrow> rd d i; v \<leftarrow> f (ed_id e); case v of None \<Rightarrow> Some d | Some x \<Rightarrow> wr d i (e\<lparr>ed_val := x\<rparr>) }) [0..<n] d =
    Some (map (\<lambda>e. case w (ed_id e) of None \<Rightarrow> e | Some x \<Rightarrow> e\<lparr>ed_val := x\<rparr>) (take n d) @ drop n d)"
  using assms(2)
proof (induction n)
  case (Suc n)
  have s: "drop n d = d ! n # drop (Suc n) d" "take (Suc n) d = take n d @ [d ! n]" using Suc.prems by (simp_all add: Cons_nth_drop_Suc take_Suc_conv_app_nth)
  show ?case using Suc s assms(1) by (cases "w (ed_id (d ! n))") (simp_all add: foldM_snoc rd_Some wr_Some nth_append list_update_append)
qed simp

text \<open>The physical quantities: the range times the reading over full scale, and the temperature line of the chip.\<close>

definition reading :: "u8 list \<Rightarrow> nat \<Rightarrow> int" where
  "reading bs k = sint (be16 (bs ! (2 * k)) (bs ! (2 * k + 1)))"

definition imu_physical :: "SR_RSRC_T \<Rightarrow> u8 list \<Rightarrow> u8 list \<Rightarrow> u8 list \<Rightarrow> u8 \<Rightarrow> rat" where
  "imu_physical dev g a t i =
     (if i < 3 then of_int (reading g (unat i)) * (2 ^ unat (rs_info dev ! MPU60X0_RSRC_INDEX_GFSR) * 250) / 32768
      else if i < 6 then of_int (reading a (unat i - 3)) * (2 ^ unat (rs_info dev ! MPU60X0_RSRC_INDEX_AFSR) * 2) / 32768
      else of_int (reading t 0) / 340 + 3653 / 100)"

lemma sint16_bound: "\<bar>sint (x :: u16)\<bar> \<le> 32768"
  using sint_greater_eq [of x] sint_less [of x] by simp

lemma float_back: "sr_float (put_float (fdiv p q)) = fdiv p q" "sr_float (put_float (fadd p q)) = fadd p q"
proof -
  have "repr (fdiv p q)" "repr (fadd p q)"
    by (cases p; cases q; auto simp: fdiv_def fadd_def rnd_repr; simp add: repr_def rnd_def)+
  then show "sr_float (put_float (fdiv p q)) = fdiv p q" "sr_float (put_float (fadd p q)) = fadd p q" by (simp_all add: put_float_sr_float)
qed

definition imu_tolerance :: "u8 \<Rightarrow> rat" where
  "imu_tolerance i = (if i < 3 then 1 / 5000 else if i < 6 then 0 else 1 / 50000)"

lemma gyro_value:
  assumes "g \<le> 3"
  obtains u v where "mpu60x0_calc_gyro x g = Some u" "sr_float u = Fin v" "\<bar>v - of_int (sint x) * (2 ^ unat g * 250) / 32768\<bar> \<le> 1 / 5000"
proof -
  have g: "unat g \<le> 3" using assms by (simp add: word_le_nat_alt)
  obtain r where r: "fdiv (of_int_f (sint x)) (fdiv (Fin 32768) (of_int_f (2 ^ unat g * 250))) = Fin r"
    "\<bar>r - of_int (sint x) * (2 ^ unat g * 250) / 32768\<bar> \<le> 1 / 5000" using gyro_quot [OF sint16_bound g] by blast
  have "sr_float (put_float (Fin r)) = Fin r" using float_back(1) r(1) by metis
  then show thesis using r full_scale_eq [OF assms, of 250] by (intro that) (auto simp: mpu60x0_calc_gyro_def)
qed

lemma accel_value:
  assumes "g \<le> 3"
  obtains u where "mpu60x0_calc_accel x g = Some u" "sr_float u = Fin (of_int (sint x) * (2 ^ unat g * 2) / 32768)"
proof -
  have g: "unat g \<le> 3" using assms by (simp add: word_le_nat_alt)
  note r = accel_quot [OF sint16_bound [of x] g]
  have "sr_float (put_float (Fin (of_int (sint x) * (2 ^ unat g * 2) / 32768))) = Fin (of_int (sint x) * (2 ^ unat g * 2) / 32768)"
    using float_back(1) r by metis
  then show thesis using r full_scale_eq [OF assms, of 2] by (intro that) (auto simp: mpu60x0_calc_accel_def)
qed

lemma temp_value:
  obtains v where "sr_float (mpu60x0_calc_temp x) = Fin v" "\<bar>v - (of_int (sint x) / 340 + 3653 / 100)\<bar> \<le> 1 / 50000"
proof -
  obtain r where r: "fadd (fdiv (of_int_f (sint x)) (Fin 340)) (rnd (3653 / 100)) = Fin r" "\<bar>r - (of_int (sint x) / 340 + 3653 / 100)\<bar> \<le> 1 / 50000"
    using temp_sum [OF sint16_bound] by blast
  then show thesis using float_back(2) [of "fdiv (of_int_f (sint x)) (Fin 340)" "rnd (3653 / 100)"] by (intro that [of r]) (simp_all add: mpu60x0_calc_temp_def)
qed

definition axes :: "u8 list \<Rightarrow> MPU60X0_AXIS_T" where
  "axes bs = \<lparr>axis_x = be16 (bs ! 0) (bs ! 1), axis_y = be16 (bs ! 2) (bs ! 3), axis_z = be16 (bs ! 4) (bs ! 5)\<rparr>"

lemma imu_value_eq:
  assumes "imu_ok dev"
  shows "\<exists>w. imu_value dev (axes g) (axes a) (be16 (t ! 0) (t ! 1)) i = Some w \<and>
    (case w of None \<Rightarrow> 7 \<le> i | Some u \<Rightarrow> i < 7 \<and> (\<exists>v. sr_float u = Fin v \<and> \<bar>v - imu_physical dev g a t i\<bar> \<le> imu_tolerance i))"
proof -
  let ?g = "rs_info dev ! 2" and ?a = "rs_info dev ! 3"
  have dev: "rd (rs_info dev) 2 = Some ?g" "rd (rs_info dev) 3 = Some ?a" "?g \<le> 3" "?a \<le> 3" using assms by (auto simp: imu_ok_def rs_ok_def rd_Some)
  have G: "\<exists>u. mpu60x0_calc_gyro x ?g = Some u \<and> (\<exists>v. sr_float u = Fin v \<and> \<bar>v - of_int (sint x) * (2 ^ unat ?g * 250) / 32768\<bar> \<le> 1 / 5000)" for x
    using gyro_value [OF dev(3), of x] by blast
  have A: "\<exists>u. mpu60x0_calc_accel x ?a = Some u \<and> (\<exists>v. sr_float u = Fin v \<and> \<bar>v - of_int (sint x) * (2 ^ unat ?a * 2) / 32768\<bar> \<le> 0)" for x
  proof -
    obtain u where "mpu60x0_calc_accel x ?a = Some u" "sr_float u = Fin (of_int (sint x) * (2 ^ unat ?a * 2) / 32768)" by (rule accel_value [OF dev(4)])
    then show ?thesis by (intro exI conjI) (assumption+, simp)
  qed
  note D = imu_value_def dev imu_physical_def imu_tolerance_def reading_def axes_def
  have d: "7 \<le> i" if "i \<noteq> 0" "i \<noteq> 1" "i \<noteq> 2" "i \<noteq> 3" "i \<noteq> 4" "i \<noteq> 5" "i \<noteq> 6"
    using that unfolding word_le_nat_alt word_unat_eq_iff by simp
  consider "i = 0" | "i = 1" | "i = 2" | "i = 3" | "i = 4" | "i = 5" | "i = 6" | "7 \<le> i" "i \<noteq> 0" "i \<noteq> 1" "i \<noteq> 2" "i \<noteq> 3" "i \<noteq> 4" "i \<noteq> 5" "i \<noteq> 6"
    using d by blast
  then show ?thesis
  proof cases
    case 1 then show ?thesis using G [of "be16 (g ! 0) (g ! 1)"] by (auto simp: D)
  next
    case 2 then show ?thesis using G [of "be16 (g ! 2) (g ! 3)"] by (auto simp: D)
  next
    case 3 then show ?thesis using G [of "be16 (g ! 4) (g ! 5)"] by (auto simp: D)
  next
    case 4 then show ?thesis using A [of "be16 (a ! 0) (a ! 1)"] by (auto simp: D)
  next
    case 5 then show ?thesis using A [of "be16 (a ! 2) (a ! 3)"] by (auto simp: D)
  next
    case 6 then show ?thesis using A [of "be16 (a ! 4) (a ! 5)"] by (auto simp: D)
  next
    case 7 then show ?thesis using temp_value [of "be16 (t ! 0) (t ! 1)"] by (auto simp: D)
  qed (auto simp: D)
qed

lemma axes_eq: "length g = 6 \<Longrightarrow> axis_of g = Some (axes g)"
  by (simp add: axis_of_def axes_def rd_Some)

text \<open>C13: A reading of the motion sensor. When the chip answers the queries for the angular rates, the accelerations and the
  temperature with their bytes, whatever became of the queries themselves, the driver returns \<^verbatim>\<open>OPRT_OK\<close> and each
  element asked for holds, as a single-precision number, the quantity its two's complement reading stands for in the range set: accelerations
  exactly, angular rates to within \<open>1/5000\<close> of a degree per second and the temperature to within \<open>1/50000\<close> of
  a degree. Elements with another number and those not asked for are as they were.\<close>

theorem mpu60x0_reading:
  assumes "imu_ok dev" and "rs_port dev \<le> 3" and "io_ok io" and "length g = 6" and "length a = 6" and "length t = 2"
    and "register_gives dev MPU60X0_RA_GYRO_XOUT_H io g" and "mpu60x0_read_gyro dev io = Some (x, io1)"
    and "register_gives dev MPU60X0_RA_ACCEL_XOUT_H io1 a" and "mpu60x0_read_accel dev io1 = Some (y, io2)"
    and "register_gives dev MPU60X0_RA_TEMP_OUT_H io2 t" and "unat num \<le> length d"
  shows "\<exists>d' io'. tdd_sensor_mpu60x0_read dev d num io = Some (OPRT_OK, d', dev, io') \<and> length d' = length d \<and>
    (\<forall>k < length d. if k < unat num \<and> ed_id (d ! k) < 7
       then ed_id (d' ! k) = ed_id (d ! k) \<and> (\<exists>v. sr_float (ed_val (d' ! k)) = Fin v \<and> \<bar>v - imu_physical dev g a t (ed_id (d ! k))\<bar> \<le> imu_tolerance (ed_id (d ! k)))
       else d' ! k = d ! k)"
proof -
  have rs: "rs_ok dev" using assms(1) by simp
  have ne: "g \<noteq> []" "a \<noteq> []" "t \<noteq> []" using assms(4-6) by auto
  have x: "x = axes g" "io_ok io1"
    using read_register_eq [OF rs assms(2,3,7) ne(1), of "local_buf 6 io"] assms(4,8) by (auto simp: mpu60x0_read_gyro_def axes_eq)
  have y: "y = axes a" "io_ok io2"
    using read_register_eq [OF rs assms(2) x(2) assms(9) ne(2), of "local_buf 6 io1"] assms(5,10) by (auto simp: mpu60x0_read_accel_def axes_eq)
  obtain io3 where t: "mpu60x0_read_temp dev io2 = Some (be16 (t ! 0) (t ! 1), io3)"
    using read_register_eq [OF rs assms(2) y(2) assms(11) ne(3), of "local_buf 2 io2"] assms(6) by (auto simp: mpu60x0_read_temp_def rd_Some)
  define w where "w i = the (imu_value dev x y (be16 (t ! 0) (t ! 1)) i)" for i
  have w: "\<And>i. imu_value dev x y (be16 (t ! 0) (t ! 1)) i = Some (w i)"
    "\<And>i. case w i of None \<Rightarrow> 7 \<le> i | Some u \<Rightarrow> i < 7 \<and> (\<exists>v. sr_float u = Fin v \<and> \<bar>v - imu_physical dev g a t i\<bar> \<le> imu_tolerance i)"
    using imu_value_eq [OF assms(1), of g a t] unfolding w_def x(1) y(1) by (metis option.sel)+
  define d' where "d' = map (\<lambda>e. case w (ed_id e) of None \<Rightarrow> e | Some x \<Rightarrow> e\<lparr>ed_val := x\<rparr>) (take (unat num) d) @ drop (unat num) d"
  have "tdd_sensor_mpu60x0_read dev d num io = Some (OPRT_OK, d', dev, io3)"
    using elem_loop [of "imu_value dev x y (be16 (t ! 0) (t ! 1))" w, OF w(1) assms(12)] assms(8,10) t by (simp add: tdd_sensor_mpu60x0_read_def d'_def)
  moreover have "length d' = length d" using assms(12) by (simp add: d'_def)
  moreover have "if k < unat num \<and> ed_id (d ! k) < 7
       then ed_id (d' ! k) = ed_id (d ! k) \<and> (\<exists>v. sr_float (ed_val (d' ! k)) = Fin v \<and> \<bar>v - imu_physical dev g a t (ed_id (d ! k))\<bar> \<le> imu_tolerance (ed_id (d ! k)))
       else d' ! k = d ! k" if "k < length d" for k
  proof (cases "k < unat num")
    case True
    then have "d' ! k = (case w (ed_id (d ! k)) of None \<Rightarrow> d ! k | Some x \<Rightarrow> (d ! k)\<lparr>ed_val := x\<rparr>)" using assms(12) by (simp add: d'_def nth_append split: option.split)
    then show ?thesis using True w(2) [of "ed_id (d ! k)"] by (cases "w (ed_id (d ! k))") (auto dest: leD)
  qed (use assms(12) in \<open>simp add: d'_def nth_append not_less min_def\<close>)
  ultimately show ?thesis by blast
qed

section \<open>A reading, bit by bit\<close>

definition ex_imu :: SR_RSRC_T where
  "ex_imu = \<lparr>rs_type = 0, rs_port = 1, rs_handle = 0, rs_info = [1, 0x68, 0, 0, 0, 0, 0, 0]\<rparr>"

lemma ex_imu_ok: "imu_ok ex_imu" "rs_port ex_imu \<le> 3"
  by (simp_all add: ex_imu_def imu_ok_def rs_ok_def)

text \<open>A bus in a given state of its lines, on the pins of the example.\<close>

definition on_bus :: "(nat \<Rightarrow> bool) \<Rightarrow> nat \<Rightarrow> sr_io \<Rightarrow> bool" where
  "on_bus f k io \<longleftrightarrow> sg_i2c_pin io = replicate 4 ex_pins \<and> sda_in (io_bus io) = f \<and> sda_reads (io_bus io) = k"

lemma on_bus_pins: "on_bus f k io \<Longrightarrow> rd (sg_i2c_pin io) (unat (rs_port ex_imu)) = Some ex_pins" "on_bus f k io \<Longrightarrow> io_ok io"
  by (simp_all add: on_bus_def io_ok_def ex_imu_def rd_def)

lemma ex_query:
  assumes "on_bus f k io" "\<not> f k" "\<not> f (Suc k)"
  shows "\<exists>r io'. th_xfer SR_I2C_FLAG_WR ex_imu 1 [reg] io = Some (r, [reg], io') \<and> on_bus f (k + 2) io'"
proof -
  have a: "answer f k 11 = Some 0" "answer f (Suc k) 11 = Some 0" using assms(2,3) by (simp_all add: eval_nat_numeral)
  let ?w = "io_bus io"
  have w: "sda_in ?w = f" "sda_reads ?w = k" using assms(1) by (simp_all add: on_bus_def)
  have "\<exists>w'. sw_i2c_write_data ex_pins 0x68 [reg] 1 SR_I2C_FLAG_WR ?w = Some (0, w') \<and> sda_in w' = f \<and> sda_reads w' = k + 2"
    using w by (simp add: write_as_loop put_checked a rd_def start_ops stop_ops upt_conv_Cons)
  then show ?thesis using assms(1) on_bus_pins(1) [OF assms(1)]
    by (auto simp: th_xfer_def tdd_sensor_i2c_xfer_def sr_i2c_write_data_def ex_imu_def rd_def on_bus_def)
qed

lemma ex_read:
  assumes "on_bus f k io" "\<not> f k" "data \<noteq> []" "length data < 256" "length buf = length data"
    and "\<forall>i < length data. \<forall>b < 8. f (k + 1 + 8 * i + b) = bit (data ! i) (7 - b)"
  shows "\<exists>io'. th_xfer SR_I2C_FLAG_RD ex_imu (of_nat (length data)) buf io = Some (OPRT_OK, data, io') \<and> on_bus f (k + 1 + 8 * length data) io' \<and>
    answers_with (sda_in (io_bus io)) (sda_reads (io_bus io)) 0 data"
proof -
  have w: "sda_in (io_bus io) = f" "sda_reads (io_bus io) = k" using assms(1) by (simp_all add: on_bus_def)
  have aw: "answers_with (sda_in (io_bus io)) (sda_reads (io_bus io)) 0 data" using assms(2,6) by (simp add: answers_with_def w)
  note a = answers_with_bytes [OF aw]
  have n: "\<not> rs_port ex_imu > 3" "0 < length data" "length data \<le> length buf" using assms(3,5) by (auto simp: ex_imu_def)
  show ?thesis using read_xfer_eq [OF on_bus_pins(1) [OF assms(1)] n(1,2) assms(4) n(3), of "0x68"] a aw assms(1,5)
    by (auto simp: th_xfer_def rd_msg_def on_bus_def w ex_imu_def rd_def)
qed

lemma ex_register:
  assumes "on_bus f k io" "\<not> f k" "\<not> f (Suc k)" "\<not> f (k + 2)" "data \<noteq> []" "length data < 256" "length buf = length data"
    and "\<forall>i < length data. \<forall>b < 8. f (k + 3 + 8 * i + b) = bit (data ! i) (7 - b)"
  shows "register_gives ex_imu reg io data \<and> (\<exists>io'. mpu60x0_read_register ex_imu reg buf (of_nat (length data)) io = Some (data, io') \<and> on_bus f (k + 3 + 8 * length data) io')"
proof -
  obtain r io1 where q: "th_xfer SR_I2C_FLAG_WR ex_imu 1 [reg] io = Some (r, [reg], io1)" "on_bus f (k + 2) io1" using ex_query [OF assms(1-3)] by blast
  have k: "k + 2 + 1 = k + 3" by simp
  then have e: "\<forall>i < length data. \<forall>b < 8. f (k + 2 + 1 + 8 * i + b) = bit (data ! i) (7 - b)" using assms(8) by (simp only:)
  obtain io' where x: "th_xfer SR_I2C_FLAG_RD ex_imu (of_nat (length data)) buf io1 = Some (OPRT_OK, data, io')" "on_bus f (k + 3 + 8 * length data) io'"
    "answers_with (sda_in (io_bus io1)) (sda_reads (io_bus io1)) 0 data" using ex_read [OF q(2) assms(4-7) e] unfolding k by blast
  have "ucast (of_nat (length data) :: u8) = (of_nat (length data) :: u16)" using assms(6) by (simp add: unsigned_of_nat take_bit_nat_eq_self)
  then show ?thesis using q(1) x by (auto simp: mpu60x0_read_register_def register_gives_def)
qed

text \<open>A chip at rest on its back, that shows one g on the first axis and nothing else.\<close>

theorem mpu60x0_reading_witness:
  "\<exists>e io. tdd_sensor_mpu60x0_read ex_imu [\<lparr>ed_id = 3, ed_val = 0\<rparr>] 1 (ex_io (\<lambda>k. k = 55)) = Some (OPRT_OK, [e], ex_imu, io) \<and>
    ed_id e = 3 \<and> sr_float (ed_val e) = Fin 1"
proof -
  let ?f = "\<lambda>k :: nat. k = 55" and ?g = "replicate 6 0 :: u8 list" and ?a = "0x40 # replicate 5 0 :: u8 list" and ?t = "[0, 0] :: u8 list"
  let ?io = "ex_io ?f"
  have b0: "on_bus ?f 0 ?io" by (simp add: on_bus_def ex_io_def ex_bus_def)
  have "\<forall>i < length ?g. \<forall>b < 8. ?f (0 + 3 + 8 * i + b) = bit (?g ! i) (7 - b)" by (auto simp: less_Suc_eq numeral_eq_Suc)
  from ex_register [OF b0 _ _ _ _ _ _ this, of "local_buf 6 ?io" MPU60X0_RA_GYRO_XOUT_H]
  obtain io1 where 1: "register_gives ex_imu MPU60X0_RA_GYRO_XOUT_H ?io ?g" "mpu60x0_read_gyro ex_imu ?io = Some (axes ?g, io1)" "on_bus ?f 51 io1"
    by (auto simp: mpu60x0_read_gyro_def axes_eq)
  have "\<forall>i < length ?a. \<forall>b < 8. ?f (51 + 3 + 8 * i + b) = bit (?a ! i) (7 - b)" by (auto simp: less_Suc_eq numeral_eq_Suc)
  from ex_register [OF 1(3) _ _ _ _ _ _ this, of "local_buf 6 io1" MPU60X0_RA_ACCEL_XOUT_H]
  obtain io2 where 2: "register_gives ex_imu MPU60X0_RA_ACCEL_XOUT_H io1 ?a" "mpu60x0_read_accel ex_imu io1 = Some (axes ?a, io2)" "on_bus ?f 102 io2"
    by (auto simp: mpu60x0_read_accel_def axes_eq)
  have "\<forall>i < length ?t. \<forall>b < 8. ?f (102 + 3 + 8 * i + b) = bit (?t ! i) (7 - b)" by (auto simp: less_Suc_eq numeral_eq_Suc)
  from ex_register [OF 2(3) _ _ _ _ _ _ this, of "local_buf 2 io2" MPU60X0_RA_TEMP_OUT_H]
  have 3: "register_gives ex_imu MPU60X0_RA_TEMP_OUT_H io2 ?t" by simp
  have p: "imu_physical ex_imu ?g ?a ?t 3 = 1" by (simp add: imu_physical_def reading_def be16_def ex_imu_def)
  obtain d io where d: "tdd_sensor_mpu60x0_read ex_imu [\<lparr>ed_id = 3, ed_val = 0\<rparr>] 1 ?io = Some (OPRT_OK, d, ex_imu, io)" "length d = 1"
    "ed_id (d ! 0) = 3" "\<exists>v. sr_float (ed_val (d ! 0)) = Fin v \<and> \<bar>v - 1\<bar> \<le> 0"
    using mpu60x0_reading [OF ex_imu_ok on_bus_pins(2) [OF b0] _ _ _ 1(1,2) 2(1,2) 3, of 1 "[\<lparr>ed_id = 3, ed_val = 0\<rparr>]"]
    by (auto simp: p imu_tolerance_def)
  then show ?thesis by (cases d) auto
qed

end
