(* ===== verification/Sensor_Volt.thy ===== *)
theory Sensor_Volt
  imports Sensor_Th
begin

text \<open>
  The voltage sensor, \<^verbatim>\<open>tdd_sensor_voltage.c\<close>: one element, read from a channel of the analogue-to-digital converter in
  millivolts and scaled. The scale is kept as the four bytes of the number in the driver's data. What the converter
  answers to each call is a parameter.
\<close>

definition volt_ele_val_tp :: "SR_ELE_CFG_T list" where
  "volt_ele_val_tp = [\<lparr>ec_id = 0, ec_val_tp = SR_VAL_TP_FLOAT\<rparr>]"

text \<open>The number as it lies in memory, least significant byte first.\<close>

definition float_bytes :: "u32 \<Rightarrow> u8 list" where
  "float_bytes w = map (\<lambda>k. ucast (drop_bit (8 * k) w)) [0..<4]"

definition bytes_float :: "u8 list \<Rightarrow> u32 option" where
  "bytes_float bs = do { a \<leftarrow> rd bs 0; b \<leftarrow> rd bs 1; c \<leftarrow> rd bs 2; d \<leftarrow> rd bs 3; Some (be32 d c b a) }"

definition adc_read_voltage :: "u8 \<Rightarrow> sr_io \<Rightarrow> OPERATE_RET \<times> int \<times> sr_io" where
  "adc_read_voltage port io =
     (let (r, v) = io_adc_ret io (length (io_adcs io)) in (r, v, io\<lparr>io_adcs := io_adcs io @ [Adc_read port]\<rparr>))"

definition read_volt_data :: "SR_RSRC_T \<Rightarrow> SR_VAL_U \<Rightarrow> sr_io \<Rightarrow> (OPERATE_RET \<times> SR_VAL_U \<times> sr_io) option" where
  "read_volt_data dev data io =
     (let (r, pin_vol, io) = adc_read_voltage (rs_port dev) io
      in if r \<noteq> OPRT_OK then Some (r, data, io)
         else do {
           scale \<leftarrow> bytes_float (rs_info dev);
           Some (OPRT_OK, put_float (fdiv (fmul (of_int_f pin_vol) (sr_float scale)) (Fin 1000)), io) })"

definition tdd_sensor_voltage_open :: "SR_RSRC_T \<Rightarrow> sr_io \<Rightarrow> (OPERATE_RET \<times> SR_RSRC_T \<times> sr_io) option" where
  "tdd_sensor_voltage_open dev io = Some (OPRT_OK, dev, io)"

definition tdd_sensor_voltage_close :: "SR_RSRC_T \<Rightarrow> sr_io \<Rightarrow> (OPERATE_RET \<times> SR_RSRC_T \<times> sr_io) option" where
  "tdd_sensor_voltage_close dev io = Some (OPRT_OK, dev, io)"

definition tdd_sensor_voltage_control :: "SR_RSRC_T \<Rightarrow> u8 \<Rightarrow> th_param \<Rightarrow> sr_io \<Rightarrow> (OPERATE_RET \<times> th_param \<times> SR_RSRC_T \<times> sr_io) option" where
  "tdd_sensor_voltage_control dev cmd param io = Some (OPRT_OK, param, dev, io)"

definition tdd_sensor_voltage_read :: "SR_RSRC_T \<Rightarrow> SR_ELE_DATA_T list \<Rightarrow> u8 \<Rightarrow> sr_io \<Rightarrow> (OPERATE_RET \<times> SR_ELE_DATA_T list \<times> SR_RSRC_T \<times> sr_io) option" where
  "tdd_sensor_voltage_read dev ele_data num io = do {
     (d, io) \<leftarrow> foldM (\<lambda>i (d, io). do {
       e \<leftarrow> rd d i;
       if ed_id e = 0 then do {
         (_, v, io) \<leftarrow> read_volt_data dev (ed_val e) io;
         d \<leftarrow> wr d i (e\<lparr>ed_val := v\<rparr>);
         Some (d, io) }
       else Some (d, io) }) [0..<unat num] (ele_data, io);
     Some (OPRT_OK, d, dev, io) }"

definition voltage_intfs :: th_intfs where
  "voltage_intfs = \<lparr>in_open = Some tdd_sensor_voltage_open, in_close = Some tdd_sensor_voltage_close, in_control = Some tdd_sensor_voltage_control,
     in_read_ele = Some tdd_sensor_voltage_read, in_read_raw = None\<rparr>"

definition tdd_sensor_voltage_register ::
  "sr_env \<Rightarrow> string option \<Rightarrow> u8 \<Rightarrow> nat option \<Rightarrow> u32 \<Rightarrow> (th_param, sr_io) sr_hub \<Rightarrow> OPERATE_RET \<times> (th_param, sr_io) sr_hub" where
  "tdd_sensor_voltage_register env name adc_port adc_cfg scale h =
     (case (name, adc_cfg) of
        (Some _, Some cfg) \<Rightarrow>
          let io = sr_world h; io = io\<lparr>io_adcs := io_adcs io @ [Adc_init adc_port cfg]\<rparr>
          in tdl_sensor_register env name (Some voltage_intfs) 1 (Some volt_ele_val_tp)
               \<lparr>rs_type = 0, rs_port = adc_port, rs_handle = 0, rs_info = float_bytes scale @ [0, 0, 0, 0]\<rparr> (h\<lparr>sr_world := io\<rparr>)
      | _ \<Rightarrow> (OPRT_INVALID_PARM, h))"

section \<open>The contract of the manager\<close>

lemma adc_ok [simp]: "io_ok (io\<lparr>io_adcs := c\<rparr>) = io_ok io" by (simp add: io_ok_def)

lemma read_volt_calls: "io_ok io \<Longrightarrow> rs_ok dev \<Longrightarrow> wp (read_volt_data dev v io) (\<lambda>(r, v', io'). io_ok io')"
  by (auto simp: read_volt_data_def adc_read_voltage_def bytes_float_def rs_ok_def wp_rd Let_def case_prod_beta')

lemma voltage_read_calls:
  assumes "io_ok io" "rs_ok dev" "unat n \<le> length d"
  shows "wp (tdd_sensor_voltage_read dev d n io) (\<lambda>(r, d', dev', io'). length d' = length d \<and> rs_ok dev' \<and> io_ok io')"
proof -
  have "wp (foldM (\<lambda>i (d, io). do { e \<leftarrow> rd d i; if ed_id e = 0 then do { (_, v, io) \<leftarrow> read_volt_data dev (ed_val e) io; d \<leftarrow> wr d i (e\<lparr>ed_val := v\<rparr>);
      Some (d, io) } else Some (d, io) }) [0..<unat n] (d, io)) (\<lambda>(d', io'). length d' = length d \<and> io_ok io')"
    by (rule wp_foldM) (use assms in \<open>auto simp: wp_rd wp_wr intro!: read_volt_calls [THEN wp_mono]\<close>)
  then show ?thesis using assms(2) by (auto simp: tdd_sensor_voltage_read_def elim: wp_mono)
qed

section \<open>Readings\<close>

text \<open>The scale comes out of the driver's data as it went in.\<close>

lemma scale_kept: "bytes_float (float_bytes w @ bs) = Some w"
proof -
  have "be32 (ucast (drop_bit 24 w)) (ucast (drop_bit 16 w)) (ucast (drop_bit 8 w)) (ucast w) = w"
  proof (rule bit_word_eqI)
    fix n :: nat
    consider "n < 8" | "8 \<le> n" "n < 16" | "16 \<le> n" "n < 24" | "24 \<le> n" by linarith
    then show "bit (be32 (ucast (drop_bit 24 w)) (ucast (drop_bit 16 w)) (ucast (drop_bit 8 w)) (ucast w)) n = bit w n"
      by cases (auto simp: be32_def bit_simps dest: bit_imp_le_length)
  qed
  then show ?thesis by (simp add: bytes_float_def float_bytes_def rd_def upt_conv_Cons)
qed

text \<open>
  A reading of the driver with the data it was registered with: the millivolts of the converter times the scale over a
  thousand, to within \<open>1/50000\<close> of a volt, as long as the product is below \<open>65536\<close>.
\<close>

lemma voltage_value:
  assumes "rs_info dev = float_bytes scale @ [0, 0, 0, 0]" "io_adc_ret io (length (io_adcs io)) = (OPRT_OK, mv)"
    "sr_float scale = Fin s" "0 \<le> mv" "mv < 2 ^ 24" "0 \<le> s" "of_int mv * s < 65536"
  shows "\<exists>u v io'. read_volt_data dev old io = Some (OPRT_OK, u, io') \<and> sr_float u = Fin v \<and> \<bar>v - of_int mv * s / 1000\<bar> \<le> 1 / 50000"
proof -
  have i: "of_int_f mv = Fin (of_int mv)" using rnd_int [of mv] assms(4,5) by (simp add: of_int_f_def)
  have p: "0 \<le> of_int mv * s" "\<bar>of_int mv * s\<bar> < pow2 16" using assms(4,6,7) by (simp_all add: pow2_val)
  obtain b where "rnd (of_int mv * s) = Fin b" "\<bar>b - of_int mv * s\<bar> \<le> pow2 (16 - 25)" "0 \<le> b" using rnd_error' [OF p(2) _ _ p(1)] by auto
  then have b: "rnd (of_int mv * s) = Fin b" "\<bar>b - of_int mv * s\<bar> \<le> 1 / 512" "0 \<le> b" by (simp_all add: pow2_val)
  have "b < 65537" using b(2) assms(7) by linarith
  then have "\<bar>b / 1000\<bar> < 256" using b(3) by simp
  then obtain v where v: "rnd (b / 1000) = Fin v" "\<bar>v - b / 1000\<bar> \<le> 1 / 131072" using rnd_off by blast
  have "\<bar>v - of_int mv * s / 1000\<bar> \<le> 1 / 50000" using v(2) b(2) by linarith
  moreover have "fdiv (fmul (of_int_f mv) (sr_float scale)) (Fin 1000) = Fin v" using i assms(3) b(1) v(1) by (simp add: fmul_def fdiv_def)
  moreover have "sr_float (put_float (Fin v)) = Fin v" using put_float_sr_float [OF rnd_repr, of "b / 1000"] v(1) by simp
  ultimately show ?thesis using assms(1,2) scale_kept [of scale] by (auto simp: read_volt_data_def adc_read_voltage_def)
qed

text \<open>A conversion that fails leaves the element as it was, and the driver reports success.\<close>

lemma voltage_failure_hidden:
  assumes "fst (io_adc_ret io (length (io_adcs io))) \<noteq> OPRT_OK"
  shows "\<exists>io'. tdd_sensor_voltage_read dev [\<lparr>ed_id = 0, ed_val = old\<rparr>] 1 io = Some (OPRT_OK, [\<lparr>ed_id = 0, ed_val = old\<rparr>], dev, io')"
  using assms by (auto simp: tdd_sensor_voltage_read_def read_volt_data_def adc_read_voltage_def rd_def wr_def case_prod_beta' Let_def)

end
