(* ===== verification/Sensor_Drivers.thy ===== *)
theory Sensor_Drivers
  imports Sensor_Life Sensor_Sht3x Sensor_Sht4x Sensor_Cht Sensor_Imu Sensor_Volt
begin



lemma intfs_fields [simp]:
  "in_open sht3x_intfs = Some tdd_sensor_sht3x_open" "in_close sht3x_intfs = Some tdd_sensor_sht3x_close"
  "in_control sht3x_intfs = Some tdd_sensor_sht3x_control" "in_read_ele sht3x_intfs = Some tdd_sensor_sht3x_read" "in_read_raw sht3x_intfs = None"
  "in_open sht4x_intfs = Some tdd_sensor_sht4x_open" "in_close sht4x_intfs = Some tdd_sensor_sht4x_close"
  "in_control sht4x_intfs = Some tdd_sensor_sht4x_control" "in_read_ele sht4x_intfs = Some tdd_sensor_sht4x_read" "in_read_raw sht4x_intfs = None"
  "in_open cht8305_intfs = Some tdd_sensor_cht8305_open" "in_close cht8305_intfs = Some tdd_sensor_cht8305_close"
  "in_control cht8305_intfs = Some tdd_sensor_cht8305_control" "in_read_ele cht8305_intfs = Some tdd_sensor_cht8305_read" "in_read_raw cht8305_intfs = None"
  "in_open mpu60x0_intfs = Some tdd_sensor_mpu60x0_open" "in_close mpu60x0_intfs = Some tdd_sensor_mpu60x0_close"
  "in_control mpu60x0_intfs = Some tdd_sensor_mpu60x0_control" "in_read_ele mpu60x0_intfs = Some tdd_sensor_mpu60x0_read" "in_read_raw mpu60x0_intfs = None"
  "in_open voltage_intfs = Some tdd_sensor_voltage_open" "in_close voltage_intfs = Some tdd_sensor_voltage_close"
  "in_control voltage_intfs = Some tdd_sensor_voltage_control" "in_read_ele voltage_intfs = Some tdd_sensor_voltage_read" "in_read_raw voltage_intfs = None"
  by (simp_all add: sht3x_intfs_def sht4x_intfs_def cht8305_intfs_def mpu60x0_intfs_def voltage_intfs_def)


section \<open>Runs of the board\<close>











section \<open>A board with one sensor\<close>




end
