(* ===== verification/Sensor_Typed.thy ===== *)
theory Sensor_Typed
  imports Sensor_Life
begin

text \<open>
  The types of what the sensor manager reports. Nothing is asked here of the drivers, of the application or of the operating
  system: whenever a sequence of events comes to an end, every report that was made names a registered device and elements of this
  device, each with the type that the driver registered for it.
\<close>

section \<open>Calls that may return\<close>

text \<open>\<open>if_ret m Q\<close>: whatever the computation \<open>m\<close> returns has the property \<open>Q\<close>.\<close>

definition if_ret :: "'a option \<Rightarrow> ('a \<Rightarrow> bool) \<Rightarrow> bool" where
  "if_ret m Q \<longleftrightarrow> (\<forall>x. m = Some x \<longrightarrow> Q x)"

lemma if_ret_bind [simp]: "if_ret (m \<bind> f) Q = if_ret m (\<lambda>x. if_ret (f x) Q)"
  and if_ret_map [simp]: "if_ret (map_option f2 m) R = if_ret m (\<lambda>x. R (f2 x))"
  by (auto simp: if_ret_def split: bind_splits)

lemma if_ret_simps [simp]: "if_ret None Q" "if_ret (Some x) Q = Q x" "if_ret (if b then m else n) Q = (if b then if_ret m Q else if_ret n Q)"
  by (auto simp: if_ret_def)

lemma if_ret_prod [simp]: "if_ret (case y of (a, b) \<Rightarrow> g a b) Q = (case y of (a, b) \<Rightarrow> if_ret (g a b) Q)"
  and if_ret_let [simp]: "if_ret (let z = e in k z) Q = (let z = e in if_ret (k z) Q)"
  by (auto simp: if_ret_def split: prod.split)

lemma if_ret_option [simp]: "if_ret (case y of None \<Rightarrow> m | Some z \<Rightarrow> f z) Q = (case y of None \<Rightarrow> if_ret m Q | Some z \<Rightarrow> if_ret (f z) Q)"
  by (simp split: option.split)

lemma if_ret_mono: "if_ret m P \<Longrightarrow> (\<And>x. P x \<Longrightarrow> Q x) \<Longrightarrow> if_ret m Q"
  by (auto simp: if_ret_def)

lemma if_ret_all: "(\<And>x. Q x) \<Longrightarrow> if_ret m Q"
  by (simp add: if_ret_def)

lemma if_ret_any [simp]: "if_ret m (\<lambda>x. True)"
  by (simp add: if_ret_def)

lemma if_ret_foldM:
  assumes "P s" "\<And>x s. x \<in> set xs \<Longrightarrow> P s \<Longrightarrow> if_ret (f x s) P"
  shows "if_ret (foldM f xs s) P"
  unfolding if_ret_def
proof (intro allI impI)
  fix t assume "foldM f xs s = Some t"
  then show "P t" by (rule foldM_invariant) (use assms in \<open>auto simp: if_ret_def\<close>)
qed

lemma if_ret_some: "if_ret m Q \<longleftrightarrow> (\<forall>x. m = Some x \<longrightarrow> Q x)" for m :: "SR_ELE_SUB_RULE_T list option"
  by (simp add: if_ret_def)

lemma if_ret_rd: "if_ret (rd xs i) Q \<longleftrightarrow> (i < length xs \<longrightarrow> Q (xs ! i))"
  and if_ret_wr: "if_ret (wr xs i v) R \<longleftrightarrow> (i < length xs \<longrightarrow> R (xs[i := v]))"
  by (auto simp: if_ret_def rd_def wr_def)

section \<open>Devices\<close>

definition of_ele :: "SR_ELE_CFG_T list \<Rightarrow> u8 \<times> u8 \<Rightarrow> bool" where
  "of_ele info p \<longleftrightarrow> (\<exists>c \<in> set info. p = (ec_id c, ec_val_tp c))"

definition has_ele :: "('p, 'w) SR_DEV_NODE_T \<Rightarrow> u8 \<Rightarrow> bool" where
  "has_ele d i \<longleftrightarrow> (\<exists>j < unat (ele_num d). j < length (ele_info d) \<and> ec_id (ele_info d ! j) = i)"

definition typed_fifo :: "('p, 'w) SR_DEV_NODE_T \<Rightarrow> ele_fifo \<Rightarrow> bool" where
  "typed_fifo d x \<longleftrightarrow> (\<forall>b \<in> set (fst x). of_ele (ele_info d) (eb_id b, eb_val_tp b))"

definition typed_sub :: "('p, 'w) SR_DEV_NODE_T \<Rightarrow> SR_ELE_SUB_CFG_T \<Rightarrow> bool" where
  "typed_sub d s \<longleftrightarrow> (\<forall>rs. sub_rule s = Some rs \<longrightarrow> (\<forall>i < unat (sub_num s). i < length rs \<longrightarrow> has_ele d (rl_id (rs ! i))))"

definition typed_dev :: "('p, 'w) SR_DEV_NODE_T \<Rightarrow> bool" where
  "typed_dev d \<longleftrightarrow> (\<forall>x. fifo_ele (app_fifo d) = Some x \<longrightarrow> typed_fifo d x) \<and> (\<forall>s. ele_sub d = Some s \<longrightarrow> typed_sub d s)"

text \<open>The same device with the same elements, still typed.\<close>

definition after :: "('p, 'w) SR_DEV_NODE_T \<Rightarrow> ('p, 'w) SR_DEV_NODE_T \<Rightarrow> bool" where
  "after d e \<longleftrightarrow> same_node d e \<and> (typed_dev d \<longrightarrow> typed_dev e)"

lemma typed_frame [simp]:
  "typed_fifo (d\<lparr>app_fifo := v1\<rparr>) = typed_fifo d" "typed_fifo (d\<lparr>trig_mode := v2\<rparr>) = typed_fifo d" "typed_fifo (d\<lparr>work_param := v3\<rparr>) = typed_fifo d"
  "typed_fifo (d\<lparr>inform_cb := v4\<rparr>) = typed_fifo d" "typed_fifo (d\<lparr>fifo_size := v5\<rparr>) = typed_fifo d" "typed_fifo (d\<lparr>ele_sub := v6\<rparr>) = typed_fifo d"
  "typed_fifo (d\<lparr>resource := v7\<rparr>) = typed_fifo d" "typed_fifo (d\<lparr>flag := v8\<rparr>) = typed_fifo d"
  "typed_sub (d\<lparr>app_fifo := v1\<rparr>) = typed_sub d" "typed_sub (d\<lparr>trig_mode := v2\<rparr>) = typed_sub d" "typed_sub (d\<lparr>work_param := v3\<rparr>) = typed_sub d"
  "typed_sub (d\<lparr>inform_cb := v4\<rparr>) = typed_sub d" "typed_sub (d\<lparr>fifo_size := v5\<rparr>) = typed_sub d" "typed_sub (d\<lparr>ele_sub := v6\<rparr>) = typed_sub d"
  "typed_sub (d\<lparr>resource := v7\<rparr>) = typed_sub d" "typed_sub (d\<lparr>flag := v8\<rparr>) = typed_sub d"
  by (simp_all add: typed_fifo_def typed_sub_def has_ele_def fun_eq_iff)

lemma after_refl [simp]: "after d d"
  and after_frame [simp]: "after d (e\<lparr>resource := rs\<rparr>) = after d e" "after d (e\<lparr>flag := fl\<rparr>) = after d e" "after d (e\<lparr>work_param := wp\<rparr>) = after d e"
  by (simp_all add: after_def same_node_def typed_dev_def)

lemma after_trans: "after d e \<Longrightarrow> after e f \<Longrightarrow> after d f"
  by (auto simp: after_def same_node_def)

section \<open>Configuration\<close>

lemma ele_search_found: "if_ret (ele_search info i js) (\<lambda>f. \<forall>j. f = Some j \<longrightarrow> j \<in> set js \<and> j < length info \<and> ec_id (info ! j) = i)"
  by (induction js) (auto simp: if_ret_rd elim: if_ret_mono)

lemma check_rule_typed: "if_ret (check_rule d F tp r) (\<lambda>(ok, r'). rl_id r' = rl_id r \<and> (\<forall>q. ok = Some q \<longrightarrow> q = r' \<and> has_ele d (rl_id r)))"
  unfolding check_rule_def if_ret_bind
proof (rule ele_search_found [THEN if_ret_mono])
  fix f assume "\<forall>j. f = Some j \<longrightarrow> j \<in> set [0..<unat (ele_num d)] \<and> j < length (ele_info d) \<and> ec_id (ele_info d ! j) = rl_id r"
  then show "if_ret (case f of None \<Rightarrow> Some (None, r) | Some j \<Rightarrow>
      if tp = SR_ELE_SUB_TP_SINGLE \<and> rl_val_num r > F then Some (None, r)
      else do {
        let r = (if tp = SR_ELE_SUB_TP_SINGLE then (if rl_val_num r = 0 then r\<lparr>rl_val_num := 1\<rparr> else r) else r\<lparr>rl_val_num := F\<rparr>);
        c \<leftarrow> rd (ele_info d) j;
        Some (if SR_IS_RANG_ERR (ec_val_tp c) (fl_max (rl_filter r)) (fl_min (rl_filter r)) then (None, r) else (Some r, r)) })
    (\<lambda>(ok, r'). rl_id r' = rl_id r \<and> (\<forall>q. ok = Some q \<longrightarrow> q = r' \<and> has_ele d (rl_id r)))"
    by (cases f) (auto simp: if_ret_rd Let_def has_ele_def)
qed

lemma check_rules_typed:
  "if_ret (check_rules d F tp is rs) (\<lambda>(r, rs'). map rl_id rs' = map rl_id rs \<and> (r = OPRT_OK \<longrightarrow> (\<forall>i \<in> set is. i < length rs \<and> has_ele d (rl_id (rs ! i)))))"
proof (induction "is" arbitrary: rs)
  case (Cons i "is")
  show ?case unfolding check_rules.simps if_ret_bind if_ret_rd
  proof (rule impI, rule check_rule_typed [THEN if_ret_mono], safe)
    fix ok and r' :: SR_ELE_SUB_RULE_T assume i: "i < length rs" and r': "rl_id r' = rl_id (rs ! i)" "\<forall>q. ok = Some q \<longrightarrow> q = r' \<and> has_ele d (rl_id (rs ! i))"
    have m: "map rl_id (rs[i := r']) = map rl_id rs" using r'(1) i by (simp add: list_eq_iff_nth_eq nth_list_update)
    have n: "rl_id (rs[i := r'] ! j) = rl_id (rs ! j)" for j using r'(1) i by (cases "j = i") simp_all
    show "if_ret (case ok of None \<Rightarrow> Some (OPRT_INVALID_PARM, rs[i := r']) | Some r'' \<Rightarrow> check_rules d F tp is (rs[i := r'']))
      (\<lambda>(r, rs'). map rl_id rs' = map rl_id rs \<and> (r = OPRT_OK \<longrightarrow> (\<forall>j \<in> set (i # is). j < length rs \<and> has_ele d (rl_id (rs ! j)))))"
    proof (cases ok)
      case (Some q)
      then have q: "q = r'" "has_ele d (rl_id (rs ! i))" using r'(2) by auto
      show ?thesis unfolding Some q(1) option.case
        by (rule Cons.IH [of "rs[i := r']", THEN if_ret_mono]) (use m n q(2) i in auto)
    qed (simp add: m)
  qed
qed simp

lemma check_config_typed:
  "if_ret (tdl_sensor_check_config d c) (\<lambda>(r, c'). r = OPRT_OK \<longrightarrow> (\<forall>s. cfg_ele_sub c' = Some s \<longrightarrow> typed_sub d s))"
proof -
  have "if_ret (check_rules d F tp [0..<n] rs) (\<lambda>(r, rs'). r = OPRT_OK \<longrightarrow> (\<forall>i < n. i < length rs' \<longrightarrow> has_ele d (rl_id (rs' ! i))))" for F tp n rs
  proof (rule check_rules_typed [THEN if_ret_mono], safe)
    fix rs' i assume m: "map rl_id rs' = map rl_id rs" and i: "i < n" "i < length rs'" "\<forall>i \<in> set [0..<n]. i < length rs \<and> has_ele d (rl_id (rs ! i))"
    have "rl_id (rs' ! i) = map rl_id rs' ! i" using i(2) by simp
    also have "\<dots> = rl_id (rs ! i)" using m i by simp
    finally show "has_ele d (rl_id (rs' ! i))" using i by simp
  qed
  then have "if_ret (check_rules d F tp [0..<n] rs) (\<lambda>(r, rs'). r = OPRT_OK \<longrightarrow> typed_sub d (s\<lparr>sub_rule := Some rs'\<rparr>))" if "unat (sub_num s) = n" for F tp n rs s
    using that by (auto simp: typed_sub_def elim!: if_ret_mono)
  then show ?thesis unfolding tdl_sensor_check_config_def
    by (auto simp: Let_def split: option.split elim!: if_ret_mono)
qed

lemma load_config_typed:
  assumes "\<forall>s. cfg_ele_sub c = Some s \<longrightarrow> typed_sub d s"
  shows "if_ret (tdl_sensor_load_config env d c) (\<lambda>(r, e). after d e \<and> flag e = flag d)"
proof -
  have a: "after d (d\<lparr>trig_mode := t, work_param := wp, inform_cb := cb, fifo_size := n, ele_sub := s\<rparr>)" if "\<forall>x. s = Some x \<longrightarrow> ele_sub d = Some x \<or> typed_sub d x" for t wp cb n s
    using that by (auto simp: after_def same_node_def typed_dev_def)
  have b: "after d (d\<lparr>trig_mode := t, work_param := wp, inform_cb := cb, fifo_size := n\<rparr>)" for t wp cb n
    by (auto simp: after_def same_node_def typed_dev_def)
  show ?thesis
  proof (cases "cfg_ele_sub c")
    case None
    then show ?thesis by (simp add: tdl_sensor_load_config_def Let_def b)
  next
    case (Some s)
    have t: "typed_sub d \<lparr>sub_tp = tp, sub_num = sub_num s, sub_rule = Some (take m src)\<rparr>" if "sub_rule s = Some src" for tp m src
      using assms Some that by (auto simp: typed_sub_def)
    then show ?thesis using Some
      by (simp add: tdl_sensor_load_config_def Let_def if_ret_some memcpy_out_def a)
  qed
qed

section \<open>Buffers\<close>

text \<open>The type that the search of an element comes to.\<close>

lemma search_type:
  assumes "foldM (\<lambda>j tp. do { c \<leftarrow> rd info j; Some (if i = ec_id c then ec_val_tp c else tp) }) [0..<n] tp0 = Some tp"
    and "\<exists>j < n. j < length info \<and> ec_id (info ! j) = i"
  shows "of_ele info (i, tp)"
  using assms
proof (induction n arbitrary: tp)
  case (Suc n)
  from Suc.prems(1) obtain t where t: "foldM (\<lambda>j tp. do { c \<leftarrow> rd info j; Some (if i = ec_id c then ec_val_tp c else tp) }) [0..<n] tp0 = Some t"
    "n < length info" "tp = (if i = ec_id (info ! n) then ec_val_tp (info ! n) else t)"
    by (auto simp: foldM_snoc rd_def split: bind_splits if_splits)
  show ?case
  proof (cases "i = ec_id (info ! n)")
    case False
    then have "\<exists>j < n. j < length info \<and> ec_id (info ! j) = i" using Suc.prems(2) less_Suc_eq by auto
    then show ?thesis using Suc.IH [OF t(1)] t(3) False by simp
  qed (use t in \<open>auto simp: of_ele_def\<close>)
qed simp

lemma ele_buff_typed:
  assumes "typed_dev d" "i < sub_count d"
  shows "if_ret (ele_buff_init d i) (\<lambda>b. of_ele (ele_info d) (eb_id b, eb_val_tp b))"
proof (cases "ele_sub d")
  case None
  then show ?thesis by (auto simp: ele_buff_init_def Let_def if_ret_rd of_ele_def)
next
  case (Some s)
  have "if_ret (foldM (\<lambda>j tp. do { c \<leftarrow> rd (ele_info d) j; Some (if rl_id (rs ! i) = ec_id c then ec_val_tp c else tp) }) [0..<unat (ele_num d)] 0)
    (\<lambda>tp. of_ele (ele_info d) (rl_id (rs ! i), tp))" if "sub_rule s = Some rs" "i < length rs" for rs
    unfolding if_ret_def by (intro allI impI, erule search_type) (use assms Some that in \<open>auto simp: typed_dev_def typed_sub_def sub_count_def has_ele_def\<close>)
  then show ?thesis using Some by (auto simp: ele_buff_init_def Let_def if_ret_rd if_ret_some)
qed

lemma prepare_typed:
  assumes "typed_dev d"
  shows "if_ret (tdl_sensor_prepare_app_fifo env d) (\<lambda>(r, e). after d e)"
proof -
  let ?e = "d\<lparr>app_fifo := (app_fifo d)\<lparr>fifo_ele := None\<rparr>\<rparr>"
  have e: "typed_dev ?e" using assms by (simp add: typed_dev_def)
  have n: "sub_count ?e = sub_count d" "ele_sub ?e = ele_sub d" by (simp_all add: sub_count_def split: option.split)
  have fifo: "if_ret (foldM (\<lambda>i bs. do { b \<leftarrow> ele_buff_init ?e i; Some (bs @ [b]) }) [0..<sub_count d] [])
    (\<lambda>ele. \<forall>b \<in> set ele. of_ele (ele_info d) (eb_id b, eb_val_tp b))"
  proof (rule if_ret_foldM)
    fix i and bs :: "SR_ELE_BUFF_T list" assume "i \<in> set [0..<sub_count d]" and bs: "\<forall>b \<in> set bs. of_ele (ele_info d) (eb_id b, eb_val_tp b)"
    then have "if_ret (ele_buff_init ?e i) (\<lambda>b. of_ele (ele_info ?e) (eb_id b, eb_val_tp b))" by (intro ele_buff_typed [OF e]) (simp add: n)
    then show "if_ret (do { b \<leftarrow> ele_buff_init ?e i; Some (bs @ [b]) }) (\<lambda>ele. \<forall>b \<in> set ele. of_ele (ele_info d) (eb_id b, eb_val_tp b))"
      unfolding if_ret_bind by (rule if_ret_mono) (use bs in auto)
  qed simp
  have put: "after d (d\<lparr>app_fifo := (app_fifo d)\<lparr>fifo_ele := Some (ele, vs)\<rparr>\<rparr>)" if "\<forall>b \<in> set ele. of_ele (ele_info d) (eb_id b, eb_val_tp b)" for ele vs
    using that by (simp add: after_def same_node_def typed_dev_def) (simp add: typed_fifo_def)
  have rest: "after d ?e" "after d (d\<lparr>app_fifo := (app_fifo d)\<lparr>fifo_raw_data := x\<rparr>\<rparr>)" for x
    by (simp_all add: after_def same_node_def typed_dev_def)
  have "if_ret (foldM (\<lambda>i bs. do { b \<leftarrow> ele_buff_init ?e i; Some (bs @ [b]) }) [0..<sub_count d] [])
    (\<lambda>ele. after d (d\<lparr>app_fifo := (app_fifo d)\<lparr>fifo_ele := Some (ele, vs)\<rparr>\<rparr>))" for vs
    by (rule fifo [THEN if_ret_mono]) (rule put)
  then show ?thesis unfolding tdl_sensor_prepare_app_fifo_def by (simp add: Let_def n rest)
qed

section \<open>Acquisition\<close>

text \<open>Filling and emptying a buffer changes its count and its values, never its element.\<close>

definition tags_kept :: "ele_fifo \<Rightarrow> ele_fifo \<Rightarrow> bool" where
  "tags_kept x y \<longleftrightarrow> tags y = tags x"

lemma tags_set: "i < length ele \<Longrightarrow> tags (ele[i := (ele ! i)\<lparr>eb_val_num := n\<rparr>], v) = tags (ele, u)"
  by (rule tags_update) simp_all

lemma store_tags: "if_ret (store_value sub marks d i x) (tags_kept x)"
  unfolding store_value_def by (cases x) (auto simp: if_ret_rd if_ret_wr tags_kept_def tags_set simp del: if_ret_option intro!: if_ret_all)

lemma clear_tags: "if_ret (clear_buff n i x) (tags_kept x)"
  unfolding clear_buff_def by (cases x) (auto simp: if_ret_rd tags_kept_def tags_set intro!: if_ret_all)

lemma typed_fifo_tags: "typed_fifo d x \<longleftrightarrow> (\<forall>p \<in> set (tags x). of_ele (ele_info d) p)"
  by (auto simp: typed_fifo_def tags_def)

lemma tags_kept_fold:
  assumes "\<And>i y. if_ret (f i y) (tags_kept y)"
  shows "if_ret (foldM f is x) (tags_kept x)"
  by (rule if_ret_foldM) (auto simp: tags_kept_def intro!: assms [THEN if_ret_mono])

text \<open>A report on a device, element by element.\<close>

fun report_ok :: "('p, 'w) SR_DEV_NODE_T \<Rightarrow> sr_report \<Rightarrow> bool" where
  "report_ok d (Ele_report cb nm es) \<longleftrightarrow> nm = sr_name d \<and> (\<forall>e \<in> set es. of_ele (ele_info d) (er_id e, er_val_tp e))"
| "report_ok d (Raw_report cb nm rs) \<longleftrightarrow> nm = sr_name d"

lemma load_ele_typed: "if_ret (tdl_sensor_load_ele_value env d w) (\<lambda>(r, e, w'). after d e)"
proof -
  have put: "after d (d\<lparr>resource := rs, flag := fl, app_fifo := (app_fifo d)\<lparr>fifo_ele := Some y\<rparr>\<rparr>)"
    if "fifo_ele (app_fifo d) = Some x" "tags_kept x y" for rs fl x y
    using that by (auto simp: after_def same_node_def typed_dev_def typed_fifo_tags tags_kept_def)
  show ?thesis
  proof (cases "fifo_ele (app_fifo d)")
    case (Some x)
    then have st: "if_ret (foldM (store_value sub marks dt) is x)
      (\<lambda>y. after d (d\<lparr>resource := rs, flag := fl, app_fifo := (app_fifo d)\<lparr>fifo_ele := Some y\<rparr>\<rparr>))" for sub marks dt "is" rs fl
      by (intro tags_kept_fold [OF store_tags, THEN if_ret_mono]) (auto intro: put)
    show ?thesis using Some st unfolding tdl_sensor_load_ele_value_def
      by (cases x) (auto simp: Let_def cong: if_cong option.case_cong intro!: if_ret_all split: option.split)
  qed (simp add: tdl_sensor_load_ele_value_def Let_def)
qed

lemma report_ok_same: "same_node d e \<Longrightarrow> report_ok e rp = report_ok d rp"
  by (cases rp) (simp_all add: same_node_def)

lemma report_of_typed: "typed_fifo d (ele, u) \<Longrightarrow> i < length ele \<Longrightarrow> of_ele (ele_info d) (er_id (report_of vals (ele ! i)), er_val_tp (report_of vals (ele ! i)))"
  by (simp add: typed_fifo_def report_of_def)

lemma inform_single_typed:
  "typed_fifo d x \<Longrightarrow> \<forall>rp \<in> set out. report_ok d rp \<Longrightarrow>
    if_ret (inform_single d rs is (out, x)) (\<lambda>(out', y). tags_kept x y \<and> (\<forall>rp \<in> set out'. report_ok d rp))"
proof (induction "is" arbitrary: out x)
  case (Cons i "is")
  obtain ele vals where x: "x = (ele, vals)" by force
  have next_x: "if_ret (clear_buff n i x) (\<lambda>y. if_ret (inform_single d rs is (out', y)) (\<lambda>(out', y). tags_kept x y \<and> (\<forall>rp \<in> set out'. report_ok d rp)))"
    if o: "\<forall>rp \<in> set out'. report_ok d rp" for n out'
  proof (rule clear_tags [THEN if_ret_mono])
    fix y assume k: "tags_kept x y"
    then have "typed_fifo d y" using Cons.prems(1) by (simp add: typed_fifo_tags tags_kept_def)
    from Cons.IH [OF this o] show "if_ret (inform_single d rs is (out', y)) (\<lambda>(out', y). tags_kept x y \<and> (\<forall>rp \<in> set out'. report_ok d rp))"
      by (rule if_ret_mono) (use k in \<open>auto simp: tags_kept_def\<close>)
  qed
  have out': "\<forall>rp \<in> set (out @ [Ele_report cb (sr_name d) [report_of vals (ele ! i)]]). report_ok d rp" if "i < length ele" for cb
    using Cons.prems x that report_of_typed by auto
  show ?case using Cons.IH [OF Cons.prems] next_x [OF out'] unfolding x
    by (auto simp: if_ret_rd Let_def case_prod_beta' intro!: if_ret_all)
qed (auto simp: tags_kept_def)

lemma after_fifo: "fifo_ele (app_fifo d) = Some x \<Longrightarrow> tags_kept x y \<Longrightarrow> after d (d\<lparr>app_fifo := (app_fifo d)\<lparr>fifo_ele := Some y\<rparr>\<rparr>)"
  by (auto simp: after_def same_node_def typed_dev_def typed_fifo_tags tags_kept_def)

lemma inform_ele_typed:
  assumes "typed_dev d"
  shows "if_ret (tdl_sensor_inform_ele_value d) (\<lambda>(out, e). after d e \<and> (\<forall>rp \<in> set out. report_ok d rp))"
proof (cases "fifo_ele (app_fifo d)")
  case (Some x)
  obtain ele vals where x: "x = (ele, vals)" by force
  have t: "typed_fifo d x" using assms Some by (simp add: typed_dev_def)
  have r: "report_ok d (Ele_report cb (sr_name d) (map (report_of vals) (take n ele)))" for cb n
    using t x by (auto simp: typed_fifo_def report_of_def dest: in_set_takeD)
  have single: "if_ret (inform_single d rs is ([], x)) (\<lambda>(out, y). after d (d\<lparr>app_fifo := (app_fifo d)\<lparr>fifo_ele := Some y\<rparr>\<rparr>) \<and> (\<forall>rp \<in> set out. report_ok d rp))" for rs "is"
    by (rule inform_single_typed [OF t, THEN if_ret_mono]) (auto intro: after_fifo [OF Some])
  have group: "if_ret (foldM (clear_buff m) is x) (\<lambda>y. after d (d\<lparr>app_fifo := (app_fifo d)\<lparr>fifo_ele := Some y\<rparr>\<rparr>))" for m "is"
    by (rule tags_kept_fold [OF clear_tags, THEN if_ret_mono]) (rule after_fifo [OF Some])
  show ?thesis using Some single group r unfolding x tdl_sensor_inform_ele_value_def
    by (auto simp: Let_def if_ret_rd case_prod_beta' simp del: report_ok.simps intro!: if_ret_all)
qed (simp add: tdl_sensor_inform_ele_value_def Let_def)

lemma raw_typed: "if_ret (tdl_sensor_load_and_inform_raw_value d w) (\<lambda>(out, e, w'). after d e \<and> (\<forall>rp \<in> set out. report_ok d rp))"
proof -
  have f: "after d (d\<lparr>resource := rs, app_fifo := (app_fifo d)\<lparr>fifo_raw_data := a\<rparr>\<rparr>)" "after d (d\<lparr>resource := rs, app_fifo := (app_fifo d)\<lparr>fifo_raw_len := n, fifo_raw_data := a\<rparr>\<rparr>)"
    "after d (d\<lparr>resource := rs, app_fifo := (app_fifo d)\<lparr>fifo_raw_data := a, fifo_raw_len := n\<rparr>\<rparr>)" for rs a n
    by (simp_all add: after_def same_node_def typed_dev_def)
  show ?thesis unfolding tdl_sensor_load_and_inform_raw_value_def
    by (auto simp: Let_def if_ret_rd f intro!: if_ret_all)
qed

lemma acquire_typed:
  assumes "typed_dev d"
  shows "if_ret (acquire_dev env d w) (\<lambda>(out, e, w'). after d e \<and> (\<forall>rp \<in> set out. report_ok d rp))"
proof -
  have "if_ret (tdl_sensor_inform_ele_value e) (\<lambda>(out, f). after d f \<and> (\<forall>rp \<in> set out. report_ok d rp))" if e: "after d e" for e
  proof -
    have "typed_dev e" "same_node d e" using e assms by (simp_all add: after_def)
    then show ?thesis using report_ok_same [of d e] after_trans [OF e] by (intro inform_ele_typed [THEN if_ret_mono]) auto
  qed
  then have "if_ret (tdl_sensor_load_ele_value env d w) (\<lambda>(r, e, w'). after d e \<and> if_ret (tdl_sensor_inform_ele_value e) (\<lambda>(out, f). after d f \<and> (\<forall>rp \<in> set out. report_ok d rp)))"
    by (intro load_ele_typed [THEN if_ret_mono]) auto
  then show ?thesis using raw_typed [of d w] unfolding acquire_dev_def by (auto simp: case_prod_beta' elim!: if_ret_mono)
qed

section \<open>Runs\<close>

definition typed_hub :: "('p, 'w) sr_hub \<Rightarrow> bool" where
  "typed_hub h \<longleftrightarrow> (\<forall>d \<in> set (sr_devs h). typed_dev d) \<and> (\<forall>rp \<in> set (sr_reports h). \<exists>d \<in> set (sr_devs h). report_ok d rp)"

text \<open>Every device stays what it is, and what is reported is about one of them.\<close>

lemma typed_replace:
  assumes "typed_hub h" "list_all2 after (sr_devs h) (sr_devs h')" "\<forall>rp \<in> set (sr_reports h') - set (sr_reports h). \<exists>d \<in> set (sr_devs h). report_ok d rp"
  shows "typed_hub h'"
proof -
  have f: "\<exists>e \<in> set (sr_devs h'). after d e" if "d \<in> set (sr_devs h)" for d
    using assms(2) that by (metis in_set_conv_nth list_all2_conv_all_nth)
  have b: "\<exists>d \<in> set (sr_devs h). after d e" if "e \<in> set (sr_devs h')" for e
    using assms(2) that by (metis in_set_conv_nth list_all2_conv_all_nth)
  have r: "\<exists>d \<in> set (sr_devs h). report_ok d rp" if "rp \<in> set (sr_reports h')" for rp using assms(1,3) that by (auto simp: typed_hub_def)
  show ?thesis unfolding typed_hub_def
  proof (intro conjI ballI)
    fix e assume "e \<in> set (sr_devs h')"
    then show "typed_dev e" using b assms(1) by (auto simp: typed_hub_def after_def)
  next
    fix rp assume "rp \<in> set (sr_reports h')"
    then obtain d where d: "d \<in> set (sr_devs h)" "report_ok d rp" using r by blast
    then obtain e where "e \<in> set (sr_devs h')" "after d e" using f by blast
    then show "\<exists>d \<in> set (sr_devs h'). report_ok d rp" using d(2) report_ok_same by (auto simp: after_def)
  qed
qed

lemma all_after_refl: "list_all2 after ds ds"
  by (simp add: list_all2_conv_all_nth)

lemma all_after_update: "i < length ds \<Longrightarrow> after (ds ! i) e \<Longrightarrow> list_all2 after ds (ds[i := e])"
  by (auto simp: list_all2_conv_all_nth nth_list_update)

definition kept_lists :: "('p, 'w) sr_hub \<Rightarrow> ('p, 'w) sr_hub \<Rightarrow> bool" where
  "kept_lists h h' \<longleftrightarrow> sr_devs h' = sr_devs h \<and> sr_reports h' = sr_reports h"

lemma typed_kept: "kept_lists h h' \<Longrightarrow> typed_hub h \<Longrightarrow> typed_hub h'"
  by (simp add: kept_lists_def typed_hub_def)

lemma on_dev_typed:
  assumes h: "typed_hub h"
    and f: "\<And>d. typed_dev d \<Longrightarrow> if_ret (f d h) (\<lambda>(r, e, h'). after d e \<and> kept_lists h h')"
  shows "if_ret (on_dev handle h f err) (\<lambda>(r, h'). typed_hub h')"
proof (cases handle)
  case (Some i)
  have "if_ret (f (sr_devs h ! i) h) (\<lambda>(r, e, h'). typed_hub (h'\<lparr>sr_devs := (sr_devs h')[i := e]\<rparr>))" if i: "i < length (sr_devs h)"
  proof (rule f [THEN if_ret_mono])
    show "typed_dev (sr_devs h ! i)" using h i by (simp add: typed_hub_def)
    show "case x of (r, e, h') \<Rightarrow> typed_hub (h'\<lparr>sr_devs := (sr_devs h')[i := e]\<rparr>)" if "case x of (r, e, h') \<Rightarrow> after (sr_devs h ! i) e \<and> kept_lists h h'" for x
      using that i by (auto simp: kept_lists_def intro!: typed_replace [OF h] all_after_update)
  qed
  then show ?thesis using Some h by (simp add: on_dev_def if_ret_rd case_prod_beta')
qed (use h in \<open>simp add: on_dev_def\<close>)

lemma trig_lists: "kept_lists h (snd (tdl_sensor_daq_trig_init env d h))"
proof -
  have c: "sr_reports (hub_call c h) = sr_reports h" for c and h :: "('p, 'w) sr_hub" by (simp add: hub_call_def)
  have f: "sr_reports (fold (\<lambda>i. hub_call (f i)) xs h) = sr_reports h" for f xs and h :: "('p, 'w) sr_hub" by (induction xs arbitrary: h) (simp_all add: c)
  have "sr_reports (snd (tdl_sensor_daq_trig_init env d h)) = sr_reports h"
    by (simp add: tdl_sensor_daq_trig_init_def tdl_sensor_hard_timer_init_def tdl_sensor_exti_init_def tdl_sensor_soft_timer_init_def Let_def c f split: option.split)
  then show ?thesis using trig_frame [of env d h] by (simp add: kept_lists_def)
qed

lemma static_open_typed:
  assumes d: "typed_dev d" and c: "\<forall>s. cfg_ele_sub c = Some s \<longrightarrow> typed_sub d s"
  shows "if_ret (static_tdl_sensor_dev_open env d c h) (\<lambda>(r, e, h'). after d e \<and> kept_lists h h')"
proof -
  have k: "kept_lists h h" "kept_lists h (g\<lparr>sr_world := w\<rparr>) = kept_lists h g" for g w by (simp_all add: kept_lists_def)
  show ?thesis unfolding static_tdl_sensor_dev_open_def if_ret_bind
    by (rule load_config_typed [OF c, THEN if_ret_mono], clarsimp simp: k, rule prepare_typed [THEN if_ret_mono], use d in \<open>simp add: after_def\<close>)
      (auto simp: k Let_def case_prod_beta' trig_lists intro: after_trans intro!: if_ret_all)
qed

lemma close_typed: "if_ret (static_tdl_sensor_dev_close d h) (\<lambda>(r, e, h'). after d e \<and> kept_lists h h')"
proof -
  have "after d (d\<lparr>resource := rs, flag := fl, work_param := wp, app_fifo := (app_fifo d)\<lparr>fifo_ele := None\<rparr>, trig_mode := 0, fifo_size := 0, inform_cb := None, ele_sub := None\<rparr>)"
    "after d (d\<lparr>resource := rs, flag := fl, work_param := wp, app_fifo := (app_fifo d)\<lparr>fifo_raw_data := None, fifo_raw_len := 0\<rparr>, trig_mode := 0, fifo_size := 0, inform_cb := None, ele_sub := None\<rparr>)"
    for rs fl wp by (simp_all add: after_def same_node_def typed_dev_def)
  then show ?thesis unfolding static_tdl_sensor_dev_close_def by (auto simp: Let_def kept_lists_def intro!: if_ret_all)
qed

lemma calls_typed:
  assumes "typed_hub h"
  shows "if_ret (tdl_sensor_dev_open env handle config h) (\<lambda>(r, h'). typed_hub h')"
    "if_ret (tdl_sensor_dev_close handle h) (\<lambda>(r, h'). typed_hub h')"
    "if_ret (tdl_sensor_dev_config handle cmd param h) (\<lambda>(r, h'). typed_hub h')"
    "if_ret (tdl_sensor_dev_read handle num ele raw h) (\<lambda>(r, h'). typed_hub h')"
proof -
  have o: "if_ret (do { (r, c) \<leftarrow> tdl_sensor_check_config d c; if r \<noteq> OPRT_OK then Some (r, d, h) else static_tdl_sensor_dev_open env d c h })
    (\<lambda>(r, e, h'). after d e \<and> kept_lists h h')" if "typed_dev d" for d c
    unfolding if_ret_bind by (rule check_config_typed [THEN if_ret_mono]) (use static_open_typed [OF that] in \<open>auto simp: kept_lists_def\<close>)
  show "if_ret (tdl_sensor_dev_open env handle config h) (\<lambda>(r, h'). typed_hub h')"
    using assms by (cases config) (auto simp: tdl_sensor_dev_open_def intro!: on_dev_typed o)
  show "if_ret (tdl_sensor_dev_close handle h) (\<lambda>(r, h'). typed_hub h')"
    unfolding tdl_sensor_dev_close_def by (rule on_dev_typed [OF assms]) (rule close_typed)
  show "if_ret (tdl_sensor_dev_config handle cmd param h) (\<lambda>(r, h'). typed_hub h')"
    unfolding tdl_sensor_dev_config_def by (rule on_dev_typed [OF assms]) (auto simp: kept_lists_def intro!: if_ret_all)
  show "if_ret (tdl_sensor_dev_read handle num ele raw h) (\<lambda>(r, h'). typed_hub h')"
    unfolding tdl_sensor_dev_read_def static_tdl_sensor_dev_read_def
    by (rule on_dev_typed [OF assms]) (auto simp: kept_lists_def Let_def intro!: if_ret_all)
qed

lemma register_typed: "typed_hub h \<Longrightarrow> typed_hub (snd (tdl_sensor_register env name ifs num cfg rs h))"
proof -
  assume h: "typed_hub h"
  have i: "kept_lists h (snd (tdl_sensor_hub_frame_init env h))" by (simp add: tdl_sensor_hub_frame_init_def hub_call_def kept_lists_def Let_def)
  have s: "typed_hub (snd (static_tdl_sensor_register env nm i m c rs g))" if "kept_lists h g" for nm i m c g
    using h that by (auto simp: static_tdl_sensor_register_def kept_lists_def typed_hub_def typed_dev_def)
  let ?f = "if is_frame_init h then (OPRT_OK, h)
    else let (r, g) = tdl_sensor_hub_frame_init env h in if r \<noteq> OPRT_OK then (r, g) else (OPRT_OK, g\<lparr>is_frame_init := True\<rparr>)"
  have f: "kept_lists h (snd ?f)" using i by (simp add: kept_lists_def case_prod_beta' Let_def)
  show ?thesis
  proof (cases name; cases ifs)
    fix nm i assume n: "name = Some nm" "ifs = Some i"
    obtain r g where g: "?f = (r, g)" by force
    then have k: "kept_lists h g" using f by simp
    show ?thesis unfolding tdl_sensor_register_def n prod.case option.case g
      using h s [OF k] typed_kept [OF k h] by simp
  qed (use h in \<open>simp_all add: tdl_sensor_register_def\<close>)
qed

lemma map_typed:
  assumes "typed_hub h" "\<And>d. after d (f d)" "sr_devs h' = map f (sr_devs h)" "sr_reports h' = sr_reports h"
  shows "typed_hub h'"
  by (rule typed_replace [OF assms(1)]) (simp_all add: assms list_all2_conv_all_nth)

lemma acquire_handle_typed: "typed_hub h \<Longrightarrow> if_ret (tdl_sensor_acquire_handle env h) typed_hub"
  unfolding tdl_sensor_acquire_handle_def
proof (rule if_ret_foldM)
  fix i and g :: "('a, 'b) sr_hub" assume g: "typed_hub g"
  have "if_ret (acquire_dev env (sr_devs g ! i) (sr_world g))
      (\<lambda>(out, e, w). typed_hub (g\<lparr>sr_devs := (sr_devs g)[i := e], sr_world := w, sr_reports := sr_reports g @ out\<rparr>))" if i: "i < length (sr_devs g)"
  proof (rule acquire_typed [THEN if_ret_mono])
    show "typed_dev (sr_devs g ! i)" using g i by (simp add: typed_hub_def)
    show "case x of (out, e, w) \<Rightarrow> typed_hub (g\<lparr>sr_devs := (sr_devs g)[i := e], sr_world := w, sr_reports := sr_reports g @ out\<rparr>)"
      if "case x of (out, e, w') \<Rightarrow> after (sr_devs g ! i) e \<and> (\<forall>rp \<in> set out. report_ok (sr_devs g ! i) rp)" for x
      using that i by (auto intro!: typed_replace [OF g] all_after_update intro: bexI [OF _ nth_mem [OF i]])
  qed
  then show "if_ret (do { device \<leftarrow> rd (sr_devs g) i; (out, device, w) \<leftarrow> acquire_dev env device (sr_world g);
      Some (g\<lparr>sr_devs := (sr_devs g)[i := device], sr_world := w, sr_reports := sr_reports g @ out\<rparr>) }) typed_hub"
    by (simp add: if_ret_rd case_prod_beta')
qed

lemma main_task_typed: "typed_hub h \<Longrightarrow> if_ret (tdl_sensor_main_task env h) typed_hub"
proof -
  assume h: "typed_hub h"
  have t: "after d (timer_proc_dev s n d)" "after d (exti_proc_dev d)" for s n and d :: "('a, 'b) SR_DEV_NODE_T"
    by (simp_all add: timer_proc_dev_def exti_proc_dev_def Let_def)
  have a: "typed_hub (tdl_sensor_timer_proc s n g)" if "typed_hub g" for s n and g :: "('a, 'b) sr_hub"
    using that by (auto simp: tdl_sensor_timer_proc_def intro!: map_typed [OF that, where f = "timer_proc_dev s n"] t)
  have b: "typed_hub (tdl_sensor_exti_proc g)" if "typed_hub g" for g :: "('a, 'b) sr_hub"
    by (rule map_typed [OF that, where f = exti_proc_dev]) (simp_all add: t tdl_sensor_exti_proc_def)
  have "typed_hub (h\<lparr>task_sem := k, soft_tm_cnt := 0, hard_tm_cnt := 0\<rparr>)" for k using h by (simp add: typed_hub_def)
  then show ?thesis using h acquire_handle_typed [OF b [OF a]] by (simp add: tdl_sensor_main_task_def Let_def)
qed

lemma exti_typed: "typed_hub h \<Longrightarrow> if_ret (tdl_sensor_exti_cb arg h) typed_hub"
proof -
  assume h: "typed_hub h"
  have "typed_hub (sem_post (h\<lparr>sr_devs := (sr_devs h)[i := (sr_devs h ! i)\<lparr>flag := fl\<rparr>]\<rparr>))" if "i < length (sr_devs h)" for i fl
    using that by (auto simp: sem_post_def intro!: typed_replace [OF h] all_after_update)
  moreover have "typed_hub (sem_post h)" using h by (simp add: sem_post_def typed_hub_def)
  ultimately show ?thesis by (auto simp: tdl_sensor_exti_cb_def Let_def if_ret_rd find_index_Some split: option.split)
qed

lemma step_typed: "typed_hub h \<Longrightarrow> if_ret (hub_step ev h) typed_hub"
  using calls_typed [of h] register_typed [of h] exti_typed [of h] main_task_typed [of h]
  by (cases ev) (simp_all add: case_prod_beta' tdl_sensor_soft_timer_cb_def tdl_sensor_hard_timer_cb_def sem_post_def typed_hub_def)

text \<open>C14: Reports are well typed. Whatever events came since power-up, in whatever order, with whatever drivers, callers and answers
  of the operating system, as long as each of them returned: every report of element values carries the name of a registered
  device and, with each value, the number of an element that the device has and the type that was registered for it.\<close>

theorem sensor_reports_typed:
  assumes "foldM hub_step evs h0 = Some h" and "sr_devs h0 = []" and "sr_reports h0 = []"
    and "Ele_report cb name es \<in> set (sr_reports h)" and "e \<in> set es"
  shows "\<exists>d \<in> set (sr_devs h). sr_name d = name \<and> (\<exists>c \<in> set (ele_info d). ec_id c = er_id e \<and> ec_val_tp c = er_val_tp e)"
proof -
  have "typed_hub h0" using assms(2,3) by (simp add: typed_hub_def)
  then have "if_ret (foldM hub_step evs h0) typed_hub" by (rule if_ret_foldM) (rule step_typed)
  then have "typed_hub h" using assms(1) by (simp add: if_ret_def)
  then show ?thesis using assms(4,5) by (fastforce simp: typed_hub_def of_ele_def)
qed

text \<open>A run with one report: a device is registered and opened, ten milliseconds pass, and the task runs.\<close>

definition ex_pass :: "SR_RSRC_T \<Rightarrow> unit \<Rightarrow> (OPERATE_RET \<times> SR_RSRC_T \<times> unit) option" where
  "ex_pass rs w = Some (OPRT_OK, rs, w)"

definition ex_intfs :: "(unit, unit) SR_INTFS_T" where
  "ex_intfs = \<lparr>in_open = Some ex_pass, in_close = Some ex_pass, in_control = Some (\<lambda>rs c p w. Some (OPRT_OK, p, rs, w)), in_read_ele = Some ex_read, in_read_raw = None\<rparr>"

definition ex_poll :: SR_DEV_CFG_T where
  "ex_poll = \<lparr>cfg_mode = \<lparr>m_trig_mode = SR_MODE_POLL_SOFT_TM, m_poll_intv_ms = 10, m_irq_pin = 0, m_irq_mode = 0\<rparr>, cfg_inform_cb = Some 7, cfg_fifo_size = 1,
     cfg_ele_sub = Some \<lparr>sub_tp = SR_ELE_SUB_TP_SINGLE, sub_num = 1, sub_rule = Some [\<lparr>rl_id = 4, rl_val_num = 1, rl_filter = \<lparr>fl_max = 0, fl_min = 0, fl_step = 3\<rparr>\<rparr>]\<rparr>\<rparr>"

definition ex_start :: "(unit, unit) sr_hub" where
  "ex_start = \<lparr>sr_devs = [], soft_tm_cnt = 0, hard_tm_cnt = 0, task_sem = 0, is_frame_init = False, is_soft_timer_init = False,
     is_hard_timer_init = False, hard_timer = 0, sr_calls = [], sr_reports = [], sr_world = ()\<rparr>"

definition ex_events :: "(unit, unit) hub_event list" where
  "ex_events = [Ev_register ex_answers (Some ''adc'') (Some ex_intfs) 1 (Some [\<lparr>ec_id = 4, ec_val_tp = SR_VAL_TP_INT\<rparr>]) \<lparr>rs_type = 0, rs_port = 0, rs_handle = 0, rs_info = []\<rparr>,
     Ev_open ex_answers (Some 0) (Some ex_poll), Ev_soft_timer, Ev_task ex_answers]"

lemmas ex_register = tdl_sensor_register_def tdl_sensor_hub_frame_init_def hub_call_def static_tdl_sensor_register_def tdl_sensor_find_dev_node_def tdl_sensor_get_data_tp_def

lemmas ex_open = tdl_sensor_dev_open_def on_dev_def tdl_sensor_check_config_def check_rule_def static_tdl_sensor_dev_open_def tdl_sensor_load_config_def
  tdl_sensor_prepare_app_fifo_def ele_buff_init_def tdl_sensor_daq_trig_init_def tdl_sensor_soft_timer_init_def sub_count_def SR_IS_RANG_ERR_def memcpy_out_def

lemmas ex_task = tdl_sensor_soft_timer_cb_def sem_post_def tdl_sensor_main_task_def tdl_sensor_timer_proc_def timer_proc_dev_def tdl_sensor_exti_proc_def exti_proc_dev_def
  tdl_sensor_acquire_handle_def acquire_dev_def tdl_sensor_load_ele_value_def tdl_sensor_inform_ele_value_def store_value_def clear_buff_def report_of_def
  tdl_sensor_is_need_filter_def SR_IS_VAL_OVER_RANG_def SR_IS_VAL_DIFF_IN_STEP_def memcpy_in_def

lemma ex_run: "\<exists>h. foldM hub_step ex_events ex_start = Some h \<and> sr_reports h = [Ele_report 7 ''adc'' [\<lparr>er_id = 4, er_val_tp = SR_VAL_TP_INT, er_vals = [42]\<rparr>]]"
  by (simp add: ex_events_def ex_start_def ex_register ex_open ex_task ex_answers_def ex_intfs_def ex_pass_def ex_read_def ex_poll_def Let_def rd_def wr_def)

theorem sensor_reports_typed_witness:
  "\<exists>h. foldM hub_step ex_events ex_start = Some h \<and> (\<exists>d \<in> set (sr_devs h). sr_name d = ''adc'' \<and> (\<exists>c \<in> set (ele_info d). ec_id c = 4 \<and> ec_val_tp c = SR_VAL_TP_INT))"
proof -
  obtain h where h: "foldM hub_step ex_events ex_start = Some h" "sr_reports h = [Ele_report 7 ''adc'' [\<lparr>er_id = 4, er_val_tp = SR_VAL_TP_INT, er_vals = [42]\<rparr>]]"
    using ex_run by blast
  have "sr_devs ex_start = []" "sr_reports ex_start = []" by (simp_all add: ex_start_def)
  from sensor_reports_typed [OF h(1) this, of 7 "''adc''" "[\<lparr>er_id = 4, er_val_tp = SR_VAL_TP_INT, er_vals = [42]\<rparr>]" "\<lparr>er_id = 4, er_val_tp = SR_VAL_TP_INT, er_vals = [42]\<rparr>"]
  show ?thesis using h by simp
qed

end
