(* ===== verification/IR_Nec.thy ===== *)
theory IR_Nec
  imports Tuya_Prelude
begin

text \<open>
  The NEC infrared protocol, \<^verbatim>\<open>tdl_nec_protocol.c\<close> of the IR driver application: building the
  pulse durations of a frame, the tolerance table, the search for a leader and the decoder.
  A pulse train is a list of 32-bit durations in microseconds, even positions active.
\<close>

section \<open>Constants and data\<close>

abbreviation (input) NEC_LEADER_HIGH_US :: u32 where "NEC_LEADER_HIGH_US \<equiv> 9000"
abbreviation (input) NEC_LEADER_LOW_US :: u32 where "NEC_LEADER_LOW_US \<equiv> 4500"
abbreviation (input) NEC_LOGIC_HIGH_US :: u32 where "NEC_LOGIC_HIGH_US \<equiv> 560"
abbreviation (input) NEC_LOGIC0_LOW_US :: u32 where "NEC_LOGIC0_LOW_US \<equiv> 560"
abbreviation (input) NEC_LOGIC1_LOW_US :: u32 where "NEC_LOGIC1_LOW_US \<equiv> 1690"
abbreviation (input) NEC_REPEAT_HIGH_US :: u32 where "NEC_REPEAT_HIGH_US \<equiv> 9000"
abbreviation (input) NEC_REPEAT_LOW_US :: u32 where "NEC_REPEAT_LOW_US \<equiv> 2250"
abbreviation (input) NEC_END_HIGH_US :: u32 where "NEC_END_HIGH_US \<equiv> 560"
abbreviation (input) NEC_CODE_CYCLE :: u32 where "NEC_CODE_CYCLE \<equiv> 110000"

abbreviation (input) NEC_TIMECODE_LEN_MIN :: nat where "NEC_TIMECODE_LEN_MIN \<equiv> 66"
abbreviation (input) NEC_CODE_DATA_OFFSET :: nat where "NEC_CODE_DATA_OFFSET \<equiv> 2"
abbreviation (input) NEC_CODE_DATA_LEN :: nat where "NEC_CODE_DATA_LEN \<equiv> 64"

record IR_DATA_NEC_T =
  nec_addr :: u16
  nec_cmd :: u16
  nec_repeat_cnt :: u16

record IR_DATA_TIMECODE_T =
  tc_len :: nat
  tc_data :: "u32 list"

record NEC_ERR_VAL_T =
  leader_high_err_val :: u32
  leader_low_err_val :: u32
  logic0_high_err_val :: u32
  logic0_low_err_val :: u32
  logic1_high_err_val :: u32
  logic1_low_err_val :: u32
  repeat_high_err_val :: u32
  repeat_low_err_val :: u32
  end_high_err_val :: u32

record IR_NEC_CFG_T =
  is_nec_msb :: u8
  lead_err :: u8
  logics_err :: u8
  logic0_err :: u8
  logic1_err :: u8
  repeat_err :: u8

definition ABS :: "u32 \<Rightarrow> u32 \<Rightarrow> u32" where
  "ABS a b = (if a > b then a - b else b - a)"

section \<open>Building a frame\<close>

definition nec_bytes :: "IR_DATA_NEC_T \<Rightarrow> u8 list" where
  "nec_bytes d =
     [ucast (drop_bit 8 (nec_addr d) AND 0x00FF), ucast (nec_addr d AND 0x00FF),
      ucast (drop_bit 8 (nec_cmd d) AND 0x00FF), ucast (nec_cmd d AND 0x00FF)]"

definition nec_bit_set :: "bool \<Rightarrow> u8 \<Rightarrow> nat \<Rightarrow> bool" where
  "nec_bit_set is_msb b j =
     (if is_msb then b AND drop_bit j 0x80 \<noteq> 0 else b AND push_bit j 1 \<noteq> 0)"

definition nec_build_header :: "u32 list \<Rightarrow> u32 list option" where
  "nec_build_header buf = do {
     buf \<leftarrow> wr buf 0 NEC_LEADER_HIGH_US;
     wr buf 1 NEC_LEADER_LOW_US }"

definition nec_build_data :: "bool \<Rightarrow> u8 list \<Rightarrow> u32 list \<Rightarrow> u32 list option" where
  "nec_build_data is_msb nec_data buf =
     (let offset = 1 in
      foldM (\<lambda>i. foldM (\<lambda>j buf. do {
          buf \<leftarrow> wr buf ((i * 8 + j + offset) * 2) NEC_LOGIC_HIGH_US;
          b \<leftarrow> rd nec_data i;
          wr buf ((i * 8 + j + offset) * 2 + 1)
            (if nec_bit_set is_msb b j then NEC_LOGIC1_LOW_US else NEC_LOGIC0_LOW_US) })
        [0..<8]) [0..<4] buf)"

definition nec_build_end :: "u32 list \<Rightarrow> u32 list option" where
  "nec_build_end buf = (let offset = 33 in do {
     buf \<leftarrow> wr buf (offset * 2) NEC_END_HIGH_US;
     buf \<leftarrow> wr buf (offset * 2 + 1) NEC_CODE_CYCLE;
     foldM (\<lambda>i buf. do {
         g \<leftarrow> rd buf (offset * 2 + 1);
         v \<leftarrow> rd buf i;
         wr buf (offset * 2 + 1) (g - v) })
       [0..<offset * 2 + 1] buf })"

text \<open>The repeat loop counts with a \<^verbatim>\<open>UINT8_T\<close> up to a \<^verbatim>\<open>UINT16_T\<close>.\<close>

partial_function (option) nec_build_repeat :: "u16 \<Rightarrow> u8 \<Rightarrow> nat \<Rightarrow> u32 list \<Rightarrow> u32 list option" where
  "nec_build_repeat repeat_cnt i offset buf =
     (if unat i < unat repeat_cnt then do {
        buf \<leftarrow> wr buf (offset * 2) NEC_REPEAT_HIGH_US;
        buf \<leftarrow> wr buf (offset * 2 + 1) NEC_REPEAT_LOW_US;
        buf \<leftarrow> wr buf (offset * 2 + 2) NEC_END_HIGH_US;
        buf \<leftarrow> wr buf (offset * 2 + 3)
          (NEC_CODE_CYCLE - NEC_REPEAT_HIGH_US - NEC_REPEAT_LOW_US - NEC_END_HIGH_US);
        nec_build_repeat repeat_cnt (i + 1) (cut16 (offset + 2)) buf }
      else Some buf)"

definition tdl_ir_nec_build ::
  "bool \<Rightarrow> bool \<Rightarrow> IR_DATA_NEC_T \<Rightarrow> (OPERATE_RET \<times> IR_DATA_TIMECODE_T option) option" where
  "tdl_ir_nec_build malloc_ok is_msb d =
     (let len = cut16 (2 + 2 * 8 * 4 + 2 + 4 * unat (nec_repeat_cnt d)) in
      if \<not> malloc_ok then Some (OPRT_MALLOC_FAILED, None)
      else do {
        buf \<leftarrow> nec_build_header (replicate len 0);
        buf \<leftarrow> nec_build_data is_msb (nec_bytes d) buf;
        buf \<leftarrow> nec_build_end buf;
        buf \<leftarrow> nec_build_repeat (nec_repeat_cnt d) 0 34 buf;
        Some (OPRT_OK, Some \<lparr>tc_len = len, tc_data = buf\<rparr>) })"

section \<open>Tolerances\<close>

definition nec_err :: "u32 \<Rightarrow> u8 \<Rightarrow> u32" where
  "nec_err nominal pct = of_nat (unat nominal * unat pct div 100)"

definition nec_err_val_of :: "IR_NEC_CFG_T \<Rightarrow> NEC_ERR_VAL_T" where
  "nec_err_val_of cfg =
     \<lparr>leader_high_err_val = nec_err NEC_LEADER_HIGH_US (lead_err cfg),
      leader_low_err_val = nec_err NEC_LEADER_LOW_US (lead_err cfg),
      logic0_high_err_val = nec_err NEC_LOGIC_HIGH_US (logics_err cfg),
      logic0_low_err_val = nec_err NEC_LOGIC0_LOW_US (logic0_err cfg),
      logic1_high_err_val = nec_err NEC_LOGIC_HIGH_US (logics_err cfg),
      logic1_low_err_val = nec_err NEC_LOGIC1_LOW_US (logic1_err cfg),
      repeat_high_err_val = nec_err NEC_REPEAT_HIGH_US (repeat_err cfg),
      repeat_low_err_val = nec_err NEC_REPEAT_LOW_US (repeat_err cfg),
      end_high_err_val = nec_err NEC_END_HIGH_US (repeat_err cfg)\<rparr>"

text \<open>
  The second test of the code compares the address of the out parameter (\<open>out_ok\<close>: it is not
  null), not the result of the allocation (\<open>malloc_ok\<close>): a failed allocation is written through.
\<close>

definition tdl_ir_nec_err_val_init ::
  "bool \<Rightarrow> bool \<Rightarrow> IR_NEC_CFG_T option \<Rightarrow> (OPERATE_RET \<times> NEC_ERR_VAL_T option) option" where
  "tdl_ir_nec_err_val_init malloc_ok out_ok nec_cfg =
     (case nec_cfg of
        None \<Rightarrow> Some (OPRT_INVALID_PARM, None)
      | Some cfg \<Rightarrow>
          if lead_err cfg \<ge> 100 \<or> logics_err cfg \<ge> 100 \<or> logic0_err cfg \<ge> 100 \<or>
             logic1_err cfg \<ge> 100 \<or> repeat_err cfg \<ge> 100
          then Some (OPRT_INVALID_PARM, None)
          else if \<not> out_ok then Some (OPRT_MALLOC_FAILED, None)
          else if \<not> malloc_ok then None
          else Some (OPRT_OK, Some (nec_err_val_of cfg)))"

section \<open>Finding the leader\<close>

fun nec_head_loop :: "u32 list \<Rightarrow> NEC_ERR_VAL_T \<Rightarrow> nat list \<Rightarrow> (nat option) option" where
  "nec_head_loop buf ev [] = Some None"
| "nec_head_loop buf ev (cur_index # is) = do {
     h \<leftarrow> rd buf cur_index;
     if ABS h NEC_LEADER_HIGH_US \<le> leader_high_err_val ev then do {
       l \<leftarrow> rd buf (cur_index + 1);
       if ABS l NEC_LEADER_LOW_US \<le> leader_low_err_val ev then Some (Some cur_index)
       else nec_head_loop buf ev is }
     else nec_head_loop buf ev is }"

definition tdl_nec_get_frame_head ::
  "u32 list option \<Rightarrow> nat \<Rightarrow> NEC_ERR_VAL_T option \<Rightarrow> (OPERATE_RET \<times> nat option) option" where
  "tdl_nec_get_frame_head buf len nec_err_val =
     (case (buf, nec_err_val) of
        (Some buf, Some ev) \<Rightarrow>
          if len < 2 then Some (OPRT_INVALID_PARM, None)
          else do {
            r \<leftarrow> nec_head_loop buf ev [0..<len];
            case r of
              Some idx \<Rightarrow> Some (OPRT_OK, Some idx)
            | None \<Rightarrow> Some (OPRT_COM_ERROR, None) }
      | _ \<Rightarrow> Some (OPRT_INVALID_PARM, None))"

section \<open>Decoding one frame\<close>

text \<open>
  The data loop: \<^term>\<open>Inl i\<close> is the early return of an undecodable pair, \<^term>\<open>Inr bs\<close> the
  four bytes. The counters \<open>data_cnt\<close> and \<open>data_index\<close> are those of the code.
\<close>

fun nec_data_loop ::
  "u32 list \<Rightarrow> NEC_ERR_VAL_T \<Rightarrow> bool \<Rightarrow> nat list \<Rightarrow> nat \<Rightarrow> nat \<Rightarrow> u8 list \<Rightarrow> (nat + u8 list) option" where
  "nec_data_loop buf ev is_msb [] data_cnt data_index nec_data = Some (Inr nec_data)"
| "nec_data_loop buf ev is_msb (i # is) data_cnt data_index nec_data = do {
     h \<leftarrow> rd buf i;
     l \<leftarrow> rd buf (i + 1);
     let pos = (if is_msb then 7 - data_cnt else data_cnt);
     let next = (\<lambda>nec_data.
       if data_cnt + 1 > 7
       then nec_data_loop buf ev is_msb is 0 (data_index + 1) nec_data
       else nec_data_loop buf ev is_msb is (data_cnt + 1) data_index nec_data);
     if ABS h NEC_LOGIC_HIGH_US < logic0_high_err_val ev \<and>
        ABS l NEC_LOGIC0_LOW_US < logic0_low_err_val ev
     then do {
       b \<leftarrow> rd nec_data data_index;
       nec_data \<leftarrow> wr nec_data data_index (b AND NOT (push_bit pos 1));
       next nec_data }
     else if ABS h NEC_LOGIC_HIGH_US < logic1_high_err_val ev \<and>
        ABS l NEC_LOGIC1_LOW_US < logic1_low_err_val ev
     then do {
       b \<leftarrow> rd nec_data data_index;
       nec_data \<leftarrow> wr nec_data data_index (b OR push_bit pos 1);
       next nec_data }
     else Some (Inl i) }"

function nec_repeat_loop :: "u32 list \<Rightarrow> NEC_ERR_VAL_T \<Rightarrow> nat \<Rightarrow> nat \<Rightarrow> u16 \<Rightarrow> (nat \<times> u16) option" where
  "nec_repeat_loop buf ev len i cnt =
     (if i + 3 < len then do {
        h \<leftarrow> rd buf (i + 2);
        if ABS h NEC_REPEAT_HIGH_US < repeat_high_err_val ev then do {
          l \<leftarrow> rd buf (i + 3);
          if ABS l NEC_REPEAT_LOW_US < repeat_low_err_val ev
          then nec_repeat_loop buf ev len (i + 4) (cnt + 1)
          else Some (i, cnt) }
        else Some (i, cnt) }
      else Some (i, cnt))"
  by pat_completeness auto
termination
  by (relation "measure (\<lambda>(buf, ev, len, i, cnt). len - i)") auto

declare nec_repeat_loop.simps [simp del]

definition nec_join :: "u8 \<Rightarrow> u8 \<Rightarrow> u16" where
  "nec_join hi lo = push_bit 8 (ucast hi) OR ucast lo"

definition tdl_ir_nec_parser_single ::
  "u32 list option \<Rightarrow> nat \<Rightarrow> IR_DATA_NEC_T option \<Rightarrow> NEC_ERR_VAL_T option \<Rightarrow> bool
     \<Rightarrow> (nat \<times> IR_DATA_NEC_T option) option" where
  "tdl_ir_nec_parser_single buf len nec_code nec_err_val is_msb =
     (case (buf, nec_code) of
        (Some buf, Some _) \<Rightarrow>
          if len < NEC_TIMECODE_LEN_MIN then Some (0, nec_code)
          else do {
            ev \<leftarrow> nec_err_val;
            let zero = \<lparr>nec_addr = 0, nec_cmd = 0, nec_repeat_cnt = 0\<rparr>;
            h \<leftarrow> rd buf 0;
            bad_high \<leftarrow> Some (ABS h NEC_LEADER_HIGH_US > leader_high_err_val ev);
            bad \<leftarrow> (if bad_high then Some True
                     else do { l \<leftarrow> rd buf 1; Some (ABS l NEC_LEADER_LOW_US > leader_low_err_val ev) });
            if bad then Some (2, Some zero)
            else do {
              r \<leftarrow> nec_data_loop buf ev is_msb
                     (map (\<lambda>k. NEC_CODE_DATA_OFFSET + 2 * k) [0..<NEC_CODE_DATA_LEN div 2])
                     0 0 [0, 0, 0, 0];
              case r of
                Inl i \<Rightarrow> Some (cut16 i, Some zero)
              | Inr bs \<Rightarrow> do {
                  (i, cnt) \<leftarrow> nec_repeat_loop buf ev len (NEC_CODE_DATA_OFFSET + NEC_CODE_DATA_LEN) 0;
                  Some (cut16 i,
                    Some \<lparr>nec_addr = nec_join (bs ! 0) (bs ! 1), nec_cmd = nec_join (bs ! 2) (bs ! 3),
                          nec_repeat_cnt = cnt\<rparr>) } } }
      | _ \<Rightarrow> Some (0, nec_code))"

section \<open>What a frame looks like\<close>

text \<open>The reference frame: leader, four bytes, stop pulse and pause, then the repeat codes.\<close>

definition nec_byte_pulses :: "bool \<Rightarrow> u8 \<Rightarrow> u32 list" where
  "nec_byte_pulses is_msb b =
     concat (map (\<lambda>j. [NEC_LOGIC_HIGH_US,
       if nec_bit_set is_msb b j then NEC_LOGIC1_LOW_US else NEC_LOGIC0_LOW_US]) [0..<8])"

definition nec_head_pulses :: "bool \<Rightarrow> IR_DATA_NEC_T \<Rightarrow> u32 list" where
  "nec_head_pulses is_msb d =
     [NEC_LEADER_HIGH_US, NEC_LEADER_LOW_US] @ concat (map (nec_byte_pulses is_msb) (nec_bytes d)) @
     [NEC_END_HIGH_US]"

definition nec_repeat_pulses :: "u32 list" where
  "nec_repeat_pulses = [NEC_REPEAT_HIGH_US, NEC_REPEAT_LOW_US, NEC_END_HIGH_US, 98190]"

definition nec_frame :: "bool \<Rightarrow> IR_DATA_NEC_T \<Rightarrow> u32 list" where
  "nec_frame is_msb d =
     nec_head_pulses is_msb d @ [NEC_CODE_CYCLE - sum_list (nec_head_pulses is_msb d)] @
     concat (replicate (unat (nec_repeat_cnt d)) nec_repeat_pulses)"

lemma length_nec_byte_pulses [simp]: "length (nec_byte_pulses m b) = 16"
  by (simp add: nec_byte_pulses_def length_concat comp_def map_replicate_const sum_list_replicate)

lemma length_nec_bytes [simp]: "length (nec_bytes d) = 4"
  by (simp add: nec_bytes_def)

lemma length_nec_head_pulses [simp]: "length (nec_head_pulses m d) = 67"
  by (simp add: nec_head_pulses_def nec_bytes_def)

lemma length_nec_repeats [simp]: "length (concat (replicate n nec_repeat_pulses)) = 4 * n"
  by (induction n) (auto simp: nec_repeat_pulses_def)

lemma length_nec_frame [simp]: "length (nec_frame m d) = 68 + 4 * unat (nec_repeat_cnt d)"
  by (simp add: nec_frame_def)

subsection \<open>The builder writes the reference frame\<close>

lemma nec_build_header_blit:
  "2 \<le> length buf \<Longrightarrow> nec_build_header buf = Some (blit buf 0 [9000, 4500])"
  by (cases buf; cases "tl buf") (auto simp: nec_build_header_def wr_def blit_def)

lemma nec_build_data_blit:
  assumes "66 \<le> length buf" and bs: "length bs = 4"
  shows "nec_build_data m bs buf = Some (blit buf 2 (concat (map (nec_byte_pulses m) bs)))"
proof -
  let ?cell = "\<lambda>i j. if nec_bit_set m (bs ! i) j then NEC_LOGIC1_LOW_US else NEC_LOGIC0_LOW_US"
  let ?inner = "\<lambda>i j buf. do {
          buf \<leftarrow> wr buf ((i * 8 + j + 1) * 2) NEC_LOGIC_HIGH_US;
          b \<leftarrow> rd bs i;
          wr buf ((i * 8 + j + 1) * 2 + 1)
            (if nec_bit_set m b j then NEC_LOGIC1_LOW_US else NEC_LOGIC0_LOW_US) }"
  have byte: "foldM (?inner i) [0..<8] d = Some (blit d (2 + 16 * i) (nec_byte_pulses m (bs ! i)))"
    if i: "i < 4" and d: "length d = length buf" for i d
    unfolding nec_byte_pulses_def
  proof (rule foldM_blocks)
    fix k and d :: "u32 list" assume k: "k < (8::nat)" and l: "length d = length buf"
    have "Suc ((i * 8 + k + 1) * 2) < length d" using i k l assms by simp
    then show "?inner i k d = Some (blit d (2 + 16 * i + 2 * k) [560, ?cell i k])"
      using blit_two [of "(i * 8 + k + 1) * 2" d] i bs
      by (simp add: mem_simps algebra_simps)
  qed (use i assms d in auto)
  have "foldM (\<lambda>i. foldM (?inner i) [0..<8]) [0..<4] buf
      = Some (blit buf 2 (concat (map (\<lambda>i. nec_byte_pulses m (bs ! i)) [0..<4])))"
    by (rule foldM_blocks [where m = 16, OF byte]) (use assms in auto)
  moreover have "map (\<lambda>i. nec_byte_pulses m (bs ! i)) [0..<4] = map (nec_byte_pulses m) bs"
    using bs by (intro nth_equalityI) auto
  ultimately show ?thesis by (simp add: nec_build_data_def)
qed

lemma nec_end_loop:
  fixes buf :: "u32 list"
  assumes "p < length buf" and "k \<le> p"
  shows "foldM (\<lambda>i buf. do { g \<leftarrow> rd buf p; v \<leftarrow> rd buf i; wr buf p (g - v) }) [0..<k] buf
    = Some (buf[p := buf ! p - sum_list (take k buf)])"
  using assms(2)
proof (induction k)
  case 0
  then show ?case by simp
next
  case (Suc k)
  with assms show ?case
    by (simp add: foldM_snoc mem_simps take_Suc_conv_app_nth algebra_simps)
qed

lemma nec_build_end_blit:
  assumes "length buf = n" and "68 \<le> n"
  shows "nec_build_end buf = Some (blit buf 66 [560, 110000 - sum_list (take 66 buf) - 560])"
proof -
  let ?b = "(buf[66 := 560])[67 := 110000] :: u32 list"
  have "nec_build_end buf
      = foldM (\<lambda>i buf. do { g \<leftarrow> rd buf 67; v \<leftarrow> rd buf i; wr buf 67 (g - v) }) [0..<67] ?b"
    using assms by (simp add: nec_build_end_def mem_simps del: upt_Suc)
  also have "\<dots> = Some (?b[67 := ?b ! 67 - sum_list (take 67 ?b)])"
    by (rule nec_end_loop) (use assms in auto)
  also have "take 67 ?b = take 66 buf @ [560]"
    using assms take_Suc_conv_app_nth [of 66 ?b] by simp
  also have "?b[67 := ?b ! 67 - sum_list (take 66 buf @ [560])]
      = blit buf 66 [560, 110000 - sum_list (take 66 buf) - 560]"
    using assms blit_two [of 66 buf 560 "110000 - sum_list (take 66 buf) - 560", symmetric]
    by (simp add: algebra_simps)
  finally show ?thesis .
qed

lemma nec_repeat_step:
  assumes "offset * 2 + 4 \<le> length buf" and "unat i < unat cnt"
  shows "nec_build_repeat cnt i offset buf
    = nec_build_repeat cnt (i + 1) (cut16 (offset + 2)) (blit buf (offset * 2) nec_repeat_pulses)"
proof -
  have "((buf[offset * 2 := 9000, offset * 2 + 1 := 2250])[offset * 2 + 2 := 560, offset * 2 + 3 := 98190])
      = blit (blit buf (offset * 2) [9000, 2250]) (offset * 2 + 2) [560, 98190]"
    using assms blit_two [of "offset * 2" buf]
      blit_two [of "offset * 2 + 2" "blit buf (offset * 2) [9000, 2250]"]
    by (simp add: numeral_eq_Suc)
  also have "\<dots> = blit buf (offset * 2) nec_repeat_pulses"
    using assms blit_blit_adjacent [of "offset * 2" "[9000, 2250]" buf "offset * 2 + 2" "[560, 98190]"]
    by (simp add: nec_repeat_pulses_def)
  finally show ?thesis
    using assms by (subst nec_build_repeat.simps) (simp add: mem_simps)
qed

lemma nec_build_repeat_blit:
  assumes "unat cnt \<le> 255" and "length buf = 68 + 4 * unat cnt" and "k \<le> unat cnt"
  shows "nec_build_repeat cnt (of_nat k) (34 + 2 * k) buf
    = Some (blit buf (68 + 4 * k) (concat (replicate (unat cnt - k) nec_repeat_pulses)))"
  using assms(2,3)
proof (induction "unat cnt - k" arbitrary: k buf)
  case 0
  moreover from this assms(1) have "unat (of_nat k :: u8) = k" by (simp add: unat_of_nat)
  ultimately show ?case by (subst nec_build_repeat.simps) simp
next
  case (Suc r)
  let ?b = "blit buf ((34 + 2 * k) * 2) nec_repeat_pulses"
  have i: "unat (of_nat k :: u8) = k" using Suc.hyps(2) assms(1) by (simp add: unat_of_nat)
  have p: "length nec_repeat_pulses = 4" by (simp add: nec_repeat_pulses_def)
  have room: "(34 + 2 * k) * 2 + 4 \<le> length buf" using Suc.hyps(2) Suc.prems by simp
  have "nec_build_repeat cnt (of_nat k) (34 + 2 * k) buf
      = nec_build_repeat cnt (of_nat k + 1) (cut16 (34 + 2 * k + 2)) ?b"
    by (rule nec_repeat_step) (use room i Suc.hyps(2) in auto)
  also have "\<dots> = nec_build_repeat cnt (of_nat (Suc k)) (34 + 2 * Suc k) ?b"
    using Suc.hyps(2) assms(1) by (simp add: add.commute)
  also have "\<dots> = Some (blit ?b (68 + 4 * Suc k)
      (concat (replicate (unat cnt - Suc k) nec_repeat_pulses)))"
    by (rule Suc.hyps(1)) (use Suc.hyps(2) Suc.prems room p in auto)
  also have "\<dots> = Some (blit buf (68 + 4 * k)
      (nec_repeat_pulses @ concat (replicate (unat cnt - Suc k) nec_repeat_pulses)))"
    using room p by (subst blit_blit_adjacent) (auto simp: algebra_simps)
  also have "nec_repeat_pulses @ concat (replicate (unat cnt - Suc k) nec_repeat_pulses)
      = concat (replicate (unat cnt - k) nec_repeat_pulses)"
    using Suc.hyps(2) by (metis concat.simps(2) diff_Suc replicate_Suc Suc_diff_Suc zero_less_Suc zero_less_diff)
  finally show ?case .
qed

lemma tdl_ir_nec_build_eq:
  assumes "unat (nec_repeat_cnt d) \<le> 255"
  shows "tdl_ir_nec_build True m d
    = Some (OPRT_OK, Some \<lparr>tc_len = 68 + 4 * unat (nec_repeat_cnt d), tc_data = nec_frame m d\<rparr>)"
proof -
  let ?n = "68 + 4 * unat (nec_repeat_cnt d)"
  define hd' where "hd' = [9000, 4500] @ concat (map (nec_byte_pulses m) (nec_bytes d))"
  define tl' where "tl' = [560, 110000 - sum_list hd' - 560]"
  define rep where "rep = concat (replicate (unat (nec_repeat_cnt d)) nec_repeat_pulses)"
  define b0 where "b0 = (replicate ?n 0 :: u32 list)"
  have lh: "length hd' = 66" "length tl' = 2" "length rep = 4 * unat (nec_repeat_cnt d)"
    by (simp_all add: hd'_def tl'_def rep_def nec_bytes_def)
  have l0: "length b0 = ?n" by (simp add: b0_def)
  have 1: "nec_build_header b0 = Some (blit b0 0 [9000, 4500])"
    by (rule nec_build_header_blit) (simp add: l0)
  have 2: "nec_build_data m (nec_bytes d) (blit b0 0 [9000, 4500]) = Some (blit b0 0 hd')"
    using l0 by (simp add: nec_build_data_blit blit_blit_adjacent hd'_def)
  have 3: "nec_build_end (blit b0 0 hd') = Some (blit b0 0 (hd' @ tl'))"
    using l0 lh by (simp add: nec_build_end_blit blit_blit_adjacent tl'_def blit_def)
  have "nec_build_repeat (nec_repeat_cnt d) 0 34 (blit b0 0 (hd' @ tl'))
      = Some (blit (blit b0 0 (hd' @ tl')) 68 rep)"
    using nec_build_repeat_blit [OF assms, of "blit b0 0 (hd' @ tl')" 0] l0 lh by (simp add: rep_def)
  moreover have "blit (blit b0 0 (hd' @ tl')) 68 rep = hd' @ tl' @ rep"
    using l0 lh by (simp add: blit_def)
  moreover have "hd' @ tl' @ rep = nec_frame m d"
    by (simp add: nec_frame_def nec_head_pulses_def hd'_def tl'_def rep_def algebra_simps)
  moreover have "cut16 (2 + 2 * 8 * 4 + 2 + 4 * unat (nec_repeat_cnt d)) = ?n"
    using assms by simp
  ultimately show ?thesis
    unfolding tdl_ir_nec_build_def Let_def by (simp add: 1 2 3 flip: b0_def)
qed

text \<open>With more than 255 repeats the 8-bit counter never reaches the bound.\<close>

lemma nec_build_repeat_None:
  assumes "255 < unat cnt" and "length buf < 65536" and "offset < 65534"
  shows "nec_build_repeat cnt i offset buf = None"
  using assms(2,3)
proof (induction "length buf - offset * 2" arbitrary: i offset buf rule: less_induct)
  case less
  have i: "unat i < unat cnt" using assms(1) unat_u8_less [of i] by linarith
  show ?case
  proof (cases "offset * 2 + 4 \<le> length buf")
    case True
    have p: "length nec_repeat_pulses = 4" by (simp add: nec_repeat_pulses_def)
    have "nec_build_repeat cnt (i + 1) (cut16 (offset + 2)) (blit buf (offset * 2) nec_repeat_pulses) = None"
      by (rule less.hyps) (use True less.prems p in auto)
    with nec_repeat_step [OF True i] show ?thesis by simp
  next
    case False
    with i show ?thesis
      by (subst nec_build_repeat.simps) (auto simp: wr_def)
  qed
qed

lemma tdl_ir_nec_build_None:
  assumes "255 < unat (nec_repeat_cnt d)"
  shows "tdl_ir_nec_build True m d = None"
proof -
  let ?len = "cut16 (2 + 2 * 8 * 4 + 2 + 4 * unat (nec_repeat_cnt d))"
  have "nec_build_repeat (nec_repeat_cnt d) 0 34 buf = None" if "length buf = ?len" for buf
    by (rule nec_build_repeat_None) (use assms that in auto)
  moreover have "length buf = ?len"
    if h: "nec_build_header (replicate ?len 0) = Some b1" and dt: "nec_build_data m (nec_bytes d) b1 = Some b2"
      and e: "nec_build_end b2 = Some buf" for b1 b2 buf
  proof -
    have "length b1 = ?len"
      using h by (auto simp: nec_build_header_def bind_eq_Some_conv dest!: wr_length)
    moreover have "length b2 = length b1"
      using dt unfolding nec_build_data_def Let_def
      by (elim foldM_length) (auto simp: bind_eq_Some_conv dest!: wr_length)
    moreover obtain b3 where "length b3 = length b2" and loop:
      "foldM (\<lambda>i buf. do { g \<leftarrow> rd buf 67; v \<leftarrow> rd buf i; wr buf 67 (g - v) }) [0..<67] b3 = Some buf"
      using e by (auto simp: nec_build_end_def bind_eq_Some_conv simp del: upt_Suc dest!: wr_length)
    moreover have "length buf = length b3"
      using loop by (rule foldM_length) (auto simp: bind_eq_Some_conv dest!: wr_length)
    ultimately show ?thesis by simp
  qed
  ultimately show ?thesis
    by (auto simp: tdl_ir_nec_build_def Let_def split: bind_splits)
qed

subsection \<open>A frame and each repeat code last one code cycle\<close>

lemma sum_pulse_pairs:
  "(\<And>j. unat (f j) \<le> 1690) \<Longrightarrow>
    sum_list (map unat (concat (map (\<lambda>j. [560 :: u32, f j]) js))) \<le> 2250 * length js"
  by (induction js) (simp_all add: add_mono)

lemma sum_nec_byte_pulses:
  "sum_list (map unat (nec_byte_pulses m b)) \<le> 18000"
  using sum_pulse_pairs [of "\<lambda>j. if nec_bit_set m b j then 1690 else 560" "[0..<8]"]
  by (simp add: nec_byte_pulses_def)

lemma unat_sum_list:
  "sum_list (map unat (ws :: u32 list)) < 4294967296 \<Longrightarrow> unat (sum_list ws) = sum_list (map unat ws)"
  by (induction ws) (simp_all add: unat_word_ariths)

lemma sum_nec_head_pulses:
  "sum_list (map unat (nec_head_pulses m d)) \<le> 86060"
  using sum_nec_byte_pulses [of m "nec_bytes d ! 0"] sum_nec_byte_pulses [of m "nec_bytes d ! 1"]
    sum_nec_byte_pulses [of m "nec_bytes d ! 2"] sum_nec_byte_pulses [of m "nec_bytes d ! 3"]
  by (simp add: nec_head_pulses_def nec_bytes_def)

lemma nec_frame_duration:
  "sum_list (map unat (nec_frame m d)) = 110000 * (unat (nec_repeat_cnt d) + 1)"
proof -
  let ?h = "nec_head_pulses m d"
  have h: "unat (sum_list ?h) = sum_list (map unat ?h)"
    using sum_nec_head_pulses [of m d] by (intro unat_sum_list) simp
  then have "sum_list ?h \<le> 110000"
    using sum_nec_head_pulses [of m d] by (simp add: word_le_nat_alt)
  with h have gap: "unat (110000 - sum_list ?h) = 110000 - sum_list (map unat ?h)"
    by (simp add: unat_sub)
  have "sum_list (map unat (concat (replicate n nec_repeat_pulses))) = 110000 * n" for n
    by (induction n) (auto simp: nec_repeat_pulses_def)
  with gap sum_nec_head_pulses [of m d] show ?thesis
    by (simp add: nec_frame_def)
qed

text \<open>Every pulse of a frame is long enough to be told apart and short enough for a timer.\<close>

lemma nec_head_pulses_range: "p \<in> set (nec_head_pulses m d) \<Longrightarrow> p \<in> {9000, 4500, 560, 1690}"
  by (auto simp: nec_head_pulses_def nec_bytes_def nec_byte_pulses_def split: if_splits)

lemma nec_gap_range:
  "23940 \<le> unat (110000 - sum_list (nec_head_pulses m d))" "unat (110000 - sum_list (nec_head_pulses m d)) \<le> 110000"
proof -
  let ?h = "nec_head_pulses m d"
  have h: "unat (sum_list ?h) = sum_list (map unat ?h)"
    using sum_nec_head_pulses [of m d] by (intro unat_sum_list) simp
  then have "sum_list ?h \<le> 110000"
    using sum_nec_head_pulses [of m d] by (simp add: word_le_nat_alt)
  then have "unat (110000 - sum_list ?h) = 110000 - sum_list (map unat ?h)" using h by (simp add: unat_sub)
  then show "23940 \<le> unat (110000 - sum_list ?h)" "unat (110000 - sum_list ?h) \<le> 110000"
    using sum_nec_head_pulses [of m d] by simp_all
qed

lemma nec_repeats_range: "p \<in> set (concat (replicate n nec_repeat_pulses)) \<Longrightarrow> p \<in> {9000, 2250, 560, 98190}"
  by (induction n) (auto simp: nec_repeat_pulses_def)

lemma nec_frame_range:
  assumes "p \<in> set (nec_frame m d)"
  shows "165 \<le> unat p \<and> unat p \<le> 1000055"
proof -
  let ?r = "concat (replicate (unat (nec_repeat_cnt d)) nec_repeat_pulses)"
  from assms consider "p \<in> set (nec_head_pulses m d)" | "p = NEC_CODE_CYCLE - sum_list (nec_head_pulses m d)"
    | "p \<in> set ?r"
    unfolding nec_frame_def set_append by auto
  then show ?thesis
  proof cases
    case 1
    from nec_head_pulses_range [OF this] show ?thesis by auto
  next
    case 2
    then show ?thesis using nec_gap_range [of m d] by simp
  next
    case 3
    from nec_repeats_range [OF this] show ?thesis by auto
  qed
qed

section \<open>What the decoder accepts\<close>

lemma unat_ABS:
  "unat (ABS a b) = (if unat b < unat a then unat a - unat b else unat b - unat a)"
  by (auto simp: ABS_def word_less_nat_alt unat_sub word_le_nat_alt)

text \<open>Bit \<open>j\<close> of the transmission is bit \<^term>\<open>nec_pos m j\<close> of the byte.\<close>

definition nec_pos :: "bool \<Rightarrow> nat \<Rightarrow> nat" where
  "nec_pos m j = (if m then 7 - j else j)"

lemma nec_pos_less [simp]: "j < 8 \<Longrightarrow> nec_pos m j < 8"
  by (auto simp: nec_pos_def)

lemma nec_pos_involution [simp]: "j < 8 \<Longrightarrow> nec_pos m (nec_pos m j) = j"
  by (simp add: nec_pos_def)

lemma drop_bit_128: "j < 8 \<Longrightarrow> drop_bit j (128 :: u8) = push_bit (7 - j) 1"
proof -
  assume j: "j < 8"
  have "drop_bit j ((2 :: u8) ^ 7) = push_bit (7 - j) 1"
    using j by (intro bit_word_eqI) (auto simp: bit_simps simp del: power_numeral)
  then show "drop_bit j (128 :: u8) = push_bit (7 - j) 1" by simp
qed

lemma nec_bit_set_bit: "j < 8 \<Longrightarrow> nec_bit_set m b j = bit b (nec_pos m j)"
  by (auto simp: nec_bit_set_def nec_pos_def drop_bit_128)

definition nec_pulse_ok :: "NEC_ERR_VAL_T \<Rightarrow> bool \<Rightarrow> u32 \<Rightarrow> u32 \<Rightarrow> bool" where
  "nec_pulse_ok ev b h l =
     (if b then ABS h NEC_LOGIC_HIGH_US < logic1_high_err_val ev \<and> ABS l NEC_LOGIC1_LOW_US < logic1_low_err_val ev
      else ABS h NEC_LOGIC_HIGH_US < logic0_high_err_val ev \<and> ABS l NEC_LOGIC0_LOW_US < logic0_low_err_val ev)"

text \<open>The two low-time windows do not overlap.\<close>

definition nec_windows_disjoint :: "NEC_ERR_VAL_T \<Rightarrow> bool" where
  "nec_windows_disjoint ev \<longleftrightarrow> unat (logic0_low_err_val ev) + unat (logic1_low_err_val ev) \<le> 1130"

definition nec_received :: "NEC_ERR_VAL_T \<Rightarrow> bool \<Rightarrow> IR_DATA_NEC_T \<Rightarrow> u32 list \<Rightarrow> bool" where
  "nec_received ev m d buf \<longleftrightarrow>
     68 + 4 * unat (nec_repeat_cnt d) \<le> length buf \<and>
     ABS (buf ! 0) NEC_LEADER_HIGH_US \<le> leader_high_err_val ev \<and>
     ABS (buf ! 1) NEC_LEADER_LOW_US \<le> leader_low_err_val ev \<and>
     (\<forall>i < 4. \<forall>j < 8. nec_pulse_ok ev (bit (nec_bytes d ! i) (nec_pos m j))
        (buf ! (2 + 2 * (8 * i + j))) (buf ! (2 + 2 * (8 * i + j) + 1))) \<and>
     (\<forall>k < unat (nec_repeat_cnt d).
        ABS (buf ! (68 + 4 * k)) NEC_REPEAT_HIGH_US < repeat_high_err_val ev \<and>
        ABS (buf ! (69 + 4 * k)) NEC_REPEAT_LOW_US < repeat_low_err_val ev)"

lemma nec_one_is_not_zero:
  "nec_windows_disjoint ev \<Longrightarrow> ABS l NEC_LOGIC1_LOW_US < logic1_low_err_val ev \<Longrightarrow>
    \<not> ABS l NEC_LOGIC0_LOW_US < logic0_low_err_val ev"
  by (auto simp: nec_windows_disjoint_def word_less_nat_alt unat_ABS split: if_splits)

text \<open>No low time of a one lies in the window of a zero: certainly so where the windows are disjoint.\<close>

definition nec_unambiguous :: "NEC_ERR_VAL_T \<Rightarrow> bool \<Rightarrow> IR_DATA_NEC_T \<Rightarrow> u32 list \<Rightarrow> bool" where
  "nec_unambiguous ev m d buf \<longleftrightarrow> (\<forall>i < 4. \<forall>j < 8. bit (nec_bytes d ! i) (nec_pos m j) \<longrightarrow>
     \<not> ABS (buf ! (2 + 2 * (8 * i + j) + 1)) NEC_LOGIC0_LOW_US < logic0_low_err_val ev)"

lemma disjoint_unambiguous: "nec_windows_disjoint ev \<Longrightarrow> nec_received ev m d buf \<Longrightarrow> nec_unambiguous ev m d buf"
  unfolding nec_unambiguous_def nec_received_def nec_pulse_ok_def by (metis nec_one_is_not_zero)

subsection \<open>The data loop assembles the bytes bit by bit\<close>

lemma nec_data_loop_step:
  assumes "b \<Longrightarrow> \<not> ABS (buf ! (i + 1)) NEC_LOGIC0_LOW_US < logic0_low_err_val ev" and "nec_pulse_ok ev b (buf ! i) (buf ! (i + 1))"
    and "i + 1 < length buf" and "ix < length bs" and "cnt < 8"
  shows "nec_data_loop buf ev m (i # is) cnt ix bs =
    nec_data_loop buf ev m is (if cnt = 7 then 0 else cnt + 1) (if cnt = 7 then ix + 1 else ix)
      (bs[ix := put_bit (nec_pos m cnt) b (bs ! ix)])"
  using assms by (auto simp: nec_pulse_ok_def mem_simps put_bit_def nec_pos_def Let_def not_less_eq)

lemma nec_data_loop_byte:
  assumes clear: "\<forall>j < 8. bit b (nec_pos m j) \<longrightarrow> \<not> ABS (buf ! (2 + 2 * (8 * i + j) + 1)) NEC_LOGIC0_LOW_US < logic0_low_err_val ev"
    and "length bs = 4" and "i < 4" and "66 \<le> length buf"
    and ok: "\<forall>j < 8. nec_pulse_ok ev (bit b (nec_pos m j)) (buf ! (2 + 2 * (8 * i + j))) (buf ! (2 + 2 * (8 * i + j) + 1))"
  shows "nec_data_loop buf ev m (map (\<lambda>j. 2 + 2 * (8 * i + j)) [0..<8] @ is) 0 i bs
    = nec_data_loop buf ev m is 0 (i + 1) (bs[i := b])"
proof -
  let ?ix = "\<lambda>j. 2 + 2 * (8 * i + j)"
  have step: "nec_data_loop buf ev m (?ix k # js) k i bs'
      = nec_data_loop buf ev m js (if k = 7 then 0 else k + 1) (if k = 7 then i + 1 else i)
          (bs'[i := put_bit (nec_pos m k) (bit b (nec_pos m k)) (bs' ! i)])"
    if "k < 8" "length bs' = 4" for k js bs'
    by (rule nec_data_loop_step) (use assms that in \<open>auto simp: add.commute\<close>)
  have run: "nec_data_loop buf ev m (map ?ix [k..<8] @ is) k i bs'
      = nec_data_loop buf ev m is 0 (i + 1)
          (bs'[i := fold (\<lambda>p. put_bit p (bit b p)) (map (nec_pos m) [k..<8]) (bs' ! i)])"
    if "k < 8" "length bs' = 4" for k bs'
    using that
  proof (induction "7 - k" arbitrary: k bs')
    case 0
    then have "k = 7" by simp
    with 0 step [of 7 bs'] show ?case by (simp add: upt_conv_Cons)
  next
    case (Suc r)
    then have k: "k < 7" by simp
    let ?bs = "bs'[i := put_bit (nec_pos m k) (bit b (nec_pos m k)) (bs' ! i)]"
    have u: "[k..<8] = k # [Suc k..<8]" using k by (simp add: upt_conv_Cons)
    have "nec_data_loop buf ev m (?ix k # map ?ix [Suc k..<8] @ is) k i bs'
        = nec_data_loop buf ev m (map ?ix [Suc k..<8] @ is) (Suc k) i ?bs"
      using k Suc.prems step [of k bs' "map ?ix [Suc k..<8] @ is"] by simp
    also have "\<dots> = nec_data_loop buf ev m is 0 (i + 1)
          (?bs[i := fold (\<lambda>p. put_bit p (bit b p)) (map (nec_pos m) [Suc k..<8]) (?bs ! i)])"
      by (rule Suc.hyps(1)) (use Suc.hyps(2) Suc.prems k in auto)
    finally show ?case using Suc.prems(2) assms(3) by (simp add: u)
  qed
  have "set (map (nec_pos m) [0..<8]) = {..<LENGTH(8)}"
    by (auto simp: image_iff) (metis atLeastLessThan_iff nec_pos_involution nec_pos_less zero_le)
  from fold_put_bit_all [OF this, of b] run [of 0 bs] assms show ?thesis by simp
qed

lemma nec_data_indices:
  "map (\<lambda>k. NEC_CODE_DATA_OFFSET + 2 * k) [0..<NEC_CODE_DATA_LEN div 2] =
     map (\<lambda>j. 2 + 2 * (8 * 0 + j)) [0..<8] @ map (\<lambda>j. 2 + 2 * (8 * (0 + 1) + j)) [0..<8] @
     map (\<lambda>j. 2 + 2 * (8 * (0 + 1 + 1) + j)) [0..<8] @
     map (\<lambda>j. 2 + 2 * (8 * (0 + 1 + 1 + 1) + j)) [0..<8] @ []"
  by code_simp

lemma nec_data_loop_received:
  assumes clear: "nec_unambiguous ev m d buf" and rcv: "nec_received ev m d buf"
  shows "nec_data_loop buf ev m (map (\<lambda>k. NEC_CODE_DATA_OFFSET + 2 * k) [0..<NEC_CODE_DATA_LEN div 2])
    0 0 [0, 0, 0, 0] = Some (Inr (nec_bytes d))"
proof -
  have byte: "nec_data_loop buf ev m (map (\<lambda>j. 2 + 2 * (8 * i + j)) [0..<8] @ is) 0 i bs
      = nec_data_loop buf ev m is 0 (i + 1) (bs[i := nec_bytes d ! i])"
    if "i < 4" "length bs = 4" for i "is" bs
    by (rule nec_data_loop_byte) (use assms that in \<open>auto simp: nec_received_def nec_unambiguous_def\<close>)
  have "[nec_bytes d ! 0, nec_bytes d ! Suc 0, nec_bytes d ! Suc (Suc 0), nec_bytes d ! Suc (Suc (Suc 0))]
      = nec_bytes d"
    by (simp add: nec_bytes_def)
  then show ?thesis
    unfolding nec_data_indices by (intro byte [THEN trans]) simp_all
qed

lemma nec_repeat_loop_received:
  assumes "k \<le> n" and "len = 68 + 4 * n" and "len \<le> length buf"
    and "\<forall>k < n. ABS (buf ! (68 + 4 * k)) NEC_REPEAT_HIGH_US < repeat_high_err_val ev \<and>
        ABS (buf ! (69 + 4 * k)) NEC_REPEAT_LOW_US < repeat_low_err_val ev"
  shows "nec_repeat_loop buf ev len (66 + 4 * k) (of_nat k) = Some (66 + 4 * n, of_nat n)"
  using assms(1)
proof (induction "n - k" arbitrary: k)
  case 0
  then show ?case using assms(2) by (subst nec_repeat_loop.simps) simp
next
  case (Suc r)
  then have k: "k < n" by simp
  have "nec_repeat_loop buf ev len (66 + 4 * k) (of_nat k)
      = nec_repeat_loop buf ev len (66 + 4 * Suc k) (of_nat (Suc k))"
    using assms k by (subst nec_repeat_loop.simps) (simp add: mem_simps add.commute)
  also have "\<dots> = Some (66 + 4 * n, of_nat n)"
    by (rule Suc.hyps(1)) (use Suc.hyps(2) k in auto)
  finally show ?case .
qed

lemma nec_join_bytes: "nec_join (ucast (drop_bit 8 a AND 255)) (ucast (a AND 255)) = a"
proof (rule bit_word_eqI)
  fix n assume n: "n < LENGTH(16)"
  have m: "(255 :: u16) = mask 8" by (simp add: mask_eq_exp_minus_1)
  show "bit (nec_join (ucast (drop_bit 8 a AND 255)) (ucast (a AND 255))) n = bit a n"
    using n unfolding m by (cases "n < 8") (auto simp: nec_join_def bit_simps simp del: mask_numeral)
qed

lemma tdl_ir_nec_parser_single_unambiguous:
  assumes "nec_unambiguous ev m d buf" and rcv: "nec_received ev m d buf"
    and len: "len = 68 + 4 * unat (nec_repeat_cnt d)" and small: "len < 65536"
  shows "tdl_ir_nec_parser_single (Some buf) len (Some c) (Some ev) m
    = Some (66 + 4 * unat (nec_repeat_cnt d), Some d)"
proof -
  let ?n = "unat (nec_repeat_cnt d)"
  have 1: "\<not> leader_high_err_val ev < ABS (buf ! 0) 9000" "\<not> leader_low_err_val ev < ABS (buf ! 1) 4500"
    "1 < length buf" "0 < length buf"
    using rcv by (auto simp: nec_received_def not_less)
  have "nec_repeat_loop buf ev len (66 + 4 * 0) (of_nat 0) = Some (66 + 4 * ?n, of_nat ?n)"
    by (rule nec_repeat_loop_received) (use rcv len in \<open>auto simp: nec_received_def\<close>)
  moreover have "nec_join (nec_bytes d ! 0) (nec_bytes d ! 1) = nec_addr d"
    "nec_join (nec_bytes d ! 2) (nec_bytes d ! 3) = nec_cmd d"
    by (simp_all add: nec_bytes_def nec_join_bytes)
  ultimately show ?thesis
    using nec_data_loop_received [OF assms(1) rcv] 1 len small
    by (simp add: tdl_ir_nec_parser_single_def rd_Some)
qed

lemma tdl_ir_nec_parser_single_received:
  assumes "nec_windows_disjoint ev" and "nec_received ev m d buf"
    and "len = 68 + 4 * unat (nec_repeat_cnt d)" and "len < 65536"
  shows "tdl_ir_nec_parser_single (Some buf) len (Some c) (Some ev) m = Some (66 + 4 * unat (nec_repeat_cnt d), Some d)"
  by (rule tdl_ir_nec_parser_single_unambiguous [OF disjoint_unambiguous [OF assms(1,2)] assms(2-4)])

subsection \<open>The frame the builder writes is received\<close>

definition nec_tolerant :: "NEC_ERR_VAL_T \<Rightarrow> bool" where
  "nec_tolerant ev \<longleftrightarrow> 0 < logic0_high_err_val ev \<and> 0 < logic0_low_err_val ev \<and> 0 < logic1_high_err_val ev \<and>
     0 < logic1_low_err_val ev \<and> 0 < repeat_high_err_val ev \<and> 0 < repeat_low_err_val ev"

lemma nth_concat_blocks:
  assumes "\<And>x. x \<in> set xs \<Longrightarrow> length (g x) = m" and "i < length xs" and "j < m"
  shows "concat (map g xs) ! (m * i + j) = g (xs ! i) ! j"
  using assms
proof (induction xs arbitrary: i)
  case Nil
  then show ?case by simp
next
  case (Cons x xs)
  show ?case
  proof (cases i)
    case 0
    with Cons.prems show ?thesis by (simp add: nth_append)
  next
    case (Suc i')
    with Cons.prems have "concat (map g xs) ! (m * i' + j) = g (xs ! i') ! j"
      by (intro Cons.IH) auto
    with Suc Cons.prems show ?thesis by (simp add: nth_append)
  qed
qed

lemma nec_byte_pulses_nth:
  assumes "j < 8" and "e < 2"
  shows "nec_byte_pulses m b ! (2 * j + e)
    = [NEC_LOGIC_HIGH_US, if bit b (nec_pos m j) then NEC_LOGIC1_LOW_US else NEC_LOGIC0_LOW_US] ! e"
  unfolding nec_byte_pulses_def
  by (subst nth_concat_blocks) (use assms in \<open>auto simp: nec_bit_set_bit\<close>)

lemma nec_frame_data_nth:
  assumes "i < 4" and "j < 8" and "e < 2"
  shows "nec_frame m d ! (2 + 2 * (8 * i + j) + e)
    = [NEC_LOGIC_HIGH_US, if bit (nec_bytes d ! i) (nec_pos m j) then NEC_LOGIC1_LOW_US else NEC_LOGIC0_LOW_US] ! e"
proof -
  have p: "16 * i + (2 * j + e) < 64" using assms by simp
  have "nec_frame m d ! (2 + 2 * (8 * i + j) + e)
      = concat (map (nec_byte_pulses m) (nec_bytes d)) ! (16 * i + (2 * j + e))"
    using p by (simp add: nec_frame_def nec_head_pulses_def nth_append nec_bytes_def add.assoc)
  also have "\<dots> = nec_byte_pulses m (nec_bytes d ! i) ! (2 * j + e)"
    by (rule nth_concat_blocks) (use assms in auto)
  finally show ?thesis using assms by (simp add: nec_byte_pulses_nth)
qed

lemma nec_frame_repeat_nth:
  assumes "k < unat (nec_repeat_cnt d)" and "e < 4"
  shows "nec_frame m d ! (68 + 4 * k + e) = nec_repeat_pulses ! e"
proof -
  let ?n = "unat (nec_repeat_cnt d)"
  have "nec_frame m d ! (68 + 4 * k + e) = concat (map (\<lambda>_. nec_repeat_pulses) [0..<?n]) ! (4 * k + e)"
    by (simp add: nec_frame_def nth_append map_replicate_const)
  also have "\<dots> = nec_repeat_pulses ! e"
    by (subst nth_concat_blocks) (use assms in \<open>auto simp: nec_repeat_pulses_def\<close>)
  finally show ?thesis .
qed

lemma nec_frame_received:
  assumes "nec_tolerant ev"
  shows "nec_received ev m d (nec_frame m d @ rest)"
proof -
  have "nec_pulse_ok ev (bit (nec_bytes d ! i) (nec_pos m j))
      (nec_frame m d ! (2 + 2 * (8 * i + j))) (nec_frame m d ! (2 + 2 * (8 * i + j) + 1))"
    if "i < 4" "j < 8" for i j
    using that assms nec_frame_data_nth [of i j 0 m d] nec_frame_data_nth [of i j 1 m d]
    by (simp add: nec_pulse_ok_def nec_tolerant_def ABS_def del: One_nat_def)
  moreover have "nec_frame m d ! 0 = 9000" "nec_frame m d ! 1 = 4500"
    by (simp_all add: nec_frame_def nec_head_pulses_def)
  moreover have "nec_frame m d ! (68 + 4 * k) = 9000" "nec_frame m d ! (69 + 4 * k) = 2250"
    if "k < unat (nec_repeat_cnt d)" for k
    using that nec_frame_repeat_nth [of k d 0 m] nec_frame_repeat_nth [of k d 1 m]
    by (simp_all add: nec_repeat_pulses_def)
  ultimately show ?thesis
    using assms by (auto simp: nec_received_def nec_tolerant_def ABS_def nth_append)
qed


section \<open>Progress and memory safety of the decoder\<close>

lemma nec_data_loop_cases:
  assumes "i + 1 < length buf" and "ix < length bs" and "cnt < 8"
  obtains "nec_data_loop buf ev m (i # js) cnt ix bs = Some (Inl i)"
  | bs' where "length bs' = length bs" and "nec_data_loop buf ev m (i # js) cnt ix bs =
      nec_data_loop buf ev m js (if cnt = 7 then 0 else cnt + 1) (if cnt = 7 then ix + 1 else ix) bs'"
proof (cases "nec_data_loop buf ev m (i # js) cnt ix bs = Some (Inl i)")
  case False
  let ?p = "if m then 7 - cnt else cnt"
  let ?z = "bs[ix := bs ! ix AND NOT (push_bit ?p 1)]" and ?o = "bs[ix := bs ! ix OR push_bit ?p 1]"
  let ?go = "nec_data_loop buf ev m js (if cnt = 7 then 0 else cnt + 1) (if cnt = 7 then ix + 1 else ix)"
  from False assms have "nec_data_loop buf ev m (i # js) cnt ix bs = ?go ?z \<or>
      nec_data_loop buf ev m (i # js) cnt ix bs = ?go ?o"
    by (auto simp: mem_simps Let_def not_less_eq split: if_splits)
  with that(2) [of ?z] that(2) [of ?o] show ?thesis by auto
qed (use that in blast)

lemma nec_data_loop_safe:
  assumes "\<forall>i \<in> set is. i + 1 < length buf" and "length bs = 4" and "cnt < 8"
    and "8 * ix + cnt + length is \<le> 32"
  shows "(\<exists>i \<in> set is. nec_data_loop buf ev m is cnt ix bs = Some (Inl i)) \<or>
    (\<exists>bs'. nec_data_loop buf ev m is cnt ix bs = Some (Inr bs') \<and> length bs' = 4)"
  using assms
proof (induction "is" arbitrary: cnt ix bs)
  case Nil
  then show ?case by simp
next
  case (Cons i "is")
  then have "i + 1 < length buf" "ix < length bs" "cnt < 8" by auto
  then show ?case
  proof (cases rule: nec_data_loop_cases [where ev = ev and m = m and js = "is"])
    case 1
    then show ?thesis by (metis list.set_intros(1))
  next
    case (2 bs')
    let ?c = "if cnt = 7 then 0 else cnt + 1" and ?ix = "if cnt = 7 then ix + 1 else ix"
    have "(\<exists>i \<in> set is. nec_data_loop buf ev m is ?c ?ix bs' = Some (Inl i)) \<or>
      (\<exists>bs''. nec_data_loop buf ev m is ?c ?ix bs' = Some (Inr bs'') \<and> length bs'' = 4)"
      by (rule Cons.IH) (use 2(1) Cons.prems in auto)
    with 2(2) show ?thesis by (metis list.set_intros(2))
  qed
qed

lemma nec_repeat_loop_safe:
  assumes "len \<le> length buf" and "i \<le> len"
  shows "\<exists>j c. nec_repeat_loop buf ev len i cnt = Some (j, c) \<and> i \<le> j \<and> j \<le> len"
  using assms
proof (induction buf ev len i cnt rule: nec_repeat_loop.induct)
  case (1 buf ev len i cnt)
  show ?case
  proof (cases "i + 3 < len")
    case True
    with "1.IH" [OF True] "1.prems" show ?thesis
      by (subst nec_repeat_loop.simps) (force simp: mem_simps)
  next
    case False
    with "1.prems" show ?thesis by (subst nec_repeat_loop.simps) simp
  qed
qed

text \<open>
  On a buffer of at least \<open>len\<close> cells the decoder reads inside it, and once the length guard is
  passed it consumes at least two cells and at most \<open>len\<close>.
\<close>

lemma tdl_ir_nec_parser_single_progress:
  assumes "66 \<le> len" and "len \<le> length buf" and "len < 65536"
  shows "\<exists>r c'. tdl_ir_nec_parser_single (Some buf) len (Some c) (Some ev) m = Some (r, Some c') \<and>
    2 \<le> r \<and> r \<le> len"
proof -
  let ?is = "map (\<lambda>k. NEC_CODE_DATA_OFFSET + 2 * k) [0..<NEC_CODE_DATA_LEN div 2]"
  have "(\<exists>i \<in> set ?is. nec_data_loop buf ev m ?is 0 0 [0, 0, 0, 0] = Some (Inl i)) \<or>
    (\<exists>bs'. nec_data_loop buf ev m ?is 0 0 [0, 0, 0, 0] = Some (Inr bs') \<and> length bs' = 4)"
    by (rule nec_data_loop_safe) (use assms in auto)
  then consider i where "2 \<le> i" "i \<le> 64" "nec_data_loop buf ev m ?is 0 0 [0, 0, 0, 0] = Some (Inl i)"
    | bs where "nec_data_loop buf ev m ?is 0 0 [0, 0, 0, 0] = Some (Inr bs)"
    by fastforce
  moreover have r: "rd buf 0 = Some (buf ! 0)" "rd buf (Suc 0) = Some (buf ! Suc 0)"
    using assms by (auto simp: rd_def)
  ultimately show ?thesis
  proof cases
    case 1
    with assms show ?thesis
      by (auto simp: tdl_ir_nec_parser_single_def r Let_def)
  next
    case 2
    obtain j c where "nec_repeat_loop buf ev len 66 0 = Some (j, c)" "66 \<le> j" "j \<le> len"
      using nec_repeat_loop_safe [of len buf 66 ev 0] assms by auto
    with 2 assms show ?thesis
      by (auto simp: tdl_ir_nec_parser_single_def r Let_def)
  qed
qed

section \<open>The leader search\<close>

definition nec_leader_at :: "NEC_ERR_VAL_T \<Rightarrow> u32 list \<Rightarrow> nat \<Rightarrow> bool" where
  "nec_leader_at ev buf i \<longleftrightarrow> i + 1 < length buf \<and>
     ABS (buf ! i) NEC_LEADER_HIGH_US \<le> leader_high_err_val ev \<and>
     ABS (buf ! (i + 1)) NEC_LEADER_LOW_US \<le> leader_low_err_val ev"

lemma nec_head_loop_safe:
  assumes "\<forall>i \<in> set is. i + 1 < length buf"
  shows "nec_head_loop buf ev is = Some (List.find (nec_leader_at ev buf) is)"
  using assms by (induction "is") (auto simp: mem_simps nec_leader_at_def)

lemma nec_head_loop_append:
  "nec_head_loop buf ev (xs @ ys) =
     do { r \<leftarrow> nec_head_loop buf ev xs; case r of None \<Rightarrow> nec_head_loop buf ev ys | Some i \<Rightarrow> Some (Some i) }"
  by (induction xs) (auto split: bind_splits)

lemma tdl_nec_get_frame_head_eq:
  assumes "2 \<le> length buf"
  shows "tdl_nec_get_frame_head (Some buf) (length buf) (Some ev) =
    (case List.find (nec_leader_at ev buf) [0..<length buf - 1] of
       Some i \<Rightarrow> Some (OPRT_OK, Some i)
     | None \<Rightarrow> if ABS (last buf) NEC_LEADER_HIGH_US \<le> leader_high_err_val ev then None
               else Some (OPRT_COM_ERROR, None))"
proof -
  have u: "[0..<length buf] = [0..<length buf - 1] @ [length buf - 1]"
    using assms by (metis Suc_diff_1 le_trans less_eq_Suc_le one_le_numeral upt_Suc_append zero_le One_nat_def)
  have "nec_head_loop buf ev [0..<length buf - 1] = Some (List.find (nec_leader_at ev buf) [0..<length buf - 1])"
    by (rule nec_head_loop_safe) auto
  moreover have "buf \<noteq> []" using assms by auto
  ultimately show ?thesis
    using assms by (auto simp: tdl_nec_get_frame_head_def u nec_head_loop_append mem_simps last_conv_nth split: option.splits)
qed

section \<open>Properties of the NEC protocol\<close>

text \<open>Percentages from 1 to 50 keep the windows of the two logic levels apart and not empty.\<close>

definition nec_cfg_ok :: "IR_NEC_CFG_T \<Rightarrow> bool" where
  "nec_cfg_ok cfg \<longleftrightarrow> (\<forall>p \<in> {lead_err cfg, logics_err cfg, logic0_err cfg, logic1_err cfg, repeat_err cfg}. 1 \<le> p \<and> p \<le> 50)"

lemma unat_nec_err:
  assumes "unat nominal \<le> 9000" and "p \<le> 50"
  shows "unat (nec_err nominal p) = unat nominal * unat p div 100"
proof -
  have "unat p \<le> 50" using assms(2) by (simp add: word_le_nat_alt)
  then have "unat nominal * unat p \<le> 9000 * 50" using assms(1) by (intro mult_le_mono)
  then have "unat nominal * unat p div 100 < 4294967296" by (simp add: div_less_iff_less_mult)
  then show ?thesis by (simp add: nec_err_def unat_of_nat)
qed

lemma nec_err_pos:
  assumes "1 \<le> p" and "p \<le> 50" and "100 \<le> unat nominal" and "unat nominal \<le> 9000"
  shows "0 < nec_err nominal p"
proof -
  have "1 \<le> unat p" using assms(1) by (simp add: word_le_nat_alt)
  then have "100 * 1 \<le> unat nominal * unat p" using assms(3) by (intro mult_le_mono)
  then have "0 < unat (nec_err nominal p)" using assms by (simp add: unat_nec_err div_greater_zero_iff)
  then show ?thesis by (simp add: word_less_nat_alt)
qed

lemma nec_cfg_ok_windows:
  assumes "nec_cfg_ok cfg"
  shows "nec_tolerant (nec_err_val_of cfg)" and "nec_windows_disjoint (nec_err_val_of cfg)"
proof -
  have p: "1 \<le> lead_err cfg" "lead_err cfg \<le> 50" "1 \<le> logics_err cfg" "logics_err cfg \<le> 50"
    "1 \<le> logic0_err cfg" "logic0_err cfg \<le> 50" "1 \<le> logic1_err cfg" "logic1_err cfg \<le> 50"
    "1 \<le> repeat_err cfg" "repeat_err cfg \<le> 50"
    using assms by (simp_all add: nec_cfg_ok_def)
  then show "nec_tolerant (nec_err_val_of cfg)"
    by (simp add: nec_tolerant_def nec_err_val_of_def nec_err_pos)
  have "unat (logic0_err cfg) \<le> 50" "unat (logic1_err cfg) \<le> 50" using p by (simp_all add: word_le_nat_alt)
  then have "560 * unat (logic0_err cfg) div 100 \<le> 280" "1690 * unat (logic1_err cfg) div 100 \<le> 845"
    by (simp_all add: div_le_mono [of _ "560 * 50" 100, simplified] div_le_mono [of _ "1690 * 50" 100, simplified])
  with p show "nec_windows_disjoint (nec_err_val_of cfg)"
    by (simp add: nec_windows_disjoint_def nec_err_val_of_def unat_nec_err)
qed

text \<open>C1: A frame that was built for up to 255 repeats is decoded to the same address, command and
  repeat count, for both bit orders and for every configured tolerance from 1 to 50 percent.\<close>

theorem nec_build_then_parse:
  assumes "unat (nec_repeat_cnt d) \<le> 255" and "nec_cfg_ok cfg"
  shows "do { (r, tc) \<leftarrow> tdl_ir_nec_build True m d; tc \<leftarrow> tc;
      tdl_ir_nec_parser_single (Some (tc_data tc)) (tc_len tc) (Some c) (Some (nec_err_val_of cfg)) m }
    = Some (66 + 4 * unat (nec_repeat_cnt d), Some d)"
proof -
  have "nec_received (nec_err_val_of cfg) m d (nec_frame m d @ [])"
    by (rule nec_frame_received) (rule nec_cfg_ok_windows(1) [OF assms(2)])
  with tdl_ir_nec_parser_single_received [OF nec_cfg_ok_windows(2) [OF assms(2)], of m d "nec_frame m d"] assms(1)
  show ?thesis by (simp add: tdl_ir_nec_build_eq)
qed

definition nec_cfg_example :: IR_NEC_CFG_T where
  "nec_cfg_example = \<lparr>is_nec_msb = 0, lead_err = 30, logics_err = 30, logic0_err = 30, logic1_err = 30, repeat_err = 30\<rparr>"

definition nec_data_example :: IR_DATA_NEC_T where
  "nec_data_example = \<lparr>nec_addr = 0x00FF, nec_cmd = 0xA25D, nec_repeat_cnt = 2\<rparr>"

theorem nec_build_then_parse_witness:
  "do { (r, tc) \<leftarrow> tdl_ir_nec_build True False nec_data_example; tc \<leftarrow> tc;
      tdl_ir_nec_parser_single (Some (tc_data tc)) (tc_len tc) (Some nec_data_example)
        (Some (nec_err_val_of nec_cfg_example)) False }
    = Some (74, Some nec_data_example)"
  using nec_build_then_parse [of nec_data_example nec_cfg_example False nec_data_example]
  by (simp add: nec_cfg_ok_def nec_cfg_example_def nec_data_example_def)


text \<open>The tolerances of the example application, 45 percent for a zero and 70 percent for a one: the
  windows overlap, and the train with a low time of 800 microseconds for a one is not a train of the
  claim, while one with 1200 microseconds is.\<close>

definition nec_cfg_demo :: IR_NEC_CFG_T where
  "nec_cfg_demo = \<lparr>is_nec_msb = 0, lead_err = 70, logics_err = 45, logic0_err = 45, logic1_err = 70, repeat_err = 50\<rparr>"

lemma nec_cfg_demo_ambiguous:
  "\<not> nec_windows_disjoint (nec_err_val_of nec_cfg_demo)"
  "nec_pulse_ok (nec_err_val_of nec_cfg_demo) True 560 800" "nec_pulse_ok (nec_err_val_of nec_cfg_demo) False 560 800"
  by (simp_all add: nec_windows_disjoint_def nec_pulse_ok_def nec_err_val_of_def nec_cfg_demo_def nec_err_def ABS_def word_less_nat_alt)


text \<open>C31: For up to 255 repeats the builder returns the reference frame with its length, and the frame
  lasts 110 ms for the data and 110 ms for each repeat.\<close>

theorem nec_build_frame:
  assumes "unat (nec_repeat_cnt d) \<le> 255"
  shows "tdl_ir_nec_build True m d
      = Some (OPRT_OK, Some \<lparr>tc_len = length (nec_frame m d), tc_data = nec_frame m d\<rparr>) \<and>
    sum_list (map unat (nec_frame m d)) = 110000 * (unat (nec_repeat_cnt d) + 1)"
  using tdl_ir_nec_build_eq [OF assms] nec_frame_duration by simp

theorem nec_build_frame_witness:
  "tdl_ir_nec_build True True nec_data_example
      = Some (OPRT_OK, Some \<lparr>tc_len = length (nec_frame True nec_data_example), tc_data = nec_frame True nec_data_example\<rparr>) \<and>
    sum_list (map unat (nec_frame True nec_data_example)) = 110000 * 3"
  using nec_build_frame [of nec_data_example True] by (simp add: nec_data_example_def)

text \<open>For more than 255 repeats the builder does not return: its 8-bit counter never reaches the
  repeat count and the writes leave the allocated buffer.\<close>

theorem nec_build_overflow:
  assumes "255 < unat (nec_repeat_cnt d)"
  shows "tdl_ir_nec_build True m d = None"
  by (rule tdl_ir_nec_build_None [OF assms])

theorem nec_build_overflow_witness:
  "tdl_ir_nec_build True False \<lparr>nec_addr = 1, nec_cmd = 2, nec_repeat_cnt = 256\<rparr> = None"
  by (rule nec_build_overflow) simp

text \<open>C32: On any input of at least 66 pulses inside its buffer the decoder reads only inside the buffer,
  returns, and consumes at least two and at most all of the pulses, so a loop over it ends.\<close>

theorem nec_parse_progress:
  assumes "66 \<le> len" and "len \<le> length buf" and "len < 65536"
  shows "\<exists>r c'. tdl_ir_nec_parser_single (Some buf) len (Some c) (Some ev) m = Some (r, Some c') \<and> 2 \<le> r \<and> r \<le> len"
  by (rule tdl_ir_nec_parser_single_progress [OF assms])

theorem nec_parse_progress_witness:
  "\<exists>r c'. tdl_ir_nec_parser_single (Some (replicate 66 560)) 66 (Some nec_data_example)
     (Some (nec_err_val_of nec_cfg_example)) False = Some (r, Some c') \<and> 2 \<le> r \<and> r \<le> 66"
  by (rule nec_parse_progress) simp_all

text \<open>The leader search returns the first position where a leader pulse pair lies within tolerance,
  and an error when there is none, unless the last pulse looks like the start of a leader: then it
  reads one cell past the buffer.\<close>

theorem nec_leader_search:
  assumes "2 \<le> length buf"
  shows "tdl_nec_get_frame_head (Some buf) (length buf) (Some ev) =
    (case List.find (nec_leader_at ev buf) [0..<length buf - 1] of
       Some i \<Rightarrow> Some (OPRT_OK, Some i)
     | None \<Rightarrow> if ABS (last buf) NEC_LEADER_HIGH_US \<le> leader_high_err_val ev then None
               else Some (OPRT_COM_ERROR, None))"
  by (rule tdl_nec_get_frame_head_eq [OF assms])

theorem nec_leader_search_witness:
  "tdl_nec_get_frame_head (Some [500, 9000]) 2 (Some (nec_err_val_of nec_cfg_example)) = None"
proof -
  have l: "length [500, 9000 :: u32] = 2" by simp
  show ?thesis
    using nec_leader_search [of "[500, 9000]" "nec_err_val_of nec_cfg_example", unfolded l]
    by (simp add: nec_leader_at_def nec_err_val_of_def nec_cfg_example_def nec_err_def ABS_def word_le_nat_alt)
qed

end
