(* ===== verification/IR_Ring.thy ===== *)
theory IR_Ring
  imports Tuya_Prelude
begin

text \<open>
  The ring buffer of received pulse durations, \<^verbatim>\<open>tdl_ir_dev_manage.c\<close> lines 47 to 291. Indices are
  the code's \<^verbatim>\<open>UINT32_T\<close> with their wrap-around written out; the \<^verbatim>\<open>UINT16_T\<close> temporaries are cut.
\<close>

record IR_RING_BUF_T =
  buf_len :: nat
  write_idx :: nat
  read_idx :: nat
  p_buf :: "u32 list"

definition tdl_ir_ring_buf_init :: "bool \<Rightarrow> nat \<Rightarrow> OPERATE_RET \<times> IR_RING_BUF_T option" where
  "tdl_ir_ring_buf_init malloc_ok buf_size =
     (if \<not> malloc_ok then (OPRT_MALLOC_FAILED, None)
      else (OPRT_OK, Some \<lparr>buf_len = buf_size div 4, write_idx = 0, read_idx = 0,
              p_buf = replicate (buf_size div 4) 0\<rparr>))"

definition RING_BUFFER_IS_FULL :: "IR_RING_BUF_T \<Rightarrow> bool option" where
  "RING_BUFFER_IS_FULL rb =
     (if buf_len rb = 0 then None
      else Some (cut32 (write_idx rb + 1) mod buf_len rb = read_idx rb))"

definition RING_BUFFER_LENGTH_GET :: "IR_RING_BUF_T \<Rightarrow> nat option" where
  "RING_BUFFER_LENGTH_GET rb =
     (if buf_len rb = 0 then None
      else Some (cut32 (buf_len rb + write_idx rb + 4294967296 - read_idx rb) mod buf_len rb))"

definition tdl_ir_ring_buf_write_word :: "IR_RING_BUF_T \<Rightarrow> u32 \<Rightarrow> IR_RING_BUF_T option" where
  "tdl_ir_ring_buf_write_word rb v = do {
     buf \<leftarrow> wr (p_buf rb) (write_idx rb) v;
     Some (rb\<lparr>p_buf := buf,
       write_idx := (if cut32 (write_idx rb + 1) < buf_len rb then cut32 (write_idx rb + 1) else 0)\<rparr>) }"

text \<open>
  The reads copy into a destination object; a null destination is \<^term>\<open>None\<close>. When the
  requested length is below the words left before the end, the size of the second copy is negative
  and becomes a huge \<^verbatim>\<open>size_t\<close>.
\<close>

definition ring_copy :: "IR_RING_BUF_T \<Rightarrow> u32 list \<Rightarrow> nat \<Rightarrow> u32 list option" where
  "ring_copy rb dst read_len =
     (if read_idx rb < write_idx rb then do {
        seg \<leftarrow> memcpy_out (p_buf rb) (read_idx rb) read_len;
        memcpy_in dst 0 seg }
      else do {
        let tmp_idx = cut16 (cut32 (buf_len rb + 4294967296 - read_idx rb));
        seg \<leftarrow> memcpy_out (p_buf rb) (read_idx rb) tmp_idx;
        dst \<leftarrow> memcpy_in dst 0 seg;
        if read_len < tmp_idx then None
        else do {
          seg \<leftarrow> memcpy_out (p_buf rb) 0 (read_len - tmp_idx);
          memcpy_in dst tmp_idx seg } })"

definition tdl_ir_ring_buf_read ::
  "IR_RING_BUF_T \<Rightarrow> u32 list option \<Rightarrow> nat \<Rightarrow> (IR_RING_BUF_T \<times> u32 list option) option" where
  "tdl_ir_ring_buf_read rb read_data read_len =
     (case read_data of
        None \<Rightarrow> Some (rb, None)
      | Some dst \<Rightarrow> do {
          dst \<leftarrow> ring_copy rb dst read_len;
          let tmp_idx = cut16 (cut32 (buf_len rb + 4294967296 - read_idx rb));
          let r = (if read_idx rb < write_idx rb then cut32 (read_idx rb + read_len)
                   else read_len - tmp_idx);
          Some (rb\<lparr>read_idx := r\<rparr>, Some dst) })"

definition tdl_ir_ring_buf_read_no_update ::
  "IR_RING_BUF_T \<Rightarrow> u32 list option \<Rightarrow> nat \<Rightarrow> (u32 list option) option" where
  "tdl_ir_ring_buf_read_no_update rb read_data read_len =
     (case read_data of
        None \<Rightarrow> Some None
      | Some dst \<Rightarrow> do { dst \<leftarrow> ring_copy rb dst read_len; Some (Some dst) })"

definition tdl_ir_ring_buf_data_discard :: "IR_RING_BUF_T \<Rightarrow> nat \<Rightarrow> IR_RING_BUF_T option" where
  "tdl_ir_ring_buf_data_discard rb discard_len = do {
     cur_data_len \<leftarrow> RING_BUFFER_LENGTH_GET rb;
     if cur_data_len < discard_len then Some (rb\<lparr>read_idx := write_idx rb\<rparr>)
     else if cut32 (read_idx rb + discard_len) < buf_len rb
     then Some (rb\<lparr>read_idx := cut32 (read_idx rb + discard_len)\<rparr>)
     else Some (rb\<lparr>read_idx := cut32 (read_idx rb + discard_len) mod buf_len rb\<rparr>) }"

section \<open>Well-formed buffers and what they hold\<close>

definition ring_wf :: "IR_RING_BUF_T \<Rightarrow> bool" where
  "ring_wf rb \<longleftrightarrow> 0 < buf_len rb \<and> buf_len rb < 65536 \<and> length (p_buf rb) = buf_len rb \<and>
     write_idx rb < buf_len rb \<and> read_idx rb < buf_len rb"

definition ring_contents :: "IR_RING_BUF_T \<Rightarrow> u32 list" where
  "ring_contents rb =
     (if read_idx rb \<le> write_idx rb
      then take (write_idx rb - read_idx rb) (drop (read_idx rb) (p_buf rb))
      else drop (read_idx rb) (p_buf rb) @ take (write_idx rb) (p_buf rb))"

lemma length_ring_contents:
  "ring_wf rb \<Longrightarrow> length (ring_contents rb) =
    (if read_idx rb \<le> write_idx rb then write_idx rb - read_idx rb
     else buf_len rb - read_idx rb + write_idx rb)"
  by (auto simp: ring_wf_def ring_contents_def)

lemma tdl_ir_ring_buf_init_wf:
  "tdl_ir_ring_buf_init True n = (OPRT_OK, Some rb) \<Longrightarrow> 4 \<le> n \<Longrightarrow> n < 65536 \<Longrightarrow>
    ring_wf rb \<and> ring_contents rb = [] \<and> buf_len rb = n div 4"
  by (auto simp: tdl_ir_ring_buf_init_def ring_wf_def ring_contents_def div_greater_zero_iff
      intro: le_less_trans [OF div_le_dividend])

lemma ring_contents_empty: "read_idx rb = write_idx rb \<Longrightarrow> ring_contents rb = []"
  by (simp add: ring_contents_def)

lemma RING_BUFFER_LENGTH_GET_eq:
  "ring_wf rb \<Longrightarrow> RING_BUFFER_LENGTH_GET rb = Some (length (ring_contents rb))"
proof -
  assume wf: "ring_wf rb"
  have "cut32 (buf_len rb + write_idx rb + 4294967296 - read_idx rb) = buf_len rb + write_idx rb - read_idx rb"
    using wf by (intro cut32_diff) (auto simp: ring_wf_def)
  moreover have "(buf_len rb + write_idx rb - read_idx rb) mod buf_len rb = length (ring_contents rb)"
    using wf length_ring_contents [OF wf] by (auto simp: ring_wf_def mod_if)
  ultimately show ?thesis
    using wf by (simp add: RING_BUFFER_LENGTH_GET_def ring_wf_def)
qed

lemma RING_BUFFER_IS_FULL_eq:
  "ring_wf rb \<Longrightarrow> RING_BUFFER_IS_FULL rb = Some (length (ring_contents rb) = buf_len rb - 1)"
  by (auto simp: RING_BUFFER_IS_FULL_def length_ring_contents ring_wf_def mod_if split: if_splits)

lemma ring_contents_bounded: "ring_wf rb \<Longrightarrow> length (ring_contents rb) \<le> buf_len rb - 1"
  by (auto simp: length_ring_contents ring_wf_def)

lemma tdl_ir_ring_buf_write_word_spec:
  assumes wf: "ring_wf rb" and room: "length (ring_contents rb) < buf_len rb - 1"
  shows "\<exists>rb'. tdl_ir_ring_buf_write_word rb v = Some rb' \<and> ring_wf rb' \<and> buf_len rb' = buf_len rb \<and>
    ring_contents rb' = ring_contents rb @ [v]"
proof -
  let ?w = "write_idx rb" and ?r = "read_idx rb" and ?n = "buf_len rb" and ?p = "p_buf rb"
  let ?rb = "rb\<lparr>p_buf := ?p[?w := v], write_idx := (if ?w + 1 < ?n then ?w + 1 else 0)\<rparr>"
  have b: "?w < ?n" "?r < ?n" "length ?p = ?n" "?n < 65536" using wf by (auto simp: ring_wf_def)
  have "tdl_ir_ring_buf_write_word rb v = Some ?rb"
    using b by (simp add: tdl_ir_ring_buf_write_word_def mem_simps)
  moreover have "ring_wf ?rb" using wf by (auto simp: ring_wf_def)
  moreover have "ring_contents ?rb = ring_contents rb @ [v]"
  proof (cases "?r \<le> ?w")
    case True
    have e: "take (Suc ?w - ?r) (drop ?r (?p[?w := v])) = take (?w - ?r) (drop ?r ?p) @ [v]"
      using True b by (simp add: Suc_diff_le take_Suc_conv_app_nth drop_update_swap)
    show ?thesis
    proof (cases "?w + 1 < ?n")
      case True
      with e \<open>?r \<le> ?w\<close> show ?thesis by (simp add: ring_contents_def)
    next
      case False
      with b have w: "Suc ?w = ?n" by simp
      with room wf \<open>?r \<le> ?w\<close> have "0 < ?r" by (simp add: length_ring_contents)
      with e w False \<open>?r \<le> ?w\<close> b show ?thesis by (simp add: ring_contents_def)
    qed
  next
    case False
    with room wf b have "?w + 1 < ?r" by (simp add: length_ring_contents)
    with False b show ?thesis
      by (simp add: ring_contents_def drop_update_cancel take_Suc_conv_app_nth)
  qed
  ultimately show ?thesis by fastforce
qed

lemma ring_copy_contents:
  assumes wf: "ring_wf rb" and ne: "ring_contents rb \<noteq> []"
    and n: "n = length (ring_contents rb)" and d: "length dst = n"
  shows "ring_copy rb dst n = Some (ring_contents rb)"
proof (cases "read_idx rb < write_idx rb")
  case True
  with wf n d show ?thesis
    by (auto simp: ring_copy_def ring_contents_def ring_wf_def mem_simps blit_def)
next
  case False
  with ne ring_contents_empty [of rb] have lt: "write_idx rb < read_idx rb" by fastforce
  with wf have t: "cut16 (cut32 (buf_len rb + 4294967296 - read_idx rb)) = buf_len rb - read_idx rb"
    by (auto simp: ring_wf_def)
  have l: "n = buf_len rb - read_idx rb + write_idx rb"
    using n lt length_ring_contents [OF wf] by simp
  have "take (buf_len rb - read_idx rb) (drop (read_idx rb) (p_buf rb)) = drop (read_idx rb) (p_buf rb)"
    using wf by (simp add: ring_wf_def)
  moreover have "buf_len rb + write_idx rb - read_idx rb - (buf_len rb - read_idx rb) = write_idx rb"
    using wf by (auto simp: ring_wf_def)
  ultimately show ?thesis using lt wf d l t
    by (auto simp: ring_copy_def Let_def memcpy_out_def memcpy_in_def ring_contents_def blit_def ring_wf_def)
qed

lemma tdl_ir_ring_buf_read_spec:
  assumes wf: "ring_wf rb" and ne: "ring_contents rb \<noteq> []"
    and n: "n = length (ring_contents rb)" and d: "length dst = n"
  shows "\<exists>rb'. tdl_ir_ring_buf_read rb (Some dst) n = Some (rb', Some (ring_contents rb)) \<and>
    ring_wf rb' \<and> ring_contents rb' = [] \<and> buf_len rb' = buf_len rb"
proof (cases "read_idx rb < write_idx rb")
  case True
  with wf n have "n = write_idx rb - read_idx rb" by (simp add: length_ring_contents)
  with True ring_copy_contents [OF assms] wf show ?thesis
    by (auto simp: tdl_ir_ring_buf_read_def ring_wf_def ring_contents_def)
next
  case False
  with ne ring_contents_empty [of rb] have lt: "write_idx rb < read_idx rb" by fastforce
  with wf have t: "cut16 (cut32 (buf_len rb + 4294967296 - read_idx rb)) = buf_len rb - read_idx rb"
    by (auto simp: ring_wf_def)
  with lt n length_ring_contents [OF wf] have "n - cut16 (cut32 (buf_len rb + 4294967296 - read_idx rb)) = write_idx rb"
    by simp
  with False ring_copy_contents [OF assms] wf show ?thesis
    by (auto simp: tdl_ir_ring_buf_read_def ring_wf_def ring_contents_def)
qed

lemma tdl_ir_ring_buf_data_discard_spec:
  assumes wf: "ring_wf rb" and n: "n < 65536"
  shows "\<exists>rb'. tdl_ir_ring_buf_data_discard rb n = Some rb' \<and> ring_wf rb' \<and> buf_len rb' = buf_len rb \<and>
    ring_contents rb' = drop n (ring_contents rb)"
proof (cases "length (ring_contents rb) < n")
  case True
  with wf show ?thesis
    by (auto simp: tdl_ir_ring_buf_data_discard_def RING_BUFFER_LENGTH_GET_eq ring_wf_def ring_contents_def)
next
  case False
  let ?r = "(if read_idx rb + n < buf_len rb then read_idx rb + n else read_idx rb + n - buf_len rb)"
  have c: "cut32 (read_idx rb + n) = read_idx rb + n" using wf n by (simp add: ring_wf_def)
  have "n < buf_len rb" using False ring_contents_bounded [OF wf] wf by (auto simp: ring_wf_def)
  with wf have "(read_idx rb + n) mod buf_len rb = ?r" by (auto simp: ring_wf_def mod_if)
  then have "tdl_ir_ring_buf_data_discard rb n = Some (rb\<lparr>read_idx := ?r\<rparr>)"
    using False wf c by (simp add: tdl_ir_ring_buf_data_discard_def RING_BUFFER_LENGTH_GET_eq)
  moreover have "ring_wf (rb\<lparr>read_idx := ?r\<rparr>)" using wf \<open>n < buf_len rb\<close> by (auto simp: ring_wf_def)
  moreover have "ring_contents (rb\<lparr>read_idx := ?r\<rparr>) = drop n (ring_contents rb)"
    using False wf \<open>n < buf_len rb\<close> length_ring_contents [OF wf]
    by (auto simp: ring_contents_def ring_wf_def drop_take add.commute split: if_splits)
  ultimately show ?thesis by auto
qed

text \<open>A read of everything that is there, as \<^verbatim>\<open>__tdl_ir_recv_data_process\<close> does it.\<close>

definition ring_peek_all :: "IR_RING_BUF_T \<Rightarrow> u32 list option" where
  "ring_peek_all rb = do {
     n \<leftarrow> RING_BUFFER_LENGTH_GET rb;
     d \<leftarrow> tdl_ir_ring_buf_read_no_update rb (Some (replicate n 0)) n;
     d }"

interpretation ir_ring: fifo_buffer ring_wf ring_contents "\<lambda>rb. buf_len rb - 1" RING_BUFFER_IS_FULL
  RING_BUFFER_LENGTH_GET tdl_ir_ring_buf_write_word ring_peek_all tdl_ir_ring_buf_data_discard
proof unfold_locales
  fix rb assume "ring_wf rb" and "ring_contents rb \<noteq> []"
  then show "ring_peek_all rb = Some (ring_contents rb)"
    by (simp add: ring_peek_all_def RING_BUFFER_LENGTH_GET_eq tdl_ir_ring_buf_read_no_update_def ring_copy_contents)
next
  fix rb and x :: u32 assume "ring_wf rb" and "length (ring_contents rb) < buf_len rb - 1"
  from tdl_ir_ring_buf_write_word_spec [OF this, of x]
  show "\<exists>b'. tdl_ir_ring_buf_write_word rb x = Some b' \<and> ring_wf b' \<and> buf_len b' - 1 = buf_len rb - 1 \<and>
    ring_contents b' = ring_contents rb @ [x]" by auto
next
  fix rb and n :: nat assume "ring_wf rb" and "n < 65536"
  from tdl_ir_ring_buf_data_discard_spec [OF this]
  show "\<exists>b'. tdl_ir_ring_buf_data_discard rb n = Some b' \<and> ring_wf b' \<and> buf_len b' - 1 = buf_len rb - 1 \<and>
    ring_contents b' = drop n (ring_contents rb)" by auto
qed (simp_all add: ring_contents_bounded [unfolded One_nat_def] RING_BUFFER_IS_FULL_eq RING_BUFFER_LENGTH_GET_eq)

section \<open>Properties of the ring\<close>

text \<open>Words written into a fresh ring of a buffer of \<open>n\<close> bytes are read back whole and in order
  as long as they are fewer than the ring has words; the ring drops what does not fit.\<close>

theorem ring_write_then_read:
  assumes "tdl_ir_ring_buf_init True n = (OPRT_OK, Some rb)" and "4 \<le> n" and "n < 65536"
  shows "\<exists>rb'. foldM ir_ring.offer xs rb = Some rb' \<and> ring_wf rb' \<and> buf_len rb' = n div 4 \<and>
    ring_contents rb' = take (n div 4 - 1) xs \<and>
    (take (n div 4 - 1) xs \<noteq> [] \<longrightarrow> ring_peek_all rb' = Some (take (n div 4 - 1) xs))"
proof -
  have rb: "ring_wf rb" "ring_contents rb = []" "buf_len rb = n div 4"
    using tdl_ir_ring_buf_init_wf [OF assms] by auto
  obtain rb' where rb': "foldM ir_ring.offer xs rb = Some rb'" "ring_wf rb'"
    "buf_len rb' - 1 = buf_len rb - 1" "ring_contents rb' = take (buf_len rb - 1) xs"
    using ir_ring.offer_all_spec [OF rb(1), of xs] rb(2) by auto
  moreover have "buf_len rb' = buf_len rb" using rb' rb(1) by (auto simp: ring_wf_def)
  ultimately show ?thesis using rb(3) ir_ring.peek [OF rb'(2)] by auto
qed

theorem ring_write_then_read_witness:
  "\<exists>rb'. foldM ir_ring.offer [7, 8, 9, 10] (the (snd (tdl_ir_ring_buf_init True 16))) = Some rb' \<and> ring_wf rb' \<and>
    buf_len rb' = 4 \<and> ring_contents rb' = [7, 8, 9] \<and> ring_peek_all rb' = Some [7, 8, 9]"
proof -
  have "tdl_ir_ring_buf_init True 16 = (OPRT_OK, Some (the (snd (tdl_ir_ring_buf_init True 16))))"
    by (simp add: tdl_ir_ring_buf_init_def)
  from ring_write_then_read [OF this, of "[7, 8, 9, 10]"] show ?thesis by (simp add: numeral_3_eq_3)
qed

text \<open>C19: A ring in order keeps the laws of a bounded queue under every operation: a test for full, a
  count, a write that has room, and a discard of any number of words.\<close>

theorem ring_refines_queue:
  assumes "ring_wf rb" and "n < 65536"
  shows "RING_BUFFER_IS_FULL rb = Some (length (ring_contents rb) = buf_len rb - 1) \<and>
    RING_BUFFER_LENGTH_GET rb = Some (length (ring_contents rb)) \<and>
    (length (ring_contents rb) < buf_len rb - 1 \<longrightarrow>
      (\<exists>rb'. tdl_ir_ring_buf_write_word rb v = Some rb' \<and> ring_wf rb' \<and> ring_contents rb' = ring_contents rb @ [v])) \<and>
    (\<exists>rb'. tdl_ir_ring_buf_data_discard rb n = Some rb' \<and> ring_wf rb' \<and> ring_contents rb' = drop n (ring_contents rb))"
  using ir_ring.is_full [OF assms(1)] ir_ring.count [OF assms(1)] ir_ring.push [OF assms(1), of v]
    ir_ring.discard [OF assms] by auto

theorem ring_refines_queue_witness:
  "RING_BUFFER_IS_FULL \<lparr>buf_len = 4, write_idx = 1, read_idx = 3, p_buf = [5, 6, 7, 8]\<rparr> = Some False \<and>
   RING_BUFFER_LENGTH_GET \<lparr>buf_len = 4, write_idx = 1, read_idx = 3, p_buf = [5, 6, 7, 8]\<rparr> = Some 2"
  using ring_refines_queue [of "\<lparr>buf_len = 4, write_idx = 1, read_idx = 3, p_buf = [5, 6, 7, 8]\<rparr>" 0 0]
  by (simp add: ring_wf_def ring_contents_def numeral_2_eq_2)

text \<open>Reading a timecode out of a ring gives its words and empties it; with nothing in the ring the
  read computes a negative size, which no caller may reach.\<close>

theorem ring_read_all:
  assumes "ring_wf rb" and "n = length (ring_contents rb)" and "length dst = n"
  shows "if n = 0 then tdl_ir_ring_buf_read rb (Some dst) n = None
    else \<exists>rb'. tdl_ir_ring_buf_read rb (Some dst) n = Some (rb', Some (ring_contents rb)) \<and>
      ring_wf rb' \<and> ring_contents rb' = []"
proof (cases "n = 0")
  case True
  then have "length (ring_contents rb) = 0" using assms(2) by simp
  then have "read_idx rb = write_idx rb"
    using assms(1) unfolding length_ring_contents [OF assms(1)] by (simp add: ring_wf_def split: if_splits)
  moreover have "cut16 (cut32 (buf_len rb + 4294967296 - read_idx rb)) = buf_len rb - read_idx rb"
    using assms(1) by (auto simp: ring_wf_def)
  ultimately have "ring_copy rb [] 0 = None"
    using assms(1) by (simp add: ring_copy_def ring_wf_def memcpy_in_def memcpy_out_def)
  with True assms(3) show ?thesis by (simp add: tdl_ir_ring_buf_read_def)
next
  case False
  with assms(2) have "ring_contents rb \<noteq> []" by auto
  from tdl_ir_ring_buf_read_spec [OF assms(1) this assms(2,3)] False show ?thesis by fastforce
qed

theorem ring_read_all_witness:
  "\<exists>rb'. tdl_ir_ring_buf_read \<lparr>buf_len = 4, write_idx = 1, read_idx = 3, p_buf = [5, 6, 7, 8]\<rparr> (Some [0, 0]) 2
      = Some (rb', Some [8, 5]) \<and> ring_wf rb' \<and> ring_contents rb' = []"
proof -
  let ?rb = "\<lparr>buf_len = 4, write_idx = 1, read_idx = 3, p_buf = [5, 6, 7, 8]\<rparr> :: IR_RING_BUF_T"
  have w: "ring_wf ?rb" "ring_contents ?rb = [8, 5]" by (simp_all add: ring_wf_def ring_contents_def)
  have n: "2 = length (ring_contents ?rb)" "length [0, 0 :: u32] = 2" unfolding w(2) by simp_all
  show ?thesis using ring_read_all [OF w(1) n] unfolding w(2) by (simp only: zero_neq_numeral [symmetric] if_False)
qed

end
