(* ===== verification/IR_Dev.thy ===== *)
theory IR_Dev
  imports IR_Nec IR_Ring
begin

text \<open>
  The infrared device manager, \<^verbatim>\<open>tdl_ir_dev_manage.c\<close>: the device list, opening and closing, the
  send path with its completion interrupt, and the receive path with its interrupt, its task and
  the two decoders. A handle is the position of a node in the device list (nodes are never removed);
  a null pointer is \<^term>\<open>None\<close>. The operating system and the driver are parameters: what their calls
  return is an argument (\<^verbatim>\<open>tal_malloc\<close>, \<^verbatim>\<open>tal_queue_post\<close>, \<^verbatim>\<open>tal_semaphore_wait\<close>, the clock), the
  driver's operations are the functions of its interface record over a driver state \<open>'d\<close>.
\<close>

section \<open>Data\<close>

datatype IR_SEND_STATUS =
  IR_STA_SEND_IDLE | IR_STA_SEND_BUILD | IR_STA_SENDING | IR_STA_SEND_FINISH

datatype IR_RECV_STATUS =
  IR_STA_RECV_IDLE | IR_STA_RECVING | IR_STA_RECV_FINISH | IR_STA_RECV_PARSER | IR_STA_RECV_OVERFLOW

datatype IR_DRIVER_STATE_E =
  IR_DRV_PRE_SEND_STATE | IR_DRV_SEND_FINISH_STATE | IR_DRV_PRE_RECV_STATE | IR_DRV_RECV_FINISH_STATE
  | IR_DRV_SEND_HW_RESET | IR_DRV_RECV_HW_INIT | IR_DRV_RECV_HW_DEINIT

datatype IR_CMD_E =
  IR_CMD_GET_SEND_STATUS | IR_CMD_GET_RECV_STATUS | IR_CMD_SEND_HW_RESET | IR_CMD_RECV_HW_INIT
  | IR_CMD_RECV_HW_DEINIT | IR_CMD_RECV_TASK_START | IR_CMD_RECV_TASK_STOP | IR_CMD_RECV_QUEUE_CLEAN
  | IR_CMD_RECV_CB_REGISTER | IR_CMD_OTHER

abbreviation (input) IR_PROT_TIMECODE :: nat where "IR_PROT_TIMECODE \<equiv> 0"
abbreviation (input) IR_PROT_NEC :: nat where "IR_PROT_NEC \<equiv> 1"
abbreviation (input) IR_PROT_MAX :: nat where "IR_PROT_MAX \<equiv> 2"
abbreviation (input) IR_MODE_RECV_ONLY :: nat where "IR_MODE_RECV_ONLY \<equiv> 0"
abbreviation (input) IR_MODE_SEND_ONLY :: nat where "IR_MODE_SEND_ONLY \<equiv> 1"
abbreviation (input) IR_MODE_SEND_RECV :: nat where "IR_MODE_SEND_RECV \<equiv> 2"
abbreviation (input) IR_MODE_MAX :: nat where "IR_MODE_MAX \<equiv> 3"
abbreviation (input) IR_DEV_NAME_MAX_LEN :: nat where "IR_DEV_NAME_MAX_LEN \<equiv> 16"
abbreviation (input) IR_RECV_TIMEOUT_MS :: u32 where "IR_RECV_TIMEOUT_MS \<equiv> 300"
abbreviation (input) OVERFLOW_TIME_MS :: u32 where "OVERFLOW_TIME_MS \<equiv> 0xffffffff"
abbreviation (input) IR_RECV_VALID_LEN_MIN :: nat where "IR_RECV_VALID_LEN_MIN \<equiv> 20"

text \<open>The union of the two payloads: \<^term>\<open>Timecode\<close> has the length and the pointer of a timecode.\<close>

datatype IR_DATA_U = Nec_data IR_DATA_NEC_T | Timecode nat "u32 list option"

record IR_DEV_CFG_T =
  ir_mode :: nat
  recv_queue_num :: nat
  recv_buf_size :: nat
  recv_timeout :: nat
  prot_opt :: nat
  nec_cfg :: IR_NEC_CFG_T

text \<open>The driver's operations; a null function pointer is \<^term>\<open>None\<close>.\<close>

record 'd TDD_IR_INTFS_T =
  drv_open :: "('d \<Rightarrow> nat \<Rightarrow> OPERATE_RET \<times> 'd) option"
  drv_close :: "('d \<Rightarrow> nat \<Rightarrow> OPERATE_RET \<times> 'd) option"
  drv_output :: "('d \<Rightarrow> u32 \<Rightarrow> bool \<Rightarrow> u32 \<Rightarrow> OPERATE_RET \<times> 'd) option"
  drv_status_notif :: "('d \<Rightarrow> IR_DRIVER_STATE_E \<Rightarrow> OPERATE_RET \<times> 'd) option"

text \<open>\<open>send_sem\<close> counts the posts of the finish semaphore since it was created.\<close>

record IR_DEV_SEND_T =
  send_data :: "u32 list option"
  send_len :: nat
  send_idx :: nat
  send_freq :: u32
  send_cnt :: u32
  send_sem :: "nat option"

text \<open>\<open>recv_err_val\<close> carries with the block whether it is still allocated.\<close>

record IR_DEV_RECV_T =
  is_run :: bool
  ring_buf :: "IR_RING_BUF_T option"
  last_time :: u32
  recv_err_val :: "(NEC_ERR_VAL_T \<times> bool) option"
  recv_queue :: "IR_DATA_U list option"
  app_recv_cb :: bool

record 'd IR_DEV_NODE_T =
  is_open :: bool
  node_name :: string
  ir_drv_hdl :: 'd
  drv_intfs :: "'d TDD_IR_INTFS_T"
  send_info :: IR_DEV_SEND_T
  recv_info :: IR_DEV_RECV_T
  send_status :: IR_SEND_STATUS
  recv_status :: IR_RECV_STATUS
  ir_dev_cfg :: IR_DEV_CFG_T

text \<open>
  The static state of the file: the list head, the two static locals of the synchronous decoder,
  and what the manager did to the outside: low-power calls and application callbacks.
\<close>

record 'd ir_sys =
  recv_dev_num :: nat
  recv_dev_run_num :: nat
  ir_nodes :: "'d IR_DEV_NODE_T list"
  dev_recv_thrd :: bool
  dev_notif_queue :: "nat list option"
  last_total_len :: nat
  last_repeat :: int
  lp_calls :: "bool list"
  app_calls :: "(nat \<times> bool \<times> IR_DATA_NEC_T) list"

definition get_node :: "'d ir_sys \<Rightarrow> nat \<Rightarrow> 'd IR_DEV_NODE_T option" where
  "get_node s h = rd (ir_nodes s) h"

definition set_node :: "'d ir_sys \<Rightarrow> nat \<Rightarrow> 'd IR_DEV_NODE_T \<Rightarrow> 'd ir_sys" where
  "set_node s h n = s\<lparr>ir_nodes := (ir_nodes s)[h := n]\<rparr>"

definition put_ring :: "'d IR_DEV_NODE_T \<Rightarrow> IR_RING_BUF_T option \<Rightarrow> 'd IR_DEV_NODE_T" where
  "put_ring n rb = n\<lparr>recv_info := (recv_info n)\<lparr>ring_buf := rb\<rparr>\<rparr>"

text \<open>A call through the notification pointer.\<close>

definition status_notif :: "'d IR_DEV_NODE_T \<Rightarrow> IR_DRIVER_STATE_E \<Rightarrow> (OPERATE_RET \<times> 'd IR_DEV_NODE_T) option" where
  "status_notif n st = do {
     f \<leftarrow> drv_status_notif (drv_intfs n);
     let (ret, d) = f (ir_drv_hdl n) st;
     Some (ret, n\<lparr>ir_drv_hdl := d\<rparr>) }"

section \<open>Registration and lookup\<close>

definition static_tdl_ir_dev_find :: "'d ir_sys \<Rightarrow> string option \<Rightarrow> nat option" where
  "static_tdl_ir_dev_find s dev_name =
     (case dev_name of None \<Rightarrow> None
      | Some nm \<Rightarrow> find_index (\<lambda>n. nm = node_name n) (ir_nodes s))"

definition new_node :: "string \<Rightarrow> 'd \<Rightarrow> 'd TDD_IR_INTFS_T \<Rightarrow> 'd IR_DEV_NODE_T" where
  "new_node nm hdl intfs =
     \<lparr>is_open = False, node_name = nm, ir_drv_hdl = hdl, drv_intfs = intfs,
      send_info = \<lparr>send_data = None, send_len = 0, send_idx = 0, send_freq = 0, send_cnt = 0, send_sem = None\<rparr>,
      recv_info = \<lparr>is_run = False, ring_buf = None, last_time = 0, recv_err_val = None, recv_queue = None,
                   app_recv_cb = False\<rparr>,
      send_status = IR_STA_SEND_IDLE, recv_status = IR_STA_RECV_IDLE,
      ir_dev_cfg = \<lparr>ir_mode = 0, recv_queue_num = 0, recv_buf_size = 0, recv_timeout = 0, prot_opt = 0,
        nec_cfg = \<lparr>is_nec_msb = 0, lead_err = 0, logics_err = 0, logic0_err = 0, logic1_err = 0, repeat_err = 0\<rparr>\<rparr>\<rparr>"

definition static_tdl_ir_dev_register ::
  "bool \<Rightarrow> 'd ir_sys \<Rightarrow> string \<Rightarrow> 'd \<Rightarrow> 'd TDD_IR_INTFS_T \<Rightarrow> OPERATE_RET \<times> 'd ir_sys" where
  "static_tdl_ir_dev_register malloc_ok s dev_name hdl intfs =
     (let name_len = cut8 (length dev_name) in
      if name_len > IR_DEV_NAME_MAX_LEN then (OPRT_COM_ERROR, s)
      else if static_tdl_ir_dev_find s (Some dev_name) \<noteq> None then (OPRT_COM_ERROR, s)
      else if \<not> malloc_ok then (OPRT_MALLOC_FAILED, s)
      else (OPRT_OK, s\<lparr>ir_nodes := ir_nodes s @ [new_node (take name_len dev_name) hdl intfs]\<rparr>))"

definition tdl_ir_dev_register ::
  "bool \<Rightarrow> 'd ir_sys \<Rightarrow> string option \<Rightarrow> 'd \<Rightarrow> 'd TDD_IR_INTFS_T option \<Rightarrow> OPERATE_RET \<times> 'd ir_sys" where
  "tdl_ir_dev_register malloc_ok s dev_name hdl intfs =
     (case (dev_name, intfs) of
        (Some nm, Some i) \<Rightarrow>
          if drv_open i = None \<or> drv_close i = None then (OPRT_INVALID_PARM, s)
          else static_tdl_ir_dev_register malloc_ok s nm hdl i
      | _ \<Rightarrow> (OPRT_INVALID_PARM, s))"

definition tdl_ir_dev_find :: "'d ir_sys \<Rightarrow> string option \<Rightarrow> OPERATE_RET \<times> nat option" where
  "tdl_ir_dev_find s dev_name =
     (case dev_name of
        None \<Rightarrow> (OPRT_INVALID_PARM, None)
      | Some nm \<Rightarrow>
          (case static_tdl_ir_dev_find s (Some nm) of
             None \<Rightarrow> (OPRT_COM_ERROR, None)
           | Some h \<Rightarrow> (OPRT_OK, Some h)))"

section \<open>Sending\<close>

definition tdl_ir_send_finish :: "'d IR_DEV_NODE_T \<Rightarrow> ('d IR_DEV_NODE_T) option" where
  "tdl_ir_send_finish n = do {
     (_, n) \<leftarrow> status_notif (n\<lparr>send_status := IR_STA_SEND_FINISH\<rparr>) IR_DRV_SEND_FINISH_STATE;
     Some (n\<lparr>send_info := (send_info n)\<lparr>send_idx := 0, send_len := 0, send_cnt := 0,
        send_sem := map_option Suc (send_sem (send_info n))\<rparr>\<rparr>) }"

definition output_finish_node :: "'d IR_DEV_NODE_T \<Rightarrow> (OPERATE_RET \<times> 'd IR_DEV_NODE_T) option" where
  "output_finish_node n =
     (case drv_output (drv_intfs n) of
        None \<Rightarrow> do { n \<leftarrow> tdl_ir_send_finish n; Some (OPRT_INVALID_PARM, n) }
      | Some output \<Rightarrow>
          (let si = send_info n in
           if send_idx si \<ge> send_len si \<and> send_cnt si = 0
           then do { n \<leftarrow> tdl_ir_send_finish n; Some (OPRT_OK, n) }
           else do {
             let si = (if send_idx si \<ge> send_len si then si\<lparr>send_idx := 0, send_cnt := send_cnt si - 1\<rparr> else si);
             buf \<leftarrow> send_data si;
             timeout_us \<leftarrow> rd buf (send_idx si);
             let is_active = (send_idx si mod 2 = 0);
             let n = n\<lparr>send_info := si\<lparr>send_idx := cut32 (send_idx si + 1)\<rparr>\<rparr>;
             let (op_ret, d) = output (ir_drv_hdl n) (send_freq si) is_active timeout_us;
             let n = n\<lparr>ir_drv_hdl := d\<rparr>;
             if op_ret \<noteq> OPRT_OK
             then do { n \<leftarrow> tdl_ir_send_finish n; Some (op_ret, n) }
             else Some (op_ret, n) }))"

definition tdl_ir_output_finish_cb ::
  "'d IR_DEV_NODE_T option \<Rightarrow> (OPERATE_RET \<times> 'd IR_DEV_NODE_T option) option" where
  "tdl_ir_output_finish_cb args =
     (case args of
        None \<Rightarrow> Some (OPRT_INVALID_PARM, None)
      | Some n \<Rightarrow> do { (r, n) \<leftarrow> output_finish_node n; Some (r, Some n) })"

text \<open>
  \<^verbatim>\<open>tdl_ir_dev_send\<close> in two parts: up to the wait on the finish semaphore, during which the
  completion interrupts run, and from the result of that wait on. The first part either returns
  (\<^term>\<open>Inl\<close>) or waits (\<^term>\<open>Inr\<close>).
\<close>

definition tdl_ir_dev_send_begin ::
  "bool \<Rightarrow> 'd IR_DEV_NODE_T option \<Rightarrow> u32 \<Rightarrow> IR_DATA_U \<Rightarrow> u8
     \<Rightarrow> (OPERATE_RET \<times> 'd IR_DEV_NODE_T option + 'd IR_DEV_NODE_T) option" where
  "tdl_ir_dev_send_begin malloc_ok handle freq ir_data cnt =
     (case handle of
        None \<Rightarrow> Some (Inl (OPRT_INVALID_PARM, None))
      | Some n \<Rightarrow>
        if ir_mode (ir_dev_cfg n) = IR_MODE_RECV_ONLY then Some (Inl (OPRT_NOT_SUPPORTED, Some n))
        else if send_status n \<noteq> IR_STA_SEND_IDLE \<or> recv_status n = IR_STA_RECVING \<or> \<not> is_open n
        then Some (Inl (OPRT_SEND_ERR, Some n))
        else do {
          built \<leftarrow>
            (if prot_opt (ir_dev_cfg n) = IR_PROT_TIMECODE then
               (case ir_data of
                  Timecode len data \<Rightarrow> Some (Inr (data, len, n))
                | Nec_data _ \<Rightarrow> None)
             else if prot_opt (ir_dev_cfg n) = IR_PROT_NEC then
               (case ir_data of
                  Nec_data d \<Rightarrow> do {
                    (op_ret, tc) \<leftarrow> tdl_ir_nec_build malloc_ok (is_nec_msb (nec_cfg (ir_dev_cfg n)) \<noteq> 0) d;
                    if op_ret \<noteq> OPRT_OK
                    then Some (Inl (OPRT_SEND_ERR, Some (n\<lparr>send_status := IR_STA_SEND_IDLE\<rparr>)))
                    else do { tc \<leftarrow> tc; Some (Inr (Some (tc_data tc), tc_len tc, n\<lparr>send_status := IR_STA_SEND_BUILD\<rparr>)) } }
                | Timecode _ _ \<Rightarrow> None)
             else Some (Inl (OPRT_NOT_SUPPORTED, Some n)));
          case built of
            Inl r \<Rightarrow> Some (Inl r)
          | Inr (buf, len, n) \<Rightarrow> do {
              let n = n\<lparr>send_info := (send_info n)\<lparr>send_data := buf, send_len := len, send_freq := freq,
                         send_cnt := of_int (uint cnt - 1), send_idx := 0\<rparr>\<rparr>;
              if buf = None then Some (Inl (OPRT_INVALID_PARM, Some n))
              else if drv_status_notif (drv_intfs n) = None
              then Some (Inl (OPRT_COM_ERROR, Some (n\<lparr>send_status := IR_STA_SEND_IDLE\<rparr>)))
              else do {
                (op_ret, n) \<leftarrow> status_notif (n\<lparr>send_status := IR_STA_SENDING\<rparr>) IR_DRV_PRE_SEND_STATE;
                if op_ret \<noteq> OPRT_OK then Some (Inl (op_ret, Some n)) else Some (Inr n) } } })"

definition tdl_ir_dev_send_end ::
  "OPERATE_RET \<Rightarrow> 'd IR_DEV_NODE_T \<Rightarrow> (OPERATE_RET \<times> 'd IR_DEV_NODE_T) option" where
  "tdl_ir_dev_send_end wait_ret n = do {
     n \<leftarrow> (if wait_ret \<noteq> OPRT_OK then do {
              (_, n) \<leftarrow> status_notif n IR_DRV_SEND_FINISH_STATE;
              Some (n\<lparr>send_info := (send_info n)\<lparr>send_idx := 0, send_len := 0, send_cnt := 0\<rparr>\<rparr>) }
            else Some n);
     Some (wait_ret, n\<lparr>send_status := IR_STA_SEND_IDLE\<rparr>) }"

section \<open>The device list is a registry\<close>

definition ir_registered :: "string \<Rightarrow> 'd ir_sys \<Rightarrow> 'd ir_sys \<Rightarrow> bool" where
  "ir_registered nm s s' \<longleftrightarrow> (\<exists>m d i. tdl_ir_dev_register m s (Some nm) d i = (OPRT_OK, s'))"

interpretation ir_registry: device_registry "\<lambda>s. map node_name (ir_nodes s)"
  "\<lambda>s nm. static_tdl_ir_dev_find s (Some nm)" "\<lambda>nm. length nm < 256" ir_registered
proof unfold_locales
  fix s :: "'d ir_sys" and nm
  show "static_tdl_ir_dev_find s (Some nm) = find_index ((=) nm) (map node_name (ir_nodes s))"
    by (simp add: static_tdl_ir_dev_find_def find_index_map comp_def)
next
  fix nm and s s' :: "'d ir_sys"
  assume reg: "ir_registered nm s s'" and len: "length nm < 256"
  then obtain m d i where r: "static_tdl_ir_dev_register m s nm d i = (OPRT_OK, s')"
    by (auto simp: ir_registered_def tdl_ir_dev_register_def split: option.splits if_splits)
  then have "find_index (\<lambda>n. nm = node_name n) (ir_nodes s) = None"
    and "s' = s\<lparr>ir_nodes := ir_nodes s @ [new_node (take (length nm) nm) d i]\<rparr>"
    using len by (auto simp: static_tdl_ir_dev_register_def static_tdl_ir_dev_find_def Let_def split: if_splits)
  then show "nm \<notin> set (map node_name (ir_nodes s)) \<and> map node_name (ir_nodes s') = map node_name (ir_nodes s) @ [nm]"
    by (auto simp: find_index_None new_node_def)
qed

section \<open>The send path emits the pulse train\<close>

text \<open>
  What is still to be sent: the rest of the current round and the rounds that follow. A pulse is
  whether the carrier is on, and its duration.
\<close>

definition pulses :: "u32 list \<Rightarrow> (bool \<times> u32) list" where
  "pulses buf = map (\<lambda>i. (even i, buf ! i)) [0..<length buf]"

definition send_round :: "IR_DEV_SEND_T \<Rightarrow> (bool \<times> u32) list" where
  "send_round si = (case send_data si of None \<Rightarrow> [] | Some buf \<Rightarrow> pulses (take (send_len si) buf))"

definition send_remaining :: "IR_DEV_SEND_T \<Rightarrow> (bool \<times> u32) list" where
  "send_remaining si = drop (send_idx si) (send_round si) @ concat (replicate (unat (send_cnt si)) (send_round si))"

definition send_inv :: "IR_DEV_SEND_T \<Rightarrow> bool" where
  "send_inv si \<longleftrightarrow> (\<exists>buf. send_data si = Some buf \<and> 0 < send_len si \<and> send_len si \<le> length buf \<and>
     send_len si < 65536 \<and> send_idx si \<le> send_len si)"

lemma length_pulses [simp]: "length (pulses buf) = length buf"
  by (simp add: pulses_def)

lemma pulses_nth: "i < length buf \<Longrightarrow> pulses buf ! i = (even i, buf ! i)"
  by (simp add: pulses_def)

lemma length_send_round: "send_inv si \<Longrightarrow> length (send_round si) = send_len si"
  by (auto simp: send_inv_def send_round_def)

lemma send_round_nth:
  "send_data si = Some buf \<Longrightarrow> i < send_len si \<Longrightarrow> send_len si \<le> length buf \<Longrightarrow>
    send_round si ! i = (even i, buf ! i)"
  by (simp add: send_round_def pulses_nth)

lemma send_remaining_Nil:
  assumes "send_inv si"
  shows "send_remaining si = [] \<longleftrightarrow> send_len si \<le> send_idx si \<and> send_cnt si = 0"
  using assms length_send_round [OF assms]
  by (auto simp: send_remaining_def send_inv_def unat_eq_0)

lemma send_remaining_restart:
  assumes "send_inv si" and "send_len si \<le> send_idx si" and "send_cnt si \<noteq> 0"
  shows "send_remaining (si\<lparr>send_idx := 0, send_cnt := send_cnt si - 1\<rparr>) = send_remaining si"
    and "send_inv (si\<lparr>send_idx := 0, send_cnt := send_cnt si - 1\<rparr>)"
proof -
  have "unat (send_cnt si) = Suc (unat (send_cnt si - 1))"
    using assms(3) unat_minus_one [OF assms(3)] by (simp add: unat_gt_0)
  moreover have "send_round (si\<lparr>send_idx := 0, send_cnt := c\<rparr>) = send_round si" for c
    by (simp add: send_round_def split: option.splits)
  ultimately show "send_remaining (si\<lparr>send_idx := 0, send_cnt := send_cnt si - 1\<rparr>) = send_remaining si"
    using assms length_send_round [OF assms(1)] by (simp add: send_remaining_def)
  show "send_inv (si\<lparr>send_idx := 0, send_cnt := send_cnt si - 1\<rparr>)"
    using assms(1) by (auto simp: send_inv_def)
qed

lemma send_remaining_advance:
  assumes "send_inv si" and "send_idx si < send_len si" and "send_data si = Some buf"
  shows "send_remaining si =
      (even (send_idx si), buf ! send_idx si) # send_remaining (si\<lparr>send_idx := cut32 (send_idx si + 1)\<rparr>)"
    and "send_inv (si\<lparr>send_idx := cut32 (send_idx si + 1)\<rparr>)"
proof -
  have l: "send_idx si < length (send_round si)" using assms length_send_round by simp
  have "send_round si ! send_idx si = (even (send_idx si), buf ! send_idx si)"
    by (rule send_round_nth) (use assms in \<open>auto simp: send_inv_def\<close>)
  moreover have "send_round (si\<lparr>send_idx := i\<rparr>) = send_round si" for i
    by (simp add: send_round_def split: option.splits)
  moreover have "cut32 (send_idx si + 1) = Suc (send_idx si)"
    using assms by (auto simp: send_inv_def)
  ultimately show "send_remaining si =
      (even (send_idx si), buf ! send_idx si) # send_remaining (si\<lparr>send_idx := cut32 (send_idx si + 1)\<rparr>)"
    using l by (simp add: send_remaining_def Cons_nth_drop_Suc [symmetric])
  show "send_inv (si\<lparr>send_idx := cut32 (send_idx si + 1)\<rparr>)"
    using assms by (auto simp: send_inv_def)
qed

text \<open>One completion interrupt: the next pulse goes out, or the transmission ends.\<close>

lemma output_finish_node_emit:
  assumes inv: "send_inv (send_info n)" and out: "drv_output (drv_intfs n) = Some output"
    and rem: "send_remaining (send_info n) = (a, t) # rest"
    and ok: "output (ir_drv_hdl n) (send_freq (send_info n)) a t = (OPRT_OK, d)"
  shows "\<exists>si. output_finish_node n = Some (OPRT_OK, n\<lparr>send_info := si, ir_drv_hdl := d\<rparr>) \<and>
    send_inv si \<and> send_remaining si = rest \<and> send_freq si = send_freq (send_info n) \<and>
    send_sem si = send_sem (send_info n)"
proof -
  let ?si = "send_info n"
  obtain buf where buf: "send_data ?si = Some buf" "send_len ?si \<le> length buf"
    using inv by (auto simp: send_inv_def)
  define si where "si = (if send_idx ?si \<ge> send_len ?si
    then ?si\<lparr>send_idx := 0, send_cnt := send_cnt ?si - 1\<rparr> else ?si)"
  have not_end: "\<not> (send_idx ?si \<ge> send_len ?si \<and> send_cnt ?si = 0)"
    using rem send_remaining_Nil [OF inv] by auto
  then have si: "send_inv si" "send_remaining si = (a, t) # rest"
    using send_remaining_restart [OF inv] inv rem by (auto simp: si_def)
  have same: "send_data si = Some buf" "send_freq si = send_freq ?si" "send_sem si = send_sem ?si"
    "send_len si = send_len ?si"
    using buf by (auto simp: si_def)
  have lt: "send_idx si < send_len si"
    using si(1) inv by (auto simp: si_def send_inv_def)
  from send_remaining_advance [OF si(1) lt same(1)] si(2)
  have at: "a = even (send_idx si)" "t = buf ! send_idx si"
    and rest: "send_remaining (si\<lparr>send_idx := cut32 (send_idx si + 1)\<rparr>) = rest"
    and inv': "send_inv (si\<lparr>send_idx := cut32 (send_idx si + 1)\<rparr>)" by auto
  have "rd buf (send_idx si) = Some t"
    using lt buf at same by (simp add: mem_simps)
  moreover have "even (send_idx si) = (send_idx si mod 2 = 0)" by presburger
  ultimately have "output_finish_node n
      = Some (OPRT_OK, n\<lparr>send_info := si\<lparr>send_idx := cut32 (send_idx si + 1)\<rparr>, ir_drv_hdl := d\<rparr>)"
    using out not_end ok at same
    unfolding output_finish_node_def Let_def si_def [symmetric] by (auto simp: Let_def)
  with rest inv' same show ?thesis by auto
qed

lemma output_finish_node_done:
  assumes "send_inv (send_info n)" and "drv_output (drv_intfs n) = Some output"
    and "send_remaining (send_info n) = []"
  shows "output_finish_node n = do { n \<leftarrow> tdl_ir_send_finish n; Some (OPRT_OK, n) }"
  using assms send_remaining_Nil [OF assms(1)] by (simp add: output_finish_node_def)

text \<open>
  A number of completion interrupts in a row. \<open>irq\<close> is what the interrupt routine of the driver does
  before it calls back.
\<close>

fun run_interrupts :: "('d \<Rightarrow> 'd) \<Rightarrow> nat \<Rightarrow> 'd IR_DEV_NODE_T \<Rightarrow> ('d IR_DEV_NODE_T) option" where
  "run_interrupts irq 0 n = Some n"
| "run_interrupts irq (Suc k) n = do {
     (_, n) \<leftarrow> output_finish_node (n\<lparr>ir_drv_hdl := irq (ir_drv_hdl n)\<rparr>);
     run_interrupts irq k n }"

lemma run_interrupts_add:
  "run_interrupts irq (j + k) n = do { n \<leftarrow> run_interrupts irq j n; run_interrupts irq k n }"
  by (induction j arbitrary: n) (auto split: bind_splits)

text \<open>
  What the manager relies on in a driver while it sends: an output of an acceptable pulse succeeds
  and leaves the driver ready for the next, and so does its interrupt routine.
\<close>

locale ir_driver =
  fixes out :: "'d \<Rightarrow> u32 \<Rightarrow> bool \<Rightarrow> u32 \<Rightarrow> OPERATE_RET \<times> 'd"
    and notif :: "'d \<Rightarrow> IR_DRIVER_STATE_E \<Rightarrow> OPERATE_RET \<times> 'd"
    and irq :: "'d \<Rightarrow> 'd"
    and ready :: "'d \<Rightarrow> bool"
    and accepts :: "bool \<Rightarrow> u32 \<Rightarrow> bool"
  assumes out_ok: "ready d \<Longrightarrow> accepts a t \<Longrightarrow> fst (out d f a t) = OPRT_OK"
    and out_ready: "ready d \<Longrightarrow> accepts a t \<Longrightarrow> ready (snd (out d f a t))"
    and irq_ready: "ready d \<Longrightarrow> ready (irq d)"
begin

definition emit :: "u32 \<Rightarrow> (bool \<times> u32) list \<Rightarrow> 'd \<Rightarrow> 'd" where
  "emit f ps = fold (\<lambda>(a, t) d. snd (out (irq d) f a t)) ps"

lemma transmit:
  assumes "drv_output (drv_intfs n) = Some out"
    and "send_inv (send_info n)" and "ready (ir_drv_hdl n)"
    and "send_remaining (send_info n) = ps" and "\<forall>(a, t) \<in> set ps. accepts a t"
  shows "\<exists>si. run_interrupts irq (length ps) n
      = Some (n\<lparr>send_info := si, ir_drv_hdl := emit (send_freq (send_info n)) ps (ir_drv_hdl n)\<rparr>) \<and>
    send_inv si \<and> send_remaining si = [] \<and> send_sem si = send_sem (send_info n)"
  using assms
proof (induction ps arbitrary: n)
  case Nil
  then show ?case by (auto simp: emit_def intro!: exI [of _ "send_info n"])
next
  case (Cons p ps)
  obtain a t where p: "p = (a, t)" by force
  let ?f = "send_freq (send_info n)" and ?d = "irq (ir_drv_hdl n)"
  let ?m = "n\<lparr>ir_drv_hdl := ?d\<rparr>"
  have acc: "accepts a t" using Cons.prems(5) p by auto
  have rdy: "ready ?d" by (rule irq_ready [OF Cons.prems(3)])
  have ok: "out (ir_drv_hdl ?m) (send_freq (send_info ?m)) a t = (OPRT_OK, snd (out ?d ?f a t))"
    using out_ok [OF rdy acc] by (simp add: prod_eq_iff)
  obtain si where si: "output_finish_node ?m = Some (OPRT_OK, ?m\<lparr>send_info := si, ir_drv_hdl := snd (out ?d ?f a t)\<rparr>)"
    "send_inv si" "send_remaining si = ps" "send_freq si = ?f" "send_sem si = send_sem (send_info n)"
    using output_finish_node_emit [of ?m out a t ps "snd (out ?d ?f a t)"] ok Cons.prems p by auto
  let ?n = "n\<lparr>send_info := si, ir_drv_hdl := snd (out ?d ?f a t)\<rparr>"
  have "\<exists>si'. run_interrupts irq (length ps) ?n
      = Some (?n\<lparr>send_info := si', ir_drv_hdl := emit (send_freq (send_info ?n)) ps (ir_drv_hdl ?n)\<rparr>) \<and>
    send_inv si' \<and> send_remaining si' = [] \<and> send_sem si' = send_sem (send_info ?n)"
    by (rule Cons.IH) (use Cons.prems si out_ready [OF rdy acc] in auto)
  with si p show ?case by (auto simp: emit_def)
qed

text \<open>The interrupt after the last pulse ends the transmission and posts the semaphore once.\<close>

lemma transmit_and_finish:
  assumes "drv_output (drv_intfs n) = Some out" and "drv_status_notif (drv_intfs n) = Some notif"
    and "send_inv (send_info n)" and "ready (ir_drv_hdl n)"
    and "send_remaining (send_info n) = ps" and "\<forall>(a, t) \<in> set ps. accepts a t"
  shows "\<exists>n'. run_interrupts irq (length ps + 1) n = Some n' \<and> send_status n' = IR_STA_SEND_FINISH \<and>
    ir_drv_hdl n' = snd (notif (irq (emit (send_freq (send_info n)) ps (ir_drv_hdl n))) IR_DRV_SEND_FINISH_STATE) \<and>
    send_sem (send_info n') = map_option Suc (send_sem (send_info n)) \<and>
    send_len (send_info n') = 0 \<and> send_idx (send_info n') = 0 \<and> send_cnt (send_info n') = 0"
proof -
  let ?d = "emit (send_freq (send_info n)) ps (ir_drv_hdl n)"
  obtain si where si: "run_interrupts irq (length ps) n = Some (n\<lparr>send_info := si, ir_drv_hdl := ?d\<rparr>)"
    "send_inv si" "send_remaining si = []" "send_sem si = send_sem (send_info n)"
    using transmit [OF assms(1,3-6)] by blast
  have "output_finish_node (n\<lparr>send_info := si, ir_drv_hdl := irq ?d\<rparr>) =
      do { n \<leftarrow> tdl_ir_send_finish (n\<lparr>send_info := si, ir_drv_hdl := irq ?d\<rparr>); Some (OPRT_OK, n) }"
    by (rule output_finish_node_done) (use assms(1) si in auto)
  then have "run_interrupts irq (length ps + 1) n =
      tdl_ir_send_finish (n\<lparr>send_info := si, ir_drv_hdl := irq ?d\<rparr>)"
    using run_interrupts_add [of irq "length ps" 1 n] si(1) by (simp split: bind_splits)
  with si assms(2) show ?thesis
    by (auto simp: tdl_ir_send_finish_def status_notif_def split: prod.splits)
qed

end

section \<open>Registration\<close>

text \<open>A device that was registered under a name is found under that name at the end of the list,
  every other lookup gives what it gave before, and the name was not taken.\<close>

theorem ir_register_then_find:
  assumes reg: "tdl_ir_dev_register m s (Some nm) d i = (OPRT_OK, s')" and len: "length nm < 256"
  shows "tdl_ir_dev_find s (Some nm) = (OPRT_COM_ERROR, None) \<and>
    tdl_ir_dev_find s' (Some nm) = (OPRT_OK, Some (length (ir_nodes s))) \<and>
    (\<forall>x. x \<noteq> nm \<longrightarrow> tdl_ir_dev_find s' (Some x) = tdl_ir_dev_find s (Some x))"
proof -
  have r: "ir_registered nm s s'" using reg by (auto simp: ir_registered_def)
  have "static_tdl_ir_dev_find s (Some nm) = None"
    using ir_registry.register [OF r len] by (auto simp: ir_registry.lookup find_index_None)
  moreover have "static_tdl_ir_dev_find s' (Some nm) = Some (length (ir_nodes s))"
    using ir_registry.lookup_registered [OF r len] by simp
  moreover have "static_tdl_ir_dev_find s' (Some x) = static_tdl_ir_dev_find s (Some x)" if "x \<noteq> nm" for x
    using ir_registry.lookup_others [OF r len, of x] ir_registry.lookup_unknown [OF r len that]
    by (cases "static_tdl_ir_dev_find s (Some x)") simp_all
  ultimately show ?thesis by (simp add: tdl_ir_dev_find_def)
qed

definition example_intfs :: "unit TDD_IR_INTFS_T" where
  "example_intfs = \<lparr>drv_open = Some (\<lambda>d _. (OPRT_OK, d)), drv_close = Some (\<lambda>d _. (OPRT_OK, d)),
     drv_output = Some (\<lambda>d _ _ _. (OPRT_OK, d)), drv_status_notif = Some (\<lambda>d _. (OPRT_OK, d))\<rparr>"

definition empty_sys :: "'d ir_sys" where
  "empty_sys = \<lparr>recv_dev_num = 0, recv_dev_run_num = 0, ir_nodes = [], dev_recv_thrd = False, dev_notif_queue = None,
     last_total_len = 0, last_repeat = -1, lp_calls = [], app_calls = []\<rparr>"

theorem ir_register_then_find_witness:
  "tdl_ir_dev_find (snd (tdl_ir_dev_register True empty_sys (Some ''ir0'') () (Some example_intfs))) (Some ''ir0'')
    = (OPRT_OK, Some 0)"
proof -
  let ?r = "tdl_ir_dev_register True empty_sys (Some ''ir0'') () (Some example_intfs)"
  have "?r = (OPRT_OK, snd ?r)"
    by (simp add: tdl_ir_dev_register_def static_tdl_ir_dev_register_def static_tdl_ir_dev_find_def
        example_intfs_def empty_sys_def)
  from ir_register_then_find [OF this] show ?thesis by (simp add: empty_sys_def)
qed

end
