(* ===== verification/IR_Recv.thy ===== *)
theory IR_Recv
  imports IR_Dev
begin

text \<open>
  The receive side of the infrared device manager, \<^verbatim>\<open>tdl_ir_dev_manage.c\<close> lines 382 to 863 and 918
  to 1417: the edge interrupt that fills the ring, the receive task with its two decoders, and the
  operations that open, close, read and configure a device. The task and the interrupt interleave:
  an interrupt may come between any two steps of the task (a step ends where the task sleeps, waits
  or tests the status again).
\<close>

section \<open>Receive buffers\<close>

definition zero_nec :: IR_DATA_NEC_T where
  "zero_nec = \<lparr>nec_addr = 0, nec_cmd = 0, nec_repeat_cnt = 0\<rparr>"

definition tdl_ir_recv_buf_malloc :: "bool \<Rightarrow> nat \<Rightarrow> nat \<Rightarrow> IR_DATA_U option" where
  "tdl_ir_recv_buf_malloc malloc_ok protocol_type data_size =
     (if IR_PROT_MAX \<le> protocol_type then None
      else if \<not> malloc_ok then None
      else Some (if protocol_type = IR_PROT_TIMECODE then Timecode 0 (Some (replicate (data_size div 4) 0))
                 else Nec_data zero_nec))"

text \<open>A post of the operating system's queue that returned \<open>r\<close>.\<close>

definition queue_post :: "OPERATE_RET \<Rightarrow> 'a \<Rightarrow> 'a list option \<Rightarrow> 'a list option" where
  "queue_post r x q = (if r = OPRT_OK then map_option (\<lambda>xs. xs @ [x]) q else q)"

text \<open>The tolerance block behind the pointer of the node; a freed block may not be read.\<close>

definition err_val_ptr :: "'d IR_DEV_NODE_T \<Rightarrow> NEC_ERR_VAL_T option option" where
  "err_val_ptr n =
     (case recv_err_val (recv_info n) of
        None \<Rightarrow> Some None
      | Some (v, live) \<Rightarrow> if live then Some (Some v) else None)"

definition ring_clear :: "IR_RING_BUF_T \<Rightarrow> IR_RING_BUF_T" where
  "ring_clear rb = rb\<lparr>read_idx := write_idx rb\<rparr>"

definition put_queue :: "'d IR_DEV_NODE_T \<Rightarrow> IR_DATA_U list option \<Rightarrow> 'd IR_DEV_NODE_T" where
  "put_queue n q = n\<lparr>recv_info := (recv_info n)\<lparr>recv_queue := q\<rparr>\<rparr>"

section \<open>The edge interrupt\<close>

text \<open>\<open>lp\<close> is what \<^verbatim>\<open>tal_cpu_get_lp_mode\<close> returns, \<open>now\<close> the clock, \<open>post\<close> the result of the queue post.\<close>

definition abs_raw :: "u32 \<Rightarrow> u32 option" where
  "abs_raw raw_data =
     (if raw_data = 0x80000000 then None
      else Some (if 0 <s raw_data then raw_data else - raw_data))"

definition tdl_ir_recv_cb ::
  "bool \<Rightarrow> u32 \<Rightarrow> OPERATE_RET \<Rightarrow> 'd ir_sys \<Rightarrow> u32 \<Rightarrow> nat option \<Rightarrow> (int \<times> 'd ir_sys) option" where
  "tdl_ir_recv_cb lp now post s raw_data args =
     (case args of
        None \<Rightarrow> Some (0, s)
      | Some h \<Rightarrow> do {
          raw_data \<leftarrow> abs_raw raw_data;
          n \<leftarrow> get_node s h;
          let n = n\<lparr>recv_info := (recv_info n)\<lparr>last_time := now\<rparr>\<rparr>;
          rb \<leftarrow> ring_buf (recv_info n);
          full \<leftarrow> RING_BUFFER_IS_FULL rb;
          if full then
            (if recv_status n = IR_STA_RECVING then do {
               (_, n) \<leftarrow> status_notif (n\<lparr>recv_status := IR_STA_RECV_OVERFLOW\<rparr>) IR_DRV_RECV_FINISH_STATE;
               Some (0, set_node s h n) }
             else Some (0, set_node s h n))
          else if recv_status n = IR_STA_RECV_IDLE then do {
            (_, n) \<leftarrow> status_notif (n\<lparr>recv_status := IR_STA_RECVING\<rparr>) IR_DRV_PRE_RECV_STATE;
            let s = (if lp then s\<lparr>lp_calls := lp_calls s @ [False]\<rparr> else s);
            Some (0, (set_node s h n)\<lparr>dev_notif_queue := queue_post post h (dev_notif_queue s)\<rparr>) }
          else if recv_status n = IR_STA_RECVING then do {
            rb \<leftarrow> tdl_ir_ring_buf_write_word rb raw_data;
            Some (0, set_node s h (put_ring n (Some rb))) }
          else Some (0, set_node s h n) })"

section \<open>The decoder that runs when a reception has ended\<close>

text \<open>
  The operating system in one call: whether the copy of the ring and the \<open>k\<close>-th payload can be
  allocated, and what the \<open>k\<close>-th post returns.
\<close>

record recv_env =
  tmp_malloc :: bool
  out_malloc :: "nat \<Rightarrow> bool"
  post_ret :: "nat \<Rightarrow> OPERATE_RET"

partial_function (option) nec_process_loop ::
  "recv_env \<Rightarrow> u32 list \<Rightarrow> nat \<Rightarrow> NEC_ERR_VAL_T option \<Rightarrow> bool \<Rightarrow> nat \<Rightarrow> nat \<Rightarrow> IR_DATA_U list option
     \<Rightarrow> (OPERATE_RET \<times> IR_DATA_U list option) option" where
  "nec_process_loop env tmp_buf data_len ev msb k parser_offset q = do {
     let parser_len = cut16 (data_len + 65536 - parser_offset);
     (op_ret, parser_head) \<leftarrow> tdl_nec_get_frame_head (Some (drop parser_offset tmp_buf)) parser_len ev;
     if op_ret \<noteq> OPRT_OK then Some (op_ret, q)
     else (case tdl_ir_recv_buf_malloc (out_malloc env k) IR_PROT_NEC 0 of
       None \<Rightarrow> Some (OPRT_MALLOC_FAILED, q)
     | Some out_data \<Rightarrow> do {
         head \<leftarrow> parser_head;
         (ret_len, code) \<leftarrow> tdl_ir_nec_parser_single (Some (drop head tmp_buf)) parser_len (Some zero_nec) ev msb;
         let parser_offset = cut16 (parser_offset + ret_len);
         let (op_ret, q) =
           (if ret_len \<ge> 68
            then (post_ret env k,
                  case code of Some c \<Rightarrow> queue_post (post_ret env k) (Nec_data c) q | None \<Rightarrow> q)
            else (op_ret, q));
         if parser_offset + 68 \<le> data_len
         then nec_process_loop env tmp_buf data_len ev msb (k + 1) parser_offset q
         else Some (op_ret, q) }) }"

definition tdl_ir_recv_data_process ::
  "recv_env \<Rightarrow> 'd IR_DEV_NODE_T option \<Rightarrow> (OPERATE_RET \<times> 'd IR_DEV_NODE_T option) option" where
  "tdl_ir_recv_data_process env dev_info =
     (case dev_info of
        None \<Rightarrow> Some (OPRT_INVALID_PARM, None)
      | Some n \<Rightarrow> do {
          tmp_rb \<leftarrow> ring_buf (recv_info n);
          data_len \<leftarrow> RING_BUFFER_LENGTH_GET tmp_rb;
          let data_len = cut16 data_len;
          if prot_opt (ir_dev_cfg n) = IR_PROT_NEC then
            (if \<not> tmp_malloc env
             then Some (OPRT_MALLOC_FAILED, Some (put_ring n (Some (ring_clear tmp_rb))))
             else do {
               tmp_buf \<leftarrow> tdl_ir_ring_buf_read_no_update tmp_rb (Some (replicate data_len 0)) data_len;
               tmp_buf \<leftarrow> tmp_buf;
               ev \<leftarrow> err_val_ptr n;
               (op_ret, q) \<leftarrow> nec_process_loop env tmp_buf data_len ev
                  (is_nec_msb (nec_cfg (ir_dev_cfg n)) \<noteq> 0) 0 0 (recv_queue (recv_info n));
               Some (op_ret, Some (put_queue n q)) })
          else
            (case tdl_ir_recv_buf_malloc (out_malloc env 0) IR_PROT_TIMECODE (cut16 (data_len * 4)) of
               Some (Timecode _ dst) \<Rightarrow> do {
                 (rb, data) \<leftarrow> tdl_ir_ring_buf_read tmp_rb dst data_len;
                 let q = queue_post (post_ret env 0) (Timecode data_len data) (recv_queue (recv_info n));
                 Some (post_ret env 0, Some (put_queue (put_ring n (Some rb)) q)) }
             | _ \<Rightarrow> Some (OPRT_MALLOC_FAILED, Some n)) })"

section \<open>The decoder that runs while a reception goes on\<close>

text \<open>
  The locals of \<^verbatim>\<open>__tdl_ir_recv_data_process_sync\<close> that its loop changes, its two static variables,
  the ring, and the application callbacks it made.
\<close>

record sync_state =
  sy_offset :: nat
  sy_len :: nat
  sy_frame_len :: nat
  sy_ret :: OPERATE_RET
  sy_ring :: IR_RING_BUF_T
  sy_last_total :: nat
  sy_last_repeat :: int
  sy_calls :: "(bool \<times> IR_DATA_NEC_T) list"

text \<open>After one decoded frame: look for the next leader and drop the frame from the ring.\<close>

definition sync_next_head ::
  "u32 list \<Rightarrow> NEC_ERR_VAL_T option \<Rightarrow> bool \<Rightarrow> sync_state \<Rightarrow> (bool \<times> sync_state) option" where
  "sync_next_head recv_data ev finished st =
     (if sy_len st > 4 then do {
        (op_ret, head) \<leftarrow> tdl_nec_get_frame_head (Some (drop (sy_offset st) recv_data)) (sy_len st) ev;
        (if op_ret = OPRT_OK then do {
           head \<leftarrow> head;
           rb \<leftarrow> tdl_ir_ring_buf_data_discard (sy_ring st) (sy_frame_len st);
           Some (True, st\<lparr>sy_ret := op_ret, sy_offset := cut16 (sy_offset st + head),
             sy_len := cut16 (sy_len st + 65536 - head), sy_ring := rb, sy_frame_len := head\<rparr>) }
         else Some (False, st\<lparr>sy_ret := op_ret\<rparr>)) }
      else Some (finished, st))"

text \<open>The application hears of a frame when its repeat count is new or when the frame has ended.\<close>

definition sync_report :: "bool \<Rightarrow> nat \<Rightarrow> IR_DATA_NEC_T \<Rightarrow> bool \<Rightarrow> sync_state \<Rightarrow> sync_state option" where
  "sync_report has_cb ret_len code is_frame_finish st = do {
     st \<leftarrow>
       (if ret_len \<ge> 66 \<and> sy_last_repeat st \<noteq> uint (nec_repeat_cnt code) \<or> is_frame_finish
        then if has_cb
          then Some (st\<lparr>sy_last_repeat := sint (nec_repeat_cnt code), sy_calls := sy_calls st @ [(is_frame_finish, code)]\<rparr>)
          else None
        else Some st);
     Some (if is_frame_finish then st\<lparr>sy_last_repeat := -1, sy_last_total := 0\<rparr> else st) }"

definition sync_round ::
  "u32 list \<Rightarrow> NEC_ERR_VAL_T option \<Rightarrow> bool \<Rightarrow> bool \<Rightarrow> bool \<Rightarrow> sync_state \<Rightarrow> sync_state option" where
  "sync_round recv_data ev msb finished has_cb st = do {
     (ret_len, code) \<leftarrow> tdl_ir_nec_parser_single (Some (drop (sy_offset st) recv_data)) (sy_len st)
        (Some zero_nec) ev msb;
     code \<leftarrow> code;
     (is_frame_finish, st) \<leftarrow> sync_next_head recv_data ev finished
       (st\<lparr>sy_offset := cut16 (sy_offset st + ret_len), sy_len := cut16 (sy_len st + 65536 - ret_len),
           sy_frame_len := cut16 (sy_frame_len st + ret_len)\<rparr>);
     sync_report has_cb ret_len code is_frame_finish st }"

partial_function (option) sync_loop ::
  "u32 list \<Rightarrow> NEC_ERR_VAL_T option \<Rightarrow> bool \<Rightarrow> bool \<Rightarrow> bool \<Rightarrow> sync_state \<Rightarrow> sync_state option" where
  "sync_loop recv_data ev msb finished has_cb st =
     (if 66 \<le> sy_len st then do {
        st \<leftarrow> sync_round recv_data ev msb finished has_cb st;
        sync_loop recv_data ev msb finished has_cb st }
      else Some st)"

text \<open>\<open>tmp_malloc\<close> is the allocation of the copy, \<open>out_malloc\<close> at 0 that of the payload.\<close>

definition tdl_ir_recv_data_process_sync ::
  "recv_env \<Rightarrow> 'd ir_sys \<Rightarrow> nat option \<Rightarrow> (OPERATE_RET \<times> 'd ir_sys) option" where
  "tdl_ir_recv_data_process_sync env s dev_info =
     (case dev_info of
        None \<Rightarrow> Some (OPRT_INVALID_PARM, s)
      | Some h \<Rightarrow> do {
          n \<leftarrow> get_node s h;
          recv_rb \<leftarrow> ring_buf (recv_info n);
          total_len \<leftarrow> RING_BUFFER_LENGTH_GET recv_rb;
          let total_len = cut16 total_len;
          if (total_len < 66 \<or> last_total_len s + 3 > total_len) \<and> recv_status n = IR_STA_RECVING
          then Some (OPRT_COM_ERROR, s)
          else if prot_opt (ir_dev_cfg n) \<noteq> IR_PROT_NEC then Some (OPRT_OK, s)
          else if \<not> tmp_malloc env
          then Some (OPRT_MALLOC_FAILED,
                (set_node s h (put_ring n (Some (ring_clear recv_rb))))\<lparr>last_repeat := -1, last_total_len := 0\<rparr>)
          else do {
            recv_data \<leftarrow> tdl_ir_ring_buf_read_no_update recv_rb (Some (replicate total_len 0)) total_len;
            recv_data \<leftarrow> recv_data;
            ev \<leftarrow> err_val_ptr n;
            (op_ret, head) \<leftarrow> tdl_nec_get_frame_head (Some recv_data) total_len ev;
            if op_ret \<noteq> OPRT_OK then do {
              rb \<leftarrow> tdl_ir_ring_buf_data_discard recv_rb total_len;
              Some (OPRT_COM_ERROR,
                (set_node s h (put_ring n (Some rb)))\<lparr>last_repeat := -1, last_total_len := 0\<rparr>) }
            else if \<not> out_malloc env 0
            then Some (OPRT_MALLOC_FAILED, s\<lparr>last_total_len := total_len\<rparr>)
            else do {
              head \<leftarrow> head;
              st \<leftarrow> sync_loop recv_data ev (is_nec_msb (nec_cfg (ir_dev_cfg n)) \<noteq> 0)
                (recv_status n = IR_STA_RECV_FINISH) (app_recv_cb (recv_info n))
                \<lparr>sy_offset = head, sy_len = cut16 (total_len + 65536 - head), sy_frame_len = head, sy_ret = op_ret,
                 sy_ring = recv_rb, sy_last_total = total_len, sy_last_repeat = last_repeat s, sy_calls = []\<rparr>;
              Some (sy_ret st,
                (set_node s h (put_ring n (Some (sy_ring st))))\<lparr>
                  last_total_len := sy_last_total st, last_repeat := sy_last_repeat st,
                  app_calls := app_calls s @ map (\<lambda>(f, c). (h, f, c)) (sy_calls st)\<rparr>) } } })"

section \<open>The receive task\<close>

text \<open>
  Where the task is: at the head of its loop with the last fetched node, before the test of the
  status of a node, asleep in the polling loop, or ended.
\<close>

datatype task_pc = Fetching "nat option" | Testing nat | Sleeping nat | Ended

text \<open>What a step of the task meets: the clock, the low-power mode, the fetch and the allocations.\<close>

record task_env =
  te_now :: u32
  te_lp :: bool
  te_fetch_ok :: bool
  te_recv :: recv_env

definition tdl_ir_recv_task_exit :: "'d ir_sys \<Rightarrow> 'd ir_sys" where
  "tdl_ir_recv_task_exit s = s\<lparr>dev_notif_queue := None, dev_recv_thrd := False\<rparr>"

definition tdl_ir_recv_task_dispatch :: "nat option \<Rightarrow> 'd ir_sys \<Rightarrow> (task_pc \<times> 'd ir_sys) option" where
  "tdl_ir_recv_task_dispatch dev_node s =
     (case dev_node of
        None \<Rightarrow> Some (Fetching None, s)
      | Some h \<Rightarrow> do {
          n \<leftarrow> get_node s h;
          Some (if recv_status n = IR_STA_RECV_IDLE then Fetching (Some h) else Testing h, s) })"

text \<open>The fetch waits while the queue is empty: the task then stays where it is.\<close>

definition tdl_ir_recv_task_fetch :: "task_env \<Rightarrow> nat option \<Rightarrow> 'd ir_sys \<Rightarrow> (task_pc \<times> 'd ir_sys) option" where
  "tdl_ir_recv_task_fetch te dev_node s =
     (if recv_dev_run_num s = 0 then Some (Ended, tdl_ir_recv_task_exit s)
      else if \<not> te_fetch_ok te then tdl_ir_recv_task_dispatch dev_node s
      else (case dev_notif_queue s of
              Some (h # q) \<Rightarrow> tdl_ir_recv_task_dispatch (Some h) (s\<lparr>dev_notif_queue := Some q\<rparr>)
            | _ \<Rightarrow> Some (Fetching dev_node, s)))"

text \<open>The body of the polling loop after its sleep.\<close>

definition poll_status :: "u32 \<Rightarrow> u32 \<Rightarrow> IR_RECV_STATUS \<Rightarrow> IR_RECV_STATUS" where
  "poll_status cur_time last_tm st =
     (if cur_time > last_tm then
        (if cur_time - last_tm \<ge> IR_RECV_TIMEOUT_MS then IR_STA_RECV_FINISH else st)
      else if cur_time < last_tm \<and> last_tm - cur_time > OVERFLOW_TIME_MS then
        (if OVERFLOW_TIME_MS - last_tm + cur_time \<ge> IR_RECV_TIMEOUT_MS then IR_STA_RECV_FINISH else st)
      else st)"

definition tdl_ir_recv_task_poll :: "task_env \<Rightarrow> nat \<Rightarrow> 'd ir_sys \<Rightarrow> 'd ir_sys option" where
  "tdl_ir_recv_task_poll te h s = do {
     n \<leftarrow> get_node s h;
     let s = set_node s h (n\<lparr>recv_status := poll_status (te_now te) (last_time (recv_info n)) (recv_status n)\<rparr>);
     if app_recv_cb (recv_info n) then do {
       (_, s) \<leftarrow> tdl_ir_recv_data_process_sync (te_recv te) s (Some h);
       Some s }
     else Some s }"

text \<open>The pause after the last pulse is added where there is room, and the decoder runs.\<close>

definition add_tail :: "u32 \<Rightarrow> IR_RING_BUF_T \<Rightarrow> IR_RING_BUF_T option" where
  "add_tail t rb = do {
     full \<leftarrow> RING_BUFFER_IS_FULL rb;
     if full then Some rb else tdl_ir_ring_buf_write_word rb t }"

definition recv_finish_decode :: "recv_env \<Rightarrow> 'd IR_DEV_NODE_T \<Rightarrow> 'd IR_DEV_NODE_T option" where
  "recv_finish_decode env n = do {
     rb \<leftarrow> ring_buf (recv_info n);
     len \<leftarrow> RING_BUFFER_LENGTH_GET rb;
     if len \<ge> IR_RECV_VALID_LEN_MIN then do {
       rb \<leftarrow> add_tail (of_nat (recv_timeout (ir_dev_cfg n) * 1000)) rb;
       (_, n) \<leftarrow> tdl_ir_recv_data_process env (Some (put_ring n (Some rb)));
       n }
     else Some n }"

text \<open>After the polling loop: an overflow becomes a finish, and a finished reception is decoded.\<close>

definition tdl_ir_recv_task_finish :: "task_env \<Rightarrow> nat \<Rightarrow> 'd ir_sys \<Rightarrow> 'd ir_sys option" where
  "tdl_ir_recv_task_finish te h s = do {
     n \<leftarrow> get_node s h;
     let n = (if recv_status n = IR_STA_RECV_OVERFLOW then n\<lparr>recv_status := IR_STA_RECV_FINISH\<rparr> else n);
     if recv_status n = IR_STA_RECV_FINISH then do {
       n \<leftarrow>
         (if app_recv_cb (recv_info n) \<and> prot_opt (ir_dev_cfg n) = IR_PROT_NEC then Some n
          else recv_finish_decode (te_recv te) n);
       rb \<leftarrow> ring_buf (recv_info n);
       (_, n) \<leftarrow> status_notif ((put_ring n (Some (ring_clear rb)))\<lparr>recv_status := IR_STA_RECV_IDLE\<rparr>)
                   IR_DRV_RECV_FINISH_STATE;
       let s = set_node s h n;
       Some (if app_recv_cb (recv_info n) \<and> te_lp te then s\<lparr>lp_calls := lp_calls s @ [True]\<rparr> else s) }
     else Some (set_node s h n) }"

definition tdl_ir_recv_task ::
  "task_env \<Rightarrow> task_pc \<times> 'd ir_sys \<Rightarrow> (task_pc \<times> 'd ir_sys) option" where
  "tdl_ir_recv_task te st =
     (case st of
        (Fetching dev_node, s) \<Rightarrow> tdl_ir_recv_task_fetch te dev_node s
      | (Testing h, s) \<Rightarrow> do {
          n \<leftarrow> get_node s h;
          if recv_status n = IR_STA_RECVING then Some (Sleeping h, s)
          else do { s \<leftarrow> tdl_ir_recv_task_finish te h s; Some (Fetching (Some h), s) } }
      | (Sleeping h, s) \<Rightarrow> do { s \<leftarrow> tdl_ir_recv_task_poll te h s; Some (Testing h, s) }
      | (Ended, s) \<Rightarrow> Some (Ended, s))"

section \<open>Receive resources\<close>

definition tdl_ir_recv_deinit :: "'d ir_sys \<Rightarrow> nat option \<Rightarrow> (OPERATE_RET \<times> 'd ir_sys) option" where
  "tdl_ir_recv_deinit s ir_device =
     (case ir_device of
        None \<Rightarrow> Some (OPRT_INVALID_PARM, s)
      | Some h \<Rightarrow> do {
          n \<leftarrow> get_node s h;
          let run_num = (if recv_queue (recv_info n) \<noteq> None then cut16 (recv_dev_run_num s + 65535)
                         else recv_dev_run_num s);
          Some (OPRT_OK, (set_node s h (n\<lparr>recv_info := (recv_info n)\<lparr>ring_buf := None, recv_queue := None,
                             is_run := False\<rparr>\<rparr>))\<lparr>recv_dev_run_num := run_num\<rparr>) })"

text \<open>\<open>ring_malloc\<close>: the allocation of the ring, \<open>q_ret\<close>: what the creation of the queue returns.\<close>

definition tdl_ir_recv_init :: "bool \<Rightarrow> OPERATE_RET \<Rightarrow> 'd ir_sys \<Rightarrow> nat option \<Rightarrow> (OPERATE_RET \<times> 'd ir_sys) option" where
  "tdl_ir_recv_init ring_malloc q_ret s ir_device =
     (case ir_device of
        None \<Rightarrow> Some (OPRT_INVALID_PARM, s)
      | Some h \<Rightarrow> do {
          n \<leftarrow> get_node s h;
          if is_run (recv_info n) then Some (OPRT_OK, s)
          else
            let (op_ret, rb) =
                  (if ring_buf (recv_info n) = None
                   then tdl_ir_ring_buf_init ring_malloc (recv_buf_size (ir_dev_cfg n))
                   else (OPRT_NOT_SUPPORTED, ring_buf (recv_info n)));
                (op_ret, q) =
                  (if ring_buf (recv_info n) = None \<and> op_ret \<noteq> OPRT_OK then (op_ret, recv_queue (recv_info n))
                   else if recv_queue (recv_info n) = None
                   then (q_ret, if q_ret = OPRT_OK then Some [] else None)
                   else (op_ret, recv_queue (recv_info n)))
            in if op_ret \<noteq> OPRT_OK
               then Some (op_ret, set_node s h (n\<lparr>recv_info := (recv_info n)\<lparr>ring_buf := None, recv_queue := None\<rparr>\<rparr>))
               else Some (op_ret,
                 (set_node s h (n\<lparr>recv_info := (recv_info n)\<lparr>ring_buf := rb, recv_queue := q, is_run := True\<rparr>\<rparr>))
                   \<lparr>recv_dev_run_num := cut16 (recv_dev_run_num s + 1)\<rparr>) })"

record start_env =
  se_ring_malloc :: bool
  se_queue_ret :: OPERATE_RET
  se_notif_ret :: OPERATE_RET
  se_thread_ret :: OPERATE_RET

definition tdl_ir_recv_server_start :: "start_env \<Rightarrow> 'd ir_sys \<Rightarrow> nat option \<Rightarrow> (OPERATE_RET \<times> 'd ir_sys) option" where
  "tdl_ir_recv_server_start se s handle =
     (if handle = None then Some (OPRT_INVALID_PARM, s)
      else do {
        (rt, s) \<leftarrow> tdl_ir_recv_init (se_ring_malloc se) (se_queue_ret se) s handle;
        if rt \<noteq> OPRT_OK then Some (rt, s)
        else if dev_notif_queue s = None \<and> se_notif_ret se \<noteq> OPRT_OK then Some (se_notif_ret se, s)
        else let s = (if dev_notif_queue s = None then s\<lparr>dev_notif_queue := Some []\<rparr> else s)
        in if \<not> dev_recv_thrd s \<and> se_thread_ret se \<noteq> OPRT_OK then Some (se_thread_ret se, s)
        else Some (OPRT_OK, s\<lparr>dev_recv_thrd := True\<rparr>) })"

definition tdl_ir_recv_server_stop :: "'d ir_sys \<Rightarrow> nat option \<Rightarrow> (OPERATE_RET \<times> 'd ir_sys) option" where
  "tdl_ir_recv_server_stop s handle =
     (if handle = None then Some (OPRT_INVALID_PARM, s)
      else do {
        (_, s) \<leftarrow> tdl_ir_recv_deinit s handle;
        Some (OPRT_OK, if recv_dev_run_num s = 0 then s\<lparr>dev_notif_queue := None, dev_recv_thrd := False\<rparr> else s) })"

section \<open>Opening, reading, closing, configuring\<close>

record open_env =
  oe_sem_ret :: OPERATE_RET
  oe_err_malloc :: bool
  oe_start :: start_env

text \<open>The receive resources of a device that is being opened; the result of the start is not read.\<close>

definition ir_open_recv :: "open_env \<Rightarrow> 'd ir_sys \<Rightarrow> nat \<Rightarrow> IR_DEV_CFG_T \<Rightarrow> (OPERATE_RET \<times> 'd ir_sys) option" where
  "ir_open_recv oe s h cfg =
     (if ir_mode cfg \<noteq> IR_MODE_SEND_ONLY then do {
        (_, s) \<leftarrow> tdl_ir_recv_server_start (oe_start oe) (s\<lparr>recv_dev_num := cut16 (recv_dev_num s + 1)\<rparr>) (Some h);
        if prot_opt cfg = IR_PROT_NEC then do {
          (op_ret, err_val) \<leftarrow> tdl_ir_nec_err_val_init (oe_err_malloc oe) True (Some (nec_cfg cfg));
          if op_ret \<noteq> OPRT_OK then Some (op_ret, s)
          else do {
            n \<leftarrow> get_node s h;
            Some (OPRT_OK, set_node s h (n\<lparr>recv_info := (recv_info n)\<lparr>
              recv_err_val := map_option (\<lambda>v. (v, True)) err_val\<rparr>\<rparr>)) } }
        else Some (OPRT_OK, s) }
      else Some (OPRT_OK, s))"

definition tdl_ir_dev_open ::
  "open_env \<Rightarrow> 'd ir_sys \<Rightarrow> nat option \<Rightarrow> IR_DEV_CFG_T option \<Rightarrow> (OPERATE_RET \<times> 'd ir_sys) option" where
  "tdl_ir_dev_open oe s handle config =
     (case (handle, config) of
        (Some h, Some cfg) \<Rightarrow>
          if ir_mode cfg \<ge> IR_MODE_MAX \<or> prot_opt cfg \<ge> IR_PROT_MAX then Some (OPRT_INVALID_PARM, s)
          else do {
            n \<leftarrow> get_node s h;
            if is_open n then Some (OPRT_NOT_SUPPORTED, s)
            else do {
              op \<leftarrow> drv_open (drv_intfs n);
              let (op_ret, d) = op (ir_drv_hdl n) (ir_mode cfg);
              let n = n\<lparr>ir_dev_cfg := cfg, ir_drv_hdl := d\<rparr>;
              if op_ret \<noteq> OPRT_OK then Some (op_ret, set_node s h n)
              else if oe_sem_ret oe \<noteq> OPRT_OK then Some (oe_sem_ret oe, set_node s h n)
              else do {
                let s = set_node s h (n\<lparr>send_info := (send_info n)\<lparr>send_sem := Some 0\<rparr>\<rparr>);
                (op_ret, s) \<leftarrow> ir_open_recv oe s h cfg;
                if op_ret \<noteq> OPRT_OK then Some (op_ret, s)
                else do {
                  n \<leftarrow> get_node s h;
                  Some (OPRT_OK, set_node s h (n\<lparr>send_status := IR_STA_SEND_IDLE,
                    recv_status := IR_STA_RECV_IDLE, is_open := True\<rparr>)) } } } }
      | _ \<Rightarrow> Some (OPRT_INVALID_PARM, s))"

text \<open>A fetch from an empty queue, or from none, returns \<open>fetch_err\<close> when its time is over.\<close>

definition tdl_ir_dev_recv ::
  "OPERATE_RET \<Rightarrow> 'd ir_sys \<Rightarrow> nat option \<Rightarrow> (OPERATE_RET \<times> IR_DATA_U option \<times> 'd ir_sys) option" where
  "tdl_ir_dev_recv fetch_err s handle =
     (case handle of
        None \<Rightarrow> Some (OPRT_INVALID_PARM, None, s)
      | Some h \<Rightarrow> do {
          n \<leftarrow> get_node s h;
          if \<not> is_open n \<or> ir_mode (ir_dev_cfg n) = IR_MODE_SEND_ONLY then Some (OPRT_NOT_SUPPORTED, None, s)
          else case recv_queue (recv_info n) of
            Some (x # xs) \<Rightarrow> Some (OPRT_OK, Some x, set_node s h (put_queue n (Some xs)))
          | _ \<Rightarrow> Some (fetch_err, None, s) })"

definition tdl_ir_dev_recv_release ::
  "bool \<Rightarrow> 'd ir_sys \<Rightarrow> nat option \<Rightarrow> IR_DATA_U option \<Rightarrow> OPERATE_RET \<times> 'd ir_sys" where
  "tdl_ir_dev_recv_release lp s handle ir_data =
     (if handle = None \<or> ir_data = None then (OPRT_INVALID_PARM, s)
      else (OPRT_OK, if lp then s\<lparr>lp_calls := lp_calls s @ [True]\<rparr> else s))"

text \<open>The loop that empties the receive queue, in \<^verbatim>\<open>tdl_ir_dev_close\<close> and \<^verbatim>\<open>tdl_ir_config\<close>.\<close>

partial_function (option) recv_queue_clean ::
  "bool \<Rightarrow> OPERATE_RET \<Rightarrow> nat \<Rightarrow> 'd ir_sys \<Rightarrow> 'd ir_sys option" where
  "recv_queue_clean lp fetch_err h s = do {
     (op_ret, ir_data, s) \<leftarrow> tdl_ir_dev_recv fetch_err s (Some h);
     if op_ret \<noteq> OPRT_OK then Some s
     else recv_queue_clean lp fetch_err h (snd (tdl_ir_dev_recv_release lp s (Some h) ir_data)) }"

text \<open>The release of the receive resources; a tolerance block that is already free is freed twice.\<close>

definition ir_close_recv :: "'d ir_sys \<Rightarrow> nat \<Rightarrow> 'd ir_sys option" where
  "ir_close_recv s h = do {
     (_, s) \<leftarrow> tdl_ir_recv_deinit s (Some h);
     n \<leftarrow> get_node s h;
     case recv_err_val (recv_info n) of
       None \<Rightarrow> Some s
     | Some (v, live) \<Rightarrow>
         if \<not> live then None
         else Some (set_node s h (n\<lparr>recv_info := (recv_info n)\<lparr>recv_err_val := Some (v, False)\<rparr>\<rparr>)) }"

text \<open>Closing waits while a transmission goes on, and does not return if it never ends.\<close>

definition tdl_ir_dev_close ::
  "bool \<Rightarrow> OPERATE_RET \<Rightarrow> 'd ir_sys \<Rightarrow> nat option \<Rightarrow> (OPERATE_RET \<times> 'd ir_sys) option" where
  "tdl_ir_dev_close lp fetch_err s handle =
     (case handle of
        None \<Rightarrow> Some (OPRT_INVALID_PARM, s)
      | Some h \<Rightarrow> do {
          n \<leftarrow> get_node s h;
          if send_status n \<noteq> IR_STA_SEND_IDLE then None
          else do {
            s \<leftarrow> recv_queue_clean lp fetch_err h s;
            s \<leftarrow> (if ir_mode (ir_dev_cfg n) \<noteq> IR_MODE_SEND_ONLY then ir_close_recv s h else Some s);
            n \<leftarrow> get_node s h;
            cl \<leftarrow> drv_close (drv_intfs n);
            let d = snd (cl (ir_drv_hdl n) (ir_mode (ir_dev_cfg n)));
            Some (OPRT_OK, set_node s h (n\<lparr>ir_drv_hdl := d, is_open := False\<rparr>)) } })"

fun send_status_code :: "IR_SEND_STATUS \<Rightarrow> nat" where
  "send_status_code IR_STA_SEND_IDLE = 0"
| "send_status_code IR_STA_SEND_BUILD = 1"
| "send_status_code IR_STA_SENDING = 2"
| "send_status_code IR_STA_SEND_FINISH = 3"

fun recv_status_code :: "IR_RECV_STATUS \<Rightarrow> nat" where
  "recv_status_code IR_STA_RECV_IDLE = 0"
| "recv_status_code IR_STA_RECVING = 1"
| "recv_status_code IR_STA_RECV_FINISH = 2"
| "recv_status_code IR_STA_RECV_PARSER = 3"
| "recv_status_code IR_STA_RECV_OVERFLOW = 4"

record config_env =
  ce_lp :: bool
  ce_fetch_err :: OPERATE_RET
  ce_post :: OPERATE_RET
  ce_start :: start_env

text \<open>A notification of the driver of node \<open>h\<close>.\<close>

definition notify_node :: "'d ir_sys \<Rightarrow> nat \<Rightarrow> IR_DRIVER_STATE_E \<Rightarrow> (OPERATE_RET \<times> 'd ir_sys) option" where
  "notify_node s h st = do {
     n \<leftarrow> get_node s h;
     (r, n) \<leftarrow> status_notif n st;
     Some (r, set_node s h n) }"

text \<open>\<open>params\<close> is whether the pointer is not null; the second result is what is written through it.\<close>

definition tdl_ir_config ::
  "config_env \<Rightarrow> 'd ir_sys \<Rightarrow> nat option \<Rightarrow> IR_CMD_E \<Rightarrow> bool \<Rightarrow> (OPERATE_RET \<times> nat option \<times> 'd ir_sys) option" where
  "tdl_ir_config ce s handle cmd params =
     (case handle of
        None \<Rightarrow> Some (OPRT_INVALID_PARM, None, s)
      | Some h \<Rightarrow> do {
          n \<leftarrow> get_node s h;
          case cmd of
            IR_CMD_GET_SEND_STATUS \<Rightarrow>
              Some (if \<not> params then (OPRT_INVALID_PARM, None, s)
                    else (OPRT_OK, Some (send_status_code (send_status n)), s))
          | IR_CMD_GET_RECV_STATUS \<Rightarrow>
              Some (if \<not> params then (OPRT_INVALID_PARM, None, s)
                    else (OPRT_OK, Some (recv_status_code (recv_status n)), s))
          | IR_CMD_SEND_HW_RESET \<Rightarrow> do {
              (_, s) \<leftarrow> notify_node s h IR_DRV_SEND_HW_RESET; Some (OPRT_OK, None, s) }
          | IR_CMD_RECV_HW_INIT \<Rightarrow> do {
              (_, s) \<leftarrow> notify_node s h IR_DRV_RECV_HW_INIT; Some (OPRT_OK, None, s) }
          | IR_CMD_RECV_HW_DEINIT \<Rightarrow> do {
              (_, s) \<leftarrow> notify_node s h IR_DRV_RECV_HW_DEINIT; Some (OPRT_OK, None, s) }
          | IR_CMD_RECV_TASK_START \<Rightarrow> do {
              (op_ret, s) \<leftarrow> tdl_ir_recv_server_start (ce_start ce) s (Some h);
              if op_ret \<noteq> OPRT_OK then Some (op_ret, None, s)
              else do { (op_ret, s) \<leftarrow> notify_node s h IR_DRV_RECV_HW_INIT; Some (op_ret, None, s) } }
          | IR_CMD_RECV_TASK_STOP \<Rightarrow> do {
              (op_ret, s) \<leftarrow> notify_node s h IR_DRV_RECV_HW_DEINIT;
              if op_ret \<noteq> OPRT_OK then Some (op_ret, None, s)
              else do {
                (_, s) \<leftarrow> tdl_ir_recv_deinit s (Some h);
                Some (op_ret, None, s\<lparr>dev_notif_queue := queue_post (ce_post ce) h (dev_notif_queue s)\<rparr>) } }
          | IR_CMD_RECV_QUEUE_CLEAN \<Rightarrow> do {
              s \<leftarrow> recv_queue_clean (ce_lp ce) (ce_fetch_err ce) h s; Some (OPRT_OK, None, s) }
          | IR_CMD_RECV_CB_REGISTER \<Rightarrow>
              Some (OPRT_OK, None, set_node s h (n\<lparr>recv_info := (recv_info n)\<lparr>app_recv_cb := params\<rparr>\<rparr>))
          | IR_CMD_OTHER \<Rightarrow> Some (OPRT_OK, None, s) })"

section \<open>Nodes in the list\<close>

lemma get_node_set_node [simp]:
  "h < length (ir_nodes s) \<Longrightarrow> get_node (set_node s h n) h = Some n"
  by (simp add: get_node_def set_node_def rd_def)

lemma get_node_set_node_other [simp]: "h \<noteq> k \<Longrightarrow> get_node (set_node s h n) k = get_node s k"
  by (simp add: get_node_def set_node_def rd_def)

lemma get_node_less: "get_node s h = Some n \<Longrightarrow> h < length (ir_nodes s)"
  by (simp add: get_node_def rd_def split: if_splits)

lemma get_node_nodes [simp]:
  "get_node (s\<lparr>dev_notif_queue := q\<rparr>) = get_node s" "get_node (s\<lparr>lp_calls := l\<rparr>) = get_node s"
  "get_node (s\<lparr>recv_dev_run_num := k\<rparr>) = get_node s" "get_node (s\<lparr>recv_dev_num := k\<rparr>) = get_node s"
  "get_node (s\<lparr>dev_recv_thrd := b\<rparr>) = get_node s" "get_node (s\<lparr>last_repeat := r\<rparr>) = get_node s"
  "get_node (s\<lparr>last_total_len := k\<rparr>) = get_node s" "get_node (s\<lparr>app_calls := a\<rparr>) = get_node s"
  by (simp_all add: get_node_def fun_eq_iff)

lemma set_node_fields [simp]:
  "dev_notif_queue (set_node s h n) = dev_notif_queue s" "lp_calls (set_node s h n) = lp_calls s"
  "recv_dev_run_num (set_node s h n) = recv_dev_run_num s" "recv_dev_num (set_node s h n) = recv_dev_num s"
  "dev_recv_thrd (set_node s h n) = dev_recv_thrd s" "last_repeat (set_node s h n) = last_repeat s"
  "last_total_len (set_node s h n) = last_total_len s" "app_calls (set_node s h n) = app_calls s"
  "length (ir_nodes (set_node s h n)) = length (ir_nodes s)"
  by (simp_all add: set_node_def)

lemma status_notif_Some:
  assumes "drv_status_notif (drv_intfs n) \<noteq> None"
  obtains r d where "status_notif n st = Some (r, n\<lparr>ir_drv_hdl := d\<rparr>)"
proof -
  obtain f where "drv_status_notif (drv_intfs n) = Some f" using assms by auto
  with that [of "fst (f (ir_drv_hdl n) st)" "snd (f (ir_drv_hdl n) st)"] show thesis
    by (simp add: status_notif_def split_beta)
qed

section \<open>Interrupt and task in any order\<close>

text \<open>An event: an edge on a device, with what the interrupt meets, or a step of the task.\<close>

datatype rx_event = Irq bool u32 OPERATE_RET nat u32 | Task task_env

fun rx_step :: "rx_event \<Rightarrow> task_pc \<times> 'd ir_sys \<Rightarrow> (task_pc \<times> 'd ir_sys) option" where
  "rx_step (Irq lp now post h raw) (pc, s) = do {
     (_, s) \<leftarrow> tdl_ir_recv_cb lp now post s raw (Some h);
     Some (pc, s) }"
| "rx_step (Task te) st = tdl_ir_recv_task te st"

text \<open>A device that receives timecodes: a driver that can be notified and a ring in order.\<close>

definition timecode_rx :: "'d IR_DEV_NODE_T \<Rightarrow> bool" where
  "timecode_rx n \<longleftrightarrow> prot_opt (ir_dev_cfg n) = IR_PROT_TIMECODE \<and> drv_status_notif (drv_intfs n) \<noteq> None \<and>
     (\<exists>rb. ring_buf (recv_info n) = Some rb \<and> ring_wf rb \<and> 4 * buf_len rb < 65536)"

fun pc_handles :: "task_pc \<Rightarrow> nat set" where
  "pc_handles (Fetching dev_node) = set_option dev_node"
| "pc_handles (Testing h) = {h}"
| "pc_handles (Sleeping h) = {h}"
| "pc_handles Ended = {}"

definition queue_handles :: "'d ir_sys \<Rightarrow> nat set" where
  "queue_handles s = (case dev_notif_queue s of None \<Rightarrow> {} | Some q \<Rightarrow> set q)"

definition rx_inv :: "nat set \<Rightarrow> task_pc \<times> 'd ir_sys \<Rightarrow> bool" where
  "rx_inv H st \<longleftrightarrow>
     (\<forall>h \<in> H. \<exists>n. get_node (snd st) h = Some n \<and> timecode_rx n) \<and>
     queue_handles (snd st) \<subseteq> H \<and> pc_handles (fst st) \<subseteq> H"

lemma rx_inv_set_node:
  assumes "rx_inv H (pc, s)" and "h \<in> H" and "timecode_rx n"
  shows "rx_inv H (pc, set_node s h n)"
proof -
  have "\<exists>m. get_node (set_node s h n) k = Some m \<and> timecode_rx m" if "k \<in> H" for k
    using assms that get_node_less [of s h] by (cases "k = h") (auto simp: rx_inv_def)
  then show ?thesis using assms by (simp add: rx_inv_def queue_handles_def)
qed

lemma rx_inv_pc: "rx_inv H (pc, s) \<Longrightarrow> pc_handles pc' \<subseteq> H \<Longrightarrow> rx_inv H (pc', s)"
  by (simp add: rx_inv_def)

lemma rx_inv_node: "rx_inv H (pc, s) \<Longrightarrow> h \<in> H \<Longrightarrow> \<exists>n. get_node s h = Some n \<and> timecode_rx n"
  by (simp add: rx_inv_def)

lemma timecode_rx_upd [simp]:
  "timecode_rx (n\<lparr>recv_status := st\<rparr>) = timecode_rx n"
  "timecode_rx (n\<lparr>ir_drv_hdl := d\<rparr>) = timecode_rx n"
  "timecode_rx (n\<lparr>recv_info := (recv_info n)\<lparr>last_time := t\<rparr>\<rparr>) = timecode_rx n"
  "timecode_rx (put_queue n q) = timecode_rx n"
  by (simp_all add: timecode_rx_def put_queue_def)

lemma timecode_rx_put_ring:
  "timecode_rx n \<Longrightarrow> ring_wf rb \<Longrightarrow> 4 * buf_len rb < 65536 \<Longrightarrow> timecode_rx (put_ring n (Some rb))"
  by (simp add: timecode_rx_def put_ring_def)

text \<open>The interrupt never runs into undefined behaviour and keeps the device in order.\<close>

lemma recv_cb_safe:
  assumes n: "get_node s h = Some n" "timecode_rx n" and raw: "abs_raw raw = Some v"
  shows "\<exists>s' n'. tdl_ir_recv_cb lp now post s raw (Some h) = Some (0, s') \<and> timecode_rx n' \<and>
    (\<exists>l q. s' = (set_node s h n')\<lparr>lp_calls := l, dev_notif_queue := q\<rparr> \<and>
      (q = dev_notif_queue s \<or> q = queue_post post h (dev_notif_queue s)))"
proof -
  let ?n = "n\<lparr>recv_info := (recv_info n)\<lparr>last_time := now\<rparr>\<rparr>"
  obtain rb where rb: "ring_buf (recv_info n) = Some rb" "ring_wf rb" "4 * buf_len rb < 65536"
    using n(2) by (auto simp: timecode_rx_def)
  have nt: "drv_status_notif (drv_intfs ?n) \<noteq> None" using n(2) by (simp add: timecode_rx_def)
  have rx: "timecode_rx ?n" using n(2) by simp
  note simps = tdl_ir_recv_cb_def n(1) raw rb(1) RING_BUFFER_IS_FULL_eq [OF rb(2)]
  consider (full) "length (ring_contents rb) = buf_len rb - 1" "recv_status n = IR_STA_RECVING"
    | (idle) "length (ring_contents rb) \<noteq> buf_len rb - 1" "recv_status n = IR_STA_RECV_IDLE"
    | (store) "length (ring_contents rb) \<noteq> buf_len rb - 1" "recv_status n = IR_STA_RECVING"
    | (other) "length (ring_contents rb) = buf_len rb - 1 \<and> recv_status n \<noteq> IR_STA_RECVING
        \<or> length (ring_contents rb) \<noteq> buf_len rb - 1 \<and> recv_status n \<noteq> IR_STA_RECVING \<and> recv_status n \<noteq> IR_STA_RECV_IDLE"
    by blast
  then show ?thesis
  proof cases
    case full
    obtain r d where "status_notif (?n\<lparr>recv_status := IR_STA_RECV_OVERFLOW\<rparr>) IR_DRV_RECV_FINISH_STATE
        = Some (r, ?n\<lparr>recv_status := IR_STA_RECV_OVERFLOW, ir_drv_hdl := d\<rparr>)"
      by (rule status_notif_Some [of "?n\<lparr>recv_status := IR_STA_RECV_OVERFLOW\<rparr>" IR_DRV_RECV_FINISH_STATE])
         (use nt in auto)
    with full rx show ?thesis
      by (intro exI [of _ "set_node s h (?n\<lparr>recv_status := IR_STA_RECV_OVERFLOW, ir_drv_hdl := d\<rparr>)"]
          exI [of _ "?n\<lparr>recv_status := IR_STA_RECV_OVERFLOW, ir_drv_hdl := d\<rparr>"] conjI
          exI [of _ "lp_calls s"] exI [of _ "dev_notif_queue s"]) (simp_all add: simps set_node_def)
  next
    case idle
    obtain r d where "status_notif (?n\<lparr>recv_status := IR_STA_RECVING\<rparr>) IR_DRV_PRE_RECV_STATE
        = Some (r, ?n\<lparr>recv_status := IR_STA_RECVING, ir_drv_hdl := d\<rparr>)"
      by (rule status_notif_Some [of "?n\<lparr>recv_status := IR_STA_RECVING\<rparr>" IR_DRV_PRE_RECV_STATE])
         (use nt in auto)
    with idle rx show ?thesis
      by (intro exI [of _ "(set_node s h (?n\<lparr>recv_status := IR_STA_RECVING, ir_drv_hdl := d\<rparr>))
            \<lparr>lp_calls := (if lp then lp_calls s @ [False] else lp_calls s),
              dev_notif_queue := queue_post post h (dev_notif_queue s)\<rparr>"]
          exI [of _ "?n\<lparr>recv_status := IR_STA_RECVING, ir_drv_hdl := d\<rparr>"] conjI
          exI [of _ "if lp then lp_calls s @ [False] else lp_calls s"]
          exI [of _ "queue_post post h (dev_notif_queue s)"]) (simp_all add: simps set_node_def Let_def)
  next
    case store
    with ring_contents_bounded [OF rb(2)] have "length (ring_contents rb) < buf_len rb - 1" by simp
    from tdl_ir_ring_buf_write_word_spec [OF rb(2) this, of v]
    obtain rb' where "tdl_ir_ring_buf_write_word rb v = Some rb'" "ring_wf rb'" "buf_len rb' = buf_len rb" by blast
    with store rx rb(3) show ?thesis
      by (intro exI [of _ "set_node s h (put_ring ?n (Some rb'))"] exI [of _ "put_ring ?n (Some rb')"] conjI
          exI [of _ "lp_calls s"] exI [of _ "dev_notif_queue s"])
         (simp_all add: simps set_node_def timecode_rx_put_ring)
  next
    case other
    with rx show ?thesis
      by (intro exI [of _ "set_node s h ?n"] exI [of _ ?n] conjI
          exI [of _ "lp_calls s"] exI [of _ "dev_notif_queue s"])
         (auto simp: simps set_node_def)
  qed
qed

text \<open>The timecode decoder: the whole ring goes to the queue, in order.\<close>

lemma recv_data_process_timecode:
  assumes n: "timecode_rx n" and rb: "ring_buf (recv_info n) = Some rb" and ne: "ring_contents rb \<noteq> []"
  shows "\<exists>rb'. ring_wf rb' \<and> ring_contents rb' = [] \<and> buf_len rb' = buf_len rb \<and>
    tdl_ir_recv_data_process env (Some n) =
      (if out_malloc env 0
       then Some (post_ret env 0, Some (put_queue (put_ring n (Some rb'))
              (queue_post (post_ret env 0) (Timecode (length (ring_contents rb)) (Some (ring_contents rb)))
                 (recv_queue (recv_info n)))))
       else Some (OPRT_MALLOC_FAILED, Some n))"
proof -
  let ?l = "length (ring_contents rb)"
  have wf: "ring_wf rb" "4 * buf_len rb < 65536" using n rb by (auto simp: timecode_rx_def)
  have l: "?l < 65536" "?l * 4 < 65536" using ring_contents_bounded [OF wf(1)] wf(2) by auto
  obtain rb' where rb': "tdl_ir_ring_buf_read rb (Some (replicate ?l 0)) ?l = Some (rb', Some (ring_contents rb))"
    "ring_wf rb'" "ring_contents rb' = []" "buf_len rb' = buf_len rb"
    using tdl_ir_ring_buf_read_spec [OF wf(1) ne refl, of "replicate ?l 0"] by auto
  then show ?thesis using n rb l RING_BUFFER_LENGTH_GET_eq [OF wf(1)]
    by (intro exI [of _ rb'])
       (simp add: tdl_ir_recv_data_process_def timecode_rx_def tdl_ir_recv_buf_malloc_def)
qed

lemma recv_data_process_sync_timecode:
  assumes "get_node s h = Some n" and "timecode_rx n"
  shows "\<exists>r. tdl_ir_recv_data_process_sync env s (Some h) = Some (r, s)"
proof -
  obtain rb where "ring_buf (recv_info n) = Some rb" "ring_wf rb"
    using assms(2) by (auto simp: timecode_rx_def)
  with assms show ?thesis
    by (simp add: tdl_ir_recv_data_process_sync_def timecode_rx_def RING_BUFFER_LENGTH_GET_eq Let_def)
qed

text \<open>Adding the pause keeps the ring in order.\<close>

lemma add_tail_spec:
  assumes "ring_wf rb" and "0 < length (ring_contents rb)"
  shows "\<exists>rb'. add_tail t rb = Some rb' \<and> ring_wf rb' \<and> buf_len rb' = buf_len rb \<and> ring_contents rb' \<noteq> [] \<and>
    ring_contents rb' = take (buf_len rb - 1) (ring_contents rb @ [t])"
proof -
  have "add_tail t rb = ir_ring.offer t rb" by (simp add: add_tail_def ir_ring.offer_def)
  with ir_ring.offer_spec [OF assms(1), of t] obtain rb' where
    rb': "add_tail t rb = Some rb'" "ring_wf rb'" "buf_len rb' - 1 = buf_len rb - 1"
      "ring_contents rb' = take (buf_len rb - 1) (ring_contents rb @ [t])" by auto
  moreover have "buf_len rb' = buf_len rb" using rb'(2,3) assms(1) by (auto simp: ring_wf_def)
  moreover have "0 < buf_len rb - 1" using assms ring_contents_bounded [OF assms(1)] by linarith
  ultimately show ?thesis by fastforce
qed

text \<open>The end of a reception leaves the ring in order.\<close>

lemma recv_finish_decode_safe:
  assumes n: "timecode_rx n"
  shows "\<exists>n'. recv_finish_decode env n = Some n' \<and> timecode_rx n'"
proof -
  obtain rb where rb: "ring_buf (recv_info n) = Some rb" "ring_wf rb" "4 * buf_len rb < 65536"
    using n by (auto simp: timecode_rx_def)
  show ?thesis
  proof (cases "20 \<le> length (ring_contents rb)")
    case True
    let ?t = "of_nat (recv_timeout (ir_dev_cfg n) * 1000)"
    obtain rb1 where rb1: "add_tail ?t rb = Some rb1" "ring_wf rb1" "buf_len rb1 = buf_len rb" "ring_contents rb1 \<noteq> []"
      using add_tail_spec [OF rb(2), of ?t] True by force
    let ?n1 = "put_ring n (Some rb1)"
    have n1: "timecode_rx ?n1" "ring_buf (recv_info ?n1) = Some rb1"
      using timecode_rx_put_ring [OF n rb1(2)] rb rb1 by (simp_all add: put_ring_def)
    obtain rb2 where rb2: "ring_wf rb2" "buf_len rb2 = buf_len rb1"
      "tdl_ir_recv_data_process env (Some ?n1) =
      (if out_malloc env 0
       then Some (post_ret env 0, Some (put_queue (put_ring ?n1 (Some rb2))
              (queue_post (post_ret env 0) (Timecode (length (ring_contents rb1)) (Some (ring_contents rb1)))
                 (recv_queue (recv_info ?n1)))))
       else Some (OPRT_MALLOC_FAILED, Some ?n1))"
      using recv_data_process_timecode [OF n1 rb1(4), of env] by blast
    have "timecode_rx (put_ring ?n1 (Some rb2))"
      by (rule timecode_rx_put_ring) (use n1 rb rb1 rb2 in auto)
    with True rb rb1 rb2 n1 show ?thesis
      by (cases "out_malloc env 0") (simp_all add: recv_finish_decode_def RING_BUFFER_LENGTH_GET_eq)
  next
    case False
    with rb n show ?thesis by (simp add: recv_finish_decode_def RING_BUFFER_LENGTH_GET_eq)
  qed
qed

lemma recv_task_finish_safe:
  assumes n: "get_node s h = Some n" "timecode_rx n"
  shows "\<exists>n' l. tdl_ir_recv_task_finish te h s = Some ((set_node s h n')\<lparr>lp_calls := l\<rparr>) \<and> timecode_rx n'"
proof -
  let ?m = "if recv_status n = IR_STA_RECV_OVERFLOW then n\<lparr>recv_status := IR_STA_RECV_FINISH\<rparr> else n"
  have rx: "timecode_rx ?m" "prot_opt (ir_dev_cfg ?m) = 0" using n(2) by (simp_all add: timecode_rx_def)
  show ?thesis
  proof (cases "recv_status ?m = IR_STA_RECV_FINISH")
    case False
    with n rx show ?thesis
      by (intro exI [of _ ?m] exI [of _ "lp_calls s"]) (simp add: tdl_ir_recv_task_finish_def set_node_def Let_def)
  next
    case True
    obtain m' where m': "recv_finish_decode (te_recv te) ?m = Some m'" "timecode_rx m'"
      using recv_finish_decode_safe [OF rx(1)] by blast
    then obtain rb' where rb': "ring_buf (recv_info m') = Some rb'" "ring_wf rb'" "4 * buf_len rb' < 65536"
      by (auto simp: timecode_rx_def)
    let ?e = "(put_ring m' (Some (ring_clear rb')))\<lparr>recv_status := IR_STA_RECV_IDLE\<rparr>"
    have e: "timecode_rx ?e" "drv_status_notif (drv_intfs ?e) \<noteq> None"
      using m'(2) rb' by (simp_all add: timecode_rx_put_ring ring_clear_def ring_wf_def)
        (simp add: timecode_rx_def put_ring_def)
    obtain r d where "status_notif ?e IR_DRV_RECV_FINISH_STATE = Some (r, ?e\<lparr>ir_drv_hdl := d\<rparr>)"
      using e(2) by (rule status_notif_Some)
    with True n rx m' rb' e have "tdl_ir_recv_task_finish te h s =
        Some ((set_node s h (?e\<lparr>ir_drv_hdl := d\<rparr>))\<lparr>lp_calls :=
          (if app_recv_cb (recv_info (?e\<lparr>ir_drv_hdl := d\<rparr>)) \<and> te_lp te then lp_calls s @ [True] else lp_calls s)\<rparr>)"
      by (simp add: tdl_ir_recv_task_finish_def Let_def set_node_def)
    with e show ?thesis by (metis timecode_rx_upd(2))
  qed
qed

text \<open>Every step keeps the invariant, whatever the operating system answers.\<close>

lemma recv_task_dispatch_safe:
  assumes "rx_inv H (Fetching dv, s)"
  shows "\<exists>st'. tdl_ir_recv_task_dispatch dv s = Some st' \<and> rx_inv H st'"
proof (cases dv)
  case None
  with assms show ?thesis by (simp add: tdl_ir_recv_task_dispatch_def)
next
  case (Some h)
  with assms have "h \<in> H" by (simp add: rx_inv_def)
  with rx_inv_node [OF assms] obtain n where "get_node s h = Some n" by blast
  with Some assms \<open>h \<in> H\<close> show ?thesis by (auto simp: tdl_ir_recv_task_dispatch_def intro: rx_inv_pc)
qed

lemma recv_task_fetch_safe:
  assumes inv: "rx_inv H (Fetching dv, s)"
  shows "\<exists>st'. tdl_ir_recv_task_fetch te dv s = Some st' \<and> rx_inv H st'"
proof -
  have q: "rx_inv H (Fetching (Some h), s\<lparr>dev_notif_queue := Some q\<rparr>)" if "dev_notif_queue s = Some (h # q)" for h q
    using inv that by (simp add: rx_inv_def queue_handles_def)
  have e: "rx_inv H (Ended, tdl_ir_recv_task_exit s)"
    using inv by (simp add: tdl_ir_recv_task_exit_def rx_inv_def queue_handles_def)
  from e inv recv_task_dispatch_safe [OF inv] recv_task_dispatch_safe [OF q] show ?thesis
    by (simp add: tdl_ir_recv_task_fetch_def split: option.split list.split)
qed

lemma recv_task_safe:
  assumes inv: "rx_inv H st"
  shows "\<exists>st'. tdl_ir_recv_task te st = Some st' \<and> rx_inv H st'"
proof (cases st)
  case (Pair pc s)
  show ?thesis
  proof (cases pc)
    case (Fetching dv)
    with inv Pair recv_task_fetch_safe [of H dv s te] show ?thesis by (simp add: tdl_ir_recv_task_def)
  next
    case (Testing h)
    with inv Pair obtain n where n: "get_node s h = Some n" "timecode_rx n" "h \<in> H"
      by (auto simp: rx_inv_def)
    obtain n' l where f: "tdl_ir_recv_task_finish te h s = Some ((set_node s h n')\<lparr>lp_calls := l\<rparr>)" "timecode_rx n'"
      using recv_task_finish_safe [OF n(1,2)] by blast
    have "rx_inv H (pc, set_node s h n')" using inv Pair n(3) f(2) by (intro rx_inv_set_node) auto
    then have "rx_inv H (Fetching (Some h), (set_node s h n')\<lparr>lp_calls := l\<rparr>)"
      using n(3) by (simp add: rx_inv_def queue_handles_def)
    with Testing Pair n f inv show ?thesis by (auto simp: tdl_ir_recv_task_def intro: rx_inv_pc)
  next
    case (Sleeping h)
    with inv Pair obtain n where n: "get_node s h = Some n" "timecode_rx n" "h \<in> H"
      by (auto simp: rx_inv_def)
    let ?n = "n\<lparr>recv_status := poll_status (te_now te) (last_time (recv_info n)) (recv_status n)\<rparr>"
    have rx: "timecode_rx ?n" using n(2) by simp
    have "\<exists>r. tdl_ir_recv_data_process_sync (te_recv te) (set_node s h ?n) (Some h) = Some (r, set_node s h ?n)"
      by (rule recv_data_process_sync_timecode [OF _ rx]) (use get_node_less [OF n(1)] in simp)
    then have "tdl_ir_recv_task_poll te h s = Some (set_node s h ?n)"
      using n(1) by (auto simp: tdl_ir_recv_task_poll_def Let_def)
    moreover have "rx_inv H (Testing h, set_node s h ?n)"
      using rx_inv_set_node [OF _ n(3) rx, of pc s] inv Pair n(3) by (auto intro: rx_inv_pc)
    ultimately show ?thesis using Sleeping Pair by (simp add: tdl_ir_recv_task_def)
  next
    case Ended
    with inv Pair show ?thesis by (simp add: tdl_ir_recv_task_def)
  qed
qed

text \<open>Admissible events: edges of devices of \<open>H\<close> whose width has an absolute value.\<close>

fun event_ok :: "nat set \<Rightarrow> rx_event \<Rightarrow> bool" where
  "event_ok H (Irq lp now post h raw) = (h \<in> H \<and> raw \<noteq> 0x80000000)"
| "event_ok H (Task te) = True"

lemma rx_step_safe:
  assumes inv: "rx_inv H st" and ok: "event_ok H e"
  shows "\<exists>st'. rx_step e st = Some st' \<and> rx_inv H st'"
proof (cases e)
  case (Irq lp now post h raw)
  obtain pc s where st: "st = (pc, s)" by force
  have h: "h \<in> H" and "raw \<noteq> 0x80000000" using ok Irq by simp_all
  then obtain v where v: "abs_raw raw = Some v" by (simp add: abs_raw_def)
  obtain n where n: "get_node s h = Some n" "timecode_rx n" using inv st h by (auto simp: rx_inv_def)
  from recv_cb_safe [OF n v, of lp now post] obtain n' l q where
    cb: "tdl_ir_recv_cb lp now post s raw (Some h) = Some (0, (set_node s h n')\<lparr>lp_calls := l, dev_notif_queue := q\<rparr>)"
      "timecode_rx n'" "q = dev_notif_queue s \<or> q = queue_post post h (dev_notif_queue s)" by blast
  have "rx_inv H (pc, set_node s h n')" using inv st h cb(2) by (intro rx_inv_set_node) auto
  then have "rx_inv H (pc, (set_node s h n')\<lparr>lp_calls := l, dev_notif_queue := q\<rparr>)"
    using cb(3) h by (auto simp: rx_inv_def queue_handles_def queue_post_def split: option.splits if_splits)
  with Irq st cb(1) show ?thesis by simp
next
  case (Task te)
  with recv_task_safe [OF inv] show ?thesis by simp
qed

text \<open>C16: Edge interrupts and steps of the receive task may come in any order, with any answers of the
  operating system: on devices that receive timecodes no step runs into undefined behaviour, every
  step returns, and rings, notification queue and task stay in order.\<close>

theorem rx_run_safe:
  assumes "rx_inv H st" and "\<forall>e \<in> set es. event_ok H e"
  shows "\<exists>st'. foldM rx_step es st = Some st' \<and> rx_inv H st'"
  using assms
proof (induction es arbitrary: st)
  case Nil
  then show ?case by simp
next
  case (Cons e es)
  with rx_step_safe [of H st e] show ?case by fastforce
qed

section \<open>A whole reception\<close>

lemma set_node_same: "get_node s h = Some n \<Longrightarrow> set_node s h n = s"
  by (auto simp: get_node_def set_node_def rd_def split: if_splits)

lemma set_node_twice [simp]: "set_node (set_node s h n) h n' = set_node s h n'"
  by (simp add: set_node_def)

lemma ring_buf_same: "ring_buf (recv_info n) = r \<Longrightarrow> n\<lparr>recv_info := (recv_info n)\<lparr>ring_buf := r\<rparr>\<rparr> = n"
  by auto

lemma record_orders:
  "(i\<lparr>last_time := t\<rparr>)\<lparr>ring_buf := b\<rparr> = i\<lparr>ring_buf := b, last_time := t\<rparr>"
  "n\<lparr>recv_status := st, ir_drv_hdl := d, recv_info := j\<rparr> = n\<lparr>recv_info := j, recv_status := st, ir_drv_hdl := d\<rparr>"
  by simp_all

lemma abs_raw_pos: "0 <s raw \<Longrightarrow> abs_raw raw = Some raw"
  by (auto simp: abs_raw_def word_sless_alt)

text \<open>The edges of one device, each with the clock at its interrupt and the measured width.\<close>

definition edges :: "bool \<Rightarrow> OPERATE_RET \<Rightarrow> nat \<Rightarrow> (u32 \<times> u32) list \<Rightarrow> rx_event list" where
  "edges lp post h xs = map (\<lambda>(t, p). Irq lp t post h p) xs"

lemma edges_fill:
  assumes "get_node s h = Some n" and "recv_status n = IR_STA_RECVING"
    and "ring_buf (recv_info n) = Some rb" and "ring_wf rb"
    and "length (ring_contents rb) + length xs \<le> buf_len rb - 1" and "\<forall>(t, p) \<in> set xs. 0 <s p"
  shows "\<exists>rb'. foldM rx_step (edges lp post h xs) (pc, s) =
      Some (pc, set_node s h (n\<lparr>recv_info := (recv_info n)\<lparr>ring_buf := Some rb',
        last_time := last (last_time (recv_info n) # map fst xs)\<rparr>\<rparr>)) \<and>
    ring_wf rb' \<and> buf_len rb' = buf_len rb \<and> ring_contents rb' = ring_contents rb @ map snd xs"
  using assms
proof (induction xs arbitrary: s n rb)
  case Nil
  then show ?case by (intro exI [of _ rb]) (simp add: edges_def set_node_same ring_buf_same)
next
  case (Cons x xs)
  obtain t p where x: "x = (t, p)" by force
  have room: "length (ring_contents rb) < buf_len rb - 1" using Cons.prems(5) by simp
  have p: "abs_raw p = Some p" using Cons.prems(6) x by (simp add: abs_raw_pos)
  from tdl_ir_ring_buf_write_word_spec [OF Cons.prems(4) room, of p]
  obtain rb1 where rb1: "tdl_ir_ring_buf_write_word rb p = Some rb1" "ring_wf rb1" "buf_len rb1 = buf_len rb"
    "ring_contents rb1 = ring_contents rb @ [p]" by blast
  let ?n = "n\<lparr>recv_info := (recv_info n)\<lparr>ring_buf := Some rb1, last_time := t\<rparr>\<rparr>"
  have step: "rx_step (Irq lp t post h p) (pc, s) = Some (pc, set_node s h ?n)"
    using Cons.prems p rb1 room by (simp add: tdl_ir_recv_cb_def RING_BUFFER_IS_FULL_eq put_ring_def Let_def record_orders)
  have "\<exists>rb'. foldM rx_step (edges lp post h xs) (pc, set_node s h ?n) =
      Some (pc, set_node (set_node s h ?n) h (?n\<lparr>recv_info := (recv_info ?n)\<lparr>ring_buf := Some rb',
        last_time := last (last_time (recv_info ?n) # map fst xs)\<rparr>\<rparr>)) \<and>
    ring_wf rb' \<and> buf_len rb' = buf_len rb1 \<and> ring_contents rb' = ring_contents rb1 @ map snd xs"
    by (rule Cons.IH) (use Cons.prems rb1 get_node_less [OF Cons.prems(1)] in auto)
  with step rb1 x show ?case by (auto simp: edges_def)
qed

text \<open>
  One reception on an idle device: the first edge starts it and is not stored, the following ones
  fill the ring, and the task decodes when the line has been quiet for \<^verbatim>\<open>IR_RECV_TIMEOUT_MS\<close>.
\<close>

definition quiet :: "u32 \<Rightarrow> u32 \<Rightarrow> bool" where
  "quiet last_tm now \<longleftrightarrow> last_tm < now \<and> IR_RECV_TIMEOUT_MS \<le> now - last_tm"

definition reception :: "bool \<Rightarrow> nat \<Rightarrow> u32 \<times> u32 \<Rightarrow> (u32 \<times> u32) list \<Rightarrow> task_env \<Rightarrow> rx_event list" where
  "reception lp h x xs te = edges lp OPRT_OK h (x # xs) @ [Task te, Task te, Task te, Task te]"

lemma edges_start:
  assumes n: "get_node s h = Some n" "recv_status n = IR_STA_RECV_IDLE" "drv_status_notif (drv_intfs n) \<noteq> None"
    and rb: "ring_buf (recv_info n) = Some rb" "ring_wf rb" "ring_contents rb = []"
    and xs: "length xs \<le> buf_len rb - 1" "1 < buf_len rb" "\<forall>(t, p) \<in> set (x # xs). 0 <s p"
    and q: "dev_notif_queue s = Some []"
  shows "\<exists>s' n' rb' d. foldM rx_step (edges lp OPRT_OK h (x # xs)) (pc, s) = Some (pc, s') \<and>
    get_node s' h = Some n' \<and> dev_notif_queue s' = Some [h] \<and> recv_dev_run_num s' = recv_dev_run_num s \<and>
    n' = n\<lparr>recv_info := (recv_info n)\<lparr>ring_buf := Some rb', last_time := last (map fst (x # xs))\<rparr>,
      recv_status := IR_STA_RECVING, ir_drv_hdl := d\<rparr> \<and>
    ring_wf rb' \<and> buf_len rb' = buf_len rb \<and> ring_contents rb' = map snd xs"
proof -
  obtain t p where x: "x = (t, p)" by force
  have h: "h < length (ir_nodes s)" using n(1) by (rule get_node_less)
  let ?n0 = "n\<lparr>recv_info := (recv_info n)\<lparr>last_time := t\<rparr>, recv_status := IR_STA_RECVING\<rparr>"
  have "drv_status_notif (drv_intfs ?n0) \<noteq> None" using n(3) by simp
  then obtain r d where d: "status_notif ?n0 IR_DRV_PRE_RECV_STATE = Some (r, ?n0\<lparr>ir_drv_hdl := d\<rparr>)"
    by (rule status_notif_Some)
  let ?n1 = "?n0\<lparr>ir_drv_hdl := d\<rparr>"
  let ?s1 = "(set_node (if lp then s\<lparr>lp_calls := lp_calls s @ [False]\<rparr> else s) h ?n1)\<lparr>dev_notif_queue := Some [h]\<rparr>"
  have p: "abs_raw p = Some p" using xs(3) x by (simp add: abs_raw_pos)
  have "rx_step (Irq lp t OPRT_OK h p) (pc, s) = Some (pc, ?s1)"
    using n rb p xs(2) d q by (simp add: tdl_ir_recv_cb_def RING_BUFFER_IS_FULL_eq Let_def queue_post_def)
  moreover have g1: "get_node ?s1 h = Some ?n1" using h by simp
  from edges_fill [OF g1, of rb xs lp OPRT_OK pc] rb xs(1,3)
  obtain rb' where rb': "foldM rx_step (edges lp OPRT_OK h xs) (pc, ?s1) =
      Some (pc, set_node ?s1 h (?n1\<lparr>recv_info := (recv_info ?n1)\<lparr>ring_buf := Some rb',
        last_time := last (last_time (recv_info ?n1) # map fst xs)\<rparr>\<rparr>))"
    "ring_wf rb'" "buf_len rb' = buf_len rb" "ring_contents rb' = map snd xs" by auto
  ultimately show ?thesis using x h rb'
    by (intro exI [of _ "set_node ?s1 h (n\<lparr>recv_info := (recv_info n)\<lparr>ring_buf := Some rb',
        last_time := last (t # map fst xs)\<rparr>, recv_status := IR_STA_RECVING, ir_drv_hdl := d\<rparr>)"]
      exI [of _ "n\<lparr>recv_info := (recv_info n)\<lparr>ring_buf := Some rb',
        last_time := last (t # map fst xs)\<rparr>, recv_status := IR_STA_RECVING, ir_drv_hdl := d\<rparr>"]
      exI [of _ rb'] exI [of _ d])
       (simp add: edges_def record_orders)
qed

lemma task_decodes:
  assumes n: "get_node s h = Some n" "recv_status n = IR_STA_RECVING" "\<not> app_recv_cb (recv_info n)"
    and q: "dev_notif_queue s = Some [h]" "recv_dev_run_num s \<noteq> 0"
    and te: "te_fetch_ok te" "quiet (last_time (recv_info n)) (te_now te)"
    and dec: "recv_finish_decode (te_recv te) (n\<lparr>recv_status := IR_STA_RECV_FINISH\<rparr>) = Some m"
    and m: "ring_buf (recv_info m) = Some rb" "drv_status_notif (drv_intfs m) \<noteq> None"
  shows "\<exists>s' n'. foldM rx_step [Task te, Task te, Task te, Task te] (Fetching dv, s) = Some (Fetching (Some h), s') \<and>
    get_node s' h = Some n' \<and> recv_status n' = IR_STA_RECV_IDLE \<and>
    recv_queue (recv_info n') = recv_queue (recv_info m) \<and> ring_buf (recv_info n') = Some (ring_clear rb)"
proof -
  let ?s = "s\<lparr>dev_notif_queue := Some []\<rparr>" and ?f = "n\<lparr>recv_status := IR_STA_RECV_FINISH\<rparr>"
  let ?e = "(put_ring m (Some (ring_clear rb)))\<lparr>recv_status := IR_STA_RECV_IDLE\<rparr>"
  have h: "h < length (ir_nodes s)" using n(1) by (rule get_node_less)
  then have g: "get_node (set_node ?s h ?f) h = Some ?f" by simp
  have t1: "tdl_ir_recv_task te (Fetching dv, s) = Some (Testing h, ?s)"
    using n q te(1) by (simp add: tdl_ir_recv_task_def tdl_ir_recv_task_fetch_def tdl_ir_recv_task_dispatch_def)
  have t2: "tdl_ir_recv_task te (Testing h, ?s) = Some (Sleeping h, ?s)"
    using n by (simp add: tdl_ir_recv_task_def)
  have "poll_status (te_now te) (last_time (recv_info n)) (recv_status n) = IR_STA_RECV_FINISH"
    using te(2) by (simp add: poll_status_def quiet_def)
  then have t3: "tdl_ir_recv_task te (Sleeping h, ?s) = Some (Testing h, set_node ?s h ?f)"
    using n by (simp add: tdl_ir_recv_task_def tdl_ir_recv_task_poll_def Let_def)
  have "drv_status_notif (drv_intfs ?e) \<noteq> None" using m(2) by (simp add: put_ring_def)
  then obtain r d where d: "status_notif ?e IR_DRV_RECV_FINISH_STATE = Some (r, ?e\<lparr>ir_drv_hdl := d\<rparr>)"
    by (rule status_notif_Some)
  let ?l = "if app_recv_cb (recv_info m) \<and> te_lp te then lp_calls s @ [True] else lp_calls s"
  have t4: "tdl_ir_recv_task te (Testing h, set_node ?s h ?f) =
      Some (Fetching (Some h), (set_node ?s h (?e\<lparr>ir_drv_hdl := d\<rparr>))\<lparr>lp_calls := ?l\<rparr>)"
    using g n(3) dec m d by (simp add: tdl_ir_recv_task_def tdl_ir_recv_task_finish_def Let_def put_ring_def set_node_def)
  from t1 t2 t3 t4 h show ?thesis
    by (intro exI [of _ "(set_node ?s h (?e\<lparr>ir_drv_hdl := d\<rparr>))\<lparr>lp_calls := ?l\<rparr>"] exI [of _ "?e\<lparr>ir_drv_hdl := d\<rparr>"])
       (simp add: put_ring_def)
qed

text \<open>The reception with a decoder that leaves \<open>Q\<close> in the receive queue.\<close>

lemma reception_decodes:
  assumes n: "get_node s h = Some n" "recv_status n = IR_STA_RECV_IDLE" "drv_status_notif (drv_intfs n) \<noteq> None"
    and rb: "ring_buf (recv_info n) = Some rb" "ring_wf rb" "ring_contents rb = []"
    and cb: "\<not> app_recv_cb (recv_info n)"
    and xs: "length xs \<le> buf_len rb - 1" "1 < buf_len rb" "\<forall>(t, p) \<in> set (x # xs). 0 <s p"
    and q: "dev_notif_queue s = Some []" "recv_dev_run_num s \<noteq> 0"
    and te: "te_fetch_ok te" "quiet (last (map fst (x # xs))) (te_now te)"
    and dec: "\<And>rb' t d. ring_wf rb' \<Longrightarrow> buf_len rb' = buf_len rb \<Longrightarrow> ring_contents rb' = map snd xs \<Longrightarrow>
      \<exists>m. recv_finish_decode (te_recv te) (n\<lparr>recv_info := (recv_info n)\<lparr>ring_buf := Some rb', last_time := t\<rparr>,
          recv_status := IR_STA_RECV_FINISH, ir_drv_hdl := d\<rparr>) = Some m \<and>
        recv_queue (recv_info m) = Q \<and> ring_buf (recv_info m) \<noteq> None \<and> drv_intfs m = drv_intfs n"
  shows "\<exists>s' n' rb'. foldM rx_step (reception lp h x xs te) (Fetching dv, s) = Some (Fetching (Some h), s') \<and>
    get_node s' h = Some n' \<and> recv_status n' = IR_STA_RECV_IDLE \<and> recv_queue (recv_info n') = Q \<and>
    ring_buf (recv_info n') = Some rb' \<and> ring_contents rb' = []"
proof -
  obtain s1 n1 rb1 d where s1: "foldM rx_step (edges lp OPRT_OK h (x # xs)) (Fetching dv, s) = Some (Fetching dv, s1)"
    "get_node s1 h = Some n1" "dev_notif_queue s1 = Some [h]" "recv_dev_run_num s1 = recv_dev_run_num s"
    "n1 = n\<lparr>recv_info := (recv_info n)\<lparr>ring_buf := Some rb1, last_time := last (map fst (x # xs))\<rparr>,
      recv_status := IR_STA_RECVING, ir_drv_hdl := d\<rparr>"
    "ring_wf rb1" "buf_len rb1 = buf_len rb" "ring_contents rb1 = map snd xs"
    using edges_start [OF n rb xs q(1)] by blast
  have "n1\<lparr>recv_status := IR_STA_RECV_FINISH\<rparr> =
      n\<lparr>recv_info := (recv_info n)\<lparr>ring_buf := Some rb1, last_time := last (map fst (x # xs))\<rparr>,
        recv_status := IR_STA_RECV_FINISH, ir_drv_hdl := d\<rparr>"
    using s1(5) by simp
  with dec [OF s1(6-8)] obtain m where m: "recv_finish_decode (te_recv te) (n1\<lparr>recv_status := IR_STA_RECV_FINISH\<rparr>) = Some m"
    "recv_queue (recv_info m) = Q" "ring_buf (recv_info m) \<noteq> None" "drv_intfs m = drv_intfs n" by metis
  from m(3) obtain rb2 where rb2: "ring_buf (recv_info m) = Some rb2" by blast
  have "\<exists>s' n'. foldM rx_step [Task te, Task te, Task te, Task te] (Fetching dv, s1) = Some (Fetching (Some h), s') \<and>
    get_node s' h = Some n' \<and> recv_status n' = IR_STA_RECV_IDLE \<and>
    recv_queue (recv_info n') = recv_queue (recv_info m) \<and> ring_buf (recv_info n') = Some (ring_clear rb2)"
    by (rule task_decodes [OF s1(2) _ _ s1(3) _ te(1) _ m(1) rb2]) (use s1 cb q te m n(3) in auto)
  with s1(1) m(2) show ?thesis
    by (fastforce simp: reception_def foldM_append ring_clear_def intro: ring_contents_empty)
qed

text \<open>A timecode device delivers the pulses followed by the pause, as one timecode.\<close>

lemma finish_decode_timecode:
  assumes n: "timecode_rx n" and rb: "ring_buf (recv_info n) = Some rb"
    and len: "20 \<le> length (ring_contents rb)" "length (ring_contents rb) < buf_len rb - 1"
    and env: "out_malloc env 0" "post_ret env 0 = OPRT_OK"
  shows "\<exists>m. recv_finish_decode env n = Some m \<and> ring_buf (recv_info m) \<noteq> None \<and> drv_intfs m = drv_intfs n \<and>
    recv_queue (recv_info m) = map_option (\<lambda>q. q @ [Timecode (length (ring_contents rb) + 1)
       (Some (ring_contents rb @ [of_nat (recv_timeout (ir_dev_cfg n) * 1000)]))]) (recv_queue (recv_info n))"
proof -
  let ?t = "of_nat (recv_timeout (ir_dev_cfg n) * 1000)"
  have wf: "ring_wf rb" "4 * buf_len rb < 65536" using n rb by (auto simp: timecode_rx_def)
  obtain rb1 where rb1: "add_tail ?t rb = Some rb1" "ring_wf rb1" "buf_len rb1 = buf_len rb"
    "ring_contents rb1 = ring_contents rb @ [?t]"
    using add_tail_spec [OF wf(1), of ?t] len by fastforce
  have n1: "timecode_rx (put_ring n (Some rb1))" "ring_buf (recv_info (put_ring n (Some rb1))) = Some rb1"
    using timecode_rx_put_ring [OF n rb1(2)] wf rb1 by (simp_all add: put_ring_def)
  have "ring_contents rb1 \<noteq> []" using rb1(4) by simp
  from recv_data_process_timecode [OF n1 this, of env] env rb len rb1 RING_BUFFER_LENGTH_GET_eq [OF wf(1)] show ?thesis
    by (auto simp: recv_finish_decode_def put_queue_def put_ring_def queue_post_def)
qed

text \<open>C15: A reception on a timecode device delivers exactly the measured pulses followed by the pause, as
  one message at the end of its queue, and leaves the device idle with an empty ring.\<close>

theorem reception_timecode:
  assumes n: "get_node s h = Some n" "recv_status n = IR_STA_RECV_IDLE" "timecode_rx n"
    and rb: "ring_buf (recv_info n) = Some rb" "ring_contents rb = []"
    and cb: "\<not> app_recv_cb (recv_info n)"
    and xs: "20 \<le> length xs" "length xs < buf_len rb - 1" "\<forall>(t, p) \<in> set (x # xs). 0 <s p"
    and q: "dev_notif_queue s = Some []" "recv_dev_run_num s \<noteq> 0"
    and te: "te_fetch_ok te" "quiet (last (map fst (x # xs))) (te_now te)"
      "out_malloc (te_recv te) 0" "post_ret (te_recv te) 0 = OPRT_OK"
  shows "\<exists>s' n' rb'. foldM rx_step (reception lp h x xs te) (Fetching dv, s) = Some (Fetching (Some h), s') \<and>
    get_node s' h = Some n' \<and> recv_status n' = IR_STA_RECV_IDLE \<and>
    recv_queue (recv_info n') = map_option (\<lambda>q. q @ [Timecode (length xs + 1)
       (Some (map snd xs @ [of_nat (recv_timeout (ir_dev_cfg n) * 1000)]))]) (recv_queue (recv_info n)) \<and>
    ring_buf (recv_info n') = Some rb' \<and> ring_contents rb' = []"
proof (rule reception_decodes [OF n(1,2) _ rb(1) _ rb(2) cb _ _ xs(3) q te(1,2)])
  show "drv_status_notif (drv_intfs n) \<noteq> None" "ring_wf rb" using n(3) rb(1) by (auto simp: timecode_rx_def)
  show "length xs \<le> buf_len rb - 1" "1 < buf_len rb" using xs by linarith+
  fix rb' t d assume rb': "ring_wf rb'" "buf_len rb' = buf_len rb" "ring_contents rb' = map snd xs"
  let ?f = "n\<lparr>recv_info := (recv_info n)\<lparr>ring_buf := Some rb', last_time := t\<rparr>, recv_status := IR_STA_RECV_FINISH, ir_drv_hdl := d\<rparr>"
  have f: "timecode_rx ?f" "ring_buf (recv_info ?f) = Some rb'"
    using n(3) rb(1) rb' by (simp_all add: timecode_rx_def)
  from finish_decode_timecode [OF f _ _ te(3,4)] rb' xs(1,2)
  show "\<exists>m. recv_finish_decode (te_recv te) ?f = Some m \<and>
      recv_queue (recv_info m) = map_option (\<lambda>q. q @ [Timecode (length xs + 1)
        (Some (map snd xs @ [of_nat (recv_timeout (ir_dev_cfg n) * 1000)]))]) (recv_queue (recv_info n)) \<and>
      ring_buf (recv_info m) \<noteq> None \<and> drv_intfs m = drv_intfs n"
    by auto
qed

text \<open>The NEC decoder on a ring that holds one received frame.\<close>

lemma get_frame_head_received:
  assumes "nec_received ev m d buf"
  shows "tdl_nec_get_frame_head (Some buf) (length buf) (Some ev) = Some (OPRT_OK, Some 0)"
proof -
  have l: "2 \<le> length buf" and at: "nec_leader_at ev buf 0"
    using assms by (auto simp: nec_received_def nec_leader_at_def)
  then have "[0..<length buf - 1] = 0 # [1..<length buf - 1]" by (simp add: upt_conv_Cons)
  with at l show ?thesis by (simp add: tdl_nec_get_frame_head_eq)
qed

lemma nec_process_loop_frame:
  assumes ev: "nec_windows_disjoint ev" and rcv: "nec_received ev m d buf"
    and len: "length buf = 68 + 4 * unat (nec_repeat_cnt d)" "length buf < 65536" and env: "out_malloc env k"
  shows "nec_process_loop env buf (length buf) (Some ev) m k 0 q =
    (if nec_repeat_cnt d = 0 then Some (OPRT_OK, q)
     else Some (post_ret env k, queue_post (post_ret env k) (Nec_data d) q))"
proof -
  have c: "cut16 (length buf + 65536 - 0) = length buf"
    using cut16_diff [of 0 "length buf"] len(2) by simp
  have c': "cut16 (0 + (66 + 4 * unat (nec_repeat_cnt d))) = 66 + 4 * unat (nec_repeat_cnt d)"
    using len by simp
  have z: "(68 \<le> 66 + 4 * unat (nec_repeat_cnt d)) = (nec_repeat_cnt d \<noteq> 0)"
    using unat_gt_0 [of "nec_repeat_cnt d"] by (auto simp: unat_eq_0)
  show ?thesis
    by (subst nec_process_loop.simps)
       (simp only: c c' drop_0 get_frame_head_received [OF rcv] bind.bind_lunit Let_def env prod.case
          tdl_ir_recv_buf_malloc_def tdl_ir_nec_parser_single_received [OF ev rcv len], simp add: z env len(1))
qed

text \<open>
  A device that receives NEC frames into its queue. A frame with at least one repeat code is
  delivered; one without is decoded and dropped.
\<close>

definition nec_rx :: "NEC_ERR_VAL_T \<Rightarrow> 'd IR_DEV_NODE_T \<Rightarrow> bool" where
  "nec_rx ev n \<longleftrightarrow> prot_opt (ir_dev_cfg n) = IR_PROT_NEC \<and> drv_status_notif (drv_intfs n) \<noteq> None \<and>
     recv_err_val (recv_info n) = Some (ev, True) \<and> nec_windows_disjoint ev"

lemma finish_decode_nec:
  assumes n: "nec_rx ev n" and rb: "ring_buf (recv_info n) = Some rb" "ring_wf rb"
    and len: "length (ring_contents rb) = 67 + 4 * unat (nec_repeat_cnt d)" "length (ring_contents rb) < buf_len rb - 1"
    and rcv: "nec_received ev (is_nec_msb (nec_cfg (ir_dev_cfg n)) \<noteq> 0) d
      (ring_contents rb @ [of_nat (recv_timeout (ir_dev_cfg n) * 1000)])"
    and env: "tmp_malloc env" "out_malloc env 0" "post_ret env 0 = OPRT_OK"
  shows "\<exists>m. recv_finish_decode env n = Some m \<and> ring_buf (recv_info m) \<noteq> None \<and> drv_intfs m = drv_intfs n \<and>
    recv_queue (recv_info m) = (if nec_repeat_cnt d = 0 then recv_queue (recv_info n)
      else map_option (\<lambda>q. q @ [Nec_data d]) (recv_queue (recv_info n)))"
proof -
  let ?t = "of_nat (recv_timeout (ir_dev_cfg n) * 1000)" and ?msb = "is_nec_msb (nec_cfg (ir_dev_cfg n)) \<noteq> 0"
  have ne: "0 < length (ring_contents rb)" using len by simp
  obtain rb1 where rb1: "add_tail ?t rb = Some rb1" "ring_wf rb1" "buf_len rb1 = buf_len rb"
    "ring_contents rb1 = ring_contents rb @ [?t]"
    using add_tail_spec [OF rb(2) ne, of ?t] len by fastforce
  let ?c = "ring_contents rb1" and ?n1 = "put_ring n (Some rb1)"
  have l: "length ?c = 68 + 4 * unat (nec_repeat_cnt d)" "length ?c < 65536"
    using rb1 len ring_contents_bounded [OF rb1(2)] rb(2) by (auto simp: ring_wf_def)
  have rd: "tdl_ir_ring_buf_read_no_update rb1 (Some (replicate (length ?c) 0)) (length ?c) = Some (Some ?c)"
    using ring_copy_contents [OF rb1(2), of "length ?c"] rb1(4) by (simp add: tdl_ir_ring_buf_read_no_update_def)
  have lp: "nec_process_loop env ?c (length ?c) (Some ev) ?msb 0 0 (recv_queue (recv_info n)) =
    (if nec_repeat_cnt d = 0 then Some (OPRT_OK, recv_queue (recv_info n))
     else Some (OPRT_OK, queue_post OPRT_OK (Nec_data d) (recv_queue (recv_info n))))"
    using nec_process_loop_frame [of ev ?msb d ?c env 0] n rcv rb1(4) l env by (simp add: nec_rx_def)
  have "tdl_ir_recv_data_process env (Some ?n1) = Some (OPRT_OK, Some (put_queue ?n1
      (if nec_repeat_cnt d = 0 then recv_queue (recv_info n)
       else queue_post OPRT_OK (Nec_data d) (recv_queue (recv_info n)))))"
    using n env(1) rd l(2) lp RING_BUFFER_LENGTH_GET_eq [OF rb1(2)]
    by (simp add: tdl_ir_recv_data_process_def put_ring_def nec_rx_def err_val_ptr_def Let_def)
  with rb rb1 len(1) RING_BUFFER_LENGTH_GET_eq [OF rb(2)] show ?thesis
    by (auto simp: recv_finish_decode_def put_queue_def put_ring_def queue_post_def)
qed

text \<open>C3: A reception of a NEC frame on a device without a callback delivers the decoded frame when it
  has at least one repeat code; a frame without repeat codes is decoded and dropped.\<close>

theorem reception_nec:
  assumes n: "get_node s h = Some n" "recv_status n = IR_STA_RECV_IDLE" "nec_rx ev n"
    and rb: "ring_buf (recv_info n) = Some rb" "ring_wf rb" "ring_contents rb = []"
    and cb: "\<not> app_recv_cb (recv_info n)"
    and xs: "length xs = 67 + 4 * unat (nec_repeat_cnt d)" "length xs < buf_len rb - 1" "\<forall>(t, p) \<in> set (x # xs). 0 <s p"
    and rcv: "nec_received ev (is_nec_msb (nec_cfg (ir_dev_cfg n)) \<noteq> 0) d
      (map snd xs @ [of_nat (recv_timeout (ir_dev_cfg n) * 1000)])"
    and q: "dev_notif_queue s = Some []" "recv_dev_run_num s \<noteq> 0"
    and te: "te_fetch_ok te" "quiet (last (map fst (x # xs))) (te_now te)"
      "tmp_malloc (te_recv te)" "out_malloc (te_recv te) 0" "post_ret (te_recv te) 0 = OPRT_OK"
  shows "\<exists>s' n' rb'. foldM rx_step (reception lp h x xs te) (Fetching dv, s) = Some (Fetching (Some h), s') \<and>
    get_node s' h = Some n' \<and> recv_status n' = IR_STA_RECV_IDLE \<and>
    recv_queue (recv_info n') = (if nec_repeat_cnt d = 0 then recv_queue (recv_info n)
      else map_option (\<lambda>q. q @ [Nec_data d]) (recv_queue (recv_info n))) \<and>
    ring_buf (recv_info n') = Some rb' \<and> ring_contents rb' = []"
proof (rule reception_decodes [OF n(1,2) _ rb cb _ _ xs(3) q te(1,2)])
  show "drv_status_notif (drv_intfs n) \<noteq> None" using n(3) by (simp add: nec_rx_def)
  show "length xs \<le> buf_len rb - 1" "1 < buf_len rb" using xs by linarith+
  fix rb' t d' assume rb': "ring_wf rb'" "buf_len rb' = buf_len rb" "ring_contents rb' = map snd xs"
  let ?f = "n\<lparr>recv_info := (recv_info n)\<lparr>ring_buf := Some rb', last_time := t\<rparr>, recv_status := IR_STA_RECV_FINISH, ir_drv_hdl := d'\<rparr>"
  have f: "nec_rx ev ?f" "ring_buf (recv_info ?f) = Some rb'" using n(3) by (simp_all add: nec_rx_def)
  from finish_decode_nec [OF f rb'(1), of d "te_recv te"] rb' xs(1,2) rcv te(3-5)
  show "\<exists>m. recv_finish_decode (te_recv te) ?f = Some m \<and>
      recv_queue (recv_info m) = (if nec_repeat_cnt d = 0 then recv_queue (recv_info n)
        else map_option (\<lambda>q. q @ [Nec_data d]) (recv_queue (recv_info n))) \<and>
      ring_buf (recv_info m) \<noteq> None \<and> drv_intfs m = drv_intfs n"
    by auto
qed

section \<open>The decoder that runs during a reception ends\<close>

definition sync_inv :: "u32 list \<Rightarrow> sync_state \<Rightarrow> bool" where
  "sync_inv recv_data st \<longleftrightarrow> sy_offset st + sy_len st = length recv_data \<and> length recv_data < 65536 \<and>
     ring_wf (sy_ring st) \<and> sy_frame_len st < 65536"

text \<open>The search for a leader looks one cell too far only when the last cell looks like a leader.\<close>

definition no_open_leader :: "NEC_ERR_VAL_T \<Rightarrow> u32 list \<Rightarrow> bool" where
  "no_open_leader ev buf \<longleftrightarrow> \<not> ABS (last buf) NEC_LEADER_HIGH_US \<le> leader_high_err_val ev"

lemma get_frame_head_total:
  assumes "2 \<le> length buf" and "no_open_leader ev buf"
  shows "\<exists>r head. tdl_nec_get_frame_head (Some buf) (length buf) (Some ev) = Some (r, head) \<and>
    (r = OPRT_OK \<longrightarrow> (\<exists>i. head = Some i \<and> i < length buf))"
  using assms tdl_nec_get_frame_head_eq [OF assms(1), of ev]
  by (auto simp: no_open_leader_def find_Some_iff split: option.splits)

lemma sync_next_head_ok:
  assumes inv: "sync_inv recv_data st" and ev: "no_open_leader ev recv_data"
  shows "\<exists>fin st'. sync_next_head recv_data (Some ev) finished st = Some (fin, st') \<and>
    sync_inv recv_data st' \<and> sy_len st' \<le> sy_len st"
proof (cases "sy_len st > 4")
  case True
  let ?b = "drop (sy_offset st) recv_data"
  have b: "length ?b = sy_len st" "no_open_leader ev ?b"
    using inv True ev by (auto simp: sync_inv_def no_open_leader_def)
  obtain ret head where h: "tdl_nec_get_frame_head (Some ?b) (sy_len st) (Some ev) = Some (ret, head)"
    "ret = OPRT_OK \<longrightarrow> (\<exists>i. head = Some i \<and> i < sy_len st)"
    using get_frame_head_total [of ?b ev] b True by auto
  obtain rb where rb: "tdl_ir_ring_buf_data_discard (sy_ring st) (sy_frame_len st) = Some rb" "ring_wf rb"
    using tdl_ir_ring_buf_data_discard_spec [of "sy_ring st" "sy_frame_len st"] inv by (auto simp: sync_inv_def)
  from h rb inv True show ?thesis
    by (cases "ret = OPRT_OK") (auto simp: sync_next_head_def sync_inv_def)
qed (use inv in \<open>simp add: sync_next_head_def\<close>)

lemma sync_report_ok:
  assumes "sync_inv recv_data st"
  shows "\<exists>st'. sync_report True r c fin st = Some st' \<and> sync_inv recv_data st' \<and> sy_len st' = sy_len st"
  using assms by (simp add: sync_report_def sync_inv_def)

lemma sync_round_ok:
  assumes inv: "sync_inv recv_data st" and len: "66 \<le> sy_len st" and ev: "no_open_leader ev recv_data"
  shows "\<exists>st'. sync_round recv_data (Some ev) msb finished True st = Some st' \<and>
    sync_inv recv_data st' \<and> sy_len st' < sy_len st"
proof -
  have l: "length (drop (sy_offset st) recv_data) = sy_len st" "sy_len st < 65536"
    using inv by (auto simp: sync_inv_def)
  obtain r c where r: "tdl_ir_nec_parser_single (Some (drop (sy_offset st) recv_data)) (sy_len st)
      (Some zero_nec) (Some ev) msb = Some (r, Some c)" "2 \<le> r" "r \<le> sy_len st"
    using tdl_ir_nec_parser_single_progress [OF len _ l(2), of "drop (sy_offset st) recv_data" zero_nec ev msb] l
    by auto
  let ?st = "st\<lparr>sy_offset := cut16 (sy_offset st + r), sy_len := cut16 (sy_len st + 65536 - r),
      sy_frame_len := cut16 (sy_frame_len st + r)\<rparr>"
  have st1: "sync_inv recv_data ?st" "sy_len ?st < sy_len st"
    using inv r l(2) by (auto simp: sync_inv_def)
  obtain fin st2 where st2: "sync_next_head recv_data (Some ev) finished ?st = Some (fin, st2)"
    "sync_inv recv_data st2" "sy_len st2 \<le> sy_len ?st"
    using sync_next_head_ok [OF st1(1) ev] by blast
  obtain st3 where "sync_report True r c fin st2 = Some st3" "sync_inv recv_data st3" "sy_len st3 = sy_len st2"
    using sync_report_ok [OF st2(2)] by blast
  with r(1) st1(2) st2 show ?thesis by (simp add: sync_round_def)
qed

lemma sync_loop_total:
  assumes "sync_inv recv_data st" and "no_open_leader ev recv_data"
  shows "\<exists>st'. sync_loop recv_data (Some ev) msb finished True st = Some st' \<and>
    sync_inv recv_data st' \<and> sy_len st' < 66"
  using assms(1)
proof (induction "sy_len st" arbitrary: st rule: less_induct)
  case less
  show ?case
  proof (cases "66 \<le> sy_len st")
    case True
    from sync_round_ok [OF less.prems True assms(2)] obtain st1 where
      st1: "sync_round recv_data (Some ev) msb finished True st = Some st1" "sync_inv recv_data st1" "sy_len st1 < sy_len st"
      by blast
    from less.hyps [OF st1(3,2)] True st1(1) show ?thesis by (subst sync_loop.simps) simp
  next
    case False
    with less.prems show ?thesis by (subst sync_loop.simps) simp
  qed
qed

text \<open>The decoder returns for every ring in order that holds something and has no open leader at its end.\<close>

text \<open>C33: The decoder that runs during a reception returns for every ring in order that holds
  something, unless the last stored pulse looks like the start of a leader.\<close>

theorem recv_data_process_sync_total:
  assumes n: "get_node s h = Some n" and rb: "ring_buf (recv_info n) = Some rb" "ring_wf rb" "ring_contents rb \<noteq> []"
    and ev: "recv_err_val (recv_info n) = Some (ev, True)" "no_open_leader ev (ring_contents rb)"
    and cb: "app_recv_cb (recv_info n)"
  shows "\<exists>r s'. tdl_ir_recv_data_process_sync env s (Some h) = Some (r, s')"
proof -
  let ?c = "ring_contents rb"
  have l: "length ?c < 65536" using ring_contents_bounded [OF rb(2)] rb(2) by (auto simp: ring_wf_def)
  have rd: "tdl_ir_ring_buf_read_no_update rb (Some (replicate (length ?c) 0)) (length ?c) = Some (Some ?c)"
    using ring_copy_contents [OF rb(2,3)] by (simp add: tdl_ir_ring_buf_read_no_update_def)
  have dis: "\<exists>rb'. tdl_ir_ring_buf_data_discard rb (length ?c) = Some rb'"
    using tdl_ir_ring_buf_data_discard_spec [OF rb(2) l] by blast
  have "\<exists>r head. tdl_nec_get_frame_head (Some ?c) (length ?c) (Some ev) = Some (r, head) \<and>
      (r = OPRT_OK \<longrightarrow> (\<exists>i. head = Some i \<and> i < length ?c))"
    using get_frame_head_total [OF _ ev(2)] by (cases "2 \<le> length ?c") (auto simp: tdl_nec_get_frame_head_def)
  then obtain r head where h: "tdl_nec_get_frame_head (Some ?c) (length ?c) (Some ev) = Some (r, head)"
      "r = OPRT_OK \<longrightarrow> (\<exists>i. head = Some i \<and> i < length ?c)" by blast
  have lp: "\<exists>st'. sync_loop ?c (Some ev) msb fin True
      \<lparr>sy_offset = i, sy_len = cut16 (length ?c + 65536 - i), sy_frame_len = i, sy_ret = OPRT_OK,
       sy_ring = rb, sy_last_total = length ?c, sy_last_repeat = lr, sy_calls = []\<rparr> = Some st'" if "i < length ?c" for msb fin i lr
    using sync_loop_total [of ?c "\<lparr>sy_offset = i, sy_len = cut16 (length ?c + 65536 - i), sy_frame_len = i, sy_ret = OPRT_OK,
       sy_ring = rb, sy_last_total = length ?c, sy_last_repeat = lr, sy_calls = []\<rparr>" ev msb fin] that l rb(2) ev(2)
    by (auto simp: sync_inv_def)
  note simps = tdl_ir_recv_data_process_sync_def err_val_ptr_def Let_def
  show ?thesis
  proof (cases "r = OPRT_OK")
    case True
    with h obtain i where i: "head = Some i" "i < length ?c" by blast
    obtain st' where "sync_loop ?c (Some ev) (is_nec_msb (nec_cfg (ir_dev_cfg n)) \<noteq> 0) (recv_status n = IR_STA_RECV_FINISH) True
      \<lparr>sy_offset = i, sy_len = cut16 (length ?c + 65536 - i), sy_frame_len = i, sy_ret = OPRT_OK,
       sy_ring = rb, sy_last_total = length ?c, sy_last_repeat = last_repeat s, sy_calls = []\<rparr> = Some st'"
      using lp [OF i(2)] by blast
    with True i n rb(1) RING_BUFFER_LENGTH_GET_eq [OF rb(2)] l rd h ev(1) cb show ?thesis by (simp add: simps)
  next
    case False
    with n rb(1) RING_BUFFER_LENGTH_GET_eq [OF rb(2)] l rd dis h ev(1) show ?thesis by (auto simp: simps)
  qed
qed

section \<open>Concrete receptions\<close>

definition ex_ring :: IR_RING_BUF_T where
  "ex_ring = \<lparr>buf_len = 80, write_idx = 0, read_idx = 0, p_buf = replicate 80 0\<rparr>"

definition ex_node :: "nat \<Rightarrow> bool \<Rightarrow> IR_RING_BUF_T \<Rightarrow> unit IR_DEV_NODE_T" where
  "ex_node prot cb rb = (new_node ''ir'' () example_intfs)\<lparr>is_open := True,
     recv_info := \<lparr>is_run = True, ring_buf = Some rb, last_time = 0,
       recv_err_val = Some (nec_err_val_of nec_cfg_example, True), recv_queue = Some [], app_recv_cb = cb\<rparr>,
     ir_dev_cfg := \<lparr>ir_mode = IR_MODE_RECV_ONLY, recv_queue_num = 3, recv_buf_size = 320, recv_timeout = 300, prot_opt = prot,
       nec_cfg = nec_cfg_example\<rparr>\<rparr>"

definition ex_sys :: "nat \<Rightarrow> bool \<Rightarrow> IR_RING_BUF_T \<Rightarrow> unit ir_sys" where
  "ex_sys prot cb rb = \<lparr>recv_dev_num = 1, recv_dev_run_num = 1, ir_nodes = [ex_node prot cb rb], dev_recv_thrd = True,
     dev_notif_queue = Some [], last_total_len = 0, last_repeat = -1, lp_calls = [], app_calls = []\<rparr>"

definition ex_env :: task_env where
  "ex_env = \<lparr>te_now = 1000, te_lp = True, te_fetch_ok = True,
     te_recv = \<lparr>tmp_malloc = True, out_malloc = (\<lambda>_. True), post_ret = (\<lambda>_. OPRT_OK)\<rparr>\<rparr>"

lemma ex_ring_simps: "ring_wf ex_ring" "ring_contents ex_ring = []" "buf_len ex_ring = 80"
  by (simp_all add: ex_ring_def ring_wf_def ring_contents_def)

lemma ex_node_simps [simp]:
  "recv_status (ex_node prot cb rb) = IR_STA_RECV_IDLE" "drv_status_notif (drv_intfs (ex_node prot cb rb)) \<noteq> None"
  "ring_buf (recv_info (ex_node prot cb rb)) = Some rb" "app_recv_cb (recv_info (ex_node prot cb rb)) = cb"
  "recv_err_val (recv_info (ex_node prot cb rb)) = Some (nec_err_val_of nec_cfg_example, True)"
  "recv_queue (recv_info (ex_node prot cb rb)) = Some []"
  "prot_opt (ir_dev_cfg (ex_node prot cb rb)) = prot" "recv_timeout (ir_dev_cfg (ex_node prot cb rb)) = 300"
  "nec_cfg (ir_dev_cfg (ex_node prot cb rb)) = nec_cfg_example"
  "get_node (ex_sys prot cb rb) 0 = Some (ex_node prot cb rb)"
  "dev_notif_queue (ex_sys prot cb rb) = Some []" "recv_dev_run_num (ex_sys prot cb rb) = 1"
  by (simp_all add: ex_node_def ex_sys_def new_node_def example_intfs_def get_node_def rd_def)

lemma ex_env_simps [simp]:
  "te_fetch_ok ex_env" "te_now ex_env = 1000" "tmp_malloc (te_recv ex_env)" "out_malloc (te_recv ex_env) k"
  "post_ret (te_recv ex_env) k = OPRT_OK"
  by (simp_all add: ex_env_def)

lemma ex_timecode_rx: "timecode_rx (ex_node IR_PROT_TIMECODE cb ex_ring)"
  by (simp add: timecode_rx_def ex_ring_simps)

lemma nec_cfg_example_ok: "nec_cfg_ok nec_cfg_example"
  by (simp add: nec_cfg_ok_def nec_cfg_example_def)

theorem rx_run_safe_witness:
  "\<exists>st'. foldM rx_step [Irq True 1 OPRT_OK 0 500, Task ex_env, Irq True 2 OPRT_OK 0 600, Task ex_env]
      (Fetching None, ex_sys IR_PROT_TIMECODE False ex_ring) = Some st' \<and> rx_inv {0} st'"
proof (rule rx_run_safe)
  show "rx_inv {0} (Fetching None, ex_sys IR_PROT_TIMECODE False ex_ring)"
    by (simp add: rx_inv_def queue_handles_def ex_timecode_rx)
qed simp

theorem reception_timecode_witness:
  "\<exists>s' n' rb'. foldM rx_step (reception True 0 (9, 100) (replicate 20 (10, 500)) ex_env)
      (Fetching None, ex_sys IR_PROT_TIMECODE False ex_ring) = Some (Fetching (Some 0), s') \<and>
    get_node s' 0 = Some n' \<and> recv_status n' = IR_STA_RECV_IDLE \<and>
    recv_queue (recv_info n') = Some [Timecode 21 (Some (replicate 20 500 @ [300000]))] \<and>
    ring_buf (recv_info n') = Some rb' \<and> ring_contents rb' = []"
  using reception_timecode [of "ex_sys IR_PROT_TIMECODE False ex_ring" 0 "ex_node IR_PROT_TIMECODE False ex_ring" ex_ring
      "replicate 20 (10, 500)" "(9, 100)" ex_env True None]
  by (simp add: ex_timecode_rx ex_ring_simps quiet_def word_sless_alt)

text \<open>The last pause of a frame is not measured: the timeout stands for it.\<close>

lemma nec_received_tail:
  assumes "nec_received ev m d buf" and "length buf = 68 + 4 * unat (nec_repeat_cnt d)"
  shows "nec_received ev m d (take (67 + 4 * unat (nec_repeat_cnt d)) buf @ [t])"
  using assms by (simp add: nec_received_def nth_append)

definition ex_frame :: "IR_DATA_NEC_T \<Rightarrow> (u32 \<times> u32) list" where
  "ex_frame d = map (Pair 10) (take (67 + 4 * unat (nec_repeat_cnt d)) (nec_frame False d))"

lemma nec_frame_sless:
  assumes "p \<in> set (nec_frame m d)"
  shows "0 <s p"
proof -
  have "165 \<le> unat p" "unat p \<le> 1000055" using nec_frame_range [OF assms] by auto
  then have "sint p = int (unat p)"
    unfolding sint_uint uint_nat by (intro signed_take_bit_int_eq_self) (simp_all del: of_nat_unat)
  with \<open>165 \<le> unat p\<close> show ?thesis by (simp add: word_sless_alt del: of_nat_unat)
qed

theorem reception_nec_witness:
  "\<exists>s' n' rb'. foldM rx_step (reception True 0 (9, 100) (ex_frame nec_data_example) ex_env)
      (Fetching None, ex_sys IR_PROT_NEC False ex_ring) = Some (Fetching (Some 0), s') \<and>
    get_node s' 0 = Some n' \<and> recv_status n' = IR_STA_RECV_IDLE \<and>
    recv_queue (recv_info n') = Some [Nec_data nec_data_example] \<and>
    ring_buf (recv_info n') = Some rb' \<and> ring_contents rb' = []"
proof -
  let ?d = nec_data_example and ?ev = "nec_err_val_of nec_cfg_example"
  let ?xs = "ex_frame ?d"
  have r: "unat (nec_repeat_cnt ?d) = 2" "nec_repeat_cnt ?d \<noteq> 0" by (simp_all add: nec_data_example_def)
  have lx: "length ?xs = 67 + 4 * unat (nec_repeat_cnt ?d)" by (simp add: ex_frame_def)
  have "nec_received ?ev False ?d (nec_frame False ?d @ [])"
    by (rule nec_frame_received) (rule nec_cfg_ok_windows(1) [OF nec_cfg_example_ok])
  then have rc: "nec_received ?ev False ?d (map snd ?xs @ [of_nat (300 * 1000)])"
    using nec_received_tail [of ?ev False ?d "nec_frame False ?d" "of_nat (300 * 1000)"]
    by (simp add: ex_frame_def comp_def)
  have ps: "\<forall>(t, p) \<in> set ((9, 100) # ?xs). 0 <s p"
    using nec_frame_sless by (auto simp: ex_frame_def word_sless_alt dest!: in_set_takeD)
  have "map fst ?xs = replicate 75 10" by (simp add: ex_frame_def comp_def map_replicate_const r)
  then have q: "quiet (last (map fst ((9, 100) # ?xs))) (te_now ex_env)" using lx r by (auto simp: quiet_def)
  have nx: "nec_rx ?ev (ex_node IR_PROT_NEC False ex_ring)"
    using nec_cfg_ok_windows(2) [OF nec_cfg_example_ok] by (simp add: nec_rx_def)
  have msb: "(is_nec_msb (nec_cfg (ir_dev_cfg (ex_node IR_PROT_NEC False ex_ring))) \<noteq> 0) = False"
    by (simp add: nec_cfg_example_def)
  show ?thesis
    using reception_nec [of "ex_sys IR_PROT_NEC False ex_ring" 0 "ex_node IR_PROT_NEC False ex_ring" ?ev ex_ring ?xs ?d
        "(9, 100)" ex_env True None, unfolded msb] nx lx r rc ps q
    by (simp add: ex_ring_simps)
qed

theorem recv_data_process_sync_total_witness:
  "\<exists>r s'. tdl_ir_recv_data_process_sync (te_recv ex_env) (ex_sys IR_PROT_NEC True (ex_ring\<lparr>write_idx := 2\<rparr>)) (Some 0) = Some (r, s')"
proof -
  let ?rb = "ex_ring\<lparr>write_idx := 2\<rparr>" and ?ev = "nec_err_val_of nec_cfg_example"
  have wf: "ring_wf ?rb" and c: "ring_contents ?rb = [0, 0]"
    by (simp_all add: ex_ring_def ring_wf_def ring_contents_def numeral_2_eq_2)
  have "no_open_leader ?ev [0, 0]"
    by (simp add: no_open_leader_def nec_err_val_of_def nec_cfg_example_def nec_err_def ABS_def word_le_nat_alt)
  then show ?thesis
    using recv_data_process_sync_total [of "ex_sys IR_PROT_NEC True ?rb" 0 "ex_node IR_PROT_NEC True ?rb" ?rb ?ev "te_recv ex_env"]
      wf c by simp
qed

end
