(* ===== verification/IR_Life.thy ===== *)
theory IR_Life
  imports IR_Recv
begin

text \<open>
  The life of the receive resources of \<^verbatim>\<open>tdl_ir_dev_manage.c\<close>: the counter of running receivers, the
  ring and the queue of each device, through registration, opening, configuration and closing.
\<close>

section \<open>The invariant\<close>

definition recv_res_ok :: "'d IR_DEV_NODE_T \<Rightarrow> bool" where
  "recv_res_ok n \<longleftrightarrow> (is_run (recv_info n) \<longleftrightarrow> ring_buf (recv_info n) \<noteq> None) \<and>
     (is_run (recv_info n) \<longleftrightarrow> recv_queue (recv_info n) \<noteq> None)"

definition running :: "'d IR_DEV_NODE_T \<Rightarrow> bool" where
  "running n = is_run (recv_info n)"

definition res_inv :: "'d ir_sys \<Rightarrow> bool" where
  "res_inv s \<longleftrightarrow> (\<forall>n \<in> set (ir_nodes s). recv_res_ok n) \<and>
     recv_dev_run_num s = length (filter running (ir_nodes s)) \<and> length (ir_nodes s) < 65536"

lemma length_filter_update:
  "i < length xs \<Longrightarrow>
    length (filter P (xs[i := y])) + of_bool (P (xs ! i)) = length (filter P xs) + of_bool (P y)"
proof (induction xs arbitrary: i)
  case (Cons x xs)
  then show ?case by (cases i) auto
qed simp

lemma res_inv_node: "res_inv s \<Longrightarrow> get_node s h = Some n \<Longrightarrow> recv_res_ok n"
  by (auto simp: res_inv_def get_node_def rd_def split: if_splits)

text \<open>A change of one node that moves the counter along.\<close>

lemma res_inv_set_node:
  assumes inv: "res_inv s" and n: "get_node s h = Some n" and ok: "recv_res_ok n'"
    and k: "k + of_bool (running n) = recv_dev_run_num s + of_bool (running n')"
  shows "res_inv ((set_node s h n')\<lparr>recv_dev_run_num := k\<rparr>)"
proof -
  have h: "h < length (ir_nodes s)" "ir_nodes s ! h = n" using n by (auto simp: get_node_def rd_def split: if_splits)
  then have "\<forall>m \<in> set ((ir_nodes s)[h := n']). recv_res_ok m"
    using inv ok by (auto simp: res_inv_def dest!: set_update_subset_insert [THEN subsetD])
  moreover have "k = length (filter running ((ir_nodes s)[h := n']))"
    using length_filter_update [OF h(1), of running n'] h(2) k inv by (simp add: res_inv_def)
  ultimately show ?thesis using inv by (simp add: res_inv_def set_node_def)
qed

lemma res_inv_same:
  assumes "res_inv s" and "get_node s h = Some n" and "recv_res_ok n'" and "running n' = running n"
  shows "res_inv (set_node s h n')"
  using res_inv_set_node [OF assms(1-3), of "recv_dev_run_num s"] assms(4) by (simp add: set_node_def)

lemma res_inv_other [simp]:
  "res_inv (s\<lparr>dev_notif_queue := q\<rparr>) = res_inv s" "res_inv (s\<lparr>lp_calls := l\<rparr>) = res_inv s"
  "res_inv (s\<lparr>last_repeat := i\<rparr>) = res_inv s" "res_inv (s\<lparr>last_total_len := k\<rparr>) = res_inv s"
  "res_inv (s\<lparr>app_calls := c\<rparr>) = res_inv s" "res_inv (s\<lparr>recv_dev_num := k\<rparr>) = res_inv s" "res_inv (s\<lparr>dev_recv_thrd := b\<rparr>) = res_inv s"
  by (simp_all add: res_inv_def)

lemma run_num_less: "res_inv s \<Longrightarrow> recv_dev_run_num s < 65536"
  using le_less_trans [OF length_filter_le [of running "ir_nodes s"]] by (simp add: res_inv_def)

section \<open>Every operation keeps it\<close>

lemma recv_init_inv:
  assumes inv: "res_inv s" and run: "tdl_ir_recv_init rm qr s (Some h) = Some (r, s')"
  shows "res_inv s' \<and> (r = OPRT_OK \<longrightarrow> (\<exists>n. get_node s' h = Some n \<and> running n))"
proof -
  from run obtain n where n: "get_node s h = Some n" by (auto simp: tdl_ir_recv_init_def split: bind_splits)
  have ok: "recv_res_ok n" by (rule res_inv_node [OF inv n])
  have h: "h < length (ir_nodes s)" by (rule get_node_less [OF n])
  show ?thesis
  proof (cases "is_run (recv_info n)")
    case True
    with run n inv show ?thesis by (auto simp: tdl_ir_recv_init_def running_def)
  next
    case False
    with ok have nul: "ring_buf (recv_info n) = None" "recv_queue (recv_info n) = None" by (simp_all add: recv_res_ok_def)
    have same: "n\<lparr>recv_info := (recv_info n)\<lparr>ring_buf := None, recv_queue := None\<rparr>\<rparr> = n"
      using nul by auto
    show ?thesis
    proof (cases "rm \<and> qr = OPRT_OK")
      case True
      let ?rb = "snd (tdl_ir_ring_buf_init rm (recv_buf_size (ir_dev_cfg n)))"
      let ?n = "n\<lparr>recv_info := (recv_info n)\<lparr>ring_buf := ?rb, recv_queue := Some [], is_run := True\<rparr>\<rparr>"
      have s': "r = OPRT_OK" "s' = (set_node s h ?n)\<lparr>recv_dev_run_num := cut16 (recv_dev_run_num s + 1)\<rparr>"
        using run n False nul True by (auto simp: tdl_ir_recv_init_def tdl_ir_ring_buf_init_def)
      have "length (filter running (ir_nodes s)) < length (ir_nodes s)"
        using n False by (intro length_filter_less [of n])
          (auto simp: running_def get_node_def rd_def split: if_splits)
      then have "cut16 (recv_dev_run_num s + 1) = recv_dev_run_num s + 1" using inv by (simp add: res_inv_def)
      moreover have "recv_res_ok ?n" using True by (simp add: recv_res_ok_def tdl_ir_ring_buf_init_def)
      ultimately have "res_inv s'"
        unfolding s'(2) by (intro res_inv_set_node [OF inv n]) (use False in \<open>auto simp: running_def\<close>)
      with s' h show ?thesis by (simp add: running_def)
    next
      case fail: False
      with run n False nul same have "s' = s" "r \<noteq> OPRT_OK"
        by (auto simp: tdl_ir_recv_init_def tdl_ir_ring_buf_init_def set_node_same split: if_splits)
      with inv show ?thesis by simp
    qed
  qed
qed

lemma recv_deinit_inv:
  assumes inv: "res_inv s" and run: "tdl_ir_recv_deinit s (Some h) = Some (r, s')"
  shows "res_inv s' \<and> (\<exists>n. get_node s' h = Some n \<and> \<not> running n)"
proof -
  from run obtain n where n: "get_node s h = Some n" by (auto simp: tdl_ir_recv_deinit_def split: bind_splits)
  let ?n = "n\<lparr>recv_info := (recv_info n)\<lparr>ring_buf := None, recv_queue := None, is_run := False\<rparr>\<rparr>"
  let ?k = "if recv_queue (recv_info n) \<noteq> None then cut16 (recv_dev_run_num s + 65535) else recv_dev_run_num s"
  have s': "s' = (set_node s h ?n)\<lparr>recv_dev_run_num := ?k\<rparr>"
    using run n by (auto simp: tdl_ir_recv_deinit_def)
  have ok: "recv_res_ok n" by (rule res_inv_node [OF inv n])
  have "?k + of_bool (running n) = recv_dev_run_num s"
  proof (cases "running n")
    case True
    with n have "filter running (ir_nodes s) \<noteq> []"
      by (auto simp: filter_empty_conv get_node_def rd_def split: if_splits)
    with inv have "1 \<le> recv_dev_run_num s" by (cases "filter running (ir_nodes s)") (auto simp: res_inv_def)
    with cut16_diff [of 1 "recv_dev_run_num s"] run_num_less [OF inv] True ok show ?thesis
      by (simp add: running_def recv_res_ok_def add.commute)
  next
    case False
    with ok have "recv_queue (recv_info n) = None" by (auto simp: running_def recv_res_ok_def)
    with False show ?thesis by simp
  qed
  then have "res_inv s'" unfolding s' by (intro res_inv_set_node [OF inv n]) (auto simp: running_def recv_res_ok_def)
  with s' get_node_less [OF n] show ?thesis by (simp add: running_def)
qed

lemma server_start_inv:
  assumes inv: "res_inv s" and run: "tdl_ir_recv_server_start se s (Some h) = Some (r, s')"
  shows "res_inv s'" and "r = OPRT_OK \<Longrightarrow> \<exists>n. get_node s' h = Some n \<and> running n"
proof -
  from run obtain r1 s1 where i: "tdl_ir_recv_init (se_ring_malloc se) (se_queue_ret se) s (Some h) = Some (r1, s1)"
    by (auto simp: tdl_ir_recv_server_start_def split: bind_splits)
  with run recv_init_inv [OF inv i] show "res_inv s'" "r = OPRT_OK \<Longrightarrow> \<exists>n. get_node s' h = Some n \<and> running n"
    by (auto simp: tdl_ir_recv_server_start_def Let_def split: if_splits)
qed

lemma status_notif_node: "status_notif n st = Some (r, n') \<Longrightarrow> \<exists>d. n' = n\<lparr>ir_drv_hdl := d\<rparr>"
  by (auto simp: status_notif_def split: bind_splits prod.splits)

lemma notify_node_inv:
  assumes inv: "res_inv s" and run: "notify_node s h st = Some (r, s')"
  shows "res_inv s'"
proof -
  from run obtain n n' where n: "get_node s h = Some n" "status_notif n st = Some (r, n')" "s' = set_node s h n'"
    by (auto simp: notify_node_def split: bind_splits)
  with status_notif_node [OF n(2)] res_inv_node [OF inv n(1)] show ?thesis
    by (auto simp: running_def recv_res_ok_def intro!: res_inv_same [OF inv n(1)])
qed

lemma dev_recv_inv:
  assumes inv: "res_inv s" and run: "tdl_ir_dev_recv e s (Some h) = Some (r, x, s')"
  shows "res_inv s'"
proof -
  from run obtain n where n: "get_node s h = Some n" by (auto simp: tdl_ir_dev_recv_def split: bind_splits)
  have "res_inv (set_node s h (put_queue n (Some xs)))" if "recv_queue (recv_info n) = Some (y # xs)" for y xs
    using res_inv_node [OF inv n] that
    by (intro res_inv_same [OF inv n]) (auto simp: put_queue_def running_def recv_res_ok_def)
  with inv run n show ?thesis
    by (auto simp: tdl_ir_dev_recv_def split: if_splits option.splits list.splits)
qed

text \<open>Emptying the queue ends, because a fetch from an empty queue fails, and leaves it empty.\<close>

lemma recv_queue_clean_total:
  assumes "get_node s h = Some n" and "e \<noteq> OPRT_OK" and "recv_queue (recv_info n) = Some q"
    and "is_open n" and "ir_mode (ir_dev_cfg n) \<noteq> IR_MODE_SEND_ONLY"
  shows "recv_queue_clean lp e h s = Some ((set_node s h (put_queue n (Some [])))\<lparr>lp_calls :=
    lp_calls s @ (if lp then replicate (length q) True else [])\<rparr>)"
  using assms
proof (induction q arbitrary: s n)
  case Nil
  then have "put_queue n (Some []) = n" by (auto simp: put_queue_def)
  with Nil set_node_same [OF Nil(1)] show ?case
    by (subst recv_queue_clean.simps) (simp add: tdl_ir_dev_recv_def)
next
  case (Cons x q)
  let ?n = "put_queue n (Some q)"
  let ?s = "snd (tdl_ir_dev_recv_release lp (set_node s h ?n) (Some h) (Some x))"
  have h: "h < length (ir_nodes s)" using Cons.prems(1) by (rule get_node_less)
  have step: "recv_queue_clean lp e h s = recv_queue_clean lp e h ?s"
    by (subst recv_queue_clean.simps) (use Cons.prems in \<open>simp add: tdl_ir_dev_recv_def\<close>)
  have "recv_queue_clean lp e h ?s = Some ((set_node ?s h (put_queue ?n (Some [])))\<lparr>lp_calls :=
    lp_calls ?s @ (if lp then replicate (length q) True else [])\<rparr>)"
    by (rule Cons.IH) (use Cons.prems h in \<open>auto simp: tdl_ir_dev_recv_release_def put_queue_def\<close>)
  with step show ?case
    by (simp add: tdl_ir_dev_recv_release_def put_queue_def set_node_def)
qed

lemma recv_queue_clean_refused:
  assumes "get_node s h = Some n" and "e \<noteq> OPRT_OK"
    and "\<not> is_open n \<or> ir_mode (ir_dev_cfg n) = IR_MODE_SEND_ONLY \<or> recv_queue (recv_info n) = None"
  shows "recv_queue_clean lp e h s = Some s"
  by (subst recv_queue_clean.simps) (use assms in \<open>auto simp: tdl_ir_dev_recv_def split: option.splits\<close>)

lemma recv_queue_clean_inv:
  assumes inv: "res_inv s" and n: "get_node s h = Some n" and e: "e \<noteq> OPRT_OK"
  shows "\<exists>s' n'. recv_queue_clean lp e h s = Some s' \<and> res_inv s' \<and> get_node s' h = Some n' \<and>
    drv_intfs n' = drv_intfs n \<and> ir_dev_cfg n' = ir_dev_cfg n \<and> send_status n' = send_status n \<and>
    recv_err_val (recv_info n') = recv_err_val (recv_info n)"
proof (cases "is_open n \<and> ir_mode (ir_dev_cfg n) \<noteq> IR_MODE_SEND_ONLY \<and> recv_queue (recv_info n) \<noteq> None")
  case True
  then obtain q where q: "recv_queue (recv_info n) = Some q" by blast
  have "res_inv (set_node s h (put_queue n (Some [])))"
    using res_inv_node [OF inv n] q
    by (intro res_inv_same [OF inv n]) (auto simp: recv_res_ok_def running_def put_queue_def)
  with recv_queue_clean_total [OF n e q] True get_node_less [OF n] show ?thesis by (simp add: put_queue_def)
next
  case False
  with recv_queue_clean_refused [OF n e] inv n show ?thesis by blast
qed

text \<open>However a fetch from an empty queue ends: where the loop returns, it keeps the invariant.\<close>

lemma recv_queue_clean_keeps:
  assumes "recv_queue_clean lp e h s = Some s'" and "res_inv s"
  shows "res_inv s'"
proof -
  have "res_inv s \<longrightarrow> res_inv s'"
  proof (rule recv_queue_clean.raw_induct [where P = "\<lambda>lp e h s s'. res_inv s \<longrightarrow> res_inv s'", OF _ assms(1)], rule impI)
    fix clean lp e h s s'
    assume IH: "\<And>lp e h s s'. clean lp e h s = Some s' \<Longrightarrow> res_inv s \<longrightarrow> res_inv s'" and inv: "res_inv s"
      and run: "tdl_ir_dev_recv e s (Some h) \<bind> (\<lambda>(op_ret, ir_data, s). if op_ret \<noteq> OPRT_OK then Some s
        else clean lp e h (snd (tdl_ir_dev_recv_release lp s (Some h) ir_data))) = Some s'"
    from run obtain r x s1 where s1: "tdl_ir_dev_recv e s (Some h) = Some (r, x, s1)" by (auto split: bind_splits)
    have inv1: "res_inv s1" by (rule dev_recv_inv [OF inv s1])
    then have "res_inv (snd (tdl_ir_dev_recv_release lp s1 (Some h) x))" by (simp add: tdl_ir_dev_recv_release_def)
    with run s1 inv1 IH show "res_inv s'" by (auto split: if_splits)
  qed
  with assms(2) show ?thesis by simp
qed

text \<open>Changes that do not touch ring, queue and run flag.\<close>

lemma recv_res_ok_upd [simp]:
  "recv_res_ok (n\<lparr>ir_dev_cfg := c\<rparr>) = recv_res_ok n" "recv_res_ok (n\<lparr>ir_drv_hdl := d\<rparr>) = recv_res_ok n"
  "recv_res_ok (n\<lparr>send_info := si\<rparr>) = recv_res_ok n" "recv_res_ok (n\<lparr>is_open := b\<rparr>) = recv_res_ok n"
  "recv_res_ok (n\<lparr>send_status := x\<rparr>) = recv_res_ok n" "recv_res_ok (n\<lparr>recv_status := y\<rparr>) = recv_res_ok n"
  "recv_res_ok (n\<lparr>recv_info := (recv_info n)\<lparr>recv_err_val := e\<rparr>\<rparr>) = recv_res_ok n"
  "recv_res_ok (n\<lparr>recv_info := (recv_info n)\<lparr>app_recv_cb := b\<rparr>\<rparr>) = recv_res_ok n"
  by (simp_all add: recv_res_ok_def)

lemma running_upd [simp]:
  "running (n\<lparr>ir_dev_cfg := c\<rparr>) = running n" "running (n\<lparr>ir_drv_hdl := d\<rparr>) = running n"
  "running (n\<lparr>send_info := si\<rparr>) = running n" "running (n\<lparr>is_open := b\<rparr>) = running n"
  "running (n\<lparr>send_status := x\<rparr>) = running n" "running (n\<lparr>recv_status := y\<rparr>) = running n"
  "running (n\<lparr>recv_info := (recv_info n)\<lparr>recv_err_val := e\<rparr>\<rparr>) = running n"
  "running (n\<lparr>recv_info := (recv_info n)\<lparr>app_recv_cb := b\<rparr>\<rparr>) = running n"
  by (simp_all add: running_def)

lemma open_recv_inv:
  assumes inv: "res_inv s" and run: "ir_open_recv oe s h cfg = Some (r, s')"
  shows "res_inv s'"
proof (cases "ir_mode cfg = IR_MODE_SEND_ONLY")
  case True
  with inv run show ?thesis by (simp add: ir_open_recv_def)
next
  case False
  with run obtain r1 s1 where s1: "tdl_ir_recv_server_start (oe_start oe)
      (s\<lparr>recv_dev_num := cut16 (recv_dev_num s + 1)\<rparr>) (Some h) = Some (r1, s1)"
    by (auto simp: ir_open_recv_def split: bind_splits)
  have inv1: "res_inv s1" by (rule server_start_inv(1) [OF _ s1]) (use inv in simp)
  have "res_inv (set_node s1 h (n\<lparr>recv_info := (recv_info n)\<lparr>recv_err_val := e\<rparr>\<rparr>))" if "get_node s1 h = Some n" for n e
    using res_inv_node [OF inv1 that] by (intro res_inv_same [OF inv1 that]) simp_all
  with False s1 inv1 run show ?thesis
    by (auto simp: ir_open_recv_def split: if_splits bind_splits)
qed

lemma dev_open_inv:
  assumes inv: "res_inv s" and run: "tdl_ir_dev_open oe s (Some h) (Some cfg) = Some (r, s')"
  shows "res_inv s'"
proof (cases "ir_mode cfg \<ge> IR_MODE_MAX \<or> prot_opt cfg \<ge> IR_PROT_MAX")
  case True
  with run inv show ?thesis by (simp add: tdl_ir_dev_open_def)
next
  case valid: False
  with run obtain n where n: "get_node s h = Some n" by (auto simp: tdl_ir_dev_open_def split: bind_splits)
  have upd: "res_inv (set_node s h n')" if "recv_res_ok n'" "running n' = running n" for n'
    using res_inv_same [OF inv n that] .
  note ok = res_inv_node [OF inv n]
  show ?thesis
  proof (cases "is_open n")
    case True
    with valid run n inv show ?thesis by (simp add: tdl_ir_dev_open_def)
  next
    case False
    with valid run n obtain f where f: "drv_open (drv_intfs n) = Some f" by (auto simp: tdl_ir_dev_open_def split: bind_splits)
    obtain r1 d where d: "f (ir_drv_hdl n) (ir_mode cfg) = (r1, d)" by force
    let ?n = "n\<lparr>ir_dev_cfg := cfg, ir_drv_hdl := d\<rparr>"
    let ?s = "set_node s h (?n\<lparr>send_info := (send_info ?n)\<lparr>send_sem := Some 0\<rparr>\<rparr>)"
    have inv1: "res_inv ?s" "res_inv (set_node s h ?n)" using ok by (auto intro!: upd)
    show ?thesis
    proof (cases "r1 = OPRT_OK \<and> oe_sem_ret oe = OPRT_OK")
      case True
      with run obtain r2 s2 where s2: "ir_open_recv oe ?s h cfg = Some (r2, s2)"
        using valid n False f d by (auto simp: tdl_ir_dev_open_def split: bind_splits)
      have inv2: "res_inv s2" by (rule open_recv_inv [OF inv1(1) s2])
      have "res_inv (set_node s2 h (m\<lparr>send_status := a, recv_status := b, is_open := c\<rparr>))"
        if "get_node s2 h = Some m" for m a b c
        using res_inv_node [OF inv2 that] by (intro res_inv_same [OF inv2 that]) simp_all
      with True run s2 inv2 show ?thesis
        using valid n False f d by (auto simp: tdl_ir_dev_open_def split: if_splits bind_splits)
    next
      case fail: False
      with run inv1 show ?thesis
        using valid n False f d by (auto simp: tdl_ir_dev_open_def Let_def split: if_splits)
    qed
  qed
qed

text \<open>Closing: what it needs, and that it stops the receiver of the device.\<close>

lemma dev_close_inv:
  assumes inv: "res_inv s" and n: "get_node s h = Some n" and e: "e \<noteq> OPRT_OK"
    and idle: "send_status n = IR_STA_SEND_IDLE" and cl: "drv_close (drv_intfs n) = Some cl"
    and live: "\<forall>v. recv_err_val (recv_info n) \<noteq> Some (v, False)" and mode: "ir_mode (ir_dev_cfg n) \<noteq> IR_MODE_SEND_ONLY"
  shows "\<exists>s' n'. tdl_ir_dev_close lp e s (Some h) = Some (OPRT_OK, s') \<and> res_inv s' \<and>
    get_node s' h = Some n' \<and> \<not> running n' \<and> \<not> is_open n' \<and> send_status n' = IR_STA_SEND_IDLE \<and>
    ir_dev_cfg n' = ir_dev_cfg n \<and> drv_intfs n' = drv_intfs n \<and>
    recv_err_val (recv_info n') = map_option (\<lambda>(v, _). (v, False)) (recv_err_val (recv_info n))"
proof -
  obtain s1 n1 where s1: "recv_queue_clean lp e h s = Some s1" "res_inv s1" "get_node s1 h = Some n1"
    "drv_intfs n1 = drv_intfs n" "ir_dev_cfg n1 = ir_dev_cfg n" "send_status n1 = send_status n"
    "recv_err_val (recv_info n1) = recv_err_val (recv_info n)"
    using recv_queue_clean_inv [OF inv n e] by blast
  have h: "h < length (ir_nodes s1)" by (rule get_node_less [OF s1(3)])
  let ?n2 = "n1\<lparr>recv_info := (recv_info n1)\<lparr>ring_buf := None, recv_queue := None, is_run := False\<rparr>\<rparr>"
  obtain k where s2: "tdl_ir_recv_deinit s1 (Some h) = Some (OPRT_OK, (set_node s1 h ?n2)\<lparr>recv_dev_run_num := k\<rparr>)"
    using s1(3) by (auto simp: tdl_ir_recv_deinit_def)
  let ?s2 = "(set_node s1 h ?n2)\<lparr>recv_dev_run_num := k\<rparr>"
  have inv2: "res_inv ?s2" using recv_deinit_inv [OF s1(2) s2] by blast
  let ?ev = "map_option (\<lambda>(v, _). (v, False)) (recv_err_val (recv_info n))"
  let ?n3 = "?n2\<lparr>recv_info := (recv_info ?n2)\<lparr>recv_err_val := ?ev\<rparr>\<rparr>"
  let ?n4 = "?n3\<lparr>ir_drv_hdl := snd (cl (ir_drv_hdl n1) (ir_mode (ir_dev_cfg n))), is_open := False\<rparr>"
  have g2: "get_node ?s2 h = Some ?n2" using h by simp
  have "res_inv (set_node ?s2 h ?n4)"
    using res_inv_node [OF inv2 g2] by (intro res_inv_same [OF inv2 g2]) (simp_all add: recv_res_ok_def running_def)
  moreover have "tdl_ir_dev_close lp e s (Some h) = Some (OPRT_OK, set_node ?s2 h ?n4)"
  proof (cases "recv_err_val (recv_info n)")
    case None
    then have "?n3 = ?n2" using s1(7) by simp
    moreover have "tdl_ir_dev_close lp e s (Some h) = Some (OPRT_OK, set_node ?s2 h
        (?n2\<lparr>ir_drv_hdl := snd (cl (ir_drv_hdl n1) (ir_mode (ir_dev_cfg n))), is_open := False\<rparr>))"
      using None n idle s1 s2 mode cl h by (simp add: tdl_ir_dev_close_def ir_close_recv_def set_node_def get_node_def rd_def)
    ultimately show ?thesis by (simp only:)
  next
    case (Some p)
    then obtain v where v: "p = (v, True)" using live by (cases p) auto
    with Some n idle s1 s2 mode cl h show ?thesis by (simp add: tdl_ir_dev_close_def ir_close_recv_def set_node_def get_node_def rd_def)
  qed
  moreover have "get_node (set_node ?s2 h ?n4) h = Some ?n4" using h by simp
  ultimately show ?thesis using s1 idle by (fastforce simp: running_def)
qed

text \<open>The tolerance block is released but its pointer stays: a second close releases it again.\<close>

lemma dev_close_released:
  assumes "get_node s h = Some n" and "recv_err_val (recv_info n) = Some (v, False)"
    and "send_status n = IR_STA_SEND_IDLE" and "ir_mode (ir_dev_cfg n) \<noteq> IR_MODE_SEND_ONLY"
    and "res_inv s" and "e \<noteq> OPRT_OK"
  shows "tdl_ir_dev_close lp e s (Some h) = None"
proof -
  obtain s1 n1 where s1: "recv_queue_clean lp e h s = Some s1" "get_node s1 h = Some n1"
    "recv_err_val (recv_info n1) = recv_err_val (recv_info n)"
    using recv_queue_clean_inv [OF assms(5,1,6)] by blast
  from get_node_less [OF s1(2)] s1 assms show ?thesis
    by (simp add: tdl_ir_dev_close_def ir_close_recv_def tdl_ir_recv_deinit_def)
qed

lemma config_inv:
  assumes inv: "res_inv s" and run: "tdl_ir_config ce s (Some h) cmd p = Some (r, v, s')"
  shows "res_inv s'"
proof -
  from run obtain n where n: "get_node s h = Some n" by (auto simp: tdl_ir_config_def split: bind_splits)
  note notif = notify_node_inv [OF inv]
  show ?thesis
  proof (cases cmd)
    case IR_CMD_RECV_TASK_START
    with run n show ?thesis
      by (auto simp: tdl_ir_config_def split: bind_splits if_splits
          intro: server_start_inv(1) [OF inv] notify_node_inv [OF server_start_inv(1) [OF inv]])
  next
    case IR_CMD_RECV_TASK_STOP
    with run n obtain s1 s2 where s: "notify_node s h IR_DRV_RECV_HW_DEINIT = Some (r, s1)"
      "s' = s1 \<or> tdl_ir_recv_deinit s1 (Some h) = Some (OPRT_OK, s2) \<and> (\<exists>q. s' = s2\<lparr>dev_notif_queue := q\<rparr>)"
      by (fastforce simp: tdl_ir_config_def tdl_ir_recv_deinit_def split: bind_splits if_splits)
    with notif [OF s(1)] recv_deinit_inv [of s1 h OPRT_OK s2] show ?thesis by auto
  next
    case IR_CMD_RECV_QUEUE_CLEAN
    with run n show ?thesis
      by (auto simp: tdl_ir_config_def split: bind_splits intro: recv_queue_clean_keeps [OF _ inv])
  next
    case IR_CMD_RECV_CB_REGISTER
    with run n inv res_inv_node [OF inv n] show ?thesis
      by (auto simp: tdl_ir_config_def intro!: res_inv_same [OF inv n])
  qed (use run n inv in \<open>auto simp: tdl_ir_config_def split: if_splits bind_splits intro: notif\<close>)
qed

section \<open>Any sequence of calls\<close>

text \<open>
  What changes the state: the calls of the application (register, open, close, send, read, release,
  configure), with what the operating system answers, the interrupts (an edge of the receiver, the
  end of a pulse of the sender, for any state the driver left its handle in), and the receive task.
  Sending is two steps, up to its wait and from the end of its wait on, with any steps in between.
  \<open>api_step\<close> is the relation of a step that returns; the handle may be null. A registration is a
  step while the list stays below 65536 devices, the range of the 16-bit counter of receivers.
\<close>

inductive api_step :: "'d ir_sys \<Rightarrow> 'd ir_sys \<Rightarrow> bool" where
  register: "tdl_ir_dev_register m s nm d i = (r, s') \<Longrightarrow> length (ir_nodes s') < 65536 \<Longrightarrow> api_step s s'"
| opened: "tdl_ir_dev_open oe s ho cfg = Some (r, s') \<Longrightarrow> api_step s s'"
| close: "tdl_ir_dev_close lp e s ho = Some (r, s') \<Longrightarrow> api_step s s'"
| send: "get_node s h = Some n \<Longrightarrow> tdl_ir_dev_send_begin m (Some n) freq dat cnt = Some r \<Longrightarrow>
    r = Inl (code, Some n') \<or> r = Inr n' \<Longrightarrow> api_step s (set_node s h n')"
| sent: "get_node s h = Some n \<Longrightarrow> tdl_ir_dev_send_end w n = Some (r, n') \<Longrightarrow> api_step s (set_node s h n')"
| recv: "tdl_ir_dev_recv e s ho = Some (r, x, s') \<Longrightarrow> api_step s s'"
| release: "tdl_ir_dev_recv_release lp s ho x = (r, s') \<Longrightarrow> api_step s s'"
| config: "tdl_ir_config ce s ho cmd p = Some (r, v, s') \<Longrightarrow> api_step s s'"
| pulse_end: "get_node s h = Some n \<Longrightarrow> tdl_ir_output_finish_cb (Some (n\<lparr>ir_drv_hdl := d\<rparr>)) = Some (r, Some n') \<Longrightarrow>
    api_step s (set_node s h n')"
| edge: "tdl_ir_recv_cb lp now post s raw ho = Some (z, s') \<Longrightarrow> api_step s s'"
| task: "tdl_ir_recv_task te (pc, s) = Some (pc', s') \<Longrightarrow> api_step s s'"

inductive_cases api_stepE: "api_step s s'"

text \<open>A step on one device that keeps its run flag and whether it has a ring and a queue.\<close>

definition same_res :: "'d IR_DEV_NODE_T \<Rightarrow> 'd IR_DEV_NODE_T \<Rightarrow> bool" where
  "same_res n n' \<longleftrightarrow> is_run (recv_info n') = is_run (recv_info n) \<and>
     (ring_buf (recv_info n') = None \<longleftrightarrow> ring_buf (recv_info n) = None) \<and>
     (recv_queue (recv_info n') = None \<longleftrightarrow> recv_queue (recv_info n) = None)"

lemma same_res_inv:
  "res_inv s \<Longrightarrow> get_node s h = Some n \<Longrightarrow> same_res n n' \<Longrightarrow> res_inv (set_node s h n')"
  using res_inv_node [of s h n] by (auto simp: same_res_def recv_res_ok_def running_def intro!: res_inv_same)

lemma same_res_info: "recv_info n' = recv_info n \<Longrightarrow> same_res n n'"
  by (simp add: same_res_def)

lemma same_res_trans: "same_res a b \<Longrightarrow> same_res b c \<Longrightarrow> same_res a c"
  by (simp add: same_res_def)

lemma status_notif_info: "status_notif n st = Some (r, n') \<Longrightarrow> recv_info n' = recv_info n"
  using status_notif_node [of n st r n'] by auto

lemma send_finish_info: "tdl_ir_send_finish n = Some n' \<Longrightarrow> recv_info n' = recv_info n"
  by (auto simp: tdl_ir_send_finish_def split: bind_splits dest: status_notif_info)

lemma output_finish_info: "output_finish_node n = Some (r, n') \<Longrightarrow> recv_info n' = recv_info n"
  by (auto simp: output_finish_node_def Let_def split: option.splits if_splits bind_splits prod.splits dest!: send_finish_info)

lemma send_end_info: "tdl_ir_dev_send_end w n = Some (r, n') \<Longrightarrow> recv_info n' = recv_info n"
  by (auto simp: tdl_ir_dev_send_end_def split: if_splits bind_splits dest!: status_notif_info)

lemma send_begin_info:
  "tdl_ir_dev_send_begin m (Some n) f dat cnt = Some r \<Longrightarrow> r = Inl (code, Some n') \<or> r = Inr n' \<Longrightarrow> recv_info n' = recv_info n"
  by (auto simp: tdl_ir_dev_send_begin_def Let_def split: if_splits bind_splits IR_DATA_U.splits sum.splits prod.splits
      dest!: status_notif_info)

lemma queue_post_None [simp]: "queue_post r x q = None \<longleftrightarrow> q = None" "queue_post r x None = None"
  by (simp_all add: queue_post_def)

lemma nec_process_loop_queue:
  assumes "nec_process_loop env buf len ev msb k off q = Some (r, q')"
  shows "q' = None \<longleftrightarrow> q = None"
proof -
  have "snd (r, q') = None \<longleftrightarrow> q = None"
  proof (rule nec_process_loop.raw_induct [where P = "\<lambda>env buf len ev msb k off q y. snd y = None \<longleftrightarrow> q = None", OF _ assms], goal_cases)
    case (1 loop env buf len ev msb k off q y)
    note IH = 1(1)
    from 1(2) show ?case
      by (cases y) (auto simp: Let_def split: bind_splits if_splits option.splits dest!: IH)
  qed
  then show ?thesis by simp
qed

lemma data_process_res:
  assumes "tdl_ir_recv_data_process env (Some n) = Some (r, Some n')"
  shows "same_res n n'"
  using assms
  by (auto simp: tdl_ir_recv_data_process_def same_res_def put_ring_def put_queue_def Let_def
      split: bind_splits if_splits option.splits IR_DATA_U.splits dest: nec_process_loop_queue)

lemma finish_decode_res: "recv_finish_decode env n = Some n' \<Longrightarrow> same_res n n'"
  by (auto simp: recv_finish_decode_def split: bind_splits if_splits dest!: data_process_res)
     (auto simp: same_res_def put_ring_def)

lemma data_process_sync_inv:
  assumes "res_inv s" and "tdl_ir_recv_data_process_sync env s (Some h) = Some (r, s')"
  shows "res_inv s'"
proof -
  have "res_inv (set_node s h (put_ring n (Some rb)))"
    if "get_node s h = Some n" "ring_buf (recv_info n) = Some rb'" for n rb rb'
    using that by (intro same_res_inv [OF assms(1)]) (auto simp: same_res_def put_ring_def)
  with assms show ?thesis
    by (auto simp: tdl_ir_recv_data_process_sync_def Let_def split: bind_splits if_splits)
qed

lemma recv_cb_inv:
  assumes "res_inv s" and "tdl_ir_recv_cb lp now post s raw (Some h) = Some (z, s')"
  shows "res_inv s'"
  using assms
  by (auto simp: tdl_ir_recv_cb_def Let_def split: bind_splits if_splits
      dest!: status_notif_info intro!: same_res_inv simp: same_res_def put_ring_def)

lemma task_finish_inv:
  assumes inv: "res_inv s" and run: "tdl_ir_recv_task_finish te h s = Some s'"
  shows "res_inv s'"
proof -
  from run obtain n where n: "get_node s h = Some n" by (auto simp: tdl_ir_recv_task_finish_def split: bind_splits)
  define k where "k = (if recv_status n = IR_STA_RECV_OVERFLOW then n\<lparr>recv_status := IR_STA_RECV_FINISH\<rparr> else n)"
  have k: "same_res n k" by (simp add: k_def same_res_info)
  note fin = tdl_ir_recv_task_finish_def [of te h s, unfolded n bind.bind_lunit Let_def, folded k_def]
  show ?thesis
  proof (cases "recv_status k = IR_STA_RECV_FINISH")
    case False
    with run fin have "s' = set_node s h k" by simp
    with same_res_inv [OF inv n k] show ?thesis by simp
  next
    case True
    with run fin obtain m rb r m' where m: "m = k \<or> recv_finish_decode (te_recv te) k = Some m" "ring_buf (recv_info m) = Some rb"
      "status_notif ((put_ring m (Some (ring_clear rb)))\<lparr>recv_status := IR_STA_RECV_IDLE\<rparr>) IR_DRV_RECV_FINISH_STATE = Some (r, m')"
      "s' = set_node s h m' \<or> s' = (set_node s h m')\<lparr>lp_calls := lp_calls s @ [True]\<rparr>"
      by (cases "app_recv_cb (recv_info k) \<and> prot_opt (ir_dev_cfg k) = IR_PROT_NEC") (fastforce split: bind_splits if_splits)+
    have "same_res k m" using m(1) finish_decode_res [of "te_recv te" k m] by (auto simp: same_res_info)
    with k have "same_res n m" by (rule same_res_trans)
    moreover have "same_res m m'" using status_notif_info [OF m(3)] m(2) by (simp add: same_res_def put_ring_def)
    ultimately have "same_res n m'" by (rule same_res_trans)
    with same_res_inv [OF inv n] m(4) show ?thesis by auto
  qed
qed

lemma task_poll_inv:
  assumes inv: "res_inv s" and run: "tdl_ir_recv_task_poll te h s = Some s'"
  shows "res_inv s'"
proof -
  from run obtain n where n: "get_node s h = Some n" by (auto simp: tdl_ir_recv_task_poll_def split: bind_splits)
  have "res_inv (set_node s h (n\<lparr>recv_status := x\<rparr>))" for x
    by (rule same_res_inv [OF inv n]) (simp add: same_res_info)
  with run n show ?thesis
    by (auto simp: tdl_ir_recv_task_poll_def Let_def split: bind_splits if_splits intro: data_process_sync_inv)
qed

lemma recv_task_inv:
  assumes "res_inv s" and "tdl_ir_recv_task te (pc, s) = Some (pc', s')"
  shows "res_inv s'"
  using assms
  by (cases pc)
     (auto simp: tdl_ir_recv_task_def tdl_ir_recv_task_fetch_def tdl_ir_recv_task_dispatch_def tdl_ir_recv_task_exit_def
       split: bind_splits if_splits option.splits list.splits intro: task_finish_inv task_poll_inv)

lemma register_inv:
  assumes "res_inv s" and "tdl_ir_dev_register m s nm d i = (r, s')" and "length (ir_nodes s') < 65536"
  shows "res_inv s'"
  using assms
  by (auto simp: tdl_ir_dev_register_def static_tdl_ir_dev_register_def new_node_def res_inv_def recv_res_ok_def
      running_def Let_def split: option.splits if_splits)

lemma close_recv_inv:
  assumes inv: "res_inv s" and run: "ir_close_recv s h = Some s'"
  shows "res_inv s'"
proof -
  from run obtain r s1 n where s1: "tdl_ir_recv_deinit s (Some h) = Some (r, s1)" "get_node s1 h = Some n"
    by (auto simp: ir_close_recv_def split: bind_splits)
  have inv1: "res_inv s1" using recv_deinit_inv [OF inv s1(1)] by blast
  have "res_inv (set_node s1 h (n\<lparr>recv_info := (recv_info n)\<lparr>recv_err_val := x\<rparr>\<rparr>))" for x
    using res_inv_node [OF inv1 s1(2)] by (intro res_inv_same [OF inv1 s1(2)]) simp_all
  with run s1 inv1 show ?thesis by (auto simp: ir_close_recv_def split: option.splits if_splits)
qed

lemma close_returns_inv:
  assumes inv: "res_inv s" and run: "tdl_ir_dev_close lp e s (Some h) = Some (r, s')"
  shows "res_inv s'"
proof -
  from run obtain n where n: "get_node s h = Some n" by (auto simp: tdl_ir_dev_close_def split: bind_splits)
  from run n obtain s1 where s1: "recv_queue_clean lp e h s = Some s1"
    by (auto simp: tdl_ir_dev_close_def split: bind_splits if_splits)
  with inv have s1: "recv_queue_clean lp e h s = Some s1" "res_inv s1" by (auto intro: recv_queue_clean_keeps)
  have idle: "send_status n = IR_STA_SEND_IDLE" using run n by (auto simp: tdl_ir_dev_close_def split: if_splits)
  obtain s2 where s2: "(if ir_mode (ir_dev_cfg n) \<noteq> IR_MODE_SEND_ONLY then ir_close_recv s1 h else Some s1) = Some s2"
    using run n idle s1(1) by (auto simp: tdl_ir_dev_close_def split: bind_splits)
  have inv2: "res_inv s2" using s2 s1(2) close_recv_inv [OF s1(2)] by (auto split: if_splits)
  obtain n2 d where n2: "get_node s2 h = Some n2" "s' = set_node s2 h (n2\<lparr>ir_drv_hdl := d, is_open := False\<rparr>)"
    using run n idle s1(1) s2 by (auto simp: tdl_ir_dev_close_def Let_def split: bind_splits)
  from res_inv_node [OF inv2 n2(1)] show ?thesis
    unfolding n2(2) by (intro res_inv_same [OF inv2 n2(1)]) simp_all
qed

text \<open>A null handle or configuration is refused without effect.\<close>

lemma null_handle:
  "tdl_ir_dev_open oe s None cfg = Some (r, s') \<Longrightarrow> s' = s" "tdl_ir_dev_open oe s ho None = Some (r, s') \<Longrightarrow> s' = s"
  "tdl_ir_dev_close lp e s None = Some (r, s') \<Longrightarrow> s' = s" "tdl_ir_dev_recv e s None = Some (r, x, s') \<Longrightarrow> s' = s"
  "tdl_ir_config ce s None cmd p = Some (r, v, s') \<Longrightarrow> s' = s" "tdl_ir_recv_cb lp now post s raw None = Some (z, s') \<Longrightarrow> s' = s"
  by (simp_all add: tdl_ir_dev_open_def tdl_ir_dev_close_def tdl_ir_dev_recv_def tdl_ir_config_def tdl_ir_recv_cb_def
      split: option.splits)

lemma api_step_inv: "api_step s s' \<Longrightarrow> res_inv s \<Longrightarrow> res_inv s'"
proof (induction rule: api_step.induct)
  case (opened oe s ho cfg r s')
  then show ?case using dev_open_inv null_handle(1,2) by (cases ho; cases cfg; blast)
next
  case (close lp e s ho r s')
  then show ?case using close_returns_inv null_handle(3) by (cases ho; blast)
next
  case (send s h n m freq dat cnt r code n')
  then show ?case by (intro same_res_inv [OF send(4,1)] same_res_info) (rule send_begin_info)
next
  case (sent s h n w r n')
  then show ?case by (intro same_res_inv [OF sent(3,1)] same_res_info) (rule send_end_info)
next
  case (recv e s ho r x s')
  then show ?case using dev_recv_inv null_handle(4) by (cases ho; blast)
next
  case (release lp s ho x r s')
  then show ?case by (auto simp: tdl_ir_dev_recv_release_def split: if_splits)
next
  case (config ce s ho cmd p r v s')
  then show ?case using config_inv null_handle(5) by (cases ho; blast)
next
  case (pulse_end s h n d r n')
  then obtain r' where "output_finish_node (n\<lparr>ir_drv_hdl := d\<rparr>) = Some (r', n')"
    by (auto simp: tdl_ir_output_finish_cb_def split: bind_splits)
  then have "recv_info n' = recv_info n" using output_finish_info by fastforce
  then show ?case by (intro same_res_inv [OF pulse_end(3,1)] same_res_info)
next
  case (edge lp now post s raw ho z s')
  then show ?case using recv_cb_inv null_handle(6) by (cases ho; blast)
qed (auto intro: register_inv recv_task_inv)

text \<open>C17: From the empty device list on, after any sequence of application calls (register, open,
  close, send, read, release, configure), interrupts of the sender and of the receiver, and steps of
  the receive task, each of which returns: every device has a ring and a queue exactly while its
  receiver runs, and the counter of running receivers is the number of running devices. Only the
  number of devices is bounded, by the range of that 16-bit counter.\<close>

theorem api_reachable_inv:
  assumes "api_step\<^sup>*\<^sup>* empty_sys s"
  shows "res_inv s"
  using assms
proof (induction rule: rtranclp_induct)
  case base
  show ?case by (simp add: empty_sys_def res_inv_def)
next
  case (step s s')
  then show ?case by (blast intro: api_step_inv)
qed

text \<open>Closing an idle receiving device returns success, stops its receiver and frees its ring, its
  queue and its tolerance block; because the pointer to that block stays, closing the device once more
  frees the block twice.\<close>

theorem close_twice:
  assumes inv: "res_inv s" and n: "get_node s h = Some n" and e: "e \<noteq> OPRT_OK"
    and idle: "send_status n = IR_STA_SEND_IDLE" and cl: "drv_close (drv_intfs n) = Some cl"
    and ev: "recv_err_val (recv_info n) = Some (v, True)" and mode: "ir_mode (ir_dev_cfg n) \<noteq> IR_MODE_SEND_ONLY"
  shows "\<exists>s' n'. tdl_ir_dev_close lp e s (Some h) = Some (OPRT_OK, s') \<and> res_inv s' \<and>
    get_node s' h = Some n' \<and> \<not> is_open n' \<and> ring_buf (recv_info n') = None \<and> recv_queue (recv_info n') = None \<and>
    tdl_ir_dev_close lp e s' (Some h) = None"
proof -
  obtain s' n' where s': "tdl_ir_dev_close lp e s (Some h) = Some (OPRT_OK, s')" "res_inv s'" "get_node s' h = Some n'"
    "\<not> running n'" "\<not> is_open n'" "send_status n' = IR_STA_SEND_IDLE" "ir_dev_cfg n' = ir_dev_cfg n"
    "recv_err_val (recv_info n') = Some (v, False)"
    using dev_close_inv [OF inv n e idle cl _ mode] ev by fastforce
  moreover have "ring_buf (recv_info n') = None \<and> recv_queue (recv_info n') = None"
    using res_inv_node [OF s'(2,3)] s'(4) by (auto simp: recv_res_ok_def running_def)
  moreover have "tdl_ir_dev_close lp e s' (Some h) = None"
    by (rule dev_close_released [OF s'(3,8,6) _ s'(2) e]) (use s'(7) mode in simp)
  ultimately show ?thesis by blast
qed

theorem api_reachable_inv_witness:
  "\<exists>s n. api_step\<^sup>*\<^sup>* (empty_sys :: unit ir_sys) s \<and> get_node s 0 = Some n \<and> running n \<and> res_inv s"
proof -
  let ?s1 = "(empty_sys :: unit ir_sys)\<lparr>ir_nodes := [new_node ''ir0'' () example_intfs]\<rparr>"
  let ?cfg = "\<lparr>ir_mode = IR_MODE_SEND_RECV, recv_queue_num = 3, recv_buf_size = 320, recv_timeout = 300,
    prot_opt = IR_PROT_TIMECODE, nec_cfg = nec_cfg_example\<rparr>"
  let ?oe = "\<lparr>oe_sem_ret = OPRT_OK, oe_err_malloc = True,
    oe_start = \<lparr>se_ring_malloc = True, se_queue_ret = OPRT_OK, se_notif_ret = OPRT_OK, se_thread_ret = OPRT_OK\<rparr>\<rparr>"
  have "tdl_ir_dev_register True empty_sys (Some ''ir0'') () (Some example_intfs) = (OPRT_OK, ?s1)"
    by (simp add: tdl_ir_dev_register_def static_tdl_ir_dev_register_def static_tdl_ir_dev_find_def
        example_intfs_def empty_sys_def)
  then have "api_step empty_sys ?s1" by (rule api_step.register) simp
  moreover obtain s2 n where s2: "tdl_ir_dev_open ?oe ?s1 (Some 0) (Some ?cfg) = Some (OPRT_OK, s2)"
    "get_node s2 0 = Some n" "running n"
    by (simp add: tdl_ir_dev_open_def ir_open_recv_def tdl_ir_recv_server_start_def tdl_ir_recv_init_def
        tdl_ir_ring_buf_init_def get_node_def rd_def set_node_def example_intfs_def new_node_def empty_sys_def running_def)
  ultimately have "api_step\<^sup>*\<^sup>* empty_sys s2" by (meson api_step.opened rtranclp.rtrancl_into_rtrancl r_into_rtranclp)
  from this api_reachable_inv [OF this] s2 show ?thesis by blast
qed

theorem close_twice_witness:
  "\<exists>s'. tdl_ir_dev_close True OPRT_COM_ERROR (ex_sys IR_PROT_NEC False ex_ring) (Some 0) = Some (OPRT_OK, s') \<and>
    tdl_ir_dev_close True OPRT_COM_ERROR s' (Some 0) = None"
proof -
  let ?s = "ex_sys IR_PROT_NEC False ex_ring" and ?n = "ex_node IR_PROT_NEC False ex_ring"
  have "res_inv ?s" "get_node ?s 0 = Some ?n" "send_status ?n = IR_STA_SEND_IDLE"
    "drv_close (drv_intfs ?n) = Some (\<lambda>d _. (OPRT_OK, d))"
    by (simp_all add: res_inv_def recv_res_ok_def running_def ex_sys_def ex_node_def new_node_def example_intfs_def get_node_def rd_def)
  then show ?thesis
    using close_twice [of ?s 0 ?n OPRT_COM_ERROR _ "nec_err_val_of nec_cfg_example" True] by (auto simp: ex_node_def)
qed

end
