(* ===== verification/IR_Tdd.thy ===== *)
theory IR_Tdd
  imports IR_Dev
begin

text \<open>
  The infrared driver for the T2 board, \<^verbatim>\<open>tdd_ir_driver_t2.c\<close>: interrupt masking, the PWM and
  timer calls of a transmission, the edge interrupt of a reception, and registration. The hardware
  calls (\<^verbatim>\<open>tkl_pwm_*\<close>, \<^verbatim>\<open>tkl_timer_*\<close>, \<^verbatim>\<open>tkl_gpio_*\<close>) are recorded in order; what each returns is
  given by the parameter \<open>hw\<close> from the calls before it.
\<close>

section \<open>Data\<close>

datatype hw_op =
    Pwm_init int int nat | Pwm_info_set int int nat | Pwm_start int | Pwm_stop int | Pwm_deinit int
  | Timer_init int | Timer_start int u32 | Timer_stop int | Timer_deinit int
  | Gpio_irq_init int nat | Gpio_irq_enable int | Gpio_irq_disable int | Gpio_deinit int

type_synonym hardware = "hw_op list \<Rightarrow> hw_op \<Rightarrow> OPERATE_RET"

abbreviation (input) IR_DRV_SINGLE_TIMER :: nat where "IR_DRV_SINGLE_TIMER \<equiv> 0"
abbreviation (input) IR_DRV_DUAL_TIMER :: nat where "IR_DRV_DUAL_TIMER \<equiv> 1"
abbreviation (input) IR_DRV_CAPTURE :: nat where "IR_DRV_CAPTURE \<equiv> 2"
abbreviation (input) IR_DRV_TYPE_MAX :: nat where "IR_DRV_TYPE_MAX \<equiv> 3"
abbreviation (input) IR_INPUT_INVALID :: int where "IR_INPUT_INVALID \<equiv> -1"
abbreviation (input) TUYA_GPIO_IRQ_RISE :: nat where "TUYA_GPIO_IRQ_RISE \<equiv> 0"
abbreviation (input) TUYA_GPIO_IRQ_FALL :: nat where "TUYA_GPIO_IRQ_FALL \<equiv> 1"
abbreviation (input) IR_SEND_FREQ_DEFAULT :: nat where "IR_SEND_FREQ_DEFAULT \<equiv> 38000"

record IR_DRV_CFG_T =
  send_pin :: int
  recv_pin :: int
  send_timer :: int
  recv_timer :: int
  send_duty :: int

text \<open>
  The driver block, the static variables of the file, the two interrupt registers, the trace. In the
  source the statics (the two mask counters and the saved interrupt register) are one for the whole
  file; here they are part of the block, so the definitions describe a board with one registered
  driver, for which the two are the same. Were two drivers to transmit or receive at once, their
  requests would be counted together.
\<close>

record IR_DRV_INFO_T =
  driver_mode :: nat
  driver_type :: nat
  user_close_recv_flag :: bool
  send_pwm_id :: int
  irq_edge_mode :: nat
  last_recv_time :: u32
  hw_cfg :: IR_DRV_CFG_T
  fiq_disable_cnt :: u8
  irq_disable_cnt :: u8
  irq_val :: u32
  reg_fiq :: u32
  reg_int :: u32
  hw_trace :: "hw_op list"

definition hw_do :: "hardware \<Rightarrow> hw_op \<Rightarrow> IR_DRV_INFO_T \<Rightarrow> OPERATE_RET \<times> IR_DRV_INFO_T" where
  "hw_do hw op d = (hw (hw_trace d) op, d\<lparr>hw_trace := hw_trace d @ [op]\<rparr>)"

section \<open>Interrupt masking\<close>

definition tdd_bk7231n_fiq_enable :: "IR_DRV_INFO_T \<Rightarrow> IR_DRV_INFO_T" where
  "tdd_bk7231n_fiq_enable d =
     (if fiq_disable_cnt d = 0 then d
      else let c = fiq_disable_cnt d - 1 in
        d\<lparr>fiq_disable_cnt := c, reg_fiq := (if c = 0 then reg_fiq d OR 2 else reg_fiq d)\<rparr>)"

definition tdd_bk7231n_fiq_disable :: "IR_DRV_INFO_T \<Rightarrow> IR_DRV_INFO_T" where
  "tdd_bk7231n_fiq_disable d =
     (if fiq_disable_cnt d = 0xFF then d
      else d\<lparr>reg_fiq := (if fiq_disable_cnt d = 0 then reg_fiq d AND 0xFFFFFFFD else reg_fiq d),
             fiq_disable_cnt := fiq_disable_cnt d + 1\<rparr>)"

definition tdd_bk7231n_isr_enable :: "IR_DRV_INFO_T \<Rightarrow> IR_DRV_INFO_T" where
  "tdd_bk7231n_isr_enable d =
     (if irq_disable_cnt d = 0 then d
      else let c = irq_disable_cnt d - 1 in
        if c = 0 \<and> irq_val d \<noteq> 0
        then d\<lparr>irq_disable_cnt := c, reg_int := reg_int d OR irq_val d, irq_val := 0\<rparr>
        else d\<lparr>irq_disable_cnt := c\<rparr>)"

definition tdd_bk7231n_isr_disable :: "IR_DRV_INFO_T \<Rightarrow> IR_DRV_INFO_T" where
  "tdd_bk7231n_isr_disable d =
     (if irq_disable_cnt d = 0xFF then d
      else if irq_disable_cnt d = 0
      then d\<lparr>irq_val := reg_int d AND 0xFFFF, reg_int := reg_int d AND 0xFFFF8380,
             irq_disable_cnt := irq_disable_cnt d + 1\<rparr>
      else d\<lparr>irq_disable_cnt := irq_disable_cnt d + 1\<rparr>)"

section \<open>PWM, timers and pins\<close>

definition tdd_ir_pwm_start ::
  "hardware \<Rightarrow> int \<Rightarrow> nat \<Rightarrow> int \<Rightarrow> IR_DRV_INFO_T \<Rightarrow> OPERATE_RET \<times> IR_DRV_INFO_T" where
  "tdd_ir_pwm_start hw pwm_id pwm_freq pwm_duty d =
     (if pwm_duty = 0 then hw_do hw (Pwm_stop pwm_id) d
      else let (op_ret, d) = hw_do hw (Pwm_info_set pwm_id (pwm_duty * 100) pwm_freq) d in
        if op_ret \<noteq> OPRT_OK then (op_ret, d) else hw_do hw (Pwm_start pwm_id) d)"

definition tdd_ir_send_hw_init :: "hardware \<Rightarrow> IR_DRV_INFO_T \<Rightarrow> OPERATE_RET \<times> IR_DRV_INFO_T" where
  "tdd_ir_send_hw_init hw d =
     (if send_pwm_id d = IR_INPUT_INVALID \<or> send_timer (hw_cfg d) = IR_INPUT_INVALID
      then (OPRT_NOT_SUPPORTED, d)
      else let (op_ret, d) = hw_do hw (Pwm_init (send_pwm_id d) (send_duty (hw_cfg d) * 100) IR_SEND_FREQ_DEFAULT) d in
        if op_ret \<noteq> OPRT_OK then (op_ret, d)
        else let (op_ret, d) = hw_do hw (Timer_init (send_timer (hw_cfg d))) d in
          if op_ret \<noteq> OPRT_OK then (op_ret, d) else (OPRT_OK, d))"

definition tdd_ir_send_hw_deinit :: "hardware \<Rightarrow> IR_DRV_INFO_T \<Rightarrow> IR_DRV_INFO_T" where
  "tdd_ir_send_hw_deinit hw d =
     (let d = snd (hw_do hw (Pwm_stop (send_pwm_id d)) d);
          d = snd (hw_do hw (Pwm_deinit (send_pwm_id d)) d);
          d = snd (hw_do hw (Timer_stop (send_timer (hw_cfg d))) d)
      in snd (hw_do hw (Timer_deinit (send_timer (hw_cfg d))) d))"

text \<open>The label \<^verbatim>\<open>__EXIT\<close> releases the timer after a failure; the function returns success either way.\<close>

definition tdd_ir_recv_irq_timer_init :: "hardware \<Rightarrow> IR_DRV_INFO_T \<Rightarrow> OPERATE_RET \<times> IR_DRV_INFO_T" where
  "tdd_ir_recv_irq_timer_init hw d =
     (if recv_pin (hw_cfg d) = IR_INPUT_INVALID \<or> recv_timer (hw_cfg d) = IR_INPUT_INVALID
      then (OPRT_NOT_SUPPORTED, d)
      else let
          tm = recv_timer (hw_cfg d); pin = recv_pin (hw_cfg d);
          fail = (\<lambda>d. snd (hw_do hw (Timer_deinit tm) (snd (hw_do hw (Timer_stop tm) d))));
          (r1, d) = hw_do hw (Timer_init tm) d
        in if r1 \<noteq> OPRT_OK then (OPRT_OK, fail d)
        else let (r2, d) = hw_do hw (Timer_start tm 0xFFFFFFFF) d
        in if r2 \<noteq> OPRT_OK then (OPRT_OK, fail d)
        else let d = d\<lparr>irq_edge_mode := TUYA_GPIO_IRQ_FALL\<rparr>;
                 (r3, d) = hw_do hw (Gpio_irq_init pin TUYA_GPIO_IRQ_FALL) d
        in if r3 \<noteq> OPRT_OK then (OPRT_OK, fail d)
        else let (r4, d) = hw_do hw (Gpio_irq_enable pin) d
        in if r4 \<noteq> OPRT_OK then (OPRT_OK, fail d)
        else (OPRT_OK, d))"

definition tdd_ir_recv_capture_init :: "IR_DRV_INFO_T \<Rightarrow> OPERATE_RET" where
  "tdd_ir_recv_capture_init d = OPRT_COM_ERROR"

definition tdd_ir_recv_hw_init :: "hardware \<Rightarrow> IR_DRV_INFO_T \<Rightarrow> OPERATE_RET \<times> IR_DRV_INFO_T" where
  "tdd_ir_recv_hw_init hw d =
     (if user_close_recv_flag d then (OPRT_OK, d)
      else if driver_type d = IR_DRV_CAPTURE then (tdd_ir_recv_capture_init d, d)
      else tdd_ir_recv_irq_timer_init hw d)"

definition tdd_ir_recv_irq_timer_deinit :: "hardware \<Rightarrow> IR_DRV_INFO_T \<Rightarrow> IR_DRV_INFO_T" where
  "tdd_ir_recv_irq_timer_deinit hw d =
     (let d = snd (hw_do hw (Gpio_irq_disable (recv_pin (hw_cfg d))) d);
          d = snd (hw_do hw (Gpio_deinit (recv_pin (hw_cfg d))) d);
          d = snd (hw_do hw (Timer_stop (recv_timer (hw_cfg d))) d)
      in snd (hw_do hw (Timer_deinit (recv_timer (hw_cfg d))) d))"

definition tdd_ir_recv_hw_deinit :: "hardware \<Rightarrow> IR_DRV_INFO_T \<Rightarrow> IR_DRV_INFO_T" where
  "tdd_ir_recv_hw_deinit hw d =
     (if driver_type d = IR_DRV_CAPTURE then d else tdd_ir_recv_irq_timer_deinit hw d)"

section \<open>Phases of a transmission and of a reception\<close>

definition tdd_ir_send_start :: "hardware \<Rightarrow> IR_DRV_INFO_T \<Rightarrow> OPERATE_RET \<times> IR_DRV_INFO_T" where
  "tdd_ir_send_start hw d =
     (let (op_ret, d) = tdd_ir_pwm_start hw (send_pwm_id d) IR_SEND_FREQ_DEFAULT 0 d in
      if op_ret \<noteq> OPRT_OK then (op_ret, d)
      else hw_do hw (Timer_start (send_timer (hw_cfg d)) 300) d)"

definition tdd_ir_send_finish_process :: "hardware \<Rightarrow> IR_DRV_INFO_T \<Rightarrow> OPERATE_RET \<times> IR_DRV_INFO_T" where
  "tdd_ir_send_finish_process hw d =
     (let d = tdd_bk7231n_fiq_enable (tdd_bk7231n_isr_enable d);
          d = tdd_ir_send_hw_deinit hw d
      in if driver_type d = IR_DRV_SINGLE_TIMER \<and> driver_mode d = IR_MODE_SEND_RECV
         then (OPRT_OK, snd (tdd_ir_recv_hw_init hw d))
         else (OPRT_OK, d))"

definition tdd_ir_pre_send_process :: "hardware \<Rightarrow> IR_DRV_INFO_T \<Rightarrow> OPERATE_RET \<times> IR_DRV_INFO_T" where
  "tdd_ir_pre_send_process hw d =
     (let d = (if driver_type d = IR_DRV_SINGLE_TIMER \<and> driver_mode d = IR_MODE_SEND_RECV
               then tdd_ir_recv_hw_deinit hw d else d);
          (op_ret, d) = tdd_ir_send_hw_init hw d
      in if op_ret \<noteq> OPRT_OK then (op_ret, d)
         else let d = tdd_bk7231n_fiq_disable (tdd_bk7231n_isr_disable d);
                  (op_ret, d) = tdd_ir_send_start hw d
         in if op_ret \<noteq> OPRT_OK then (op_ret, snd (tdd_ir_send_finish_process hw d))
            else (OPRT_OK, d))"

definition tdd_ir_pre_recv_process :: "IR_DRV_INFO_T \<Rightarrow> OPERATE_RET \<times> IR_DRV_INFO_T" where
  "tdd_ir_pre_recv_process d = (OPRT_OK, tdd_bk7231n_fiq_disable (tdd_bk7231n_isr_disable d))"

definition tdd_ir_recv_finish_process :: "IR_DRV_INFO_T \<Rightarrow> OPERATE_RET \<times> IR_DRV_INFO_T" where
  "tdd_ir_recv_finish_process d =
     (OPRT_OK, (tdd_bk7231n_fiq_enable (tdd_bk7231n_isr_enable d))\<lparr>last_recv_time := 0\<rparr>)"

text \<open>The handle is the address of the driver block, which registration made and is not null.\<close>

definition tdd_ir_drv_status_notification ::
  "hardware \<Rightarrow> IR_DRV_INFO_T \<Rightarrow> IR_DRIVER_STATE_E \<Rightarrow> OPERATE_RET \<times> IR_DRV_INFO_T" where
  "tdd_ir_drv_status_notification hw d st =
     (OPRT_OK,
      case st of
        IR_DRV_PRE_SEND_STATE \<Rightarrow> snd (tdd_ir_pre_send_process hw d)
      | IR_DRV_SEND_FINISH_STATE \<Rightarrow> snd (tdd_ir_send_finish_process hw d)
      | IR_DRV_PRE_RECV_STATE \<Rightarrow> snd (tdd_ir_pre_recv_process d)
      | IR_DRV_RECV_FINISH_STATE \<Rightarrow> snd (tdd_ir_recv_finish_process d)
      | IR_DRV_SEND_HW_RESET \<Rightarrow> snd (tdd_ir_send_hw_init hw (tdd_ir_send_hw_deinit hw d))
      | IR_DRV_RECV_HW_INIT \<Rightarrow> snd (tdd_ir_recv_hw_init hw (d\<lparr>user_close_recv_flag := False\<rparr>))
      | IR_DRV_RECV_HW_DEINIT \<Rightarrow> (tdd_ir_recv_hw_deinit hw d)\<lparr>user_close_recv_flag := True\<rparr>)"

section \<open>The driver interface\<close>

definition tdd_ir_drv_open :: "hardware \<Rightarrow> IR_DRV_INFO_T \<Rightarrow> nat \<Rightarrow> OPERATE_RET \<times> IR_DRV_INFO_T" where
  "tdd_ir_drv_open hw d mode =
     (let d = d\<lparr>driver_mode := mode\<rparr> in
      if mode \<noteq> IR_MODE_SEND_ONLY
      then let d = tdd_ir_recv_hw_deinit hw (d\<lparr>user_close_recv_flag := False\<rparr>);
               (op_ret, d) = tdd_ir_recv_hw_init hw d
           in if op_ret \<noteq> OPRT_OK then (op_ret, d) else (OPRT_OK, d)
      else (OPRT_OK, d))"

definition tdd_ir_drv_close :: "hardware \<Rightarrow> IR_DRV_INFO_T \<Rightarrow> nat \<Rightarrow> OPERATE_RET \<times> IR_DRV_INFO_T" where
  "tdd_ir_drv_close hw d mode =
     (let d = tdd_ir_send_hw_deinit hw d in
      (OPRT_OK, if mode \<noteq> IR_MODE_SEND_ONLY then tdd_ir_recv_hw_deinit hw d else d))"

text \<open>The sum of the unsigned duration and the negative correction is compared as unsigned.\<close>

definition tdd_ir_delay :: "bool \<Rightarrow> u32 \<Rightarrow> u32" where
  "tdd_ir_delay is_active time_us =
     (let err = (if is_active then -55 else -115) in
      if time_us + err \<le> 0 then time_us else time_us + err)"

definition tdd_ir_drv_output ::
  "hardware \<Rightarrow> IR_DRV_INFO_T \<Rightarrow> u32 \<Rightarrow> bool \<Rightarrow> u32 \<Rightarrow> OPERATE_RET \<times> IR_DRV_INFO_T" where
  "tdd_ir_drv_output hw d freq is_active time_us =
     (let delay_time = tdd_ir_delay is_active time_us;
          d = snd (tdd_ir_pwm_start hw (send_pwm_id d) (unat freq)
                (if is_active then send_duty (hw_cfg d) else 0) d)
      in if delay_time < 50 \<or> delay_time > 1000000 then (OPRT_COM_ERROR, d)
         else hw_do hw (Timer_start (send_timer (hw_cfg d)) delay_time) d)"

definition tdd_ir_intfs :: "hardware \<Rightarrow> IR_DRV_INFO_T TDD_IR_INTFS_T" where
  "tdd_ir_intfs hw = \<lparr>drv_open = Some (tdd_ir_drv_open hw), drv_close = Some (tdd_ir_drv_close hw),
     drv_output = Some (tdd_ir_drv_output hw), drv_status_notif = Some (tdd_ir_drv_status_notification hw)\<rparr>"

text \<open>
  The edge interrupt. \<open>recv_value_cb\<close> is the callback given at opening; \<open>cur_us\<close> is what the
  running timer reads.
\<close>

definition tdd_ir_irq_recv_cb ::
  "hardware \<Rightarrow> (u32 \<Rightarrow> IR_DRV_INFO_T \<Rightarrow> IR_DRV_INFO_T) \<Rightarrow> u32 \<Rightarrow> IR_DRV_INFO_T \<Rightarrow> IR_DRV_INFO_T" where
  "tdd_ir_irq_recv_cb hw recv_value_cb cur_us d =
     (let pin = recv_pin (hw_cfg d);
          d = snd (hw_do hw (Gpio_irq_disable pin) d);
          d = snd (hw_do hw (Gpio_deinit pin) d);
          out_us = (if last_recv_time d < cur_us then cur_us - last_recv_time d
                    else (0xffffffff - last_recv_time d) + cur_us + 1);
          d = recv_value_cb out_us (d\<lparr>last_recv_time := cur_us\<rparr>);
          d = d\<lparr>irq_edge_mode := (if irq_edge_mode d = TUYA_GPIO_IRQ_FALL then TUYA_GPIO_IRQ_RISE
                 else if irq_edge_mode d = TUYA_GPIO_IRQ_RISE then TUYA_GPIO_IRQ_FALL else irq_edge_mode d)\<rparr>;
          d = snd (hw_do hw (Gpio_irq_init pin (irq_edge_mode d)) d)
      in snd (hw_do hw (Gpio_irq_enable pin) d))"

text \<open>The timer interrupt of a transmission, with the callback given at opening.\<close>

definition tdd_ir_timer_send_cb :: "hardware \<Rightarrow> (IR_DRV_INFO_T \<Rightarrow> 'a) \<Rightarrow> IR_DRV_INFO_T \<Rightarrow> 'a" where
  "tdd_ir_timer_send_cb hw output_finish_cb d =
     output_finish_cb (snd (hw_do hw (Timer_stop (send_timer (hw_cfg d))) d))"

section \<open>Registration\<close>

definition gpio_pwm_map :: "(int \<times> int) list" where
  "gpio_pwm_map = [(6, 0), (7, 1), (8, 2), (9, 3), (24, 4), (26, 5)]"

definition tdd_get_pwm_id :: "int \<Rightarrow> OPERATE_RET \<times> int option" where
  "tdd_get_pwm_id gpio_id =
     (case map_of gpio_pwm_map gpio_id of
        None \<Rightarrow> (OPRT_NOT_SUPPORTED, None)
      | Some p \<Rightarrow> (OPRT_OK, Some p))"

definition tdd_ir_driver_register ::
  "bool \<Rightarrow> bool \<Rightarrow> hardware \<Rightarrow> u32 \<Rightarrow> u32 \<Rightarrow> IR_DRV_INFO_T ir_sys \<Rightarrow> string option \<Rightarrow> nat \<Rightarrow> IR_DRV_CFG_T
     \<Rightarrow> OPERATE_RET \<times> IR_DRV_INFO_T ir_sys" where
  "tdd_ir_driver_register drv_malloc node_malloc hw fiq_reg int_reg s dev_name type cfg =
     (if dev_name = None \<or> IR_DRV_TYPE_MAX \<le> type then (OPRT_INVALID_PARM, s)
      else if type = IR_DRV_CAPTURE then (OPRT_NOT_SUPPORTED, s)
      else if \<not> drv_malloc then (OPRT_MALLOC_FAILED, s)
      else let (rt, pwm) = (if send_pin cfg \<noteq> IR_INPUT_INVALID then tdd_get_pwm_id (send_pin cfg)
                            else (OPRT_OK, Some IR_INPUT_INVALID))
           in if rt \<noteq> OPRT_OK then (rt, s)
              else let cfg = (if type = IR_DRV_SINGLE_TIMER then cfg\<lparr>recv_timer := send_timer cfg\<rparr> else cfg)
              in tdl_ir_dev_register node_malloc s dev_name
                   \<lparr>driver_mode = 0, driver_type = type, user_close_recv_flag = False,
                    send_pwm_id = the pwm, irq_edge_mode = 0, last_recv_time = 0, hw_cfg = cfg,
                    fiq_disable_cnt = 0, irq_disable_cnt = 0, irq_val = 0, reg_fiq = fiq_reg, reg_int = int_reg,
                    hw_trace = []\<rparr> (Some (tdd_ir_intfs hw)))"

section \<open>Timing of the emitted pulses\<close>

definition tdd_accepts :: "bool \<Rightarrow> u32 \<Rightarrow> bool" where
  "tdd_accepts a t \<longleftrightarrow> (if a then 105 \<le> t \<and> t \<le> 1000055 else 165 \<le> t \<and> t \<le> 1000115)"

lemma tdd_ir_delay_eq:
  assumes "tdd_accepts a t"
  shows "tdd_ir_delay a t = t - (if a then 55 else 115)"
    and "50 \<le> tdd_ir_delay a t" and "tdd_ir_delay a t \<le> 1000000"
proof -
  let ?c = "if a then 55 else 115 :: u32"
  have le: "?c \<le> t" using assms by (auto simp: tdd_accepts_def intro: order_trans [rotated])
  then have u: "unat (t - ?c) = unat t - unat ?c" by (rule unat_sub)
  have b: "50 \<le> unat t - unat ?c" "unat t - unat ?c \<le> 1000000"
    using assms by (auto simp: tdd_accepts_def word_le_nat_alt)
  then have "t - ?c \<noteq> 0" using u by (metis not_numeral_le_zero unat_0)
  then show eq: "tdd_ir_delay a t = t - ?c" by (cases a) (auto simp: tdd_ir_delay_def)
  show "50 \<le> tdd_ir_delay a t" "tdd_ir_delay a t \<le> 1000000"
    unfolding eq using u b by (simp_all add: word_le_nat_alt)
qed

lemma tdd_ir_pwm_start_fields:
  "snd (tdd_ir_pwm_start hw p f duty d) = d\<lparr>hw_trace := hw_trace (snd (tdd_ir_pwm_start hw p f duty d))\<rparr>"
  by (simp add: tdd_ir_pwm_start_def hw_do_def)

lemma tdd_ir_drv_output_ok:
  assumes "tdd_accepts a t"
  shows "tdd_ir_drv_output hw d f a t =
    hw_do hw (Timer_start (send_timer (hw_cfg d)) (t - (if a then 55 else 115)))
      (snd (tdd_ir_pwm_start hw (send_pwm_id d) (unat f) (if a then send_duty (hw_cfg d) else 0) d))"
proof -
  have "\<not> (tdd_ir_delay a t < 50 \<or> 1000000 < tdd_ir_delay a t)"
    using tdd_ir_delay_eq(2,3) [OF assms] by (simp add: not_less)
  moreover have "hw_cfg (snd (tdd_ir_pwm_start hw p f' duty d)) = hw_cfg d" for p f' duty
    by (simp add: tdd_ir_pwm_start_def hw_do_def)
  ultimately show ?thesis
    by (simp add: tdd_ir_drv_output_def Let_def tdd_ir_delay_eq(1) [OF assms])
qed

text \<open>Hardware that takes every timer start and every PWM setting; the driver then meets the
  manager's contract.\<close>

locale ir_hardware =
  fixes hw :: hardware
  assumes timer_start_ok: "hw tr (Timer_start tm us) = OPRT_OK"
    and pwm_set_ok: "hw tr (Pwm_info_set p duty f) = OPRT_OK"

sublocale ir_hardware \<subseteq> ir_driver "tdd_ir_drv_output hw" "tdd_ir_drv_status_notification hw" "tdd_ir_timer_send_cb hw (\<lambda>d. d)" "\<lambda>_. True" tdd_accepts
  by unfold_locales (simp_all add: tdd_ir_drv_output_ok hw_do_def timer_start_ok)

text \<open>
  The calls of one pulse: the send timer, which just fired, is stopped; the carrier is set to the
  configured duty (in hundredths of a percent) at the asked frequency and started for a mark, and
  stopped for a space or at duty 0; the send timer is started for the duration of the pulse less the
  time the driver itself takes.
\<close>

definition compensated :: "bool \<times> u32 \<Rightarrow> u32" where
  "compensated p = snd p - (if fst p then 55 else 115)"

definition pulse_ops :: "IR_DRV_INFO_T \<Rightarrow> u32 \<Rightarrow> bool \<times> u32 \<Rightarrow> hw_op list" where
  "pulse_ops d f p =
     [Timer_stop (send_timer (hw_cfg d))] @
     (if fst p \<and> send_duty (hw_cfg d) \<noteq> 0
      then [Pwm_info_set (send_pwm_id d) (send_duty (hw_cfg d) * 100) (unat f), Pwm_start (send_pwm_id d)]
      else [Pwm_stop (send_pwm_id d)]) @
     [Timer_start (send_timer (hw_cfg d)) (compensated p)]"

context ir_hardware begin

lemma output_trace:
  assumes "tdd_accepts a t"
  shows "snd (tdd_ir_drv_output hw (tdd_ir_timer_send_cb hw (\<lambda>d. d) d) f a t) =
    d\<lparr>hw_trace := hw_trace d @ pulse_ops d f (a, t)\<rparr>"
  using assms
  by (simp add: tdd_ir_drv_output_ok tdd_ir_timer_send_cb_def hw_do_def tdd_ir_pwm_start_def pulse_ops_def compensated_def pwm_set_ok)

lemma emit_trace:
  assumes "\<forall>(a, t) \<in> set ps. tdd_accepts a t"
  shows "emit f ps d = d\<lparr>hw_trace := hw_trace d @ concat (map (pulse_ops d f) ps)\<rparr>"
  using assms
proof (induction ps arbitrary: d)
  case Nil
  then show ?case by (simp add: emit_def)
next
  case (Cons p ps)
  obtain a t where p: "p = (a, t)" by force
  have "pulse_ops (d\<lparr>hw_trace := x\<rparr>) f = pulse_ops d f" for x by (simp add: pulse_ops_def fun_eq_iff)
  with Cons p output_trace [of a t d f] show ?case by (simp add: emit_def)
qed

end

text \<open>The board whose every call succeeds is such hardware.\<close>

interpretation ideal_hw: ir_hardware "\<lambda>_ _. OPRT_OK"
  by unfold_locales simp_all

lemma tdd_ir_delay_refused:
  assumes "\<not> tdd_accepts a t" and "t \<noteq> (if a then 55 else 115)"
  shows "tdd_ir_delay a t < 50 \<or> 1000000 < tdd_ir_delay a t"
proof -
  let ?c = "if a then 55 else 115 :: u32"
  have "t - ?c \<noteq> 0" using assms(2) by auto
  then have eq: "tdd_ir_delay a t = t - ?c" by (cases a) (auto simp: tdd_ir_delay_def)
  have u: "unat (t - ?c) = (if unat ?c \<le> unat t then unat t - unat ?c else unat t + 4294967296 - unat ?c)"
    using unat_sub_if' [of t ?c] by (auto split: if_splits)
  have c: "unat ?c = (if a then 55 else 115)" by simp
  from assms(1) have "unat t < 50 + unat ?c \<or> 1000000 + unat ?c < unat t"
    unfolding c by (auto simp: tdd_accepts_def word_le_nat_alt split: if_splits)
  then show ?thesis
    unfolding eq word_less_nat_alt u c by (auto split: if_splits)
qed

text \<open>The driver takes a pulse exactly when it is long enough to be compensated (or is as long as
  the compensation itself), also where the unsigned sum wraps; any other pulse is refused.\<close>

theorem output_accepts_exactly:
  assumes "\<And>tr tm us. hw tr (Timer_start tm us) = OPRT_OK"
  shows "fst (tdd_ir_drv_output hw d f a t) =
    (if tdd_accepts a t \<or> t = (if a then 55 else 115) then OPRT_OK else OPRT_COM_ERROR)"
proof (cases "tdd_accepts a t")
  case True
  then show ?thesis using assms by (simp add: tdd_ir_drv_output_ok hw_do_def)
next
  case False
  show ?thesis
  proof (cases "t = (if a then 55 else 115)")
    case True
    then show ?thesis using assms by (auto simp: tdd_ir_drv_output_def tdd_ir_delay_def hw_do_def Let_def)
  next
    case ne: False
    with tdd_ir_delay_refused [OF False ne] False show ?thesis by (auto simp: tdd_ir_drv_output_def Let_def)
  qed
qed

section \<open>Interrupt masking nests\<close>

text \<open>Nothing is saved while nothing is masked.\<close>

definition mask_inv :: "IR_DRV_INFO_T \<Rightarrow> bool" where
  "mask_inv d \<longleftrightarrow> (irq_disable_cnt d = 0 \<longrightarrow> irq_val d = 0)"

lemma irq_mask_restore:
  fixes r :: u32
  shows "(r AND 0xFFFF8380) OR (r AND 0xFFFF) = r"
proof -
  have "(0xFFFF8380 OR 0xFFFF :: u32) = - 1" by simp
  then show ?thesis by (metis and.right_neutral bit.conj_disj_distrib)
qed

lemma irq_mask_nothing: "(r :: u32) AND 0xFFFF = 0 \<Longrightarrow> r AND 0xFFFF8380 = r"
  using irq_mask_restore [of r] by simp

lemma u8_below_max:
  fixes c :: u8
  assumes "c < 0xFF"
  shows "c \<noteq> 0xFF" and "c + 1 \<noteq> 0"
proof -
  show ne: "c \<noteq> 0xFF" using assms by auto
  show "c + 1 \<noteq> 0"
  proof
    assume "c + 1 = 0"
    then have "c = - 1" by (simp add: add_eq_0_iff2)
    with ne show False by simp
  qed
qed

lemma isr_enable_disable:
  assumes "irq_disable_cnt d < 0xFF" and "mask_inv d"
  shows "tdd_bk7231n_isr_enable (tdd_bk7231n_isr_disable d) = d"
    and "mask_inv (tdd_bk7231n_isr_disable d)"
    and "irq_disable_cnt (tdd_bk7231n_isr_disable d) = irq_disable_cnt d + 1"
proof -
  note ne = u8_below_max [OF assms(1)]
  show "tdd_bk7231n_isr_enable (tdd_bk7231n_isr_disable d) = d"
    using assms(2) ne
    by (cases "irq_disable_cnt d = 0")
       (auto simp: tdd_bk7231n_isr_enable_def tdd_bk7231n_isr_disable_def mask_inv_def Let_def
          irq_mask_restore irq_mask_nothing)
  show "mask_inv (tdd_bk7231n_isr_disable d)"
    "irq_disable_cnt (tdd_bk7231n_isr_disable d) = irq_disable_cnt d + 1"
    using ne by (simp_all add: tdd_bk7231n_isr_disable_def mask_inv_def)
qed

text \<open>Up to 255 nested requests to mask the interrupts are undone by as many requests to unmask
  them: the registers, the saved value and the counter are as before.\<close>

theorem isr_nesting:
  assumes "unat (irq_disable_cnt d) + k \<le> 255" and "mask_inv d"
  shows "(tdd_bk7231n_isr_enable ^^ k) ((tdd_bk7231n_isr_disable ^^ k) d) = d"
  using assms
proof (induction k arbitrary: d)
  case 0
  then show ?case by simp
next
  case (Suc k)
  have lt: "irq_disable_cnt d < 0xFF" using Suc.prems(1) by (simp add: word_less_nat_alt)
  note d = isr_enable_disable [OF lt Suc.prems(2)]
  have "unat (irq_disable_cnt d + 1) = unat (irq_disable_cnt d) + 1"
    using Suc.prems(1) by (simp add: unat_word_ariths)
  with Suc.prems d have "(tdd_bk7231n_isr_enable ^^ k) ((tdd_bk7231n_isr_disable ^^ k) (tdd_bk7231n_isr_disable d))
      = tdd_bk7231n_isr_disable d"
    by (intro Suc.IH) auto
  with d(1) show ?case by (simp add: funpow_swap1)
qed

lemma clear_then_set_bit:
  fixes w :: "'a::len word"
  shows "bit w j \<Longrightarrow> (w AND NOT (push_bit j 1)) OR push_bit j 1 = w"
  by (intro bit_word_eqI) (auto simp: bit_simps)

lemma fiq_enable_disable:
  assumes "fiq_disable_cnt d < 0xFF" and "fiq_disable_cnt d = 0 \<longrightarrow> bit (reg_fiq d) 1"
  shows "tdd_bk7231n_fiq_enable (tdd_bk7231n_fiq_disable d) = d"
proof -
  note ne = u8_below_max [OF assms(1)]
  have m: "(reg_fiq d AND 0xFFFFFFFD) OR 2 = reg_fiq d" if "bit (reg_fiq d) 1"
  proof -
    have "(0xFFFFFFFD :: u32) = - 3" by simp
    moreover have "reg_fiq d AND - 3 OR 2 = reg_fiq d"
      using clear_then_set_bit [OF that] by simp
    ultimately show ?thesis by (simp only:)
  qed
  show ?thesis using assms(2) ne m
    by (auto simp: tdd_bk7231n_fiq_enable_def tdd_bk7231n_fiq_disable_def Let_def)
qed

lemma mask_commute:
  "fiq_disable_cnt (tdd_bk7231n_isr_disable d) = fiq_disable_cnt d"
  "reg_fiq (tdd_bk7231n_isr_disable d) = reg_fiq d"
  "tdd_bk7231n_isr_enable (tdd_bk7231n_fiq_disable d) = tdd_bk7231n_fiq_disable (tdd_bk7231n_isr_enable d)"
  by (simp_all add: tdd_bk7231n_isr_enable_def tdd_bk7231n_isr_disable_def tdd_bk7231n_fiq_disable_def Let_def)

text \<open>The start of a reception followed by its end leaves both masks, their counters and the
  interrupt registers as they were; only the time of the last edge is reset.\<close>

theorem recv_phase_balanced:
  assumes "irq_disable_cnt d < 0xFF" and "mask_inv d"
    and "fiq_disable_cnt d < 0xFF" and "fiq_disable_cnt d = 0 \<longrightarrow> bit (reg_fiq d) 1"
  shows "snd (tdd_ir_recv_finish_process (snd (tdd_ir_pre_recv_process d))) = d\<lparr>last_recv_time := 0\<rparr>"
  using isr_enable_disable(1) [OF assms(1,2)] fiq_enable_disable [OF assms(3,4)]
  by (simp add: tdd_ir_recv_finish_process_def tdd_ir_pre_recv_process_def mask_commute)

section \<open>Measured edge distances\<close>

lemma edge_distance: "(if prev < cur then cur - prev else (0xffffffff - prev) + cur + 1) = cur - (prev :: u32)"
  by simp

text \<open>An edge interrupt gives the callback the distance from the last edge, also across the wrap of
  the timer, with the time of this edge noted, and then arms the opposite edge.\<close>

theorem edge_interrupt:
  assumes "\<And>us x. irq_edge_mode (cb us x) = irq_edge_mode x"
    and "irq_edge_mode d \<in> {TUYA_GPIO_IRQ_RISE, TUYA_GPIO_IRQ_FALL}"
  shows "tdd_ir_irq_recv_cb hw cb cur d =
    (let pin = recv_pin (hw_cfg d);
         d1 = cb (cur - last_recv_time d)
           (d\<lparr>hw_trace := hw_trace d @ [Gpio_irq_disable pin, Gpio_deinit pin], last_recv_time := cur\<rparr>)
     in d1\<lparr>irq_edge_mode := 1 - irq_edge_mode d,
           hw_trace := hw_trace d1 @ [Gpio_irq_init pin (1 - irq_edge_mode d), Gpio_irq_enable pin]\<rparr>)"
  unfolding tdd_ir_irq_recv_cb_def edge_distance using assms by (auto simp: hw_do_def Let_def)

section \<open>A transmission from end to end\<close>

lemma send_cnt_rounds: "cnt \<noteq> 0 \<Longrightarrow> unat (ucast (cnt :: u8) - 1 :: u32) = unat cnt - 1"
proof -
  assume c: "cnt \<noteq> 0"
  note u = unat_u8_u32 [of cnt]
  with c have "(ucast cnt :: u32) \<noteq> 0" by (metis unat_0 unat_eq_0)
  with u show ?thesis by (simp add: unat_minus_one)
qed

lemma send_begin_nec:
  assumes n: "ir_mode (ir_dev_cfg n) \<noteq> IR_MODE_RECV_ONLY" "send_status n = IR_STA_SEND_IDLE"
      "recv_status n \<noteq> IR_STA_RECVING" "is_open n" "prot_opt (ir_dev_cfg n) = IR_PROT_NEC"
    and notif: "drv_status_notif (drv_intfs n) = Some f" "f (ir_drv_hdl n) IR_DRV_PRE_SEND_STATE = (OPRT_OK, d')"
    and rep: "unat (nec_repeat_cnt dat) \<le> 255" and m: "m = (is_nec_msb (nec_cfg (ir_dev_cfg n)) \<noteq> 0)"
  shows "tdl_ir_dev_send_begin True (Some n) freq (Nec_data dat) cnt = Some (Inr (n\<lparr>send_status := IR_STA_SENDING,
    send_info := \<lparr>send_data = Some (nec_frame m dat), send_len = length (nec_frame m dat), send_idx = 0, send_freq = freq,
      send_cnt = of_int (uint cnt - 1), send_sem = send_sem (send_info n)\<rparr>, ir_drv_hdl := d'\<rparr>))"
  using n notif tdl_ir_nec_build_eq [OF rep, of m] m
  by (simp add: tdl_ir_dev_send_begin_def status_notif_def)

lemma nec_remaining:
  assumes "cnt \<noteq> 0" and "xs \<noteq> []"
  shows "send_remaining \<lparr>send_data = Some xs, send_len = length xs, send_idx = 0, send_freq = f,
      send_cnt = of_int (uint (cnt :: u8) - 1), send_sem = sm\<rparr> = concat (replicate (unat cnt) (pulses xs))"
proof -
  have "unat cnt = Suc (unat cnt - 1)" using assms(1) by (simp add: unat_gt_0)
  then have "concat (replicate (unat cnt) (pulses xs)) = pulses xs @ concat (replicate (unat cnt - 1) (pulses xs))"
    by (metis concat.simps(2) replicate_Suc)
  then show ?thesis by (simp add: send_remaining_def send_round_def send_cnt_rounds [OF assms(1)])
qed

lemma nec_pulses_accepted: "(a, t) \<in> set (pulses (nec_frame m dat)) \<Longrightarrow> tdd_accepts a t"
proof -
  assume "(a, t) \<in> set (pulses (nec_frame m dat))"
  then have "t \<in> set (nec_frame m dat)" by (auto simp: pulses_def)
  with nec_frame_range [of t m dat] show "tdd_accepts a t" by (auto simp: tdd_accepts_def word_le_nat_alt)
qed

lemma mask_trace [simp]:
  "hw_trace (tdd_bk7231n_isr_enable d) = hw_trace d" "hw_trace (tdd_bk7231n_fiq_enable d) = hw_trace d"
  by (simp_all add: tdd_bk7231n_isr_enable_def tdd_bk7231n_fiq_enable_def Let_def)

text \<open>
  The end of a transmission releases the carrier and the send timer. Only a board with a single timer
  that also receives then makes further calls, which give timer and pin back to the receiver.
\<close>

definition finish_ops :: "IR_DRV_INFO_T \<Rightarrow> hw_op list" where
  "finish_ops d = [Timer_stop (send_timer (hw_cfg d)), Pwm_stop (send_pwm_id d), Pwm_deinit (send_pwm_id d),
     Timer_stop (send_timer (hw_cfg d)), Timer_deinit (send_timer (hw_cfg d))]"

definition receiver_ops :: "IR_DRV_CFG_T \<Rightarrow> hw_op list" where
  "receiver_ops c = [Timer_init (recv_timer c), Timer_start (recv_timer c) 0xFFFFFFFF, Gpio_irq_init (recv_pin c) TUYA_GPIO_IRQ_FALL,
     Gpio_irq_enable (recv_pin c), Timer_stop (recv_timer c), Timer_deinit (recv_timer c)]"

definition shares_timer :: "IR_DRV_INFO_T \<Rightarrow> bool" where
  "shares_timer d \<longleftrightarrow> driver_type d = IR_DRV_SINGLE_TIMER \<and> driver_mode d = IR_MODE_SEND_RECV"

lemma recv_init_trace:
  "\<exists>rx. hw_trace (snd (tdd_ir_recv_hw_init hw d)) = hw_trace d @ rx \<and> set rx \<subseteq> set (receiver_ops (hw_cfg d))"
  by (auto simp: tdd_ir_recv_hw_init_def tdd_ir_recv_irq_timer_init_def hw_do_def Let_def receiver_ops_def)

lemma mask_fields [simp]:
  "hw_cfg (tdd_bk7231n_isr_enable d) = hw_cfg d" "hw_cfg (tdd_bk7231n_fiq_enable d) = hw_cfg d"
  "send_pwm_id (tdd_bk7231n_isr_enable d) = send_pwm_id d" "send_pwm_id (tdd_bk7231n_fiq_enable d) = send_pwm_id d"
  "driver_type (tdd_bk7231n_isr_enable d) = driver_type d" "driver_type (tdd_bk7231n_fiq_enable d) = driver_type d"
  "driver_mode (tdd_bk7231n_isr_enable d) = driver_mode d" "driver_mode (tdd_bk7231n_fiq_enable d) = driver_mode d"
  "hw_trace (tdd_bk7231n_isr_disable d) = hw_trace d" "hw_trace (tdd_bk7231n_fiq_disable d) = hw_trace d"
  "hw_cfg (tdd_bk7231n_isr_disable d) = hw_cfg d" "hw_cfg (tdd_bk7231n_fiq_disable d) = hw_cfg d"
  "send_pwm_id (tdd_bk7231n_isr_disable d) = send_pwm_id d" "send_pwm_id (tdd_bk7231n_fiq_disable d) = send_pwm_id d"
  "driver_type (tdd_bk7231n_isr_disable d) = driver_type d" "driver_type (tdd_bk7231n_fiq_disable d) = driver_type d"
  "driver_mode (tdd_bk7231n_isr_disable d) = driver_mode d" "driver_mode (tdd_bk7231n_fiq_disable d) = driver_mode d"
  by (simp_all add: tdd_bk7231n_isr_enable_def tdd_bk7231n_fiq_enable_def tdd_bk7231n_isr_disable_def
      tdd_bk7231n_fiq_disable_def Let_def)

lemma finish_trace:
  "\<exists>rx. hw_trace (snd (tdd_ir_drv_status_notification hw (tdd_ir_timer_send_cb hw (\<lambda>d. d) d) IR_DRV_SEND_FINISH_STATE))
      = hw_trace d @ finish_ops d @ rx \<and> set rx \<subseteq> set (receiver_ops (hw_cfg d)) \<and> (shares_timer d \<or> rx = [])"
proof -
  let ?d = "tdd_ir_send_hw_deinit hw (tdd_bk7231n_fiq_enable (tdd_bk7231n_isr_enable (tdd_ir_timer_send_cb hw (\<lambda>d. d) d)))"
  have "hw_trace ?d = hw_trace d @ finish_ops d" and c: "hw_cfg ?d = hw_cfg d"
    and "driver_type ?d = driver_type d" "driver_mode ?d = driver_mode d"
    by (simp_all add: tdd_ir_send_hw_deinit_def tdd_ir_timer_send_cb_def hw_do_def Let_def finish_ops_def)
  with recv_init_trace [of hw ?d] show ?thesis
    by (auto simp: tdd_ir_drv_status_notification_def tdd_ir_send_finish_process_def Let_def shares_timer_def)
qed

text \<open>
  The start of a transmission when every call succeeds: the receiver is shut down first where it has
  the same timer; then the carrier and the send timer are set up, with the carrier off for the first
  300 microseconds.
\<close>

definition start_ops :: "IR_DRV_INFO_T \<Rightarrow> hw_op list" where
  "start_ops d =
     (if shares_timer d then [Gpio_irq_disable (recv_pin (hw_cfg d)), Gpio_deinit (recv_pin (hw_cfg d)),
        Timer_stop (recv_timer (hw_cfg d)), Timer_deinit (recv_timer (hw_cfg d))] else []) @
     [Pwm_init (send_pwm_id d) (send_duty (hw_cfg d) * 100) 38000, Timer_init (send_timer (hw_cfg d)),
      Pwm_stop (send_pwm_id d), Timer_start (send_timer (hw_cfg d)) 300]"

definition can_send :: "hardware \<Rightarrow> IR_DRV_INFO_T \<Rightarrow> bool" where
  "can_send hw d \<longleftrightarrow> send_pwm_id d \<noteq> IR_INPUT_INVALID \<and> send_timer (hw_cfg d) \<noteq> IR_INPUT_INVALID \<and>
     (\<forall>tr op. hw tr op = OPRT_OK)"

lemma pre_send_trace:
  assumes "can_send hw d"
  shows "hw_trace (snd (tdd_ir_drv_status_notification hw d IR_DRV_PRE_SEND_STATE)) = hw_trace d @ start_ops d"
  using assms
  by (simp add: can_send_def tdd_ir_drv_status_notification_def tdd_ir_pre_send_process_def tdd_ir_send_hw_init_def
      tdd_ir_send_start_def tdd_ir_pwm_start_def tdd_ir_recv_hw_deinit_def tdd_ir_recv_irq_timer_deinit_def
      hw_do_def Let_def start_ops_def shares_timer_def)

text \<open>The fields that say which carrier and which timer are used stay as they are.\<close>

definition same_wiring :: "IR_DRV_INFO_T \<Rightarrow> IR_DRV_INFO_T \<Rightarrow> bool" where
  "same_wiring d d' \<longleftrightarrow> hw_cfg d' = hw_cfg d \<and> send_pwm_id d' = send_pwm_id d \<and> driver_type d' = driver_type d \<and>
     driver_mode d' = driver_mode d"

lemma same_wiring_trans: "same_wiring d d' \<Longrightarrow> same_wiring d' d'' \<Longrightarrow> same_wiring d d''"
  by (simp add: same_wiring_def)

lemma same_wiring_mask:
  "same_wiring d (tdd_bk7231n_fiq_enable (tdd_bk7231n_isr_enable d))"
  "same_wiring d (tdd_bk7231n_fiq_disable (tdd_bk7231n_isr_disable d))"
  by (simp_all add: same_wiring_def)

lemma same_wiring_hw:
  "same_wiring d (tdd_ir_send_hw_deinit hw d)" "same_wiring d (tdd_ir_recv_hw_deinit hw d)"
  "same_wiring d (snd (tdd_ir_send_hw_init hw d))" "same_wiring d (snd (tdd_ir_send_start hw d))"
  by (simp_all add: same_wiring_def tdd_ir_send_hw_deinit_def tdd_ir_recv_hw_deinit_def tdd_ir_recv_irq_timer_deinit_def
      tdd_ir_send_hw_init_def tdd_ir_send_start_def tdd_ir_pwm_start_def hw_do_def Let_def)

lemma same_wiring_recv: "same_wiring d (snd (tdd_ir_recv_hw_init hw d))"
  by (simp add: same_wiring_def tdd_ir_recv_hw_init_def tdd_ir_recv_irq_timer_init_def hw_do_def Let_def)

lemma same_wiring_finish: "same_wiring d (snd (tdd_ir_send_finish_process hw d))"
  using same_wiring_trans [OF same_wiring_mask(1) [of d] same_wiring_hw(1) [of _ hw]]
  by (auto simp: tdd_ir_send_finish_process_def Let_def intro: same_wiring_trans same_wiring_recv)

lemma same_wiring_pre_send: "same_wiring d (snd (tdd_ir_drv_status_notification hw d IR_DRV_PRE_SEND_STATE))"
proof -
  let ?d = "if driver_type d = IR_DRV_SINGLE_TIMER \<and> driver_mode d = IR_MODE_SEND_RECV then tdd_ir_recv_hw_deinit hw d else d"
  obtain r1 d1 where 1: "tdd_ir_send_hw_init hw ?d = (r1, d1)" by force
  obtain r2 d2 where 2: "tdd_ir_send_start hw (tdd_bk7231n_fiq_disable (tdd_bk7231n_isr_disable d1)) = (r2, d2)" by force
  have "same_wiring d ?d" using same_wiring_hw(2) by (simp add: same_wiring_def)
  moreover have "same_wiring ?d d1" using same_wiring_hw(3) [of ?d hw] by (simp only: 1 snd_conv)
  ultimately have a: "same_wiring d d1" by (rule same_wiring_trans)
  moreover have "same_wiring d1 d2"
    using same_wiring_trans [OF same_wiring_mask(2) same_wiring_hw(4), of d1 hw] by (simp only: 2 snd_conv)
  ultimately have b: "same_wiring d d2" by (rule same_wiring_trans)
  have "same_wiring d (snd (tdd_ir_send_finish_process hw d2))"
    by (rule same_wiring_trans [OF b same_wiring_finish])
  with a b show ?thesis
    unfolding tdd_ir_drv_status_notification_def tdd_ir_pre_send_process_def Let_def 1 prod.case 2 by simp
qed

context ir_hardware begin

lemma transmission:
  assumes intfs: "drv_intfs n = tdd_ir_intfs hw" and inv: "send_inv (send_info n)"
    and ps: "send_remaining (send_info n) = ps" "\<forall>(a, t) \<in> set ps. tdd_accepts a t"
    and d: "d = ir_drv_hdl n" and f: "f = send_freq (send_info n)"
  shows "\<exists>n' rx. run_interrupts (tdd_ir_timer_send_cb hw (\<lambda>d. d)) (length ps + 1) n = Some n' \<and> send_status n' = IR_STA_SEND_FINISH \<and>
    send_sem (send_info n') = map_option Suc (send_sem (send_info n)) \<and>
    hw_trace (ir_drv_hdl n') = hw_trace d @ concat (map (pulse_ops d f) ps) @ finish_ops d @ rx \<and>
    set rx \<subseteq> set (receiver_ops (hw_cfg d)) \<and> (shares_timer d \<or> rx = [])"
proof -
  let ?d = "emit f ps d"
  obtain n' where n': "run_interrupts (tdd_ir_timer_send_cb hw (\<lambda>d. d)) (length ps + 1) n = Some n'" "send_status n' = IR_STA_SEND_FINISH"
    "ir_drv_hdl n' = snd (tdd_ir_drv_status_notification hw (tdd_ir_timer_send_cb hw (\<lambda>d. d) ?d) IR_DRV_SEND_FINISH_STATE)"
    "send_sem (send_info n') = map_option Suc (send_sem (send_info n))"
    using transmit_and_finish [of n ps] inv ps intfs d f by (auto simp: tdd_ir_intfs_def)
  with finish_trace [of hw ?d] show ?thesis
    by (auto simp: emit_trace [OF ps(2)] finish_ops_def shares_timer_def)
qed

end

text \<open>C2: A NEC code that is sent \<open>cnt\<close> times on the T2 board: after one timer interrupt for each pulse and one
  more the transmission is finished and its semaphore was posted once. In between the board was given
  exactly the calls of the pulses of the reference frame, in order, \<open>cnt\<close> times over: for each pulse
  the send timer is stopped, the carrier is set to the configured duty at the asked frequency and
  started for a mark and stopped for a space, and the send timer is started for the pulse less the
  driver's own time. Then carrier and send timer are released, and calls on the receiver's own timer
  and pin follow only where the receiver shares the timer. Asked of the board is that it takes timer
  starts and PWM settings; where it takes every call, the calls that start the transmission are pinned too.\<close>

theorem nec_transmission:
  assumes "ir_mode (ir_dev_cfg n) \<noteq> IR_MODE_RECV_ONLY" "send_status n = IR_STA_SEND_IDLE"
      "recv_status n \<noteq> IR_STA_RECVING" "is_open n" "prot_opt (ir_dev_cfg n) = IR_PROT_NEC"
    and intfs: "drv_intfs n = tdd_ir_intfs hw" and hw: "\<And>tr tm us. hw tr (Timer_start tm us) = OPRT_OK"
      "\<And>tr p duty f. hw tr (Pwm_info_set p duty f) = OPRT_OK"
    and rep: "unat (nec_repeat_cnt dat) \<le> 255" and cnt: "cnt \<noteq> 0"
    and frame: "frame = nec_frame (is_nec_msb (nec_cfg (ir_dev_cfg n)) \<noteq> 0) dat" and d: "d = ir_drv_hdl n"
  shows "\<exists>n1 n2 rx. tdl_ir_dev_send_begin True (Some n) freq (Nec_data dat) cnt = Some (Inr n1) \<and>
    send_status n1 = IR_STA_SENDING \<and> run_interrupts (tdd_ir_timer_send_cb hw (\<lambda>d. d)) (unat cnt * length frame + 1) n1 = Some n2 \<and>
    send_status n2 = IR_STA_SEND_FINISH \<and> send_sem (send_info n2) = map_option Suc (send_sem (send_info n)) \<and>
    (can_send hw d \<longrightarrow> hw_trace (ir_drv_hdl n1) = hw_trace d @ start_ops d) \<and>
    hw_trace (ir_drv_hdl n2) = hw_trace (ir_drv_hdl n1) @
      concat (replicate (unat cnt) (concat (map (pulse_ops d freq) (pulses frame)))) @ finish_ops d @ rx \<and>
    set rx \<subseteq> set (receiver_ops (hw_cfg d)) \<and> (shares_timer d \<or> rx = [])"
proof -
  have H: "ir_hardware hw" by unfold_locales (rule hw)+
  let ?d = "snd (tdd_ir_drv_status_notification hw (ir_drv_hdl n) IR_DRV_PRE_SEND_STATE)"
  let ?si = "\<lparr>send_data = Some frame, send_len = length frame, send_idx = 0, send_freq = freq,
      send_cnt = of_int (uint cnt - 1), send_sem = send_sem (send_info n)\<rparr>"
  let ?n1 = "n\<lparr>send_status := IR_STA_SENDING, send_info := ?si, ir_drv_hdl := ?d\<rparr>"
  let ?ps = "concat (replicate (unat cnt) (pulses frame))"
  have started: "tdl_ir_dev_send_begin True (Some n) freq (Nec_data dat) cnt = Some (Inr ?n1)"
    unfolding frame by (rule send_begin_nec [where f = "tdd_ir_drv_status_notification hw"])
      (use assms in \<open>simp_all add: tdd_ir_intfs_def prod_eq_iff tdd_ir_drv_status_notification_def\<close>)
  have fl: "0 < length frame" "length frame < 65536" "frame \<noteq> []" using rep by (auto simp: frame simp flip: length_greater_0_conv)
  have inv: "send_inv ?si" using fl by (simp add: send_inv_def)
  have acc: "\<forall>(a, t) \<in> set ?ps. tdd_accepts a t" using nec_pulses_accepted unfolding frame by fastforce
  have len: "length ?ps = unat cnt * length frame" by (simp add: length_concat sum_list_replicate)
  have ops: "pulse_ops ?d freq = pulse_ops d freq" "finish_ops ?d = finish_ops d" "shares_timer ?d = shares_timer d"
    "hw_cfg ?d = hw_cfg d"
    using same_wiring_pre_send [of d hw]
    by (simp_all add: d same_wiring_def pulse_ops_def fun_eq_iff finish_ops_def shares_timer_def)
  have cc: "concat (map g (concat (replicate k xs))) = concat (replicate k (concat (map g xs)))" for g :: "bool \<times> u32 \<Rightarrow> hw_op list" and k xs
    by (induction k) simp_all
  have "send_remaining ?si = ?ps" by (rule nec_remaining [OF cnt fl(3)])
  with ir_hardware.transmission [OF H, of ?n1 ?ps ?d freq] inv acc intfs
  obtain n2 rx where "run_interrupts (tdd_ir_timer_send_cb hw (\<lambda>d. d)) (length ?ps + 1) ?n1 = Some n2" "send_status n2 = IR_STA_SEND_FINISH"
    "send_sem (send_info n2) = map_option Suc (send_sem (send_info n))"
    "hw_trace (ir_drv_hdl n2) = hw_trace ?d @ concat (map (pulse_ops ?d freq) ?ps) @ finish_ops ?d @ rx"
    "set rx \<subseteq> set (receiver_ops (hw_cfg ?d))" "shares_timer ?d \<or> rx = []"
    by auto
  with started pre_send_trace [of hw d] show ?thesis
    by (intro exI [of _ ?n1] exI [of _ n2] exI [of _ rx]) (simp add: len ops cc d)
qed

section \<open>A concrete board\<close>

definition ex_drv :: IR_DRV_INFO_T where
  "ex_drv = \<lparr>driver_mode = IR_MODE_SEND_ONLY, driver_type = IR_DRV_DUAL_TIMER, user_close_recv_flag = False,
     send_pwm_id = 4, irq_edge_mode = TUYA_GPIO_IRQ_FALL, last_recv_time = 0xFFFFFFF0,
     hw_cfg = \<lparr>send_pin = 24, recv_pin = 20, send_timer = 1, recv_timer = 2, send_duty = 50\<rparr>,
     fiq_disable_cnt = 0, irq_disable_cnt = 0, irq_val = 0, reg_fiq = 0xFF, reg_int = 0x1234,
     hw_trace = []\<rparr>"

definition ex_ir_node :: "IR_DRV_INFO_T IR_DEV_NODE_T" where
  "ex_ir_node = (let n = new_node ''ir0'' ex_drv (tdd_ir_intfs (\<lambda>_ _. OPRT_OK)) in
     n\<lparr>is_open := True, send_info := (send_info n)\<lparr>send_sem := Some 0\<rparr>,
       ir_dev_cfg := (ir_dev_cfg n)\<lparr>ir_mode := IR_MODE_SEND_ONLY, prot_opt := IR_PROT_NEC\<rparr>\<rparr>)"

theorem edge_interrupt_witness:
  "hw_trace (tdd_ir_irq_recv_cb (\<lambda>_ _. OPRT_OK) (\<lambda>us d. d\<lparr>irq_val := us\<rparr>) 0x10 ex_drv) =
      [Gpio_irq_disable 20, Gpio_deinit 20, Gpio_irq_init 20 TUYA_GPIO_IRQ_RISE, Gpio_irq_enable 20] \<and>
    irq_val (tdd_ir_irq_recv_cb (\<lambda>_ _. OPRT_OK) (\<lambda>us d. d\<lparr>irq_val := us\<rparr>) 0x10 ex_drv) = 0x20"
  by (subst (1 2) edge_interrupt) (simp_all add: ex_drv_def)

theorem output_accepts_exactly_witness:
  "fst (tdd_ir_drv_output (\<lambda>_ _. OPRT_OK) ex_drv 38000 True 20) = OPRT_COM_ERROR"
proof -
  have "\<not> tdd_accepts True 20" by (simp add: tdd_accepts_def)
  then show ?thesis using output_accepts_exactly [of "\<lambda>_ _. OPRT_OK" ex_drv 38000 True 20] by simp
qed

theorem isr_nesting_witness:
  "(tdd_bk7231n_isr_enable ^^ 200) ((tdd_bk7231n_isr_disable ^^ 200) ex_drv) = ex_drv"
  by (rule isr_nesting) (simp_all add: ex_drv_def mask_inv_def)

theorem recv_phase_balanced_witness:
  "snd (tdd_ir_recv_finish_process (snd (tdd_ir_pre_recv_process ex_drv))) = ex_drv\<lparr>last_recv_time := 0\<rparr>"
  by (rule recv_phase_balanced) (simp_all add: ex_drv_def mask_inv_def bit_iff_odd_drop_bit)

theorem nec_transmission_witness:
  "\<exists>n1 n2. tdl_ir_dev_send_begin True (Some ex_ir_node) 38000 (Nec_data nec_data_example) 3 = Some (Inr n1) \<and>
    run_interrupts (tdd_ir_timer_send_cb (\<lambda>_ _. OPRT_OK) (\<lambda>d. d)) (3 * 76 + 1) n1 = Some n2 \<and> send_status n2 = IR_STA_SEND_FINISH \<and> send_sem (send_info n2) = Some 1 \<and>
    hw_trace (ir_drv_hdl n2) = [Pwm_init 4 5000 38000, Timer_init 1, Pwm_stop 4, Timer_start 1 300] @
      concat (replicate 3 (concat (map (pulse_ops ex_drv 38000) (pulses (nec_frame False nec_data_example))))) @
      [Timer_stop 1, Pwm_stop 4, Pwm_deinit 4, Timer_stop 1, Timer_deinit 1] \<and>
    pulse_ops ex_drv 38000 (True, 9000) = [Timer_stop 1, Pwm_info_set 4 5000 38000, Pwm_start 4, Timer_start 1 8945]"
proof -
  have n: "ir_mode (ir_dev_cfg ex_ir_node) = IR_MODE_SEND_ONLY" "send_status ex_ir_node = IR_STA_SEND_IDLE"
    "recv_status ex_ir_node = IR_STA_RECV_IDLE" "is_open ex_ir_node" "prot_opt (ir_dev_cfg ex_ir_node) = IR_PROT_NEC"
    "drv_intfs ex_ir_node = tdd_ir_intfs (\<lambda>_ _. OPRT_OK)" "send_sem (send_info ex_ir_node) = Some 0"
    "is_nec_msb (nec_cfg (ir_dev_cfg ex_ir_node)) = 0" "ex_drv = ir_drv_hdl ex_ir_node"
    by (simp_all add: ex_ir_node_def new_node_def)
  have r: "unat (nec_repeat_cnt nec_data_example) = 2" by (simp add: nec_data_example_def)
  have d: "can_send (\<lambda>_ _. OPRT_OK) ex_drv" "\<not> shares_timer ex_drv" "hw_trace ex_drv = []"
    "start_ops ex_drv = [Pwm_init 4 5000 38000, Timer_init 1, Pwm_stop 4, Timer_start 1 300]"
    "finish_ops ex_drv = [Timer_stop 1, Pwm_stop 4, Pwm_deinit 4, Timer_stop 1, Timer_deinit 1]"
    "pulse_ops ex_drv 38000 (True, 9000) = [Timer_stop 1, Pwm_info_set 4 5000 38000, Pwm_start 4, Timer_start 1 8945]"
    by (simp_all add: ex_drv_def can_send_def shares_timer_def start_ops_def finish_ops_def pulse_ops_def compensated_def)
  show ?thesis
    using nec_transmission [of ex_ir_node "\<lambda>_ _. OPRT_OK" nec_data_example 3 "nec_frame False nec_data_example" ex_drv 38000] n r d
    by auto
qed

end
