(* ===== verification/Pixel_Tdd.thy ===== *)
theory Pixel_Tdd
  imports Tuya_Prelude
begin

text \<open>
  The drivers of the LED strips, \<^verbatim>\<open>tdd_pixel_basic.c\<close> and the seven chips under
  \<^verbatim>\<open>tdd_leds_pixel/\<close>: colour words become a stream of SPI bytes, eight per colour byte (four in the
  optimised driver). The chips share their code up to constants, which are a record here; each chip
  has its own definitions. The SPI calls are recorded; what they return is a parameter.
\<close>

section \<open>Data\<close>

abbreviation (input) RGB_ORDER :: u8 where "RGB_ORDER \<equiv> 0"
abbreviation (input) RBG_ORDER :: u8 where "RBG_ORDER \<equiv> 1"
abbreviation (input) GRB_ORDER :: u8 where "GRB_ORDER \<equiv> 2"
abbreviation (input) GBR_ORDER :: u8 where "GBR_ORDER \<equiv> 3"
abbreviation (input) BRG_ORDER :: u8 where "BRG_ORDER \<equiv> 4"
abbreviation (input) BGR_ORDER :: u8 where "BGR_ORDER \<equiv> 5"

abbreviation (input) PIXEL_COLOR_TP_RGB :: u8 where "PIXEL_COLOR_TP_RGB \<equiv> 0x07"
abbreviation (input) PIXEL_COLOR_TP_RGBC :: u8 where "PIXEL_COLOR_TP_RGBC \<equiv> 0x0F"
abbreviation (input) PIXEL_COLOR_TP_RGBW :: u8 where "PIXEL_COLOR_TP_RGBW \<equiv> 0x17"
abbreviation (input) PIXEL_COLOR_TP_RGBCW :: u8 where "PIXEL_COLOR_TP_RGBCW \<equiv> 0x1F"

record DRV_PIXEL_TX_CTRL_T =
  tx_buffer :: "u8 list"
  tx_buffer_len :: nat

datatype spi_op = Spi_init nat | Spi_send "u8 list" | Spi_deinit

text \<open>A driver: the handle it gave out, its static line order and the SPI calls made so far.\<close>

record pixel_drv =
  drv_tx :: "DRV_PIXEL_TX_CTRL_T option"
  rgb_order_mode :: u8
  spi_trace :: "spi_op list"

text \<open>What the board answers: the SPI calls, and the allocation of the transmit buffer.\<close>

record spi_env =
  spi_init_ret :: OPERATE_RET
  spi_send_ret :: OPERATE_RET
  tx_malloc :: bool

definition spi_do :: "spi_op \<Rightarrow> pixel_drv \<Rightarrow> pixel_drv" where
  "spi_do op d = d\<lparr>spi_trace := spi_trace d @ [op]\<rparr>"

section \<open>Basic conversions\<close>

definition tdd_rgb_transform_spi_data :: "u8 \<Rightarrow> u8 \<Rightarrow> u8 \<Rightarrow> u8 list \<Rightarrow> nat \<Rightarrow> u8 list option" where
  "tdd_rgb_transform_spi_data color_data chip_ic_0 chip_ic_1 buf idx =
     map_option fst (foldM (\<lambda>i (buf, color_data). do {
         buf \<leftarrow> wr buf (idx + i) (if color_data AND 0x80 \<noteq> 0 then chip_ic_1 else chip_ic_0);
         Some (buf, push_bit 1 color_data) })
       [0..<8] (buf, color_data))"

text \<open>The source is the data buffer from \<open>off\<close> on; only three cells are ever written.\<close>

definition line_put :: "u16 list \<Rightarrow> nat \<Rightarrow> u16 list \<Rightarrow> nat \<Rightarrow> nat \<Rightarrow> nat \<Rightarrow> u16 list option" where
  "line_put data off spi a b c = do {
     x \<leftarrow> rd data (off + a); spi \<leftarrow> wr spi 0 x;
     y \<leftarrow> rd data (off + b); spi \<leftarrow> wr spi 1 y;
     z \<leftarrow> rd data (off + c); wr spi 2 z }"

definition tdd_rgb_line_seq_transform ::
  "u16 list option \<Rightarrow> nat \<Rightarrow> u16 list option \<Rightarrow> u8 \<Rightarrow> (OPERATE_RET \<times> u16 list option) option" where
  "tdd_rgb_line_seq_transform data_buf off spi_buf rgb_order =
     (case (data_buf, spi_buf) of
        (Some data, Some spi) \<Rightarrow> do {
          spi \<leftarrow>
            (if rgb_order = RGB_ORDER then line_put data off spi 0 1 2
             else if rgb_order = RBG_ORDER then line_put data off spi 0 2 1
             else if rgb_order = GRB_ORDER then line_put data off spi 1 0 2
             else if rgb_order = GBR_ORDER then line_put data off spi 1 2 0
             else if rgb_order = BRG_ORDER then line_put data off spi 2 0 1
             else if rgb_order = BGR_ORDER then line_put data off spi 2 1 0
             else Some spi);
          Some (OPRT_OK, Some spi) }
      | _ \<Rightarrow> Some (OPRT_INVALID_PARM, spi_buf))"

definition tdd_pixel_create_tx_ctrl :: "bool \<Rightarrow> nat \<Rightarrow> OPERATE_RET \<times> DRV_PIXEL_TX_CTRL_T option" where
  "tdd_pixel_create_tx_ctrl malloc_ok tx_buff_len =
     (if tx_buff_len = 0 then (OPRT_INVALID_PARM, None)
      else if \<not> malloc_ok then (OPRT_MALLOC_FAILED, None)
      else (OPRT_OK, Some \<lparr>tx_buffer = replicate tx_buff_len 0, tx_buffer_len = tx_buff_len\<rparr>))"

definition tdd_pixel_tx_ctrl_release :: "DRV_PIXEL_TX_CTRL_T option \<Rightarrow> OPERATE_RET" where
  "tdd_pixel_tx_ctrl_release tx_ctrl = (if tx_ctrl = None then OPRT_INVALID_PARM else OPRT_OK)"

section \<open>The code the chips share\<close>

text \<open>\<open>chip_enc\<close> writes one colour byte at a position of the transmit buffer, in \<open>chip_len\<close> bytes.\<close>

record pixel_chip =
  chip_speed :: nat
  chip_enc :: "u8 \<Rightarrow> u8 list \<Rightarrow> nat \<Rightarrow> u8 list option"
  chip_len :: nat
  chip_primary :: nat

definition chip_open :: "pixel_chip \<Rightarrow> spi_env \<Rightarrow> pixel_drv \<Rightarrow> nat \<Rightarrow> OPERATE_RET \<times> pixel_drv" where
  "chip_open ch env d pixel_num =
     (if pixel_num = 0 then (OPRT_INVALID_PARM, d)
      else let d = spi_do (Spi_init (chip_speed ch)) d in
        if spi_init_ret env \<noteq> OPRT_OK then (spi_init_ret env, d)
        else let (op_ret, tx) = tdd_pixel_create_tx_ctrl (tx_malloc env) (chip_len ch * chip_primary ch * pixel_num)
        in if op_ret \<noteq> OPRT_OK then (op_ret, d) else (OPRT_OK, d\<lparr>drv_tx := tx\<rparr>))"

definition chip_pixel ::
  "pixel_chip \<Rightarrow> u8 \<Rightarrow> u16 list \<Rightarrow> nat \<Rightarrow> u8 list \<times> nat \<Rightarrow> (u8 list \<times> nat) option" where
  "chip_pixel ch order data_buf j st = do {
     (_, swap_buf) \<leftarrow> tdd_rgb_line_seq_transform (Some data_buf) (j * chip_primary ch)
        (Some (replicate (chip_primary ch) 0)) order;
     swap_buf \<leftarrow> swap_buf;
     foldM (\<lambda>i (buf, idx). do {
         v \<leftarrow> rd swap_buf i;
         buf \<leftarrow> chip_enc ch (ucast v) buf idx;
         Some (buf, idx + chip_len ch) })
       [0..<chip_primary ch] st }"

definition chip_send_data ::
  "pixel_chip \<Rightarrow> spi_env \<Rightarrow> pixel_drv \<Rightarrow> u16 list option \<Rightarrow> nat \<Rightarrow> (OPERATE_RET \<times> pixel_drv) option" where
  "chip_send_data ch env d data_buf buf_len =
     (case (drv_tx d, data_buf) of
        (Some tx, Some data) \<Rightarrow>
          if buf_len = 0 then Some (OPRT_INVALID_PARM, d)
          else do {
            (buf, _) \<leftarrow> foldM (chip_pixel ch (rgb_order_mode d) data) [0..<buf_len div chip_primary ch] (tx_buffer tx, 0);
            let d = d\<lparr>drv_tx := Some (tx\<lparr>tx_buffer := buf\<rparr>)\<rparr>;
            frame \<leftarrow> memcpy_out buf 0 (tx_buffer_len tx);
            Some (spi_send_ret env, spi_do (Spi_send frame) d) }
      | _ \<Rightarrow> Some (OPRT_INVALID_PARM, d))"

definition chip_close :: "pixel_drv \<Rightarrow> OPERATE_RET \<times> pixel_drv" where
  "chip_close d =
     (if drv_tx d = None then (OPRT_INVALID_PARM, d)
      else (OPRT_OK, (spi_do Spi_deinit d)\<lparr>drv_tx := None\<rparr>))"

section \<open>The chips\<close>

definition ws2812_chip :: pixel_chip where
  "ws2812_chip = \<lparr>chip_speed = 6600000, chip_enc = (\<lambda>c. tdd_rgb_transform_spi_data c 0xE0 0xFC),
     chip_len = 8, chip_primary = 3\<rparr>"

definition sm16704pk_chip :: pixel_chip where
  "sm16704pk_chip = \<lparr>chip_speed = 8000000, chip_enc = (\<lambda>c. tdd_rgb_transform_spi_data c 0xC0 0xFE),
     chip_len = 8, chip_primary = 4\<rparr>"

definition sk6812_chip :: pixel_chip where
  "sk6812_chip = \<lparr>chip_speed = 8000000, chip_enc = (\<lambda>c. tdd_rgb_transform_spi_data c 0xC0 0xF0),
     chip_len = 8, chip_primary = 3\<rparr>"

definition sm16703p_chip :: pixel_chip where
  "sm16703p_chip = \<lparr>chip_speed = 6500000, chip_enc = (\<lambda>c. tdd_rgb_transform_spi_data c 0xC0 0xFE),
     chip_len = 8, chip_primary = 3\<rparr>"

definition yx1903b_chip :: pixel_chip where
  "yx1903b_chip = \<lparr>chip_speed = 6500000, chip_enc = (\<lambda>c. tdd_rgb_transform_spi_data c 0xC0 0xFE),
     chip_len = 8, chip_primary = 4\<rparr>"

definition ws2814_chip :: pixel_chip where
  "ws2814_chip = \<lparr>chip_speed = 8000000, chip_enc = (\<lambda>c. tdd_rgb_transform_spi_data c 0xC0 0xFE),
     chip_len = 8, chip_primary = 4\<rparr>"

text \<open>
  The optimised driver: two bits per SPI byte. The statement that should move the next two bits up
  is a comparison whose value is not used, so the colour byte stays as it is.
\<close>

definition tdd_2812_4bit_rgb_transform_spi_data :: "u8 \<Rightarrow> u8 list \<Rightarrow> nat \<Rightarrow> u8 list option" where
  "tdd_2812_4bit_rgb_transform_spi_data color_data buf idx =
     map_option fst (foldM (\<lambda>i (buf, color_data). do {
         buf \<leftarrow> (if color_data AND 0xc0 = 0 then wr buf (idx + i) 0x88
                  else if color_data AND 0xc0 = 0x40 then wr buf (idx + i) 0x8e
                  else if color_data AND 0xc0 = 0x80 then wr buf (idx + i) 0xe8
                  else if color_data AND 0xc0 = 0xc0 then wr buf (idx + i) 0xee
                  else Some buf);
         let unused = (color_data \<le> 2);
         Some (buf, color_data) })
       [0..<4] (buf, color_data))"

definition ws2812_opt_chip :: pixel_chip where
  "ws2812_opt_chip = \<lparr>chip_speed = 2887500, chip_enc = tdd_2812_4bit_rgb_transform_spi_data,
     chip_len = 4, chip_primary = 3\<rparr>"

definition tdd_2812_driver_open :: "spi_env \<Rightarrow> pixel_drv \<Rightarrow> nat \<Rightarrow> OPERATE_RET \<times> pixel_drv" where
  "tdd_2812_driver_open = chip_open ws2812_chip"
definition tdd_ws2812_driver_send_data ::
  "spi_env \<Rightarrow> pixel_drv \<Rightarrow> u16 list option \<Rightarrow> nat \<Rightarrow> (OPERATE_RET \<times> pixel_drv) option" where
  "tdd_ws2812_driver_send_data = chip_send_data ws2812_chip"
definition tdd_ws2812_driver_close :: "pixel_drv \<Rightarrow> OPERATE_RET \<times> pixel_drv" where
  "tdd_ws2812_driver_close = chip_close"

definition tdd_sm16704pk_driver_open :: "spi_env \<Rightarrow> pixel_drv \<Rightarrow> nat \<Rightarrow> OPERATE_RET \<times> pixel_drv" where
  "tdd_sm16704pk_driver_open = chip_open sm16704pk_chip"
definition tdd_sm16704pk_driver_send_data ::
  "spi_env \<Rightarrow> pixel_drv \<Rightarrow> u16 list option \<Rightarrow> nat \<Rightarrow> (OPERATE_RET \<times> pixel_drv) option" where
  "tdd_sm16704pk_driver_send_data = chip_send_data sm16704pk_chip"
definition tdd_sm16704pk_driver_close :: "pixel_drv \<Rightarrow> OPERATE_RET \<times> pixel_drv" where
  "tdd_sm16704pk_driver_close = chip_close"

definition tdd_sk6812_driver_open :: "spi_env \<Rightarrow> pixel_drv \<Rightarrow> nat \<Rightarrow> OPERATE_RET \<times> pixel_drv" where
  "tdd_sk6812_driver_open = chip_open sk6812_chip"
definition tdd_sk6812_driver_send_data ::
  "spi_env \<Rightarrow> pixel_drv \<Rightarrow> u16 list option \<Rightarrow> nat \<Rightarrow> (OPERATE_RET \<times> pixel_drv) option" where
  "tdd_sk6812_driver_send_data = chip_send_data sk6812_chip"
definition tdd_sk6812_driver_close :: "pixel_drv \<Rightarrow> OPERATE_RET \<times> pixel_drv" where
  "tdd_sk6812_driver_close = chip_close"

definition tdd_sm16703p_driver_open :: "spi_env \<Rightarrow> pixel_drv \<Rightarrow> nat \<Rightarrow> OPERATE_RET \<times> pixel_drv" where
  "tdd_sm16703p_driver_open = chip_open sm16703p_chip"
definition tdd_sm16703p_driver_send_data ::
  "spi_env \<Rightarrow> pixel_drv \<Rightarrow> u16 list option \<Rightarrow> nat \<Rightarrow> (OPERATE_RET \<times> pixel_drv) option" where
  "tdd_sm16703p_driver_send_data = chip_send_data sm16703p_chip"
definition tdd_sm16703p_driver_close :: "pixel_drv \<Rightarrow> OPERATE_RET \<times> pixel_drv" where
  "tdd_sm16703p_driver_close = chip_close"

definition tdd_yx1903b_driver_open :: "spi_env \<Rightarrow> pixel_drv \<Rightarrow> nat \<Rightarrow> OPERATE_RET \<times> pixel_drv" where
  "tdd_yx1903b_driver_open = chip_open yx1903b_chip"
definition tdd_yx1903b_driver_send_data ::
  "spi_env \<Rightarrow> pixel_drv \<Rightarrow> u16 list option \<Rightarrow> nat \<Rightarrow> (OPERATE_RET \<times> pixel_drv) option" where
  "tdd_yx1903b_driver_send_data = chip_send_data yx1903b_chip"
definition tdd_yx1903b_driver_close :: "pixel_drv \<Rightarrow> OPERATE_RET \<times> pixel_drv" where
  "tdd_yx1903b_driver_close = chip_close"

definition tdd_ws2814_driver_open :: "spi_env \<Rightarrow> pixel_drv \<Rightarrow> nat \<Rightarrow> OPERATE_RET \<times> pixel_drv" where
  "tdd_ws2814_driver_open = chip_open ws2814_chip"
definition tdd_ws2814_driver_send_data ::
  "spi_env \<Rightarrow> pixel_drv \<Rightarrow> u16 list option \<Rightarrow> nat \<Rightarrow> (OPERATE_RET \<times> pixel_drv) option" where
  "tdd_ws2814_driver_send_data = chip_send_data ws2814_chip"
definition tdd_ws2814_driver_close :: "pixel_drv \<Rightarrow> OPERATE_RET \<times> pixel_drv" where
  "tdd_ws2814_driver_close = chip_close"

definition tdd_2812_opt_driver_open :: "spi_env \<Rightarrow> pixel_drv \<Rightarrow> nat \<Rightarrow> OPERATE_RET \<times> pixel_drv" where
  "tdd_2812_opt_driver_open = chip_open ws2812_opt_chip"
definition tdd_ws2812_opt_driver_send_data ::
  "spi_env \<Rightarrow> pixel_drv \<Rightarrow> u16 list option \<Rightarrow> nat \<Rightarrow> (OPERATE_RET \<times> pixel_drv) option" where
  "tdd_ws2812_opt_driver_send_data = chip_send_data ws2812_opt_chip"
definition tdd_ws2812_opt_driver_close :: "pixel_drv \<Rightarrow> OPERATE_RET \<times> pixel_drv" where
  "tdd_ws2812_opt_driver_close = chip_close"

section \<open>The line code\<close>

definition line_code :: "u8 \<Rightarrow> u8 \<Rightarrow> u8 \<Rightarrow> u8 list" where
  "line_code d0 d1 c = map (\<lambda>i. if bit c (7 - i) then d1 else d0) [0..<8]"

lemma length_line_code [simp]: "length (line_code d0 d1 c) = 8"
  by (simp add: line_code_def)

lemma and_0x80: "(w :: u8) AND 0x80 \<noteq> 0 \<longleftrightarrow> bit w 7"
  using and_exp_eq [of w 7] by simp

lemma transform_loop:
  assumes "idx + 8 \<le> length buf" and "n \<le> 8"
  shows "foldM (\<lambda>i (buf, c). do {
         buf \<leftarrow> wr buf (idx + i) (if c AND 0x80 \<noteq> 0 then d1 else d0);
         Some (buf, push_bit 1 c) }) [0..<n] (buf, color)
    = Some (blit buf idx (take n (line_code d0 d1 color)), push_bit n color)"
  using assms(2)
proof (induction n)
  case 0
  then show ?case by simp
next
  case (Suc n)
  have "bit (push_bit n color) 7 = bit color (7 - n)"
    using Suc.prems by (auto simp: bit_simps)
  then have v: "(if push_bit n color AND 0x80 \<noteq> 0 then d1 else d0) = line_code d0 d1 color ! n"
    using Suc.prems by (simp add: and_0x80 line_code_def)
  have "blit (blit buf idx (take n (line_code d0 d1 color))) (idx + n) [line_code d0 d1 color ! n]
      = blit buf idx (take (Suc n) (line_code d0 d1 color))"
    using assms(1) Suc.prems by (subst blit_blit_adjacent) (auto simp: take_Suc_conv_app_nth)
  moreover have "push_bit n color * 2 = push_bit n (color * 2)" by (simp add: push_bit_eq_mult)
  ultimately show ?case using Suc assms(1) v by (simp add: foldM_snoc mem_simps blit_single)
qed

lemma tdd_rgb_transform_spi_data_eq:
  assumes "idx + 8 \<le> length buf"
  shows "tdd_rgb_transform_spi_data c d0 d1 buf idx = Some (blit buf idx (line_code d0 d1 c))"
  using transform_loop [OF assms order_refl, of d1 d0 c] by (simp add: tdd_rgb_transform_spi_data_def)

section \<open>What a frame on the wire is\<close>

text \<open>The colours of one pixel in line order; channels beyond the third are sent as zero.\<close>

definition line_perm :: "u8 \<Rightarrow> (nat \<times> nat \<times> nat) option" where
  "line_perm order =
     (if order = RGB_ORDER then Some (0, 1, 2) else if order = RBG_ORDER then Some (0, 2, 1)
      else if order = GRB_ORDER then Some (1, 0, 2) else if order = GBR_ORDER then Some (1, 2, 0)
      else if order = BRG_ORDER then Some (2, 0, 1) else if order = BGR_ORDER then Some (2, 1, 0) else None)"

definition wire :: "u8 \<Rightarrow> u16 list \<Rightarrow> u16 list" where
  "wire order px =
     (case line_perm order of
        Some (a, b, c) \<Rightarrow> [px ! a, px ! b, px ! c] @ replicate (length px - 3) 0
      | None \<Rightarrow> replicate (length px) 0)"

definition pixel_at :: "nat \<Rightarrow> u16 list \<Rightarrow> nat \<Rightarrow> u16 list" where
  "pixel_at prim data j = take prim (drop (j * prim) data)"

text \<open>The bytes of a whole strip: \<open>code\<close> of each colour byte, pixel after pixel.\<close>

definition strip_frame :: "(u8 \<Rightarrow> u8 list) \<Rightarrow> nat \<Rightarrow> u8 \<Rightarrow> u16 list \<Rightarrow> nat \<Rightarrow> u8 list" where
  "strip_frame code prim order data n =
     concat (map (\<lambda>j. concat (map (\<lambda>v. code (ucast v)) (wire order (pixel_at prim data j)))) [0..<n])"

lemma length_wire [simp]: "3 \<le> length px \<Longrightarrow> length (wire order px) = length px"
  by (auto simp: wire_def split: option.split)

lemma length_pixel_at: "(j + 1) * prim \<le> length data \<Longrightarrow> length (pixel_at prim data j) = prim"
  by (simp add: pixel_at_def)

lemma line_put_eq:
  assumes "j * prim + prim \<le> length data" and "3 \<le> prim" and "a < 3" "b < 3" "c < 3"
  shows "line_put data (j * prim) (replicate prim 0) a b c =
    Some ([pixel_at prim data j ! a, pixel_at prim data j ! b, pixel_at prim data j ! c] @ replicate (prim - 3) 0)"
proof -
  have r: "replicate prim (0 :: u16) = 0 # 0 # 0 # replicate (prim - 3) 0"
    using assms(2) by (intro nth_equalityI) (auto simp: nth_Cons' numeral_3_eq_3)
  have "rd data (j * prim + i) = Some (pixel_at prim data j ! i)" if "i < 3" for i
    using assms(1,2) that by (simp add: mem_simps pixel_at_def)
  with assms(3-5) show ?thesis unfolding r by (simp add: line_put_def wr_def numeral_2_eq_2)
qed

lemma line_seq_eq:
  assumes "j * prim + prim \<le> length data" and "3 \<le> prim"
  shows "tdd_rgb_line_seq_transform (Some data) (j * prim) (Some (replicate prim 0)) order =
    Some (OPRT_OK, Some (wire order (pixel_at prim data j)))"
proof -
  have "length (pixel_at prim data j) = prim" using assms(1) by (simp add: pixel_at_def)
  then show ?thesis
    by (simp add: tdd_rgb_line_seq_transform_def wire_def line_perm_def line_put_eq [OF assms])
qed

section \<open>Frames of any chip\<close>

text \<open>
  A chip whose encoder writes \<open>code\<close> of each byte. What it sends for a strip that fits its transmit
  buffer is then a function of the colours alone.
\<close>

locale chip_code =
  fixes ch :: pixel_chip and code :: "u8 \<Rightarrow> u8 list"
  assumes enc: "idx + chip_len ch \<le> length buf \<Longrightarrow> chip_enc ch c buf idx = Some (blit buf idx (code c))"
    and code_len: "length (code c) = chip_len ch"
    and prim: "3 \<le> chip_primary ch"
begin

definition pixel_code :: "u8 \<Rightarrow> u16 list \<Rightarrow> u8 list" where
  "pixel_code order px = concat (map (\<lambda>v. code (ucast v)) (wire order px))"

definition frame_code :: "u8 \<Rightarrow> u16 list \<Rightarrow> nat \<Rightarrow> u8 list" where
  "frame_code order data n = concat (map (\<lambda>j. pixel_code order (pixel_at (chip_primary ch) data j)) [0..<n])"

lemma frame_code_strip: "frame_code order data n = strip_frame code (chip_primary ch) order data n"
  by (simp add: frame_code_def pixel_code_def strip_frame_def)

lemma length_pixel_code: "3 \<le> length px \<Longrightarrow> length (pixel_code order px) = chip_len ch * length px"
  by (simp add: pixel_code_def length_concat comp_def code_len sum_list_triv)

lemma pixel:
  assumes "j * chip_primary ch + chip_primary ch \<le> length data"
    and "idx + chip_len ch * chip_primary ch \<le> length buf"
  shows "chip_pixel ch order data j (buf, idx) =
    Some (blit buf idx (pixel_code order (pixel_at (chip_primary ch) data j)), idx + chip_len ch * chip_primary ch)"
proof -
  let ?px = "pixel_at (chip_primary ch) data j" and ?w = "wire order (pixel_at (chip_primary ch) data j)"
  have l: "length ?px = chip_primary ch" using assms(1) by (simp add: pixel_at_def)
  have "foldM (\<lambda>i (buf, idx). do { v \<leftarrow> rd ?w i; buf \<leftarrow> chip_enc ch (ucast v) buf idx; Some (buf, idx + chip_len ch) })
      [0..<chip_primary ch] (buf, idx) =
    Some (blit buf idx (concat (map (\<lambda>i. code (ucast (?w ! i))) [0..<chip_primary ch])), idx + chip_len ch * chip_primary ch)"
  proof (rule foldM_stream [where L = "length buf"])
    fix k and d :: "u8 list" assume k: "k < chip_primary ch" and d: "length d = length buf"
    have "chip_len ch * (k + 1) \<le> chip_len ch * chip_primary ch" using k by (intro mult_le_mono2) simp
    then have "idx + chip_len ch * k + chip_len ch \<le> length d" using assms(2) d by simp
    then show "(case (d, idx + chip_len ch * k) of (buf, idx) \<Rightarrow>
        do { v \<leftarrow> rd ?w k; buf \<leftarrow> chip_enc ch (ucast v) buf idx; Some (buf, idx + chip_len ch) }) =
      Some (blit d (idx + chip_len ch * k) (code (ucast (?w ! k))), idx + chip_len ch * k + chip_len ch)"
      using k l prim by (simp add: mem_simps enc)
  qed (use assms code_len in auto)
  moreover have "map (\<lambda>i. code (ucast (?w ! i))) [0..<chip_primary ch] = map (\<lambda>v. code (ucast v)) ?w"
    using l prim by (intro nth_equalityI) auto
  ultimately show ?thesis using line_seq_eq [OF assms(1) prim, of order]
    by (simp add: chip_pixel_def pixel_code_def)
qed

lemma send:
  assumes tx: "drv_tx d = Some tx" "length (tx_buffer tx) = tx_buffer_len tx"
    and n: "n = length data div chip_primary ch" "0 < n"
    and room: "tx_buffer_len tx = chip_len ch * chip_primary ch * n"
  shows "chip_send_data ch env d (Some data) (length data) =
    Some (spi_send_ret env, spi_do (Spi_send (frame_code (rgb_order_mode d) data n))
      (d\<lparr>drv_tx := Some (tx\<lparr>tx_buffer := frame_code (rgb_order_mode d) data n\<rparr>)\<rparr>))"
proof -
  let ?o = "rgb_order_mode d"
  let ?g = "\<lambda>j. pixel_code ?o (pixel_at (chip_primary ch) data j)"
  have le: "j * chip_primary ch + chip_primary ch \<le> length data" if "j < n" for j
  proof -
    have "(j + 1) * chip_primary ch \<le> n * chip_primary ch" using that by (intro mult_le_mono1) simp
    also have "\<dots> \<le> length data" by (simp add: n(1))
    finally show ?thesis by simp
  qed
  have lg: "length (?g j) = chip_len ch * chip_primary ch" if "j < n" for j
    using le [OF that] length_pixel_at [of j "chip_primary ch" data] prim
    by (simp add: length_pixel_code add.commute)
  have "foldM (chip_pixel ch ?o data) [0..<n] (tx_buffer tx, 0) =
    Some (blit (tx_buffer tx) 0 (concat (map ?g [0..<n])), 0 + chip_len ch * chip_primary ch * n)"
  proof (rule foldM_stream [where L = "length (tx_buffer tx)"])
    fix k and b :: "u8 list" assume k: "k < n" and b: "length b = length (tx_buffer tx)"
    have "chip_len ch * chip_primary ch * (k + 1) \<le> chip_len ch * chip_primary ch * n"
      using k by (intro mult_le_mono2) simp
    with pixel [OF le [OF k], of "0 + chip_len ch * chip_primary ch * k" b ?o] b tx(2) room
    show "chip_pixel ch ?o data k (b, 0 + chip_len ch * chip_primary ch * k) =
      Some (blit b (0 + chip_len ch * chip_primary ch * k) (?g k), 0 + chip_len ch * chip_primary ch * k + chip_len ch * chip_primary ch)"
      by simp
  qed (use lg room tx(2) in auto)
  moreover have lf: "length (concat (map ?g [0..<n])) = chip_len ch * chip_primary ch * n"
    using lg by (induction n) auto
  moreover have "blit (tx_buffer tx) 0 (concat (map ?g [0..<n])) = concat (map ?g [0..<n])"
    using lf room tx(2) by (simp add: blit_def)
  moreover have "0 < length data" using n by (cases data) auto
  ultimately show ?thesis using tx n room
    by (simp add: chip_send_data_def frame_code_def memcpy_out_def)
qed

end

text \<open>
  A chip whose byte codes differ: the frame can be read back, so what was sent determines the low
  bytes of the colours in line order.
\<close>

locale chip_code_inj = chip_code +
  assumes code_inj: "inj code"
begin

lemma codes_inj:
  assumes "concat (map code xs) = concat (map code ys)" and "length xs = length ys"
  shows "xs = ys"
  using assms
proof (induction xs arbitrary: ys)
  case Nil
  then show ?case by simp
next
  case (Cons x xs)
  then obtain y ys' where ys: "ys = y # ys'" by (cases ys) auto
  with Cons.prems have "code x = code y" "concat (map code xs) = concat (map code ys')"
    by (auto simp: append_eq_append_conv code_len)
  with Cons ys code_inj show ?case by (auto dest: injD)
qed

lemma frame_inj:
  assumes "frame_code order data n = frame_code order data' n"
    and "n * chip_primary ch \<le> length data" and "n * chip_primary ch \<le> length data'" and "j < n"
  shows "map ucast (wire order (pixel_at (chip_primary ch) data j)) =
    (map ucast (wire order (pixel_at (chip_primary ch) data' j)) :: u8 list)"
proof -
  let ?w = "\<lambda>d j. map ucast (wire order (pixel_at (chip_primary ch) d j)) :: u8 list"
  have pc: "pixel_code order (pixel_at (chip_primary ch) d j) = concat (map code (?w d j))" for d j
    by (simp add: pixel_code_def comp_def)
  have lw: "length (?w d j) = chip_primary ch" if "j < n" "n * chip_primary ch \<le> length d" for d j
  proof -
    have "(j + 1) * chip_primary ch \<le> n * chip_primary ch" using that by (intro mult_le_mono1) simp
    with that length_pixel_at [of j "chip_primary ch" d] prim show ?thesis by simp
  qed
  have fc: "frame_code order d n = concat (map code (concat (map (?w d) [0..<n])))" for d
    unfolding frame_code_def pc by (rule concat_map_nested)
  have eq: "concat (map (?w data) [0..<n]) = concat (map (?w data') [0..<n])"
  proof (rule codes_inj)
    show "length (concat (map (?w data) [0..<n])) = length (concat (map (?w data') [0..<n]))"
      unfolding length_concat map_map comp_def
      by (rule arg_cong [where f = sum_list], rule map_cong) (use lw assms(2,3) in auto)
  qed (use assms(1) fc in simp)
  have "\<forall>(x, y) \<in> set (zip (map (?w data) [0..<n]) (map (?w data') [0..<n])). length x = length y"
    unfolding zip_map_map zip_same_conv_map
    by (clarsimp simp del: length_map) (use lw assms(2,3) in simp)
  from concat_injective [OF eq _ this] have "map (?w data) [0..<n] = map (?w data') [0..<n]" by simp
  with assms(4) show ?thesis by (metis (no_types, lifting) atLeastLessThan_iff le0 map_eq_conv set_upt)
qed

end

lemma line_code_inj: "d0 \<noteq> d1 \<Longrightarrow> inj (line_code d0 d1)"
proof (rule injI)
  fix x y assume d: "d0 \<noteq> d1" and eq: "line_code d0 d1 x = line_code d0 d1 y"
  show "x = y"
  proof (rule bit_word_eqI)
    fix n assume "n < LENGTH(8)"
    then have "7 - n < 8" "7 - (7 - n) = n" by auto
    with arg_cong [OF eq, of "\<lambda>l. l ! (7 - n)"] d show "bit x n = bit y n"
      by (auto simp: line_code_def split: if_splits)
  qed
qed

interpretation ws2812: chip_code_inj ws2812_chip "line_code 0xE0 0xFC"
  by unfold_locales (simp_all add: ws2812_chip_def tdd_rgb_transform_spi_data_eq line_code_inj)

interpretation sm16704pk: chip_code_inj sm16704pk_chip "line_code 0xC0 0xFE"
  by unfold_locales (simp_all add: sm16704pk_chip_def tdd_rgb_transform_spi_data_eq line_code_inj)

interpretation sk6812: chip_code_inj sk6812_chip "line_code 0xC0 0xF0"
  by unfold_locales (simp_all add: sk6812_chip_def tdd_rgb_transform_spi_data_eq line_code_inj)

interpretation sm16703p: chip_code_inj sm16703p_chip "line_code 0xC0 0xFE"
  by unfold_locales (simp_all add: sm16703p_chip_def tdd_rgb_transform_spi_data_eq line_code_inj)

interpretation yx1903b: chip_code_inj yx1903b_chip "line_code 0xC0 0xFE"
  by unfold_locales (simp_all add: yx1903b_chip_def tdd_rgb_transform_spi_data_eq line_code_inj)

interpretation ws2814: chip_code_inj ws2814_chip "line_code 0xC0 0xFE"
  by unfold_locales (simp_all add: ws2814_chip_def tdd_rgb_transform_spi_data_eq line_code_inj)

section \<open>The optimised driver\<close>

definition opt_pair :: "u8 \<Rightarrow> u8" where
  "opt_pair c = (if bit c 7 then (if bit c 6 then 0xee else 0xe8) else (if bit c 6 then 0x8e else 0x88))"

lemma and_two_bits:
  fixes c :: "'a::len word"
  shows "c AND (push_bit i 1 OR push_bit j 1) = (if bit c i then push_bit i 1 else 0) OR (if bit c j then push_bit j 1 else 0)"
  by (rule bit_word_eqI) (auto simp: bit_simps)

lemma and_0xc0:
  "(c :: u8) AND 0xc0 = (if bit c 7 then 0x80 else 0) OR (if bit c 6 then 0x40 else 0)"
  using and_two_bits [of c 7 6] by simp

lemma opt_write:
  "(if c AND 0xc0 = 0 then wr buf k 0x88
    else if c AND 0xc0 = 0x40 then wr buf k 0x8e
    else if c AND 0xc0 = 0x80 then wr buf k 0xe8
    else if c AND 0xc0 = 0xc0 then wr buf k 0xee
    else Some buf) = wr buf k (opt_pair c)"
  by (cases "bit c 7"; cases "bit c 6") (simp_all add: and_0xc0 opt_pair_def)

lemma opt_loop:
  assumes "idx + 4 \<le> length buf" and "n \<le> 4"
  shows "foldM (\<lambda>i (buf, color_data). do {
         buf \<leftarrow> (if color_data AND 0xc0 = 0 then wr buf (idx + i) 0x88
                  else if color_data AND 0xc0 = 0x40 then wr buf (idx + i) 0x8e
                  else if color_data AND 0xc0 = 0x80 then wr buf (idx + i) 0xe8
                  else if color_data AND 0xc0 = 0xc0 then wr buf (idx + i) 0xee
                  else Some buf);
         let unused = (color_data \<le> 2);
         Some (buf, color_data) }) [0..<n] (buf, c)
    = Some (blit buf idx (replicate n (opt_pair c)), c)"
  using assms(2)
proof (induction n)
  case 0
  then show ?case by simp
next
  case (Suc n)
  have "blit (blit buf idx (replicate n (opt_pair c))) (idx + n) [opt_pair c] = blit buf idx (replicate (Suc n) (opt_pair c))"
    using assms(1) Suc.prems by (subst blit_blit_adjacent) (auto simp: replicate_append_same)
  with Suc assms(1) show ?case
    by (simp add: foldM_snoc mem_simps blit_single Let_def opt_write)
qed

interpretation ws2812_opt: chip_code ws2812_opt_chip "\<lambda>c. replicate 4 (opt_pair c)"
proof unfold_locales
  fix idx c and buf :: "u8 list" assume "idx + chip_len ws2812_opt_chip \<le> length buf"
  then show "chip_enc ws2812_opt_chip c buf idx = Some (blit buf idx (replicate 4 (opt_pair c)))"
    using opt_loop [of idx buf 4 c]
    by (simp add: ws2812_opt_chip_def tdd_2812_4bit_rgb_transform_spi_data_def)
qed (simp_all add: ws2812_opt_chip_def)

section \<open>Frames\<close>

text \<open>The driver of the WS2812 sends exactly one frame: eight bytes for each colour byte, most
  significant bit first, in the configured line order, pixel after pixel, whatever the transmit buffer
  held before.\<close>

theorem ws2812_send_frame:
  assumes "drv_tx d = Some tx" and "length (tx_buffer tx) = tx_buffer_len tx"
    and "n = length data div 3" and "0 < n" and "tx_buffer_len tx = 24 * n"
  shows "\<exists>d'. tdd_ws2812_driver_send_data env d (Some data) (length data) = Some (spi_send_ret env, d') \<and>
    spi_trace d' = spi_trace d @ [Spi_send (strip_frame (line_code 0xE0 0xFC) 3 (rgb_order_mode d) data n)] \<and>
    length (strip_frame (line_code 0xE0 0xFC) 3 (rgb_order_mode d) data n) = 24 * n"
proof -
  have p: "chip_primary ws2812_chip = 3" "chip_len ws2812_chip = 8" by (simp_all add: ws2812_chip_def)
  have "length (strip_frame (line_code 0xE0 0xFC) 3 (rgb_order_mode d) data n) = 24 * n"
  proof -
    have "length (pixel_at 3 data j) = 3" if "j < n" for j
      using that assms(3) by (intro length_pixel_at) presburger
    then have "map (\<lambda>j. length (concat (map (\<lambda>v. line_code 0xE0 0xFC (ucast v)) (wire (rgb_order_mode d) (pixel_at 3 data j))))) [0..<n]
        = map (\<lambda>_. 24) [0..<n]"
      by (intro map_cong) (auto simp: length_concat comp_def sum_list_triv)
    from arg_cong [OF this, of sum_list] show ?thesis
      unfolding strip_frame_def length_concat map_map comp_def by (simp add: sum_list_triv)
  qed
  with ws2812.send [OF assms(1,2), unfolded p, OF assms(3,4)] assms(5) show ?thesis
    by (simp add: tdd_ws2812_driver_send_data_def spi_do_def ws2812.frame_code_strip p)
qed

text \<open>What the WS2812 driver sends can be read back: if it does the same for two buffers of \<open>n\<close>
  pixels, then these have the same colour bytes in line order at every pixel.\<close>

theorem ws2812_frame_readable:
  assumes tx: "drv_tx d = Some tx" "length (tx_buffer tx) = tx_buffer_len tx" "tx_buffer_len tx = 24 * n"
    and len: "length data = 3 * n" "length data' = 3 * n" and j: "j < n"
    and same: "tdd_ws2812_driver_send_data env d (Some data) (length data) =
      tdd_ws2812_driver_send_data env d (Some data') (length data')"
  shows "map ucast (wire (rgb_order_mode d) (pixel_at 3 data j)) =
    (map ucast (wire (rgb_order_mode d) (pixel_at 3 data' j)) :: u8 list)"
proof -
  have p: "chip_primary ws2812_chip = 3" "chip_len ws2812_chip = 8" by (simp_all add: ws2812_chip_def)
  have send: "chip_send_data ws2812_chip env d (Some e) (length e) =
      Some (spi_send_ret env, spi_do (Spi_send (ws2812.frame_code (rgb_order_mode d) e n))
        (d\<lparr>drv_tx := Some (tx\<lparr>tx_buffer := ws2812.frame_code (rgb_order_mode d) e n\<rparr>)\<rparr>))"
    if "length e = 3 * n" for e
    by (rule ws2812.send [OF tx(1,2)]) (use that j tx(3) in \<open>simp_all add: p\<close>)
  have "ws2812.frame_code (rgb_order_mode d) data n = ws2812.frame_code (rgb_order_mode d) data' n"
    using arg_cong [OF same, of "\<lambda>r. map_option (\<lambda>(_, d). spi_trace d) r"] send [OF len(1)] send [OF len(2)]
    by (simp add: tdd_ws2812_driver_send_data_def spi_do_def)
  from ws2812.frame_inj [OF this] show ?thesis using len j unfolding p by simp
qed

text \<open>The optimised driver sends for every colour byte what it sends for its two upper bits: the six
  lower bits of a colour have no effect.\<close>

theorem ws2812_opt_drops_low_bits:
  "tdd_2812_4bit_rgb_transform_spi_data c buf idx = tdd_2812_4bit_rgb_transform_spi_data (c AND 0xC0) buf idx"
proof -
  have "foldM (\<lambda>i (buf, color_data). do {
         buf \<leftarrow> (if color_data AND 0xc0 = 0 then wr buf (idx + i) 0x88
                  else if color_data AND 0xc0 = 0x40 then wr buf (idx + i) 0x8e
                  else if color_data AND 0xc0 = 0x80 then wr buf (idx + i) 0xe8
                  else if color_data AND 0xc0 = 0xc0 then wr buf (idx + i) 0xee
                  else Some buf);
         let unused = (color_data \<le> 2);
         Some (buf, color_data) }) xs (b, c) = map_option (\<lambda>b. (b, c)) (foldM (\<lambda>i b. wr b (idx + i) (opt_pair c)) xs b)" for xs b and c :: u8
  proof (induction xs arbitrary: b)
    case (Cons x xs)
    then show ?case by (cases "wr b (idx + x) (opt_pair c)") (simp_all add: opt_write)
  qed simp
  moreover have "opt_pair (c AND 0xC0) = opt_pair c" by (simp add: opt_pair_def and_0xc0 bit_or_iff)
  ultimately show ?thesis
    by (simp add: tdd_2812_4bit_rgb_transform_spi_data_def option.map_comp comp_def)
qed

text \<open>The four-channel SM16704PK never gets its fourth channel: two buffers that differ at most in
  the fourth cells of their pixels make the driver send the same bytes.\<close>

theorem sm16704pk_white_ignored:
  assumes "length data = 4 * n" and "length data' = 4 * n"
    and "\<And>j i. j < n \<Longrightarrow> i < 3 \<Longrightarrow> data ! (4 * j + i) = data' ! (4 * j + i)"
    and "drv_tx d = Some tx" and "length (tx_buffer tx) = tx_buffer_len tx" and "0 < n" and "tx_buffer_len tx = 32 * n"
  shows "tdd_sm16704pk_driver_send_data env d (Some data) (length data) =
    tdd_sm16704pk_driver_send_data env d (Some data') (length data')"
proof -
  have p: "chip_primary sm16704pk_chip = 4" "chip_len sm16704pk_chip = 8" by (simp_all add: sm16704pk_chip_def)
  have px: "pixel_at 4 data j ! i = pixel_at 4 data' j ! i" if "j < n" "i < 3" for j i
    using assms(1-3) that by (simp add: pixel_at_def mult.commute)
  have "wire (rgb_order_mode d) (pixel_at 4 data j) = wire (rgb_order_mode d) (pixel_at 4 data' j)" if "j < n" for j
  proof -
    have "length (pixel_at 4 e j) = 4" if "length e = 4 * n" for e :: "u16 list"
      using that \<open>j < n\<close> by (intro length_pixel_at) simp
    with assms(1,2) px [OF \<open>j < n\<close>] show ?thesis by (simp add: wire_def line_perm_def)
  qed
  then have "strip_frame (line_code 0xC0 0xFE) 4 (rgb_order_mode d) data n = strip_frame (line_code 0xC0 0xFE) 4 (rgb_order_mode d) data' n"
    unfolding strip_frame_def by (intro arg_cong [where f = concat] map_cong) auto
  with sm16704pk.send [OF assms(4,5), of n data env] sm16704pk.send [OF assms(4,5), of n data' env] assms p
  show ?thesis by (simp add: tdd_sm16704pk_driver_send_data_def sm16704pk.frame_code_strip)
qed

definition ex_spi :: spi_env where
  "ex_spi = \<lparr>spi_init_ret = OPRT_OK, spi_send_ret = OPRT_OK, tx_malloc = True\<rparr>"

definition ex_strip :: "nat \<Rightarrow> pixel_drv" where
  "ex_strip k = \<lparr>drv_tx = Some \<lparr>tx_buffer = replicate k 7, tx_buffer_len = k\<rparr>, rgb_order_mode = GRB_ORDER, spi_trace = []\<rparr>"

theorem ws2812_send_frame_witness:
  "\<exists>d'. tdd_ws2812_driver_send_data ex_spi (ex_strip 48) (Some [1, 2, 3, 4, 5, 6]) 6 = Some (OPRT_OK, d') \<and>
    spi_trace d' = [Spi_send (strip_frame (line_code 0xE0 0xFC) 3 GRB_ORDER [1, 2, 3, 4, 5, 6] 2)]"
proof -
  have l: "length [1, 2, 3, 4, 5, 6 :: u16] = 6" by simp
  show ?thesis
    using ws2812_send_frame [of "ex_strip 48" "\<lparr>tx_buffer = replicate 48 7, tx_buffer_len = 48\<rparr>" 2 "[1, 2, 3, 4, 5, 6]" ex_spi, unfolded l]
    by (auto simp: ex_strip_def ex_spi_def)
qed

lemma ex_same_frame: "strip_frame code 3 RGB_ORDER [1, 2, 0x103] 1 = strip_frame code 3 RGB_ORDER [1, 2, 3] 1"
proof -
  have w: "wire RGB_ORDER (pixel_at 3 [1, 2, x] 0) = [1, 2, x]" for x
    by (simp add: wire_def line_perm_def pixel_at_def)
  have byte: "(259 :: u8) = 3" by simp
  show ?thesis unfolding strip_frame_def by (simp add: w) (simp only: byte)
qed

theorem ws2812_frame_readable_witness:
  "map ucast (wire RGB_ORDER (pixel_at 3 [1, 2, 0x103] 0)) = (map ucast (wire RGB_ORDER (pixel_at 3 [1, 2, 3] 0)) :: u8 list)"
proof -
  let ?d = "(ex_strip 24)\<lparr>rgb_order_mode := RGB_ORDER\<rparr>" and ?tx = "\<lparr>tx_buffer = replicate 24 7 :: u8 list, tx_buffer_len = 24\<rparr>"
  have p: "chip_primary ws2812_chip = 3" "chip_len ws2812_chip = 8" by (simp_all add: ws2812_chip_def)
  have l: "length [1, 2, x :: u16] = 3" for x by simp
  have d: "drv_tx ?d = Some ?tx" "rgb_order_mode ?d = RGB_ORDER" by (simp_all add: ex_strip_def)
  have send: "tdd_ws2812_driver_send_data ex_spi ?d (Some [1, 2, x]) 3 =
      Some (spi_send_ret ex_spi, spi_do (Spi_send (strip_frame (line_code 0xE0 0xFC) 3 RGB_ORDER [1, 2, x] 1))
        (?d\<lparr>drv_tx := Some (?tx\<lparr>tx_buffer := strip_frame (line_code 0xE0 0xFC) 3 RGB_ORDER [1, 2, x] 1\<rparr>)\<rparr>))" for x
    using ws2812.send [OF d(1), of 1 "[1, 2, x]" ex_spi, unfolded l p ws2812.frame_code_strip d(2)]
    by (simp add: tdd_ws2812_driver_send_data_def)
  have "tdd_ws2812_driver_send_data ex_spi ?d (Some [1, 2, 0x103]) 3 = tdd_ws2812_driver_send_data ex_spi ?d (Some [1, 2, 3]) 3"
    unfolding send ex_same_frame ..
  then show ?thesis
    using ws2812_frame_readable [OF d(1), of 1 "[1, 2, 0x103]" "[1, 2, 3]" 0 ex_spi, unfolded l d(2)] by simp
qed

theorem sm16704pk_white_ignored_witness:
  "tdd_sm16704pk_driver_send_data ex_spi (ex_strip 32) (Some [1, 2, 3, 4]) 4 =
    tdd_sm16704pk_driver_send_data ex_spi (ex_strip 32) (Some [1, 2, 3, 200]) 4"
proof -
  have l: "length [1, 2, 3, x :: u16] = 4" for x by simp
  show ?thesis
  proof (rule sm16704pk_white_ignored [of "[1, 2, 3, 4]" 1 "[1, 2, 3, 200]" "ex_strip 32"
        "\<lparr>tx_buffer = replicate 32 7, tx_buffer_len = 32\<rparr>" ex_spi, unfolded l])
    fix j i :: nat assume "j < 1" "i < 3"
    then show "[1, 2, 3, 4 :: u16] ! (4 * j + i) = [1, 2, 3, 200] ! (4 * j + i)" by (auto simp: less_Suc_eq numeral_3_eq_3)
  qed (simp_all add: ex_strip_def)
qed

end
