(* ===== verification/Pixel_Dev.thy ===== *)
theory Pixel_Dev
  imports Pixel_Tdd
begin

text \<open>
  The pixel device manager, \<^verbatim>\<open>tdl_pixel_dev_manage.c\<close>, and the registration functions of the strip
  drivers. A device is a node of a list; a handle that may be null is an option. The mutex only
  orders callers, so a call is one step. \<open>'h\<close> is what a driver keeps behind its handle.
\<close>

section \<open>Data\<close>

record PIXEL_COLOR_T =
  red :: u16
  green :: u16
  blue :: u16
  cold :: u16
  warm :: u16

record 'h PIXEL_DRIVER_INTFS_T =
  pi_open :: "('h \<Rightarrow> nat \<Rightarrow> OPERATE_RET \<times> 'h) option"
  pi_close :: "('h \<Rightarrow> OPERATE_RET \<times> 'h) option"
  pi_output :: "('h \<Rightarrow> u16 list option \<Rightarrow> nat \<Rightarrow> (OPERATE_RET \<times> 'h) option) option"

record PIXEL_ATTR_T =
  attr_color_tp :: u8
  attr_color_maximum :: nat

record PIXEL_DEV_CONFIG_T =
  cfg_pixel_num :: nat
  cfg_pixel_resolution :: nat

record 'h PIXEL_DEV_NODE_T =
  px_name :: string
  is_start :: bool
  pixel_num :: nat
  pixel_resolution :: nat
  pixel_buffer :: "u16 list option"
  pixel_buffer_len :: nat
  color_num :: nat
  pixel_color :: u8
  color_maximum :: nat
  drv_handle :: 'h
  px_intfs :: "'h PIXEL_DRIVER_INTFS_T"

abbreviation (input) PIXEL_DEV_NAME_MAX_LEN :: nat where "PIXEL_DEV_NAME_MAX_LEN \<equiv> 20"

section \<open>Registration and lookup\<close>

definition tdl_pixel_type_get :: "u8 \<Rightarrow> nat" where
  "tdl_pixel_type_get tp =
     fold (\<lambda>i cnt. cnt + (if tp AND push_bit i 1 = 0 then 0 else 1)) [0..<8] 0"

definition tdl_pixel_dev_node_find :: "'h PIXEL_DEV_NODE_T list \<Rightarrow> string option \<Rightarrow> nat option" where
  "tdl_pixel_dev_node_find list dev_name =
     (case dev_name of None \<Rightarrow> None | Some nm \<Rightarrow> find_index (\<lambda>n. nm = px_name n) list)"

text \<open>
  \<open>node_m\<close> and \<open>intfs_m\<close> are the two allocations (the second is not checked), \<open>mtx\<close> and \<open>sem\<close> what the
  creation of the mutex and of the semaphore returns, \<open>hdl\<close> the driver's state before it is opened.
\<close>

record reg_env =
  node_m :: bool
  intfs_m :: bool
  mtx :: OPERATE_RET
  sem :: OPERATE_RET

definition static_tdl_pixel_dev_register ::
  "reg_env \<Rightarrow> 'h \<Rightarrow> 'h PIXEL_DEV_NODE_T list \<Rightarrow> string \<Rightarrow> 'h PIXEL_DRIVER_INTFS_T \<Rightarrow> PIXEL_ATTR_T
     \<Rightarrow> (OPERATE_RET \<times> 'h PIXEL_DEV_NODE_T list) option" where
  "static_tdl_pixel_dev_register env hdl list driver_name intfs arrt =
     (if tdl_pixel_dev_node_find list (Some driver_name) \<noteq> None then Some (OPRT_COM_ERROR, list)
      else if \<not> node_m env then Some (OPRT_MALLOC_FAILED, list)
      else if \<not> intfs_m env then None
      else if mtx env \<noteq> OPRT_OK then Some (mtx env, list)
      else if sem env \<noteq> OPRT_OK then Some (sem env, list)
      else Some (OPRT_OK, list @
        [\<lparr>px_name = take PIXEL_DEV_NAME_MAX_LEN driver_name, is_start = False, pixel_num = 0, pixel_resolution = 0,
          pixel_buffer = None, pixel_buffer_len = 0, color_num = tdl_pixel_type_get (attr_color_tp arrt),
          pixel_color = attr_color_tp arrt, color_maximum = attr_color_maximum arrt,
          drv_handle = hdl, px_intfs = intfs\<rparr>]))"

definition tdl_pixel_driver_register ::
  "reg_env \<Rightarrow> 'h \<Rightarrow> 'h PIXEL_DEV_NODE_T list \<Rightarrow> string option \<Rightarrow> 'h PIXEL_DRIVER_INTFS_T option \<Rightarrow> PIXEL_ATTR_T
     \<Rightarrow> (OPERATE_RET \<times> 'h PIXEL_DEV_NODE_T list) option" where
  "tdl_pixel_driver_register env hdl list driver_name intfs arrt =
     (case (driver_name, intfs) of
        (Some nm, Some i) \<Rightarrow>
          if pi_open i = None \<or> pi_close i = None \<or> pi_output i = None then Some (OPRT_INVALID_PARM, list)
          else if attr_color_tp arrt > PIXEL_COLOR_TP_RGBCW \<or> attr_color_tp arrt < PIXEL_COLOR_TP_RGB
          then Some (OPRT_INVALID_PARM, list)
          else static_tdl_pixel_dev_register env hdl list nm i arrt
      | _ \<Rightarrow> Some (OPRT_INVALID_PARM, list))"

definition tdl_pixel_dev_find :: "'h PIXEL_DEV_NODE_T list \<Rightarrow> string option \<Rightarrow> OPERATE_RET \<times> nat option" where
  "tdl_pixel_dev_find list name =
     (case tdl_pixel_dev_node_find list name of
        None \<Rightarrow> (OPRT_COM_ERROR, None)
      | Some h \<Rightarrow> (OPRT_OK, Some h))"

section \<open>Opening, refreshing, closing, configuring\<close>

text \<open>
  \<open>alloc k\<close> is what an allocation of \<open>k\<close> 16-bit cells gives: the cells as they are in memory, or null.
  The clearing that follows counts bytes, half of the size of the buffer; the board is little endian.
\<close>

definition memset_zero_bytes :: "u16 list \<Rightarrow> nat \<Rightarrow> u16 list" where
  "memset_zero_bytes m k =
     replicate (k div 2) 0 @ (if odd k then [m ! (k div 2) AND 0xFF00] else []) @ drop ((k + 1) div 2) m"

definition static_tdl_pixel_dev_open ::
  "(nat \<Rightarrow> u16 list option) \<Rightarrow> 'h PIXEL_DEV_NODE_T \<Rightarrow> PIXEL_DEV_CONFIG_T \<Rightarrow> OPERATE_RET \<times> 'h PIXEL_DEV_NODE_T" where
  "static_tdl_pixel_dev_open alloc device config =
     (if is_start device then (OPRT_OK, device)
      else
        let device = device\<lparr>pixel_num := cfg_pixel_num config,
              pixel_resolution := (if cfg_pixel_resolution config \<noteq> 0 then cfg_pixel_resolution config else 1000)\<rparr>;
            (op_ret, hdl) = (case pi_open (px_intfs device) of
                None \<Rightarrow> (OPRT_OK, drv_handle device)
              | Some f \<Rightarrow> f (drv_handle device) (cut16 (pixel_num device)));
            device = device\<lparr>drv_handle := hdl\<rparr>
        in if op_ret \<noteq> OPRT_OK then (OPRT_COM_ERROR, device)
           else let k = cut32 (color_num device * pixel_num device);
                    buf = alloc (cut32 (color_num device * pixel_num device * 2) div 2);
                    device = device\<lparr>pixel_buffer := buf, pixel_buffer_len := k\<rparr>
           in (case buf of
                 None \<Rightarrow> (OPRT_COM_ERROR, device)
               | Some m \<Rightarrow> (OPRT_OK, device\<lparr>pixel_buffer := Some (memset_zero_bytes m k), is_start := True\<rparr>)))"

definition tdl_pixel_dev_open ::
  "(nat \<Rightarrow> u16 list option) \<Rightarrow> 'h PIXEL_DEV_NODE_T option \<Rightarrow> PIXEL_DEV_CONFIG_T option
     \<Rightarrow> OPERATE_RET \<times> 'h PIXEL_DEV_NODE_T option" where
  "tdl_pixel_dev_open alloc handle config =
     (case (handle, config) of
        (Some device, Some cfg) \<Rightarrow> (let (r, device) = static_tdl_pixel_dev_open alloc device cfg in (r, Some device))
      | _ \<Rightarrow> (OPRT_INVALID_PARM, handle))"

definition tdl_pixel_refresh :: "'h PIXEL_DEV_NODE_T \<Rightarrow> (OPERATE_RET \<times> 'h PIXEL_DEV_NODE_T) option" where
  "tdl_pixel_refresh device =
     (case pi_output (px_intfs device) of
        None \<Rightarrow> Some (OPRT_OK, device)
      | Some f \<Rightarrow> do {
          (r, hdl) \<leftarrow> f (drv_handle device) (pixel_buffer device) (pixel_buffer_len device);
          Some (r, device\<lparr>drv_handle := hdl\<rparr>) })"

definition tdl_pixel_dev_refresh ::
  "'h PIXEL_DEV_NODE_T option \<Rightarrow> (OPERATE_RET \<times> 'h PIXEL_DEV_NODE_T option) option" where
  "tdl_pixel_dev_refresh handle =
     (case handle of
        None \<Rightarrow> Some (OPRT_INVALID_PARM, None)
      | Some device \<Rightarrow>
          if \<not> is_start device then Some (OPRT_COM_ERROR, Some device)
          else do { (r, device) \<leftarrow> tdl_pixel_refresh device; Some (r, Some device) })"

definition static_tdl_pixel_dev_close :: "'h PIXEL_DEV_NODE_T \<Rightarrow> (OPERATE_RET \<times> 'h PIXEL_DEV_NODE_T) option" where
  "static_tdl_pixel_dev_close device =
     (if \<not> is_start device then Some (OPRT_COM_ERROR, device)
      else do {
        f \<leftarrow> pi_close (px_intfs device);
        let (op_ret, hdl) = f (drv_handle device);
        let device = device\<lparr>drv_handle := hdl\<rparr>;
        if op_ret \<noteq> OPRT_OK then Some (op_ret, device)
        else Some (OPRT_OK, device\<lparr>is_start := False, pixel_num := 0, pixel_buffer := None, pixel_buffer_len := 0\<rparr>) })"

text \<open>The caller's handle is cleared whatever the result; the third component is what it becomes.\<close>

definition tdl_pixel_dev_close ::
  "'h PIXEL_DEV_NODE_T option \<Rightarrow> (OPERATE_RET \<times> 'h PIXEL_DEV_NODE_T option \<times> nat option) option" where
  "tdl_pixel_dev_close handle =
     (case handle of
        None \<Rightarrow> Some (OPRT_INVALID_PARM, None, None)
      | Some device \<Rightarrow> do {
          (r, device) \<leftarrow> static_tdl_pixel_dev_close device;
          Some (r, Some device, None) })"

definition tdl_pixel_dev_num_set ::
  "(nat \<Rightarrow> u16 list option) \<Rightarrow> 'h PIXEL_DEV_NODE_T option \<Rightarrow> nat \<Rightarrow> (OPERATE_RET \<times> 'h PIXEL_DEV_NODE_T option) option" where
  "tdl_pixel_dev_num_set alloc handle num =
     (case handle of
        None \<Rightarrow> Some (OPRT_INVALID_PARM, None)
      | Some device \<Rightarrow>
          if num = 0 then Some (OPRT_INVALID_PARM, Some device)
          else if pixel_num device = num then Some (OPRT_OK, Some device)
          else do {
            let device = device\<lparr>pixel_num := num\<rparr>;
            cl \<leftarrow> pi_close (px_intfs device);
            let (ret, hdl) = cl (drv_handle device);
            let device = device\<lparr>drv_handle := hdl\<rparr>;
            if ret \<noteq> OPRT_OK then Some (OPRT_COM_ERROR, Some device)
            else do {
              op \<leftarrow> pi_open (px_intfs device);
              let (ret, hdl) = op (drv_handle device) num;
              let device = device\<lparr>drv_handle := hdl\<rparr>;
              if ret \<noteq> OPRT_OK then Some (OPRT_COM_ERROR, Some device)
              else Some (OPRT_OK, Some (device\<lparr>
                pixel_buffer := alloc (cut32 (color_num device * pixel_num device * 2) div 2),
                pixel_buffer_len := cut32 (color_num device * pixel_num device)\<rparr>)) } })"

datatype PIXEL_DEV_CFG_CMD_E =
  PIXEL_DEV_CMD_SET_PIXEL_NUM | PIXEL_DEV_CMD_SET_TX_CB | PIXEL_DEV_CMD_GET_RESOLUTION
  | PIXEL_DEV_CMD_GET_PIXEL_NUM | PIXEL_DEV_CMD_OTHER

text \<open>\<open>arg\<close> is the cell behind the argument pointer; the second result is the cell afterwards.\<close>

definition tdl_pixel_dev_config ::
  "(nat \<Rightarrow> u16 list option) \<Rightarrow> 'h PIXEL_DEV_NODE_T option \<Rightarrow> PIXEL_DEV_CFG_CMD_E \<Rightarrow> nat option
     \<Rightarrow> (OPERATE_RET \<times> nat option \<times> 'h PIXEL_DEV_NODE_T option) option" where
  "tdl_pixel_dev_config alloc handle cmd arg =
     (case handle of
        None \<Rightarrow> Some (OPRT_INVALID_PARM, arg, None)
      | Some device \<Rightarrow>
          (case cmd of
             PIXEL_DEV_CMD_GET_RESOLUTION \<Rightarrow>
               Some (if arg = None then (OPRT_INVALID_PARM, arg, handle)
                     else (OPRT_OK, Some (pixel_resolution device), handle))
           | PIXEL_DEV_CMD_SET_PIXEL_NUM \<Rightarrow>
               (case arg of
                  None \<Rightarrow> Some (OPRT_INVALID_PARM, arg, handle)
                | Some n \<Rightarrow> do {
                    (_, handle) \<leftarrow> tdl_pixel_dev_num_set alloc handle (cut16 n);
                    Some (OPRT_OK, arg, handle) })
           | PIXEL_DEV_CMD_SET_TX_CB \<Rightarrow> Some (OPRT_OK, arg, handle)
           | PIXEL_DEV_CMD_GET_PIXEL_NUM \<Rightarrow>
               Some (if arg = None then (OPRT_INVALID_PARM, arg, handle)
                     else (OPRT_OK, Some (pixel_num device), handle))
           | PIXEL_DEV_CMD_OTHER \<Rightarrow> Some (OPRT_OK, arg, handle)))"

section \<open>Registration of the strip drivers\<close>

text \<open>
  All drivers register in the same way; all but the two \<^verbatim>\<open>ws2812\<close> drivers return success whatever
  the manager answered. The line order is a static variable of the driver's file: here the driver
  keeps it, so one device per driver.
\<close>

definition chip_intfs :: "pixel_chip \<Rightarrow> spi_env \<Rightarrow> pixel_drv PIXEL_DRIVER_INTFS_T" where
  "chip_intfs ch env = \<lparr>pi_open = Some (chip_open ch env), pi_close = Some chip_close,
     pi_output = Some (chip_send_data ch env)\<rparr>"

definition chip_register ::
  "pixel_chip \<Rightarrow> u8 \<Rightarrow> reg_env \<Rightarrow> spi_env \<Rightarrow> pixel_drv PIXEL_DEV_NODE_T list \<Rightarrow> string option \<Rightarrow> u8
     \<Rightarrow> (OPERATE_RET \<times> pixel_drv PIXEL_DEV_NODE_T list) option" where
  "chip_register ch tp renv env list driver_name order_mode =
     tdl_pixel_driver_register renv \<lparr>drv_tx = None, rgb_order_mode = order_mode, spi_trace = []\<rparr> list driver_name
       (Some (chip_intfs ch env)) \<lparr>attr_color_tp = tp, attr_color_maximum = 255\<rparr>"

definition always_ok :: "(OPERATE_RET \<times> 'a) option \<Rightarrow> (OPERATE_RET \<times> 'a) option" where
  "always_ok r = map_option (\<lambda>(_, x). (OPRT_OK, x)) r"

type_synonym strip_register =
  "reg_env \<Rightarrow> spi_env \<Rightarrow> pixel_drv PIXEL_DEV_NODE_T list \<Rightarrow> string option \<Rightarrow> u8
     \<Rightarrow> (OPERATE_RET \<times> pixel_drv PIXEL_DEV_NODE_T list) option"

definition tdd_ws2812_driver_register :: strip_register where
  "tdd_ws2812_driver_register = chip_register ws2812_chip PIXEL_COLOR_TP_RGB"

definition tdd_ws2812_opt_driver_register :: strip_register where
  "tdd_ws2812_opt_driver_register = chip_register ws2812_opt_chip PIXEL_COLOR_TP_RGB"

definition tdd_sm16704pk_driver_register :: strip_register where
  "tdd_sm16704pk_driver_register renv env list nm order =
     always_ok (chip_register sm16704pk_chip PIXEL_COLOR_TP_RGBW renv env list nm order)"

definition tdd_sk6812_driver_register :: strip_register where
  "tdd_sk6812_driver_register renv env list nm order =
     always_ok (chip_register sk6812_chip PIXEL_COLOR_TP_RGB renv env list nm order)"

definition tdd_sm16703p_driver_register :: strip_register where
  "tdd_sm16703p_driver_register renv env list nm order =
     always_ok (chip_register sm16703p_chip PIXEL_COLOR_TP_RGB renv env list nm order)"

definition tdd_yx1903b_driver_register :: strip_register where
  "tdd_yx1903b_driver_register renv env list nm order =
     always_ok (chip_register yx1903b_chip PIXEL_COLOR_TP_RGB renv env list nm order)"

definition tdd_ws2814_driver_register :: strip_register where
  "tdd_ws2814_driver_register renv env list nm order =
     always_ok (chip_register ws2814_chip PIXEL_COLOR_TP_RGBW renv env list nm order)"

section \<open>The device list is a registry\<close>

definition pixel_registered :: "string \<Rightarrow> 'h PIXEL_DEV_NODE_T list \<Rightarrow> 'h PIXEL_DEV_NODE_T list \<Rightarrow> bool" where
  "pixel_registered nm l l' \<longleftrightarrow> (\<exists>env hdl i a. tdl_pixel_driver_register env hdl l (Some nm) i a = Some (OPRT_OK, l'))"

interpretation pixel_registry: device_registry "map px_name" "\<lambda>l nm. tdl_pixel_dev_node_find l (Some nm)"
  "\<lambda>nm. length nm \<le> PIXEL_DEV_NAME_MAX_LEN" pixel_registered
proof unfold_locales
  fix s :: "'h PIXEL_DEV_NODE_T list" and nm
  show "tdl_pixel_dev_node_find s (Some nm) = find_index ((=) nm) (map px_name s)"
    by (simp add: tdl_pixel_dev_node_find_def find_index_map comp_def)
next
  fix nm and s s' :: "'h PIXEL_DEV_NODE_T list"
  assume reg: "pixel_registered nm s s'" and len: "length nm \<le> 20"
  then obtain env hdl i a where r: "static_tdl_pixel_dev_register env hdl s nm i a = Some (OPRT_OK, s')"
    by (auto simp: pixel_registered_def tdl_pixel_driver_register_def split: option.splits if_splits)
  then have "find_index (\<lambda>n. nm = px_name n) s = None" and "map px_name s' = map px_name s @ [nm]"
    using len by (auto simp: static_tdl_pixel_dev_register_def tdl_pixel_dev_node_find_def split: if_splits)
  then show "nm \<notin> set (map px_name s) \<and> map px_name s' = map px_name s @ [nm]"
    by (auto simp: find_index_None)
qed

text \<open>A strip registered under a name of at most 20 characters is found under it at the end of the
  list, every other lookup gives what it gave before, and the name was not taken.\<close>

theorem pixel_register_then_find:
  assumes reg: "tdl_pixel_driver_register env hdl l (Some nm) i a = Some (OPRT_OK, l')"
    and len: "length nm \<le> PIXEL_DEV_NAME_MAX_LEN"
  shows "tdl_pixel_dev_find l (Some nm) = (OPRT_COM_ERROR, None) \<and>
    tdl_pixel_dev_find l' (Some nm) = (OPRT_OK, Some (length l)) \<and>
    (\<forall>x. x \<noteq> nm \<longrightarrow> tdl_pixel_dev_find l' (Some x) = tdl_pixel_dev_find l (Some x))"
proof -
  have r: "pixel_registered nm l l'" using reg by (auto simp: pixel_registered_def)
  have "tdl_pixel_dev_node_find l (Some nm) = None"
    using pixel_registry.register [OF r len] by (auto simp: pixel_registry.lookup find_index_None)
  moreover have "tdl_pixel_dev_node_find l' (Some nm) = Some (length l)"
    using pixel_registry.lookup_registered [OF r len] by simp
  moreover have "tdl_pixel_dev_node_find l' (Some x) = tdl_pixel_dev_node_find l (Some x)" if "x \<noteq> nm" for x
    using pixel_registry.lookup_others [OF r len, of x] pixel_registry.lookup_unknown [OF r len that]
    by (cases "tdl_pixel_dev_node_find l (Some x)") simp_all
  ultimately show ?thesis by (simp add: tdl_pixel_dev_find_def)
qed

text \<open>Opening a strip whose buffer has an even number of cells clears the lower half of them and
  leaves in the upper half what the memory held; the rest of the node is set up for the strip.\<close>

theorem pixel_open_clears_half:
  assumes "\<not> is_start device" and "pi_open (px_intfs device) = Some f"
    and "f (drv_handle device) (cut16 (cfg_pixel_num cfg)) = (OPRT_OK, hdl)"
    and k: "k = color_num device * cfg_pixel_num cfg" "k * 2 < 4294967296" "even k"
    and m: "alloc k = Some m" "length m = k"
  shows "\<exists>device'. tdl_pixel_dev_open alloc (Some device) (Some cfg) = (OPRT_OK, Some device') \<and>
    is_start device' \<and> pixel_num device' = cfg_pixel_num cfg \<and> pixel_buffer_len device' = k \<and>
    pixel_resolution device' = (if cfg_pixel_resolution cfg = 0 then 1000 else cfg_pixel_resolution cfg) \<and>
    pixel_buffer device' = Some (replicate (k div 2) 0 @ drop (k div 2) m) \<and> drv_handle device' = hdl"
proof -
  have c: "cut32 (k * 2) div 2 = k" "cut32 k = k" using k(2) by simp_all
  have "(k + 1) div 2 = k div 2" using k(3) by presburger
  with assms c show ?thesis
    by (simp add: tdl_pixel_dev_open_def static_tdl_pixel_dev_open_def memset_zero_bytes_def Let_def)
qed

definition ex_reg :: reg_env where
  "ex_reg = \<lparr>node_m = True, intfs_m = True, mtx = OPRT_OK, sem = OPRT_OK\<rparr>"

definition ex_led_drv :: pixel_drv where
  "ex_led_drv = \<lparr>drv_tx = None, rgb_order_mode = GRB_ORDER, spi_trace = []\<rparr>"

definition ex_led :: "pixel_drv PIXEL_DEV_NODE_T" where
  "ex_led = \<lparr>px_name = ''led'', is_start = False, pixel_num = 0, pixel_resolution = 0, pixel_buffer = None,
     pixel_buffer_len = 0, color_num = 3, pixel_color = PIXEL_COLOR_TP_RGB, color_maximum = 255,
     drv_handle = ex_led_drv, px_intfs = chip_intfs ws2812_chip ex_spi\<rparr>"

lemma type_get_rgb: "tdl_pixel_type_get PIXEL_COLOR_TP_RGB = 3"
  by (simp add: tdl_pixel_type_get_def upt_rec push_bit_eq_mult)

lemma ex_led_register:
  "tdl_pixel_driver_register ex_reg ex_led_drv [] (Some ''led'') (Some (chip_intfs ws2812_chip ex_spi))
    \<lparr>attr_color_tp = PIXEL_COLOR_TP_RGB, attr_color_maximum = 255\<rparr> = Some (OPRT_OK, [ex_led])"
  using type_get_rgb
  by (simp add: tdl_pixel_driver_register_def static_tdl_pixel_dev_register_def tdl_pixel_dev_node_find_def
      ex_led_def ex_reg_def chip_intfs_def)

theorem pixel_register_then_find_witness: "tdl_pixel_dev_find [ex_led] (Some ''led'') = (OPRT_OK, Some 0)"
  using pixel_register_then_find [OF ex_led_register] by simp

theorem pixel_open_clears_half_witness:
  "\<exists>device'. tdl_pixel_dev_open (\<lambda>k. Some (replicate k 9)) (Some ex_led)
      (Some \<lparr>cfg_pixel_num = 2, cfg_pixel_resolution = 0\<rparr>) = (OPRT_OK, Some device') \<and>
    pixel_buffer device' = Some [0, 0, 0, 9, 9, 9]"
proof -
  have "chip_open ws2812_chip ex_spi ex_led_drv 2 = (OPRT_OK, snd (chip_open ws2812_chip ex_spi ex_led_drv 2))"
    by (simp add: chip_open_def ex_spi_def tdd_pixel_create_tx_ctrl_def ws2812_chip_def)
  then show ?thesis
    using pixel_open_clears_half [of ex_led "chip_open ws2812_chip ex_spi" "\<lparr>cfg_pixel_num = 2, cfg_pixel_resolution = 0\<rparr>"
        "snd (chip_open ws2812_chip ex_spi ex_led_drv 2)" 6 "\<lambda>k. Some (replicate k 9)" "replicate 6 9"]
    by (simp add: ex_led_def chip_intfs_def) (auto simp: numeral_3_eq_3)
qed

end
