(* ===== verification/Pixel_Color.thy ===== *)
theory Pixel_Color
  imports Pixel_Dev
begin

text \<open>
  The colour operations on the pixel buffer, \<^verbatim>\<open>tdl_pixel_color_manage.c\<close>: setting and reading pixels
  with scaling between the caller's resolution and the chip's, cyclic shifts, mirrored shifts, copies.
  \<^verbatim>\<open>UINT_T\<close> arithmetic wraps at 32 bits; positions inside the buffer fit an \<^verbatim>\<open>INT_T\<close>.
\<close>

section \<open>One pixel\<close>

text \<open>The channels a strip of a type has, in buffer order.\<close>

definition channels :: "u8 \<Rightarrow> PIXEL_COLOR_T \<Rightarrow> u16 list" where
  "channels tp c =
     (if tp = PIXEL_COLOR_TP_RGB then [red c, green c, blue c]
      else if tp = PIXEL_COLOR_TP_RGBC then [red c, green c, blue c, cold c]
      else if tp = PIXEL_COLOR_TP_RGBW then [red c, green c, blue c, warm c]
      else if tp = PIXEL_COLOR_TP_RGBCW then [red c, green c, blue c, cold c, warm c]
      else [])"

definition px_scale :: "'h PIXEL_DEV_NODE_T \<Rightarrow> u16 \<Rightarrow> u16 option" where
  "px_scale device v =
     (if pixel_resolution device = 0 then None
      else Some (of_nat (cut32 (unat v * color_maximum device) div pixel_resolution device)))"


definition static_tdl_pixel_set_color ::
  "'h PIXEL_DEV_NODE_T \<Rightarrow> u16 list option \<Rightarrow> u8 \<Rightarrow> nat \<Rightarrow> nat \<Rightarrow> PIXEL_COLOR_T \<Rightarrow> u16 list option option" where
  "static_tdl_pixel_set_color device buff tp colors index color =
     (case buff of
        None \<Rightarrow> Some None
      | Some b \<Rightarrow> do {
          let pos = cut32 (colors * index);
          b \<leftarrow> foldM (\<lambda>(i, v) b. do { x \<leftarrow> px_scale device v; wr b (pos + i) x })
                 (enumerate 0 (channels tp color)) b;
          Some (Some b) })"



section \<open>Shifts\<close>

text \<open>A step that is negative as an \<^verbatim>\<open>INT_T\<close> asks for a huge copy; a negative start leaves the buffer.\<close>

definition tdl_pixel_right_shift ::
  "bool \<Rightarrow> u16 list option \<Rightarrow> nat \<Rightarrow> int \<Rightarrow> int \<Rightarrow> int \<Rightarrow> (OPERATE_RET \<times> u16 list option) option" where
  "tdl_pixel_right_shift malloc_ok buff k start last_px step =
     (case buff of
        None \<Rightarrow> Some (OPRT_INVALID_PARM, None)
      | Some b \<Rightarrow>
          if last_px < start \<or> step > last_px - start then Some (OPRT_INVALID_PARM, Some b)
          else if last_px = start then Some (OPRT_OK, Some b)
          else if \<not> malloc_ok then Some (OPRT_MALLOC_FAILED, Some b)
          else if step < 0 \<or> start < 0 then None
          else do {
            temp \<leftarrow> memcpy_out b (k * nat (last_px - step + 1)) (nat step * k);
            b \<leftarrow> foldM (\<lambda>i b. do {
                     px \<leftarrow> memcpy_out b (k * nat (last_px - step - int i)) k;
                     memcpy_in b (k * nat (last_px - int i)) px })
                   [0..<nat (last_px - start + 1 - step)] b;
            b \<leftarrow> memcpy_in b (k * nat start) temp;
            Some (OPRT_OK, Some b) })"

definition tdl_pixel_left_shift ::
  "bool \<Rightarrow> u16 list option \<Rightarrow> nat \<Rightarrow> int \<Rightarrow> int \<Rightarrow> int \<Rightarrow> (OPERATE_RET \<times> u16 list option) option" where
  "tdl_pixel_left_shift malloc_ok buff k start last_px step =
     (case buff of
        None \<Rightarrow> Some (OPRT_INVALID_PARM, None)
      | Some b \<Rightarrow>
          if last_px < start \<or> step > last_px - start then Some (OPRT_INVALID_PARM, Some b)
          else if last_px = start then Some (OPRT_OK, Some b)
          else if \<not> malloc_ok then Some (OPRT_MALLOC_FAILED, Some b)
          else if step < 0 \<or> start < 0 then None
          else do {
            temp \<leftarrow> memcpy_out b (k * nat start) (nat step * k);
            b \<leftarrow> foldM (\<lambda>i b. do {
                     px \<leftarrow> memcpy_out b (k * nat (start + int i + step)) k;
                     memcpy_in b (k * nat (start + int i)) px })
                   [0..<nat (last_px - start + 1 - step)] b;
            b \<leftarrow> memcpy_in b (k * nat (last_px - step + 1)) temp;
            Some (OPRT_OK, Some b) })"

section \<open>The interface\<close>

definition put_buffer :: "'h PIXEL_DEV_NODE_T \<Rightarrow> u16 list option \<Rightarrow> 'h PIXEL_DEV_NODE_T" where
  "put_buffer device b = device\<lparr>pixel_buffer := b\<rparr>"

text \<open>The loop that sets \<open>count\<close> pixels from \<open>first\<close> on, the \<open>i\<close>-th to \<open>col i\<close>.\<close>

definition set_pixels ::
  "'h PIXEL_DEV_NODE_T \<Rightarrow> nat \<Rightarrow> nat \<Rightarrow> (nat \<Rightarrow> PIXEL_COLOR_T option) \<Rightarrow> u16 list option \<Rightarrow> u16 list option option" where
  "set_pixels device first count col buff =
     foldM (\<lambda>i buff. do {
         c \<leftarrow> col i;
         static_tdl_pixel_set_color device buff (pixel_color device) (color_num device) (cut32 (first + i)) c })
       [0..<count] buff"

definition range_bad :: "'h PIXEL_DEV_NODE_T \<Rightarrow> nat \<Rightarrow> nat \<Rightarrow> bool" where
  "range_bad device index_start count \<longleftrightarrow>
     index_start \<ge> pixel_num device \<or> cut32 (index_start + count) > pixel_num device"

definition tdl_pixel_set_single_color ::
  "'h PIXEL_DEV_NODE_T option \<Rightarrow> nat \<Rightarrow> nat \<Rightarrow> PIXEL_COLOR_T option
     \<Rightarrow> (OPERATE_RET \<times> 'h PIXEL_DEV_NODE_T option) option" where
  "tdl_pixel_set_single_color handle index_start count color =
     (case (handle, color) of
        (Some device, Some c) \<Rightarrow>
          if \<not> is_start device then Some (OPRT_COM_ERROR, handle)
          else if range_bad device index_start count then Some (OPRT_INVALID_PARM, handle)
          else do {
            b \<leftarrow> set_pixels device index_start count (\<lambda>_. Some c) (pixel_buffer device);
            Some (OPRT_OK, Some (put_buffer device b)) }
      | _ \<Rightarrow> Some (OPRT_INVALID_PARM, handle))"


definition tdl_pixel_set_single_color_with_backcolor ::
  "'h PIXEL_DEV_NODE_T option \<Rightarrow> nat \<Rightarrow> nat \<Rightarrow> PIXEL_COLOR_T option \<Rightarrow> PIXEL_COLOR_T option
     \<Rightarrow> (OPERATE_RET \<times> 'h PIXEL_DEV_NODE_T option) option" where
  "tdl_pixel_set_single_color_with_backcolor handle index_start count backcolor color =
     (case (handle, backcolor, color) of
        (Some device, Some bc, Some c) \<Rightarrow>
          if \<not> is_start device then Some (OPRT_COM_ERROR, handle)
          else if range_bad device index_start count then Some (OPRT_INVALID_PARM, handle)
          else do {
            b \<leftarrow> set_pixels device 0 (pixel_num device) (\<lambda>_. Some bc) (pixel_buffer device);
            b \<leftarrow> set_pixels device index_start count (\<lambda>_. Some c) b;
            Some (OPRT_OK, Some (put_buffer device b)) }
      | _ \<Rightarrow> Some (OPRT_INVALID_PARM, handle))"

definition tdl_pixel_set_single_color_all ::
  "'h PIXEL_DEV_NODE_T option \<Rightarrow> PIXEL_COLOR_T option \<Rightarrow> (OPERATE_RET \<times> 'h PIXEL_DEV_NODE_T option) option" where
  "tdl_pixel_set_single_color_all handle color =
     (case (handle, color) of
        (Some device, Some c) \<Rightarrow>
          if \<not> is_start device then Some (OPRT_COM_ERROR, handle)
          else do {
            b \<leftarrow> set_pixels device 0 (pixel_num device) (\<lambda>_. Some c) (pixel_buffer device);
            Some (OPRT_OK, Some (put_buffer device b)) }
      | _ \<Rightarrow> Some (OPRT_INVALID_PARM, handle))"


text \<open>A \<^verbatim>\<open>UINT_T\<close> argument read as an \<^verbatim>\<open>INT_T\<close> parameter.\<close>

definition as_int :: "nat \<Rightarrow> int" where
  "as_int n = (if n < 2147483648 then int n else int n - 4294967296)"

abbreviation (input) PIXEL_SHIFT_RIGHT :: nat where "PIXEL_SHIFT_RIGHT \<equiv> 0"
abbreviation (input) PIXEL_SHIFT_LEFT :: nat where "PIXEL_SHIFT_LEFT \<equiv> 1"
abbreviation (input) PIXEL_SHIFT_CLOSE :: nat where "PIXEL_SHIFT_CLOSE \<equiv> 0"
abbreviation (input) PIXEL_SHIFT_FAR :: nat where "PIXEL_SHIFT_FAR \<equiv> 1"

definition tdl_pixel_cycle_shift_color ::
  "bool \<Rightarrow> 'h PIXEL_DEV_NODE_T option \<Rightarrow> nat \<Rightarrow> nat \<Rightarrow> nat \<Rightarrow> nat
     \<Rightarrow> (OPERATE_RET \<times> 'h PIXEL_DEV_NODE_T option) option" where
  "tdl_pixel_cycle_shift_color malloc_ok handle dir index_start index_end move_step =
     (case handle of
        None \<Rightarrow> Some (OPRT_INVALID_PARM, None)
      | Some device \<Rightarrow>
          if dir > PIXEL_SHIFT_LEFT then Some (OPRT_INVALID_PARM, handle)
          else if \<not> is_start device then Some (OPRT_COM_ERROR, handle)
          else if index_start \<ge> pixel_num device \<or> index_end \<ge> pixel_num device then Some (OPRT_INVALID_PARM, handle)
          else do {
            (op_ret, b) \<leftarrow>
              (if dir = PIXEL_SHIFT_RIGHT then tdl_pixel_right_shift malloc_ok (pixel_buffer device) (color_num device)
                 (as_int index_start) (as_int index_end) (as_int move_step)
               else tdl_pixel_left_shift malloc_ok (pixel_buffer device) (color_num device)
                 (as_int index_start) (as_int index_end) (as_int move_step));
            Some (op_ret, Some (put_buffer device b)) })"

definition tdl_pixel_mirror_cycle_shift_color ::
  "bool \<Rightarrow> bool \<Rightarrow> 'h PIXEL_DEV_NODE_T option \<Rightarrow> nat \<Rightarrow> nat \<Rightarrow> nat \<Rightarrow> nat
     \<Rightarrow> (OPERATE_RET \<times> 'h PIXEL_DEV_NODE_T option) option" where
  "tdl_pixel_mirror_cycle_shift_color malloc1 malloc2 handle dir index_start index_end move_step =
     (case handle of
        None \<Rightarrow> Some (OPRT_INVALID_PARM, None)
      | Some device \<Rightarrow>
          if dir > PIXEL_SHIFT_FAR then Some (OPRT_INVALID_PARM, handle)
          else if \<not> is_start device then Some (OPRT_COM_ERROR, handle)
          else if index_start \<ge> pixel_num device \<or> index_end \<ge> pixel_num device \<or> index_start \<ge> index_end
          then Some (OPRT_INVALID_PARM, handle)
          else do {
            let half_len = cut32 (index_end - index_start + 1) div 2;
            let first = (if dir = PIXEL_SHIFT_CLOSE then tdl_pixel_right_shift else tdl_pixel_left_shift);
            let second = (if dir = PIXEL_SHIFT_CLOSE then tdl_pixel_left_shift else tdl_pixel_right_shift);
            (op_ret, b) \<leftarrow> first malloc1 (pixel_buffer device) (color_num device)
              (as_int index_start) (as_int (index_start + half_len - 1)) (as_int move_step);
            if op_ret \<noteq> OPRT_OK then Some (op_ret, Some (put_buffer device b))
            else do {
              (op_ret, b) \<leftarrow> second malloc2 b (color_num device)
                (as_int (index_start + half_len)) (as_int (index_start + 2 * half_len - 1)) (as_int move_step);
              Some (op_ret, Some (put_buffer device b)) } })"

definition tdl_pixel_copy_color ::
  "'h PIXEL_DEV_NODE_T option \<Rightarrow> nat \<Rightarrow> nat \<Rightarrow> nat \<Rightarrow> (OPERATE_RET \<times> 'h PIXEL_DEV_NODE_T option) option" where
  "tdl_pixel_copy_color handle dst_idx src_idx len =
     (case handle of
        None \<Rightarrow> Some (OPRT_INVALID_PARM, None)
      | Some device \<Rightarrow>
          if len = 0 then Some (OPRT_INVALID_PARM, handle)
          else if \<not> is_start device then Some (OPRT_COM_ERROR, handle)
          else if src_idx \<ge> pixel_num device \<or> dst_idx \<ge> pixel_num device \<or>
             cut32 (src_idx + len) > pixel_num device \<or> cut32 (dst_idx + len) > pixel_num device
          then Some (OPRT_INVALID_PARM, handle)
          else do {
            b \<leftarrow> pixel_buffer device;
            let cells = cut32 (color_num device * 2 * len) div 2;
            px \<leftarrow> memcpy_out b (cut32 (src_idx * color_num device)) cells;
            b \<leftarrow> memcpy_in b (cut32 (dst_idx * color_num device)) px;
            Some (OPRT_OK, Some (put_buffer device (Some b))) })"

section \<open>Devices in order\<close>

definition chan_num :: "u8 \<Rightarrow> nat" where
  "chan_num tp =
     (if tp = PIXEL_COLOR_TP_RGB then 3 else if tp = PIXEL_COLOR_TP_RGBC \<or> tp = PIXEL_COLOR_TP_RGBW then 4
      else if tp = PIXEL_COLOR_TP_RGBCW then 5 else 0)"

lemma length_channels [simp]: "length (channels tp c) = chan_num tp"
  by (simp add: channels_def chan_num_def)

text \<open>
  A started strip: a buffer of the size of the strip, scales that are not zero, and a type the
  manager knows.
\<close>

definition px_wf :: "'h PIXEL_DEV_NODE_T \<Rightarrow> bool" where
  "px_wf device \<longleftrightarrow> is_start device \<and>
     (\<exists>b. pixel_buffer device = Some b \<and> length b = color_num device * pixel_num device) \<and>
     pixel_buffer_len device = color_num device * pixel_num device \<and>
     color_num device = chan_num (pixel_color device) \<and> 0 < color_num device \<and>
     0 < pixel_resolution device \<and> 0 < color_maximum device \<and>
     color_num device * pixel_num device * 2 < 4294967296"

definition px_sc :: "'h PIXEL_DEV_NODE_T \<Rightarrow> u16 \<Rightarrow> u16" where
  "px_sc device v = of_nat (cut32 (unat v * color_maximum device) div pixel_resolution device)"

definition pixel_cells :: "'h PIXEL_DEV_NODE_T \<Rightarrow> PIXEL_COLOR_T \<Rightarrow> u16 list" where
  "pixel_cells device c = map (px_sc device) (channels (pixel_color device) c)"

lemma foldM_enumerate_write:
  assumes "\<And>v. f v = Some (g v)" and "pos + n + length vs \<le> length b"
  shows "foldM (\<lambda>(i, v) b. do { x \<leftarrow> f v; wr b (pos + i) x }) (enumerate n vs) b = Some (blit b (pos + n) (map g vs))"
  using assms(2)
proof (induction vs arbitrary: n b)
  case Nil
  then show ?case by simp
next
  case (Cons v vs)
  have "blit (b[pos + n := g v]) (pos + Suc n) (map g vs) = blit b (pos + n) (g v # map g vs)"
    using Cons.prems blit_blit_adjacent [of "pos + n" "[g v]" b "pos + Suc n" "map g vs"] by (simp add: blit_single)
  with Cons assms(1) show ?case by (simp add: mem_simps)
qed

lemma px_wfD:
  assumes "px_wf device"
  shows "is_start device" and "\<exists>b. pixel_buffer device = Some b \<and> length b = color_num device * pixel_num device"
    and "pixel_buffer_len device = color_num device * pixel_num device" and "0 < color_num device"
    and "color_num device * pixel_num device * 2 < 4294967296" and "0 < pixel_resolution device" and "0 < color_maximum device"
  using assms unfolding px_wf_def by blast+

lemma px_num_less:
  assumes "px_wf device"
  shows "pixel_num device < 2147483648"
proof -
  note s = px_wfD(5,4) [OF assms]
  have "pixel_num device \<le> color_num device * pixel_num device" using s(2) by simp
  with s(1) show ?thesis by linarith
qed

lemma index_fits:
  assumes "px_wf device" and "i < pixel_num device"
  shows "cut32 (color_num device * i) = color_num device * i"
    and "color_num device * i + color_num device \<le> color_num device * pixel_num device"
    and "i < 4294967296"
proof -
  have "color_num device * (i + 1) \<le> color_num device * pixel_num device"
    using assms(2) by (intro mult_le_mono2) simp
  then show le: "color_num device * i + color_num device \<le> color_num device * pixel_num device" by simp
  with px_wfD(5) [OF assms(1)] show "cut32 (color_num device * i) = color_num device * i" by (intro cut32_id) linarith
  show "i < 4294967296" using px_num_less [OF assms(1)] assms(2) by simp
qed

lemma set_color_eq:
  assumes wf: "px_wf device" and i: "i < pixel_num device" and b: "length b = color_num device * pixel_num device"
  shows "static_tdl_pixel_set_color device (Some b) (pixel_color device) (color_num device) i c =
    Some (Some (blit b (color_num device * i) (pixel_cells device c)))"
proof -
  have "px_scale device v = Some (px_sc device v)" for v
    using wf by (simp add: px_scale_def px_sc_def px_wf_def)
  with foldM_enumerate_write [of "px_scale device" "px_sc device" "color_num device * i" 0
      "channels (pixel_color device) c" b] index_fits [OF wf i] b wf
  show ?thesis by (simp add: static_tdl_pixel_set_color_def pixel_cells_def px_wf_def)
qed

lemma foldM_Some_state:
  assumes "\<And>i b. i \<in> set xs \<Longrightarrow> P b \<Longrightarrow> F i (Some b) = map_option Some (G i b)"
    and "\<And>i b b'. i \<in> set xs \<Longrightarrow> P b \<Longrightarrow> G i b = Some b' \<Longrightarrow> P b'" and "P b"
  shows "foldM F xs (Some b) = map_option Some (foldM G xs b)"
  using assms
proof (induction xs arbitrary: b)
  case Nil
  then show ?case by simp
next
  case (Cons x xs)
  show ?case
  proof (cases "G x b")
    case None
    with Cons.prems show ?thesis by simp
  next
    case (Some b')
    then have "P b'" using Cons.prems by (meson list.set_intros(1))
    moreover have "foldM F xs (Some b') = map_option Some (foldM G xs b')"
      using Cons.IH [OF Cons.prems(1) [OF list.set_intros(2)] Cons.prems(2) [OF list.set_intros(2)] \<open>P b'\<close>] .
    ultimately show ?thesis using Some Cons.prems by simp
  qed
qed

text \<open>Setting a range of pixels writes their cells, and only those.\<close>

lemma set_pixels_eq:
  assumes wf: "px_wf device" and r: "first + count \<le> pixel_num device" and b: "length b = color_num device * pixel_num device"
    and col: "\<And>i. i < count \<Longrightarrow> col i = Some (c i)"
  shows "set_pixels device first count col (Some b) =
    Some (Some (blit b (color_num device * first) (concat (map (\<lambda>i. pixel_cells device (c i)) [0..<count]))))"
proof -
  let ?k = "color_num device" and ?L = "color_num device * pixel_num device"
  let ?G = "\<lambda>i b. Some (blit b (?k * (first + i)) (pixel_cells device (c i)))"
  have lp: "length (pixel_cells device x) = ?k" for x using wf by (simp add: pixel_cells_def px_wf_def)
  have step: "(do { x \<leftarrow> col i; static_tdl_pixel_set_color device (Some d) (pixel_color device) ?k (cut32 (first + i)) x })
      = map_option Some (?G i d)" if "i < count" "length d = ?L" for i d
    using that r col set_color_eq [OF wf _ that(2), of "first + i"] index_fits(3) [OF wf, of "first + i"] by simp
  have "set_pixels device first count col (Some b) = map_option Some (foldM ?G [0..<count] b)"
    unfolding set_pixels_def
  proof (rule foldM_Some_state [where P = "\<lambda>d. length d = ?L"])
    fix i d d' assume "i \<in> set [0..<count]" "length d = ?L" "?G i d = Some d'"
    then show "length d' = ?L" using index_fits(2) [OF wf, of "first + i"] r lp by auto
  qed (use step b in auto)
  also have "foldM ?G [0..<count] b = Some (blit b (?k * first) (concat (map (\<lambda>i. pixel_cells device (c i)) [0..<count])))"
  proof (rule foldM_blocks [where L = ?L and m = ?k])
    show "?k * first + ?k * count \<le> ?L" using r by (simp add: distrib_left [symmetric])
  qed (use lp b in \<open>auto simp: algebra_simps\<close>)
  finally show ?thesis by simp
qed

lemma range_ok:
  assumes "px_wf device" and "first + count \<le> pixel_num device" and "0 < count"
  shows "\<not> range_bad device first count"
  using assms px_num_less [OF assms(1)] by (simp add: range_bad_def)

lemma nth_concat_pixels:
  assumes "\<And>i. i < n \<Longrightarrow> length (g i) = k" and "i < n" and "j < k"
  shows "concat (map g [0..<n]) ! (k * i + j) = g i ! j"
  using assms
proof (induction n)
  case (Suc n)
  have l: "length (concat (map g [0..<n])) = k * n" using Suc.prems(1) by (induction n) auto
  show ?case
  proof (cases "i < n")
    case True
    then have "k * (i + 1) \<le> k * n" by (intro mult_le_mono2) simp
    with True Suc l show ?thesis by (simp add: nth_append)
  next
    case False
    with Suc.prems have "i = n" by simp
    with Suc.prems l show ?thesis by (simp add: nth_append)
  qed
qed simp

section \<open>Setting and reading back\<close>

definition px_un :: "'h PIXEL_DEV_NODE_T \<Rightarrow> u16 \<Rightarrow> u16" where
  "px_un device v = of_nat (unat v * pixel_resolution device div color_maximum device)"

definition cells_at :: "'h PIXEL_DEV_NODE_T \<Rightarrow> u16 list \<Rightarrow> nat \<Rightarrow> u16 list" where
  "cells_at device b i = take (color_num device) (drop (color_num device * i) b)"


lemma cells_at_nth:
  "color_num device * i + color_num device \<le> length b \<Longrightarrow> j < color_num device \<Longrightarrow>
    cells_at device b i ! j = b ! (color_num device * i + j)"
  by (simp add: cells_at_def)





lemma blit_cells_at:
  assumes wf: "px_wf device" and b: "length b = color_num device * pixel_num device"
    and r: "first + count \<le> pixel_num device" and g: "\<And>i. i < count \<Longrightarrow> length (g i) = color_num device"
    and j: "j < pixel_num device"
  shows "cells_at device (blit b (color_num device * first) (concat (map g [0..<count]))) j =
    (if first \<le> j \<and> j < first + count then g (j - first) else cells_at device b j)" (is "?lhs = ?rhs")
proof (rule nth_equalityI)
  let ?k = "color_num device"
  have lc: "length (concat (map g [0..<count])) = ?k * count" using g by (induction count) auto
  have room: "?k * first + ?k * count \<le> length b" using r b by (simp add: distrib_left [symmetric])
  have fit: "?k * j + ?k \<le> length b" using index_fits(2) [OF wf j] b by simp
  have l: "length ?rhs = ?k" using fit g by (auto simp: cells_at_def)
  show "length ?lhs = length ?rhs" unfolding l using fit room lc by (simp add: cells_at_def)
  fix i assume "i < length ?lhs"
  then have i: "i < ?k" using fit room lc by (simp add: cells_at_def)
  have lhs: "?lhs ! i = (if ?k * first \<le> ?k * j + i \<and> ?k * j + i < ?k * first + ?k * count
      then concat (map g [0..<count]) ! (?k * j + i - ?k * first) else b ! (?k * j + i))"
    using i fit room lc by (simp add: cells_at_nth nth_blit)
  show "?lhs ! i = ?rhs ! i"
  proof (cases "first \<le> j \<and> j < first + count")
    case True
    then have "?k * (j - first + 1) \<le> ?k * count" by (intro mult_le_mono2) auto
    moreover have e: "?k * j = ?k * first + ?k * (j - first)" using True by (simp add: distrib_left [symmetric])
    ultimately have "?k * first \<le> ?k * j + i" "?k * j + i < ?k * first + ?k * count" using i by auto
    moreover have "?k * j + i - ?k * first = ?k * (j - first) + i" using e by simp
    ultimately show ?thesis using True i lhs nth_concat_pixels [of count g ?k "j - first" i] g by auto
  next
    case False
    then consider "j + 1 \<le> first" | "first + count \<le> j" by linarith
    then have "?k * j + i < ?k * first \<or> ?k * first + ?k * count \<le> ?k * j + i"
    proof cases
      case 1
      then have "?k * (j + 1) \<le> ?k * first" by (rule mult_le_mono2)
      with i show ?thesis by simp
    next
      case 2
      then have "?k * (first + count) \<le> ?k * j" by (rule mult_le_mono2)
      then show ?thesis by (simp add: distrib_left)
    qed
    with False lhs i fit show ?thesis by (auto simp: cells_at_nth)
  qed
qed

section \<open>Shifts are rotations\<close>

lemma right_loop:
  assumes pe: "p \<le> e" and room: "k * (e + 1) \<le> length b" and i: "i \<le> e + 1 - p"
  shows "foldM (\<lambda>i b. do {
      px \<leftarrow> memcpy_out b (k * nat (int e - int p - int i)) k;
      memcpy_in b (k * nat (int e - int i)) px }) [0..<i] b =
    Some (blit b (k * (e + 1 - i)) (take (k * i) (drop (k * (e + 1 - p - i)) b)))"
  using i
proof (induction i)
  case 0
  then show ?case by simp
next
  case (Suc i)
  have n: "nat (int e - int p - int i) = e - p - i" "nat (int e - int i) = e - i"
    "e + 1 - Suc i = e - i" "e + 1 - p - Suc i = e - p - i" using Suc.prems pe by auto
  let ?ys = "take (k * i) (drop (k * (e + 1 - p - i)) b)" and ?px = "take k (drop (k * (e - p - i)) b)"
  have a: "k * (e + 1 - i) = k * (e - i) + k" "k * (e + 1 - p - i) = k * (e - p - i) + k"
    using Suc.prems pe by (simp_all add: Suc_diff_le)
  have le: "k * (e - p - i) + k \<le> k * (e + 1 - i)" "k * (e + 1 - i) + k * i \<le> length b" "k * (e - p - i) + k + k * i \<le> length b"
  proof -
    have "e - p - i \<le> e - i" by arith
    then have "k * (e - p - i) \<le> k * (e - i)" by (rule mult_le_mono2)
    then show "k * (e - p - i) + k \<le> k * (e + 1 - i)" unfolding a(1) by simp
    show "k * (e + 1 - i) + k * i \<le> length b" using Suc.prems room by (simp add: distrib_left [symmetric])
    have "k * (e - p - i + 1 + i) \<le> k * (e + 1)" using Suc.prems pe by (intro mult_le_mono2) simp
    with room show "k * (e - p - i) + k + k * i \<le> length b" by (simp add: distrib_left)
  qed
  have ly: "length ?ys = k * i" "length ?px = k"
    using le(3) by (auto intro!: length_take_drop simp only: a(2))
  have rd: "memcpy_out (blit b (k * (e + 1 - i)) ?ys) (k * (e - p - i)) k = Some ?px"
    using le ly by (simp add: memcpy_out_def take_drop_blit_below)
  have "memcpy_in (blit b (k * (e + 1 - i)) ?ys) (k * (e - i)) ?px = Some (blit b (k * (e - i)) (?px @ ?ys))"
    using le ly a(1) by (simp add: memcpy_in_def blit_blit_before)
  also have "?px @ ?ys = take (k * Suc i) (drop (k * (e - p - i)) b)"
    unfolding a(2) by (simp add: take_drop_append)
  finally show ?case using Suc rd n by (simp add: foldM_snoc)
qed

lemma left_loop:
  assumes room: "k * (st + p + i) \<le> length b"
  shows "foldM (\<lambda>i b. do {
      px \<leftarrow> memcpy_out b (k * nat (int st + int i + int p)) k;
      memcpy_in b (k * nat (int st + int i)) px }) [0..<i] b =
    Some (blit b (k * st) (take (k * i) (drop (k * (st + p)) b)))"
  using room
proof (induction i)
  case 0
  then show ?case by simp
next
  case (Suc i)
  have n: "nat (int st + int i + int p) = st + p + i" "nat (int st + int i) = st + i" by auto
  let ?ys = "take (k * i) (drop (k * (st + p)) b)" and ?px = "take k (drop (k * (st + p + i)) b)"
  have le: "k * st + k * p + k * i + k \<le> length b" using Suc.prems by (simp add: distrib_left)
  have ly: "length ?ys = k * i" "length ?px = k" using le by (auto simp: distrib_left)
  have rd: "memcpy_out (blit b (k * st) ?ys) (k * (st + p + i)) k = Some ?px"
    using le ly by (simp add: memcpy_out_def take_drop_blit_above distrib_left)
  have "memcpy_in (blit b (k * st) ?ys) (k * (st + i)) ?px = Some (blit b (k * st) (?ys @ ?px))"
    using le ly by (simp add: memcpy_in_def blit_blit_adjacent distrib_left)
  also have "?ys @ ?px = take (k * Suc i) (drop (k * (st + p)) b)"
    using take_drop_append [of "k * i" "k * (st + p)" b k] by (simp add: distrib_left add.commute)
  finally show ?case using Suc rd n le by (simp add: foldM_snoc distrib_left)
qed

text \<open>The pixels \<open>st\<close> to \<open>e\<close> as a list of cells.\<close>

definition segment :: "nat \<Rightarrow> u16 list \<Rightarrow> nat \<Rightarrow> nat \<Rightarrow> u16 list" where
  "segment k b st e = take (k * (e + 1 - st)) (drop (k * st) b)"

lemma right_shift_rotate:
  assumes "st < e" and "p \<le> e - st" and room: "k * (e + 1) \<le> length b"
  shows "tdl_pixel_right_shift True (Some b) k (int st) (int e) (int p) =
    Some (OPRT_OK, Some (blit b (k * st) (rotate (k * (e + 1 - st - p)) (segment k b st e))))"
proof -
  define m where "m = e + 1 - st - p"
  let ?seg = "segment k b st e"
  let ?tm = "take (p * k) (drop (k * (e + 1 - p)) b)" and ?mv = "take (k * m) (drop (k * st) b)"
  have pe: "p \<le> e" using assms by simp
  have n: "nat (int e - int p + 1) = e + 1 - p" "nat (int e - int st + 1 - int p) = m" using assms by (auto simp: m_def)
  have d: "e + 1 - m = st + p" "e + 1 - p - m = st" "e + 1 - p = st + m" "e + 1 - st = m + p" using assms by (auto simp: m_def)
  have r: "k * st + k * p + k * m \<le> length b"
  proof -
    have "st + p + m = e + 1" using assms by (auto simp: m_def)
    with room show ?thesis by (metis distrib_left)
  qed
  have lt: "length ?tm = p * k" "length ?mv = k * m" using r unfolding d(3) by (auto simp: distrib_left mult.commute)
  have t: "memcpy_out b (k * (e + 1 - p)) (p * k) = Some ?tm"
    using r unfolding d(3) by (simp add: memcpy_out_def distrib_left mult.commute)
  have lp: "foldM (\<lambda>i b. do {
      px \<leftarrow> memcpy_out b (k * nat (int e - int p - int i)) k;
      memcpy_in b (k * nat (int e - int i)) px }) [0..<m] b = Some (blit b (k * (st + p)) ?mv)"
    using right_loop [OF pe room, of m] unfolding d(1,2) by (simp only: d(3) le_add2)
  have "memcpy_in (blit b (k * (st + p)) ?mv) (k * st) ?tm = Some (blit b (k * st) (?tm @ ?mv))"
    using r lt by (simp add: memcpy_in_def blit_blit_before distrib_left mult.commute)
  also have "?tm @ ?mv = rotate (k * m) ?seg"
  proof -
    have "length ?seg = k * m + k * p" unfolding segment_def d(4) using r by (simp add: distrib_left)
    then have "rotate (k * m) ?seg = drop (k * m) ?seg @ take (k * m) ?seg" by (simp add: rotate_split)
    moreover have "drop (k * m) ?seg = ?tm" unfolding segment_def d(3,4)
      by (simp add: drop_take distrib_left mult.commute add.commute)
    moreover have "take (k * m) ?seg = ?mv" unfolding segment_def d(4) by (simp add: distrib_left)
    ultimately show ?thesis by simp
  qed
  finally show ?thesis using assms t lp n unfolding m_def [symmetric] by (simp add: tdl_pixel_right_shift_def)
qed

lemma left_shift_rotate:
  assumes "st < e" and "p \<le> e - st" and room: "k * (e + 1) \<le> length b"
  shows "tdl_pixel_left_shift True (Some b) k (int st) (int e) (int p) =
    Some (OPRT_OK, Some (blit b (k * st) (rotate (k * p) (segment k b st e))))"
proof -
  define m where "m = e + 1 - st - p"
  let ?seg = "segment k b st e"
  let ?tm = "take (p * k) (drop (k * st) b)" and ?mv = "take (k * m) (drop (k * (st + p)) b)"
  have n: "nat (int e - int p + 1) = st + m" "nat (int e - int st + 1 - int p) = m" using assms by (auto simp: m_def)
  have d: "e + 1 - st = p + m" "st + p + m = e + 1" using assms by (auto simp: m_def)
  have r: "k * st + k * p + k * m \<le> length b" using room d(2) by (metis distrib_left)
  have lt: "length ?tm = p * k" "length ?mv = k * m" using r by (auto simp: distrib_left mult.commute)
  have t: "memcpy_out b (k * st) (p * k) = Some ?tm" using r by (simp add: memcpy_out_def mult.commute)
  have lp: "foldM (\<lambda>i b. do {
      px \<leftarrow> memcpy_out b (k * nat (int st + int i + int p)) k;
      memcpy_in b (k * nat (int st + int i)) px }) [0..<m] b = Some (blit b (k * st) ?mv)"
    using left_loop [of k st p m b] room d(2) by simp
  have "memcpy_in (blit b (k * st) ?mv) (k * (st + m)) ?tm = Some (blit b (k * st) (?mv @ ?tm))"
    using r lt by (simp add: memcpy_in_def blit_blit_adjacent distrib_left mult.commute)
  also have "?mv @ ?tm = rotate (k * p) ?seg"
  proof -
    have "length ?seg = k * p + k * m" unfolding segment_def d(1) using r by (simp add: distrib_left)
    then have "rotate (k * p) ?seg = drop (k * p) ?seg @ take (k * p) ?seg" by (simp add: rotate_split)
    moreover have "drop (k * p) ?seg = ?mv" unfolding segment_def d(1)
      by (simp add: drop_take distrib_left add.commute)
    moreover have "take (k * p) ?seg = ?tm" unfolding segment_def d(1) by (simp add: distrib_left mult.commute)
    ultimately show ?thesis by simp
  qed
  finally show ?thesis using assms t lp n by (simp add: tdl_pixel_left_shift_def)
qed

text \<open>A shift to the right undoes a shift to the left by as many pixels.\<close>

lemma segment_blit:
  assumes "length ys = k * (e + 1 - st)" and "k * (e + 1) \<le> length b" and "st \<le> e"
  shows "segment k (blit b (k * st) ys) st e = ys"
    and "length (blit b (k * st) ys) = length b"
    and "length zs = length ys \<Longrightarrow> blit (blit b (k * st) ys) (k * st) zs = blit b (k * st) zs"
proof -
  have "k * st + k * (e + 1 - st) = k * (e + 1)" using assms(3) by (simp add: distrib_left [symmetric])
  then have r: "k * st + length ys \<le> length b" using assms(1,2) by simp
  show "segment k (blit b (k * st) ys) st e = ys"
    unfolding segment_def assms(1) [symmetric] using r by (simp add: blit_def)
  show "length (blit b (k * st) ys) = length b" using r by simp
  show "length zs = length ys \<Longrightarrow> blit (blit b (k * st) ys) (k * st) zs = blit b (k * st) zs"
    using r by (simp add: blit_def)
qed

lemma blit_segment:
  assumes "k * (e + 1) \<le> length b" and "st \<le> e"
  shows "blit b (k * st) (segment k b st e) = b" and "length (segment k b st e) = k * (e + 1 - st)"
proof -
  have "k * st + k * (e + 1 - st) = k * (e + 1)" using assms(2) by (simp add: distrib_left [symmetric])
  with assms(1) show l: "length (segment k b st e) = k * (e + 1 - st)"
    unfolding segment_def by (intro length_take_drop) simp
  show "blit b (k * st) (segment k b st e) = b"
    unfolding blit_def l by (simp add: segment_def) (metis add.commute append_take_drop_id drop_drop)
qed

lemma right_undoes_left:
  assumes "st < e" and "p \<le> e - st" and room: "k * (e + 1) \<le> length b"
  shows "do { (r, b) \<leftarrow> tdl_pixel_left_shift True (Some b) k (int st) (int e) (int p);
      tdl_pixel_right_shift True b k (int st) (int e) (int p) } = Some (OPRT_OK, Some b)"
proof -
  let ?seg = "segment k b st e" and ?n = "e + 1 - st"
  have se: "st \<le> e" using assms(1) by simp
  note bs = blit_segment [OF room se]
  have lr: "length (rotate (k * p) ?seg) = k * ?n" using bs(2) by simp
  note sb = segment_blit [OF lr room se]
  have e: "k * (?n - p) + k * p = k * ?n" using assms by (simp add: distrib_left [symmetric])
  have "rotate (k * (?n - p)) (rotate (k * p) ?seg) = ?seg"
    unfolding rotate_rotate e bs(2) [symmetric] by (simp add: rotate_id)
  with bs(1) left_shift_rotate [OF assms] right_shift_rotate [OF assms(1,2), of k "blit b (k * st) (rotate (k * p) ?seg)"]
    sb room show ?thesis by simp
qed

section \<open>The operations on a strip\<close>

lemma px_wf_put:
  assumes "px_wf device" and "length b = color_num device * pixel_num device"
  shows "px_wf (put_buffer device (Some b))"
  using assms unfolding px_wf_def put_buffer_def by (clarsimp simp: mult.commute)

lemma put_buffer_simps [simp]:
  "pixel_buffer (put_buffer device b) = b" "color_num (put_buffer device b) = color_num device"
  "pixel_num (put_buffer device b) = pixel_num device" "pixel_color (put_buffer device b) = pixel_color device"
  "pixel_resolution (put_buffer device b) = pixel_resolution device" "color_maximum (put_buffer device b) = color_maximum device"
  "is_start (put_buffer device b) = is_start device"
  "cells_at (put_buffer device b) = cells_at device" "px_un (put_buffer device b) = px_un device"
  "pixel_cells (put_buffer device b) = pixel_cells device"
  by (simp_all add: put_buffer_def cells_at_def px_un_def px_sc_def pixel_cells_def fun_eq_iff)

lemma set_pixels_cells:
  assumes wf: "px_wf device" and r: "first + count \<le> pixel_num device" and b: "length b = color_num device * pixel_num device"
    and col: "\<And>i. i < count \<Longrightarrow> col i = Some (c i)"
  shows "\<exists>b'. set_pixels device first count col (Some b) = Some (Some b') \<and> length b' = length b \<and>
    (\<forall>j < pixel_num device. cells_at device b' j =
      (if first \<le> j \<and> j < first + count then pixel_cells device (c (j - first)) else cells_at device b j))"
proof -
  let ?cs = "concat (map (\<lambda>i. pixel_cells device (c i)) [0..<count])"
  have lp: "length (pixel_cells device x) = color_num device" for x using wf by (simp add: pixel_cells_def px_wf_def)
  then have "length ?cs = color_num device * count" by (induction count) auto
  moreover have "color_num device * first + color_num device * count \<le> length b"
    using r b by (simp add: distrib_left [symmetric])
  ultimately have "length (blit b (color_num device * first) ?cs) = length b" by simp
  with set_pixels_eq [OF wf r b col] blit_cells_at [OF wf b r, of "\<lambda>i. pixel_cells device (c i)"] lp
  show ?thesis by simp
qed

text \<open>How close a colour that was read is to the colour that was set, channel by channel.\<close>

definition channel_close :: "'h PIXEL_DEV_NODE_T \<Rightarrow> u16 \<Rightarrow> u16 \<Rightarrow> bool" where
  "channel_close device v v' \<longleftrightarrow> unat v' \<le> unat v \<and>
     (unat v - unat v') * color_maximum device < pixel_resolution device + color_maximum device"


lemma channel_close_put [simp]: "channel_close (put_buffer device b) = channel_close device"
  by (simp add: channel_close_def fun_eq_iff)


text \<open>A colour on a background: the pixels of the range hold the colour and all others the
  background.\<close>

theorem set_color_with_backcolor:
  assumes wf: "px_wf device" and r: "first + count \<le> pixel_num device" "0 < count"
  shows "\<exists>device' b'. tdl_pixel_set_single_color_with_backcolor (Some device) first count (Some bc) (Some c)
      = Some (OPRT_OK, Some device') \<and> px_wf device' \<and> pixel_buffer device' = Some b' \<and>
    (\<forall>j < pixel_num device. cells_at device b' j =
      (if first \<le> j \<and> j < first + count then pixel_cells device c else pixel_cells device bc))"
proof -
  obtain b where b: "pixel_buffer device = Some b" "length b = color_num device * pixel_num device"
    using px_wfD(2) [OF wf] by blast
  obtain b1 where b1: "set_pixels device 0 (pixel_num device) (\<lambda>_. Some bc) (Some b) = Some (Some b1)" "length b1 = length b"
    "\<forall>j < pixel_num device. cells_at device b1 j = pixel_cells device bc"
    using set_pixels_cells [OF wf _ b(2), of 0 "pixel_num device" "\<lambda>_. Some bc" "\<lambda>_. bc"] by auto
  obtain b2 where b2: "set_pixels device first count (\<lambda>_. Some c) (Some b1) = Some (Some b2)" "length b2 = length b1"
    "\<forall>j < pixel_num device. cells_at device b2 j =
      (if first \<le> j \<and> j < first + count then pixel_cells device c else cells_at device b1 j)"
    using set_pixels_cells [OF wf r(1), of b1 "\<lambda>_. Some c" "\<lambda>_. c"] b1(2) b(2) by auto
  have "px_wf (put_buffer device (Some b2))" using px_wf_put [OF wf] b b1 b2 by simp
  with range_ok [OF wf r] px_wfD(1) [OF wf] b b1 b2 show ?thesis
    by (simp add: tdl_pixel_set_single_color_with_backcolor_def)
qed

lemma as_int_small: "px_wf device \<Longrightarrow> n < pixel_num device \<Longrightarrow> as_int n = int n"
  using px_num_less [of device] by (simp add: as_int_def)

lemma segment_room:
  assumes "px_wf device" and "e < pixel_num device" and "length b = color_num device * pixel_num device"
  shows "color_num device * (e + 1) \<le> length b"
  unfolding assms(3) using assms(2) by (intro mult_le_mono2) simp

text \<open>C34: A cyclic shift to the left by \<open>p\<close> pixels rotates the cells of the range by \<open>p\<close> pixels and
  leaves all other cells alone; a shift to the right by as many pixels then restores the strip.\<close>

theorem cycle_shift_rotates:
  assumes wf: "px_wf device" and e: "e < pixel_num device" and st: "st < e" and p: "p \<le> e - st"
    and b: "pixel_buffer device = Some b"
  shows "\<exists>device'. tdl_pixel_cycle_shift_color True (Some device) PIXEL_SHIFT_LEFT st e p = Some (OPRT_OK, Some device') \<and>
    pixel_buffer device' = Some (blit b (color_num device * st) (rotate (color_num device * p) (segment (color_num device) b st e))) \<and>
    tdl_pixel_cycle_shift_color True (Some device') PIXEL_SHIFT_RIGHT st e p = Some (OPRT_OK, Some device)"
proof -
  let ?k = "color_num device"
  have lb: "length b = ?k * pixel_num device" using px_wfD(2) [OF wf] b by auto
  note room = segment_room [OF wf e lb]
  have a: "as_int st = int st" "as_int e = int e" "as_int p = int p"
    using as_int_small [OF wf] e st p by simp_all
  let ?b = "blit b (?k * st) (rotate (?k * p) (segment ?k b st e))"
  note l = left_shift_rotate [OF st p room]
  have "tdl_pixel_right_shift True (Some ?b) ?k (int st) (int e) (int p) = Some (OPRT_OK, Some b)"
    using right_undoes_left [OF st p room] l by simp
  moreover have "put_buffer (put_buffer device (Some ?b)) (Some b) = device" using b by (simp add: put_buffer_def)
  ultimately show ?thesis
    using l px_wfD(1) [OF wf] e st b a by (simp add: tdl_pixel_cycle_shift_color_def)
qed

lemma segment_blit_above:
  "length ys = k * h \<Longrightarrow> k * (st + h) \<le> length b \<Longrightarrow> segment k (blit b (k * st) ys) (st + h) e = segment k b (st + h) e"
  unfolding segment_def by (rule take_drop_blit_above) (simp_all add: distrib_left)

text \<open>A mirrored shift towards the middle rotates the first half of the range to the right and the
  second half to the left; a middle pixel of an odd range and all pixels outside keep their colour.\<close>

theorem mirror_shift_close:
  assumes wf: "px_wf device" and e: "e < pixel_num device" and h: "h = (e + 1 - st) div 2" "2 \<le> h" and p: "p < h"
    and b: "pixel_buffer device = Some b" and b1: "b1 = blit b (color_num device * st)
      (rotate (color_num device * (h - p)) (segment (color_num device) b st (st + h - 1)))"
  shows "\<exists>device'. tdl_pixel_mirror_cycle_shift_color True True (Some device) PIXEL_SHIFT_CLOSE st e p
      = Some (OPRT_OK, Some device') \<and>
    pixel_buffer device' = Some (blit b1 (color_num device * (st + h))
      (rotate (color_num device * p) (segment (color_num device) b (st + h) (st + 2 * h - 1))))"
proof -
  let ?k = "color_num device"
  have lb: "length b = ?k * pixel_num device" using px_wfD(2) [OF wf] b by auto
  have se: "st + 2 * h \<le> e + 1" "st < e" using h by auto
  have room: "?k * (st + 2 * h) \<le> length b" unfolding lb using se e by (intro mult_le_mono2) simp
  have room1: "?k * (st + h - 1 + 1) \<le> length b"
    by (rule order_trans [OF mult_le_mono2 room]) (use h in simp)
  let ?s1 = "segment ?k b st (st + h - 1)"
  have ls: "length ?s1 = ?k * h" using blit_segment(2) [OF room1, of st] h by simp
  have lb1: "length b1 = length b" unfolding b1
    using room ls by (simp add: distrib_left)
  have seg: "segment ?k b1 (st + h) (st + 2 * h - 1) = segment ?k b (st + h) (st + 2 * h - 1)"
    unfolding b1 by (rule segment_blit_above) (use ls room in \<open>simp_all add: distrib_left\<close>)
  have r: "tdl_pixel_right_shift True (Some b) ?k (int st) (int (st + h - 1)) (int p) = Some (OPRT_OK, Some b1)"
    using right_shift_rotate [of st "st + h - 1" p ?k b] room1 h(2) p b1 by (simp del: of_nat_diff of_nat_add)
  have l: "tdl_pixel_left_shift True (Some b1) ?k (int (st + h)) (int (st + 2 * h - 1)) (int p) =
      Some (OPRT_OK, Some (blit b1 (?k * (st + h)) (rotate (?k * p) (segment ?k b (st + h) (st + 2 * h - 1)))))"
    using left_shift_rotate [of "st + h" "st + 2 * h - 1" p ?k b1] room h(2) p lb1 seg by (simp del: of_nat_diff of_nat_add)
  have a: "as_int st = int st" "as_int p = int p" "as_int (st + h - 1) = int (st + h - 1)"
    "as_int (st + h) = int (st + h)" "as_int (st + 2 * h - 1) = int (st + 2 * h - 1)"
    by (rule as_int_small [OF wf]; use se e h p in linarith)+
  have "cut32 (e - st + 1) div 2 = h" using h(1) se e px_num_less [OF wf] by (simp add: Suc_diff_le)
  with px_wfD(1) [OF wf] e se b a r l show ?thesis
    by (simp add: tdl_pixel_mirror_cycle_shift_color_def Let_def del: of_nat_add of_nat_diff)
qed

text \<open>Copying \<open>len\<close> pixels, also onto an overlapping range, puts the old cells of the source range
  at the destination and leaves all other cells alone.\<close>

theorem copy_color_moves:
  assumes wf: "px_wf device" and len: "0 < len" and src: "src + len \<le> pixel_num device" and dst: "dst + len \<le> pixel_num device"
    and b: "pixel_buffer device = Some b"
  shows "\<exists>b'. tdl_pixel_copy_color (Some device) dst src len = Some (OPRT_OK, Some (put_buffer device (Some b'))) \<and>
    (\<forall>j < pixel_num device. cells_at device b' j =
      (if dst \<le> j \<and> j < dst + len then cells_at device b (src + (j - dst)) else cells_at device b j))"
proof -
  let ?k = "color_num device"
  have lb: "length b = ?k * pixel_num device" using px_wfD(2) [OF wf] b by auto
  have rm: "?k * i + ?k * len \<le> length b" if "i + len \<le> pixel_num device" for i
    unfolding lb using that by (simp add: distrib_left [symmetric])
  have "?k * 2 * len < 4294967296" using rm [OF src] px_wfD(5) [OF wf] lb by linarith
  then have c: "cut32 (?k * 2 * len) div 2 = ?k * len" by simp
  have i: "cut32 (src * ?k) = ?k * src" "cut32 (dst * ?k) = ?k * dst"
    using index_fits(1) [OF wf, of src] index_fits(1) [OF wf, of dst] src dst len by (simp_all add: mult.commute)
  have px: "take (?k * len) (drop (?k * src) b) = concat (map (\<lambda>i. cells_at device b (src + i)) [0..<len])"
    using src
  proof (induction len)
    case (Suc n)
    have "take (?k * Suc n) (drop (?k * src) b) = take (?k * n) (drop (?k * src) b) @ take ?k (drop (?k * src + ?k * n) b)"
      by (simp add: take_drop_append add.commute [of ?k])
    with Suc show ?case by (simp add: cells_at_def distrib_left)
  qed simp
  have lc: "length (cells_at device b (src + i)) = ?k" if "i < len" for i
    using index_fits(2) [OF wf, of "src + i"] that src lb by (simp add: cells_at_def)
  have ok: "memcpy_out b (?k * src) (?k * len) = Some (take (?k * len) (drop (?k * src) b))"
    using rm [OF src] by (simp add: memcpy_out_def)
  have "memcpy_in b (?k * dst) (take (?k * len) (drop (?k * src) b)) =
      Some (blit b (?k * dst) (take (?k * len) (drop (?k * src) b)))"
    using rm [OF src] rm [OF dst] by (simp add: memcpy_in_def)
  with ok c i b len src dst px_wfD(1) [OF wf] px_num_less [OF wf]
  have "tdl_pixel_copy_color (Some device) dst src len =
      Some (OPRT_OK, Some (put_buffer device (Some (blit b (?k * dst) (take (?k * len) (drop (?k * src) b))))))"
    by (simp add: tdl_pixel_copy_color_def)
  with blit_cells_at [OF wf lb dst lc] show ?thesis unfolding px by auto
qed

lemma upt_split: "a < N \<Longrightarrow> [0..<N] = [0..<a] @ a # [Suc a..<N]"
  using upt_add_eq_append [of 0 a "N - a"] by (simp add: upt_conv_Cons)

lemma set_pixels_overrun:
  assumes wf: "px_wf device" and b: "length b = color_num device * pixel_num device"
    and N: "pixel_num device < first + N" "first \<le> pixel_num device"
  shows "set_pixels device first N (\<lambda>_. Some c) (Some b) = None"
proof -
  let ?n = "pixel_num device - first"
  obtain b' where b': "set_pixels device first ?n (\<lambda>_. Some c) (Some b) = Some (Some b')" "length b' = length b"
    using set_pixels_cells [OF wf, of first ?n b "\<lambda>_. Some c" "\<lambda>_. c"] b N(2) by auto
  have "[0..<N] = [0..<?n] @ ?n # [Suc ?n..<N]" by (rule upt_split) (use N in simp)
  moreover obtain v vs where ch: "channels (pixel_color device) c = v # vs"
    using px_wfD(4) [OF wf] wf length_channels [of "pixel_color device" c]
    by (cases "channels (pixel_color device) c") (auto simp: px_wf_def)
  have "static_tdl_pixel_set_color device (Some b') (pixel_color device) (color_num device) (cut32 (first + ?n)) c = None"
    using N px_num_less [OF wf] px_wfD(5) [OF wf] b b'(2) ch px_wfD(6) [OF wf]
    by (simp add: static_tdl_pixel_set_color_def px_scale_def wr_def)
  ultimately show ?thesis using b' unfolding set_pixels_def by (simp add: foldM_append)
qed

text \<open>The range check adds in 32 bits: a range from pixel 1 on whose length makes the sum wrap to
  zero passes it, and the loop leaves the buffer.\<close>

theorem set_color_range_wraps:
  assumes wf: "px_wf device" and n: "1 < pixel_num device"
  shows "tdl_pixel_set_single_color (Some device) 1 4294967295 (Some c) = None"
proof -
  obtain b where b: "pixel_buffer device = Some b" "length b = color_num device * pixel_num device"
    using px_wfD(2) [OF wf] by blast
  have "set_pixels device 1 4294967295 (\<lambda>_. Some c) (Some b) = None"
    by (rule set_pixels_overrun [OF wf b(2)]) (use n px_num_less [OF wf] in simp_all)
  moreover have "\<not> range_bad device 1 4294967295" using n by (simp add: range_bad_def cut32_def)
  ultimately show ?thesis using px_wfD(1) [OF wf] b by (simp add: tdl_pixel_set_single_color_def)
qed

section \<open>A concrete strip\<close>

definition ex_px :: "pixel_drv PIXEL_DEV_NODE_T" where
  "ex_px = ex_led\<lparr>is_start := True, pixel_num := 4, pixel_resolution := 1000,
     pixel_buffer := Some [1, 2, 3, 4, 5, 6, 7, 8, 9, 10, 11, 12], pixel_buffer_len := 12\<rparr>"

definition ex_color :: PIXEL_COLOR_T where
  "ex_color = \<lparr>red = 1000, green = 500, blue = 1, cold = 0, warm = 0\<rparr>"

lemma ex_px_wf: "px_wf ex_px"
  by (simp add: px_wf_def ex_px_def ex_led_def chan_num_def)


theorem set_color_with_backcolor_witness:
  "\<exists>device' b'. tdl_pixel_set_single_color_with_backcolor (Some ex_px) 3 1 (Some ex_color) (Some ex_color)
      = Some (OPRT_OK, Some device') \<and> pixel_buffer device' = Some b' \<and> cells_at ex_px b' 0 = pixel_cells ex_px ex_color"
proof -
  have d: "pixel_num ex_px = 4" by (simp add: ex_px_def)
  show ?thesis using set_color_with_backcolor [OF ex_px_wf, of 3 1 ex_color ex_color, unfolded d] by fastforce
qed

theorem cycle_shift_rotates_witness:
  "\<exists>device'. tdl_pixel_cycle_shift_color True (Some ex_px) PIXEL_SHIFT_LEFT 1 3 1 = Some (OPRT_OK, Some device') \<and>
    pixel_buffer device' = Some [1, 2, 3, 7, 8, 9, 10, 11, 12, 4, 5, 6]"
proof -
  have d: "pixel_num ex_px = 4" "color_num ex_px = 3" "pixel_buffer ex_px = Some [1, 2, 3, 4, 5, 6, 7, 8, 9, 10, 11, 12]"
    by (simp_all add: ex_px_def ex_led_def)
  have "blit [1, 2, 3, 4, 5, 6, 7, 8, 9, 10, 11, 12] (3 * 1) (rotate (3 * 1)
      (segment 3 [1, 2, 3, 4, 5, 6, 7, 8, 9, 10, 11, 12] 1 3)) = [1, 2, 3, 7, 8, 9, 10, 11, 12, 4, 5, 6]" by code_simp
  then show ?thesis using cycle_shift_rotates [OF ex_px_wf _ _ _ d(3), of 3 1 1] d(1,2) by auto
qed

theorem mirror_shift_close_witness:
  "\<exists>device'. tdl_pixel_mirror_cycle_shift_color True True (Some ex_px) PIXEL_SHIFT_CLOSE 0 3 1
      = Some (OPRT_OK, Some device') \<and>
    pixel_buffer device' = Some [4, 5, 6, 1, 2, 3, 10, 11, 12, 7, 8, 9]"
proof -
  have d: "pixel_num ex_px = 4" "color_num ex_px = 3" "pixel_buffer ex_px = Some [1, 2, 3, 4, 5, 6, 7, 8, 9, 10, 11, 12]"
    by (simp_all add: ex_px_def ex_led_def)
  let ?b = "[1, 2, 3, 4, 5, 6, 7, 8, 9, 10, 11, 12] :: u16 list"
  have "blit (blit ?b (3 * 0) (rotate (3 * (2 - 1)) (segment 3 ?b 0 (0 + 2 - 1)))) (3 * (0 + 2))
      (rotate (3 * 1) (segment 3 ?b (0 + 2) (0 + 2 * 2 - 1))) = [4, 5, 6, 1, 2, 3, 10, 11, 12, 7, 8, 9]" by code_simp
  then show ?thesis using mirror_shift_close [OF ex_px_wf _ _ _ _ d(3) refl, of 3 2 0 1] d(1,2) by simp
qed

theorem copy_color_moves_witness:
  "\<exists>b'. tdl_pixel_copy_color (Some ex_px) 1 0 3 = Some (OPRT_OK, Some (put_buffer ex_px (Some b'))) \<and>
    cells_at ex_px b' 3 = [7, 8, 9]"
proof -
  have d: "pixel_num ex_px = 4" "pixel_buffer ex_px = Some [1, 2, 3, 4, 5, 6, 7, 8, 9, 10, 11, 12]" by (simp_all add: ex_px_def)
  have c: "cells_at ex_px [1, 2, 3, 4, 5, 6, 7, 8, 9, 10, 11, 12] 2 = [7, 8, 9]"
    by (simp add: cells_at_def ex_px_def ex_led_def)
  obtain b' where "tdl_pixel_copy_color (Some ex_px) 1 0 3 = Some (OPRT_OK, Some (put_buffer ex_px (Some b')))"
    "\<forall>j < 4. cells_at ex_px b' j = (if 1 \<le> j \<and> j < 1 + 3 then cells_at ex_px [1, 2, 3, 4, 5, 6, 7, 8, 9, 10, 11, 12] (0 + (j - 1))
       else cells_at ex_px [1, 2, 3, 4, 5, 6, 7, 8, 9, 10, 11, 12] j)"
    using copy_color_moves [OF ex_px_wf, of 3 0 1, unfolded d] by auto
  from this(1) this(2) [rule_format, of 3] c show ?thesis by (auto simp: numeral_2_eq_2)
qed

theorem set_color_range_wraps_witness: "tdl_pixel_set_single_color (Some ex_px) 1 4294967295 (Some ex_color) = None"
  by (rule set_color_range_wraps [OF ex_px_wf]) (simp add: ex_px_def)

end
