(* ===== verification/Dimmer_Dev.thy ===== *)
theory Dimmer_Dev
  imports Tuya_Prelude
begin

text \<open>
  The dimmer device manager, \<^verbatim>\<open>tdl_dimmer_manage.c\<close>: a list of registered dimmers, scaling from the
  application's resolution to the driver's, and the colour temperature rule of CCT drivers. A pointer that may be
  null is an option; \<open>'h\<close> is what a driver keeps behind its handle, \<open>'w\<close> the hardware it drives. The
  mutex only orders callers, so a call is one step.
\<close>

section \<open>Data\<close>

record LIGHT_RGBCW_T =
  s_red :: u16
  s_green :: u16
  s_blue :: u16
  s_cold :: u16
  s_warm :: u16

text \<open>The array side of the union \<^verbatim>\<open>LIGHT_RGBCW_U\<close>.\<close>

definition rgbcw_array :: "LIGHT_RGBCW_T \<Rightarrow> u16 list" where
  "rgbcw_array c = [s_red c, s_green c, s_blue c, s_cold c, s_warm c]"

record ('h, 'w) DIMMER_DRV_INTFS_T =
  di_open :: "('h option \<Rightarrow> 'w \<Rightarrow> (OPERATE_RET \<times> 'h option \<times> 'w) option) option"
  di_close :: "('h option \<Rightarrow> 'w \<Rightarrow> (OPERATE_RET \<times> 'h option \<times> 'w) option) option"
  di_output :: "('h option \<Rightarrow> LIGHT_RGBCW_T option \<Rightarrow> 'w \<Rightarrow> (OPERATE_RET \<times> 'h option \<times> 'w) option) option"

record ('h, 'w) DIMMER_NODE_T =
  dim_name :: string
  app_resolution :: u16
  rgbcw :: LIGHT_RGBCW_T
  drv_type :: u8
  drv_resolution :: u16
  dim_handle :: "'h option"
  dim_intfs :: "('h, 'w) DIMMER_DRV_INTFS_T"
  output_rgbcw :: LIGHT_RGBCW_T

abbreviation (input) LIGHT_NAME_MAX_LEN :: nat where "LIGHT_NAME_MAX_LEN \<equiv> 16"
abbreviation (input) DIMMER_DRIVER_PWM_CW :: u8 where "DIMMER_DRIVER_PWM_CW \<equiv> 0"
abbreviation (input) DIMMER_DRIVER_PWM_CCT :: u8 where "DIMMER_DRIVER_PWM_CCT \<equiv> 1"
abbreviation (input) DIMMER_DRIVER_IIC :: u8 where "DIMMER_DRIVER_IIC \<equiv> 2"

abbreviation (input) rgbcw_zero :: LIGHT_RGBCW_T where
  "rgbcw_zero \<equiv> \<lparr>s_red = 0, s_green = 0, s_blue = 0, s_cold = 0, s_warm = 0\<rparr>"

section \<open>Registration and lookup\<close>

definition static_tdl_dimmer_find :: "('h, 'w) DIMMER_NODE_T list \<Rightarrow> string option \<Rightarrow> nat option" where
  "static_tdl_dimmer_find list name =
     (case name of None \<Rightarrow> None | Some nm \<Rightarrow> find_index (\<lambda>n. nm = dim_name n) list)"

text \<open>\<open>malloc\<close>: the allocation of the node succeeds; \<open>mutex\<close>: what creating its mutex returns.\<close>

definition static_tdl_dimmer_register ::
  "bool \<Rightarrow> OPERATE_RET \<Rightarrow> ('h, 'w) DIMMER_NODE_T list \<Rightarrow> string \<Rightarrow> ('h, 'w) DIMMER_DRV_INTFS_T \<Rightarrow> u8 \<Rightarrow> u16 \<Rightarrow> 'h option
     \<Rightarrow> OPERATE_RET \<times> ('h, 'w) DIMMER_NODE_T list" where
  "static_tdl_dimmer_register malloc mutex list name intfs tp drv_res hdl =
     (if static_tdl_dimmer_find list (Some name) \<noteq> None then (OPRT_COM_ERROR, list)
      else if \<not> malloc then (OPRT_MALLOC_FAILED, list)
      else if mutex \<noteq> OPRT_OK then (mutex, list)
      else (OPRT_OK, list @
        [\<lparr>dim_name = take LIGHT_NAME_MAX_LEN name, app_resolution = 0, rgbcw = rgbcw_zero, drv_type = tp,
          drv_resolution = drv_res, dim_handle = hdl, dim_intfs = intfs, output_rgbcw = rgbcw_zero\<rparr>]))"

definition tdl_dimmer_register ::
  "bool \<Rightarrow> OPERATE_RET \<Rightarrow> ('h, 'w) DIMMER_NODE_T list \<Rightarrow> string option \<Rightarrow> ('h, 'w) DIMMER_DRV_INTFS_T option \<Rightarrow> u16 \<Rightarrow> u8
     \<Rightarrow> 'h option \<Rightarrow> OPERATE_RET \<times> ('h, 'w) DIMMER_NODE_T list" where
  "tdl_dimmer_register malloc mutex list name p_intfs drv_res tp hdl =
     (case (name, p_intfs) of
        (Some nm, Some i) \<Rightarrow>
          if hdl = None \<or> di_open i = None \<or> di_close i = None \<or> di_output i = None then (OPRT_INVALID_PARM, list)
          else static_tdl_dimmer_register malloc mutex list nm i tp drv_res hdl
      | _ \<Rightarrow> (OPRT_INVALID_PARM, list))"

definition tdl_dimmer_find :: "('h, 'w) DIMMER_NODE_T list \<Rightarrow> string option \<Rightarrow> OPERATE_RET \<times> nat option" where
  "tdl_dimmer_find list name =
     (case static_tdl_dimmer_find list name of
        None \<Rightarrow> (OPRT_COM_ERROR, None)
      | Some h \<Rightarrow> (OPRT_OK, Some h))"

section \<open>Opening and closing\<close>

text \<open>A call through a function pointer of the node; calling a null pointer is undefined.\<close>

definition drv_call ::
  "('h option \<Rightarrow> 'w \<Rightarrow> (OPERATE_RET \<times> 'h option \<times> 'w) option) option \<Rightarrow> ('h, 'w) DIMMER_NODE_T \<Rightarrow> 'w
     \<Rightarrow> (OPERATE_RET \<times> ('h, 'w) DIMMER_NODE_T \<times> 'w) option" where
  "drv_call fp device w = do {
     f \<leftarrow> fp;
     (r, h, w) \<leftarrow> f (dim_handle device) w;
     Some (r, device\<lparr>dim_handle := h\<rparr>, w) }"

definition static_tdl_dimmer_open ::
  "('h, 'w) DIMMER_NODE_T \<Rightarrow> u16 \<Rightarrow> 'w \<Rightarrow> (OPERATE_RET \<times> ('h, 'w) DIMMER_NODE_T \<times> 'w) option" where
  "static_tdl_dimmer_open device app_res w =
     (let device = device\<lparr>app_resolution := app_res\<rparr> in drv_call (di_open (dim_intfs device)) device w)"

definition static_tdl_dimmer_close ::
  "('h, 'w) DIMMER_NODE_T \<Rightarrow> 'w \<Rightarrow> (OPERATE_RET \<times> ('h, 'w) DIMMER_NODE_T \<times> 'w) option" where
  "static_tdl_dimmer_close device w = drv_call (di_close (dim_intfs device)) device w"

definition tdl_dimmer_open ::
  "('h, 'w) DIMMER_NODE_T option \<Rightarrow> u16 \<Rightarrow> 'w \<Rightarrow> (OPERATE_RET \<times> ('h, 'w) DIMMER_NODE_T option \<times> 'w) option" where
  "tdl_dimmer_open handle app_res w =
     (case handle of
        None \<Rightarrow> Some (OPRT_INVALID_PARM, None, w)
      | Some device \<Rightarrow> do { (r, device, w) \<leftarrow> static_tdl_dimmer_open device app_res w; Some (r, Some device, w) })"

definition tdl_dimmer_close ::
  "('h, 'w) DIMMER_NODE_T option \<Rightarrow> 'w \<Rightarrow> (OPERATE_RET \<times> ('h, 'w) DIMMER_NODE_T option \<times> 'w) option" where
  "tdl_dimmer_close handle w =
     (case handle of
        None \<Rightarrow> Some (OPRT_INVALID_PARM, None, w)
      | Some device \<Rightarrow> do { (r, device, w) \<leftarrow> static_tdl_dimmer_close device w; Some (r, Some device, w) })"

section \<open>Output\<close>

text \<open>
  One channel: the product is computed in the 32-bit \<^verbatim>\<open>int\<close> that both 16-bit factors are promoted to,
  and its overflow is undefined. The division is reached only for a value below the application's
  resolution, which is then not 0: at resolution 0 every unsigned value takes the first branch.
\<close>

definition output_channel :: "u16 \<Rightarrow> u16 \<Rightarrow> u16 \<Rightarrow> u16 option" where
  "output_channel app_res drv_res v =
     (if v \<ge> app_res then Some drv_res
      else if unat v * unat drv_res > 2147483647 then None
      else Some (of_nat (unat v * unat drv_res div unat app_res)))"

definition scale_rgbcw :: "u16 \<Rightarrow> u16 \<Rightarrow> LIGHT_RGBCW_T \<Rightarrow> LIGHT_RGBCW_T option" where
  "scale_rgbcw app_res drv_res c = do {
     r \<leftarrow> output_channel app_res drv_res (s_red c);
     g \<leftarrow> output_channel app_res drv_res (s_green c);
     b \<leftarrow> output_channel app_res drv_res (s_blue c);
     k \<leftarrow> output_channel app_res drv_res (s_cold c);
     m \<leftarrow> output_channel app_res drv_res (s_warm c);
     Some \<lparr>s_red = r, s_green = g, s_blue = b, s_cold = k, s_warm = m\<rparr> }"

definition static_tdl_dimmer_output ::
  "('h, 'w) DIMMER_NODE_T \<Rightarrow> LIGHT_RGBCW_T \<Rightarrow> 'w \<Rightarrow> (OPERATE_RET \<times> ('h, 'w) DIMMER_NODE_T \<times> 'w) option" where
  "static_tdl_dimmer_output device c w = do {
     out \<leftarrow> scale_rgbcw (app_resolution device) (drv_resolution device) c;
     let device = device\<lparr>output_rgbcw := out\<rparr>;
     f \<leftarrow> di_output (dim_intfs device);
     (r, h, w) \<leftarrow> f (dim_handle device) (Some out) w;
     Some (r, device\<lparr>dim_handle := h\<rparr>, w) }"

definition tdl_get_cct_warm :: "LIGHT_RGBCW_T \<Rightarrow> LIGHT_RGBCW_T \<Rightarrow> LIGHT_RGBCW_T \<Rightarrow> LIGHT_RGBCW_T" where
  "tdl_get_cct_warm src target cur =
     (if s_cold src = 0 \<and> s_cold target \<noteq> 0 then cur\<lparr>s_warm := s_warm target\<rparr>
      else if s_cold src \<noteq> 0 \<and> s_cold target = 0 then cur\<lparr>s_warm := s_warm src\<rparr>
      else cur)"

definition tdl_dimmer_output ::
  "('h, 'w) DIMMER_NODE_T option \<Rightarrow> LIGHT_RGBCW_T option \<Rightarrow> 'w
     \<Rightarrow> (OPERATE_RET \<times> ('h, 'w) DIMMER_NODE_T option \<times> 'w) option" where
  "tdl_dimmer_output handle p_rgbcw w =
     (case (handle, p_rgbcw) of
        (Some device, Some c) \<Rightarrow> do {
          let last_rgbcw = rgbcw device;
          let device = device\<lparr>rgbcw := c\<rparr>;
          let device = (if drv_type device = DIMMER_DRIVER_PWM_CCT
            then device\<lparr>rgbcw := tdl_get_cct_warm last_rgbcw (rgbcw device) (rgbcw device)\<rparr> else device);
          (r, device, w) \<leftarrow> static_tdl_dimmer_output device (rgbcw device) w;
          Some (r, Some device, w) }
      | _ \<Rightarrow> Some (OPRT_INVALID_PARM, handle, w))"

definition tdl_dimmer_output_for_shade ::
  "('h, 'w) DIMMER_NODE_T option \<Rightarrow> LIGHT_RGBCW_T option \<Rightarrow> LIGHT_RGBCW_T option \<Rightarrow> LIGHT_RGBCW_T option \<Rightarrow> 'w
     \<Rightarrow> (OPERATE_RET \<times> ('h, 'w) DIMMER_NODE_T option \<times> 'w) option" where
  "tdl_dimmer_output_for_shade handle p_src p_curr p_target w =
     (case (handle, p_src, p_curr, p_target) of
        (Some device, Some src, Some cur, Some target) \<Rightarrow> do {
          let device = device\<lparr>rgbcw := cur\<rparr>;
          let device = (if drv_type device = DIMMER_DRIVER_PWM_CCT
            then device\<lparr>rgbcw := tdl_get_cct_warm src target (rgbcw device)\<rparr> else device);
          (r, device, w) \<leftarrow> static_tdl_dimmer_output device (rgbcw device) w;
          Some (r, Some device, w) }
      | _ \<Rightarrow> Some (OPRT_INVALID_PARM, handle, w))"

text \<open>The last two hand a value out through a pointer; \<open>out\<close>: the pointer is not null.\<close>

definition tdl_dimmer_get_current_rgbcw ::
  "('h, 'w) DIMMER_NODE_T option \<Rightarrow> bool \<Rightarrow> OPERATE_RET \<times> LIGHT_RGBCW_T option" where
  "tdl_dimmer_get_current_rgbcw handle out =
     (case handle of
        Some device \<Rightarrow> if out then (OPRT_OK, Some (rgbcw device)) else (OPRT_INVALID_PARM, None)
      | None \<Rightarrow> (OPRT_INVALID_PARM, None))"

definition tdl_dimmer_get_app_resolution ::
  "('h, 'w) DIMMER_NODE_T option \<Rightarrow> bool \<Rightarrow> OPERATE_RET \<times> u16 option" where
  "tdl_dimmer_get_app_resolution handle out =
     (case handle of
        Some device \<Rightarrow> if out then (OPRT_OK, Some (app_resolution device)) else (OPRT_INVALID_PARM, None)
      | None \<Rightarrow> (OPRT_INVALID_PARM, None))"

section \<open>Lookup after registration\<close>

definition dimmer_registered :: "string \<Rightarrow> ('h, 'w) DIMMER_NODE_T list \<Rightarrow> ('h, 'w) DIMMER_NODE_T list \<Rightarrow> bool" where
  "dimmer_registered nm l l' \<longleftrightarrow>
     (\<exists>m x i res tp h. tdl_dimmer_register m x l (Some nm) i res tp h = (OPRT_OK, l'))"

interpretation dimmer_registry: device_registry "map dim_name" "\<lambda>l nm. static_tdl_dimmer_find l (Some nm)"
  "\<lambda>nm. length nm \<le> LIGHT_NAME_MAX_LEN" dimmer_registered
proof unfold_locales
  fix s :: "('h, 'w) DIMMER_NODE_T list" and nm
  show "static_tdl_dimmer_find s (Some nm) = find_index ((=) nm) (map dim_name s)"
    by (simp add: static_tdl_dimmer_find_def find_index_map comp_def)
next
  fix nm and s s' :: "('h, 'w) DIMMER_NODE_T list"
  assume reg: "dimmer_registered nm s s'" and len: "length nm \<le> 16"
  then obtain m x i res tp h where "static_tdl_dimmer_register m x s nm i tp res h = (OPRT_OK, s')"
    by (auto simp: dimmer_registered_def tdl_dimmer_register_def split: option.splits if_splits)
  then have "find_index (\<lambda>n. nm = dim_name n) s = None" and "map dim_name s' = map dim_name s @ [nm]"
    using len by (auto simp: static_tdl_dimmer_register_def static_tdl_dimmer_find_def split: if_splits)
  then show "nm \<notin> set (map dim_name s) \<and> map dim_name s' = map dim_name s @ [nm]"
    by (auto simp: find_index_None)
qed

section \<open>Properties\<close>

lemma output_channel_in_range:
  assumes "unat drv_res \<le> 32768"
  shows "output_channel app_res drv_res v = Some (of_nat (if unat app_res \<le> unat v then unat drv_res else unat v * unat drv_res div unat app_res))"
proof -
  have "unat v * unat drv_res \<le> 65535 * 32768" using assms by (intro mult_le_mono) (auto simp: less_Suc_eq_le [symmetric])
  then show ?thesis by (simp add: output_channel_def word_le_nat_alt)
qed

text \<open>What is written to the driver stands to its resolution as the application's value to its own, rounded down.\<close>

lemma output_channel_scaled:
  assumes "unat drv_res \<le> 32768" and "0 < app_res"
  obtains u where "output_channel app_res drv_res v = Some u" "u \<le> drv_res"
    "v \<ge> app_res \<Longrightarrow> u = drv_res"
    "v \<le> app_res \<Longrightarrow> unat u * unat app_res \<le> unat v * unat drv_res \<and> unat v * unat drv_res < (unat u + 1) * unat app_res"
proof -
  define n where "n = (if unat app_res \<le> unat v then unat drv_res else unat v * unat drv_res div unat app_res)"
  have app: "0 < unat app_res" using assms(2) by (simp add: word_less_nat_alt)
  have "unat v * unat drv_res div unat app_res \<le> unat drv_res" if "unat v < unat app_res"
  proof -
    have "unat v * unat drv_res \<le> unat app_res * unat drv_res" using that by simp
    then have "unat v * unat drv_res div unat app_res \<le> unat app_res * unat drv_res div unat app_res" by (rule div_le_mono)
    then show ?thesis using app by simp
  qed
  then have n: "n \<le> unat drv_res" by (auto simp: n_def)
  then have u: "unat (of_nat n :: u16) = n" using assms(1) by (intro unat_of_nat_u16) simp
  have "unat (of_nat n :: u16) * unat app_res \<le> unat v * unat drv_res \<and>
      unat v * unat drv_res < (unat (of_nat n :: u16) + 1) * unat app_res" if "v \<le> app_res"
  proof (cases "unat app_res \<le> unat v")
    case True
    with that have "unat v = unat app_res" by (simp add: word_le_nat_alt)
    then show ?thesis using u app by (simp add: n_def mult.commute)
  next
    case False
    then have "n = unat v * unat drv_res div unat app_res" by (simp add: n_def)
    then show ?thesis
      using u app times_div_less_eq_dividend [of "unat app_res" "unat v * unat drv_res"]
        dividend_less_div_times [of "unat app_res" "unat v * unat drv_res"] by (simp add: ac_simps)
  qed
  with output_channel_in_range [OF assms(1), of app_res v] u n show thesis
    by (intro that [of "of_nat n"]) (auto simp: n_def word_le_nat_alt)
qed

definition scaled_ok :: "u16 \<Rightarrow> u16 \<Rightarrow> u16 \<Rightarrow> u16 \<Rightarrow> bool" where
  "scaled_ok app_res drv_res v u \<longleftrightarrow> u \<le> drv_res \<and> (v \<ge> app_res \<longrightarrow> u = drv_res)
     \<and> (v \<le> app_res \<longrightarrow> unat u * unat app_res \<le> unat v * unat drv_res
         \<and> unat v * unat drv_res < (unat u + 1) * unat app_res)"

lemma scale_rgbcw_ok:
  assumes "unat drv_res \<le> 32768" and "0 < app_res"
  obtains out where "scale_rgbcw app_res drv_res c = Some out" "length (rgbcw_array out) = 5"
    "\<And>i. i < 5 \<Longrightarrow> scaled_ok app_res drv_res (rgbcw_array c ! i) (rgbcw_array out ! i)"
proof -
  have ch: "\<exists>u. output_channel app_res drv_res v = Some u \<and> scaled_ok app_res drv_res v u" for v
    unfolding scaled_ok_def by (rule output_channel_scaled [OF assms, of v]) blast
  obtain r g b k m where out: "output_channel app_res drv_res (s_red c) = Some r" "scaled_ok app_res drv_res (s_red c) r"
      "output_channel app_res drv_res (s_green c) = Some g" "scaled_ok app_res drv_res (s_green c) g"
      "output_channel app_res drv_res (s_blue c) = Some b" "scaled_ok app_res drv_res (s_blue c) b"
      "output_channel app_res drv_res (s_cold c) = Some k" "scaled_ok app_res drv_res (s_cold c) k"
      "output_channel app_res drv_res (s_warm c) = Some m" "scaled_ok app_res drv_res (s_warm c) m"
    using ch by metis
  define o' where "o' = \<lparr>s_red = r, s_green = g, s_blue = b, s_cold = k, s_warm = m\<rparr>"
  have "scaled_ok app_res drv_res (rgbcw_array c ! i) (rgbcw_array o' ! i)" if "i < 5" for i
  proof -
    from that consider "i = 0" | "i = 1" | "i = 2" | "i = 3" | "i = 4" by linarith
    then show ?thesis using out by cases (simp_all add: rgbcw_array_def o'_def)
  qed
  then show thesis using out by (intro that [of o']) (simp_all add: scale_rgbcw_def rgbcw_array_def o'_def)
qed






lemma static_output_fields:
  assumes "static_tdl_dimmer_output device c w = Some (r, device', w')"
  shows "scale_rgbcw (app_resolution device) (drv_resolution device) c = Some (output_rgbcw device')"
    "rgbcw device' = rgbcw device" "drv_type device' = drv_type device"
    "app_resolution device' = app_resolution device" "drv_resolution device' = drv_resolution device"
  using assms by (auto simp: static_tdl_dimmer_output_def Let_def split: bind_splits)

lemma output_fields:
  assumes "tdl_dimmer_output (Some device) (Some c) w = Some (r, Some device', w')"
  shows "rgbcw device' = (if drv_type device = DIMMER_DRIVER_PWM_CCT then tdl_get_cct_warm (rgbcw device) c c else c)"
    "drv_type device' = drv_type device"
  using assms static_output_fields
  by (fastforce simp: tdl_dimmer_output_def Let_def split: if_splits bind_splits)+

text \<open>On a CCT driver the second white channel carries the colour temperature. While the white light fades in
or out, whatever the intermediate colour of a step says, the temperature handed on is that of the
side where the light is on: the target's while fading in, the source's while fading out. The
other channels are those of the step.\<close>
theorem cct_fade_keeps_temperature:
  assumes "drv_type device = DIMMER_DRIVER_PWM_CCT" and "(s_cold src = 0) \<noteq> (s_cold target = 0)"
    and "tdl_dimmer_output_for_shade (Some device) (Some src) (Some cur) (Some target) w = Some (r, Some device', w')"
  shows "rgbcw device' = cur\<lparr>s_warm := s_warm (if s_cold src = 0 then target else src)\<rparr>
    \<and> scale_rgbcw (app_resolution device) (drv_resolution device) (rgbcw device') = Some (output_rgbcw device')
    \<and> tdl_dimmer_get_current_rgbcw (Some device') True = (OPRT_OK, Some (rgbcw device'))"
proof -
  define d where "d = device\<lparr>rgbcw := tdl_get_cct_warm src target cur\<rparr>"
  have "static_tdl_dimmer_output d (rgbcw d) w = Some (r, device', w')"
    using assms(1,3) by (auto simp: tdl_dimmer_output_for_shade_def d_def Let_def split: bind_splits)
  from static_output_fields [OF this] have "rgbcw device' = tdl_get_cct_warm src target cur"
    "scale_rgbcw (app_resolution device) (drv_resolution device) (rgbcw device') = Some (output_rgbcw device')"
    by (simp_all add: d_def)
  with assms(2) show ?thesis by (auto simp: tdl_get_cct_warm_def tdl_dimmer_get_current_rgbcw_def)
qed

text \<open>Switching a CCT light off and on again: the write that turns the white light off leaves the colour temperature
at its last value, whatever it asks for, and the write that turns it on sets the one asked for.\<close>
theorem cct_switch_off_on:
  assumes "drv_type d0 = DIMMER_DRIVER_PWM_CCT" and "s_cold (rgbcw d0) \<noteq> 0"
    and "s_cold off = 0" and "s_cold on \<noteq> 0"
    and "tdl_dimmer_output (Some d0) (Some off) w0 = Some (r1, Some d1, w1)"
    and "tdl_dimmer_output (Some d1) (Some on) w1 = Some (r2, Some d2, w2)"
  shows "rgbcw d1 = off\<lparr>s_warm := s_warm (rgbcw d0)\<rparr> \<and> rgbcw d2 = on"
  using output_fields [OF assms(5)] output_fields [OF assms(6)] assms(1-4) by (auto simp: tdl_get_cct_warm_def)

text \<open>A dimmer registered under a name of at most 16 characters is found under it at the end of the list, every
other lookup gives what it gave before, and a second registration of the name is refused.\<close>
theorem dimmer_register_then_find:
  assumes reg: "tdl_dimmer_register m x l (Some nm) i res tp h = (OPRT_OK, l')"
    and len: "length nm \<le> LIGHT_NAME_MAX_LEN"
  shows "tdl_dimmer_find l' (Some nm) = (OPRT_OK, Some (length l))
    \<and> (\<forall>other. other \<noteq> nm \<longrightarrow> tdl_dimmer_find l' (Some other) = tdl_dimmer_find l (Some other))
    \<and> fst (tdl_dimmer_register m x l' (Some nm) i res tp h) = OPRT_COM_ERROR"
proof -
  have r: "dimmer_registered nm l l'" unfolding dimmer_registered_def using reg by blast
  have found: "static_tdl_dimmer_find l' (Some nm) = Some (length l)"
    using dimmer_registry.lookup_registered [OF r] len by simp
  have others: "static_tdl_dimmer_find l' (Some other) = static_tdl_dimmer_find l (Some other)" if "other \<noteq> nm" for other
    using dimmer_registry.lookup_others [OF r, of other] dimmer_registry.lookup_unknown [OF r _ that] len
    by (cases "static_tdl_dimmer_find l (Some other)") auto
  have "fst (tdl_dimmer_register m x l' (Some nm) i res tp h) = OPRT_COM_ERROR"
    using reg found by (auto simp: tdl_dimmer_register_def static_tdl_dimmer_register_def split: option.splits if_splits)
  then show ?thesis using found others by (simp add: tdl_dimmer_find_def)
qed

text \<open>A node whose driver records what it is given.\<close>

definition ex_intfs :: "(unit, LIGHT_RGBCW_T list) DIMMER_DRV_INTFS_T" where
  "ex_intfs = \<lparr>di_open = Some (\<lambda>h w. Some (0, h, w)), di_close = Some (\<lambda>h w. Some (0, h, w)),
     di_output = Some (\<lambda>h c w. Some (0, h, w @ [the c]))\<rparr>"

definition ex_dimmer :: "u16 \<Rightarrow> u16 \<Rightarrow> (unit, LIGHT_RGBCW_T list) DIMMER_NODE_T" where
  "ex_dimmer k m = \<lparr>dim_name = ''lamp'', app_resolution = 1000, rgbcw = rgbcw_zero\<lparr>s_cold := k, s_warm := m\<rparr>,
     drv_type = DIMMER_DRIVER_PWM_CCT, drv_resolution = 10000, dim_handle = Some (), dim_intfs = ex_intfs,
     output_rgbcw = rgbcw_zero\<rparr>"

lemmas ex_dimmer_simps = ex_dimmer_def ex_intfs_def tdl_dimmer_output_def tdl_dimmer_output_for_shade_def
  tdl_get_cct_warm_def static_tdl_dimmer_output_def scale_rgbcw_def output_channel_def

theorem cct_fade_keeps_temperature_witness:
  "\<exists>d w. tdl_dimmer_output_for_shade (Some (ex_dimmer 800 300)) (Some (rgbcw_zero\<lparr>s_cold := 800, s_warm := 300\<rparr>))
      (Some (rgbcw_zero\<lparr>s_cold := 400, s_warm := 150\<rparr>)) (Some rgbcw_zero) [] = Some (OPRT_OK, Some d, w)
    \<and> rgbcw d = rgbcw_zero\<lparr>s_cold := 400, s_warm := 300\<rparr>"
proof -
  obtain d w where run: "tdl_dimmer_output_for_shade (Some (ex_dimmer 800 300)) (Some (rgbcw_zero\<lparr>s_cold := 800, s_warm := 300\<rparr>))
      (Some (rgbcw_zero\<lparr>s_cold := 400, s_warm := 150\<rparr>)) (Some rgbcw_zero) [] = Some (OPRT_OK, Some d, w)"
    by (simp add: ex_dimmer_simps)
  from cct_fade_keeps_temperature [OF _ _ run] have "rgbcw d = rgbcw_zero\<lparr>s_cold := 400, s_warm := 300\<rparr>"
    by (simp add: ex_dimmer_def)
  with run show ?thesis by blast
qed

theorem cct_switch_off_on_witness:
  "\<exists>d1 w1 d2 w2. tdl_dimmer_output (Some (ex_dimmer 800 300)) (Some rgbcw_zero) [] = Some (OPRT_OK, Some d1, w1)
    \<and> tdl_dimmer_output (Some d1) (Some (rgbcw_zero\<lparr>s_cold := 500, s_warm := 700\<rparr>)) w1 = Some (OPRT_OK, Some d2, w2)
    \<and> s_warm (rgbcw d1) = 300 \<and> s_warm (rgbcw d2) = 700"
proof -
  obtain d1 w1 d2 w2 where run: "tdl_dimmer_output (Some (ex_dimmer 800 300)) (Some rgbcw_zero) [] = Some (OPRT_OK, Some d1, w1)"
      "tdl_dimmer_output (Some d1) (Some (rgbcw_zero\<lparr>s_cold := 500, s_warm := 700\<rparr>)) w1 = Some (OPRT_OK, Some d2, w2)"
    by (simp add: ex_dimmer_simps)
  from cct_switch_off_on [OF _ _ _ _ run] have "s_warm (rgbcw d1) = 300" "s_warm (rgbcw d2) = 700"
    by (simp_all add: ex_dimmer_def)
  with run show ?thesis by blast
qed

theorem dimmer_register_then_find_witness:
  "\<exists>l. tdl_dimmer_register True OPRT_OK [] (Some ''lamp'') (Some ex_intfs) 1023 DIMMER_DRIVER_IIC (Some ()) = (OPRT_OK, l)
    \<and> tdl_dimmer_find l (Some ''lamp'') = (OPRT_OK, Some 0)"
proof -
  obtain l where run: "tdl_dimmer_register True OPRT_OK [] (Some ''lamp'') (Some ex_intfs) 1023 DIMMER_DRIVER_IIC (Some ()) = (OPRT_OK, l)"
    by (simp add: tdl_dimmer_register_def static_tdl_dimmer_register_def static_tdl_dimmer_find_def ex_intfs_def)
  from dimmer_register_then_find [OF run] show ?thesis using run by auto
qed

end
