(* ===== verification/Dimmer_Chips.thy ===== *)
theory Dimmer_Chips
  imports Dimmer_I2C Dimmer_Dev
begin

text \<open>
  The dimmer chips on the software I2C bus: \<^verbatim>\<open>tdd_dimmer_bp5758d.c\<close>, \<^verbatim>\<open>tdd_dimmer_bp1658cj.c\<close>,
  \<^verbatim>\<open>tdd_dimmer_sm2x35egh.c\<close>, \<^verbatim>\<open>tdd_dimmer_sm2135e.c\<close> and \<^verbatim>\<open>tdd_dimmer_sm2135ex.c\<close>, with the channel check
  of \<^verbatim>\<open>tdd_dimmer_common.c\<close>. Each chip has the record its driver keeps and the record of the frame it sends;
  \<open>_bytes\<close> lays a frame out in memory, bit fields from the least significant bit up, each keeping as
  many bits as it has.
\<close>

section \<open>Channels\<close>

record DIMMER_CH_CFG_U =
  ch_r :: u8
  ch_g :: u8
  ch_b :: u8
  ch_c :: u8
  ch_w :: u8

definition ch_array :: "DIMMER_CH_CFG_U \<Rightarrow> u8 list" where
  "ch_array c = [ch_r c, ch_g c, ch_b c, ch_c c, ch_w c]"

record CURRENT_RGBCW_CFG_U =
  cur_r :: u8
  cur_g :: u8
  cur_b :: u8
  cur_c :: u8
  cur_w :: u8

definition cur_array :: "CURRENT_RGBCW_CFG_U \<Rightarrow> u8 list" where
  "cur_array c = [cur_r c, cur_g c, cur_b c, cur_c c, cur_w c]"

record CURRENT_COLOR_CFG_T =
  cc_color :: u8
  cc_white :: u8

abbreviation (input) DIMMER_CH_ID_INVALID :: u8 where "DIMMER_CH_ID_INVALID \<equiv> 0xFE"
abbreviation (input) OUTPUT_CH_MAX :: u8 where "OUTPUT_CH_MAX \<equiv> 5"

definition rgb_ch :: "u8 \<Rightarrow> bool" where "rgb_ch ch_id \<longleftrightarrow> ch_id \<ge> 0 \<and> ch_id \<le> 2"
definition cw_ch :: "u8 \<Rightarrow> bool" where "cw_ch ch_id \<longleftrightarrow> ch_id \<ge> 3 \<and> ch_id \<le> 4"

definition tdd_check_channel_cfg_param :: "DIMMER_CH_CFG_U option \<Rightarrow> bool" where
  "tdd_check_channel_cfg_param p_ch_cfg =
     (case p_ch_cfg of
        None \<Rightarrow> False
      | Some c \<Rightarrow> rgb_ch (ch_r c) \<and> rgb_ch (ch_g c) \<and> rgb_ch (ch_b c) \<and> cw_ch (ch_c c) \<and> cw_ch (ch_w c))"

text \<open>The loop of every output function: colour by colour, skipping the colours without a channel.\<close>

definition for_channels :: "DIMMER_CH_CFG_U \<Rightarrow> 'x list \<Rightarrow> (u8 \<Rightarrow> 'x \<Rightarrow> 's \<Rightarrow> 's) \<Rightarrow> 's \<Rightarrow> 's" where
  "for_channels cfg xs f =
     fold (\<lambda>(ch_id, x) s. if ch_id = DIMMER_CH_ID_INVALID \<or> ch_id \<ge> OUTPUT_CH_MAX then s else f ch_id x s)
       (zip (ch_array cfg) xs)"

text \<open>The work mode of three of the chips: bit 0 for the colours, bit 1 for the whites.\<close>

definition get_work_mode :: "DIMMER_CH_CFG_U \<Rightarrow> LIGHT_RGBCW_T option \<Rightarrow> u8" where
  "get_work_mode cfg p_rgbcw =
     (case p_rgbcw of
        None \<Rightarrow> 0
      | Some c \<Rightarrow> fold (\<lambda>(ch_id, v) mode.
          if ch_id = DIMMER_CH_ID_INVALID \<or> v = 0 then mode
          else if rgb_ch ch_id then mode OR 1 else if cw_ch ch_id then mode OR 2 else mode)
          (zip (ch_array cfg) (rgbcw_array c)) 0)"

section \<open>What the drivers share\<close>

record dim_env =
  dim_drv_m :: bool
  dim_node_m :: bool
  dim_mutex :: OPERATE_RET

definition i2c_open :: "('h \<Rightarrow> TDD_I2C_PIN_T) \<Rightarrow> 'h option \<Rightarrow> sw_bus \<Rightarrow> (OPERATE_RET \<times> 'h option \<times> sw_bus) option" where
  "i2c_open pin p_drv w =
     (case p_drv of
        None \<Rightarrow> Some (OPRT_INVALID_PARM, p_drv, w)
      | Some d \<Rightarrow> let (r, w) = tdd_sw_i2c_init (pin d) w in Some (r, p_drv, w))"

definition i2c_close :: "('h \<Rightarrow> TDD_I2C_PIN_T) \<Rightarrow> 'h option \<Rightarrow> sw_bus \<Rightarrow> (OPERATE_RET \<times> 'h option \<times> sw_bus) option" where
  "i2c_close pin p_drv w =
     (case p_drv of
        None \<Rightarrow> Some (OPRT_INVALID_PARM, p_drv, w)
      | Some d \<Rightarrow> let (r, w) = tdd_sw_i2c_deinit (pin d) w in Some (r, p_drv, w))"

text \<open>A registration: parameter checks, the allocation of the driver's record, which \<open>mk\<close> fills, and the manager.\<close>

definition i2c_register ::
  "dim_env \<Rightarrow> ('h, 'w) DIMMER_NODE_T list \<Rightarrow> string option \<Rightarrow> TDD_I2C_PIN_T option \<Rightarrow> DIMMER_CH_CFG_U option \<Rightarrow> 'c option
     \<Rightarrow> (TDD_I2C_PIN_T \<Rightarrow> DIMMER_CH_CFG_U \<Rightarrow> 'c \<Rightarrow> 'h) \<Rightarrow> ('h, 'w) DIMMER_DRV_INTFS_T \<Rightarrow> u16
     \<Rightarrow> OPERATE_RET \<times> ('h, 'w) DIMMER_NODE_T list" where
  "i2c_register env l name p_i2c p_ch_cfg p_chip_cfg mk intfs res =
     (case (p_i2c, p_chip_cfg) of
        (Some pin, Some cfg) \<Rightarrow>
          if \<not> tdd_check_channel_cfg_param p_ch_cfg then (OPRT_INVALID_PARM, l)
          else if \<not> dim_drv_m env then (OPRT_MALLOC_FAILED, l)
          else tdl_dimmer_register (dim_node_m env) (dim_mutex env) l name (Some intfs) res DIMMER_DRIVER_IIC
            (Some (mk pin (the p_ch_cfg) cfg))
      | _ \<Rightarrow> (OPRT_INVALID_PARM, l))"

section \<open>BP5758D\<close>

record BP5758D_PROT_T =
  b5_addr :: u8
  b5_mode :: u8
  b5_tag :: u8
  b5_enable :: u8
  b5_max_current :: "u8 list"
  b5_out :: "(u8 \<times> u8) list"

definition bp5758d_bytes :: "BP5758D_PROT_T \<Rightarrow> u8 list" where
  "bp5758d_bytes f =
     [b5_addr f AND 0x0F OR push_bit 4 (b5_mode f AND 0x03) OR push_bit 6 (b5_tag f AND 0x03), b5_enable f] @
     b5_max_current f @ concat (map (\<lambda>(low, high). [low AND 0x1F, high AND 0x1F]) (b5_out f))"

record BP5758D_CFG_T =
  b5_max_curr_code :: CURRENT_RGBCW_CFG_U

record DIMMER_BP5758D_DRV_T =
  b5_pin :: TDD_I2C_PIN_T
  b5_max_cur :: CURRENT_RGBCW_CFG_U
  b5_ch_cfg :: DIMMER_CH_CFG_U
  b5_ch_enable :: u8
  b5_send_buf :: BP5758D_PROT_T

abbreviation (input) bp5758d_clear :: BP5758D_PROT_T where
  "bp5758d_clear \<equiv> \<lparr>b5_addr = 0, b5_mode = 0, b5_tag = 0, b5_enable = 0,
     b5_max_current = replicate 5 0, b5_out = replicate 5 (0, 0)\<rparr>"

abbreviation (input) BP5758D_MODE_SLEEP :: u8 where "BP5758D_MODE_SLEEP \<equiv> 0"
abbreviation (input) BP5758D_MODE_WORK :: u8 where "BP5758D_MODE_WORK \<equiv> 1"

definition bp5758d_get_work_mode :: "DIMMER_CH_CFG_U \<Rightarrow> LIGHT_RGBCW_T option \<Rightarrow> u8" where
  "bp5758d_get_work_mode cfg p_rgbcw =
     (case p_rgbcw of
        None \<Rightarrow> BP5758D_MODE_SLEEP
      | Some c \<Rightarrow>
          if list_ex (\<lambda>(ch_id, v). ch_id \<noteq> DIMMER_CH_ID_INVALID \<and> v \<noteq> 0) (zip (ch_array cfg) (rgbcw_array c))
          then BP5758D_MODE_WORK else BP5758D_MODE_SLEEP)"

definition bp5758d_get_ch_enable :: "DIMMER_CH_CFG_U \<Rightarrow> u8" where
  "bp5758d_get_ch_enable cfg =
     for_channels cfg (replicate 5 ()) (\<lambda>ch_id x enable_code. enable_code OR push_bit (unat ch_id) 1) 0"

text \<open>\<open>v\<close> is the grey value of a colour, absent when the pointer to the colours is null.\<close>

definition bp5758d_put :: "u8 \<Rightarrow> u8 \<times> u16 option \<Rightarrow> BP5758D_PROT_T \<Rightarrow> BP5758D_PROT_T" where
  "bp5758d_put ch_id = (\<lambda>(cur, v) f. f\<lparr>
     b5_max_current := (b5_max_current f)[unat ch_id := cur],
     b5_out := (b5_out f)[unat ch_id :=
       (case v of None \<Rightarrow> (0, 0) | Some v \<Rightarrow> (ucast (v AND 0x001F), ucast (drop_bit 5 v)))]\<rparr>)"

definition bp5758d_send_prot ::
  "DIMMER_BP5758D_DRV_T option \<Rightarrow> u8 \<Rightarrow> u8 \<Rightarrow> LIGHT_RGBCW_T option \<Rightarrow> sw_bus
     \<Rightarrow> (OPERATE_RET \<times> DIMMER_BP5758D_DRV_T option \<times> sw_bus) option" where
  "bp5758d_send_prot p_drv work_mode ch_enable p_rgbcw w =
     (case p_drv of
        None \<Rightarrow> Some (OPRT_INVALID_PARM, None, w)
      | Some d \<Rightarrow> do {
          let f = bp5758d_clear\<lparr>b5_mode := work_mode, b5_tag := 2, b5_addr := 0, b5_enable := ch_enable\<rparr>;
          let vs = (case p_rgbcw of None \<Rightarrow> replicate 5 None | Some c \<Rightarrow> map Some (rgbcw_array c));
          let f = for_channels (b5_ch_cfg d) (zip (cur_array (b5_max_cur d)) vs) bp5758d_put f;
          let len = (if work_mode = BP5758D_MODE_SLEEP then 1 else 17);
          (r, w) \<leftarrow> tdd_dimmer_i2c_send_data (b5_pin d) (bp5758d_bytes f) len w;
          Some (r, Some (d\<lparr>b5_send_buf := f\<rparr>), w) })"

definition tdd_dimmer_bp5758d_open ::
  "DIMMER_BP5758D_DRV_T option \<Rightarrow> sw_bus \<Rightarrow> (OPERATE_RET \<times> DIMMER_BP5758D_DRV_T option \<times> sw_bus) option" where
  "tdd_dimmer_bp5758d_open = i2c_open b5_pin"

definition tdd_dimmer_bp5758d_close ::
  "DIMMER_BP5758D_DRV_T option \<Rightarrow> sw_bus \<Rightarrow> (OPERATE_RET \<times> DIMMER_BP5758D_DRV_T option \<times> sw_bus) option" where
  "tdd_dimmer_bp5758d_close = i2c_close b5_pin"

definition tdd_dimmer_bp5758d_output ::
  "DIMMER_BP5758D_DRV_T option \<Rightarrow> LIGHT_RGBCW_T option \<Rightarrow> sw_bus
     \<Rightarrow> (OPERATE_RET \<times> DIMMER_BP5758D_DRV_T option \<times> sw_bus) option" where
  "tdd_dimmer_bp5758d_output p_drv p_rgbcw w =
     (case p_drv of
        None \<Rightarrow> Some (OPRT_INVALID_PARM, None, w)
      | Some d \<Rightarrow>
          let work_mode = bp5758d_get_work_mode (b5_ch_cfg d) p_rgbcw
          in if work_mode = BP5758D_MODE_SLEEP
             then do {
               (rt, p_drv, w) \<leftarrow> bp5758d_send_prot p_drv BP5758D_MODE_WORK 0 None w;
               if rt \<noteq> OPRT_OK then Some (rt, p_drv, w)
               else bp5758d_send_prot p_drv work_mode 0 p_rgbcw w }
             else bp5758d_send_prot p_drv work_mode (b5_ch_enable d) p_rgbcw w)"

definition bp5758d_intfs :: "(DIMMER_BP5758D_DRV_T, sw_bus) DIMMER_DRV_INTFS_T" where
  "bp5758d_intfs = \<lparr>di_open = Some tdd_dimmer_bp5758d_open, di_close = Some tdd_dimmer_bp5758d_close,
     di_output = Some tdd_dimmer_bp5758d_output\<rparr>"

definition tdd_dimmer_bp5758d_register ::
  "dim_env \<Rightarrow> (DIMMER_BP5758D_DRV_T, sw_bus) DIMMER_NODE_T list \<Rightarrow> string option \<Rightarrow> TDD_I2C_PIN_T option
     \<Rightarrow> DIMMER_CH_CFG_U option \<Rightarrow> BP5758D_CFG_T option
     \<Rightarrow> OPERATE_RET \<times> (DIMMER_BP5758D_DRV_T, sw_bus) DIMMER_NODE_T list" where
  "tdd_dimmer_bp5758d_register env l name p_i2c p_ch_cfg p_chip_cfg =
     i2c_register env l name p_i2c p_ch_cfg p_chip_cfg
       (\<lambda>pin ch cfg. \<lparr>b5_pin = pin, b5_max_cur = b5_max_curr_code cfg, b5_ch_cfg = ch,
          b5_ch_enable = bp5758d_get_ch_enable ch, b5_send_buf = bp5758d_clear\<rparr>)
       bp5758d_intfs 1023"

definition tdd_dimmer_bp5758d_convert_curr_code :: "u8 \<Rightarrow> u8" where
  "tdd_dimmer_bp5758d_convert_curr_code current_ma =
     (let cur_tmp_ma = (if current_ma > 90 then 90 else current_ma)
      in if cur_tmp_ma \<le> 63 then cur_tmp_ma AND 0x3F else 0x40 OR ((cur_tmp_ma - 30) AND 0x3F))"

section \<open>BP1658CJ\<close>

record BP1658CJ_PROT_T =
  b1_addr :: u8
  b1_mode :: u8
  b1_tag :: u8
  b1_max_current :: u8
  b1_out :: "(u8 \<times> u8) list"

definition bp1658cj_bytes :: "BP1658CJ_PROT_T \<Rightarrow> u8 list" where
  "bp1658cj_bytes f =
     [b1_addr f AND 0x0F OR push_bit 4 (b1_mode f AND 0x03) OR push_bit 6 (b1_tag f AND 0x03), b1_max_current f] @
     concat (map (\<lambda>(low, high). [low AND 0x1F, high AND 0x1F]) (b1_out f))"

record DIMMER_BP1658CJ_DRV_T =
  b1_pin :: TDD_I2C_PIN_T
  b1_max_cur_code :: u8
  b1_ch_cfg :: DIMMER_CH_CFG_U
  b1_send_buf :: BP1658CJ_PROT_T

abbreviation (input) bp1658cj_clear :: BP1658CJ_PROT_T where
  "bp1658cj_clear \<equiv> \<lparr>b1_addr = 0, b1_mode = 0, b1_tag = 0, b1_max_current = 0, b1_out = replicate 5 (0, 0)\<rparr>"

definition bp1658cj_get_work_mode :: "DIMMER_CH_CFG_U \<Rightarrow> LIGHT_RGBCW_T option \<Rightarrow> u8" where
  "bp1658cj_get_work_mode = get_work_mode"

definition tdd_dimmer_bp1658cj_open ::
  "DIMMER_BP1658CJ_DRV_T option \<Rightarrow> sw_bus \<Rightarrow> (OPERATE_RET \<times> DIMMER_BP1658CJ_DRV_T option \<times> sw_bus) option" where
  "tdd_dimmer_bp1658cj_open = i2c_open b1_pin"

definition tdd_dimmer_bp1658cj_close ::
  "DIMMER_BP1658CJ_DRV_T option \<Rightarrow> sw_bus \<Rightarrow> (OPERATE_RET \<times> DIMMER_BP1658CJ_DRV_T option \<times> sw_bus) option" where
  "tdd_dimmer_bp1658cj_close = i2c_close b1_pin"

definition tdd_dimmer_bp1658cj_output ::
  "DIMMER_BP1658CJ_DRV_T option \<Rightarrow> LIGHT_RGBCW_T option \<Rightarrow> sw_bus
     \<Rightarrow> (OPERATE_RET \<times> DIMMER_BP1658CJ_DRV_T option \<times> sw_bus) option" where
  "tdd_dimmer_bp1658cj_output p_drv p_rgbcw w =
     (case (p_drv, p_rgbcw) of
        (Some d, Some c) \<Rightarrow> do {
          let f = bp1658cj_clear\<lparr>b1_addr := 0, b1_tag := 2, b1_mode := bp1658cj_get_work_mode (b1_ch_cfg d) p_rgbcw,
            b1_max_current := b1_max_cur_code d\<rparr>;
          let f = for_channels (b1_ch_cfg d) (rgbcw_array c) (\<lambda>ch_id v f. f\<lparr>
            b1_out := (b1_out f)[unat ch_id := (ucast (v AND 0x001F), ucast (drop_bit 5 v))]\<rparr>) f;
          (r, w) \<leftarrow> tdd_dimmer_i2c_send_data (b1_pin d) (bp1658cj_bytes f) 12 w;
          Some (r, Some (d\<lparr>b1_send_buf := f\<rparr>), w) }
      | _ \<Rightarrow> Some (OPRT_INVALID_PARM, p_drv, w))"

definition bp1658cj_intfs :: "(DIMMER_BP1658CJ_DRV_T, sw_bus) DIMMER_DRV_INTFS_T" where
  "bp1658cj_intfs = \<lparr>di_open = Some tdd_dimmer_bp1658cj_open, di_close = Some tdd_dimmer_bp1658cj_close,
     di_output = Some tdd_dimmer_bp1658cj_output\<rparr>"

definition tdd_dimmer_bp1658cj_register ::
  "dim_env \<Rightarrow> (DIMMER_BP1658CJ_DRV_T, sw_bus) DIMMER_NODE_T list \<Rightarrow> string option \<Rightarrow> TDD_I2C_PIN_T option
     \<Rightarrow> DIMMER_CH_CFG_U option \<Rightarrow> CURRENT_COLOR_CFG_T option
     \<Rightarrow> OPERATE_RET \<times> (DIMMER_BP1658CJ_DRV_T, sw_bus) DIMMER_NODE_T list" where
  "tdd_dimmer_bp1658cj_register env l name p_i2c p_ch_cfg p_chip_cfg =
     i2c_register env l name p_i2c p_ch_cfg p_chip_cfg
       (\<lambda>pin ch cfg. \<lparr>b1_pin = pin, b1_max_cur_code = push_bit 4 (cc_color cfg) OR cc_white cfg AND 0x0F, b1_ch_cfg = ch,
          b1_send_buf = bp1658cj_clear\<rparr>)
       bp1658cj_intfs 1023"

definition tdd_dimmer_bp1658cj_convert_rgb_curr_code :: "u8 \<Rightarrow> u8" where
  "tdd_dimmer_bp1658cj_convert_rgb_curr_code current_ma =
     (let cur_tmp = (if current_ma > 150 then 150 else current_ma)
      in cur_tmp div 10)"

definition tdd_dimmer_bp1658cj_convert_cw_curr_code :: "u8 \<Rightarrow> u8" where
  "tdd_dimmer_bp1658cj_convert_cw_curr_code current_ma =
     (let cur_tmp = (if current_ma > 75 then 75 else current_ma)
      in cur_tmp div 5)"

section \<open>SM2235EGH and SM2335EGH\<close>

record SM2X35EGH_PROT_T =
  s2_addr :: u8
  s2_mode :: u8
  s2_tag :: u8
  s2_max_current :: u8
  s2_out :: "(u8 \<times> u8) list"

text \<open>An output is its high byte, then its low byte.\<close>

definition sm2x35egh_bytes :: "SM2X35EGH_PROT_T \<Rightarrow> u8 list" where
  "sm2x35egh_bytes f =
     [s2_addr f AND 0x07 OR push_bit 3 (s2_mode f AND 0x03) OR push_bit 6 (s2_tag f AND 0x03), s2_max_current f] @
     concat (map (\<lambda>(high, low). [high, low]) (s2_out f))"

record DIMMER_SM2X35EGH_DRV_T =
  s2_pin :: TDD_I2C_PIN_T
  s2_max_cur_code :: u8
  s2_ch_cfg :: DIMMER_CH_CFG_U
  s2_send_buf :: SM2X35EGH_PROT_T

abbreviation (input) sm2x35egh_clear :: SM2X35EGH_PROT_T where
  "sm2x35egh_clear \<equiv> \<lparr>s2_addr = 0, s2_mode = 0, s2_tag = 0, s2_max_current = 0, s2_out = replicate 5 (0, 0)\<rparr>"

definition sm2x35egh_get_work_mode :: "DIMMER_CH_CFG_U \<Rightarrow> LIGHT_RGBCW_T option \<Rightarrow> u8" where
  "sm2x35egh_get_work_mode = get_work_mode"

definition tdd_dimmer_sm2x35egh_open ::
  "DIMMER_SM2X35EGH_DRV_T option \<Rightarrow> sw_bus \<Rightarrow> (OPERATE_RET \<times> DIMMER_SM2X35EGH_DRV_T option \<times> sw_bus) option" where
  "tdd_dimmer_sm2x35egh_open = i2c_open s2_pin"

definition tdd_dimmer_sm2x35egh_close ::
  "DIMMER_SM2X35EGH_DRV_T option \<Rightarrow> sw_bus \<Rightarrow> (OPERATE_RET \<times> DIMMER_SM2X35EGH_DRV_T option \<times> sw_bus) option" where
  "tdd_dimmer_sm2x35egh_close = i2c_close s2_pin"

definition tdd_dimmer_sm2x35egh_output ::
  "DIMMER_SM2X35EGH_DRV_T option \<Rightarrow> LIGHT_RGBCW_T option \<Rightarrow> sw_bus
     \<Rightarrow> (OPERATE_RET \<times> DIMMER_SM2X35EGH_DRV_T option \<times> sw_bus) option" where
  "tdd_dimmer_sm2x35egh_output p_drv p_rgbcw w =
     (case (p_drv, p_rgbcw) of
        (Some d, Some c) \<Rightarrow> do {
          let f = sm2x35egh_clear\<lparr>s2_tag := 3, s2_addr := 0, s2_mode := sm2x35egh_get_work_mode (s2_ch_cfg d) p_rgbcw,
            s2_max_current := s2_max_cur_code d\<rparr>;
          let f = for_channels (s2_ch_cfg d) (rgbcw_array c) (\<lambda>ch_id v f. f\<lparr>
            s2_out := (s2_out f)[unat ch_id := (ucast (drop_bit 8 v), ucast (v AND 0x00FF))]\<rparr>) f;
          let i2c_flags = I2C_FLAG_WR OR I2C_FLAG_NO_ADDR OR I2C_FLAG_IGNORE_NACK;
          (r, w) \<leftarrow> tdd_dimmer_i2c_flag_send_data (s2_pin d) i2c_flags (sm2x35egh_bytes f) 12 w;
          Some (r, Some (d\<lparr>s2_send_buf := f\<rparr>), w) }
      | _ \<Rightarrow> Some (OPRT_INVALID_PARM, p_drv, w))"

definition sm2x35egh_intfs :: "(DIMMER_SM2X35EGH_DRV_T, sw_bus) DIMMER_DRV_INTFS_T" where
  "sm2x35egh_intfs = \<lparr>di_open = Some tdd_dimmer_sm2x35egh_open, di_close = Some tdd_dimmer_sm2x35egh_close,
     di_output = Some tdd_dimmer_sm2x35egh_output\<rparr>"

definition tdd_dimmer_sm2x35egh_register ::
  "dim_env \<Rightarrow> (DIMMER_SM2X35EGH_DRV_T, sw_bus) DIMMER_NODE_T list \<Rightarrow> string option \<Rightarrow> TDD_I2C_PIN_T option
     \<Rightarrow> DIMMER_CH_CFG_U option \<Rightarrow> CURRENT_COLOR_CFG_T option
     \<Rightarrow> OPERATE_RET \<times> (DIMMER_SM2X35EGH_DRV_T, sw_bus) DIMMER_NODE_T list" where
  "tdd_dimmer_sm2x35egh_register env l name p_i2c p_ch_cfg p_chip_cfg =
     i2c_register env l name p_i2c p_ch_cfg p_chip_cfg
       (\<lambda>pin ch cfg. \<lparr>s2_pin = pin, s2_max_cur_code = push_bit 4 (cc_color cfg) OR cc_white cfg AND 0x0F, s2_ch_cfg = ch,
          s2_send_buf = sm2x35egh_clear\<rparr>)
       sm2x35egh_intfs 1023"

definition tdd_dimmer_sm2235egh_convert_rgb_curr_code :: "u8 \<Rightarrow> u8" where
  "tdd_dimmer_sm2235egh_convert_rgb_curr_code current_ma =
     (let cur_tmp = (if current_ma > 64 then 64 else if current_ma < 4 then 4 else current_ma)
      in push_bit 4 (cur_tmp div 4 - 1))"

definition tdd_dimmer_sm2235egh_convert_cw_curr_code :: "u8 \<Rightarrow> u8" where
  "tdd_dimmer_sm2235egh_convert_cw_curr_code current_ma =
     (let cur_tmp = (if current_ma > 80 then 80 else if current_ma < 5 then 5 else current_ma)
      in cur_tmp div 5 - 1)"

definition tdd_dimmer_sm2335egh_convert_rgb_curr_code :: "u8 \<Rightarrow> u8" where
  "tdd_dimmer_sm2335egh_convert_rgb_curr_code current_ma =
     (let cur_tmp = (if current_ma > 160 then 160 else if current_ma < 10 then 10 else current_ma)
      in push_bit 4 (cur_tmp div 10 - 1))"

definition tdd_dimmer_sm2335egh_convert_cw_curr_code :: "u8 \<Rightarrow> u8" where
  "tdd_dimmer_sm2335egh_convert_cw_curr_code current_ma =
     (let cur_tmp = (if current_ma > 80 then 80 else if current_ma < 5 then 5 else current_ma)
      in cur_tmp div 5 - 1)"

section \<open>SM2135E\<close>

record SM2135E_PROT_T =
  se_addr :: u8
  se_tag :: u8
  se_max_current :: u8
  se_is_cw :: u8
  se_out :: "u8 list"

definition sm2135e_bytes :: "SM2135E_PROT_T \<Rightarrow> u8 list" where
  "sm2135e_bytes f =
     [se_addr f AND 0x0F OR push_bit 6 (se_tag f AND 0x03), se_max_current f, push_bit 7 (se_is_cw f AND 0x01)] @
     se_out f"

record DIMMER_SM2135E_DRV_T =
  se_pin :: TDD_I2C_PIN_T
  se_max_cur_code :: u8
  se_ch_cfg :: DIMMER_CH_CFG_U
  se_send_buf :: SM2135E_PROT_T

abbreviation (input) sm2135e_clear :: SM2135E_PROT_T where
  "sm2135e_clear \<equiv> \<lparr>se_addr = 0, se_tag = 0, se_max_current = 0, se_is_cw = 0, se_out = replicate 5 0\<rparr>"

definition tdd_dimmer_sm2135e_open ::
  "DIMMER_SM2135E_DRV_T option \<Rightarrow> sw_bus \<Rightarrow> (OPERATE_RET \<times> DIMMER_SM2135E_DRV_T option \<times> sw_bus) option" where
  "tdd_dimmer_sm2135e_open = i2c_open se_pin"

definition tdd_dimmer_sm2135e_close ::
  "DIMMER_SM2135E_DRV_T option \<Rightarrow> sw_bus \<Rightarrow> (OPERATE_RET \<times> DIMMER_SM2135E_DRV_T option \<times> sw_bus) option" where
  "tdd_dimmer_sm2135e_close = i2c_close se_pin"

definition tdd_dimmer_sm2135e_output ::
  "DIMMER_SM2135E_DRV_T option \<Rightarrow> LIGHT_RGBCW_T option \<Rightarrow> sw_bus
     \<Rightarrow> (OPERATE_RET \<times> DIMMER_SM2135E_DRV_T option \<times> sw_bus) option" where
  "tdd_dimmer_sm2135e_output p_drv p_rgbcw w =
     (case (p_drv, p_rgbcw) of
        (Some d, Some c) \<Rightarrow> do {
          let f = sm2135e_clear\<lparr>se_tag := 3, se_addr := 0, se_max_current := se_max_cur_code d\<rparr>;
          let (f, is_rgb_ch) = for_channels (se_ch_cfg d) (rgbcw_array c) (\<lambda>ch_id v (f, is_rgb_ch).
            let f = f\<lparr>se_out := (se_out f)[unat ch_id := ucast v]\<rparr>
            in if rgb_ch ch_id then (f, True)
               else if \<not> is_rgb_ch \<or> v > 0 then (f\<lparr>se_is_cw := 1\<rparr>, is_rgb_ch) else (f, is_rgb_ch)) (f, False);
          (r, w) \<leftarrow> tdd_dimmer_i2c_send_data (se_pin d) (sm2135e_bytes f) 8 w;
          Some (r, Some (d\<lparr>se_send_buf := f\<rparr>), w) }
      | _ \<Rightarrow> Some (OPRT_INVALID_PARM, p_drv, w))"

definition sm2135e_intfs :: "(DIMMER_SM2135E_DRV_T, sw_bus) DIMMER_DRV_INTFS_T" where
  "sm2135e_intfs = \<lparr>di_open = Some tdd_dimmer_sm2135e_open, di_close = Some tdd_dimmer_sm2135e_close,
     di_output = Some tdd_dimmer_sm2135e_output\<rparr>"

definition tdd_dimmer_sm2135e_register ::
  "dim_env \<Rightarrow> (DIMMER_SM2135E_DRV_T, sw_bus) DIMMER_NODE_T list \<Rightarrow> string option \<Rightarrow> TDD_I2C_PIN_T option
     \<Rightarrow> DIMMER_CH_CFG_U option \<Rightarrow> CURRENT_COLOR_CFG_T option
     \<Rightarrow> OPERATE_RET \<times> (DIMMER_SM2135E_DRV_T, sw_bus) DIMMER_NODE_T list" where
  "tdd_dimmer_sm2135e_register env l name p_i2c p_ch_cfg p_chip_cfg =
     i2c_register env l name p_i2c p_ch_cfg p_chip_cfg
       (\<lambda>pin ch cfg. \<lparr>se_pin = pin, se_max_cur_code = push_bit 4 (cc_color cfg AND 0x07) OR cc_white cfg AND 0x0F, se_ch_cfg = ch,
          se_send_buf = sm2135e_clear\<rparr>)
       sm2135e_intfs 255"

definition tdd_dimmer_sm2135e_convert_rgb_curr_code :: "u8 \<Rightarrow> u8" where
  "tdd_dimmer_sm2135e_convert_rgb_curr_code current_ma =
     (let cur_tmp = (if current_ma > 45 then 45 else if current_ma < 10 then 10 else current_ma)
      in push_bit 4 ((cur_tmp - 10) div 5))"

definition tdd_dimmer_sm2135e_convert_cw_curr_code :: "u8 \<Rightarrow> u8" where
  "tdd_dimmer_sm2135e_convert_cw_curr_code current_ma =
     (let cur_tmp = (if current_ma > 80 then 80 else if current_ma < 10 then 10 else current_ma)
      in if cur_tmp \<le> 60 then (cur_tmp - 10) div 5 else (cur_tmp - 60) div 4 + 10)"

section \<open>SM2135EH and SM2135EJ\<close>

record SM2135EX_PROT_T =
  sx_addr :: u8
  sx_tag :: u8
  sx_max_current :: u8
  sx_standby :: u8
  sx_out :: "u8 list"

definition sm2135ex_bytes :: "SM2135EX_PROT_T \<Rightarrow> u8 list" where
  "sm2135ex_bytes f =
     [sx_addr f AND 0x07 OR push_bit 6 (sx_tag f AND 0x03), sx_max_current f, push_bit 5 (sx_standby f AND 0x01)] @
     sx_out f"

record DIMMER_SM2135EX_DRV_T =
  sx_pin :: TDD_I2C_PIN_T
  sx_max_cur_code :: u8
  sx_ch_cfg :: DIMMER_CH_CFG_U
  sx_send_buf :: SM2135EX_PROT_T

abbreviation (input) sm2135ex_clear :: SM2135EX_PROT_T where
  "sm2135ex_clear \<equiv> \<lparr>sx_addr = 0, sx_tag = 0, sx_max_current = 0, sx_standby = 0, sx_out = replicate 5 0\<rparr>"

definition tdd_dimmer_sm2135ex_open ::
  "DIMMER_SM2135EX_DRV_T option \<Rightarrow> sw_bus \<Rightarrow> (OPERATE_RET \<times> DIMMER_SM2135EX_DRV_T option \<times> sw_bus) option" where
  "tdd_dimmer_sm2135ex_open = i2c_open sx_pin"

definition tdd_dimmer_sm2135ex_close ::
  "DIMMER_SM2135EX_DRV_T option \<Rightarrow> sw_bus \<Rightarrow> (OPERATE_RET \<times> DIMMER_SM2135EX_DRV_T option \<times> sw_bus) option" where
  "tdd_dimmer_sm2135ex_close = i2c_close sx_pin"

definition tdd_dimmer_sm2135ex_output ::
  "DIMMER_SM2135EX_DRV_T option \<Rightarrow> LIGHT_RGBCW_T option \<Rightarrow> sw_bus
     \<Rightarrow> (OPERATE_RET \<times> DIMMER_SM2135EX_DRV_T option \<times> sw_bus) option" where
  "tdd_dimmer_sm2135ex_output p_drv p_rgbcw w =
     (case (p_drv, p_rgbcw) of
        (Some d, Some c) \<Rightarrow> do {
          let f = sm2135ex_clear\<lparr>sx_tag := 3, sx_addr := 0, sx_max_current := sx_max_cur_code d\<rparr>;
          let (f, is_working) = for_channels (sx_ch_cfg d) (rgbcw_array c) (\<lambda>ch_id v (f, is_working).
            (f\<lparr>sx_out := (sx_out f)[unat ch_id := ucast v]\<rparr>, if v \<noteq> 0 then True else is_working)) (f, False);
          let f = f\<lparr>sx_standby := (if \<not> is_working then 1 else 0)\<rparr>;
          let i2c_flags = I2C_FLAG_WR OR I2C_FLAG_NO_ADDR OR I2C_FLAG_IGNORE_NACK;
          (r, w) \<leftarrow> tdd_dimmer_i2c_flag_send_data (sx_pin d) i2c_flags (sm2135ex_bytes f) 8 w;
          Some (r, Some (d\<lparr>sx_send_buf := f\<rparr>), w) }
      | _ \<Rightarrow> Some (OPRT_INVALID_PARM, p_drv, w))"

definition sm2135ex_intfs :: "(DIMMER_SM2135EX_DRV_T, sw_bus) DIMMER_DRV_INTFS_T" where
  "sm2135ex_intfs = \<lparr>di_open = Some tdd_dimmer_sm2135ex_open, di_close = Some tdd_dimmer_sm2135ex_close,
     di_output = Some tdd_dimmer_sm2135ex_output\<rparr>"

definition tdd_dimmer_sm2135ex_register ::
  "dim_env \<Rightarrow> (DIMMER_SM2135EX_DRV_T, sw_bus) DIMMER_NODE_T list \<Rightarrow> string option \<Rightarrow> TDD_I2C_PIN_T option
     \<Rightarrow> DIMMER_CH_CFG_U option \<Rightarrow> CURRENT_COLOR_CFG_T option
     \<Rightarrow> OPERATE_RET \<times> (DIMMER_SM2135EX_DRV_T, sw_bus) DIMMER_NODE_T list" where
  "tdd_dimmer_sm2135ex_register env l name p_i2c p_ch_cfg p_chip_cfg =
     i2c_register env l name p_i2c p_ch_cfg p_chip_cfg
       (\<lambda>pin ch cfg. \<lparr>sx_pin = pin, sx_max_cur_code = push_bit 4 (cc_color cfg AND 0x07) OR cc_white cfg AND 0x0F, sx_ch_cfg = ch,
          sx_send_buf = sm2135ex_clear\<rparr>)
       sm2135ex_intfs 255"

definition tdd_dimmer_sm2135eh_convert_rgb_curr_code :: "u8 \<Rightarrow> u8" where
  "tdd_dimmer_sm2135eh_convert_rgb_curr_code current_ma =
     (let cur_tmp = (if current_ma > 44 then 44 else if current_ma < 9 then 9 else current_ma)
      in push_bit 4 ((cur_tmp - 9) div 5))"

definition tdd_dimmer_sm2135eh_convert_cw_curr_code :: "u8 \<Rightarrow> u8" where
  "tdd_dimmer_sm2135eh_convert_cw_curr_code current_ma =
     (let cur_tmp = (if current_ma > 72 then 72 else current_ma)
      in if cur_tmp \<le> 55 then cur_tmp div 5 else (cur_tmp - 55) div 4 + 11)"

definition tdd_dimmer_sm2135ej_convert_rgb_curr_code :: "u8 \<Rightarrow> u8" where
  "tdd_dimmer_sm2135ej_convert_rgb_curr_code current_ma =
     (let cur_tmp = (if current_ma > 63 then 63 else if current_ma < 14 then 14 else current_ma)
      in push_bit 4 ((cur_tmp - 14) div 7))"

definition tdd_dimmer_sm2135ej_convert_cw_curr_code :: "u8 \<Rightarrow> u8" where
  "tdd_dimmer_sm2135ej_convert_cw_curr_code current_ma =
     (let cur_tmp = (if current_ma > 93 then 93 else current_ma)
      in cur_tmp div 7)"

section \<open>Frames as a chip reads them\<close>

lemma ch_cases: "i < length (ch_array c) \<Longrightarrow> i = 0 \<or> i = 1 \<or> i = 2 \<or> i = 3 \<or> i = (4 :: nat)"
  by (auto simp: ch_array_def)

lemma length_arrays [simp]: "length (ch_array c) = 5" "length (cur_array m) = 5" "length (rgbcw_array v) = 5"
  by (simp_all add: ch_array_def cur_array_def rgbcw_array_def)

text \<open>A channel configuration that passes the check addresses outputs that exist.\<close>

lemma checked_channels:
  assumes "tdd_check_channel_cfg_param (Some c)" and "x \<in> set (ch_array c)"
  shows "unat x < 5" "x \<noteq> DIMMER_CH_ID_INVALID" "\<not> x \<ge> OUTPUT_CH_MAX"
proof -
  have le: "y \<le> 2 \<Longrightarrow> y \<le> 4" for y :: u8 by (rule order.trans [of y 2]) simp_all
  from assms have "x \<le> 4" by (auto simp: tdd_check_channel_cfg_param_def rgb_ch_def cw_ch_def ch_array_def le)
  then show "unat x < 5" "x \<noteq> DIMMER_CH_ID_INVALID" "\<not> x \<ge> OUTPUT_CH_MAX"
    by (auto simp: word_le_nat_alt)
qed

lemma for_channels_checked:
  assumes "tdd_check_channel_cfg_param (Some c)"
  shows "for_channels c xs f s = fold (\<lambda>(ch_id, x). f ch_id x) (zip (ch_array c) xs) s"
  unfolding for_channels_def
  by (rule fold_cong) (auto dest!: set_zip_leftD dest: checked_channels [OF assms] intro!: ext)

text \<open>Writing each value at the place of its own key.\<close>

lemma fold_update_nth:
  assumes "length ks = length xs" and "distinct ks" and "i < length ks" and "ks ! i < length s"
  shows "fold (\<lambda>(k, x) s. s[k := g x]) (zip ks xs) s ! (ks ! i) = g (xs ! i)"
  using assms
proof (induction ks xs arbitrary: i s rule: list_induct2)
  case (Cons k ks x xs)
  have keep: "fold (\<lambda>(k, x) s. s[k := g x]) (zip ks xs) t ! j = t ! j" if "j \<notin> set ks" for t j
    using Cons.hyps that by (induction ks xs arbitrary: t rule: list_induct2) (auto simp: nth_list_update)
  show ?case
  proof (cases i)
    case 0
    then show ?thesis using Cons.prems keep [of k "s[k := g x]"] by simp
  next
    case (Suc n)
    then show ?thesis using Cons.prems Cons.IH [of n "s[k := g x]"] by simp
  qed
qed simp

lemma length_fold_update [simp]: "length (fold (\<lambda>(k, x) s. s[k := g x]) kxs s) = length s"
  by (induction kxs arbitrary: s) auto

lemma nth_channel_keys: "i < 5 \<Longrightarrow> map unat (ch_array c) ! i = unat (ch_array c ! i)"
  by simp

lemma distinct_channel_keys: "distinct (ch_array c) \<Longrightarrow> distinct (map unat (ch_array c))"
  by (auto simp: distinct_map inj_on_def unsigned_word_eqI)

text \<open>The outputs of a frame after the loop over the channels: each output has the value of its own colour.\<close>

lemma channel_outputs:
  assumes "tdd_check_channel_cfg_param (Some c)" and "distinct (ch_array c)" and "length xs = 5" and "length s = 5"
    and "i < 5"
  shows "fold (\<lambda>(ch_id, x) s. s[unat ch_id := g x]) (zip (ch_array c) xs) s ! unat (ch_array c ! i) = g (xs ! i)"
proof -
  have "fold (\<lambda>(ch_id, x) s. s[unat ch_id := g x]) (zip (ch_array c) xs) s
      = fold (\<lambda>(k, x) s. s[k := g x]) (zip (map unat (ch_array c)) xs) s"
    by (simp add: zip_map1 fold_map comp_def case_prod_unfold)
  moreover have "unat (ch_array c ! i) < 5" using assms(1,5) by (intro checked_channels) auto
  ultimately show ?thesis
    using fold_update_nth [of "map unat (ch_array c)" xs i s g] distinct_channel_keys assms by simp
qed

text \<open>A grey value of ten bits from the two halves a frame carries.\<close>

lemma and_0x1f: "(w :: 'a::len word) AND 0x1F = take_bit 5 w"
  by (simp add: take_bit_eq_mask mask_eq_exp_minus_1)

lemma gray_halves:
  assumes "unat (v :: u16) < 1024"
  shows "unat ((ucast (v AND 0x001F) :: u8) AND 0x1F) + 32 * unat ((ucast (drop_bit 5 v) :: u8) AND 0x1F) = unat v"
proof -
  have lo: "unat ((ucast (v AND 0x001F) :: u8) AND 0x1F) = unat v mod 32"
    by (simp only: and_0x1f unsigned_take_bit_eq unsigned_ucast_eq) (simp add: take_bit_eq_mod mod_mod_cancel)
  have "unat ((ucast (drop_bit 5 v) :: u8) AND 0x1F) = unat v div 32 mod 32"
    by (simp only: and_0x1f unsigned_take_bit_eq unsigned_ucast_eq unsigned_drop_bit_eq)
      (simp add: take_bit_eq_mod drop_bit_eq_div mod_mod_cancel)
  with lo assms show ?thesis by simp
qed

lemma nth_concat_pairs:
  assumes "k < length xs"
  shows "concat (map (\<lambda>(a, b). [p a, q b]) xs) ! (2 * k) = p (fst (xs ! k))"
    "concat (map (\<lambda>(a, b). [p a, q b]) xs) ! Suc (2 * k) = q (snd (xs ! k))"
proof -
  have "concat (map (\<lambda>(a, b). [p a, q b]) xs) ! (2 * k) = p (fst (xs ! k))
      \<and> concat (map (\<lambda>(a, b). [p a, q b]) xs) ! Suc (2 * k) = q (snd (xs ! k))"
    using assms
  proof (induction xs arbitrary: k)
    case (Cons x xs)
    then show ?case by (cases k) (auto split: prod.splits)
  qed simp
  then show "concat (map (\<lambda>(a, b). [p a, q b]) xs) ! (2 * k) = p (fst (xs ! k))"
    "concat (map (\<lambda>(a, b). [p a, q b]) xs) ! Suc (2 * k) = q (snd (xs ! k))" by auto
qed

lemma length_concat_pairs [simp]: "length (concat (map (\<lambda>(a, b). [p a, q b]) xs)) = 2 * length xs"
  by (induction xs) auto

lemma nth_bp5758d_bytes:
  assumes "length (b5_max_current f) = 5" and "length (b5_out f) = 5" and "k < 5"
  shows "bp5758d_bytes f ! (2 + k) = b5_max_current f ! k"
    "bp5758d_bytes f ! (7 + 2 * k) = fst (b5_out f ! k) AND 0x1F"
    "bp5758d_bytes f ! (8 + 2 * k) = snd (b5_out f ! k) AND 0x1F"
    "length (bp5758d_bytes f) = 17"
  using assms nth_concat_pairs [of k "b5_out f" "\<lambda>low. low AND 0x1F" "\<lambda>high. high AND 0x1F"]
  by (simp_all add: bp5758d_bytes_def nth_append numeral_eq_Suc)

section \<open>The BP5758D behind the manager\<close>

text \<open>The frame that \<^verbatim>\<open>__bp5758d_send_prot\<close> fills in.\<close>

definition bp5758d_frame :: "DIMMER_BP5758D_DRV_T \<Rightarrow> u8 \<Rightarrow> u8 \<Rightarrow> u16 option list \<Rightarrow> BP5758D_PROT_T" where
  "bp5758d_frame d mode enable vs =
     for_channels (b5_ch_cfg d) (zip (cur_array (b5_max_cur d)) vs) bp5758d_put
       (bp5758d_clear\<lparr>b5_mode := mode, b5_tag := 2, b5_addr := 0, b5_enable := enable\<rparr>)"

lemma bp5758d_put_fold:
  "fold (\<lambda>(ch_id, x). bp5758d_put ch_id x) kxs f = f\<lparr>
     b5_max_current := fold (\<lambda>(ch_id, x) s. s[unat ch_id := fst x]) kxs (b5_max_current f),
     b5_out := fold (\<lambda>(ch_id, x) s. s[unat ch_id :=
       (case snd x of None \<Rightarrow> (0, 0) | Some v \<Rightarrow> (ucast (v AND 0x001F), ucast (drop_bit 5 v)))]) kxs (b5_out f)\<rparr>"
  by (induction kxs arbitrary: f) (auto simp: bp5758d_put_def)

lemma length_fold_update_unat [simp]: "length (fold (\<lambda>(k, x) s. s[unat k := g x]) kxs s) = length s"
  by (induction kxs arbitrary: s) auto

lemma bp5758d_frame_fields:
  fixes mode enable :: u8
  assumes ch: "tdd_check_channel_cfg_param (Some (b5_ch_cfg d))" "distinct (ch_array (b5_ch_cfg d))"
    and len: "length vs = 5"
  defines "f \<equiv> bp5758d_frame d mode enable vs"
  shows "b5_addr f = 0" "b5_mode f = mode" "b5_tag f = 2" "b5_enable f = enable"
    "length (b5_max_current f) = 5" "length (b5_out f) = 5"
    "i < 5 \<Longrightarrow> b5_max_current f ! unat (ch_array (b5_ch_cfg d) ! i) = cur_array (b5_max_cur d) ! i"
    "i < 5 \<Longrightarrow> b5_out f ! unat (ch_array (b5_ch_cfg d) ! i) =
      (case vs ! i of None \<Rightarrow> (0, 0) | Some v \<Rightarrow> (ucast (v AND 0x001F), ucast (drop_bit 5 v)))"
  using len by (simp_all add: f_def bp5758d_frame_def for_channels_checked [OF ch(1)] bp5758d_put_fold channel_outputs [OF ch])

lemma bp5758d_send:
  assumes "scl (b5_pin d) \<noteq> sda (b5_pin d)" and "l_out l" and "\<And>k. \<exists>j \<le> 10. \<not> sda_in w (k + j)"
    and ch: "tdd_check_channel_cfg_param (Some (b5_ch_cfg d))" "distinct (ch_array (b5_ch_cfg d))"
    and f: "f = bp5758d_frame d mode enable (case c of None \<Rightarrow> replicate 5 None | Some v \<Rightarrow> map Some (rgbcw_array v))"
    and n: "n = (if mode = 0 then 1 else 17)"
  shows "\<exists>w' ops. bp5758d_send_prot (Some d) mode enable c w = Some (OPRT_OK, Some (d\<lparr>b5_send_buf := f\<rparr>), w')
    \<and> gpio_ops w' = gpio_ops w @ ops \<and> sda_in w' = sda_in w \<and> lines_after (b5_pin d) l ops = idle_lines
    \<and> (\<forall>t. receive None (watch (b5_pin d) l ops @ t) = take n (bp5758d_bytes f) # receive None t)"
proof -
  have "length (bp5758d_bytes f) = 17"
    unfolding f by (rule nth_bp5758d_bytes(4) [of _ 0]; (intro bp5758d_frame_fields [OF ch])?) (simp_all split: option.splits)
  then have n': "0 < n" "n < 256" "n \<le> length (bp5758d_bytes f)" by (auto simp: n)
  obtain w' ops where r: "tdd_dimmer_i2c_flag_send_data (b5_pin d) (I2C_FLAG_WR OR I2C_FLAG_NO_ADDR) (bp5758d_bytes f) (of_nat n) w
        = Some (OPRT_OK, w')"
      "gpio_ops w' = gpio_ops w @ ops" "sda_in w' = sda_in w" "lines_after (b5_pin d) l ops = idle_lines"
      "\<And>t. receive None (watch (b5_pin d) l ops @ t) = take n (bp5758d_bytes f) # receive None t"
    using frame_sent [OF assms(1,2) _ n', of "I2C_FLAG_WR OR I2C_FLAG_NO_ADDR" w] assms(3) by blast
  have "bp5758d_send_prot (Some d) mode enable c w = Some (OPRT_OK, Some (d\<lparr>b5_send_buf := f\<rparr>), w')"
    using r(1) by (simp add: bp5758d_send_prot_def send_data_flags n f bp5758d_frame_def Let_def split: if_splits)
  then show ?thesis using r by blast
qed

lemma bit_fold_set_bits:
  "bit (fold (\<lambda>(ch_id, x) a. a OR push_bit (unat ch_id) 1) kxs a) n \<longleftrightarrow>
     bit a n \<or> n < 8 \<and> n \<in> unat ` fst ` set kxs" for a :: u8
proof (induction kxs arbitrary: a)
  case (Cons kx kxs)
  have "bit (push_bit (unat (fst kx)) (1 :: u8)) n \<longleftrightarrow> n < 8 \<and> n = unat (fst kx)"
    unfolding bit_shl by (auto simp: bit_1_iff)
  then show ?case using Cons.IH by (auto simp only: fold_simps case_prod_unfold bit_or_iff list.simps image_insert insert_iff)
qed simp

text \<open>Five different channels are the five outputs of the chip, and all of them are enabled.\<close>

lemma channels_all:
  assumes "tdd_check_channel_cfg_param (Some c)" and "distinct (ch_array c)"
  shows "unat ` set (ch_array c) = {..<5}"
proof (rule card_subset_eq)
  show "unat ` set (ch_array c) \<subseteq> {..<5}" using checked_channels(1) [OF assms(1)] by auto
  have "card (unat ` set (ch_array c)) = card (set (map unat (ch_array c)))" by simp
  also have "\<dots> = 5" using distinct_channel_keys [OF assms(2)] by (simp only: distinct_card) simp
  finally show "card (unat ` set (ch_array c)) = card {..<5::nat}" by simp
qed simp

lemma ch_enable_all:
  assumes "tdd_check_channel_cfg_param (Some c)" and "distinct (ch_array c)"
  shows "bp5758d_get_ch_enable c = 0x1F"
proof (rule bit_word_eqI)
  fix n assume n: "n < LENGTH(8)"
  have "fst ` set (zip (ch_array c) (replicate 5 ())) = set (ch_array c)" by (simp flip: set_map)
  then have "bit (bp5758d_get_ch_enable c) n \<longleftrightarrow> n < 5"
    using n channels_all [OF assms] unfolding bp5758d_get_ch_enable_def for_channels_checked [OF assms(1)] bit_fold_set_bits
    by simp
  moreover have "bit (0x1F :: u8) n \<longleftrightarrow> n < 5"
    using bit_mask_iff [of 5 n, where 'a = u8] n by (simp add: mask_eq_exp_minus_1)
  ultimately show "bit (bp5758d_get_ch_enable c) n \<longleftrightarrow> bit (0x1F :: u8) n" by simp
qed

text \<open>Opening the bus shows an idle receiver nothing.\<close>

lemma conveys_init:
  assumes "scl p \<noteq> sda p"
  obtains ops where "\<And>w. sw_i2c_init p w = put_ops ops w" "lines_after p l ops = idle_lines"
    "\<And>t. receive None (watch p l ops @ t) = receive None t"
  using assms
  by (intro that [of "[Gpio_init (scl p) (sda_cfg False), Gpio_init (sda p) (sda_cfg False),
      Gpio_write (scl p) True, Gpio_write (sda p) True]"])
    (cases l, simp_all add: sw_i2c_init_def pin_defs sda_cfg_def lines_after_def)

lemma watch_append: "watch p l (xs @ ys) = watch p l xs @ watch p (lines_after p l xs) ys"
  by (induction xs arbitrary: l) (simp_all add: lines_after_def)

lemma lines_after_append: "lines_after p l (xs @ ys) = lines_after p (lines_after p l xs) ys"
  by (simp add: lines_after_def)

lemma setting_bytes: "bp5758d_bytes f ! 0 = b5_addr f AND 0x0F OR push_bit 4 (b5_mode f AND 0x03) OR push_bit 6 (b5_tag f AND 0x03)"
  "bp5758d_bytes f ! 1 = b5_enable f" "take 1 (bp5758d_bytes f) = [bp5758d_bytes f ! 0]"
  by (simp_all add: bp5758d_bytes_def)

text \<open>What the chip makes of a frame in work mode: the enabled outputs, and of each output the current and the grey value.\<close>

definition bp5758d_shows :: "DIMMER_CH_CFG_U \<Rightarrow> BP5758D_CFG_T \<Rightarrow> u8 \<Rightarrow> u16 list \<Rightarrow> u8 list \<Rightarrow> bool" where
  "bp5758d_shows ch cfg enable grays frame \<longleftrightarrow>
     length frame = 17 \<and> frame ! 0 = 0x90 \<and> frame ! 1 = enable \<and>
     (\<forall>i < 5. let k = unat (ch_array ch ! i) in
        frame ! (2 + k) = cur_array (b5_max_curr_code cfg) ! i \<and>
        unat (frame ! (7 + 2 * k)) + 32 * unat (frame ! (8 + 2 * k)) = unat (grays ! i))"

lemma bp5758d_frame_shows:
  assumes ch: "tdd_check_channel_cfg_param (Some (b5_ch_cfg d))" "distinct (ch_array (b5_ch_cfg d))"
    and "length vs = 5" and "\<And>i. i < 5 \<Longrightarrow> (case vs ! i of None \<Rightarrow> grays ! i = 0 | Some v \<Rightarrow> grays ! i = v \<and> unat v < 1024)"
    and "b5_max_cur d = b5_max_curr_code cfg"
  shows "bp5758d_shows (b5_ch_cfg d) cfg enable grays (bp5758d_bytes (bp5758d_frame d 1 enable vs))"
proof -
  define f where "f = bp5758d_frame d 1 enable vs"
  note fields = bp5758d_frame_fields [OF ch assms(3), where mode = 1 and enable = enable, folded f_def]
  have out: "unat (fst (b5_out f ! unat (ch_array (b5_ch_cfg d) ! i)) AND 0x1F)
      + 32 * unat (snd (b5_out f ! unat (ch_array (b5_ch_cfg d) ! i)) AND 0x1F) = unat (grays ! i)" if "i < 5" for i
    using fields(8) [OF that] assms(4) [OF that] gray_halves by (auto split: option.splits)
  have k: "unat (ch_array (b5_ch_cfg d) ! i) < 5" if "i < 5" for i
    using that by (intro checked_channels [OF ch(1)]) simp
  have "length (bp5758d_bytes f) = 17" using nth_bp5758d_bytes(4) [OF fields(5,6), of 0] by simp
  then show ?thesis
    unfolding bp5758d_shows_def f_def [symmetric] Let_def
    using nth_bp5758d_bytes(1-3) [OF fields(5,6) k] setting_bytes [of f] fields out assms(5) by auto
qed

lemma bp5758d_work_mode:
  assumes "tdd_check_channel_cfg_param (Some ch)"
  shows "bp5758d_get_work_mode ch (Some c) = (if rgbcw_array c = replicate 5 0 then 0 else 1)"
proof -
  have "x \<in> set (ch_array ch) \<Longrightarrow> x \<noteq> DIMMER_CH_ID_INVALID" for x using checked_channels(2) [OF assms] by blast
  then show ?thesis
    by (auto simp: bp5758d_get_work_mode_def ch_array_def rgbcw_array_def eval_nat_numeral)
qed

text \<open>One output: a frame with the colours, and before sleep a frame that darkens all outputs.\<close>

lemma bp5758d_output_received:
  assumes "scl (b5_pin d) \<noteq> sda (b5_pin d)" and "l_out l" and "\<And>k. \<exists>j \<le> 10. \<not> sda_in w (k + j)"
    and ch: "tdd_check_channel_cfg_param (Some (b5_ch_cfg d))" "distinct (ch_array (b5_ch_cfg d))"
    and cfg: "b5_max_cur d = b5_max_curr_code cfg" and gray: "\<And>i. i < 5 \<Longrightarrow> unat (rgbcw_array c ! i) < 1024"
  defines "off \<equiv> rgbcw_array c = replicate 5 0"
  obtains d' w' ops frame where "tdd_dimmer_bp5758d_output (Some d) (Some c) w = Some (OPRT_OK, Some d', w')"
    "gpio_ops w' = gpio_ops w @ ops"
    "bp5758d_shows (b5_ch_cfg d) cfg (if off then 0 else b5_ch_enable d) (rgbcw_array c) frame"
    "receive None (watch (b5_pin d) l ops) = (if off then [frame, [0x80]] else [frame])"
proof (cases off)
  case False
  define f where "f = bp5758d_frame d 1 (b5_ch_enable d) (map Some (rgbcw_array c))"
  obtain w' ops where s: "bp5758d_send_prot (Some d) 1 (b5_ch_enable d) (Some c) w = Some (OPRT_OK, Some (d\<lparr>b5_send_buf := f\<rparr>), w')"
      "gpio_ops w' = gpio_ops w @ ops"
      "\<And>t. receive None (watch (b5_pin d) l ops @ t) = take 17 (bp5758d_bytes f) # receive None t"
    using bp5758d_send [OF assms(1-3) ch, of f 1 "b5_ch_enable d" "Some c" 17] by (auto simp: f_def)
  have shows': "bp5758d_shows (b5_ch_cfg d) cfg (b5_ch_enable d) (rgbcw_array c) (bp5758d_bytes f)"
    unfolding f_def using gray by (intro bp5758d_frame_shows [OF ch _ _ cfg]) simp_all
  then have "length (bp5758d_bytes f) = 17" by (simp add: bp5758d_shows_def)
  then have "receive None (watch (b5_pin d) l ops) = [bp5758d_bytes f]" using s(3) [of "[]"] by simp
  with s(1,2) shows' False show thesis
    by (intro that) (simp_all add: tdd_dimmer_bp5758d_output_def bp5758d_work_mode [OF ch(1)] off_def)
next
  case True
  define f1 where "f1 = bp5758d_frame d 1 0 (replicate 5 None)"
  define d1 where "d1 = d\<lparr>b5_send_buf := f1\<rparr>"
  define f2 where "f2 = bp5758d_frame d1 0 0 (map Some (rgbcw_array c))"
  obtain w1 ops1 where s1: "bp5758d_send_prot (Some d) 1 0 None w = Some (OPRT_OK, Some d1, w1)"
      "gpio_ops w1 = gpio_ops w @ ops1" "sda_in w1 = sda_in w" "lines_after (b5_pin d) l ops1 = idle_lines"
      "\<And>t. receive None (watch (b5_pin d) l ops1 @ t) = take 17 (bp5758d_bytes f1) # receive None t"
    using bp5758d_send [OF assms(1-3) ch, of f1 1 0 None 17] by (auto simp: f1_def d1_def)
  obtain w2 ops2 where s2: "bp5758d_send_prot (Some d1) 0 0 (Some c) w1 = Some (OPRT_OK, Some (d1\<lparr>b5_send_buf := f2\<rparr>), w2)"
      "gpio_ops w2 = gpio_ops w1 @ ops2"
      "\<And>t. receive None (watch (b5_pin d1) idle_lines ops2 @ t) = take 1 (bp5758d_bytes f2) # receive None t"
    using bp5758d_send [of d1 idle_lines w1 f2 0 0 "Some c" 1] assms(1,3) ch s1(3) by (auto simp: f2_def d1_def)
  have shows': "bp5758d_shows (b5_ch_cfg d) cfg 0 (rgbcw_array c) (bp5758d_bytes f1)"
    unfolding f1_def using True by (intro bp5758d_frame_shows [OF ch _ _ cfg]) (simp_all add: off_def)
  have d1: "b5_ch_cfg d1 = b5_ch_cfg d" "b5_pin d1 = b5_pin d" by (simp_all add: d1_def)
  have "b5_addr f2 = 0" "b5_mode f2 = 0" "b5_tag f2 = 2"
    using bp5758d_frame_fields [of d1 "map Some (rgbcw_array c)"] ch d1 by (simp_all add: f2_def)
  then have "take 1 (bp5758d_bytes f2) = [0x80]" using setting_bytes [of f2] by simp
  moreover have "length (bp5758d_bytes f1) = 17" using shows' by (simp add: bp5758d_shows_def)
  ultimately have "receive None (watch (b5_pin d) l (ops1 @ ops2)) = [bp5758d_bytes f1, [0x80]]"
    using s1(4,5) s2(3) [of "[]"] d1 by (simp add: watch_append)
  with s1 s2(1,2) shows' True show thesis
    by (intro that [of "d1\<lparr>b5_send_buf := f2\<rparr>" w2 "ops1 @ ops2" "bp5758d_bytes f1"])
      (simp_all add: tdd_dimmer_bp5758d_output_def bp5758d_work_mode [OF ch(1)] off_def)
qed

text \<open>What registration leaves in the node.\<close>

lemma bp5758d_registered:
  assumes "tdd_dimmer_bp5758d_register env l name (Some p) (Some ch) (Some cfg) = (OPRT_OK, l @ [d0])"
  shows "tdd_check_channel_cfg_param (Some ch)" "drv_type d0 = DIMMER_DRIVER_IIC" "drv_resolution d0 = 1023"
    "dim_intfs d0 = bp5758d_intfs"
    "dim_handle d0 = Some \<lparr>b5_pin = p, b5_max_cur = b5_max_curr_code cfg, b5_ch_cfg = ch,
       b5_ch_enable = bp5758d_get_ch_enable ch, b5_send_buf = bp5758d_clear\<rparr>"
  using assms
  by (auto simp: tdd_dimmer_bp5758d_register_def i2c_register_def tdl_dimmer_register_def
      static_tdl_dimmer_register_def split: if_splits option.splits)

lemma scaled_gray: "scaled_ok app_res 1023 v u \<Longrightarrow> unat u < 1024"
  by (auto simp: scaled_ok_def word_le_nat_alt)

text \<open>C4: A light on a BP5758D from registration to the wires: once registered with five different channels and
opened, every colour an application writes reaches the chip as one 17-byte frame in work mode, with
all five outputs enabled, in which the output of each colour carries the current configured for that
colour and its value scaled to ten bits, in two halves of five. When the scaled colour is black the chip gets a
frame with every output disabled and dark, and then the byte that puts it to sleep.\<close>
theorem bp5758d_light:
  assumes reg: "tdd_dimmer_bp5758d_register env l name (Some p) (Some ch) (Some cfg) = (OPRT_OK, l @ [d0])"
    and pins: "scl p \<noteq> sda p" and "distinct (ch_array ch)" and "0 < app_res"
    and answers: "\<And>k. \<exists>j \<le> 10. \<not> sda_in w0 (k + j)"
  shows "\<exists>d1 w1 d2 w2 ops out frame. tdl_dimmer_open (Some d0) app_res w0 = Some (OPRT_OK, Some d1, w1)
    \<and> tdl_dimmer_output (Some d1) (Some c) w1 = Some (OPRT_OK, Some d2, w2)
    \<and> scale_rgbcw app_res 1023 c = Some out \<and> gpio_ops w2 = gpio_ops w0 @ ops
    \<and> (if rgbcw_array out = [0, 0, 0, 0, 0]
       then bp5758d_shows ch cfg 0 (rgbcw_array out) frame \<and> receive None (watch p lines0 ops) = [frame, [0x80]]
       else bp5758d_shows ch cfg 0x1F (rgbcw_array out) frame \<and> receive None (watch p lines0 ops) = [frame])"
proof -
  note d0 = bp5758d_registered [OF reg]
  define drv where "drv = \<lparr>b5_pin = p, b5_max_cur = b5_max_curr_code cfg, b5_ch_cfg = ch,
       b5_ch_enable = bp5758d_get_ch_enable ch, b5_send_buf = bp5758d_clear\<rparr>"
  obtain out where out: "scale_rgbcw app_res 1023 c = Some out"
      "\<And>i. i < 5 \<Longrightarrow> scaled_ok app_res 1023 (rgbcw_array c ! i) (rgbcw_array out ! i)"
    by (rule scale_rgbcw_ok [of 1023 app_res c]) (use assms(4) in auto)
  obtain ops0 where init: "\<And>w. sw_i2c_init p w = put_ops ops0 w" "lines_after p lines0 ops0 = idle_lines"
      "\<And>t. receive None (watch p lines0 ops0 @ t) = receive None t"
    using conveys_init [OF pins, of lines0] by blast
  define d1 where "d1 = d0\<lparr>app_resolution := app_res\<rparr>"
  define w1 where "w1 = put_ops ops0 w0"
  have opened: "tdl_dimmer_open (Some d0) app_res w0 = Some (OPRT_OK, Some d1, w1)"
    using d0(4,5) by (simp add: tdl_dimmer_open_def static_tdl_dimmer_open_def drv_call_def bp5758d_intfs_def
        tdd_dimmer_bp5758d_open_def i2c_open_def tdd_sw_i2c_init_def init(1) d1_def w1_def)
  have gray: "\<And>i. i < 5 \<Longrightarrow> unat (rgbcw_array out ! i) < 1024" using scaled_gray out(2) by blast
  define off where "off \<longleftrightarrow> rgbcw_array out = replicate 5 0"
  have drv: "b5_pin drv = p" "b5_max_cur drv = b5_max_curr_code cfg" "b5_ch_cfg drv = ch" "b5_ch_enable drv = 0x1F"
    using ch_enable_all [OF d0(1) assms(3)] by (simp_all add: drv_def)
  have answers1: "\<And>k. \<exists>j \<le> 10. \<not> sda_in w1 (k + j)" using answers by (simp add: w1_def)
  obtain drv' w2 ops frame where sent: "tdd_dimmer_bp5758d_output (Some drv) (Some out) w1 = Some (OPRT_OK, Some drv', w2)"
      "gpio_ops w2 = gpio_ops w1 @ ops" "bp5758d_shows ch cfg (if off then 0 else 0x1F) (rgbcw_array out) frame"
      "receive None (watch p idle_lines ops) = (if off then [frame, [0x80]] else [frame])"
    using bp5758d_output_received [of drv idle_lines w1 cfg out, unfolded drv off_def [symmetric], OF pins _ answers1 d0(1) assms(3) refl gray]
    by (simp only: lines.simps) blast
  define d2 where "d2 = d1\<lparr>rgbcw := c, output_rgbcw := out, dim_handle := Some drv'\<rparr>"
  have "tdl_dimmer_output (Some d1) (Some c) w1 = Some (OPRT_OK, Some d2, w2)"
    using sent(1) out(1) d0 by (simp add: tdl_dimmer_output_def static_tdl_dimmer_output_def d1_def d2_def
        bp5758d_intfs_def drv_def [symmetric])
  moreover have "receive None (watch p lines0 (ops0 @ ops)) = (if off then [frame, [0x80]] else [frame])"
    using init(2,3) sent(4) by (simp add: watch_append)
  moreover have "gpio_ops w2 = gpio_ops w0 @ ops0 @ ops" using sent(2) by (simp add: w1_def)
  moreover have "off \<longleftrightarrow> rgbcw_array out = [0, 0, 0, 0, 0]" by (simp add: off_def eval_nat_numeral)
  ultimately show ?thesis using opened out(1) sent(3) by (auto split: if_splits)
qed

definition ex_ch :: DIMMER_CH_CFG_U where "ex_ch = \<lparr>ch_r = 2, ch_g = 1, ch_b = 0, ch_c = 4, ch_w = 3\<rparr>"
definition ex_b5 :: BP5758D_CFG_T where
  "ex_b5 = \<lparr>b5_max_curr_code = \<lparr>cur_r = 10, cur_g = 11, cur_b = 12, cur_c = 13, cur_w = 14\<rparr>\<rparr>"
definition ex_dim_env :: dim_env where "ex_dim_env = \<lparr>dim_drv_m = True, dim_node_m = True, dim_mutex = 0\<rparr>"

theorem bp5758d_light_witness:
  "\<exists>d0 d1 w1 d2 w2 frame. tdd_dimmer_bp5758d_register ex_dim_env [] (Some ''lamp'') (Some ex_pins) (Some ex_ch) (Some ex_b5) = (OPRT_OK, [d0])
    \<and> tdl_dimmer_open (Some d0) 1000 (ex_bus (\<lambda>_. False)) = Some (OPRT_OK, Some d1, w1)
    \<and> tdl_dimmer_output (Some d1) (Some (rgbcw_zero\<lparr>s_red := 500\<rparr>)) w1 = Some (OPRT_OK, Some d2, w2)
    \<and> receive None (watch ex_pins idle_lines (gpio_ops w2)) = [frame]
    \<and> frame ! 4 = 10 \<and> unat (frame ! 11) + 32 * unat (frame ! 12) = 511"
proof -
  obtain d0 where reg: "tdd_dimmer_bp5758d_register ex_dim_env [] (Some ''lamp'') (Some ex_pins) (Some ex_ch) (Some ex_b5) = (OPRT_OK, [] @ [d0])"
    by (simp add: tdd_dimmer_bp5758d_register_def i2c_register_def ex_dim_env_def tdd_check_channel_cfg_param_def ex_ch_def
        rgb_ch_def cw_ch_def tdl_dimmer_register_def bp5758d_intfs_def static_tdl_dimmer_register_def static_tdl_dimmer_find_def)
  have out: "scale_rgbcw 1000 1023 (rgbcw_zero\<lparr>s_red := 500\<rparr>) = Some (rgbcw_zero\<lparr>s_red := 511\<rparr>)"
    by (simp add: scale_rgbcw_def output_channel_def)
  have answers: "\<exists>j \<le> 10. \<not> sda_in (ex_bus (\<lambda>_. False)) (k + j)" for k by (auto simp: ex_bus_def)
  obtain d1 w1 d2 w2 ops frame where r: "tdl_dimmer_open (Some d0) 1000 (ex_bus (\<lambda>_. False)) = Some (OPRT_OK, Some d1, w1)"
      "tdl_dimmer_output (Some d1) (Some (rgbcw_zero\<lparr>s_red := 500\<rparr>)) w1 = Some (OPRT_OK, Some d2, w2)"
      "gpio_ops w2 = gpio_ops (ex_bus (\<lambda>_. False)) @ ops" "bp5758d_shows ex_ch ex_b5 0x1F [511, 0, 0, 0, 0] frame"
      "receive None (watch ex_pins idle_lines ops) = [frame]"
    using bp5758d_light [OF reg _ _ _ answers, of 1000 "rgbcw_zero\<lparr>s_red := 500\<rparr>" idle_lines] out
    by (auto simp: ex_pins_def ex_ch_def ch_array_def rgbcw_array_def)
  from r(4) have "frame ! 4 = 10 \<and> unat (frame ! 11) + 32 * unat (frame ! 12) = 511"
    unfolding bp5758d_shows_def by (auto simp: ex_ch_def ch_array_def cur_array_def ex_b5_def Let_def dest: spec [of _ 0])
  with reg r show ?thesis by (auto simp: ex_bus_def)
qed

section \<open>Current codes\<close>

text \<open>Bit 6 of a BP5758D current code stands for 30 mA, the bits below it for one mA and up.\<close>

definition bp5758d_milliamps :: "u8 \<Rightarrow> nat" where
  "bp5758d_milliamps code = unat (take_bit 6 code) + (if bit code 6 then 30 else 0)"

lemma and_0x3f: "(w :: u8) AND 0x3F = take_bit 6 w"
  by (simp add: take_bit_eq_mask mask_eq_exp_minus_1)

text \<open>The current code of the BP5758D stands for the current that was asked for, up to the 90 mA the chip can
do: a current in reach is met exactly.\<close>
theorem bp5758d_current_exact:
  "bp5758d_milliamps (tdd_dimmer_bp5758d_convert_curr_code ma) = min (unat ma) 90"
proof -
  define t :: u8 where "t = (if ma > 90 then 90 else ma)"
  have t: "unat t = min (unat ma) 90" by (auto simp: t_def word_less_nat_alt min_def)
  have code: "tdd_dimmer_bp5758d_convert_curr_code ma = (if t \<le> 63 then take_bit 6 t else 0x40 OR take_bit 6 (t - 30))"
    by (simp only: tdd_dimmer_bp5758d_convert_curr_code_def Let_def t_def and_0x3f)
  have b6: "bit (0x40 :: u8) n \<longleftrightarrow> n = 6" for n using bit_exp_iff [of 6 n, where 'a = u8] by auto
  show ?thesis
  proof (cases "t \<le> 63")
    case True
    then have "unat (take_bit 6 t) = unat t" by (simp only: unsigned_take_bit_eq) (simp add: take_bit_eq_mod word_le_nat_alt)
    then have "take_bit 6 t = t" by (simp only: word_unat_eq_iff)
    moreover from this have "\<not> bit t 6" by (metis bit_take_bit_iff less_irrefl)
    ultimately show ?thesis using True t by (simp add: code bp5758d_milliamps_def)
  next
    case False
    then have u: "unat (t - 30) = unat t - 30" by (subst unat_sub) (auto simp: word_le_nat_alt)
    have "take_bit 6 (0x40 OR take_bit 6 (t - 30)) = take_bit 6 (t - 30)"
      by (rule bit_word_eqI) (auto simp: bit_take_bit_iff bit_or_iff b6)
    moreover have "bit (0x40 OR take_bit 6 (t - 30)) 6" by (simp add: bit_or_iff b6)
    moreover have "unat (take_bit 6 (t - 30)) = unat t - 30"
      using t by (simp only: unsigned_take_bit_eq u) (simp add: take_bit_eq_mod)
    ultimately show ?thesis using False t by (simp add: code bp5758d_milliamps_def word_le_nat_alt)
  qed
qed

lemma shifted_twice:
  "push_bit 4 (push_bit 4 x) = (0 :: u8)" "push_bit 4 (push_bit 4 x AND 0x07) = (0 :: u8)"
proof -
  have 7: "bit (0x07 :: u8) n \<longleftrightarrow> n < 3" for n using bit_mask_iff [of 3 n, where 'a = u8] by (auto simp: mask_eq_exp_minus_1)
  have "push_bit 4 x AND 0x07 = (0 :: u8)"
    by (rule bit_word_eqI) (simp only: bit_and_iff bit_shl 7 bit_0_eq bot_apply, auto)
  then show "push_bit 4 (push_bit 4 x AND 0x07) = (0 :: u8)" by simp
  show "push_bit 4 (push_bit 4 x) = (0 :: u8)"
    by (rule bit_word_eqI) (simp only: bit_shl bit_0_eq bot_apply, auto)
qed

lemma registered_code:
  assumes "i2c_register env l nm p ch cfg mk intfs res = (OPRT_OK, l @ [d])"
  obtains pin c g where "dim_handle d = Some (mk pin c g)" "cfg = Some g"
  using assms by (auto simp: i2c_register_def tdl_dimmer_register_def static_tdl_dimmer_register_def
      split: option.splits if_splits)

text \<open>The conversion functions for the colour current of the SM2135E, SM2135EH and SM2235EGH return a code that
already stands in the upper half of the byte, and registration shifts it there once more: whatever
current is asked for, the driver ends up with colour code zero, the smallest current.\<close>
theorem colour_current_lost:
  assumes "tdd_dimmer_sm2135e_register env l1 nm p ch
      (Some \<lparr>cc_color = tdd_dimmer_sm2135e_convert_rgb_curr_code ma, cc_white = white\<rparr>) = (OPRT_OK, l1 @ [d1])"
    and "tdd_dimmer_sm2135ex_register env l2 nm p ch
      (Some \<lparr>cc_color = tdd_dimmer_sm2135eh_convert_rgb_curr_code ma, cc_white = white\<rparr>) = (OPRT_OK, l2 @ [d2])"
    and "tdd_dimmer_sm2x35egh_register env l3 nm p ch
      (Some \<lparr>cc_color = tdd_dimmer_sm2235egh_convert_rgb_curr_code ma, cc_white = white\<rparr>) = (OPRT_OK, l3 @ [d3])"
  shows "map_option se_max_cur_code (dim_handle d1) = Some (white AND 0x0F)
    \<and> map_option sx_max_cur_code (dim_handle d2) = Some (white AND 0x0F)
    \<and> map_option s2_max_cur_code (dim_handle d3) = Some (white AND 0x0F)"
proof (intro conjI)
  have code: "push_bit 4 (tdd_dimmer_sm2135e_convert_rgb_curr_code ma AND 0x07) = 0"
    "push_bit 4 (tdd_dimmer_sm2135eh_convert_rgb_curr_code ma AND 0x07) = 0"
    "push_bit 4 (tdd_dimmer_sm2235egh_convert_rgb_curr_code ma) = 0"
    by (simp_all only: tdd_dimmer_sm2135e_convert_rgb_curr_code_def tdd_dimmer_sm2135eh_convert_rgb_curr_code_def
        tdd_dimmer_sm2235egh_convert_rgb_curr_code_def Let_def shifted_twice)
  obtain pin c where "dim_handle d1 = Some \<lparr>se_pin = pin, se_max_cur_code = push_bit 4 (tdd_dimmer_sm2135e_convert_rgb_curr_code ma AND 0x07)
      OR white AND 0x0F, se_ch_cfg = c, se_send_buf = sm2135e_clear\<rparr>"
    using assms(1) unfolding tdd_dimmer_sm2135e_register_def by (rule registered_code) auto
  then show "map_option se_max_cur_code (dim_handle d1) = Some (white AND 0x0F)" unfolding code by simp
  obtain pin c where "dim_handle d2 = Some \<lparr>sx_pin = pin, sx_max_cur_code = push_bit 4 (tdd_dimmer_sm2135eh_convert_rgb_curr_code ma AND 0x07)
      OR white AND 0x0F, sx_ch_cfg = c, sx_send_buf = sm2135ex_clear\<rparr>"
    using assms(2) unfolding tdd_dimmer_sm2135ex_register_def by (rule registered_code) auto
  then show "map_option sx_max_cur_code (dim_handle d2) = Some (white AND 0x0F)" unfolding code by simp
  obtain pin c where "dim_handle d3 = Some \<lparr>s2_pin = pin, s2_max_cur_code = push_bit 4 (tdd_dimmer_sm2235egh_convert_rgb_curr_code ma)
      OR white AND 0x0F, s2_ch_cfg = c, s2_send_buf = sm2x35egh_clear\<rparr>"
    using assms(3) unfolding tdd_dimmer_sm2x35egh_register_def by (rule registered_code) auto
  then show "map_option s2_max_cur_code (dim_handle d3) = Some (white AND 0x0F)" unfolding code by simp
qed

text \<open>The three registrations succeed for the channels of the example.\<close>

theorem colour_current_lost_witness:
  "\<exists>d1 d2 d3. tdd_dimmer_sm2135e_register ex_dim_env [] (Some ''lamp'') (Some ex_pins) (Some ex_ch)
        (Some \<lparr>cc_color = tdd_dimmer_sm2135e_convert_rgb_curr_code 40, cc_white = 4\<rparr>) = (OPRT_OK, [d1])
    \<and> tdd_dimmer_sm2135ex_register ex_dim_env [] (Some ''lamp'') (Some ex_pins) (Some ex_ch)
        (Some \<lparr>cc_color = tdd_dimmer_sm2135eh_convert_rgb_curr_code 40, cc_white = 4\<rparr>) = (OPRT_OK, [d2])
    \<and> tdd_dimmer_sm2x35egh_register ex_dim_env [] (Some ''lamp'') (Some ex_pins) (Some ex_ch)
        (Some \<lparr>cc_color = tdd_dimmer_sm2235egh_convert_rgb_curr_code 40, cc_white = 4\<rparr>) = (OPRT_OK, [d3])
    \<and> map_option se_max_cur_code (dim_handle d1) = Some 4 \<and> map_option sx_max_cur_code (dim_handle d2) = Some 4
    \<and> map_option s2_max_cur_code (dim_handle d3) = Some 4"
proof -
  note reg = i2c_register_def ex_dim_env_def tdd_check_channel_cfg_param_def ex_ch_def rgb_ch_def cw_ch_def
    tdl_dimmer_register_def static_tdl_dimmer_register_def static_tdl_dimmer_find_def
  obtain d1 where 1: "tdd_dimmer_sm2135e_register ex_dim_env [] (Some ''lamp'') (Some ex_pins) (Some ex_ch)
        (Some \<lparr>cc_color = tdd_dimmer_sm2135e_convert_rgb_curr_code 40, cc_white = 4\<rparr>) = (OPRT_OK, [] @ [d1])"
    by (simp add: reg tdd_dimmer_sm2135e_register_def sm2135e_intfs_def)
  obtain d2 where 2: "tdd_dimmer_sm2135ex_register ex_dim_env [] (Some ''lamp'') (Some ex_pins) (Some ex_ch)
        (Some \<lparr>cc_color = tdd_dimmer_sm2135eh_convert_rgb_curr_code 40, cc_white = 4\<rparr>) = (OPRT_OK, [] @ [d2])"
    by (simp add: reg tdd_dimmer_sm2135ex_register_def sm2135ex_intfs_def)
  obtain d3 where 3: "tdd_dimmer_sm2x35egh_register ex_dim_env [] (Some ''lamp'') (Some ex_pins) (Some ex_ch)
        (Some \<lparr>cc_color = tdd_dimmer_sm2235egh_convert_rgb_curr_code 40, cc_white = 4\<rparr>) = (OPRT_OK, [] @ [d3])"
    by (simp add: reg tdd_dimmer_sm2x35egh_register_def sm2x35egh_intfs_def)
  from colour_current_lost [OF 1 2 3] 1 2 3 show ?thesis by auto
qed

end
