(* ===== verification/Dimmer_Kp.thy ===== *)
theory Dimmer_Kp
  imports Dimmer_Chips
begin

text \<open>
  The KP18058 and KP18059 drivers, \<^verbatim>\<open>tdd_dimmer_kp1805x.c\<close>: every byte of a frame carries a parity bit, and
  the maximum current of the colour outputs follows the brightest colour. The driver computes the
  latter in \<^verbatim>\<open>float\<close>. All the numbers there are multiples of one half below \<^verbatim>\<open>2 ^ 24\<close>, so that the
  products are exact, and a quotient by 5 or 1.5 is either whole, and then exact, or further from the
  next whole number than a rounding step, so that its truncation is the one of the exact quotient;
  the model computes with the exact numbers.
\<close>

section \<open>Frames\<close>

record KP1805X_PROT_T =
  kp_addr :: u8
  kp_mode :: u8
  kp_tag :: u8
  kp_line_volt :: u8
  kp_rgb_max_curr :: u8
  kp_rgb_freq :: u8
  kp_cw_max_curr :: u8
  kp_out :: "(u8 \<times> u8) list"

text \<open>The check bits are the lowest of each byte, and clear until the parity is added.\<close>

definition kp1805x_bytes :: "KP1805X_PROT_T \<Rightarrow> u8 list" where
  "kp1805x_bytes f =
     [push_bit 1 (kp_addr f AND 0x0F) OR push_bit 5 (kp_mode f AND 0x03) OR push_bit 7 (kp_tag f AND 0x01),
      kp_line_volt f,
      push_bit 1 (kp_rgb_max_curr f AND 0x1F) OR push_bit 6 (kp_rgb_freq f AND 0x03),
      kp_cw_max_curr f] @
     concat (map (\<lambda>(high, low). [push_bit 1 (high AND 0x1F), push_bit 1 (low AND 0x1F)]) (kp_out f))"

abbreviation (input) KP18059_TYPE :: u8 where "KP18059_TYPE \<equiv> 0"
abbreviation (input) KP18058_TYPE :: u8 where "KP18058_TYPE \<equiv> 1"

record KP1805X_LVC_T =
  lvc_enable :: bool
  lvc_start_volt :: u8
  lvc_slope :: u8
  lvc_rc_filter_en :: bool

record DIMMER_KP1805X_CFG_T =
  kc_color :: u8
  kc_white :: u8
  kc_lvc :: KP1805X_LVC_T
  kc_dim_mode :: u8
  kc_dim_freq :: u8

record DIMMER_KP1805X_DRV_T =
  kd_type :: u8
  kd_line_volt :: u8
  kd_rgb_max_curr :: u8
  kd_rgb_freq :: u8
  kd_cw_max_curr :: u8
  kd_pin :: TDD_I2C_PIN_T
  kd_ch_cfg :: DIMMER_CH_CFG_U
  kd_send_buf :: "u8 list"

definition kp1805x_get_work_mode :: "DIMMER_CH_CFG_U \<Rightarrow> LIGHT_RGBCW_T option \<Rightarrow> u8" where
  "kp1805x_get_work_mode = get_work_mode"

definition kp1805x_parity_byte :: "u8 \<Rightarrow> u8" where
  "kp1805x_parity_byte b =
     (let (num, data) = fold (\<lambda>j (num, data). (if data AND 0x80 \<noteq> 0 then num + 1 else num, push_bit 1 data)) [0..<7] (0 :: nat, b)
      in if num mod 2 \<noteq> 0 then b OR 0x01 else b)"

definition kp1805x_add_parity_bit :: "u8 list \<Rightarrow> u8 list" where
  "kp1805x_add_parity_bit buf = map kp1805x_parity_byte buf"

definition get_rgb_new_imax_scale :: "u8 \<Rightarrow> nat \<Rightarrow> nat \<Rightarrow> nat" where
  "get_rgb_new_imax_scale type val imax_scale =
     (let i_min = (if type = KP18059_TYPE then 5 * imax_scale * val else 3 * imax_scale * val div 2) div 1024;
          new_imax_scale = (if type = KP18058_TYPE then 2 * i_min div 3 + 2
            else if type = KP18059_TYPE then i_min div 5 + 1 else 0)
      in if new_imax_scale > 32 then 32 else new_imax_scale)"

definition LIG_THREE_MAX :: "nat \<Rightarrow> nat \<Rightarrow> nat \<Rightarrow> nat" where
  "LIG_THREE_MAX x y z = (if x > y then if x > z then x else z else if y > z then y else z)"

definition tdd_dimmer_kp1805x_open ::
  "DIMMER_KP1805X_DRV_T option \<Rightarrow> sw_bus \<Rightarrow> (OPERATE_RET \<times> DIMMER_KP1805X_DRV_T option \<times> sw_bus) option" where
  "tdd_dimmer_kp1805x_open = i2c_open kd_pin"

definition tdd_dimmer_kp1805x_close ::
  "DIMMER_KP1805X_DRV_T option \<Rightarrow> sw_bus \<Rightarrow> (OPERATE_RET \<times> DIMMER_KP1805X_DRV_T option \<times> sw_bus) option" where
  "tdd_dimmer_kp1805x_close = i2c_close kd_pin"

definition kp1805x_put :: "nat \<Rightarrow> nat \<Rightarrow> u8 \<Rightarrow> u16 \<Rightarrow> KP1805X_PROT_T \<Rightarrow> KP1805X_PROT_T" where
  "kp1805x_put scale new_scale ch_id v f =
     (let new_val = (if rgb_ch ch_id \<and> new_scale \<noteq> 0 then of_nat (unat v * scale div new_scale) else v :: u16)
      in f\<lparr>kp_out := (kp_out f)[unat ch_id := (ucast (drop_bit 5 new_val), ucast (new_val AND 0x001F))]\<rparr>)"

definition tdd_dimmer_kp1805x_output ::
  "DIMMER_KP1805X_DRV_T option \<Rightarrow> LIGHT_RGBCW_T option \<Rightarrow> sw_bus
     \<Rightarrow> (OPERATE_RET \<times> DIMMER_KP1805X_DRV_T option \<times> sw_bus) option" where
  "tdd_dimmer_kp1805x_output p_drv p_rgbcw w =
     (case (p_drv, p_rgbcw) of
        (Some d, Some c) \<Rightarrow> do {
          let max_val = LIG_THREE_MAX (unat (s_red c)) (unat (s_green c)) (unat (s_blue c));
          let rgb_imax_scale = unat (kd_rgb_max_curr d AND 0x1F) + 1;
          let new_scale = get_rgb_new_imax_scale (kd_type d) max_val rgb_imax_scale;
          let f = \<lparr>kp_addr = 0, kp_mode = kp1805x_get_work_mode (kd_ch_cfg d) p_rgbcw, kp_tag = 1,
            kp_line_volt = kd_line_volt d, kp_rgb_max_curr = of_nat new_scale - 1, kp_rgb_freq = kd_rgb_freq d,
            kp_cw_max_curr = kd_cw_max_curr d, kp_out = replicate 5 (0, 0)\<rparr>;
          let f = for_channels (kd_ch_cfg d) (rgbcw_array c) (kp1805x_put rgb_imax_scale new_scale) f;
          let buf = kp1805x_add_parity_bit (kp1805x_bytes f);
          (r, w) \<leftarrow> tdd_dimmer_i2c_send_data (kd_pin d) buf 14 w;
          Some (r, Some (d\<lparr>kd_send_buf := buf\<rparr>), w) }
      | _ \<Rightarrow> Some (OPRT_INVALID_PARM, p_drv, w))"

definition kp1805x_intfs :: "(DIMMER_KP1805X_DRV_T, sw_bus) DIMMER_DRV_INTFS_T" where
  "kp1805x_intfs = \<lparr>di_open = Some tdd_dimmer_kp1805x_open, di_close = Some tdd_dimmer_kp1805x_close,
     di_output = Some tdd_dimmer_kp1805x_output\<rparr>"

definition tdd_dimmer_kp1805x_register ::
  "dim_env \<Rightarrow> (DIMMER_KP1805X_DRV_T, sw_bus) DIMMER_NODE_T list \<Rightarrow> string option \<Rightarrow> TDD_I2C_PIN_T option
     \<Rightarrow> DIMMER_CH_CFG_U option \<Rightarrow> DIMMER_KP1805X_CFG_T option \<Rightarrow> u8
     \<Rightarrow> OPERATE_RET \<times> (DIMMER_KP1805X_DRV_T, sw_bus) DIMMER_NODE_T list" where
  "tdd_dimmer_kp1805x_register env l name p_i2c p_ch_cfg p_chip_cfg tp =
     i2c_register env l name p_i2c p_ch_cfg p_chip_cfg
       (\<lambda>pin ch cfg. \<lparr>kd_type = tp,
          kd_line_volt = push_bit 1 (lvc_start_volt (kc_lvc cfg) AND 0x0F) OR push_bit 5 (lvc_slope (kc_lvc cfg) AND 0x03)
            OR push_bit 7 (of_bool (lvc_enable (kc_lvc cfg))),
          kd_rgb_max_curr = kc_color cfg AND 0x1F, kd_rgb_freq = kc_dim_freq cfg AND 0x03,
          kd_cw_max_curr = push_bit 1 (kc_white cfg AND 0x1F) OR push_bit 6 (of_bool (\<not> lvc_rc_filter_en (kc_lvc cfg)))
            OR push_bit 7 (kc_dim_mode cfg AND 0x01),
          kd_pin = pin, kd_ch_cfg = ch, kd_send_buf = replicate 14 0\<rparr>)
       kp1805x_intfs 1023"

definition tdd_dimmer_kp18058_register ::
  "dim_env \<Rightarrow> (DIMMER_KP1805X_DRV_T, sw_bus) DIMMER_NODE_T list \<Rightarrow> string option \<Rightarrow> TDD_I2C_PIN_T option
     \<Rightarrow> DIMMER_CH_CFG_U option \<Rightarrow> DIMMER_KP1805X_CFG_T option
     \<Rightarrow> OPERATE_RET \<times> (DIMMER_KP1805X_DRV_T, sw_bus) DIMMER_NODE_T list" where
  "tdd_dimmer_kp18058_register env l name p_i2c p_ch_cfg p_chip_cfg =
     tdd_dimmer_kp1805x_register env l name p_i2c p_ch_cfg p_chip_cfg KP18058_TYPE"

definition tdd_dimmer_kp18059_register ::
  "dim_env \<Rightarrow> (DIMMER_KP1805X_DRV_T, sw_bus) DIMMER_NODE_T list \<Rightarrow> string option \<Rightarrow> TDD_I2C_PIN_T option
     \<Rightarrow> DIMMER_CH_CFG_U option \<Rightarrow> DIMMER_KP1805X_CFG_T option
     \<Rightarrow> OPERATE_RET \<times> (DIMMER_KP1805X_DRV_T, sw_bus) DIMMER_NODE_T list" where
  "tdd_dimmer_kp18059_register env l name p_i2c p_ch_cfg p_chip_cfg =
     tdd_dimmer_kp1805x_register env l name p_i2c p_ch_cfg p_chip_cfg KP18059_TYPE"

definition tdd_dimmer_kp18058_convert_rgb_curr_code :: "u8 \<Rightarrow> u8" where
  "tdd_dimmer_kp18058_convert_rgb_curr_code current_ma =
     (let cur_tmp = (if current_ma > 48 then 48 else if current_ma < 2 then 2 else current_ma)
      in cur_tmp * 2 div 3 - 1)"

definition tdd_dimmer_kp18058_convert_cw_curr_code :: "u8 \<Rightarrow> u8" where
  "tdd_dimmer_kp18058_convert_cw_curr_code current_ma =
     (let cur_tmp = (if current_ma > 78 then 78 else current_ma) in cur_tmp * 2 div 5)"

definition tdd_dimmer_kp18059_convert_rgb_curr_code :: "u8 \<Rightarrow> u8" where
  "tdd_dimmer_kp18059_convert_rgb_curr_code current_ma =
     (let cur_tmp = (if current_ma > 160 then 160 else if current_ma < 5 then 5 else current_ma)
      in cur_tmp div 5 - 1)"

definition tdd_dimmer_kp18059_convert_cw_curr_code :: "u8 \<Rightarrow> u8" where
  "tdd_dimmer_kp18059_convert_cw_curr_code current_ma =
     (let cur_tmp = (if current_ma > 78 then 78 else current_ma) in cur_tmp * 2 div 5)"

section \<open>Parity\<close>

lemma count_top_bits:
  "fold (\<lambda>j (num, data). (if data AND 0x80 \<noteq> 0 then num + 1 else num, push_bit 1 data)) xs (num, d)
     = (num + length (filter id (msb_bits (length xs) d)), fold (\<lambda>j. push_bit 1) xs d)" for d :: u8 and num :: nat
  by (induction xs arbitrary: num d) (auto simp: and_msb case_prod_unfold)

definition ones :: "u8 \<Rightarrow> nat" where "ones b = length (filter (bit b) [0..<8])"

lemma parity_byte_eq:
  "kp1805x_parity_byte b = (if odd (length (filter (bit b) [1..<8])) then b OR 0x01 else b)"
proof -
  have "rev [1..<8] = map (\<lambda>i. 7 - i) [0..<7 :: nat]" by code_simp
  then have "filter id (msb_bits 7 b) = filter id (map (bit b) (rev [1..<8]))" by (simp add: msb_bits_nth comp_def)
  then have "length (filter id (msb_bits 7 b)) = length (filter (bit b) [1..<8])"
    by (simp add: filter_map rev_filter [symmetric] del: upt_Suc)
  then show ?thesis
    unfolding kp1805x_parity_byte_def count_top_bits by (simp add: odd_iff_mod_2_eq_one)
qed

text \<open>Every byte whose check bit is clear gets an even number of ones; the other bits stay.\<close>

lemma parity_byte_even:
  assumes "\<not> bit b 0"
  shows "even (ones (kp1805x_parity_byte b))"
proof -
  have split: "ones x = (if bit x 0 then 1 else 0) + length (filter (bit x) [1..<8])" for x
    using upt_conv_Cons [of 0 8] by (simp add: ones_def del: upt_Suc)
  have "bit (b OR 1) i \<longleftrightarrow> bit b i" if "i \<in> set [1..<8]" for i using that by (auto simp: bit_or_iff bit_1_iff)
  then have "filter (bit (b OR 1)) [1..<8] = filter (bit b) [1..<8]" by (intro filter_cong) auto
  then show ?thesis using assms by (simp add: parity_byte_eq split bit_or_iff del: upt_Suc)
qed

lemma parity_byte_drop: "drop_bit 1 (kp1805x_parity_byte b) = drop_bit 1 b"
  by (rule bit_word_eqI) (auto simp: parity_byte_eq bit_drop_bit_eq bit_or_iff bit_1_iff)

section \<open>The maximum current that follows the colour\<close>

lemma new_scale_range:
  assumes "type = KP18058_TYPE \<or> type = KP18059_TYPE" and "s \<le> 32" and "v \<le> 1023"
  defines "n \<equiv> get_rgb_new_imax_scale type v s"
  shows "1 \<le> n" "n \<le> 32" "s * v < 1024 * n"
proof -
  have "s * v \<le> 32 * 1023" using assms(2,3) by (rule mult_le_mono)
  then have cap: "s * v < 1024 * 32" by simp
  have 59: "5 * s * v div 1024 div 5 = s * v div 1024"
  proof -
    have "5 * s * v div 1024 div 5 = 5 * (s * v) div (5 * 1024)" by (simp add: div_mult2_eq [symmetric] mult.assoc)
    also have "\<dots> = s * v div 1024" by (rule div_mult_mult1) simp
    finally show ?thesis .
  qed
  have 58: "s * v < 1024 * (2 * (3 * s * v div 2 div 1024) div 3 + 2)"
  proof -
    define i where "i = 3 * s * v div 2 div 1024"
    have "3 * (s * v) < 2048 * (i + 1)"
      using dividend_less_div_times [of 2048 "3 * (s * v)"] by (simp add: i_def div_mult2_eq [symmetric] mult.assoc)
    moreover define q x where "q = 2 * i div 3" and "x = s * v"
    moreover have "2 * i < 3 * (q + 1)" using dividend_less_div_times [of 3 "2 * i"] by (simp add: q_def)
    ultimately have "x < 1024 * (q + 2)" by simp
    then show ?thesis by (simp add: x_def q_def i_def)
  qed
  have "s * v < 1024 * (s * v div 1024 + 1)" using dividend_less_div_times [of 1024 "s * v"] by simp
  with 58 59 cap assms(1) show "1 \<le> n" "n \<le> 32" "s * v < 1024 * n"
    by (auto simp: n_def get_rgb_new_imax_scale_def Let_def)
qed

text \<open>The same light from the new scale: current times grey value is what it was, up to less than one step.\<close>

lemma rescaled_gray:
  assumes "type = KP18058_TYPE \<or> type = KP18059_TYPE" and "s \<le> 32" and "v \<le> 1023" and "u \<le> v"
  defines "n \<equiv> get_rgb_new_imax_scale type v s"
  defines "g \<equiv> u * s div n"
  shows "g < 1024" "n * g \<le> s * u" "s * u < n * (g + 1)"
proof -
  note n = new_scale_range [OF assms(1-3), folded n_def]
  have "u * s \<le> s * v" using mult_le_mono1 [OF assms(4), of s] by (simp add: mult.commute)
  with n(3) have "u * s < 1024 * n" by (rule le_less_trans [rotated])
  then show "g < 1024" using n(1) by (simp add: g_def less_mult_imp_div_less)
  show "n * g \<le> s * u" by (simp add: g_def mult.commute [of s u] times_div_less_eq_dividend)
  show "s * u < n * (g + 1)"
    using dividend_less_div_times [of n "u * s"] n(1) by (simp add: g_def mult.commute)
qed

section \<open>Frames as the chip reads them\<close>

text \<open>Five bits above the check bit.\<close>

definition field5 :: "u8 \<Rightarrow> nat" where "field5 b = unat (drop_bit 1 b AND 0x1F)"

lemma field5_parity [simp]: "field5 (kp1805x_parity_byte b) = field5 b"
  by (simp only: field5_def parity_byte_drop)

lemma bit_0x1f: "bit (0x1F :: u8) n \<longleftrightarrow> n < 5"
  using bit_mask_iff [of 5 n, where 'a = u8] by (auto simp: mask_eq_exp_minus_1)

lemma field5_shift [simp]:
  "field5 (push_bit 1 (x AND 0x1F)) = unat (x AND 0x1F)"
  "field5 (push_bit 1 (x AND 0x1F) OR push_bit 6 y) = unat (x AND 0x1F)"
proof -
  have "drop_bit 1 (push_bit 1 (x AND 0x1F)) AND 0x1F = x AND 0x1F"
    "drop_bit 1 (push_bit 1 (x AND 0x1F) OR push_bit 6 y) AND 0x1F = x AND 0x1F"
    by (rule bit_word_eqI; simp only: bit_and_iff bit_or_iff bit_drop_bit_eq comp_apply bit_shl bit_0x1f; auto)+
  then show "field5 (push_bit 1 (x AND 0x1F)) = unat (x AND 0x1F)"
    "field5 (push_bit 1 (x AND 0x1F) OR push_bit 6 y) = unat (x AND 0x1F)"
    by (simp_all only: field5_def)
qed

text \<open>Before the parity is added the check bit of every byte is clear.\<close>

lemma bit0_shl: "0 < n \<Longrightarrow> \<not> bit (push_bit n (x :: u8)) 0"
  unfolding bit_shl by simp

lemma check_bits_clear:
  assumes "\<not> bit (kp_line_volt f) 0" and "\<not> bit (kp_cw_max_curr f) 0" and "b \<in> set (kp1805x_bytes f)"
  shows "\<not> bit b 0"
  using assms unfolding kp1805x_bytes_def by (auto simp: bit_0 even_or_iff even_and_iff even_push_bit_iff)

lemma nth_kp1805x_bytes:
  assumes "length (kp_out f) = 5" and "k < 5"
  shows "kp1805x_bytes f ! (4 + 2 * k) = push_bit 1 (fst (kp_out f ! k) AND 0x1F)"
    "kp1805x_bytes f ! (5 + 2 * k) = push_bit 1 (snd (kp_out f ! k) AND 0x1F)"
  using assms nth_concat_pairs [of k "kp_out f" "\<lambda>high. push_bit 1 (high AND 0x1F)" "\<lambda>low. push_bit 1 (low AND 0x1F)"]
  by (simp_all only: kp1805x_bytes_def nth_append) simp_all

lemma length_kp1805x_bytes: "length (kp_out f) = 5 \<Longrightarrow> length (kp1805x_bytes f) = 14"
  by (simp only: kp1805x_bytes_def length_append length_concat_pairs) simp

lemma kp1805x_bytes_2: "kp1805x_bytes f ! 2 = push_bit 1 (kp_rgb_max_curr f AND 0x1F) OR push_bit 6 (kp_rgb_freq f AND 0x03)"
  by (simp only: kp1805x_bytes_def nth_append) simp

lemma channel_outputs_id:
  assumes "tdd_check_channel_cfg_param (Some c)" and "distinct (ch_array c)" and "length xs = 5" and "length s = 5" and "i < 5"
  shows "fold (\<lambda>(ch_id, x) s. s[unat ch_id := g ch_id x]) (zip (ch_array c) xs) s ! unat (ch_array c ! i) = g (ch_array c ! i) (xs ! i)"
proof -
  have "fold (\<lambda>(ch_id, x) s. s[unat ch_id := g ch_id x]) (zip ks xs) s
      = fold (\<lambda>(ch_id, y) s. s[unat ch_id := case_prod g y]) (zip ks (zip ks xs)) s" for ks xs s
    by (induction ks xs arbitrary: s rule: list_induct2') auto
  then show ?thesis using channel_outputs [OF assms(1,2), of "zip (ch_array c) xs" s i "case_prod g"] assms(3-5) by simp
qed

definition kp1805x_val :: "nat \<Rightarrow> nat \<Rightarrow> u8 \<Rightarrow> u16 \<Rightarrow> u16" where
  "kp1805x_val s n ch_id v = (if rgb_ch ch_id \<and> n \<noteq> 0 then of_nat (unat v * s div n) else v)"

lemma kp1805x_put_fold:
  "fold (\<lambda>(ch_id, v). kp1805x_put s n ch_id v) kxs f = f\<lparr>kp_out := fold (\<lambda>(ch_id, v) out. out[unat ch_id :=
     (ucast (drop_bit 5 (kp1805x_val s n ch_id v)), ucast (kp1805x_val s n ch_id v AND 0x001F))]) kxs (kp_out f)\<rparr>"
  by (induction kxs arbitrary: f) (auto simp: kp1805x_put_def kp1805x_val_def Let_def)

text \<open>Colours are on the first three outputs and whites on the last two.\<close>

lemma checked_rgb: "tdd_check_channel_cfg_param (Some c) \<Longrightarrow> i < 5 \<Longrightarrow> rgb_ch (ch_array c ! i) \<longleftrightarrow> i < 3"
proof -
  assume c: "tdd_check_channel_cfg_param (Some c)" and "i < 5"
  have "\<not> rgb_ch x" if "cw_ch x" for x using that by (auto simp: rgb_ch_def cw_ch_def word_le_nat_alt)
  with c have ids: "rgb_ch (ch_r c)" "rgb_ch (ch_g c)" "rgb_ch (ch_b c)" "\<not> rgb_ch (ch_c c)" "\<not> rgb_ch (ch_w c)"
    by (simp_all add: tdd_check_channel_cfg_param_def)
  from \<open>i < 5\<close> consider "i = 0" | "i = 1" | "i = 2" | "i = 3" | "i = 4" by linarith
  then show ?thesis by cases (simp_all add: ch_array_def ids)
qed

text \<open>The registered driver, and the frame its output sends.\<close>

lemma kp1805x_registered:
  assumes "tdd_dimmer_kp1805x_register env l name (Some p) (Some ch) (Some cfg) tp = (OPRT_OK, l @ [d0])"
  obtains d where "dim_handle d0 = Some d" "tdd_check_channel_cfg_param (Some ch)" "kd_pin d = p" "kd_ch_cfg d = ch"
    "kd_type d = tp" "kd_rgb_max_curr d = kc_color cfg AND 0x1F" "\<not> bit (kd_line_volt d) 0" "\<not> bit (kd_cw_max_curr d) 0"
  using assms
  by (auto simp: tdd_dimmer_kp1805x_register_def i2c_register_def tdl_dimmer_register_def static_tdl_dimmer_register_def
      bit_0 even_or_iff even_and_iff even_push_bit_iff split: if_splits option.splits)

lemma length_fold_update_id [simp]: "length (fold (\<lambda>(k, x) s. s[unat k := g k x]) kxs s) = length s"
  by (induction kxs arbitrary: s) auto

definition kp1805x_frame :: "DIMMER_KP1805X_DRV_T \<Rightarrow> nat \<Rightarrow> nat \<Rightarrow> LIGHT_RGBCW_T \<Rightarrow> KP1805X_PROT_T" where
  "kp1805x_frame d s n c = for_channels (kd_ch_cfg d) (rgbcw_array c) (kp1805x_put s n)
    \<lparr>kp_addr = 0, kp_mode = kp1805x_get_work_mode (kd_ch_cfg d) (Some c), kp_tag = 1,
     kp_line_volt = kd_line_volt d, kp_rgb_max_curr = of_nat n - 1, kp_rgb_freq = kd_rgb_freq d,
     kp_cw_max_curr = kd_cw_max_curr d, kp_out = replicate 5 (0, 0)\<rparr>"

lemma kp1805x_frame_fields:
  assumes ch: "tdd_check_channel_cfg_param (Some (kd_ch_cfg d))" "distinct (ch_array (kd_ch_cfg d))"
  shows "length (kp_out (kp1805x_frame d s n c)) = 5" "kp_line_volt (kp1805x_frame d s n c) = kd_line_volt d"
    "kp_cw_max_curr (kp1805x_frame d s n c) = kd_cw_max_curr d" "kp_rgb_max_curr (kp1805x_frame d s n c) = of_nat n - 1"
    "i < 5 \<Longrightarrow> kp_out (kp1805x_frame d s n c) ! unat (ch_array (kd_ch_cfg d) ! i) =
      (ucast (drop_bit 5 (kp1805x_val s n (ch_array (kd_ch_cfg d) ! i) (rgbcw_array c ! i))),
       ucast (kp1805x_val s n (ch_array (kd_ch_cfg d) ! i) (rgbcw_array c ! i) AND 0x001F))"
  by (simp_all add: kp1805x_frame_def for_channels_checked [OF ch(1)] kp1805x_put_fold channel_outputs_id [OF ch])

lemma kp1805x_frame_reads:
  assumes ch: "tdd_check_channel_cfg_param (Some (kd_ch_cfg d))" "distinct (ch_array (kd_ch_cfg d))"
    and clear: "\<not> bit (kd_line_volt d) 0" "\<not> bit (kd_cw_max_curr d) 0"
    and buf: "buf = kp1805x_add_parity_bit (kp1805x_bytes (kp1805x_frame d s n c))"
  shows "length buf = 14" "\<forall>b \<in> set buf. even (ones b)" "field5 (buf ! 2) = unat ((of_nat n - 1 :: u8) AND 0x1F)"
    "i < 5 \<Longrightarrow> v = kp1805x_val s n (ch_array (kd_ch_cfg d) ! i) (rgbcw_array c ! i) \<Longrightarrow> unat v < 1024 \<Longrightarrow>
       32 * field5 (buf ! (4 + 2 * unat (ch_array (kd_ch_cfg d) ! i))) + field5 (buf ! (5 + 2 * unat (ch_array (kd_ch_cfg d) ! i))) = unat v"
proof -
  define f where "f = kp1805x_frame d s n c"
  note f = kp1805x_frame_fields [OF ch, where s = s and n = n and c = c, folded f_def]
  have buf: "buf = map kp1805x_parity_byte (kp1805x_bytes f)" by (simp add: buf kp1805x_add_parity_bit_def f_def)
  show "length buf = 14" using length_kp1805x_bytes [OF f(1)] by (simp add: buf)
  show "\<forall>b \<in> set buf. even (ones b)"
    using check_bits_clear [of f] clear f(2,3) by (auto simp: buf intro: parity_byte_even)
  have nth: "buf ! j = kp1805x_parity_byte (kp1805x_bytes f ! j)" if "j < 14" for j
    using that length_kp1805x_bytes [OF f(1)] by (simp add: buf)
  show "field5 (buf ! 2) = unat ((of_nat n - 1 :: u8) AND 0x1F)"
    by (subst nth, simp) (simp only: field5_parity kp1805x_bytes_2 field5_shift f(4))
  assume i: "i < 5" and v: "v = kp1805x_val s n (ch_array (kd_ch_cfg d) ! i) (rgbcw_array c ! i)" "unat v < 1024"
  define k where "k = unat (ch_array (kd_ch_cfg d) ! i)"
  have k: "k < 5" unfolding k_def using i by (intro checked_channels [OF ch(1)]) simp
  then have "4 + 2 * k < 14" "5 + 2 * k < 14" by simp_all
  note at = nth [OF this(1)] nth [OF this(2)]
  have "32 * field5 (buf ! (4 + 2 * k)) + field5 (buf ! (5 + 2 * k)) = unat v"
    unfolding at field5_parity nth_kp1805x_bytes [OF f(1) k] field5_shift f(5) [OF i, folded k_def v(1)] fst_conv snd_conv
    using gray_halves [OF v(2)] by (simp only: add.commute)
  then show "32 * field5 (buf ! (4 + 2 * unat (ch_array (kd_ch_cfg d) ! i)))
      + field5 (buf ! (5 + 2 * unat (ch_array (kd_ch_cfg d) ! i))) = unat v"
    unfolding k_def .
qed

lemma kp1805x_sent:
  assumes "scl (kd_pin d) \<noteq> sda (kd_pin d)" and "l_out l" and "\<And>k. \<exists>j \<le> 10. \<not> sda_in w (k + j)"
    and s: "s = unat (kd_rgb_max_curr d AND 0x1F) + 1"
    and n: "n = get_rgb_new_imax_scale (kd_type d) (LIG_THREE_MAX (unat (s_red c)) (unat (s_green c)) (unat (s_blue c))) s"
    and buf: "buf = kp1805x_add_parity_bit (kp1805x_bytes (kp1805x_frame d s n c))" and len: "length buf = 14"
  shows "\<exists>w' ops. tdd_dimmer_kp1805x_output (Some d) (Some c) w = Some (OPRT_OK, Some (d\<lparr>kd_send_buf := buf\<rparr>), w')
    \<and> gpio_ops w' = gpio_ops w @ ops \<and> receive None (watch (kd_pin d) l ops) = [buf]"
proof -
  have n14: "(0 :: nat) < 14" "(14 :: nat) < 256" "14 \<le> length buf" using len by simp_all
  have flags: "(I2C_FLAG_WR OR I2C_FLAG_NO_ADDR) = I2C_FLAG_WR OR I2C_FLAG_NO_ADDR \<and> (\<forall>k. \<exists>j \<le> 10. \<not> sda_in w (k + j))
      \<or> (I2C_FLAG_WR OR I2C_FLAG_NO_ADDR) = I2C_FLAG_WR OR I2C_FLAG_NO_ADDR OR I2C_FLAG_IGNORE_NACK" using assms(3) by blast
  obtain w' ops where sent: "tdd_dimmer_i2c_flag_send_data (kd_pin d) (I2C_FLAG_WR OR I2C_FLAG_NO_ADDR) buf (of_nat 14) w = Some (OPRT_OK, w')"
      "gpio_ops w' = gpio_ops w @ ops" "\<And>t. receive None (watch (kd_pin d) l ops @ t) = take 14 buf # receive None t"
    using frame_sent [OF assms(1,2) flags n14] by blast
  have "tdd_dimmer_kp1805x_output (Some d) (Some c) w = Some (OPRT_OK, Some (d\<lparr>kd_send_buf := buf\<rparr>), w')"
    using sent(1) by (simp add: tdd_dimmer_kp1805x_output_def send_data_flags Let_def buf kp1805x_frame_def n s)
  moreover have "receive None (watch (kd_pin d) l ops) = [buf]" using sent(3) [of "[]"] len by simp
  ultimately show ?thesis using sent(2) by blast
qed

section \<open>The property\<close>

lemma three_max: "LIG_THREE_MAX x y z = max x (max y z)"
  by (auto simp: LIG_THREE_MAX_def)

lemma unat_scale_code: "1 \<le> n \<Longrightarrow> n \<le> 32 \<Longrightarrow> unat ((of_nat n - 1 :: u8) AND 0x1F) + 1 = n"
proof -
  assume n: "1 \<le> n" "n \<le> 32"
  then obtain k where k: "n = Suc k" "k < 32" by (cases n) auto
  then have "unat (of_nat n - 1 :: u8) = k" by (simp add: unat_of_nat)
  then show ?thesis using k by (simp only: and_0x1f unsigned_take_bit_eq) (simp add: take_bit_eq_mod)
qed

lemma unat_5_bits: "unat ((x :: u8) AND 0x1F) < 32"
  by (simp only: and_0x1f unsigned_take_bit_eq) (simp add: take_bit_eq_mod)

text \<open>C20: What a KP18058 or KP18059 receives for a colour: one 14-byte frame, each byte with an even number of ones.
The maximum current of the colour outputs is scaled down with the brightest colour, and each colour's grey value up to
match: current times grey value differs from what the configured current and the colour's own value
would give by less than one step, and no grey value leaves its ten bits. The whites are sent as they are.\<close>
theorem kp1805x_light:
  assumes reg: "tdd_dimmer_kp1805x_register env l name (Some p) (Some ch) (Some cfg) tp = (OPRT_OK, l @ [d0])"
    and tp: "tp = KP18058_TYPE \<or> tp = KP18059_TYPE" and pins: "scl p \<noteq> sda p" and "distinct (ch_array ch)"
    and "l_out lns" and answers: "\<And>k. \<exists>j \<le> 10. \<not> sda_in w (k + j)"
    and gray: "\<And>i. i < 5 \<Longrightarrow> unat (rgbcw_array c ! i) \<le> 1023"
  shows "\<exists>h w' ops frame n. tdd_dimmer_kp1805x_output (dim_handle d0) (Some c) w = Some (OPRT_OK, h, w')
    \<and> gpio_ops w' = gpio_ops w @ ops \<and> receive None (watch p lns ops) = [frame] \<and> length frame = 14
    \<and> (\<forall>b \<in> set frame. even (ones b)) \<and> n = field5 (frame ! 2) + 1
    \<and> (\<forall>i < 5. let k = unat (ch_array ch ! i); g = 32 * field5 (frame ! (4 + 2 * k)) + field5 (frame ! (5 + 2 * k));
          s = unat (kc_color cfg AND 0x1F) + 1; v = unat (rgbcw_array c ! i) in
        if i < 3 then g \<le> 1023 \<and> n * g \<le> s * v \<and> s * v < n * (g + 1) else g = v)"
proof -
  obtain d where d: "dim_handle d0 = Some d" "tdd_check_channel_cfg_param (Some ch)" "kd_pin d = p" "kd_ch_cfg d = ch"
      "kd_type d = tp" "kd_rgb_max_curr d = kc_color cfg AND 0x1F" "\<not> bit (kd_line_volt d) 0" "\<not> bit (kd_cw_max_curr d) 0"
    by (rule kp1805x_registered [OF reg])
  define s where "s = unat (kc_color cfg AND 0x1F) + 1"
  define m where "m = max (unat (s_red c)) (max (unat (s_green c)) (unat (s_blue c)))"
  define n where "n = get_rgb_new_imax_scale tp m s"
  define buf where "buf = kp1805x_add_parity_bit (kp1805x_bytes (kp1805x_frame d s n c))"
  note reads = kp1805x_frame_reads [of d buf s n c, unfolded d(4), OF d(2) assms(4) d(7,8) buf_def]
  have s: "s = unat (kd_rgb_max_curr d AND 0x1F) + 1" "s \<le> 32"
    using unat_5_bits [of "kc_color cfg"] by (simp_all add: s_def d(6) and.assoc)
  have m: "m \<le> 1023" "i < 3 \<Longrightarrow> unat (rgbcw_array c ! i) \<le> m" for i
  proof -
    show "m \<le> 1023" using gray [of 0] gray [of 1] gray [of 2] by (simp add: m_def rgbcw_array_def)
    assume "i < 3" then consider "i = 0" | "i = 1" | "i = 2" by linarith
    then show "unat (rgbcw_array c ! i) \<le> m" by cases (simp_all add: m_def rgbcw_array_def)
  qed
  note range = new_scale_range [OF tp s(2) m(1), folded n_def]
  have n: "n = field5 (buf ! 2) + 1" using reads(3) unat_scale_code range(1,2) by simp
  have g: "let g = 32 * field5 (buf ! (4 + 2 * unat (ch_array ch ! i))) + field5 (buf ! (5 + 2 * unat (ch_array ch ! i)));
      v = unat (rgbcw_array c ! i) in if i < 3 then g \<le> 1023 \<and> n * g \<le> s * v \<and> s * v < n * (g + 1) else g = v" if i: "i < 5" for i
  proof (cases "i < 3")
    case True
    note r = rescaled_gray [OF tp s(2) m(1) m(2) [OF True], folded n_def]
    have "kp1805x_val s n (ch_array ch ! i) (rgbcw_array c ! i) = of_nat (unat (rgbcw_array c ! i) * s div n)"
      using checked_rgb [OF d(2) i] True range(1) by (simp add: kp1805x_val_def)
    moreover have "unat (of_nat (unat (rgbcw_array c ! i) * s div n) :: u16) = unat (rgbcw_array c ! i) * s div n"
      using r(1) by (intro unat_of_nat_u16) simp
    ultimately show ?thesis using reads(4) [OF i refl] r True by (simp add: Let_def)
  next
    case False
    then have "kp1805x_val s n (ch_array ch ! i) (rgbcw_array c ! i) = rgbcw_array c ! i"
      using checked_rgb [OF d(2) i] by (simp add: kp1805x_val_def)
    then show ?thesis using reads(4) [OF i refl] gray [OF i] False by (simp add: Let_def)
  qed
  have "n = get_rgb_new_imax_scale (kd_type d) (LIG_THREE_MAX (unat (s_red c)) (unat (s_green c)) (unat (s_blue c))) s"
    by (simp add: n_def m_def three_max d(5))
  from kp1805x_sent [OF _ assms(5) answers s(1) this buf_def reads(1), unfolded d(3), OF pins]
  show ?thesis using reads(1,2) n g unfolding d(1) s_def Let_def by blast
qed

definition ex_kp :: DIMMER_KP1805X_CFG_T where
  "ex_kp = \<lparr>kc_color = 19, kc_white = 4, kc_lvc = \<lparr>lvc_enable = True, lvc_start_volt = 3, lvc_slope = 1, lvc_rc_filter_en = False\<rparr>,
     kc_dim_mode = 1, kc_dim_freq = 2\<rparr>"

theorem kp1805x_light_witness:
  "\<exists>d0 h w' frame. tdd_dimmer_kp1805x_register ex_dim_env [] (Some ''lamp'') (Some ex_pins) (Some ex_ch) (Some ex_kp) KP18059_TYPE = (OPRT_OK, [d0])
    \<and> tdd_dimmer_kp1805x_output (dim_handle d0) (Some \<lparr>s_red = 500, s_green = 20, s_blue = 0, s_cold = 900, s_warm = 1023\<rparr>) (ex_bus (\<lambda>_. False)) = Some (OPRT_OK, h, w')
    \<and> receive None (watch ex_pins idle_lines (gpio_ops w')) = [frame] \<and> (\<forall>b \<in> set frame. even (ones b))
    \<and> 32 * field5 (frame ! 12) + field5 (frame ! 13) = 900"
proof -
  obtain d0 where reg: "tdd_dimmer_kp1805x_register ex_dim_env [] (Some ''lamp'') (Some ex_pins) (Some ex_ch) (Some ex_kp) KP18059_TYPE = (OPRT_OK, [] @ [d0])"
    by (simp add: tdd_dimmer_kp1805x_register_def i2c_register_def ex_dim_env_def tdd_check_channel_cfg_param_def ex_ch_def
        rgb_ch_def cw_ch_def tdl_dimmer_register_def kp1805x_intfs_def static_tdl_dimmer_register_def static_tdl_dimmer_find_def)
  define c where "c = \<lparr>s_red = 500, s_green = 20, s_blue = 0, s_cold = 900, s_warm = 1023 :: u16\<rparr>"
  have answers: "\<exists>j \<le> 10. \<not> sda_in (ex_bus (\<lambda>_. False)) (k + j)" for k by (auto simp: ex_bus_def)
  have gray: "unat (rgbcw_array c ! i) \<le> 1023" if "i < 5" for i
  proof -
    from that consider "i = 0" | "i = 1" | "i = 2" | "i = 3" | "i = 4" by linarith
    then show ?thesis by cases (simp_all add: c_def rgbcw_array_def)
  qed
  have side: "scl ex_pins \<noteq> sda ex_pins" "distinct (ch_array ex_ch)" "l_out idle_lines"
    by (simp_all add: ex_pins_def ex_ch_def ch_array_def)
  from kp1805x_light [OF reg _ side answers gray] obtain h w' frame where
    r: "tdd_dimmer_kp1805x_output (dim_handle d0) (Some c) (ex_bus (\<lambda>_. False)) = Some (OPRT_OK, h, w')"
      "receive None (watch ex_pins idle_lines (gpio_ops w')) = [frame]" "\<forall>b \<in> set frame. even (ones b)"
      "\<And>i. i < 5 \<Longrightarrow> \<not> i < 3 \<Longrightarrow> 32 * field5 (frame ! (4 + 2 * unat (ch_array ex_ch ! i)))
        + field5 (frame ! (5 + 2 * unat (ch_array ex_ch ! i))) = unat (rgbcw_array c ! i)"
    by (auto simp: ex_bus_def Let_def)
  from r(4) [of 3] have "32 * field5 (frame ! 12) + field5 (frame ! 13) = 900"
    by (simp add: ch_array_def ex_ch_def rgbcw_array_def c_def)
  with r reg show ?thesis unfolding c_def by auto
qed

end
