(* ===== verification/Dimmer_Pwm.thy ===== *)
theory Dimmer_Pwm
  imports Dimmer_Dev
begin

text \<open>
  The PWM dimmers, \<^verbatim>\<open>tdd_dimmer_pwm_cw.c\<close> and \<^verbatim>\<open>tdd_dimmer_pwm_cct.c\<close>. The PWM unit is the sequence of calls
  made to it, with what each of them returns. The CW driver runs its two white channels as a pair, the
  CCT driver runs all channels alone. Below the model, an observer reads off the calls which channels
  run and with which duty.
\<close>

section \<open>Data\<close>

datatype pwm_op =
    Pwm_init nat nat bool u16
  | Pwm_duty_set nat u16
  | Pwm_start nat
  | Pwm_stop nat
  | Pwm_multi_start "nat list"
  | Pwm_multi_stop "nat list"
  | Pwm_deinit nat

text \<open>\<open>pwm_ret k\<close>: what the \<open>k\<close>-th call returns.\<close>

record pwm_unit =
  pwm_ops :: "pwm_op list"
  pwm_ret :: "nat \<Rightarrow> OPERATE_RET"

definition pwm_call :: "pwm_op \<Rightarrow> pwm_unit \<Rightarrow> OPERATE_RET \<times> pwm_unit" where
  "pwm_call op w = (pwm_ret w (length (pwm_ops w)), w\<lparr>pwm_ops := pwm_ops w @ [op]\<rparr>)"

record DIMMER_PWM_CFG_T =
  pwm_freq :: nat
  active_level :: bool
  pc_red :: nat
  pc_green :: nat
  pc_blue :: nat
  pc_cold :: nat
  pc_warm :: nat

definition pwm_ch_arr :: "DIMMER_PWM_CFG_T \<Rightarrow> nat list" where
  "pwm_ch_arr c = [pc_red c, pc_green c, pc_blue c, pc_cold c, pc_warm c]"

abbreviation (input) DIMMER_PWM_ID_INVALID :: nat where "DIMMER_PWM_ID_INVALID \<equiv> 0xFE"
abbreviation (input) DIMMER_PWM_DUTY_MAX :: u16 where "DIMMER_PWM_DUTY_MAX \<equiv> 10000"
abbreviation (input) DIMMER_PWM_FREQ_MIN :: nat where "DIMMER_PWM_FREQ_MIN \<equiv> 100"
abbreviation (input) DIMMER_PWM_FREQ_MAX :: nat where "DIMMER_PWM_FREQ_MAX \<equiv> 20000"
abbreviation (input) PWM_IDX_COLD :: nat where "PWM_IDX_COLD \<equiv> 3"
abbreviation (input) PWM_IDX_WARM :: nat where "PWM_IDX_WARM \<equiv> 4"

text \<open>Calls each of whose failure ends the function, and calls whose result is not looked at.\<close>

fun calls_or_return :: "pwm_op list \<Rightarrow> pwm_unit \<Rightarrow> OPERATE_RET \<times> pwm_unit" where
  "calls_or_return [] w = (OPRT_OK, w)"
| "calls_or_return (op # ops) w =
     (let (rt, w) = pwm_call op w in if rt \<noteq> OPRT_OK then (rt, w) else calls_or_return ops w)"

definition calls :: "pwm_op list \<Rightarrow> pwm_unit \<Rightarrow> pwm_unit" where
  "calls ops w = fold (\<lambda>op w. snd (pwm_call op w)) ops w"

text \<open>The loop over the channels that are in use, each with its index.\<close>

definition each_channel :: "DIMMER_PWM_CFG_T \<Rightarrow> (nat \<Rightarrow> nat \<Rightarrow> pwm_op list) \<Rightarrow> pwm_op list" where
  "each_channel p_drv f =
     concat (map (\<lambda>(i, ch). if ch = DIMMER_PWM_ID_INVALID then [] else f i ch) (enumerate 0 (pwm_ch_arr p_drv)))"

section \<open>Opening: the same code in both drivers\<close>

definition pwm_open :: "DIMMER_PWM_CFG_T option \<Rightarrow> pwm_unit \<Rightarrow> (OPERATE_RET \<times> DIMMER_PWM_CFG_T option \<times> pwm_unit) option" where
  "pwm_open p_drv w =
     (case p_drv of
        None \<Rightarrow> Some (OPRT_INVALID_PARM, p_drv, w)
      | Some d \<Rightarrow>
          let (r, w) = calls_or_return (each_channel d (\<lambda>i ch.
            [Pwm_init ch (pwm_freq d) (active_level d) (if \<not> active_level d then DIMMER_PWM_DUTY_MAX else 0)])) w
          in Some (r, p_drv, w))"

definition tdd_dimmer_pwm_cw_open where "tdd_dimmer_pwm_cw_open = pwm_open"
definition tdd_dimmer_pwm_cct_open where "tdd_dimmer_pwm_cct_open = pwm_open"

definition pwm_duty :: "DIMMER_PWM_CFG_T \<Rightarrow> u16 \<Rightarrow> u16" where
  "pwm_duty p_drv v = (if active_level p_drv then v else DIMMER_PWM_DUTY_MAX - v)"

section \<open>The CW driver\<close>

text \<open>The part of a white channel that is left to the pair of both.\<close>

definition cw_first :: "DIMMER_PWM_CFG_T \<Rightarrow> nat \<Rightarrow> bool" where
  "cw_first p_drv i \<longleftrightarrow> i = PWM_IDX_COLD \<and> pc_warm p_drv \<noteq> DIMMER_PWM_ID_INVALID"

definition cw_second :: "DIMMER_PWM_CFG_T \<Rightarrow> nat \<Rightarrow> bool" where
  "cw_second p_drv i \<longleftrightarrow> i = PWM_IDX_WARM \<and> pc_cold p_drv \<noteq> DIMMER_PWM_ID_INVALID"

definition tdd_dimmer_pwm_cw_close ::
  "DIMMER_PWM_CFG_T option \<Rightarrow> pwm_unit \<Rightarrow> (OPERATE_RET \<times> DIMMER_PWM_CFG_T option \<times> pwm_unit) option" where
  "tdd_dimmer_pwm_cw_close p_drv w =
     (case p_drv of
        None \<Rightarrow> Some (OPRT_INVALID_PARM, p_drv, w)
      | Some d \<Rightarrow>
          let (r, w) = calls_or_return (each_channel d (\<lambda>i ch.
            (if cw_first d i then []
             else if cw_second d i then [Pwm_multi_stop [pc_cold d, pc_warm d]]
             else [Pwm_stop ch]) @ [Pwm_deinit ch])) w
          in Some (r, p_drv, w))"

definition tdd_dimmer_pwm_cw_output ::
  "DIMMER_PWM_CFG_T option \<Rightarrow> LIGHT_RGBCW_T option \<Rightarrow> pwm_unit
     \<Rightarrow> (OPERATE_RET \<times> DIMMER_PWM_CFG_T option \<times> pwm_unit) option" where
  "tdd_dimmer_pwm_cw_output p_drv p_rgbcw w = do {
     d \<leftarrow> p_drv;
     c \<leftarrow> p_rgbcw;
     Some (OPRT_OK, p_drv, calls (each_channel d (\<lambda>i ch.
       Pwm_duty_set ch (pwm_duty d (rgbcw_array c ! i)) #
       (if cw_first d i then []
        else if cw_second d i
        then [if unat (s_cold c) + unat (s_warm c) \<noteq> 0 then Pwm_multi_start [pc_cold d, pc_warm d]
              else Pwm_multi_stop [pc_cold d, pc_warm d]]
        else [if rgbcw_array c ! i \<noteq> 0 then Pwm_start ch else Pwm_stop ch]))) w) }"

section \<open>The CCT driver\<close>

definition tdd_dimmer_pwm_cct_close ::
  "DIMMER_PWM_CFG_T option \<Rightarrow> pwm_unit \<Rightarrow> (OPERATE_RET \<times> DIMMER_PWM_CFG_T option \<times> pwm_unit) option" where
  "tdd_dimmer_pwm_cct_close p_drv w =
     (case p_drv of
        None \<Rightarrow> Some (OPRT_INVALID_PARM, p_drv, w)
      | Some d \<Rightarrow>
          let (r, w) = calls_or_return (each_channel d (\<lambda>i ch. [Pwm_stop ch, Pwm_deinit ch])) w
          in Some (r, p_drv, w))"

definition tdd_dimmer_pwm_cct_output ::
  "DIMMER_PWM_CFG_T option \<Rightarrow> LIGHT_RGBCW_T option \<Rightarrow> pwm_unit
     \<Rightarrow> (OPERATE_RET \<times> DIMMER_PWM_CFG_T option \<times> pwm_unit) option" where
  "tdd_dimmer_pwm_cct_output p_drv p_rgbcw w =
     (case (p_drv, p_rgbcw) of
        (Some d, Some c) \<Rightarrow>
          Some (OPRT_OK, p_drv, calls (each_channel d (\<lambda>i ch.
            [Pwm_duty_set ch (pwm_duty d (rgbcw_array c ! i)),
             if rgbcw_array c ! i \<noteq> 0 then Pwm_start ch else Pwm_stop ch])) w)
      | _ \<Rightarrow> Some (OPRT_INVALID_PARM, p_drv, w))"

section \<open>Registration\<close>

definition pwm_register ::
  "bool \<Rightarrow> bool \<Rightarrow> OPERATE_RET \<Rightarrow> (DIMMER_PWM_CFG_T, pwm_unit) DIMMER_NODE_T list \<Rightarrow> string option \<Rightarrow> DIMMER_PWM_CFG_T option
     \<Rightarrow> (DIMMER_PWM_CFG_T, pwm_unit) DIMMER_DRV_INTFS_T \<Rightarrow> u8 \<Rightarrow> OPERATE_RET \<times> (DIMMER_PWM_CFG_T, pwm_unit) DIMMER_NODE_T list" where
  "pwm_register drv_m node_m mutex l name p_cfg intfs tp =
     (case p_cfg of
        None \<Rightarrow> (OPRT_INVALID_PARM, l)
      | Some cfg \<Rightarrow>
          if pwm_freq cfg < DIMMER_PWM_FREQ_MIN \<or> pwm_freq cfg > DIMMER_PWM_FREQ_MAX then (OPRT_INVALID_PARM, l)
          else if \<not> drv_m then (OPRT_MALLOC_FAILED, l)
          else tdl_dimmer_register node_m mutex l name (Some intfs) DIMMER_PWM_DUTY_MAX tp (Some cfg))"

definition tdd_dimmer_pwm_cw_register ::
  "bool \<Rightarrow> bool \<Rightarrow> OPERATE_RET \<Rightarrow> (DIMMER_PWM_CFG_T, pwm_unit) DIMMER_NODE_T list \<Rightarrow> string option \<Rightarrow> DIMMER_PWM_CFG_T option
     \<Rightarrow> OPERATE_RET \<times> (DIMMER_PWM_CFG_T, pwm_unit) DIMMER_NODE_T list" where
  "tdd_dimmer_pwm_cw_register drv_m node_m mutex l name p_cfg =
     pwm_register drv_m node_m mutex l name p_cfg \<lparr>di_open = Some tdd_dimmer_pwm_cw_open,
       di_close = Some tdd_dimmer_pwm_cw_close, di_output = Some tdd_dimmer_pwm_cw_output\<rparr> DIMMER_DRIVER_PWM_CW"

definition tdd_dimmer_pwm_cct_register ::
  "bool \<Rightarrow> bool \<Rightarrow> OPERATE_RET \<Rightarrow> (DIMMER_PWM_CFG_T, pwm_unit) DIMMER_NODE_T list \<Rightarrow> string option \<Rightarrow> DIMMER_PWM_CFG_T option
     \<Rightarrow> OPERATE_RET \<times> (DIMMER_PWM_CFG_T, pwm_unit) DIMMER_NODE_T list" where
  "tdd_dimmer_pwm_cct_register drv_m node_m mutex l name p_cfg =
     pwm_register drv_m node_m mutex l name p_cfg \<lparr>di_open = Some tdd_dimmer_pwm_cct_open,
       di_close = Some tdd_dimmer_pwm_cct_close, di_output = Some tdd_dimmer_pwm_cct_output\<rparr> DIMMER_DRIVER_PWM_CCT"

section \<open>What the PWM unit does\<close>

text \<open>The duty of each channel and whether it runs.\<close>

record pwm_view =
  duty_of :: "nat \<Rightarrow> u16"
  runs :: "nat \<Rightarrow> bool"

fun pwm_step :: "pwm_op \<Rightarrow> pwm_view \<Rightarrow> pwm_view" where
  "pwm_step (Pwm_init ch f pol duty) v = v\<lparr>duty_of := (duty_of v)(ch := duty)\<rparr>"
| "pwm_step (Pwm_duty_set ch duty) v = v\<lparr>duty_of := (duty_of v)(ch := duty)\<rparr>"
| "pwm_step (Pwm_start ch) v = v\<lparr>runs := (runs v)(ch := True)\<rparr>"
| "pwm_step (Pwm_stop ch) v = v\<lparr>runs := (runs v)(ch := False)\<rparr>"
| "pwm_step (Pwm_multi_start chs) v = v\<lparr>runs := (\<lambda>ch. ch \<in> set chs \<or> runs v ch)\<rparr>"
| "pwm_step (Pwm_multi_stop chs) v = v\<lparr>runs := (\<lambda>ch. ch \<notin> set chs \<and> runs v ch)\<rparr>"
| "pwm_step (Pwm_deinit ch) v = v\<lparr>runs := (runs v)(ch := False)\<rparr>"

definition pwm_view_after :: "pwm_op list \<Rightarrow> pwm_view \<Rightarrow> pwm_view" where
  "pwm_view_after = fold pwm_step"

lemma calls_ops: "calls ops w = w\<lparr>pwm_ops := pwm_ops w @ ops\<rparr>"
  unfolding calls_def by (induction ops arbitrary: w) (simp_all add: pwm_call_def)

lemma pwm_view_append [simp]: "pwm_view_after (xs @ ys) v = pwm_view_after ys (pwm_view_after xs v)"
  by (simp add: pwm_view_after_def)

section \<open>Blocks of calls\<close>

text \<open>The channels a call concerns, and those whose duty it sets.\<close>

fun touches :: "pwm_op \<Rightarrow> nat set" where
  "touches (Pwm_init ch f pol duty) = {ch}"
| "touches (Pwm_duty_set ch duty) = {ch}"
| "touches (Pwm_start ch) = {ch}"
| "touches (Pwm_stop ch) = {ch}"
| "touches (Pwm_multi_start chs) = set chs"
| "touches (Pwm_multi_stop chs) = set chs"
| "touches (Pwm_deinit ch) = {ch}"

definition keeps_duty :: "nat \<Rightarrow> pwm_op \<Rightarrow> bool" where
  "keeps_duty ch op \<longleftrightarrow> (\<forall>v. duty_of (pwm_step op v) ch = duty_of v ch)"

lemma step_untouched:
  assumes "ch \<notin> touches op"
  shows "keeps_duty ch op" "runs (pwm_step op v) ch = runs v ch"
  using assms by (cases op; simp add: keeps_duty_def)+

lemma keeps_duty_run [simp]: "keeps_duty ch (Pwm_multi_start chs)" "keeps_duty ch (Pwm_multi_stop chs)"
  "keeps_duty ch (Pwm_start k)" "keeps_duty ch (Pwm_stop k)"
  by (simp_all add: keeps_duty_def)

lemma view_Cons [simp]: "pwm_view_after (op # ops) v = pwm_view_after ops (pwm_step op v)" "pwm_view_after [] v = v"
  by (simp_all add: pwm_view_after_def)

lemma runs_untouched: "(\<And>op. op \<in> set ops \<Longrightarrow> ch \<notin> touches op) \<Longrightarrow> runs (pwm_view_after ops v) ch = runs v ch"
  by (induction ops arbitrary: v) (simp_all add: step_untouched)

lemma duty_untouched: "(\<And>op. op \<in> set ops \<Longrightarrow> keeps_duty ch op) \<Longrightarrow> duty_of (pwm_view_after ops v) ch = duty_of v ch"
  by (induction ops arbitrary: v) (simp_all add: keeps_duty_def)

lemma length_pwm_ch_arr [simp]: "length (pwm_ch_arr d) = 5"
  by (simp add: pwm_ch_arr_def)

lemma each_channel_split:
  assumes i: "i < 5" and valid: "pwm_ch_arr d ! i \<noteq> DIMMER_PWM_ID_INVALID"
  obtains pre post where "each_channel d f = pre @ f i (pwm_ch_arr d ! i) @ post"
    "\<And>op. op \<in> set pre \<union> set post \<Longrightarrow>
      \<exists>j < 5. j \<noteq> i \<and> pwm_ch_arr d ! j \<noteq> DIMMER_PWM_ID_INVALID \<and> op \<in> set (f j (pwm_ch_arr d ! j))"
proof -
  define bs where "bs = map (\<lambda>(i, ch). if ch = DIMMER_PWM_ID_INVALID then [] else f i ch) (enumerate 0 (pwm_ch_arr d))"
  have nth: "bs ! j = (if pwm_ch_arr d ! j = DIMMER_PWM_ID_INVALID then [] else f j (pwm_ch_arr d ! j))" if "j < 5" for j
    using that by (simp add: bs_def nth_enumerate_eq)
  have len: "length bs = 5" by (simp add: bs_def)
  have "bs = take i bs @ bs ! i # drop (Suc i) bs" using i len by (simp add: id_take_nth_drop)
  then have "concat bs = concat (take i bs) @ bs ! i @ concat (drop (Suc i) bs)" by (metis concat.simps(2) concat_append)
  then have split: "each_channel d f = concat (take i bs) @ f i (pwm_ch_arr d ! i) @ concat (drop (Suc i) bs)"
    using nth [OF i] valid by (simp add: each_channel_def bs_def [symmetric])
  have "\<exists>j < 5. j \<noteq> i \<and> op \<in> set (bs ! j)" if "op \<in> set (concat (take i bs)) \<union> set (concat (drop (Suc i) bs))" for op
  proof -
    from that consider b where "b \<in> set (take i bs)" "op \<in> set b" | b where "b \<in> set (drop (Suc i) bs)" "op \<in> set b" by auto
    then show ?thesis
    proof cases
      case 1
      then obtain j where "j < i" "b = bs ! j" by (auto simp: in_set_conv_nth)
      with 1 i show ?thesis by (intro exI [of _ j]) simp
    next
      case 2
      then obtain j where j: "j < length (drop (Suc i) bs)" "b = drop (Suc i) bs ! j" by (auto simp only: in_set_conv_nth)
      then have "Suc i + j < 5" "b = bs ! (Suc i + j)" using len by auto
      with 2 show ?thesis by (intro exI [of _ "Suc i + j"]) simp
    qed
  qed
  then show thesis using that [OF split] nth by (metis empty_iff list.set(1))
qed

definition channels_differ :: "DIMMER_PWM_CFG_T \<Rightarrow> bool" where
  "channels_differ d \<longleftrightarrow> (\<forall>i < 5. \<forall>j < 5. i \<noteq> j \<longrightarrow> pwm_ch_arr d ! i \<noteq> DIMMER_PWM_ID_INVALID \<longrightarrow>
     pwm_ch_arr d ! i \<noteq> pwm_ch_arr d ! j)"

lemma differ_neq:
  assumes "channels_differ d" and "i < 5" and "j < 5" and "i \<noteq> j" and "pwm_ch_arr d ! i \<noteq> DIMMER_PWM_ID_INVALID"
  shows "pwm_ch_arr d ! j \<noteq> pwm_ch_arr d ! i"
  using assms unfolding channels_differ_def by metis

text \<open>A channel whose own block settles it, and which the blocks of the others leave alone.\<close>

lemma own_block:
  assumes i: "i < 5" "pwm_ch_arr d ! i \<noteq> DIMMER_PWM_ID_INVALID"
    and others: "\<And>j op. j < 5 \<Longrightarrow> j \<noteq> i \<Longrightarrow> pwm_ch_arr d ! j \<noteq> DIMMER_PWM_ID_INVALID \<Longrightarrow>
      op \<in> set (f j (pwm_ch_arr d ! j)) \<Longrightarrow> pwm_ch_arr d ! i \<notin> touches op"
  shows "\<exists>u. runs (pwm_view_after (each_channel d f) v) (pwm_ch_arr d ! i) = runs (pwm_view_after (f i (pwm_ch_arr d ! i)) u) (pwm_ch_arr d ! i)"
proof -
  obtain pre post where s: "each_channel d f = pre @ f i (pwm_ch_arr d ! i) @ post"
      "\<And>op. op \<in> set pre \<union> set post \<Longrightarrow>
        \<exists>j < 5. j \<noteq> i \<and> pwm_ch_arr d ! j \<noteq> DIMMER_PWM_ID_INVALID \<and> op \<in> set (f j (pwm_ch_arr d ! j))"
    using each_channel_split [OF i] by blast
  then have "pwm_ch_arr d ! i \<notin> touches op" if "op \<in> set post" for op using others that by blast
  then show ?thesis unfolding s(1) by (auto simp: runs_untouched)
qed

lemma own_duty:
  assumes i: "i < 5" "pwm_ch_arr d ! i \<noteq> DIMMER_PWM_ID_INVALID"
    and others: "\<And>j op. j < 5 \<Longrightarrow> j \<noteq> i \<Longrightarrow> pwm_ch_arr d ! j \<noteq> DIMMER_PWM_ID_INVALID \<Longrightarrow>
      op \<in> set (f j (pwm_ch_arr d ! j)) \<Longrightarrow> keeps_duty (pwm_ch_arr d ! i) op"
    and own: "f i (pwm_ch_arr d ! i) = Pwm_duty_set (pwm_ch_arr d ! i) x # ops" "\<And>op. op \<in> set ops \<Longrightarrow> keeps_duty (pwm_ch_arr d ! i) op"
  shows "duty_of (pwm_view_after (each_channel d f) v) (pwm_ch_arr d ! i) = x"
proof -
  obtain pre post where s: "each_channel d f = pre @ f i (pwm_ch_arr d ! i) @ post"
      "\<And>op. op \<in> set pre \<union> set post \<Longrightarrow>
        \<exists>j < 5. j \<noteq> i \<and> pwm_ch_arr d ! j \<noteq> DIMMER_PWM_ID_INVALID \<and> op \<in> set (f j (pwm_ch_arr d ! j))"
    using each_channel_split [OF i] by blast
  then have "keeps_duty (pwm_ch_arr d ! i) op" if "op \<in> set post" for op using others that by blast
  then show ?thesis unfolding s(1) own(1) using own(2) by (simp add: duty_untouched)
qed

lemma differ_keeps:
  assumes "channels_differ d" and "i < 5" and "j < 5" and "j \<noteq> i" and "pwm_ch_arr d ! i \<noteq> DIMMER_PWM_ID_INVALID"
  shows "keeps_duty (pwm_ch_arr d ! i) (Pwm_duty_set (pwm_ch_arr d ! j) x)"
  using differ_neq [OF assms(1-3) _ assms(5)] assms(4) by (auto simp: keeps_duty_def)

section \<open>Properties\<close>

definition cct_block :: "DIMMER_PWM_CFG_T \<Rightarrow> LIGHT_RGBCW_T \<Rightarrow> nat \<Rightarrow> nat \<Rightarrow> pwm_op list" where
  "cct_block d c i ch = [Pwm_duty_set ch (pwm_duty d (rgbcw_array c ! i)), if rgbcw_array c ! i \<noteq> 0 then Pwm_start ch else Pwm_stop ch]"

definition cw_block :: "DIMMER_PWM_CFG_T \<Rightarrow> LIGHT_RGBCW_T \<Rightarrow> nat \<Rightarrow> nat \<Rightarrow> pwm_op list" where
  "cw_block d c i ch =
     Pwm_duty_set ch (pwm_duty d (rgbcw_array c ! i)) #
       (if cw_first d i then []
        else if cw_second d i
        then [if unat (s_cold c) + unat (s_warm c) \<noteq> 0 then Pwm_multi_start [pc_cold d, pc_warm d]
              else Pwm_multi_stop [pc_cold d, pc_warm d]]
        else [if rgbcw_array c ! i \<noteq> 0 then Pwm_start ch else Pwm_stop ch])"

lemma cct_view:
  assumes "channels_differ d" and i: "i < 5" "pwm_ch_arr d ! i \<noteq> DIMMER_PWM_ID_INVALID"
  shows "duty_of (pwm_view_after (each_channel d (cct_block d c)) v) (pwm_ch_arr d ! i) = pwm_duty d (rgbcw_array c ! i)"
    "runs (pwm_view_after (each_channel d (cct_block d c)) v) (pwm_ch_arr d ! i) = (rgbcw_array c ! i \<noteq> 0)"
proof -
  show "duty_of (pwm_view_after (each_channel d (cct_block d c)) v) (pwm_ch_arr d ! i) = pwm_duty d (rgbcw_array c ! i)"
    by (rule own_duty [OF i]) (use differ_keeps [OF assms(1) i(1) _ _ i(2)] in \<open>auto simp: cct_block_def\<close>)
  have "pwm_ch_arr d ! i \<notin> touches op" if "j < 5" "j \<noteq> i" "op \<in> set (cct_block d c j (pwm_ch_arr d ! j))" for j op
    using that differ_neq [OF assms(1) i(1) that(1) _ i(2)] by (auto simp: cct_block_def split: if_splits)
  from own_block [where f = "cct_block d c", OF i this]
  show "runs (pwm_view_after (each_channel d (cct_block d c)) v) (pwm_ch_arr d ! i) = (rgbcw_array c ! i \<noteq> 0)"
    by (auto simp: cct_block_def)
qed

text \<open>The pair of whites comes last, so that its call settles both.\<close>

lemma cw_pair_last:
  assumes "pc_cold d \<noteq> DIMMER_PWM_ID_INVALID" and "pc_warm d \<noteq> DIMMER_PWM_ID_INVALID"
  obtains ops where "each_channel d (cw_block d c) = ops @
    [if unat (s_cold c) + unat (s_warm c) \<noteq> 0 then Pwm_multi_start [pc_cold d, pc_warm d] else Pwm_multi_stop [pc_cold d, pc_warm d]]"
proof -
  have "enumerate 0 (pwm_ch_arr d) = enumerate 0 [pc_red d, pc_green d, pc_blue d, pc_cold d] @ [(4, pc_warm d)]"
    by (simp add: pwm_ch_arr_def)
  then have "each_channel d (cw_block d c) = concat (map (\<lambda>(i, ch). if ch = DIMMER_PWM_ID_INVALID then [] else cw_block d c i ch)
      (enumerate 0 [pc_red d, pc_green d, pc_blue d, pc_cold d])) @ cw_block d c 4 (pc_warm d)"
    using assms(2) by (simp only: each_channel_def map_append concat_append) simp
  moreover have "cw_block d c 4 (pc_warm d) = [Pwm_duty_set (pc_warm d) (pwm_duty d (rgbcw_array c ! 4))] @
      [if unat (s_cold c) + unat (s_warm c) \<noteq> 0 then Pwm_multi_start [pc_cold d, pc_warm d] else Pwm_multi_stop [pc_cold d, pc_warm d]]"
    using assms(1) by (simp add: cw_block_def cw_first_def cw_second_def)
  ultimately show thesis by (intro that) (simp only: append_assoc [symmetric])
qed

lemma cw_view:
  assumes "channels_differ d" and i: "i < 5" "pwm_ch_arr d ! i \<noteq> DIMMER_PWM_ID_INVALID"
  shows "duty_of (pwm_view_after (each_channel d (cw_block d c)) v) (pwm_ch_arr d ! i) = pwm_duty d (rgbcw_array c ! i)"
    "runs (pwm_view_after (each_channel d (cw_block d c)) v) (pwm_ch_arr d ! i) =
      (if i \<ge> 3 \<and> pc_cold d \<noteq> DIMMER_PWM_ID_INVALID \<and> pc_warm d \<noteq> DIMMER_PWM_ID_INVALID
       then s_cold c \<noteq> 0 \<or> s_warm c \<noteq> 0 else rgbcw_array c ! i \<noteq> 0)"
proof -
  show "duty_of (pwm_view_after (each_channel d (cw_block d c)) v) (pwm_ch_arr d ! i) = pwm_duty d (rgbcw_array c ! i)"
    by (rule own_duty [OF i]) (use differ_keeps [OF assms(1) i(1) _ _ i(2)] in \<open>auto simp: cw_block_def split: if_splits\<close>)
  have cold: "pwm_ch_arr d ! 3 = pc_cold d" and warm: "pwm_ch_arr d ! 4 = pc_warm d" by (simp_all add: pwm_ch_arr_def)
  show "runs (pwm_view_after (each_channel d (cw_block d c)) v) (pwm_ch_arr d ! i) =
      (if i \<ge> 3 \<and> pc_cold d \<noteq> DIMMER_PWM_ID_INVALID \<and> pc_warm d \<noteq> DIMMER_PWM_ID_INVALID
       then s_cold c \<noteq> 0 \<or> s_warm c \<noteq> 0 else rgbcw_array c ! i \<noteq> 0)"
  proof (cases "i \<ge> 3 \<and> pc_cold d \<noteq> DIMMER_PWM_ID_INVALID \<and> pc_warm d \<noteq> DIMMER_PWM_ID_INVALID")
    case True
    then have "i = 3 \<or> i = 4" using i(1) by auto
    then have "pwm_ch_arr d ! i \<in> set [pc_cold d, pc_warm d]" using cold warm by auto
    moreover obtain ops where "each_channel d (cw_block d c) = ops @
      [if unat (s_cold c) + unat (s_warm c) \<noteq> 0 then Pwm_multi_start [pc_cold d, pc_warm d] else Pwm_multi_stop [pc_cold d, pc_warm d]]"
      using cw_pair_last True by blast
    ultimately show ?thesis using True by (auto simp: unat_eq_0)
  next
    case False
    have others: "pwm_ch_arr d ! i \<notin> touches op"
      if j: "j < 5" "j \<noteq> i" "pwm_ch_arr d ! j \<noteq> DIMMER_PWM_ID_INVALID" "op \<in> set (cw_block d c j (pwm_ch_arr d ! j))" for j op
    proof (cases "cw_second d j")
      case True
      then have "i < 3" using False j cold warm i by (cases "i = 3"; cases "i = 4") (auto simp: cw_second_def)
      then have "pwm_ch_arr d ! i \<noteq> pc_cold d" "pwm_ch_arr d ! i \<noteq> pc_warm d"
        using differ_neq [OF assms(1) i(1) _ _ i(2), of 3] differ_neq [OF assms(1) i(1) _ _ i(2), of 4] cold warm by auto
      then show ?thesis using j True warm by (auto simp: cw_block_def cw_second_def split: if_splits)
    next
      case False
      then show ?thesis using j differ_neq [OF assms(1) i(1) j(1) _ i(2)] by (auto simp: cw_block_def split: if_splits)
    qed
    have "\<exists>u. runs (pwm_view_after (each_channel d (cw_block d c)) v) (pwm_ch_arr d ! i)
        = runs (pwm_view_after (cw_block d c i (pwm_ch_arr d ! i)) u) (pwm_ch_arr d ! i)"
      by (rule own_block [where f = "cw_block d c", OF i]) (rule others)
    moreover have "\<not> cw_first d i" "\<not> cw_second d i" using False cold warm i by (auto simp: cw_first_def cw_second_def)
    ultimately show ?thesis using False by (auto simp: cw_block_def)
  qed
qed

lemma cw_output_blocks:
  "tdd_dimmer_pwm_cw_output (Some d) (Some c) w = Some (OPRT_OK, Some d, w\<lparr>pwm_ops := pwm_ops w @ each_channel d (cw_block d c)\<rparr>)"
  unfolding tdd_dimmer_pwm_cw_output_def calls_ops cw_block_def [abs_def] by simp

lemma cct_output_blocks:
  "tdd_dimmer_pwm_cct_output (Some d) (Some c) w = Some (OPRT_OK, Some d, w\<lparr>pwm_ops := pwm_ops w @ each_channel d (cct_block d c)\<rparr>)"
  unfolding tdd_dimmer_pwm_cct_output_def calls_ops cct_block_def [abs_def] by simp

text \<open>C28: After an output every channel in use has the duty of its own colour, complemented on a lamp that is active
low, and runs when its colour is lit; the two whites of the CW driver are a pair, which runs
when either of them is lit.\<close>
theorem pwm_output_shows:
  fixes c :: LIGHT_RGBCW_T
  assumes "channels_differ d" and "i < 5" and "pwm_ch_arr d ! i \<noteq> DIMMER_PWM_ID_INVALID"
  defines "ch \<equiv> pwm_ch_arr d ! i"
    and "duty \<equiv> if active_level d then rgbcw_array c ! i else 10000 - rgbcw_array c ! i"
  shows "\<exists>ops1 ops2.
      tdd_dimmer_pwm_cw_output (Some d) (Some c) w = Some (OPRT_OK, Some d, w\<lparr>pwm_ops := pwm_ops w @ ops1\<rparr>)
    \<and> tdd_dimmer_pwm_cct_output (Some d) (Some c) w = Some (OPRT_OK, Some d, w\<lparr>pwm_ops := pwm_ops w @ ops2\<rparr>)
    \<and> duty_of (pwm_view_after ops1 v) ch = duty \<and> duty_of (pwm_view_after ops2 v) ch = duty
    \<and> runs (pwm_view_after ops1 v) ch =
        (if i \<ge> 3 \<and> pc_cold d \<noteq> DIMMER_PWM_ID_INVALID \<and> pc_warm d \<noteq> DIMMER_PWM_ID_INVALID
         then s_cold c \<noteq> 0 \<or> s_warm c \<noteq> 0 else rgbcw_array c ! i \<noteq> 0)
    \<and> runs (pwm_view_after ops2 v) ch = (rgbcw_array c ! i \<noteq> 0)"
  unfolding ch_def cw_output_blocks cct_output_blocks
  using cw_view [OF assms(1-3), of c v] cct_view [OF assms(1-3), of c v]
  by (intro exI [of _ "each_channel d (cw_block d c)"] exI [of _ "each_channel d (cct_block d c)"])
    (simp add: pwm_duty_def duty_def)

text \<open>
  Closing a CW lamp with both whites: the cold channel is released first and stopped, with the
  warm one, after that.
\<close>

lemma cw_close_releases_before_stop:
  assumes "pc_red d = DIMMER_PWM_ID_INVALID" "pc_green d = DIMMER_PWM_ID_INVALID" "pc_blue d = DIMMER_PWM_ID_INVALID"
    and "pc_cold d \<noteq> DIMMER_PWM_ID_INVALID" "pc_warm d \<noteq> DIMMER_PWM_ID_INVALID" and "\<And>k. pwm_ret w k = OPRT_OK"
  shows "tdd_dimmer_pwm_cw_close (Some d) w = Some (OPRT_OK, Some d, w\<lparr>pwm_ops := pwm_ops w @
    [Pwm_deinit (pc_cold d), Pwm_multi_stop [pc_cold d, pc_warm d], Pwm_deinit (pc_warm d)]\<rparr>)"
  using assms by (simp add: tdd_dimmer_pwm_cw_close_def each_channel_def pwm_ch_arr_def cw_first_def cw_second_def
      pwm_call_def numeral_eq_Suc)

definition ex_pwm :: DIMMER_PWM_CFG_T where
  "ex_pwm = \<lparr>pwm_freq = 1000, active_level = False, pc_red = 5, pc_green = 4, pc_blue = 0xFE, pc_cold = 1, pc_warm = 2\<rparr>"

theorem pwm_output_shows_witness:
  "\<exists>ops. tdd_dimmer_pwm_cw_output (Some ex_pwm) (Some (rgbcw_zero\<lparr>s_warm := 300\<rparr>)) \<lparr>pwm_ops = [], pwm_ret = (\<lambda>_. 0)\<rparr>
      = Some (OPRT_OK, Some ex_pwm, \<lparr>pwm_ops = ops, pwm_ret = (\<lambda>_. 0)\<rparr>)
    \<and> duty_of (pwm_view_after ops \<lparr>duty_of = \<lambda>_. 0, runs = \<lambda>_. False\<rparr>) 1 = 10000
    \<and> runs (pwm_view_after ops \<lparr>duty_of = \<lambda>_. 0, runs = \<lambda>_. False\<rparr>) 1"
proof -
  have "channels_differ ex_pwm"
    unfolding channels_differ_def by (auto simp: pwm_ch_arr_def ex_pwm_def less_Suc_eq numeral_eq_Suc)
  from pwm_output_shows [OF this, of 3 "rgbcw_zero\<lparr>s_warm := 300\<rparr>" "\<lparr>pwm_ops = [], pwm_ret = (\<lambda>_. 0)\<rparr>" "\<lparr>duty_of = \<lambda>_. 0, runs = \<lambda>_. False\<rparr>"]
  show ?thesis by (auto simp: pwm_ch_arr_def ex_pwm_def rgbcw_array_def)
qed

end
