(* ===== verification/Energy_Tdl.thy ===== *)
theory Energy_Tdl
  imports Tuya_Prelude
begin

text \<open>
  Energy metering, \<^verbatim>\<open>tdl_ele_energy_ops.c\<close>: registration of one metering chip, the periodic timer that collects its
  values, the readings of the application and the tolerance test of the production calibration. A chip is a
  table of functions over its own state \<open>'s\<close>; \<open>'r\<close> is the platform resource its initialisation
  takes. A null function pointer is \<^term>\<open>None\<close>, a call that has undefined behaviour returns \<^term>\<open>None\<close>.

  The contract of a metering chip is the locale \<open>energy_source\<close>: what a reading moves to the
  caller is taken out of the chip's own account. From it follows that no energy is counted twice or lost
  between the chip and the application, whatever the order of timer, readings and interrupts. The locale
  \<open>energy_meter\<close> is the same contract for the chips that report a counter, exact in natural numbers.
\<close>

section \<open>Data\<close>

datatype TDL_ELE_ENERGY_VOLT_TYPE_E = TDL_ELE_VOLT_220V | TDL_ELE_VOLT_120V

datatype TDL_ELE_ENERGY_MODE_E = TDL_ELE_NORMAL_MODE | TDL_ELE_TEST_MODE

datatype TDL_ELE_ENERGY_IO_DRV_TYPE_E = TDL_ELE_IO_DRV_LOW | TDL_ELE_IO_DRV_HIGH | TDL_ELE_IO_DRV_ERR

text \<open>\<open>TDL_ELE_TEST_ZERO\<close> is the value 0 of zeroed memory, which the enumeration does not name.\<close>

datatype TDL_ELE_ENERGY_TEST_RESULT_E = TDL_ELE_TEST_ZERO | TDL_ELE_TEST_PASS | TDL_ELE_TEST_FAIL

record TDL_ELE_ENERGY_IO_CFG_T =
  io_type :: TDL_ELE_ENERGY_IO_DRV_TYPE_E
  io_pin :: u8

record TDL_ELE_ENERGY_CFG_PARAMS_T =
  cfg_err_percent :: u8
  resval :: u8
  volt_type :: TDL_ELE_ENERGY_VOLT_TYPE_E

record TDL_ELE_ENERGY_COE_T =
  v_coe :: u32
  i_coe :: u32
  p_coe :: u32
  e_coe :: u32

record TDL_ELE_ENERGY_PVIE_T =
  power_val :: u32
  volt_val :: u32
  curr_val :: u32
  energy_val :: u32

record TDL_ELE_ENERGY_FAC_TEST_T =
  cfg_test_result :: TDL_ELE_ENERGY_TEST_RESULT_E
  coe_data :: TDL_ELE_ENERGY_COE_T

record TDL_ELE_ENERGY_CFG_T =
  fac_test :: TDL_ELE_ENERGY_FAC_TEST_T
  params :: TDL_ELE_ENERGY_CFG_PARAMS_T
  mode :: TDL_ELE_ENERGY_MODE_E

record ('r, 's) TDL_ELE_ENERGY_DRV_OPS_T =
  drv_init_cb :: "(TDL_ELE_ENERGY_CFG_T option \<Rightarrow> 'r option \<Rightarrow> 's \<Rightarrow> (OPERATE_RET \<times> 's) option) option"
  drv_ctrl_cb :: "(bool \<Rightarrow> 's \<Rightarrow> 's option) option"
  drv_read_pvie_cb :: "(TDL_ELE_ENERGY_PVIE_T option \<Rightarrow> 's \<Rightarrow> (TDL_ELE_ENERGY_PVIE_T option \<times> 's) option) option"
  drv_read_fac_test_data_cb :: "('s \<Rightarrow> TDL_ELE_ENERGY_FAC_TEST_T) option"
  drv_read_fac_test_state_cb :: "('s \<Rightarrow> bool) option"

record ('r, 's) TDL_ELE_ENERGY_DRIVER_T =
  chip_name :: string
  chip_ops :: "('r, 's) TDL_ELE_ENERGY_DRV_OPS_T option"
  chip_cfg :: "TDL_ELE_ENERGY_CFG_T option"
  platform_resource :: "'r option"

text \<open>
  The static variables of the file, the state of the registered chip, and the number of cyclic timers that
  have been started.
\<close>

record ('r, 's) ele_sys =
  sg_pvie_value :: TDL_ELE_ENERGY_PVIE_T
  sg_ops :: "('r, 's) TDL_ELE_ENERGY_DRV_OPS_T"
  energy_data :: TDL_ELE_ENERGY_PVIE_T
  ele_energy_is_reg :: bool
  ele_timers :: nat
  chip :: 's

abbreviation (input) pvie_zero :: TDL_ELE_ENERGY_PVIE_T where
  "pvie_zero \<equiv> \<lparr>power_val = 0, volt_val = 0, curr_val = 0, energy_val = 0\<rparr>"

abbreviation (input) coe_zero :: TDL_ELE_ENERGY_COE_T where
  "coe_zero \<equiv> \<lparr>v_coe = 0, i_coe = 0, p_coe = 0, e_coe = 0\<rparr>"

definition ele_boot :: "'s \<Rightarrow> ('r, 's) ele_sys" where
  "ele_boot d = \<lparr>sg_pvie_value = pvie_zero,
     sg_ops = \<lparr>drv_init_cb = None, drv_ctrl_cb = None, drv_read_pvie_cb = None,
       drv_read_fac_test_data_cb = None, drv_read_fac_test_state_cb = None\<rparr>,
     energy_data = pvie_zero, ele_energy_is_reg = False, ele_timers = 0, chip = d\<rparr>"

abbreviation (input) TDL_ELE_V_REF_220 :: u32 where "TDL_ELE_V_REF_220 \<equiv> 2200"
abbreviation (input) TDL_ELE_I_REF_220 :: u32 where "TDL_ELE_I_REF_220 \<equiv> 392"
abbreviation (input) TDL_ELE_P_REF_220 :: u32 where "TDL_ELE_P_REF_220 \<equiv> 864"
abbreviation (input) TDL_ELE_V_REF_120 :: u32 where "TDL_ELE_V_REF_120 \<equiv> 1200"
abbreviation (input) TDL_ELE_I_REF_120 :: u32 where "TDL_ELE_I_REF_120 \<equiv> 833"
abbreviation (input) TDL_ELE_P_REF_120 :: u32 where "TDL_ELE_P_REF_120 \<equiv> 1000"

section \<open>Operations\<close>

definition ele_energy_timer_cb :: "('r, 's) ele_sys \<Rightarrow> ('r, 's) ele_sys option" where
  "ele_energy_timer_cb s =
     (case drv_read_pvie_cb (sg_ops s) of
        None \<Rightarrow> Some s
      | Some read_pvie \<Rightarrow> do {
          (w, d) \<leftarrow> read_pvie (Some (energy_data s)) (chip s);
          v \<leftarrow> w;
          Some (s\<lparr>sg_pvie_value := \<lparr>power_val = power_val v, volt_val = volt_val v, curr_val = curr_val v,
                     energy_val = energy_val (sg_pvie_value s) + energy_val v\<rparr>,
                  energy_data := v\<lparr>energy_val := 0\<rparr>, chip := d\<rparr>) })"

text \<open>\<open>timer_ret\<close>: what adding the timer returns.\<close>

definition tdl_ele_energy_driver_register ::
  "OPERATE_RET \<Rightarrow> ('r, 's) ele_sys \<Rightarrow> ('r, 's) TDL_ELE_ENERGY_DRIVER_T option \<Rightarrow> (OPERATE_RET \<times> ('r, 's) ele_sys) option" where
  "tdl_ele_energy_driver_register timer_ret s chip_info =
     (case chip_info of
        None \<Rightarrow> Some (OPRT_INVALID_PARM, s)
      | Some ci \<Rightarrow>
          if ele_energy_is_reg s then Some (OPRT_OK, s)
          else do {
            ops \<leftarrow> chip_ops ci;
            let s = s\<lparr>sg_ops := ops\<rparr>;
            (case drv_init_cb ops of
               None \<Rightarrow> Some (OPRT_INVALID_PARM, s)
             | Some init \<Rightarrow> do {
                 (ret, d) \<leftarrow> init (chip_cfg ci) (platform_resource ci) (chip s);
                 let s = s\<lparr>chip := d\<rparr>;
                 if ret \<noteq> OPRT_OK then Some (ret, s)
                 else do {
                   d \<leftarrow> (case drv_ctrl_cb ops of None \<Rightarrow> Some d | Some ctrl \<Rightarrow> ctrl True d);
                   let s = s\<lparr>chip := d, sg_pvie_value := pvie_zero\<rparr>;
                   if timer_ret \<noteq> OPRT_OK then Some (timer_ret, s)
                   else do {
                     c \<leftarrow> chip_cfg ci;
                     Some (OPRT_OK, s\<lparr>ele_timers := ele_timers s + 1, ele_energy_is_reg := True\<rparr>) } } }) })"

definition tdl_ele_energy_ctrl :: "bool \<Rightarrow> ('r, 's) ele_sys \<Rightarrow> (OPERATE_RET \<times> ('r, 's) ele_sys) option" where
  "tdl_ele_energy_ctrl state s =
     (case drv_ctrl_cb (sg_ops s) of
        None \<Rightarrow> Some (OPRT_INVALID_PARM, s)
      | Some ctrl \<Rightarrow> do { d \<leftarrow> ctrl state (chip s); Some (OPRT_OK, s\<lparr>chip := d\<rparr>) })"

definition tdl_ele_energy_read_fac_test_data ::
  "('r, 's) ele_sys \<Rightarrow> TDL_ELE_ENERGY_FAC_TEST_T option \<Rightarrow> OPERATE_RET \<times> TDL_ELE_ENERGY_FAC_TEST_T option" where
  "tdl_ele_energy_read_fac_test_data s fac_test_data =
     (case (fac_test_data, drv_read_fac_test_data_cb (sg_ops s)) of
        (Some _, Some f) \<Rightarrow> (OPRT_OK, Some (f (chip s)))
      | _ \<Rightarrow> (OPRT_INVALID_PARM, fac_test_data))"

definition tdl_ele_energy_read_fac_test_state :: "('r, 's) ele_sys \<Rightarrow> bool" where
  "tdl_ele_energy_read_fac_test_state s =
     (case drv_read_fac_test_state_cb (sg_ops s) of None \<Rightarrow> False | Some f \<Rightarrow> f (chip s))"

text \<open>Out parameters that may be null are options; what they hold afterwards is returned.\<close>

definition tdl_ele_energy_read_pvi_value ::
  "('r, 's) ele_sys \<Rightarrow> u32 option \<Rightarrow> u32 option \<Rightarrow> u32 option \<Rightarrow> u32 option \<times> u32 option \<times> u32 option" where
  "tdl_ele_energy_read_pvi_value s pwr volt_v curr_v =
     (map_option (\<lambda>_. power_val (sg_pvie_value s)) pwr,
      map_option (\<lambda>_. volt_val (sg_pvie_value s)) volt_v,
      map_option (\<lambda>_. curr_val (sg_pvie_value s)) curr_v)"

definition tdl_ele_energy_read_enery_value :: "('r, 's) ele_sys \<Rightarrow> u32 option \<Rightarrow> u32 option \<times> ('r, 's) ele_sys" where
  "tdl_ele_energy_read_enery_value s enry =
     (case enry of
        None \<Rightarrow> (None, s)
      | Some _ \<Rightarrow> (Some (energy_val (sg_pvie_value s)),
          s\<lparr>sg_pvie_value := (sg_pvie_value s)\<lparr>energy_val := 0\<rparr>\<rparr>))"

definition tdl_ele_energy_rang_judge :: "u32 \<Rightarrow> u32 \<Rightarrow> u32 \<Rightarrow> bool" where
  "tdl_ele_energy_rang_judge src_value tag_value rng =
     (src_value * 100 \<ge> tag_value * (100 - rng) \<and> src_value * 100 \<le> tag_value * (100 + rng))"

section \<open>The account of a metering chip\<close>

text \<open>
  What can happen between two instants: the timer of the manager, a reading of the energy by the application, an event of
  the chip's own (an interrupt). The readings are collected in a list.
\<close>

datatype 'e ele_event = Collect | Read_energy | Chip_event 'e

definition ele_step :: "('e \<Rightarrow> 's \<Rightarrow> 's option) \<Rightarrow> 'e ele_event \<Rightarrow> u32 list \<times> ('r, 's) ele_sys \<Rightarrow> (u32 list \<times> ('r, 's) ele_sys) option" where
  "ele_step ev e = (\<lambda>(out, s). case e of
     Collect \<Rightarrow> do { s \<leftarrow> ele_energy_timer_cb s; Some (out, s) }
   | Read_energy \<Rightarrow> (case tdl_ele_energy_read_enery_value s (Some 0) of
       (r, s) \<Rightarrow> Some (out @ (case r of None \<Rightarrow> [] | Some x \<Rightarrow> [x]), s))
   | Chip_event x \<Rightarrow> do { d \<leftarrow> ev x (chip s); Some (out, s\<lparr>chip := d\<rparr>) })"

definition ele_run :: "('e \<Rightarrow> 's \<Rightarrow> 's option) \<Rightarrow> 'e ele_event list \<Rightarrow> u32 list \<times> ('r, 's) ele_sys \<Rightarrow> (u32 list \<times> ('r, 's) ele_sys) option" where
  "ele_run ev es x = foldM (ele_step ev) es x"

text \<open>What the events of a run bring in, given what a collection and an event of the chip bring in.\<close>

definition step_gain :: "('s \<Rightarrow> u32) \<Rightarrow> ('e \<Rightarrow> 's \<Rightarrow> u32) \<Rightarrow> 'e ele_event \<Rightarrow> ('r, 's) ele_sys \<Rightarrow> u32" where
  "step_gain gain ev_gain e s =
     (case e of Collect \<Rightarrow> gain (chip s) | Read_energy \<Rightarrow> 0 | Chip_event x \<Rightarrow> ev_gain x (chip s))"

fun run_gain ::
  "('e \<Rightarrow> 's \<Rightarrow> 's option) \<Rightarrow> ('s \<Rightarrow> u32) \<Rightarrow> ('e \<Rightarrow> 's \<Rightarrow> u32) \<Rightarrow> 'e ele_event list
     \<Rightarrow> u32 list \<times> ('r, 's) ele_sys \<Rightarrow> u32" where
  "run_gain ev gain ev_gain [] x = 0"
| "run_gain ev gain ev_gain (e # es) x = step_gain gain ev_gain e (snd x) +
     (case ele_step ev e x of None \<Rightarrow> 0 | Some y \<Rightarrow> run_gain ev gain ev_gain es y)"

text \<open>
  The contract: \<open>credit\<close> is what the chip has measured and not yet handed over, in units of which \<open>weight\<close> make
  one unit of energy. A reading into a record whose energy is zero moves from the credit to the record.
\<close>

locale energy_source =
  fixes read_pvie :: "TDL_ELE_ENERGY_PVIE_T option \<Rightarrow> 's \<Rightarrow> (TDL_ELE_ENERGY_PVIE_T option \<times> 's) option"
    and ev :: "'e \<Rightarrow> 's \<Rightarrow> 's option"
    and weight :: u32
    and credit :: "'s \<Rightarrow> u32"
    and gain :: "'s \<Rightarrow> u32"
    and ev_gain :: "'e \<Rightarrow> 's \<Rightarrow> u32"
    and good :: "'s \<Rightarrow> bool"
  assumes read_law: "good d \<Longrightarrow> energy_val v = 0 \<Longrightarrow> read_pvie (Some v) d = Some (w, d') \<Longrightarrow>
      good d' \<and> (\<exists>v'. w = Some v' \<and> weight * energy_val v' + credit d' = credit d + gain d)"
    and ev_law: "good d \<Longrightarrow> ev e d = Some d' \<Longrightarrow> good d' \<and> credit d' = credit d + ev_gain e d"
begin

definition attached :: "('r, 's) ele_sys \<Rightarrow> bool" where
  "attached s \<longleftrightarrow> drv_read_pvie_cb (sg_ops s) = Some read_pvie \<and> energy_val (energy_data s) = 0 \<and> good (chip s)"

definition account :: "u32 list \<times> ('r, 's) ele_sys \<Rightarrow> u32" where
  "account x = weight * (sum_list (fst x) + energy_val (sg_pvie_value (snd x))) + credit (chip (snd x))"

lemma collect_account:
  assumes "attached s" and "ele_energy_timer_cb s = Some s'"
  shows "attached s' \<and> account (out, s') = account (out, s) + gain (chip s)"
proof -
  obtain v d where r: "read_pvie (Some (energy_data s)) (chip s) = Some (Some v, d)"
    and s': "s' = s\<lparr>sg_pvie_value := \<lparr>power_val = power_val v, volt_val = volt_val v, curr_val = curr_val v,
        energy_val = energy_val (sg_pvie_value s) + energy_val v\<rparr>,
      energy_data := v\<lparr>energy_val := 0\<rparr>, chip := d\<rparr>"
    using assms by (auto simp: attached_def ele_energy_timer_cb_def split: bind_splits)
  have "good d" "weight * energy_val v + credit d = credit (chip s) + gain (chip s)"
    using read_law [OF _ _ r] assms(1) by (auto simp: attached_def)
  then show ?thesis using assms(1) by (simp add: s' attached_def account_def algebra_simps)
qed

lemma step_account:
  assumes "attached s" and "ele_step ev e (out, s) = Some (out', s')"
  shows "attached s' \<and> account (out', s') = account (out, s) + step_gain gain ev_gain e s"
proof (cases e)
  case Collect
  then show ?thesis using assms collect_account [of s s' out]
    by (auto simp: ele_step_def step_gain_def split: bind_splits)
next
  case Read_energy
  then show ?thesis using assms
    by (auto simp: ele_step_def step_gain_def tdl_ele_energy_read_enery_value_def attached_def account_def algebra_simps)
next
  case (Chip_event x)
  then obtain d where d: "ev x (chip s) = Some d" "out' = out" "s' = s\<lparr>chip := d\<rparr>"
    using assms(2) by (auto simp: ele_step_def split: bind_splits)
  show ?thesis using ev_law [OF _ d(1)] assms(1) Chip_event d(2,3)
    by (simp add: step_gain_def attached_def account_def)
qed

lemma run_account:
  assumes "attached (snd x)" and "ele_run ev es x = Some y"
  shows "attached (snd y) \<and> account y = account x + run_gain ev gain ev_gain es x"
  using assms
proof (induction es arbitrary: x)
  case Nil
  then show ?case by (simp add: ele_run_def)
next
  case (Cons e es)
  obtain out s where x: "x = (out, s)" by (cases x)
  obtain z where z: "ele_step ev e (out, s) = Some z" "ele_run ev es z = Some y"
    using Cons.prems(2) by (auto simp: x ele_run_def split: bind_splits)
  obtain out' s' where zz: "z = (out', s')" by (cases z)
  have st: "attached s'" "account z = account x + step_gain gain ev_gain e s"
    using step_account [OF _ z(1) [unfolded zz]] Cons.prems(1) by (simp_all add: x zz)
  show ?case using Cons.IH [OF _ z(2)] st z(1) by (simp add: x zz add.assoc)
qed

end

section \<open>The exact account of a meter that reads a counter\<close>

text \<open>
  The chips on a serial port count pulses themselves and report the state of their counter. The account of such a
  meter is kept in natural numbers, so that a wrap-around of a 32-bit sum would break it. \<open>obs\<close> is what
  the next collection takes from the port (the counters of the accepted frames); the driver remembers a mark
  (the last counter), from which an observation gains pulses. \<open>ok\<close> says when the driver's arithmetic on
  an observation stays in range.
\<close>

definition event_obs :: "('s \<Rightarrow> 'o list) \<Rightarrow> 'e ele_event \<Rightarrow> 's \<Rightarrow> 'o list" where
  "event_obs obs e d = (case e of Collect \<Rightarrow> obs d | _ \<Rightarrow> [])"

lemma event_obs_simps [simp]:
  "event_obs obs Collect d = obs d" "event_obs obs Read_energy d = []" "event_obs obs (Chip_event x) d = []"
  by (simp_all add: event_obs_def)

fun observed ::
  "('e \<Rightarrow> 's \<Rightarrow> 's option) \<Rightarrow> ('s \<Rightarrow> 'o list) \<Rightarrow> 'e ele_event list \<Rightarrow> u32 list \<times> ('r, 's) ele_sys \<Rightarrow> 'o list" where
  "observed ev obs [] x = []"
| "observed ev obs (e # es) x = event_obs obs e (chip (snd x)) @
     (case ele_step ev e x of None \<Rightarrow> [] | Some y \<Rightarrow> observed ev obs es y)"

fun gains :: "('m \<Rightarrow> 'o \<Rightarrow> nat) \<Rightarrow> ('m \<Rightarrow> 'o \<Rightarrow> 'm) \<Rightarrow> 'm \<Rightarrow> 'o list \<Rightarrow> nat" where
  "gains gn adv m [] = 0"
| "gains gn adv m (x # xs) = gn m x + gains gn adv (adv m x) xs"

fun oks :: "('m \<Rightarrow> 'o \<Rightarrow> bool) \<Rightarrow> ('m \<Rightarrow> 'o \<Rightarrow> 'm) \<Rightarrow> 'm \<Rightarrow> 'o list \<Rightarrow> bool" where
  "oks ok adv m [] = True"
| "oks ok adv m (x # xs) = (ok m x \<and> oks ok adv (adv m x) xs)"

lemma gains_append [simp]: "gains gn adv m (xs @ ys) = gains gn adv m xs + gains gn adv (foldl adv m xs) ys"
  by (induction xs arbitrary: m) simp_all

lemma oks_append [simp]: "oks ok adv m (xs @ ys) \<longleftrightarrow> oks ok adv m xs \<and> oks ok adv (foldl adv m xs) ys"
  by (induction xs arbitrary: m) simp_all

text \<open>The contract: what a reading hands over is taken from the credit and from the pulses it observes.\<close>

locale energy_meter =
  fixes read_pvie :: "TDL_ELE_ENERGY_PVIE_T option \<Rightarrow> 's \<Rightarrow> (TDL_ELE_ENERGY_PVIE_T option \<times> 's) option"
    and ev :: "'e \<Rightarrow> 's \<Rightarrow> 's option"
    and weight :: nat
    and credit :: "'s \<Rightarrow> nat"
    and obs :: "'s \<Rightarrow> 'o list"
    and mark :: "'s \<Rightarrow> 'm"
    and adv :: "'m \<Rightarrow> 'o \<Rightarrow> 'm"
    and gn :: "'m \<Rightarrow> 'o \<Rightarrow> nat"
    and ok :: "'m \<Rightarrow> 'o \<Rightarrow> bool"
    and good :: "'s \<Rightarrow> bool"
  assumes read_law: "good d \<Longrightarrow> energy_val v = 0 \<Longrightarrow> oks ok adv (mark d) (obs d) \<Longrightarrow> read_pvie (Some v) d = Some (w, d') \<Longrightarrow>
      good d' \<and> mark d' = foldl adv (mark d) (obs d) \<and>
      (\<exists>v'. w = Some v' \<and> weight * unat (energy_val v') + credit d' = credit d + gains gn adv (mark d) (obs d))"
    and ev_law: "good d \<Longrightarrow> ev e d = Some d' \<Longrightarrow> good d' \<and> mark d' = mark d \<and> credit d' = credit d"
begin

definition attached :: "('r, 's) ele_sys \<Rightarrow> bool" where
  "attached s \<longleftrightarrow> drv_read_pvie_cb (sg_ops s) = Some read_pvie \<and> energy_val (energy_data s) = 0 \<and> good (chip s)"

definition account :: "u32 list \<times> ('r, 's) ele_sys \<Rightarrow> nat" where
  "account x = weight * (sum_list (map unat (fst x)) + unat (energy_val (sg_pvie_value (snd x)))) + credit (chip (snd x))"

lemma collect_account:
  assumes "attached s" and "ele_energy_timer_cb s = Some s'" and ok: "oks ok adv (mark (chip s)) (obs (chip s))"
    and fits: "account (out, s) + gains gn adv (mark (chip s)) (obs (chip s)) < weight * 4294967296"
  shows "attached s' \<and> mark (chip s') = foldl adv (mark (chip s)) (obs (chip s)) \<and>
    account (out, s') = account (out, s) + gains gn adv (mark (chip s)) (obs (chip s))"
proof -
  obtain v d where r: "read_pvie (Some (energy_data s)) (chip s) = Some (Some v, d)"
    and s': "s' = s\<lparr>sg_pvie_value := \<lparr>power_val = power_val v, volt_val = volt_val v, curr_val = curr_val v,
        energy_val = energy_val (sg_pvie_value s) + energy_val v\<rparr>,
      energy_data := v\<lparr>energy_val := 0\<rparr>, chip := d\<rparr>"
    using assms(1,2) by (auto simp: attached_def ele_energy_timer_cb_def split: bind_splits)
  have d: "good d" "mark d = foldl adv (mark (chip s)) (obs (chip s))"
    and w: "weight * unat (energy_val v) + credit d = credit (chip s) + gains gn adv (mark (chip s)) (obs (chip s))"
    using read_law [OF _ _ ok r] assms(1) by (auto simp: attached_def)
  let ?o = "sum_list (map unat out)" and ?e = "unat (energy_val (sg_pvie_value s))"
  have "weight * (?o + ?e + unat (energy_val v)) + credit d = account (out, s) + gains gn adv (mark (chip s)) (obs (chip s))"
    using w by (simp add: account_def distrib_left)
  then have "weight * (?o + ?e + unat (energy_val v)) < weight * 4294967296" using fits by linarith
  then have "?e + unat (energy_val v) < 4294967296" by simp
  then have "unat (energy_val (sg_pvie_value s) + energy_val v) = ?e + unat (energy_val v)" by (simp add: unat_word_ariths)
  then show ?thesis using assms(1) d w by (simp add: s' attached_def account_def distrib_left)
qed

lemma step_account:
  assumes "attached s" and "ele_step ev e (out, s) = Some (out', s')"
    and "oks ok adv (mark (chip s)) (event_obs obs e (chip s))"
    and "account (out, s) + gains gn adv (mark (chip s)) (event_obs obs e (chip s)) < weight * 4294967296"
  shows "attached s' \<and> mark (chip s') = foldl adv (mark (chip s)) (event_obs obs e (chip s)) \<and>
    account (out', s') = account (out, s) + gains gn adv (mark (chip s)) (event_obs obs e (chip s))"
proof (cases e)
  case Collect
  then show ?thesis using assms collect_account [of s s' out] by (auto simp: ele_step_def split: bind_splits)
next
  case Read_energy
  then show ?thesis using assms
    by (auto simp: ele_step_def tdl_ele_energy_read_enery_value_def attached_def account_def)
next
  case (Chip_event x)
  then obtain d where d: "ev x (chip s) = Some d" "out' = out" "s' = s\<lparr>chip := d\<rparr>"
    using assms(2) by (auto simp: ele_step_def split: bind_splits)
  show ?thesis using ev_law [OF _ d(1)] assms(1) Chip_event d(2,3) by (simp add: attached_def account_def)
qed

lemma run_account:
  assumes "attached (snd x)" and "ele_run ev es x = Some y" and "oks ok adv (mark (chip (snd x))) (observed ev obs es x)"
    and "account x + gains gn adv (mark (chip (snd x))) (observed ev obs es x) < weight * 4294967296"
  shows "attached (snd y) \<and> account y = account x + gains gn adv (mark (chip (snd x))) (observed ev obs es x)"
  using assms
proof (induction es arbitrary: x)
  case Nil
  then show ?case by (simp add: ele_run_def)
next
  case (Cons e es)
  obtain out s where x: "x = (out, s)" by (cases x)
  obtain z where z: "ele_step ev e (out, s) = Some z" "ele_run ev es z = Some y"
    using Cons.prems(2) by (auto simp: x ele_run_def split: bind_splits)
  obtain out' s' where zz: "z = (out', s')" by (cases z)
  let ?o = "event_obs obs e (chip s)"
  have st: "attached s'" "mark (chip s') = foldl adv (mark (chip s)) ?o" "account z = account x + gains gn adv (mark (chip s)) ?o"
    using step_account [OF _ z(1) [unfolded zz]] Cons.prems z(1) by (simp_all add: x zz)
  show ?case using Cons.IH [of z, OF _ z(2)] st Cons.prems(3,4) z(1) by (simp add: x zz add.assoc)
qed

end

text \<open>A chip none of whose calls has undefined behaviour in the states \<open>live\<close>, which every call keeps: every run returns.\<close>

locale energy_live =
  fixes read_pvie :: "TDL_ELE_ENERGY_PVIE_T option \<Rightarrow> 's \<Rightarrow> (TDL_ELE_ENERGY_PVIE_T option \<times> 's) option"
    and ev :: "'e \<Rightarrow> 's \<Rightarrow> 's option"
    and live :: "'s \<Rightarrow> bool"
  assumes read_live: "live d \<Longrightarrow> \<exists>v' d'. read_pvie (Some v) d = Some (Some v', d') \<and> live d'"
    and ev_live: "live d \<Longrightarrow> \<exists>d'. ev e d = Some d' \<and> live d'"
begin

lemma run_live:
  assumes "live (chip s)" and "drv_read_pvie_cb (sg_ops s) = Some read_pvie"
  shows "\<exists>out' s'. ele_run ev es (out, s) = Some (out', s') \<and> live (chip s')"
  using assms
proof (induction es arbitrary: out s)
  case Nil
  then show ?case by (simp add: ele_run_def)
next
  case (Cons e es)
  have "\<exists>out' s'. ele_step ev e (out, s) = Some (out', s') \<and> live (chip s') \<and> sg_ops s' = sg_ops s"
  proof (cases e)
    case Collect
    then show ?thesis using read_live [OF Cons.prems(1), of "energy_data s"] Cons.prems(2)
      by (auto simp: ele_step_def ele_energy_timer_cb_def)
  next
    case Read_energy
    then show ?thesis using Cons.prems by (simp add: ele_step_def tdl_ele_energy_read_enery_value_def)
  next
    case (Chip_event x)
    then show ?thesis using ev_live [OF Cons.prems(1), of x] by (auto simp: ele_step_def)
  qed
  then obtain out' s' where z: "ele_step ev e (out, s) = Some (out', s')" "live (chip s')" "sg_ops s' = sg_ops s" by blast
  then show ?case using Cons.IH [of s' out'] Cons.prems(2) by (simp add: ele_run_def)
qed

end

section \<open>Tolerance\<close>

lemma unat_times_small: "unat a * unat b < 4294967296 \<Longrightarrow> unat (a * b :: u32) = unat a * unat b"
  by (simp add: unat_word_ariths)

text \<open>As long as the products fit 32 bits, the production test accepts exactly the measured values that
  differ from the reference by at most \<open>rng\<close> percent of the reference.\<close>

theorem rang_judge_exact:
  assumes "unat rng \<le> 100" and "unat src * 100 < 4294967296" and "unat tag * (100 + unat rng) < 4294967296"
  shows "tdl_ele_energy_rang_judge src tag rng \<longleftrightarrow>
    \<bar>int (unat src) - int (unat tag)\<bar> * 100 \<le> int (unat tag) * int (unat rng)"
proof -
  have r: "unat (100 - rng) = 100 - unat rng" "unat (100 + rng) = 100 + unat rng"
    using assms(1) by (auto simp: unat_sub word_le_nat_alt unat_word_ariths)
  have "unat (src * 100) = unat src * 100"
    using unat_times_small [of src 100] assms(2) by simp
  moreover have "unat tag * (100 - unat rng) < 4294967296"
    using assms(3) by (rule le_less_trans [rotated]) (rule mult_le_mono2, linarith)
  then have "unat (tag * (100 - rng)) = unat tag * (100 - unat rng)"
    using unat_times_small [of tag "100 - rng"] by (simp add: r)
  moreover have "unat (tag * (100 + rng)) = unat tag * (100 + unat rng)"
    using unat_times_small [of tag "100 + rng"] assms(3) by (simp add: r)
  moreover have "int (unat tag * (100 - unat rng)) = int (unat tag) * (100 - int (unat rng))"
    using assms(1) by (simp add: of_nat_diff)
  ultimately show ?thesis
    unfolding tdl_ele_energy_rang_judge_def word_le_nat_alt
    by (simp flip: zle_int add: algebra_simps abs_le_iff) (auto simp: abs_if algebra_simps)
qed

theorem rang_judge_exact_witness:
  "tdl_ele_energy_rang_judge 2150 2200 5 \<longleftrightarrow> \<bar>2150 - 2200\<bar> * 100 \<le> (2200 :: int) * 5"
  using rang_judge_exact [of 5 2150 2200] by simp

end
