(* ===== verification/Energy_Pulse.thy ===== *)
theory Energy_Pulse
  imports Energy_Tdl
begin

text \<open>
  The metering chips BL0937 and HLW8012, \<^verbatim>\<open>tdd_ele_energy_bl0937_hlw8012.c\<close>. They put out pulses whose period is
  inverse to power, voltage or current. A millisecond timer interrupt and two pin interrupts measure
  these periods; the pulses of the power output also count the energy.

  The nine variables that the source keeps once for each of power, voltage and current are the record
  \<open>pulse_ch\<close>, and the code that the source writes once for each of them, with other constants, is one
  definition with these constants as arguments. An interrupt is one step: it does not fall between the statements of
  a call. What the platform returns is the record \<open>pulse_env\<close>, the calls made to it are logged.
\<close>

section \<open>Data\<close>

record TDD_BL0937_HLW8012_DRV_RESOURCE_T =
  timer_no :: u8
  epin :: u8
  ivpin :: u8
  ivcpin :: TDL_ELE_ENERGY_IO_CFG_T

datatype TDD_BL0937_HW8012_CHIP_E = TDD_ELE_CHIP_BL0937 | TDD_ELE_CHIP_HLW8012

datatype TDD_BL0937_HW8012_MEASURE_E = TDD_ELE_MEASURE_VOLT | TDD_ELE_MEASURE_CURR

record TDD_BL0937_HW8012_FAC_TEST_T =
  err_percent :: u8
  is_start_test :: bool
  test_finished :: bool
  sample_finished :: bool
  test_result :: TDL_ELE_ENERGY_TEST_RESULT_E

text \<open>One measured output: 16-bit counters carried as naturals, flags.\<close>

record pulse_ch =
  totaltimes :: nat
  onecycle_times :: nat
  lastonecycle_times :: nat
  counts :: nat
  lastcounts :: nat
  onecycle_mode :: bool
  onecycle_lastmode :: bool
  overflow :: bool
  lastoverflow :: bool

datatype pulse_io =
    Gpio_init u8 bool
  | Gpio_write u8 bool
  | Irq_init u8
  | Irq_enable u8
  | Irq_disable u8
  | Timer_init u8
  | Timer_start u8 u32
  | Timer_stop u8
  | Sys_timer_start nat
  | Sys_timer_stop

record pulse_env =
  gpio_init_ret :: OPERATE_RET
  timer_init_ret :: OPERATE_RET
  irq_init_ret :: "u8 \<Rightarrow> OPERATE_RET"
  gpio_write_ret :: OPERATE_RET
  add_timer_ret :: OPERATE_RET

record pulse_sys =
  ch_p :: pulse_ch
  ch_v :: pulse_ch
  ch_i :: pulse_ch
  vi_testmode :: bool
  vi_testtimes :: nat
  p_samplevalue :: u32
  v_samplevalue :: u32
  i_samplevalue :: u32
  e_samplevalue :: u32
  isr_add_energy :: u32
  pluse_cnt :: u32
  calc_times :: u32
  p_current_plusewidth :: u32
  v_current_plusewidth :: u32
  i_current_plusewidth :: u32
  p_ref :: u16
  v_ref :: u16
  i_ref :: u16
  is_sample_finish :: bool
  hw_cfg :: TDD_BL0937_HLW8012_DRV_RESOURCE_T
  coe_params :: TDL_ELE_ENERGY_COE_T
  def_coe_params :: TDL_ELE_ENERGY_COE_T
  chipid :: TDD_BL0937_HW8012_CHIP_E
  factorytest :: TDD_BL0937_HW8012_FAC_TEST_T
  pulse_log :: "pulse_io list"

definition pio :: "pulse_io \<Rightarrow> pulse_sys \<Rightarrow> pulse_sys" where
  "pio e s = s\<lparr>pulse_log := pulse_log s @ [e]\<rparr>"

abbreviation (input) CAL_SINGLE_TIME :: nat where "CAL_SINGLE_TIME \<equiv> 100"
abbreviation (input) P_CAL_CYCLE_TIME :: nat where "P_CAL_CYCLE_TIME \<equiv> 2000"
abbreviation (input) D_TIME1_300MS :: nat where "D_TIME1_300MS \<equiv> 300"
abbreviation (input) D_TIME1_1S :: nat where "D_TIME1_1S \<equiv> 1000"
abbreviation (input) V_CAL_TIME :: nat where "V_CAL_TIME \<equiv> 1000"
abbreviation (input) I_CAL_TIME :: nat where "I_CAL_TIME \<equiv> 10000"
abbreviation (input) I_CYCLE_TIME :: nat where "I_CYCLE_TIME \<equiv> 2500"
abbreviation (input) D_TIME1_P_OVERFLOW :: nat where "D_TIME1_P_OVERFLOW \<equiv> 5000"
abbreviation (input) D_TIME1_V_OVERFLOW :: nat where "D_TIME1_V_OVERFLOW \<equiv> 500"
abbreviation (input) D_TIME1_I_OVERFLOW :: nat where "D_TIME1_I_OVERFLOW \<equiv> 5000"
abbreviation (input) SMALL_POWER_LIMIT :: u32 where "SMALL_POWER_LIMIT \<equiv> 30"
abbreviation (input) ENERGY_ABNORMAL :: u32 where "ENERGY_ABNORMAL \<equiv> 10"
abbreviation (input) E_001E_GAIN :: u32 where "E_001E_GAIN \<equiv> 10"
abbreviation (input) R_MEASUREIC_U_RMS :: u32 where "R_MEASUREIC_U_RMS \<equiv> 0x1000000"
abbreviation (input) R_MEASUREIC_I_RMS :: u32 where "R_MEASUREIC_I_RMS \<equiv> 0x1000001"
abbreviation (input) R_MEASUREIC_PQ_RMS :: u32 where "R_MEASUREIC_PQ_RMS \<equiv> 0x1000002"
abbreviation (input) R_MEASUREIC_ENERGY :: u32 where "R_MEASUREIC_ENERGY \<equiv> 0x1000003"

section \<open>Interrupts\<close>

definition voltage_curr_measure_ctrl :: "pulse_env \<Rightarrow> TDD_BL0937_HW8012_MEASURE_E \<Rightarrow> pulse_sys \<Rightarrow> OPERATE_RET \<times> pulse_sys" where
  "voltage_curr_measure_ctrl env masure_type s =
     (let high = (io_type (ivcpin (hw_cfg s)) = TDL_ELE_IO_DRV_HIGH);
          stat = (case masure_type of TDD_ELE_MEASURE_VOLT \<Rightarrow> high | TDD_ELE_MEASURE_CURR \<Rightarrow> \<not> high)
      in (gpio_write_ret env, pio (Gpio_write (io_pin (ivcpin (hw_cfg s))) stat) s))"

text \<open>A millisecond passes on an output that overflows after \<open>limit\<close> milliseconds without a pulse.\<close>

definition pulse_tick :: "nat \<Rightarrow> pulse_ch \<Rightarrow> pulse_ch" where
  "pulse_tick limit m =
     (let m = (if counts m \<noteq> 0
               then m\<lparr>onecycle_times := cut16 (onecycle_times m + 1), totaltimes := cut16 (totaltimes m + 1)\<rparr> else m)
      in if totaltimes m \<ge> limit
         then m\<lparr>overflow := True, lastoverflow := True, totaltimes := 0, onecycle_times := 0, counts := 0,
                onecycle_mode := False\<rparr>
         else if onecycle_times m = CAL_SINGLE_TIME then m\<lparr>onecycle_mode := counts m < 2\<rparr>
         else m)"

text \<open>
  A pulse on an output. A period of \<open>single\<close> milliseconds or more is measured alone, shorter ones are counted
  over a window of at least \<open>window\<close> milliseconds.
\<close>

definition pulse_edge :: "nat \<Rightarrow> nat \<Rightarrow> pulse_ch \<Rightarrow> pulse_ch" where
  "pulse_edge single window m =
     (let m = m\<lparr>totaltimes := 0, counts := cut16 (counts m + 1)\<rparr>
      in if overflow m
         then m\<lparr>onecycle_mode := False, totaltimes := 0, onecycle_times := 0, counts := 1, overflow := False\<rparr>
         else if onecycle_mode m
         then if onecycle_times m \<ge> single
              then m\<lparr>lastonecycle_times := onecycle_times m, onecycle_lastmode := onecycle_mode m, overflow := False,
                     lastoverflow := False, onecycle_mode := False, totaltimes := 0, onecycle_times := 0, counts := 1\<rparr>
              else m
         else if onecycle_times m \<ge> window
              then m\<lparr>lastonecycle_times := onecycle_times m, lastcounts := counts m,
                     onecycle_lastmode := onecycle_mode m, overflow := False, lastoverflow := False,
                     onecycle_mode := False, totaltimes := 0, onecycle_times := 0, counts := 1\<rparr>
              else m)"

text \<open>The time of the production test; a reference power of zero would be a division by zero.\<close>

definition D_TIME1_CAL_TIME :: "pulse_sys \<Rightarrow> u32 option" where
  "D_TIME1_CAL_TIME s = (if p_ref s = 0 then None else Some (of_nat (3600000 div unat (p_ref s))))"

definition vi_switch :: "pulse_env \<Rightarrow> pulse_sys \<Rightarrow> pulse_sys" where
  "vi_switch env s =
     (let s = s\<lparr>vi_testtimes := cut16 (vi_testtimes s + 65535)\<rparr>;
          s = (if vi_testmode s
               then if vi_testtimes s = V_CAL_TIME then s\<lparr>is_sample_finish := True\<rparr> else s
               else if vi_testtimes s = I_CAL_TIME - I_CYCLE_TIME then s\<lparr>is_sample_finish := True\<rparr> else s)
      in if vi_testtimes s = 0
         then (let s = s\<lparr>is_sample_finish := False\<rparr>
               in if vi_testmode s
                  then (let s = s\<lparr>vi_testmode := False\<rparr>; s = snd (voltage_curr_measure_ctrl env TDD_ELE_MEASURE_CURR s)
                        in s\<lparr>vi_testtimes := I_CAL_TIME,
                             ch_i := (ch_i s)\<lparr>totaltimes := 0, onecycle_times := 0, counts := 0, overflow := False\<rparr>\<rparr>)
                  else (let s = s\<lparr>vi_testmode := True\<rparr>; s = snd (voltage_curr_measure_ctrl env TDD_ELE_MEASURE_VOLT s)
                        in s\<lparr>vi_testtimes := V_CAL_TIME,
                             ch_v := (ch_v s)\<lparr>totaltimes := 0, onecycle_times := 0, counts := 0, overflow := False\<rparr>\<rparr>))
         else s)"

definition cal_tick :: "pulse_sys \<Rightarrow> pulse_sys option" where
  "cal_tick s =
     (if is_start_test (factorytest s) then do {
        let s = s\<lparr>calc_times := calc_times s + 1\<rparr>;
        t \<leftarrow> D_TIME1_CAL_TIME s;
        Some (if calc_times s = t
              then s\<lparr>coe_params := (coe_params s)\<lparr>e_coe := E_001E_GAIN * pluse_cnt s\<rparr>,
                     factorytest := (factorytest s)\<lparr>sample_finished := True\<rparr>\<rparr>
              else s) }
      else Some s)"

definition bl0937_hw_timer_cb :: "pulse_env \<Rightarrow> pulse_sys \<Rightarrow> pulse_sys option" where
  "bl0937_hw_timer_cb env s = do {
     s \<leftarrow> cal_tick s;
     let s = s\<lparr>ch_p := pulse_tick D_TIME1_P_OVERFLOW (ch_p s)\<rparr>;
     let s = (if vi_testmode s then s\<lparr>ch_v := pulse_tick D_TIME1_V_OVERFLOW (ch_v s)\<rparr>
              else s\<lparr>ch_i := pulse_tick D_TIME1_I_OVERFLOW (ch_i s)\<rparr>);
     Some (vi_switch env s) }"

definition power_gpio_isr_cb :: "pulse_sys \<Rightarrow> pulse_sys" where
  "power_gpio_isr_cb s =
     (let s = s\<lparr>ch_p := pulse_edge CAL_SINGLE_TIME P_CAL_CYCLE_TIME (ch_p s), pluse_cnt := pluse_cnt s + 1\<rparr>
      in if \<not> is_start_test (factorytest s) \<and> pluse_cnt s = e_coe (coe_params s)
         then s\<lparr>pluse_cnt := 0, isr_add_energy := isr_add_energy s + 1\<rparr> else s)"

definition vol_curr_gpio_isr_cb :: "pulse_sys \<Rightarrow> pulse_sys" where
  "vol_curr_gpio_isr_cb s =
     (if vi_testmode s then s\<lparr>ch_v := pulse_edge CAL_SINGLE_TIME D_TIME1_300MS (ch_v s)\<rparr>
      else s\<lparr>ch_i := pulse_edge CAL_SINGLE_TIME D_TIME1_1S (ch_i s)\<rparr>)"

section \<open>Reading\<close>

definition pulse_period :: "pulse_ch \<Rightarrow> u32 \<Rightarrow> OPERATE_RET \<times> u32" where
  "pulse_period m src =
     (if onecycle_lastmode m then (OPRT_OK, if lastoverflow m then 0 else of_nat (lastonecycle_times m * 1000))
      else if lastcounts m < 2 then (OPRT_COM_ERROR, src)
      else (OPRT_OK, if lastoverflow m then 0 else of_nat (lastonecycle_times m * 1000 div (lastcounts m - 1))))"

definition read_measure_origin_data :: "u32 option \<Rightarrow> u32 \<Rightarrow> pulse_sys \<Rightarrow> OPERATE_RET \<times> u32 option \<times> pulse_sys" where
  "read_measure_origin_data src addr s =
     (case src of
        None \<Rightarrow> (OPRT_INVALID_PARM, None, s)
      | Some v \<Rightarrow>
          if addr = R_MEASUREIC_U_RMS then (case pulse_period (ch_v s) v of (r, v) \<Rightarrow> (r, Some v, s))
          else if addr = R_MEASUREIC_I_RMS then (case pulse_period (ch_i s) v of (r, v) \<Rightarrow> (r, Some v, s))
          else if addr = R_MEASUREIC_PQ_RMS then (case pulse_period (ch_p s) v of (r, v) \<Rightarrow> (r, Some v, s))
          else if addr = R_MEASUREIC_ENERGY then (OPRT_OK, Some (isr_add_energy s), s\<lparr>isr_add_energy := 0\<rparr>)
          else (OPRT_COM_ERROR, Some v, s))"

text \<open>A register read into the variable that \<open>get\<close> and \<open>put\<close> access; the return code is ignored.\<close>

definition origin_into :: "u32 \<Rightarrow> u32 \<Rightarrow> (u32 \<Rightarrow> pulse_sys \<Rightarrow> pulse_sys) \<Rightarrow> pulse_sys \<Rightarrow> pulse_sys" where
  "origin_into addr old put s =
     (case read_measure_origin_data (Some old) addr s of (_, w, s) \<Rightarrow> (case w of None \<Rightarrow> s | Some v \<Rightarrow> put v s))"

definition read_energy_measure_value :: "pulse_sys \<Rightarrow> pulse_sys" where
  "read_energy_measure_value s =
     origin_into R_MEASUREIC_ENERGY (e_samplevalue s) (\<lambda>v s. s\<lparr>e_samplevalue := v\<rparr>) s"

definition read_power_measure_value :: "pulse_sys \<Rightarrow> pulse_sys" where
  "read_power_measure_value s =
     (let s = origin_into R_MEASUREIC_PQ_RMS (p_current_plusewidth s) (\<lambda>v s. s\<lparr>p_current_plusewidth := v\<rparr>) s;
          w = p_current_plusewidth s
      in if is_start_test (factorytest s) then s\<lparr>coe_params := (coe_params s)\<lparr>p_coe := w\<rparr>\<rparr>
         else let v = (if w = 0 then 0 else ucast (p_ref s) * p_coe (coe_params s) div w)
              in s\<lparr>p_samplevalue := (if v = 0xffffffff then 0 else v)\<rparr>)"

definition read_current_measure_value :: "pulse_sys \<Rightarrow> pulse_sys" where
  "read_current_measure_value s =
     (let s = origin_into R_MEASUREIC_I_RMS (i_current_plusewidth s) (\<lambda>v s. s\<lparr>i_current_plusewidth := v\<rparr>) s;
          w = i_current_plusewidth s
      in if is_start_test (factorytest s) then s\<lparr>coe_params := (coe_params s)\<lparr>i_coe := w\<rparr>\<rparr>
         else let v = (if w = 0 then 0 else ucast (i_ref s) * i_coe (coe_params s) div w)
              in s\<lparr>i_samplevalue := (if p_samplevalue s = 0 then 0 else v)\<rparr>)"

definition read_voltage_measure_value :: "pulse_sys \<Rightarrow> pulse_sys" where
  "read_voltage_measure_value s =
     (let s = origin_into R_MEASUREIC_U_RMS (v_current_plusewidth s) (\<lambda>v s. s\<lparr>v_current_plusewidth := v\<rparr>) s;
          w = v_current_plusewidth s
      in if is_start_test (factorytest s) then s\<lparr>coe_params := (coe_params s)\<lparr>v_coe := w\<rparr>\<rparr>
         else let v = (if w = 0 then 0 else ucast (v_ref s) * v_coe (coe_params s) div w)
              in s\<lparr>v_samplevalue := (if v = 0xffffffff then 0 else v)\<rparr>)"

definition deal_measure_value :: "pulse_sys \<Rightarrow> pulse_sys" where
  "deal_measure_value s =
     (let s = (if p_samplevalue s < SMALL_POWER_LIMIT then s\<lparr>p_samplevalue := 0, i_samplevalue := 0\<rparr> else s)
      in if e_samplevalue s > ENERGY_ABNORMAL then s\<lparr>e_samplevalue := 0\<rparr> else s)"

definition bl0937_hlw8012_read_pvie_value ::
  "TDL_ELE_ENERGY_PVIE_T option \<Rightarrow> pulse_sys \<Rightarrow> (TDL_ELE_ENERGY_PVIE_T option \<times> pulse_sys) option" where
  "bl0937_hlw8012_read_pvie_value pvie_val s =
     (case pvie_val of
        None \<Rightarrow> Some (None, s)
      | Some v \<Rightarrow>
          if \<not> is_sample_finish s then Some (Some v, s)
          else let s = deal_measure_value (read_energy_measure_value (read_current_measure_value
                         (read_voltage_measure_value (read_power_measure_value s))))
               in Some (Some (v\<lparr>power_val := p_samplevalue s, volt_val := v_samplevalue s, curr_val := i_samplevalue s,
                                energy_val := e_samplevalue s\<rparr>), s\<lparr>e_samplevalue := 0\<rparr>))"

section \<open>Production test\<close>

definition my_abs :: "u32 \<Rightarrow> u32 \<Rightarrow> u32" where
  "my_abs x y = (if x > y then x - y else y - x)"

definition coe_off :: "u8 \<Rightarrow> u32 \<Rightarrow> u32 \<Rightarrow> bool" where
  "coe_off percent c dflt = (my_abs c dflt > dflt * ucast percent div 100)"

definition bl0937_hlw8012_fac_test_cal :: "pulse_sys \<Rightarrow> TDL_ELE_ENERGY_TEST_RESULT_E" where
  "bl0937_hlw8012_fac_test_cal s =
     (let c = coe_params s; d = def_coe_params s; off = coe_off (err_percent (factorytest s))
      in if off (v_coe c) (v_coe d) then TDL_ELE_TEST_FAIL
         else if off (p_coe c) (p_coe d) then TDL_ELE_TEST_FAIL
         else if off (e_coe c) (e_coe d) then TDL_ELE_TEST_FAIL
         else if off (i_coe c) (i_coe d) then TDL_ELE_TEST_FAIL
         else TDL_ELE_TEST_PASS)"

definition bl0937_hlw8012_fac_test_timer_cb :: "pulse_sys \<Rightarrow> pulse_sys" where
  "bl0937_hlw8012_fac_test_timer_cb s =
     (if sample_finished (factorytest s)
      then pio Sys_timer_stop (s\<lparr>factorytest := (factorytest s)\<lparr>test_result := bl0937_hlw8012_fac_test_cal s, test_finished := True\<rparr>\<rparr>)
      else s)"

definition bl0937_hlw8012_read_fac_test_data :: "pulse_sys \<Rightarrow> TDL_ELE_ENERGY_FAC_TEST_T" where
  "bl0937_hlw8012_read_fac_test_data s = \<lparr>cfg_test_result = test_result (factorytest s), coe_data = coe_params s\<rparr>"

definition bl0937_hlw8012_read_fac_test_state :: "pulse_sys \<Rightarrow> bool" where
  "bl0937_hlw8012_read_fac_test_state s = test_finished (factorytest s)"

section \<open>Initialisation and registration\<close>

definition drv_out_pin_init :: "pulse_env \<Rightarrow> TDL_ELE_ENERGY_IO_CFG_T option \<Rightarrow> pulse_sys \<Rightarrow> OPERATE_RET \<times> pulse_sys" where
  "drv_out_pin_init env out_pin s =
     (case out_pin of
        None \<Rightarrow> (OPRT_INVALID_PARM, s)
      | Some p \<Rightarrow> (case io_type p of
          TDL_ELE_IO_DRV_ERR \<Rightarrow> (OPRT_INVALID_PARM, s)
        | TDL_ELE_IO_DRV_HIGH \<Rightarrow> (gpio_init_ret env, pio (Gpio_init (io_pin p) True) s)
        | TDL_ELE_IO_DRV_LOW \<Rightarrow> (gpio_init_ret env, pio (Gpio_init (io_pin p) False) s)))"

definition drv_gpio_isr_init :: "pulse_env \<Rightarrow> u8 \<Rightarrow> u8 \<Rightarrow> pulse_sys \<Rightarrow> OPERATE_RET \<times> pulse_sys" where
  "drv_gpio_isr_init env ep ivp s =
     (let s = pio (Irq_init ivp) s
      in if irq_init_ret env ivp \<noteq> OPRT_OK then (irq_init_ret env ivp, s)
         else (irq_init_ret env ep, pio (Irq_init ep) s))"

definition bl0937_drv_hw_timer_init :: "pulse_env \<Rightarrow> u8 \<Rightarrow> pulse_sys \<Rightarrow> OPERATE_RET \<times> pulse_sys" where
  "bl0937_drv_hw_timer_init env t s = (timer_init_ret env, pio (Timer_init t) s)"

definition bl0937_hw_timer_ctrl :: "u32 \<Rightarrow> u8 \<Rightarrow> bool \<Rightarrow> pulse_sys \<Rightarrow> pulse_sys" where
  "bl0937_hw_timer_ctrl delay_times t stat s =
     pio (if stat then Timer_start t (delay_times * 1000) else Timer_stop t) s"

definition gpio_isr_ctrl :: "u8 \<Rightarrow> bool \<Rightarrow> pulse_sys \<Rightarrow> pulse_sys" where
  "gpio_isr_ctrl pin isr_stat s = pio (if isr_stat then Irq_enable pin else Irq_disable pin) s"

definition bl0937_hlw8012_coe_value_init :: "u8 \<Rightarrow> u32 \<Rightarrow> u32 \<Rightarrow> u32 \<Rightarrow> pulse_sys \<Rightarrow> pulse_sys" where
  "bl0937_hlw8012_coe_value_init res vin iin pin s =
     (if vin = 0 \<or> iin = 0 \<or> pin = 0 then s
      else let r = ucast (if res = 0 then 1 else res);
               d = (if chipid s = TDD_ELE_CHIP_BL0937
                    then \<lparr>v_coe = 586, i_coe = 28928, p_coe = 16929, e_coe = 2820\<rparr>
                    else \<lparr>v_coe = 1680, i_coe = 34586, p_coe = 98363, e_coe = 424\<rparr>)
           in s\<lparr>def_coe_params := \<lparr>v_coe = v_coe d * TDL_ELE_V_REF_220 div vin, i_coe = i_coe d * TDL_ELE_I_REF_220 div iin div r,
                  p_coe = p_coe d * TDL_ELE_P_REF_220 div pin div r, e_coe = e_coe d * r\<rparr>,
                p_ref := ucast pin, v_ref := ucast vin, i_ref := ucast iin\<rparr>)"

definition pulse_ch_init :: pulse_ch where
  "pulse_ch_init = \<lparr>totaltimes = 0, onecycle_times = 0, lastonecycle_times = 0, counts = 0, lastcounts = 0,
     onecycle_mode = True, onecycle_lastmode = True, overflow = True, lastoverflow = True\<rparr>"

definition bl0937_hlw8012_run_params_init :: "pulse_sys \<Rightarrow> pulse_sys" where
  "bl0937_hlw8012_run_params_init s = s\<lparr>pluse_cnt := 0, isr_add_energy := 0,
     p_samplevalue := 0, v_samplevalue := 0, i_samplevalue := 0, e_samplevalue := 0,
     ch_p := pulse_ch_init, ch_v := pulse_ch_init, ch_i := pulse_ch_init,
     vi_testmode := True, vi_testtimes := V_CAL_TIME, calc_times := 0,
     p_current_plusewidth := 0, v_current_plusewidth := 0, i_current_plusewidth := 0, is_sample_finish := False\<rparr>"

definition bl0937_hlw8012_ctrl :: "pulse_env \<Rightarrow> bool \<Rightarrow> pulse_sys \<Rightarrow> pulse_sys" where
  "bl0937_hlw8012_ctrl env state s =
     (let s = bl0937_hw_timer_ctrl 1 (timer_no (hw_cfg s)) state s;
          s = (if state then snd (drv_gpio_isr_init env (epin (hw_cfg s)) (ivpin (hw_cfg s)) s) else s);
          s = gpio_isr_ctrl (ivpin (hw_cfg s)) state s;
          s = gpio_isr_ctrl (epin (hw_cfg s)) state s
      in if state then bl0937_hlw8012_run_params_init s else s)"

text \<open>The choice of coefficients and the start of the production test at the end of the initialisation.\<close>

definition fac_zero :: TDD_BL0937_HW8012_FAC_TEST_T where
  "fac_zero = \<lparr>err_percent = 0, is_start_test = False, test_finished = False, sample_finished = False,
     test_result = TDL_ELE_TEST_ZERO\<rparr>"

definition pulse_mode_init :: "pulse_env \<Rightarrow> TDL_ELE_ENERGY_CFG_T \<Rightarrow> pulse_sys \<Rightarrow> OPERATE_RET \<times> pulse_sys" where
  "pulse_mode_init env c s =
     (case mode c of
        TDL_ELE_TEST_MODE \<Rightarrow>
          (let p = cfg_err_percent (params c);
               s = s\<lparr>factorytest := (factorytest s)\<lparr>is_start_test := True, test_result := TDL_ELE_TEST_FAIL,
                       err_percent := (if p > 100 \<or> p < 1 then 50 else p)\<rparr>\<rparr>
           in if add_timer_ret env \<noteq> OPRT_OK then (add_timer_ret env, s)
              else (OPRT_OK, pio (Sys_timer_start 1000) s))
      | TDL_ELE_NORMAL_MODE \<Rightarrow>
          (let s = s\<lparr>factorytest := (factorytest s)\<lparr>is_start_test := False, test_result := cfg_test_result (fac_test c)\<rparr>\<rparr>
           in (OPRT_OK, s\<lparr>coe_params := (if cfg_test_result (fac_test c) = TDL_ELE_TEST_PASS then coe_data (fac_test c)
                                        else def_coe_params s)\<rparr>)))"

definition bl0937_hlw8012_hw_init ::
  "pulse_env \<Rightarrow> TDD_BL0937_HW8012_CHIP_E \<Rightarrow> TDL_ELE_ENERGY_CFG_T option \<Rightarrow> TDD_BL0937_HLW8012_DRV_RESOURCE_T option
     \<Rightarrow> pulse_sys \<Rightarrow> OPERATE_RET \<times> pulse_sys" where
  "bl0937_hlw8012_hw_init env chip_id drv_cfg dev_info s =
     (case (drv_cfg, dev_info) of
        (Some c, Some info) \<Rightarrow>
          (let s = s\<lparr>chipid := chip_id, coe_params := coe_zero, def_coe_params := coe_zero, factorytest := fac_zero, hw_cfg := info\<rparr>;
               (ret, s) = drv_out_pin_init env (Some (ivcpin (hw_cfg s))) s
           in if ret \<noteq> OPRT_OK then (ret, s)
              else let (ret, s) = bl0937_drv_hw_timer_init env (timer_no (hw_cfg s)) s
                   in if ret \<noteq> OPRT_OK then (ret, s)
                      else let s = (if volt_type (params c) = TDL_ELE_VOLT_120V
                                    then bl0937_hlw8012_coe_value_init (resval (params c)) TDL_ELE_V_REF_120 TDL_ELE_I_REF_120 TDL_ELE_P_REF_120 s
                                    else bl0937_hlw8012_coe_value_init (resval (params c)) TDL_ELE_V_REF_220 TDL_ELE_I_REF_220 TDL_ELE_P_REF_220 s)
                           in pulse_mode_init env c (bl0937_hlw8012_run_params_init s))
      | _ \<Rightarrow> (OPRT_INVALID_PARM, s))"

definition hlw8012_chip_init ::
  "pulse_env \<Rightarrow> TDL_ELE_ENERGY_CFG_T option \<Rightarrow> TDD_BL0937_HLW8012_DRV_RESOURCE_T option \<Rightarrow> pulse_sys \<Rightarrow> OPERATE_RET \<times> pulse_sys" where
  "hlw8012_chip_init env drv_cfg r s =
     (if drv_cfg = None \<or> r = None then (OPRT_INVALID_PARM, s) else bl0937_hlw8012_hw_init env TDD_ELE_CHIP_HLW8012 drv_cfg r s)"

definition bl0937_init ::
  "pulse_env \<Rightarrow> TDL_ELE_ENERGY_CFG_T option \<Rightarrow> TDD_BL0937_HLW8012_DRV_RESOURCE_T option \<Rightarrow> pulse_sys \<Rightarrow> OPERATE_RET \<times> pulse_sys" where
  "bl0937_init env drv_cfg r s =
     (if drv_cfg = None \<or> r = None then (OPRT_INVALID_PARM, s) else bl0937_hlw8012_hw_init env TDD_ELE_CHIP_BL0937 drv_cfg r s)"

definition bl0937_drv_ops :: "pulse_env \<Rightarrow> (TDD_BL0937_HLW8012_DRV_RESOURCE_T, pulse_sys) TDL_ELE_ENERGY_DRV_OPS_T" where
  "bl0937_drv_ops env = \<lparr>drv_init_cb = Some (\<lambda>c r s. Some (bl0937_init env c r s)),
     drv_ctrl_cb = Some (\<lambda>b s. Some (bl0937_hlw8012_ctrl env b s)),
     drv_read_pvie_cb = Some bl0937_hlw8012_read_pvie_value,
     drv_read_fac_test_data_cb = Some bl0937_hlw8012_read_fac_test_data,
     drv_read_fac_test_state_cb = Some bl0937_hlw8012_read_fac_test_state\<rparr>"

definition hlw8012_drv_ops :: "pulse_env \<Rightarrow> (TDD_BL0937_HLW8012_DRV_RESOURCE_T, pulse_sys) TDL_ELE_ENERGY_DRV_OPS_T" where
  "hlw8012_drv_ops env = \<lparr>drv_init_cb = Some (\<lambda>c r s. Some (hlw8012_chip_init env c r s)),
     drv_ctrl_cb = Some (\<lambda>b s. Some (bl0937_hlw8012_ctrl env b s)),
     drv_read_pvie_cb = Some bl0937_hlw8012_read_pvie_value,
     drv_read_fac_test_data_cb = Some bl0937_hlw8012_read_fac_test_data,
     drv_read_fac_test_state_cb = Some bl0937_hlw8012_read_fac_test_state\<rparr>"

definition tdd_ele_energy_bl0937_init ::
  "pulse_env \<Rightarrow> OPERATE_RET \<Rightarrow> (TDD_BL0937_HLW8012_DRV_RESOURCE_T, pulse_sys) ele_sys \<Rightarrow> TDL_ELE_ENERGY_CFG_T option
     \<Rightarrow> TDD_BL0937_HLW8012_DRV_RESOURCE_T option \<Rightarrow> (OPERATE_RET \<times> (TDD_BL0937_HLW8012_DRV_RESOURCE_T, pulse_sys) ele_sys) option" where
  "tdd_ele_energy_bl0937_init env timer_ret s drv_cfg r =
     (if drv_cfg = None \<or> r = None then Some (OPRT_INVALID_PARM, s)
      else tdl_ele_energy_driver_register timer_ret s (Some \<lparr>chip_name = ''bl0937'', chip_ops = Some (bl0937_drv_ops env),
             chip_cfg = drv_cfg, platform_resource = r\<rparr>))"

definition tdd_ele_energy_hlw8012_init ::
  "pulse_env \<Rightarrow> OPERATE_RET \<Rightarrow> (TDD_BL0937_HLW8012_DRV_RESOURCE_T, pulse_sys) ele_sys \<Rightarrow> TDL_ELE_ENERGY_CFG_T option
     \<Rightarrow> TDD_BL0937_HLW8012_DRV_RESOURCE_T option \<Rightarrow> (OPERATE_RET \<times> (TDD_BL0937_HLW8012_DRV_RESOURCE_T, pulse_sys) ele_sys) option" where
  "tdd_ele_energy_hlw8012_init env timer_ret s drv_cfg r =
     (if drv_cfg = None \<or> r = None then Some (OPRT_INVALID_PARM, s)
      else tdl_ele_energy_driver_register timer_ret s (Some \<lparr>chip_name = ''hlw8012'', chip_ops = Some (hlw8012_drv_ops env),
             chip_cfg = drv_cfg, platform_resource = r\<rparr>))"

section \<open>Events\<close>

datatype pulse_event = Hw_tick | Power_edge | Vi_edge

definition pulse_ev :: "pulse_env \<Rightarrow> pulse_event \<Rightarrow> pulse_sys \<Rightarrow> pulse_sys option" where
  "pulse_ev env e s =
     (case e of
        Hw_tick \<Rightarrow> bl0937_hw_timer_cb env s
      | Power_edge \<Rightarrow> Some (power_gpio_isr_cb s)
      | Vi_edge \<Rightarrow> Some (vol_curr_gpio_isr_cb s))"

section \<open>A periodic pulse train is measured exactly\<close>

text \<open>
  \<open>in_window\<close>: \<open>j\<close> periods of \<open>T\<close> milliseconds have passed since the measurement started with a pulse, and a pulse has just
  come. \<open>measured\<close>: the last finished measurement stands for the period \<open>T\<close>.
\<close>

definition in_window :: "nat \<Rightarrow> nat \<Rightarrow> pulse_ch \<Rightarrow> bool" where
  "in_window T j m \<longleftrightarrow> counts m = j + 1 \<and> onecycle_times m = j * T \<and> totaltimes m = 0 \<and>
     \<not> onecycle_mode m \<and> \<not> overflow m"

definition measured :: "nat \<Rightarrow> pulse_ch \<Rightarrow> bool" where
  "measured T m \<longleftrightarrow> \<not> lastoverflow m \<and>
     (if onecycle_lastmode m then lastonecycle_times m = T
      else \<exists>q > 0. lastonecycle_times m = q * T \<and> lastcounts m = q + 1)"

lemma measured_period: "measured T m \<Longrightarrow> pulse_period m src = (OPRT_OK, of_nat (T * 1000))"
  by (auto simp: measured_def pulse_period_def mult.assoc split: if_splits)

lemma ticks_long:
  assumes "in_window T 0 m" and "t < limit" and "t < 65536"
  shows "(pulse_tick limit ^^ t) m = m\<lparr>onecycle_times := t, totaltimes := t, onecycle_mode := 100 \<le> t\<rparr>"
  using assms(2,3)
proof (induction t)
  case 0
  then show ?case using assms(1) by (simp add: in_window_def)
next
  case (Suc t)
  then have "(pulse_tick limit ^^ Suc t) m = pulse_tick limit (m\<lparr>onecycle_times := t, totaltimes := t, onecycle_mode := 100 \<le> t\<rparr>)"
    by simp
  also have "\<dots> = m\<lparr>onecycle_times := Suc t, totaltimes := Suc t, onecycle_mode := 100 \<le> Suc t\<rparr>"
    using Suc.prems assms(1) by (intro pulse_ch.equality) (auto simp: pulse_tick_def in_window_def Let_def)
  finally show ?case .
qed

lemma ticks_short:
  assumes "in_window T j m" and "T < 100" and "t \<le> T" and "T < limit" and "j * T + T < 65536"
  shows "(pulse_tick limit ^^ t) m = m\<lparr>onecycle_times := j * T + t, totaltimes := t\<rparr>"
  using assms(3)
proof (induction t)
  case 0
  then show ?case using assms(1) by (simp add: in_window_def)
next
  case (Suc t)
  then have "(pulse_tick limit ^^ Suc t) m = pulse_tick limit (m\<lparr>onecycle_times := j * T + t, totaltimes := t\<rparr>)"
    by simp
  also have "\<dots> = m\<lparr>onecycle_times := j * T + Suc t, totaltimes := Suc t\<rparr>"
  proof -
    have "j \<noteq> 0" if "Suc (j * T + t) = 100" using that assms(2) Suc.prems by (cases j) auto
    then show ?thesis
      using Suc.prems assms by (intro pulse_ch.equality) (auto simp: pulse_tick_def in_window_def Let_def)
  qed
  finally show ?case .
qed

definition pulse_round :: "nat \<Rightarrow> nat \<Rightarrow> nat \<Rightarrow> pulse_ch \<Rightarrow> pulse_ch" where
  "pulse_round limit window T m = pulse_edge 100 window ((pulse_tick limit ^^ T) m)"

lemma round_long:
  assumes "in_window T 0 m" and "100 \<le> T" and "T < limit" and "limit < 65536"
  shows "in_window T 0 (pulse_round limit window T m) \<and> measured T (pulse_round limit window T m)"
  using assms ticks_long [of T m T limit]
  by (simp add: pulse_round_def pulse_edge_def in_window_def measured_def Let_def)

lemma round_short:
  assumes "in_window T j m" and "0 < T" and "T < 100" and "100 \<le> limit" and "j * T < window" and "window < 60000"
  shows "let m' = pulse_round limit window T m in
    if window \<le> j * T + T then in_window T 0 m' \<and> measured T m'
    else in_window T (Suc j) m' \<and> measured T m' = measured T m"
proof -
  have "j \<le> j * T" using assms(2) by simp
  then have c: "j + 2 < 65536" using assms(5,6) by linarith
  have "pulse_round limit window T m = pulse_edge 100 window (m\<lparr>onecycle_times := j * T + T, totaltimes := T\<rparr>)"
    using ticks_short [OF assms(1,3), of T limit] assms by (simp add: pulse_round_def)
  then show ?thesis
    using assms(1) c
    by (auto simp: pulse_edge_def in_window_def measured_def Let_def intro!: exI [of _ "Suc j"])
qed

text \<open>How many periods a measurement takes.\<close>

definition window_periods :: "nat \<Rightarrow> nat \<Rightarrow> nat" where
  "window_periods window T = (if T \<ge> 100 then 1 else (window + T - 1) div T)"

lemma window_periods_le:
  assumes "0 < T" and "T < 100" and "k * T < window"
  shows "k < window_periods window T"
proof -
  have "Suc k * T \<le> window + T - 1" using assms by simp
  then have "Suc k \<le> (window + T - 1) div T" using assms(1) by (simp add: less_eq_div_iff_mult_less_eq)
  then show ?thesis using assms(2) by (simp add: window_periods_def)
qed

lemma rounds_measured:
  assumes m: "in_window T 0 m" and T: "0 < T" "T < limit" and w: "0 < window" "window < 60000" and l: "100 \<le> limit" "limit < 65536"
    and k: "window_periods window T \<le> k"
  shows "measured T ((pulse_round limit window T ^^ k) m)"
proof (cases "100 \<le> T")
  case True
  have "in_window T 0 ((pulse_round limit window T ^^ i) m) \<and> (0 < i \<longrightarrow> measured T ((pulse_round limit window T ^^ i) m))" for i
    by (induction i) (use m round_long [OF _ True T(2) l(2)] in auto)
  then show ?thesis using k True by (simp add: window_periods_def)
next
  case False
  have "\<exists>j. in_window T j ((pulse_round limit window T ^^ i) m) \<and> j * T < window \<and>
      (measured T ((pulse_round limit window T ^^ i) m) \<or> j = i)" for i
  proof (induction i)
    case 0
    then show ?case using m w by auto
  next
    case (Suc i)
    let ?m = "(pulse_round limit window T ^^ i) m"
    obtain j where j: "in_window T j ?m" "j * T < window" "measured T ?m \<or> j = i" using Suc by blast
    have r: "let m' = pulse_round limit window T ?m in
        if window \<le> j * T + T then in_window T 0 m' \<and> measured T m' else in_window T (Suc j) m' \<and> measured T m' = measured T ?m"
      by (rule round_short) (use j T w l False in auto)
    show ?case
    proof (cases "window \<le> j * T + T")
      case True
      then show ?thesis using r w by (intro exI [of _ 0]) (simp add: Let_def)
    next
      case False
      then show ?thesis using r j by (intro exI [of _ "Suc j"]) (auto simp: Let_def)
    qed
  qed
  then obtain j where j: "j * T < window" "measured T ((pulse_round limit window T ^^ k) m) \<or> j = k" by blast
  show ?thesis using window_periods_le [OF T(1) _ j(1)] False k j(2) by auto
qed

text \<open>The power output under any sequence of interrupts.\<close>

fun p_trace :: "pulse_event list \<Rightarrow> pulse_ch \<Rightarrow> pulse_ch" where
  "p_trace [] m = m"
| "p_trace (Hw_tick # es) m = p_trace es (pulse_tick 5000 m)"
| "p_trace (Power_edge # es) m = p_trace es (pulse_edge 100 2000 m)"
| "p_trace (Vi_edge # es) m = p_trace es m"

lemma p_trace_append: "p_trace (es @ fs) m = p_trace fs (p_trace es m)"
  by (induction es m rule: p_trace.induct) auto

lemma p_trace_filter: "p_trace (filter (\<lambda>e. e \<noteq> Vi_edge) es) m = p_trace es m"
  by (induction es m rule: p_trace.induct) auto

lemma p_trace_ticks: "p_trace (replicate t Hw_tick) m = (pulse_tick 5000 ^^ t) m"
  by (induction t arbitrary: m) (auto simp: funpow_swap1)

text \<open>\<open>pulse_train T k\<close>: a pulse, then \<open>k\<close> times \<open>T\<close> milliseconds and a pulse.\<close>

definition pulse_train :: "nat \<Rightarrow> nat \<Rightarrow> pulse_event list" where
  "pulse_train T k = Power_edge # concat (replicate k (replicate T Hw_tick @ [Power_edge]))"

lemma p_trace_train:
  "p_trace (concat (replicate k (replicate T Hw_tick @ [Power_edge]))) m = (pulse_round 5000 2000 T ^^ k) m"
  by (induction k arbitrary: m) (auto simp: p_trace_append p_trace_ticks pulse_round_def funpow_swap1)

lemma train_measured:
  assumes "overflow m" and "filter (\<lambda>e. e \<noteq> Vi_edge) es = pulse_train T k" and "0 < T" and "T < 5000"
    and "window_periods 2000 T \<le> k"
  shows "measured T (p_trace es m)"
proof -
  have "in_window T 0 (pulse_edge 100 2000 m)" using assms(1) by (simp add: pulse_edge_def in_window_def)
  moreover have "p_trace es m = (pulse_round 5000 2000 T ^^ k) (pulse_edge 100 2000 m)"
    using p_trace_filter [of es m] assms(2) by (simp add: pulse_train_def p_trace_train)
  ultimately show ?thesis using rounds_measured [of T _ 5000 2000 k] assms by simp
qed

section \<open>What the interrupts leave alone\<close>

definition pulse_static ::
  "pulse_sys \<Rightarrow> (u16 \<times> u16 \<times> u16) \<times> TDL_ELE_ENERGY_COE_T \<times> TDL_ELE_ENERGY_COE_T \<times> TDD_BL0937_HW8012_FAC_TEST_T \<times>
     TDD_BL0937_HLW8012_DRV_RESOURCE_T \<times> u32" where
  "pulse_static s = ((p_ref s, v_ref s, i_ref s), coe_params s, def_coe_params s, factorytest s, hw_cfg s, e_samplevalue s)"

named_theorems pulse_defs "the interrupt routines"

lemmas [pulse_defs] = pulse_ev_def bl0937_hw_timer_cb_def cal_tick_def vi_switch_def voltage_curr_measure_ctrl_def
  pio_def power_gpio_isr_cb_def vol_curr_gpio_isr_cb_def

lemma cut16_dec: "0 < t \<Longrightarrow> t < 65536 \<Longrightarrow> cut16 (t + 65535) = t - 1"
  using cut16_diff [of 1 t] by (simp add: add.commute)

lemma vi_switch_frame:
  "ch_p (vi_switch env s) = ch_p s" "pulse_static (vi_switch env s) = pulse_static s"
  "pluse_cnt (vi_switch env s) = pluse_cnt s" "isr_add_energy (vi_switch env s) = isr_add_energy s"
  by (simp_all add: vi_switch_def voltage_curr_measure_ctrl_def pio_def pulse_static_def Let_def)

lemma ev_normal:
  assumes "\<not> is_start_test (factorytest s)"
  obtains s' where "pulse_ev env e s = Some s'" "ch_p s' = p_trace [e] (ch_p s)" "pulse_static s' = pulse_static s"
proof (cases e)
  case Hw_tick
  let ?s = "s\<lparr>ch_p := pulse_tick 5000 (ch_p s)\<rparr>"
  let ?t = "if vi_testmode s then ?s\<lparr>ch_v := pulse_tick 500 (ch_v s)\<rparr> else ?s\<lparr>ch_i := pulse_tick 5000 (ch_i s)\<rparr>"
  have "pulse_ev env e s = Some (vi_switch env ?t)"
    using assms Hw_tick by (simp add: pulse_ev_def bl0937_hw_timer_cb_def cal_tick_def Let_def)
  then show ?thesis by (rule that) (simp_all add: vi_switch_frame Hw_tick, simp add: pulse_static_def)
next
  case Power_edge
  then show ?thesis using that
    by (simp add: pulse_ev_def power_gpio_isr_cb_def pulse_static_def Let_def)
next
  case Vi_edge
  then show ?thesis using that
    by (simp add: pulse_ev_def vol_curr_gpio_isr_cb_def pulse_static_def Let_def)
qed

lemma evs_normal:
  assumes "\<not> is_start_test (factorytest s)"
  obtains s' where "foldM (pulse_ev env) es s = Some s'" "ch_p s' = p_trace es (ch_p s)" "pulse_static s' = pulse_static s"
  using assms
proof (induction es arbitrary: s thesis)
  case Nil
  then show ?case by simp
next
  case (Cons e es)
  obtain s1 where s1: "pulse_ev env e s = Some s1" "ch_p s1 = p_trace [e] (ch_p s)" "pulse_static s1 = pulse_static s"
    using ev_normal [OF Cons.prems(2)] by blast
  have "\<not> is_start_test (factorytest s1)" using s1(3) Cons.prems(2) by (simp add: pulse_static_def)
  then obtain s2 where s2: "foldM (pulse_ev env) es s1 = Some s2" "ch_p s2 = p_trace es (ch_p s1)" "pulse_static s2 = pulse_static s1"
    using Cons.IH by blast
  have "ch_p s2 = p_trace ([e] @ es) (ch_p s)" using s2(2) s1(2) by (simp only: p_trace_append)
  then show ?case using Cons.prems(1) [of s2] s1 s2 by simp
qed

section \<open>The cycle of voltage and current\<close>

text \<open>The state of the switch \<open>n\<close> milliseconds after the start: one second of voltage, ten seconds of current.\<close>

definition vi_at :: "nat \<Rightarrow> pulse_sys \<Rightarrow> bool" where
  "vi_at n s \<longleftrightarrow> (let r = n mod 11000 in
     vi_testmode s = (r < 1000) \<and> vi_testtimes s = (if r < 1000 then 1000 - r else 11000 - r) \<and>
     is_sample_finish s = (3500 \<le> r))"

lemma vi_switch_at:
  assumes "vi_at n s"
  shows "vi_at (Suc n) (vi_switch env s)"
proof -
  define r where "r = n mod 11000"
  have r: "r < 11000" by (simp add: r_def)
  have sm: "Suc n mod 11000 = (if r = 10999 then 0 else Suc r)" by (simp add: r_def mod_Suc)
  have vt: "0 < vi_testtimes s" "vi_testtimes s < 65536"
    using assms r by (auto simp: vi_at_def r_def [symmetric] Let_def)
  consider "r < 999" | "r = 999" | "1000 \<le> r" "r < 10999" | "r = 10999" using r by linarith
  then show ?thesis
    using assms cut16_dec [OF vt]
    by cases (auto simp: vi_at_def vi_switch_def voltage_curr_measure_ctrl_def pio_def Let_def sm r_def [symmetric])
qed

text \<open>The level last put on a pin.\<close>

definition sel_put :: "u8 \<Rightarrow> pulse_io \<Rightarrow> bool option \<Rightarrow> bool option" where
  "sel_put pin e old = (case e of
     Gpio_init p b \<Rightarrow> if p = pin then Some b else old | Gpio_write p b \<Rightarrow> if p = pin then Some b else old | _ \<Rightarrow> old)"

definition sel_level :: "u8 \<Rightarrow> pulse_io list \<Rightarrow> bool option" where
  "sel_level pin log = fold (sel_put pin) log None"

definition selector :: "pulse_sys \<Rightarrow> bool option" where
  "selector s = sel_level (io_pin (ivcpin (hw_cfg s))) (pulse_log s)"

definition selects :: "pulse_sys \<Rightarrow> bool" where
  "selects s \<longleftrightarrow> selector s = Some (vi_testmode s = (io_type (ivcpin (hw_cfg s)) = TDL_ELE_IO_DRV_HIGH))"

lemma vi_switch_selects: "selects s \<Longrightarrow> selects (vi_switch env s)"
  by (auto simp: selects_def selector_def sel_level_def sel_put_def vi_switch_def voltage_curr_measure_ctrl_def pio_def Let_def)

definition ticks :: "pulse_event list \<Rightarrow> nat" where
  "ticks es = length (filter (\<lambda>e. e = Hw_tick) es)"

lemma vi_at_cong:
  "vi_testmode t = vi_testmode s \<Longrightarrow> vi_testtimes t = vi_testtimes s \<Longrightarrow> is_sample_finish t = is_sample_finish s \<Longrightarrow> vi_at n t = vi_at n s"
  by (simp add: vi_at_def)

lemma isr_frame:
  "vi_testmode (power_gpio_isr_cb s) = vi_testmode s" "vi_testtimes (power_gpio_isr_cb s) = vi_testtimes s"
  "is_sample_finish (power_gpio_isr_cb s) = is_sample_finish s" "hw_cfg (power_gpio_isr_cb s) = hw_cfg s"
  "pulse_log (power_gpio_isr_cb s) = pulse_log s"
  "vi_testmode (vol_curr_gpio_isr_cb s) = vi_testmode s" "vi_testtimes (vol_curr_gpio_isr_cb s) = vi_testtimes s"
  "is_sample_finish (vol_curr_gpio_isr_cb s) = is_sample_finish s" "hw_cfg (vol_curr_gpio_isr_cb s) = hw_cfg s"
  "pulse_log (vol_curr_gpio_isr_cb s) = pulse_log s"
  by (simp_all add: power_gpio_isr_cb_def vol_curr_gpio_isr_cb_def Let_def)

lemma ev_vi:
  assumes "pulse_ev env e s = Some s'" and "vi_at n s" and "selects s"
  shows "vi_at (if e = Hw_tick then Suc n else n) s' \<and> selects s'"
proof (cases e)
  case Hw_tick
  then obtain t where t: "s' = vi_switch env t" "vi_testmode t = vi_testmode s" "vi_testtimes t = vi_testtimes s"
    "is_sample_finish t = is_sample_finish s" "hw_cfg t = hw_cfg s" "pulse_log t = pulse_log s"
    using assms(1) by (auto simp: pulse_ev_def bl0937_hw_timer_cb_def cal_tick_def Let_def split: if_splits bind_splits)
  then show ?thesis
    using assms(2,3) Hw_tick vi_switch_at [of n t env] vi_switch_selects [of t env] vi_at_cong [of t s n]
    by (simp add: selects_def selector_def)
next
  case Power_edge
  then show ?thesis using assms
    by (auto simp: pulse_ev_def isr_frame selects_def selector_def cong: vi_at_cong)
next
  case Vi_edge
  then show ?thesis using assms
    by (auto simp: pulse_ev_def isr_frame selects_def selector_def cong: vi_at_cong)
qed

lemma evs_vi:
  assumes "foldM (pulse_ev env) es s = Some s'" and "vi_at n s" and "selects s"
  shows "vi_at (n + ticks es) s' \<and> selects s'"
  using assms
proof (induction es arbitrary: s n)
  case Nil
  then show ?case by (simp add: ticks_def)
next
  case (Cons e es)
  then obtain s1 where s1: "pulse_ev env e s = Some s1" "foldM (pulse_ev env) es s1 = Some s'"
    by (auto split: bind_splits)
  show ?case
    using ev_vi [OF s1(1) Cons.prems(2,3)] Cons.IH [OF s1(2)] by (cases "e = Hw_tick") (force simp: ticks_def)+
qed

section \<open>From the initialisation on\<close>

definition ref_of :: "TDL_ELE_ENERGY_CFG_T \<Rightarrow> u16" where
  "ref_of c = (if volt_type (params c) = TDL_ELE_VOLT_120V then 1000 else 864)"

lemma coe_value_init_frame:
  "hw_cfg (bl0937_hlw8012_coe_value_init r a b p s) = hw_cfg s" "factorytest (bl0937_hlw8012_coe_value_init r a b p s) = factorytest s"
  "pulse_log (bl0937_hlw8012_coe_value_init r a b p s) = pulse_log s"
  by (simp_all add: bl0937_hlw8012_coe_value_init_def Let_def)

lemma mode_init_normal:
  assumes "mode c = TDL_ELE_NORMAL_MODE"
  shows "fst (pulse_mode_init env c s) = OPRT_OK" "\<not> is_start_test (factorytest (snd (pulse_mode_init env c s)))"
    "hw_cfg (snd (pulse_mode_init env c s)) = hw_cfg s" "p_ref (snd (pulse_mode_init env c s)) = p_ref s"
    "pulse_log (snd (pulse_mode_init env c s)) = pulse_log s"
  using assms by (simp_all add: pulse_mode_init_def Let_def)

lemma run_params_frame:
  "hw_cfg (bl0937_hlw8012_run_params_init s) = hw_cfg s" "p_ref (bl0937_hlw8012_run_params_init s) = p_ref s"
  "pulse_log (bl0937_hlw8012_run_params_init s) = pulse_log s"
  by (simp_all add: bl0937_hlw8012_run_params_init_def)

lemma coe_value_init_ref: "a \<noteq> 0 \<Longrightarrow> b \<noteq> 0 \<Longrightarrow> p \<noteq> 0 \<Longrightarrow> p_ref (bl0937_hlw8012_coe_value_init r a b p s) = ucast p"
  by (simp add: bl0937_hlw8012_coe_value_init_def Let_def)

lemma out_pin_init_ok:
  assumes "drv_out_pin_init env (Some p) s = (OPRT_OK, t)"
  shows "t = pio (Gpio_init (io_pin p) (io_type p = TDL_ELE_IO_DRV_HIGH)) s"
  using assms by (cases "io_type p") (auto simp: drv_out_pin_init_def)

lemma hw_init_ok:
  assumes "bl0937_hlw8012_hw_init env kind (Some c) (Some info) s = (OPRT_OK, t)" and "mode c = TDL_ELE_NORMAL_MODE"
  shows "\<not> is_start_test (factorytest t)" and "hw_cfg t = info" and "p_ref t = ref_of c"
    and "selector t = Some (io_type (ivcpin info) = TDL_ELE_IO_DRV_HIGH)"
proof -
  let ?s = "s\<lparr>chipid := kind, coe_params := coe_zero, def_coe_params := coe_zero, factorytest := fac_zero, hw_cfg := info\<rparr>"
  obtain ret s1 where o: "drv_out_pin_init env (Some (ivcpin info)) ?s = (ret, s1)" by (meson surj_pair)
  have r: "ret = OPRT_OK" using assms(1) o by (auto simp: bl0937_hlw8012_hw_init_def Let_def split: if_splits)
  let ?c = "\<lambda>s. if volt_type (params c) = TDL_ELE_VOLT_120V
    then bl0937_hlw8012_coe_value_init (resval (params c)) TDL_ELE_V_REF_120 TDL_ELE_I_REF_120 TDL_ELE_P_REF_120 s
    else bl0937_hlw8012_coe_value_init (resval (params c)) TDL_ELE_V_REF_220 TDL_ELE_I_REF_220 TDL_ELE_P_REF_220 s"
  let ?u = "?c (pio (Timer_init (timer_no (hw_cfg s1))) s1)"
  have t: "t = snd (pulse_mode_init env c (bl0937_hlw8012_run_params_init ?u))"
    using assms(1) o r by (auto simp: bl0937_hlw8012_hw_init_def bl0937_drv_hw_timer_init_def Let_def split: if_splits)
  have u: "hw_cfg ?u = hw_cfg s1" "p_ref ?u = ref_of c" "pulse_log ?u = pulse_log s1 @ [Timer_init (timer_no (hw_cfg s1))]"
    by (simp_all add: coe_value_init_frame coe_value_init_ref ref_of_def pio_def)
  note s1 = out_pin_init_ok [OF o [unfolded r]]
  show "\<not> is_start_test (factorytest t)" "hw_cfg t = info" "p_ref t = ref_of c"
    "selector t = Some (io_type (ivcpin info) = TDL_ELE_IO_DRV_HIGH)"
    by (simp_all add: t mode_init_normal [OF assms(2)] run_params_frame u s1 pio_def selector_def sel_level_def sel_put_def)
qed

lemma ctrl_on:
  fixes env t
  defines "u \<equiv> bl0937_hlw8012_ctrl env True t"
  shows "factorytest u = factorytest t" "hw_cfg u = hw_cfg t" "p_ref u = p_ref t" "coe_params u = coe_params t"
    "ch_p u = pulse_ch_init" "pluse_cnt u = 0" "isr_add_energy u = 0" "e_samplevalue u = 0" "vi_at 0 u" "selector u = selector t"
    "vi_testmode u"
  by (simp_all add: u_def bl0937_hlw8012_ctrl_def bl0937_hw_timer_ctrl_def drv_gpio_isr_init_def gpio_isr_ctrl_def
      bl0937_hlw8012_run_params_init_def vi_at_def selector_def sel_level_def sel_put_def pio_def Let_def)

text \<open>The system after a registration in normal mode.\<close>

lemma bl0937_started:
  assumes "tdd_ele_energy_bl0937_init env timer_ret (ele_boot d) (Some c) (Some info) = Some (OPRT_OK, s)"
    and "mode c = TDL_ELE_NORMAL_MODE"
  shows "drv_read_pvie_cb (sg_ops s) = Some bl0937_hlw8012_read_pvie_value" "energy_data s = pvie_zero" "sg_pvie_value s = pvie_zero"
    "\<not> is_start_test (factorytest (chip s))" "p_ref (chip s) = ref_of c" "ch_p (chip s) = pulse_ch_init"
    "pluse_cnt (chip s) = 0" "isr_add_energy (chip s) = 0" "e_samplevalue (chip s) = 0" "vi_at 0 (chip s)" "selects (chip s)"
proof -
  obtain t where t: "bl0937_hlw8012_hw_init env TDD_ELE_CHIP_BL0937 (Some c) (Some info) d = (OPRT_OK, t)"
    and s: "s = (ele_boot d)\<lparr>sg_ops := bl0937_drv_ops env, chip := bl0937_hlw8012_ctrl env True t, sg_pvie_value := pvie_zero,
      ele_timers := 1, ele_energy_is_reg := True\<rparr>"
    using assms(1)
    by (auto simp: tdd_ele_energy_bl0937_init_def tdl_ele_energy_driver_register_def ele_boot_def bl0937_drv_ops_def bl0937_init_def Let_def
        split: if_splits prod.splits)
  note i = hw_init_ok [OF t assms(2)]
  show "drv_read_pvie_cb (sg_ops s) = Some bl0937_hlw8012_read_pvie_value" "energy_data s = pvie_zero" "sg_pvie_value s = pvie_zero"
    by (simp_all add: s bl0937_drv_ops_def ele_boot_def)
  show "\<not> is_start_test (factorytest (chip s))" "p_ref (chip s) = ref_of c" "ch_p (chip s) = pulse_ch_init"
    "pluse_cnt (chip s) = 0" "isr_add_energy (chip s) = 0" "e_samplevalue (chip s) = 0" "vi_at 0 (chip s)"
    by (simp_all add: s ctrl_on i)
  show "selects (chip s)" by (simp add: s selects_def ctrl_on i)
qed

lemma run_chip_events:
  "ele_run ev (map Chip_event es) (out, s) = map_option (\<lambda>d. (out, s\<lparr>chip := d\<rparr>)) (foldM ev es (chip s))"
proof (induction es arbitrary: s)
  case Nil
  then show ?case by (simp add: ele_run_def)
next
  case (Cons e es)
  show ?case
  proof (cases "ev e (chip s)")
    case None
    then show ?thesis by (simp add: ele_run_def ele_step_def)
  next
    case (Some d)
    then show ?thesis using Cons.IH [of "s\<lparr>chip := d\<rparr>"] by (simp add: ele_run_def ele_step_def)
  qed
qed

text \<open>C35: After registration in normal mode, and whatever pulses come on the two inputs, the driver measures voltage in the
  first second and current in the ten others of every eleven seconds, the selector pin has the level that goes
  with it, and readings are taken exactly in the last seven and a half seconds of the cycle.\<close>

theorem bl0937_vi_cycle:
  assumes "tdd_ele_energy_bl0937_init env timer_ret (ele_boot d) (Some c) (Some info) = Some (OPRT_OK, s)"
    and "mode c = TDL_ELE_NORMAL_MODE"
  shows "\<exists>x. ele_run (pulse_ev env) (map Chip_event es) ([], s) = Some ([], s\<lparr>chip := x\<rparr>) \<and>
    vi_testmode x = (ticks es mod 11000 < 1000) \<and> is_sample_finish x = (3500 \<le> ticks es mod 11000) \<and>
    selector x = Some (vi_testmode x = (io_type (ivcpin (hw_cfg (chip s))) = TDL_ELE_IO_DRV_HIGH))"
proof -
  note i = bl0937_started [OF assms]
  obtain x where x: "foldM (pulse_ev env) es (chip s) = Some x" "pulse_static x = pulse_static (chip s)"
    using evs_normal [OF i(4)] by blast
  then show ?thesis
    using evs_vi [OF x(1) i(10,11)] by (auto simp: run_chip_events vi_at_def selects_def pulse_static_def Let_def)
qed

section \<open>Readings\<close>

text \<open>What the readings of a running meter leave alone, and what they put.\<close>

lemma origin_period:
  "origin_into R_MEASUREIC_U_RMS old put s = put (snd (pulse_period (ch_v s) old)) s"
  "origin_into R_MEASUREIC_I_RMS old put s = put (snd (pulse_period (ch_i s) old)) s"
  "origin_into R_MEASUREIC_PQ_RMS old put s = put (snd (pulse_period (ch_p s) old)) s"
  "origin_into R_MEASUREIC_ENERGY old put s = put (isr_add_energy s) (s\<lparr>isr_add_energy := 0\<rparr>)"
  by (simp_all add: origin_into_def read_measure_origin_data_def split: prod.splits)

definition meter_kept :: "pulse_sys \<Rightarrow> TDD_BL0937_HW8012_FAC_TEST_T \<times> TDL_ELE_ENERGY_COE_T \<times> u32 \<times> u32" where
  "meter_kept s = (factorytest s, coe_params s, isr_add_energy s, pluse_cnt s)"

lemma reads_kept:
  assumes "\<not> is_start_test (factorytest s)"
  shows "meter_kept (read_power_measure_value s) = meter_kept s"
    "meter_kept (read_voltage_measure_value s) = meter_kept s"
    "meter_kept (read_current_measure_value s) = meter_kept s"
  using assms
  by (simp_all add: meter_kept_def read_power_measure_value_def read_voltage_measure_value_def read_current_measure_value_def
      origin_period Let_def)

lemma reads_power:
  assumes "\<not> is_start_test (factorytest s)"
  shows "p_samplevalue (read_voltage_measure_value s) = p_samplevalue s"
    "p_samplevalue (read_current_measure_value s) = p_samplevalue s"
    "p_samplevalue (read_energy_measure_value s) = p_samplevalue s"
  using assms
  by (simp_all add: read_voltage_measure_value_def read_current_measure_value_def read_energy_measure_value_def origin_period Let_def)

lemma read_pvie_finished:
  assumes "\<not> is_start_test (factorytest s)" and "is_sample_finish s"
  obtains v' s' where "bl0937_hlw8012_read_pvie_value (Some v) s = Some (Some v', s')"
    "energy_val v' = (if isr_add_energy s > 10 then 0 else isr_add_energy s)"
    "power_val v' = (let p = p_samplevalue (read_power_measure_value s) in if p < 30 then 0 else p)"
    "meter_kept s' = (factorytest s, coe_params s, 0, pluse_cnt s)" "e_samplevalue s' = 0"
proof -
  let ?p = "read_power_measure_value s"
  let ?v = "read_voltage_measure_value ?p"
  let ?i = "read_current_measure_value ?v"
  let ?e = "read_energy_measure_value ?i"
  let ?d = "deal_measure_value ?e"
  have n: "\<not> is_start_test (factorytest ?p)" "\<not> is_start_test (factorytest ?v)" "\<not> is_start_test (factorytest ?i)"
    using reads_kept [of s] reads_kept [of ?p] reads_kept [of ?v] assms(1) by (auto simp: meter_kept_def)
  have k: "meter_kept ?i = meter_kept s" using reads_kept assms(1) n by simp
  have e: "meter_kept ?e = (factorytest s, coe_params s, 0, pluse_cnt s)" "e_samplevalue ?e = isr_add_energy s"
    using k by (simp_all add: read_energy_measure_value_def origin_period meter_kept_def)
  have p: "p_samplevalue ?e = p_samplevalue ?p" using reads_power n by simp
  have d: "meter_kept ?d = meter_kept ?e" "e_samplevalue ?d = (if e_samplevalue ?e > 10 then 0 else e_samplevalue ?e)"
    "p_samplevalue ?d = (if p_samplevalue ?e < 30 then 0 else p_samplevalue ?e)"
    by (simp_all add: deal_measure_value_def meter_kept_def Let_def)
  have "bl0937_hlw8012_read_pvie_value (Some v) s = Some (Some (v\<lparr>power_val := p_samplevalue ?d, volt_val := v_samplevalue ?d,
      curr_val := i_samplevalue ?d, energy_val := e_samplevalue ?d\<rparr>), ?d\<lparr>e_samplevalue := 0\<rparr>)"
    using assms(2) by (simp add: bl0937_hlw8012_read_pvie_value_def Let_def)
  then show thesis
    by (rule that) (use d e p in \<open>simp_all add: Let_def meter_kept_def\<close>)
qed

section \<open>The account of the meter\<close>

text \<open>
  In pulses: what is counted and not handed over. A collection that finds more than ten units drops them.
\<close>

definition pulse_credit :: "u32 \<Rightarrow> pulse_sys \<Rightarrow> u32" where
  "pulse_credit w s = w * isr_add_energy s + pluse_cnt s"

definition pulse_good :: "u32 \<Rightarrow> pulse_sys \<Rightarrow> bool" where
  "pulse_good w s \<longleftrightarrow> \<not> is_start_test (factorytest s) \<and> e_coe (coe_params s) = w \<and> e_samplevalue s = 0 \<and> (w \<noteq> 0 \<longrightarrow> pluse_cnt s < w)"

definition pulse_drop :: "pulse_sys \<Rightarrow> u32" where
  "pulse_drop s = (if is_sample_finish s \<and> isr_add_energy s > 10 then isr_add_energy s else 0)"

definition pulse_ev_gain :: "pulse_event \<Rightarrow> pulse_sys \<Rightarrow> u32" where
  "pulse_ev_gain e s = (if e = Power_edge then 1 else 0)"

lemma word_inc_below: "(x :: u32) < w \<Longrightarrow> x + 1 \<noteq> w \<Longrightarrow> x + 1 < w"
  by (metis inc_le order.not_eq_order_implies_strict)

lemma ev_account:
  assumes "pulse_good w s" and "pulse_ev env e s = Some s'"
  shows "pulse_good w s' \<and> pulse_credit w s' = pulse_credit w s + pulse_ev_gain e s"
proof -
  have n: "\<not> is_start_test (factorytest s)" "e_coe (coe_params s) = w" using assms(1) by (simp_all add: pulse_good_def)
  have st: "pulse_static s' = pulse_static s" using ev_normal [OF n(1), of env e] assms(2) by auto
  show ?thesis
  proof (cases e)
    case Hw_tick
    then have "pluse_cnt s' = pluse_cnt s" "isr_add_energy s' = isr_add_energy s"
      using assms(2) n(1) by (auto simp: pulse_ev_def bl0937_hw_timer_cb_def cal_tick_def vi_switch_frame Let_def)
    then show ?thesis using st assms(1) Hw_tick by (auto simp: pulse_good_def pulse_credit_def pulse_ev_gain_def pulse_static_def)
  next
    case Power_edge
    then have "s' = power_gpio_isr_cb s" using assms(2) by (simp add: pulse_ev_def)
    then have "(pluse_cnt s', isr_add_energy s') =
        (if pluse_cnt s + 1 = w then (0, isr_add_energy s + 1) else (pluse_cnt s + 1, isr_add_energy s))"
      using n by (simp add: power_gpio_isr_cb_def Let_def)
    then show ?thesis using st assms(1) Power_edge word_inc_below [of "pluse_cnt s" w]
      by (auto simp: pulse_good_def pulse_credit_def pulse_ev_gain_def pulse_static_def algebra_simps word_gt_0 split: if_splits)
  next
    case Vi_edge
    then have "pluse_cnt s' = pluse_cnt s" "isr_add_energy s' = isr_add_energy s"
      using assms(2) by (auto simp: pulse_ev_def vol_curr_gpio_isr_cb_def)
    then show ?thesis using st assms(1) Vi_edge by (auto simp: pulse_good_def pulse_credit_def pulse_ev_gain_def pulse_static_def)
  qed
qed

lemma read_account:
  assumes "pulse_good w s" and "energy_val v = 0" and "bl0937_hlw8012_read_pvie_value (Some v) s = Some (r, s')"
  shows "pulse_good w s' \<and> (\<exists>v'. r = Some v' \<and> w * energy_val v' + pulse_credit w s' = pulse_credit w s + - (w * pulse_drop s))"
proof (cases "is_sample_finish s")
  case False
  then show ?thesis using assms by (auto simp: bl0937_hlw8012_read_pvie_value_def pulse_drop_def)
next
  case True
  have n: "\<not> is_start_test (factorytest s)" using assms(1) by (simp add: pulse_good_def)
  obtain v' t where t: "bl0937_hlw8012_read_pvie_value (Some v) s = Some (Some v', t)"
    "energy_val v' = (if isr_add_energy s > 10 then 0 else isr_add_energy s)"
    "meter_kept t = (factorytest s, coe_params s, 0, pluse_cnt s)" "e_samplevalue t = 0"
    using read_pvie_finished [OF n True] by metis
  then show ?thesis using assms True
    by (auto simp: pulse_good_def pulse_credit_def pulse_drop_def meter_kept_def)
qed

interpretation bl0937: energy_source bl0937_hlw8012_read_pvie_value "pulse_ev env" w "pulse_credit w" "\<lambda>s. - (w * pulse_drop s)"
  pulse_ev_gain "pulse_good w" for env w
  by unfold_locales (use read_account ev_account in blast)+

text \<open>Energy dropped by the collections of a run.\<close>

fun run_dropped :: "pulse_env \<Rightarrow> pulse_event ele_event list \<Rightarrow> u32 list \<times> ('r, pulse_sys) ele_sys \<Rightarrow> u32" where
  "run_dropped env [] x = 0"
| "run_dropped env (e # es) x = (if e = Collect then pulse_drop (chip (snd x)) else 0) +
     (case ele_step (pulse_ev env) e x of None \<Rightarrow> 0 | Some y \<Rightarrow> run_dropped env es y)"

definition power_pulses :: "pulse_event ele_event list \<Rightarrow> nat" where
  "power_pulses es = length (filter (\<lambda>e. e = Chip_event Power_edge) es)"

lemma bl0937_run_gain_pulses:
  "ele_run (pulse_ev env) es x = Some y \<Longrightarrow>
   run_gain (pulse_ev env) (\<lambda>s. - (w * pulse_drop s)) pulse_ev_gain es x = of_nat (power_pulses es) - w * run_dropped env es x"
proof (induction es arbitrary: x)
  case Nil
  then show ?case by (simp add: power_pulses_def)
next
  case (Cons e es)
  obtain z where z: "ele_step (pulse_ev env) e x = Some z" "ele_run (pulse_ev env) es z = Some y"
    using Cons.prems by (auto simp: ele_run_def split: bind_splits)
  show ?case using z Cons.IH [OF z(2)]
    by (cases e) (auto simp: step_gain_def pulse_ev_gain_def power_pulses_def algebra_simps)
qed

text \<open>C25: Every pulse of the power output is accounted for. After a registration in normal mode and any sequence of timer
  ticks, pulses, collections and readings, the energy handed to the application, the energy waiting in the manager and in
  the driver, each worth the calibrated number of pulses, and the pulses not yet made into energy add up to the number of pulses,
  less the energy of collections that found more than ten units (all modulo \<open>2^32\<close>).\<close>

theorem bl0937_energy_account:
  assumes "tdd_ele_energy_bl0937_init env timer_ret (ele_boot d) (Some c) (Some info) = Some (OPRT_OK, s)"
    and "mode c = TDL_ELE_NORMAL_MODE" and "e_coe (coe_params (chip s)) = w" and "w \<noteq> 0"
    and "ele_run (pulse_ev env) es ([], s) = Some (out, t)"
  shows "w * (sum_list out + energy_val (sg_pvie_value t) + isr_add_energy (chip t)) + pluse_cnt (chip t) =
      of_nat (power_pulses es) - w * run_dropped env es ([], s) \<and> pluse_cnt (chip t) < w"
proof -
  note i = bl0937_started [OF assms(1,2)]
  have a: "bl0937.attached w s"
    using i assms(3,4) by (simp add: bl0937.attached_def pulse_good_def word_gt_0)
  have r: "bl0937.attached w t \<and> bl0937.account w (out, t) =
      bl0937.account w ([], s) + run_gain (pulse_ev env) (\<lambda>s. - (w * pulse_drop s)) pulse_ev_gain es ([], s)"
    using bl0937.run_account [of w "([], s)" env es "(out, t)"] a assms(5) by simp
  have "bl0937.account w ([], s) = 0" using i by (simp add: bl0937.account_def pulse_credit_def)
  then have "bl0937.account w (out, t) = of_nat (power_pulses es) - w * run_dropped env es ([], s)"
    using r bl0937_run_gain_pulses [OF assms(5), of w] by simp
  moreover have "pluse_cnt (chip t) < w" using r assms(4) by (simp add: bl0937.attached_def pulse_good_def)
  ultimately show ?thesis by (simp add: bl0937.account_def pulse_credit_def algebra_simps)
qed

section \<open>The power that is read\<close>

lemma word_div_not_max:
  assumes "2 \<le> unat (b :: u32)"
  shows "(a :: u32) div b \<noteq> 0xffffffff"
proof -
  have "unat a div unat b \<le> unat a div 2" using assms by (simp add: div_le_mono2)
  also have "\<dots> < 4294967295"
  proof -
    have "unat a < 4294967296" using unsigned_less [of a, where 'a = nat] by simp
    then show ?thesis by linarith
  qed
  finally have "unat (a div b) < 4294967295" by (simp add: unat_div)
  then show ?thesis by auto
qed

lemma read_power_value:
  assumes "\<not> is_start_test (factorytest s)" and "measured T (ch_p s)" and "0 < T" and "T < 5000"
  shows "p_samplevalue (read_power_measure_value s) = ucast (p_ref s) * p_coe (coe_params s) div of_nat (T * 1000)"
proof -
  have w: "unat (of_nat (T * 1000) :: u32) = T * 1000" using assms(4) by (simp add: unat_of_nat del: of_nat_mult)
  have nz: "(of_nat (T * 1000) :: u32) \<noteq> 0" using w assms(3) by (metis mult_is_0 nat_neq_iff unat_0 zero_neq_numeral)
  show ?thesis
    using assms(1) measured_period [OF assms(2)] word_div_not_max [of "of_nat (T * 1000)"] w nz assms(3)
    by (simp add: read_power_measure_value_def origin_period Let_def del: of_nat_mult)
qed

text \<open>C7: A load whose power pulses come every \<open>T\<close> milliseconds, with any pulses on the other input: once enough pulses have come
  and the chip is in the part of its cycle where readings are taken, the next collection gives the application exactly
  the reference power times the power coefficient divided by the period in microseconds, or 0 below 3 watts.\<close>

theorem bl0937_power_reading:
  assumes "tdd_ele_energy_bl0937_init env timer_ret (ele_boot d) (Some c) (Some info) = Some (OPRT_OK, s)"
    and "mode c = TDL_ELE_NORMAL_MODE"
    and "filter (\<lambda>e. e \<noteq> Vi_edge) es = pulse_train T k" and "0 < T" and "T < 5000"
    and "window_periods 2000 T \<le> k" and "3500 \<le> k * T mod 11000"
  shows "\<exists>t u. ele_run (pulse_ev env) (map Chip_event es) ([], s) = Some ([], t) \<and> ele_energy_timer_cb t = Some u \<and>
    tdl_ele_energy_read_pvi_value u (Some a) None None =
      (Some (let p = ucast (ref_of c) * p_coe (coe_params (chip s)) div of_nat (T * 1000) in if p < 30 then 0 else p), None, None)"
proof -
  note i = bl0937_started [OF assms(1,2)]
  obtain x where x: "foldM (pulse_ev env) es (chip s) = Some x" "ch_p x = p_trace es (ch_p (chip s))" "pulse_static x = pulse_static (chip s)"
    using evs_normal [OF i(4)] by blast
  have n: "\<not> is_start_test (factorytest x)" using i(4) x(3) by (simp add: pulse_static_def)
  have m: "measured T (ch_p x)"
    using train_measured [OF _ assms(3-6)] i(6) x(2) by (simp add: pulse_ch_init_def)
  have "filter (\<lambda>e. e = Hw_tick) (filter (\<lambda>e. e \<noteq> Vi_edge) es) = filter (\<lambda>e. e = Hw_tick) es"
    by (simp add: filter_filter) (metis pulse_event.distinct(3))
  then have "ticks es = length (concat (replicate k (replicate T Hw_tick)))"
    by (simp add: ticks_def assms(3) pulse_train_def filter_concat)
  then have "ticks es = k * T" by (simp add: length_concat sum_list_replicate)
  then have f: "is_sample_finish x" using evs_vi [OF x(1) i(10,11)] assms(7) by (simp add: vi_at_def Let_def)
  obtain v' x' where r: "bl0937_hlw8012_read_pvie_value (Some (energy_data s)) x = Some (Some v', x')"
    "power_val v' = (let p = p_samplevalue (read_power_measure_value x) in if p < 30 then 0 else p)"
    using read_pvie_finished [OF n f] by metis
  have "p_samplevalue (read_power_measure_value x) = ucast (ref_of c) * p_coe (coe_params (chip s)) div of_nat (T * 1000)"
    using read_power_value [OF n m assms(4,5)] x(3) i(5) by (simp add: pulse_static_def)
  then show ?thesis
    using x(1) r i(1) by (simp add: run_chip_events ele_energy_timer_cb_def tdl_ele_energy_read_pvi_value_def)
qed

section \<open>Witnesses\<close>

definition bl0937_ex_env :: pulse_env where
  "bl0937_ex_env = \<lparr>gpio_init_ret = 0, timer_init_ret = 0, irq_init_ret = (\<lambda>_. 0), gpio_write_ret = 0, add_timer_ret = 0\<rparr>"

definition ex_info :: TDD_BL0937_HLW8012_DRV_RESOURCE_T where
  "ex_info = \<lparr>timer_no = 0, epin = 24, ivpin = 26, ivcpin = \<lparr>io_type = TDL_ELE_IO_DRV_HIGH, io_pin = 14\<rparr>\<rparr>"

definition bl0937_ex_cfg :: TDL_ELE_ENERGY_CFG_T where
  "bl0937_ex_cfg = \<lparr>fac_test = \<lparr>cfg_test_result = TDL_ELE_TEST_FAIL, coe_data = coe_zero\<rparr>,
     params = \<lparr>cfg_err_percent = 0, resval = 1, volt_type = TDL_ELE_VOLT_220V\<rparr>, mode = TDL_ELE_NORMAL_MODE\<rparr>"

definition bl0937_ex_meter :: pulse_sys where
  "bl0937_ex_meter = \<lparr>ch_p = pulse_ch_init, ch_v = pulse_ch_init, ch_i = pulse_ch_init, vi_testmode = False, vi_testtimes = 0,
     p_samplevalue = 0, v_samplevalue = 0, i_samplevalue = 0, e_samplevalue = 0, isr_add_energy = 0, pluse_cnt = 0, calc_times = 0,
     p_current_plusewidth = 0, v_current_plusewidth = 0, i_current_plusewidth = 0, p_ref = 0, v_ref = 0, i_ref = 0,
     is_sample_finish = False, hw_cfg = ex_info, coe_params = coe_zero, def_coe_params = coe_zero,
     chipid = TDD_ELE_CHIP_HLW8012, factorytest = fac_zero, pulse_log = []\<rparr>"

lemmas ex_defs = bl0937_ex_env_def ex_info_def bl0937_ex_cfg_def bl0937_ex_meter_def

text \<open>The initialisation of the demonstration application, with a resistor of one milliohm.\<close>

lemma bl0937_ex_started:
  obtains s where "tdd_ele_energy_bl0937_init bl0937_ex_env 0 (ele_boot bl0937_ex_meter) (Some bl0937_ex_cfg) (Some ex_info) = Some (OPRT_OK, s)"
    "coe_params (chip s) = \<lparr>v_coe = 586, i_coe = 28928, p_coe = 16929, e_coe = 2820\<rparr>"
proof -
  have "\<exists>t. bl0937_hlw8012_hw_init bl0937_ex_env TDD_ELE_CHIP_BL0937 (Some bl0937_ex_cfg) (Some ex_info) bl0937_ex_meter = (OPRT_OK, t) \<and>
      coe_params t = \<lparr>v_coe = 586, i_coe = 28928, p_coe = 16929, e_coe = 2820\<rparr>"
    by (simp add: ex_defs bl0937_hlw8012_hw_init_def drv_out_pin_init_def bl0937_drv_hw_timer_init_def pulse_mode_init_def
        bl0937_hlw8012_coe_value_init_def bl0937_hlw8012_run_params_init_def pio_def Let_def)
  then obtain t where "bl0937_hlw8012_hw_init bl0937_ex_env TDD_ELE_CHIP_BL0937 (Some bl0937_ex_cfg) (Some ex_info) bl0937_ex_meter = (OPRT_OK, t)"
    "coe_params t = \<lparr>v_coe = 586, i_coe = 28928, p_coe = 16929, e_coe = 2820\<rparr>" by blast
  then show thesis
    by (intro that [of "(ele_boot bl0937_ex_meter)\<lparr>sg_ops := bl0937_drv_ops bl0937_ex_env, chip := bl0937_hlw8012_ctrl bl0937_ex_env True t,
          sg_pvie_value := pvie_zero, ele_timers := 1, ele_energy_is_reg := True\<rparr>"])
      (simp_all add: tdd_ele_energy_bl0937_init_def tdl_ele_energy_driver_register_def ele_boot_def bl0937_drv_ops_def
        bl0937_init_def ctrl_on Let_def)
qed

text \<open>Pulses every 250 milliseconds for five seconds are read as 58 tenths of a watt.\<close>

theorem bl0937_power_reading_witness:
  "\<exists>s t u. tdd_ele_energy_bl0937_init bl0937_ex_env 0 (ele_boot bl0937_ex_meter) (Some bl0937_ex_cfg) (Some ex_info) = Some (OPRT_OK, s) \<and>
    ele_run (pulse_ev bl0937_ex_env) (map Chip_event (pulse_train 250 20)) ([], s) = Some ([], t) \<and> ele_energy_timer_cb t = Some u \<and>
    tdl_ele_energy_read_pvi_value u (Some 0) None None = (Some 58, None, None)"
proof -
  obtain s where s: "tdd_ele_energy_bl0937_init bl0937_ex_env 0 (ele_boot bl0937_ex_meter) (Some bl0937_ex_cfg) (Some ex_info) = Some (OPRT_OK, s)"
    "coe_params (chip s) = \<lparr>v_coe = 586, i_coe = 28928, p_coe = 16929, e_coe = 2820\<rparr>" by (rule bl0937_ex_started)
  have f: "filter (\<lambda>e. e \<noteq> Vi_edge) (pulse_train 250 20) = pulse_train 250 20"
    by (simp add: pulse_train_def filter_concat)
  show ?thesis
    using bl0937_power_reading [OF s(1) _ f, of 0] s
    by (auto simp: bl0937_ex_cfg_def window_periods_def ref_of_def Let_def)
qed

theorem bl0937_vi_cycle_witness:
  "\<exists>s x. tdd_ele_energy_bl0937_init bl0937_ex_env 0 (ele_boot bl0937_ex_meter) (Some bl0937_ex_cfg) (Some ex_info) = Some (OPRT_OK, s) \<and>
    ele_run (pulse_ev bl0937_ex_env) (map Chip_event [Hw_tick, Power_edge]) ([], s) = Some ([], s\<lparr>chip := x\<rparr>) \<and> vi_testmode x"
proof -
  obtain s where s: "tdd_ele_energy_bl0937_init bl0937_ex_env 0 (ele_boot bl0937_ex_meter) (Some bl0937_ex_cfg) (Some ex_info) = Some (OPRT_OK, s)"
    by (rule bl0937_ex_started)
  show ?thesis
    using bl0937_vi_cycle [OF s, of "[Hw_tick, Power_edge]"] s by (auto simp: bl0937_ex_cfg_def ticks_def)
qed

text \<open>Two pulses, a collection and a reading.\<close>

theorem bl0937_energy_account_witness:
  "\<exists>s out t. tdd_ele_energy_bl0937_init bl0937_ex_env 0 (ele_boot bl0937_ex_meter) (Some bl0937_ex_cfg) (Some ex_info) = Some (OPRT_OK, s) \<and>
    ele_run (pulse_ev bl0937_ex_env) [Chip_event Power_edge, Collect, Chip_event Power_edge, Read_energy] ([], s) = Some (out, t) \<and>
    2820 * (sum_list out + energy_val (sg_pvie_value t) + isr_add_energy (chip t)) + pluse_cnt (chip t) = 2"
proof -
  obtain s where s: "tdd_ele_energy_bl0937_init bl0937_ex_env 0 (ele_boot bl0937_ex_meter) (Some bl0937_ex_cfg) (Some ex_info) = Some (OPRT_OK, s)"
    "coe_params (chip s) = \<lparr>v_coe = 586, i_coe = 28928, p_coe = 16929, e_coe = 2820\<rparr>" by (rule bl0937_ex_started)
  let ?es = "[Chip_event Power_edge, Collect, Chip_event Power_edge, Read_energy]"
  note i = bl0937_started [OF s(1)]
  have f: "\<not> is_sample_finish (power_gpio_isr_cb (chip s))" "drv_read_pvie_cb (sg_ops s) = Some bl0937_hlw8012_read_pvie_value"
    using i by (simp_all add: isr_frame bl0937_ex_cfg_def vi_at_def)
  have "\<exists>out t. ele_run (pulse_ev bl0937_ex_env) ?es ([], s) = Some (out, t) \<and> run_dropped bl0937_ex_env ?es ([], s) = 0"
    using f by (simp add: ele_run_def ele_step_def pulse_ev_def ele_energy_timer_cb_def bl0937_hlw8012_read_pvie_value_def
        tdl_ele_energy_read_enery_value_def pulse_drop_def)
  then obtain out t where r: "ele_run (pulse_ev bl0937_ex_env) ?es ([], s) = Some (out, t)" "run_dropped bl0937_ex_env ?es ([], s) = 0" by blast
  show ?thesis
    using bl0937_energy_account [OF s(1) _ _ _ r(1), of 2820] s r by (auto simp: bl0937_ex_cfg_def power_pulses_def)
qed

end
