(* ===== verification/Energy_Uart.thy ===== *)
theory Energy_Uart
  imports Energy_Tdl
begin

text \<open>
  What the two metering chips on a serial port share. The serial driver \<^verbatim>\<open>ty_uart\<close> and the system timers are not part
  of the sources: a read is a parameter that takes the number of bytes asked for and the state of the
  port, and gives the bytes stored and the next state of the port; its return value is their number. Other
  calls are logged. Floating-point numbers of the sources hold integers scaled by a power of two: \<open>fl_round p\<close> rounds
  to \<open>p\<close> significant bits, to nearest and to even on a tie, as IEEE arithmetic does (24 bits for \<^verbatim>\<open>float\<close>, 53 for
  \<^verbatim>\<open>double\<close>).
\<close>

section \<open>The serial port\<close>

type_synonym 'u uart_reader = "nat \<Rightarrow> 'u \<Rightarrow> u8 list \<times> 'u"

datatype uart_io =
    Uart_init u8
  | Uart_free u8
  | Uart_send u8 "u8 list"
  | Hw_timer_init u8
  | Hw_timer_start u8 u32
  | Hw_timer_stop u8
  | Sys_timer_start nat
  | Sys_timer_stop

record 'u uart_env =
  uart_read :: "'u uart_reader"
  mutex_ret :: OPERATE_RET
  add_timer_ret :: OPERATE_RET
  hw_timer_ret :: OPERATE_RET

text \<open>
  Documented behaviour the proofs rely on: a read stores at most the number of bytes asked for (\<open>uart_bounded\<close>), and
  the bytes it gives are used up (\<open>uart_drains\<close>, where \<open>avail\<close> is the number of bytes that are waiting), in the order
  in which they came (\<open>uart_fifo\<close>, where \<open>content\<close> are the bytes that are waiting).
\<close>

definition uart_bounded :: "'u uart_reader \<Rightarrow> bool" where
  "uart_bounded r \<longleftrightarrow> (\<forall>n u. length (fst (r n u)) \<le> n)"

definition uart_drains :: "'u uart_reader \<Rightarrow> ('u \<Rightarrow> nat) \<Rightarrow> bool" where
  "uart_drains r avail \<longleftrightarrow> (\<forall>n u. avail (snd (r n u)) + length (fst (r n u)) \<le> avail u)"

definition uart_fifo :: "'u uart_reader \<Rightarrow> ('u \<Rightarrow> u8 list) \<Rightarrow> bool" where
  "uart_fifo r content \<longleftrightarrow> (\<forall>n u. fst (r n u) = take n (content u) \<and> content (snd (r n u)) = drop n (content u))"

text \<open>The port as a list of the bytes that are waiting.\<close>

definition fifo_read :: "u8 list uart_reader" where
  "fifo_read n u = (take n u, drop n u)"

lemma fifo_uart: "uart_bounded fifo_read" "uart_drains fifo_read length" "uart_fifo fifo_read (\<lambda>u. u)"
  by (auto simp: uart_bounded_def uart_drains_def uart_fifo_def fifo_read_def)

section \<open>Unsigned division\<close>

definition udiv :: "u32 \<Rightarrow> u32 \<Rightarrow> u32 option" where
  "udiv a b = (if b = 0 then None else Some (a div b))"

lemma udiv_Some [simp]: "b \<noteq> 0 \<Longrightarrow> udiv a b = Some (a div b)"
  by (simp add: udiv_def)

lemma udiv_zero [simp]: "udiv a 0 = None"
  by (simp add: udiv_def)

section \<open>Rounding\<close>

fun nbits :: "nat \<Rightarrow> nat" where
  "nbits n = (if n = 0 then 0 else Suc (nbits (n div 2)))"

declare nbits.simps [simp del]

definition fl_round :: "nat \<Rightarrow> nat \<Rightarrow> nat" where
  "fl_round p n =
     (if nbits n \<le> p then n
      else let k = nbits n - p; q = n div 2 ^ k; r = n mod 2 ^ k
           in if 2 * r > 2 ^ k \<or> 2 * r = 2 ^ k \<and> odd q then (q + 1) * 2 ^ k else q * 2 ^ k)"

lemma nbits_le: "n < 2 ^ k \<Longrightarrow> nbits n \<le> k"
proof (induction n arbitrary: k rule: nbits.induct)
  case (1 n)
  then show ?case
    by (cases k) (auto simp: nbits.simps [of n] nbits.simps [of 0] less_mult_imp_div_less mult.commute)
qed

lemma fl_round_exact: "n < 2 ^ p \<Longrightarrow> fl_round p n = n"
  using nbits_le [of n p] by (simp add: fl_round_def)

lemma fl_round_error:
  assumes "n < 2 ^ (p + k)"
  shows "2 * fl_round p n \<le> 2 * n + 2 ^ k" and "2 * n \<le> 2 * fl_round p n + 2 ^ k"
proof -
  let ?k = "nbits n - p"
  let ?q = "n div 2 ^ ?k"
  let ?r = "n mod 2 ^ ?k"
  have "?k \<le> k" using nbits_le [OF assms] by linarith
  then have le: "(2 :: nat) ^ ?k \<le> 2 ^ k" by (rule power_increasing) simp
  have n: "n = ?q * 2 ^ ?k + ?r" by (simp add: mult.commute)
  have r: "?r < 2 ^ ?k" by simp
  show "2 * fl_round p n \<le> 2 * n + 2 ^ k"
  proof (cases "nbits n \<le> p \<or> \<not> (2 * ?r > 2 ^ ?k \<or> 2 * ?r = 2 ^ ?k \<and> odd ?q)")
    case True
    then have "fl_round p n \<le> n" by (auto simp: fl_round_def Let_def)
    then show ?thesis by simp
  next
    case False
    then have "fl_round p n = ?q * 2 ^ ?k + 2 ^ ?k" "2 ^ ?k \<le> 2 * ?r" by (auto simp: fl_round_def Let_def)
    then show ?thesis using n le by linarith
  qed
  show "2 * n \<le> 2 * fl_round p n + 2 ^ k"
  proof (cases "nbits n \<le> p \<or> (2 * ?r > 2 ^ ?k \<or> 2 * ?r = 2 ^ ?k \<and> odd ?q)")
    case True
    then have "fl_round p n = n \<or> fl_round p n = ?q * 2 ^ ?k + 2 ^ ?k" by (auto simp: fl_round_def Let_def)
    then have "n \<le> fl_round p n" using n r by linarith
    then show ?thesis by simp
  next
    case False
    then have "fl_round p n = ?q * 2 ^ ?k" "2 * ?r \<le> 2 ^ ?k" by (auto simp: fl_round_def Let_def)
    then show ?thesis using n le by linarith
  qed
qed

end
