(* ===== verification/Energy_Bl0942.thy ===== *)
theory Energy_Bl0942
  imports Energy_Uart
begin

text \<open>
  The metering chip BL0942 on a serial port, \<^verbatim>\<open>tdd_ele_energy_bl0942.c\<close>. Every second call of the manager's timer sends the
  read command, the call after it takes the 23-byte answer. The mutex around the use of the measured
  values makes it one step.
\<close>

section \<open>Data\<close>

record UART_FLAME_DATA_T =
  head :: u8
  i_rms :: "u8 list"
  v_rms :: "u8 list"
  i_fast_rms :: "u8 list"
  wait :: "u8 list"
  cf_cnt :: "u8 list"
  freq_cyc :: "u8 list"
  status :: "u8 list"
  checksum :: u8

record ELEC_DATA_T =
  energy_kwh :: u32
  fir_cf_cnt :: u32
  mid_cf_cnt :: u32
  power_value :: u32
  current_value :: u32
  voltage_value :: u32
  freq :: u32
  f_current_value :: u32

record TDD_BL0942_FAC_TEST_T =
  err_percent :: u8
  is_start_test :: bool
  test_finished :: bool
  sample_finished :: bool
  test_result :: TDL_ELE_ENERGY_TEST_RESULT_E

datatype TDD_BL0942_MEASURE_STATUS_E = TDD_BL0942_SEND | TDD_BL0942_RECV | TDD_BL0942_END

record TDD_BL0942_DRV_RESOURCE_T =
  uart_no :: u8

record 'u bl0942_sys =
  elec :: ELEC_DATA_T
  factory_test :: TDD_BL0942_FAC_TEST_T
  uart_state :: TDD_BL0942_MEASURE_STATUS_E
  coe_params :: TDL_ELE_ENERGY_COE_T
  def_coe_params :: TDL_ELE_ENERGY_COE_T
  ref_coe_params :: TDL_ELE_ENERGY_COE_T
  hw_cfg :: TDD_BL0942_DRV_RESOURCE_T
  cal_i :: u8
  errcnt :: u8
  port :: 'u
  uart_log :: "uart_io list"

definition bl0942_uio :: "uart_io \<Rightarrow> 'u bl0942_sys \<Rightarrow> 'u bl0942_sys" where
  "bl0942_uio e s = s\<lparr>uart_log := uart_log s @ [e]\<rparr>"

abbreviation (input) elec_zero :: ELEC_DATA_T where
  "elec_zero \<equiv> \<lparr>energy_kwh = 0, fir_cf_cnt = 0, mid_cf_cnt = 0, power_value = 0, current_value = 0, voltage_value = 0,
     freq = 0, f_current_value = 0\<rparr>"

abbreviation (input) CAL_CNT :: u8 where "CAL_CNT \<equiv> 8"
abbreviation (input) ERR_CNT :: u8 where "ERR_CNT \<equiv> 4"
abbreviation (input) BL0942_ADDR_w :: u8 where "BL0942_ADDR_w \<equiv> 0xA8"
abbreviation (input) ADDR_WRPROT :: u8 where "ADDR_WRPROT \<equiv> 0x1D"
abbreviation (input) ADDR_FUNX :: u8 where "ADDR_FUNX \<equiv> 0x18"

section \<open>Measured values\<close>

text \<open>The integer member of the union over the bytes, least significant first.\<close>

definition int_byte :: "u8 list \<Rightarrow> u32" where
  "int_byte bs = foldr (\<lambda>b acc. ucast b + 256 * acc) bs 0"

definition flame_of :: "u8 list \<Rightarrow> UART_FLAME_DATA_T" where
  "flame_of src = \<lparr>head = src ! 0, i_rms = take 3 (drop 1 src), v_rms = take 3 (drop 4 src), i_fast_rms = take 3 (drop 7 src),
     wait = take 3 (drop 10 src), cf_cnt = take 3 (drop 13 src), freq_cyc = take 3 (drop 16 src), status = take 3 (drop 19 src),
     checksum = src ! 22\<rparr>"

definition bl0942_read_pvie :: "TDL_ELE_ENERGY_PVIE_T option \<Rightarrow> 'u bl0942_sys \<Rightarrow> TDL_ELE_ENERGY_PVIE_T option \<times> 'u bl0942_sys" where
  "bl0942_read_pvie pvie_val s =
     (case pvie_val of
        None \<Rightarrow> (None, s)
      | Some v \<Rightarrow> (Some (v\<lparr>power_val := power_value (elec s), volt_val := voltage_value (elec s),
                           curr_val := current_value (elec s), energy_val := energy_kwh (elec s)\<rparr>),
          s\<lparr>elec := (elec s)\<lparr>energy_kwh := 0\<rparr>\<rparr>))"

text \<open>The active power is a signed number; the source takes its amount byte by byte.\<close>

definition power_bytes :: "u8 list \<Rightarrow> u8 list" where
  "power_bytes w = (if w ! 2 AND 0x80 \<noteq> 0 then [NOT (w ! 0) + 1, NOT (w ! 1), NOT (w ! 2)] else w)"

definition cf_delta :: "u32 \<Rightarrow> u32 \<Rightarrow> u32" where
  "cf_delta fir cur = (if cur \<ge> fir then cur - fir else cur + (0xFFFFFF - fir))"

definition data_analysis_proc :: "u8 list option \<Rightarrow> 'u bl0942_sys \<Rightarrow> 'u bl0942_sys option" where
  "data_analysis_proc src s =
     (case src of
        None \<Rightarrow> Some s
      | Some b \<Rightarrow> do {
          let dest = flame_of b;
          let coe = coe_params s;
          i \<leftarrow> udiv (int_byte (i_rms dest) * 100) (i_coe coe);
          v \<leftarrow> udiv (int_byte (v_rms dest) * 10) (v_coe coe);
          let f = int_byte (freq_cyc dest);
          let f = (if f \<noteq> 0 then 10000000 div f else 500);
          p \<leftarrow> udiv (int_byte (power_bytes (wait dest)) * 100) (p_coe coe);
          let cur = int_byte (cf_cnt dest);
          let mid = mid_cf_cnt (elec s) + cf_delta (fir_cf_cnt (elec s)) cur * 1000;
          k \<leftarrow> udiv mid (e_coe coe);
          Some (s\<lparr>elec := (elec s)\<lparr>current_value := i, voltage_value := v, freq := f, power_value := p,
            energy_kwh := energy_kwh (elec s) + k, mid_cf_cnt := mid mod e_coe coe, fir_cf_cnt := cur\<rparr>\<rparr>) })"

definition write_data_to_reg :: "u8 \<Rightarrow> u8 \<Rightarrow> u8 list \<Rightarrow> 'u bl0942_sys \<Rightarrow> 'u bl0942_sys" where
  "write_data_to_reg reg_addr cmd buf s =
     (if length buf > 7 then s
      else let w = [reg_addr, cmd] @ buf in bl0942_uio (Uart_send (uart_no (hw_cfg s)) (w @ [NOT (sum_list w)])) s)"

definition read_data_form_reg ::
  "'u uart_env \<Rightarrow> TDL_ELE_ENERGY_PVIE_T option \<Rightarrow> 'u bl0942_sys \<Rightarrow> (bool \<times> TDL_ELE_ENERGY_PVIE_T option \<times> 'u bl0942_sys) option" where
  "read_data_form_reg env pvie_val s =
     (let (b, u) = uart_read env 23 (port s);
          s = s\<lparr>port := u\<rparr>;
          err = Some (False, pvie_val, s\<lparr>port := snd (uart_read env 23 (port s))\<rparr>)
      in if length b = 23
         then if b ! 0 \<noteq> 0x55 then err
              else if NOT (0x58 + sum_list (take 22 b)) \<noteq> b ! 22 then err
              else do {
                s \<leftarrow> data_analysis_proc (Some b) s;
                let (v, s) = bl0942_read_pvie pvie_val s;
                Some (True, v, s) }
         else err)"

definition bl0942_run_params_init :: "'u bl0942_sys \<Rightarrow> 'u bl0942_sys" where
  "bl0942_run_params_init s = s\<lparr>elec := elec_zero, uart_state := TDD_BL0942_SEND\<rparr>"

definition bl0942_zero_detection_ctrl :: "bool \<Rightarrow> 'u bl0942_sys \<Rightarrow> 'u bl0942_sys" where
  "bl0942_zero_detection_ctrl state s =
     (let s = bl0942_uio (Uart_init (uart_no (hw_cfg s))) s;
          s = write_data_to_reg BL0942_ADDR_w ADDR_WRPROT [0x55, 0, 0] s;
          s = write_data_to_reg BL0942_ADDR_w ADDR_FUNX [if state then 0x26 else 0x24, 0, 0] s
      in write_data_to_reg BL0942_ADDR_w ADDR_WRPROT [0, 0, 0] s)"

definition bl0942_get_elec_freq :: "'u bl0942_sys \<Rightarrow> u32" where
  "bl0942_get_elec_freq s = (let tmp = freq (elec s) in if tmp > 650 \<or> tmp < 450 then 500 else tmp)"

definition bl0942_read_pvie_value ::
  "'u uart_env \<Rightarrow> TDL_ELE_ENERGY_PVIE_T option \<Rightarrow> 'u bl0942_sys \<Rightarrow> (TDL_ELE_ENERGY_PVIE_T option \<times> 'u bl0942_sys) option" where
  "bl0942_read_pvie_value env pvie_val s =
     (if pvie_val = None then Some (None, s)
      else case uart_state s of
        TDD_BL0942_SEND \<Rightarrow>
          (let s = bl0942_uio (Uart_send (uart_no (hw_cfg s)) [0x58, 0xaa]) s;
               s = (if is_start_test (factory_test s) \<and> cal_i s < CAL_CNT then s\<lparr>cal_i := cal_i s + 1\<rparr> else s)
           in Some (pvie_val, s\<lparr>uart_state := TDD_BL0942_RECV\<rparr>))
      | TDD_BL0942_RECV \<Rightarrow> do {
          (ok, v, s) \<leftarrow> read_data_form_reg env pvie_val s;
          let finish = s\<lparr>factory_test := (factory_test s)\<lparr>sample_finished := True\<rparr>, uart_state := TDD_BL0942_END\<rparr>;
          let again = (\<lambda>s. Some (v, s\<lparr>uart_state := TDD_BL0942_SEND\<rparr>));
          if is_start_test (factory_test s)
          then if ok
               then if cal_i s = CAL_CNT then Some (v, finish) else again (s\<lparr>errcnt := 0\<rparr>)
               else if \<not> sample_finished (factory_test s)
               then if errcnt s + 1 \<ge> ERR_CNT then Some (v, finish\<lparr>errcnt := errcnt s + 1\<rparr>)
                    else again (s\<lparr>errcnt := errcnt s + 1, cal_i := cal_i s - 1\<rparr>)
               else again s
          else again s }
      | TDD_BL0942_END \<Rightarrow> Some (pvie_val, s))"

section \<open>Production test\<close>

definition bl0942_coe_params_init :: "u8 \<Rightarrow> u32 \<Rightarrow> u32 \<Rightarrow> u32 \<Rightarrow> 'u bl0942_sys \<Rightarrow> 'u bl0942_sys" where
  "bl0942_coe_params_init res vin iin pin s =
     (if vin = 0 \<or> iin = 0 \<or> pin = 0 then s
      else let r = ucast (if res = 0 then 1 else res)
           in s\<lparr>def_coe_params := \<lparr>v_coe = 15883, i_coe = 25699 * r, p_coe = 6378 * r, e_coe = 5474 * r\<rparr>,
                ref_coe_params := (ref_coe_params s)\<lparr>p_coe := pin, v_coe := vin, i_coe := iin\<rparr>\<rparr>)"

text \<open>
  \<^verbatim>\<open>((FLOAT_T)3600000 / 16384) * p_coe / 256\<close> in single precision: the first quotient is exactly \<open>28125 / 128\<close>.
\<close>

definition e_coe_of :: "u32 \<Rightarrow> u32" where
  "e_coe_of p = of_nat (fl_round 24 (28125 * fl_round 24 (unat p)) div 32768)"

definition bl0942_fac_test_cal :: "'u bl0942_sys \<Rightarrow> (TDL_ELE_ENERGY_TEST_RESULT_E \<times> 'u bl0942_sys) option" where
  "bl0942_fac_test_cal s =
     (let e = elec s; r = ref_coe_params s; c = coe_params s; pc = ucast (err_percent (factory_test s))
      in if tdl_ele_energy_rang_judge (voltage_value e) (v_coe r) pc \<and> tdl_ele_energy_rang_judge (power_value e) (p_coe r) pc
         then do {
           v \<leftarrow> udiv (v_coe c * voltage_value e) (v_coe r);
           i \<leftarrow> udiv (i_coe c * current_value e) (i_coe r);
           p \<leftarrow> udiv (p_coe c * power_value e) (p_coe r);
           Some (TDL_ELE_TEST_PASS, s\<lparr>coe_params := \<lparr>v_coe = v, i_coe = i, p_coe = p, e_coe = e_coe_of p\<rparr>\<rparr>) }
         else Some (TDL_ELE_TEST_FAIL, s))"

definition bl0942_fac_test_timer_cb :: "'u bl0942_sys \<Rightarrow> 'u bl0942_sys option" where
  "bl0942_fac_test_timer_cb s =
     (if sample_finished (factory_test s) then do {
        (r, s) \<leftarrow> bl0942_fac_test_cal s;
        Some (bl0942_uio Sys_timer_stop (s\<lparr>factory_test := (factory_test s)\<lparr>test_result := r, test_finished := True\<rparr>\<rparr>)) }
      else Some s)"

section \<open>Initialisation and registration\<close>

abbreviation (input) fac_zero :: TDD_BL0942_FAC_TEST_T where
  "fac_zero \<equiv> \<lparr>err_percent = 0, is_start_test = False, test_finished = False, sample_finished = False,
     test_result = TDL_ELE_TEST_ZERO\<rparr>"

definition bl0942_mode_init :: "'u uart_env \<Rightarrow> TDL_ELE_ENERGY_CFG_T \<Rightarrow> 'u bl0942_sys \<Rightarrow> OPERATE_RET \<times> 'u bl0942_sys" where
  "bl0942_mode_init env c s =
     (case mode c of
        TDL_ELE_TEST_MODE \<Rightarrow>
          (let p = cfg_err_percent (params c);
               s = s\<lparr>factory_test := (factory_test s)\<lparr>is_start_test := True, test_result := TDL_ELE_TEST_FAIL,
                       err_percent := (if p > 100 \<or> p < 1 then 5 else p)\<rparr>,
                     coe_params := def_coe_params s\<rparr>
           in if add_timer_ret env \<noteq> OPRT_OK then (add_timer_ret env, s)
              else (OPRT_OK, bl0942_uio (Sys_timer_start 1000) s))
      | TDL_ELE_NORMAL_MODE \<Rightarrow>
          (OPRT_OK, s\<lparr>factory_test := (factory_test s)\<lparr>is_start_test := False, test_result := cfg_test_result (fac_test c)\<rparr>,
             coe_params := (if cfg_test_result (fac_test c) = TDL_ELE_TEST_PASS then coe_data (fac_test c) else def_coe_params s)\<rparr>))"

definition bl0942_chip_init ::
  "'u uart_env \<Rightarrow> TDL_ELE_ENERGY_CFG_T option \<Rightarrow> TDD_BL0942_DRV_RESOURCE_T option \<Rightarrow> 'u bl0942_sys \<Rightarrow> OPERATE_RET \<times> 'u bl0942_sys" where
  "bl0942_chip_init env drv_cfg r s =
     (case (drv_cfg, r) of
        (Some c, Some info) \<Rightarrow>
          (let s = s\<lparr>coe_params := coe_zero, ref_coe_params := coe_zero, factory_test := fac_zero, hw_cfg := info\<rparr>;
               s = bl0942_uio (Uart_init (uart_no (hw_cfg s))) s
           in if mutex_ret env \<noteq> OPRT_OK then (mutex_ret env, s)
              else let s = (if volt_type (params c) = TDL_ELE_VOLT_120V
                            then bl0942_coe_params_init (resval (params c)) TDL_ELE_V_REF_120 TDL_ELE_I_REF_120 TDL_ELE_P_REF_120 s
                            else bl0942_coe_params_init (resval (params c)) TDL_ELE_V_REF_220 TDL_ELE_I_REF_220 TDL_ELE_P_REF_220 s)
                   in bl0942_mode_init env c (bl0942_run_params_init s))
      | _ \<Rightarrow> (OPRT_INVALID_PARM, s))"

definition bl0942_read_fac_cal_data :: "'u bl0942_sys \<Rightarrow> TDL_ELE_ENERGY_FAC_TEST_T" where
  "bl0942_read_fac_cal_data s = \<lparr>cfg_test_result = test_result (factory_test s), coe_data = coe_params s\<rparr>"

definition bl0942_read_fac_test_state :: "'u bl0942_sys \<Rightarrow> bool" where
  "bl0942_read_fac_test_state s = test_finished (factory_test s)"

definition bl0942_ctrl :: "bool \<Rightarrow> 'u bl0942_sys \<Rightarrow> 'u bl0942_sys" where
  "bl0942_ctrl state s =
     (if state then bl0942_run_params_init (bl0942_uio (Uart_init (uart_no (hw_cfg s))) s)
      else (bl0942_uio (Uart_free (uart_no (hw_cfg s))) s)\<lparr>uart_state := TDD_BL0942_END\<rparr>)"

definition bl0942_drv_ops :: "'u uart_env \<Rightarrow> (TDD_BL0942_DRV_RESOURCE_T, 'u bl0942_sys) TDL_ELE_ENERGY_DRV_OPS_T" where
  "bl0942_drv_ops env = \<lparr>drv_init_cb = Some (\<lambda>c r s. Some (bl0942_chip_init env c r s)),
     drv_ctrl_cb = Some (\<lambda>b s. Some (bl0942_ctrl b s)),
     drv_read_pvie_cb = Some (bl0942_read_pvie_value env),
     drv_read_fac_test_data_cb = Some bl0942_read_fac_cal_data,
     drv_read_fac_test_state_cb = Some bl0942_read_fac_test_state\<rparr>"

definition tdd_ele_energy_bl0942_init ::
  "'u uart_env \<Rightarrow> OPERATE_RET \<Rightarrow> (TDD_BL0942_DRV_RESOURCE_T, 'u bl0942_sys) ele_sys \<Rightarrow> TDL_ELE_ENERGY_CFG_T option
     \<Rightarrow> TDD_BL0942_DRV_RESOURCE_T option \<Rightarrow> (OPERATE_RET \<times> (TDD_BL0942_DRV_RESOURCE_T, 'u bl0942_sys) ele_sys) option" where
  "tdd_ele_energy_bl0942_init env timer_ret s drv_cfg r =
     (if drv_cfg = None \<or> r = None then Some (OPRT_INVALID_PARM, s)
      else tdl_ele_energy_driver_register timer_ret s (Some \<lparr>chip_name = ''bl0942'', chip_ops = Some (bl0942_drv_ops env),
             chip_cfg = drv_cfg, platform_resource = r\<rparr>))"

section \<open>Events\<close>

text \<open>Bytes arrive at the port (its state becomes another one); the timer of the production test runs.\<close>

datatype 'u bl0942_event = Uart_input 'u | Test_timer

definition bl0942_ev :: "'u bl0942_event \<Rightarrow> 'u bl0942_sys \<Rightarrow> 'u bl0942_sys option" where
  "bl0942_ev e s = (case e of Uart_input u \<Rightarrow> Some (s\<lparr>port := u\<rparr>) | Test_timer \<Rightarrow> bl0942_fac_test_timer_cb s)"

section \<open>Bytes and numbers\<close>

definition bytes24 :: "nat \<Rightarrow> u8 list" where
  "bytes24 n = [of_nat n, of_nat (n div 256), of_nat (n div 65536)]"

text \<open>The answer of the chip: header, seven registers, checksum over the command byte and all of these.\<close>

definition bl0942_frame :: "nat \<Rightarrow> nat \<Rightarrow> nat \<Rightarrow> nat \<Rightarrow> nat \<Rightarrow> nat \<Rightarrow> nat \<Rightarrow> u8 list" where
  "bl0942_frame i v fast w cf fr st =
     (let b = 0x55 # bytes24 i @ bytes24 v @ bytes24 fast @ bytes24 w @ bytes24 cf @ bytes24 fr @ bytes24 st
      in b @ [NOT (0x58 + sum_list b)])"

lemma unat_int_byte: "unat (int_byte [a, b, c]) = unat a + 256 * unat b + 65536 * unat c"
proof -
  have "unat a + (256 * unat b + 65536 * unat c) < 4294967296"
    using unat_u8_less [of a] unat_u8_less [of b] unat_u8_less [of c] by linarith
  then show ?thesis by (simp add: int_byte_def unat_word_ariths mod_add_left_eq mod_add_right_eq)
qed










lemma frame_checks:
  "length (bl0942_frame i v fast w cf fr st) = 23" "bl0942_frame i v fast w cf fr st ! 0 = 0x55"
  "NOT (0x58 + sum_list (take 22 (bl0942_frame i v fast w cf fr st))) = bl0942_frame i v fast w cf fr st ! 22"
  by (simp_all add: bl0942_frame_def bytes24_def Let_def)



section \<open>From the initialisation on\<close>

lemma bl0942_registered:
  assumes "tdd_ele_energy_bl0942_init env timer_ret (ele_boot d) (Some c) (Some info) = Some (OPRT_OK, s)"
  obtains t where "bl0942_chip_init env (Some c) (Some info) d = (OPRT_OK, t)"
    "s = (ele_boot d)\<lparr>sg_ops := bl0942_drv_ops env, chip := bl0942_ctrl True t, sg_pvie_value := pvie_zero,
      ele_timers := 1, ele_energy_is_reg := True\<rparr>"
  using assms
  by (auto simp: tdd_ele_energy_bl0942_init_def tdl_ele_energy_driver_register_def ele_boot_def bl0942_drv_ops_def Let_def
      split: if_splits prod.splits)

lemma bl0942_ctrl_on:
  "coe_params (bl0942_ctrl True t) = coe_params t" "factory_test (bl0942_ctrl True t) = factory_test t"
  "uart_state (bl0942_ctrl True t) = TDD_BL0942_SEND" "elec (bl0942_ctrl True t) = elec_zero"
  "cal_i (bl0942_ctrl True t) = cal_i t" "errcnt (bl0942_ctrl True t) = errcnt t" "ref_coe_params (bl0942_ctrl True t) = ref_coe_params t"
  by (simp_all add: bl0942_ctrl_def bl0942_run_params_init_def bl0942_uio_def)

lemma bl0942_coe_init_frame:
  "factory_test (bl0942_coe_params_init r a b p s) = factory_test s" "cal_i (bl0942_coe_params_init r a b p s) = cal_i s"
  "errcnt (bl0942_coe_params_init r a b p s) = errcnt s"
  by (simp_all add: bl0942_coe_params_init_def Let_def)

lemma bl0942_started:
  assumes "tdd_ele_energy_bl0942_init env timer_ret (ele_boot d) (Some c) (Some info) = Some (OPRT_OK, s)"
  shows "drv_read_pvie_cb (sg_ops s) = Some (bl0942_read_pvie_value env)" "energy_data s = pvie_zero" "sg_pvie_value s = pvie_zero"
    "is_start_test (factory_test (chip s)) = (mode c = TDL_ELE_TEST_MODE)" "\<not> sample_finished (factory_test (chip s))"
    "uart_state (chip s) = TDD_BL0942_SEND" "elec (chip s) = elec_zero" "cal_i (chip s) = cal_i d" "errcnt (chip s) = errcnt d"
proof -
  obtain t where t: "bl0942_chip_init env (Some c) (Some info) d = (OPRT_OK, t)"
    "s = (ele_boot d)\<lparr>sg_ops := bl0942_drv_ops env, chip := bl0942_ctrl True t, sg_pvie_value := pvie_zero,
      ele_timers := 1, ele_energy_is_reg := True\<rparr>"
    using bl0942_registered [OF assms] by blast
  have i: "is_start_test (factory_test t) = (mode c = TDL_ELE_TEST_MODE)" "\<not> sample_finished (factory_test t)"
    "cal_i t = cal_i d" "errcnt t = errcnt d"
    using t(1)
    by (auto simp: bl0942_chip_init_def bl0942_mode_init_def bl0942_run_params_init_def bl0942_coe_init_frame bl0942_uio_def Let_def
        split: TDL_ELE_ENERGY_MODE_E.splits if_splits)
  show "drv_read_pvie_cb (sg_ops s) = Some (bl0942_read_pvie_value env)" "energy_data s = pvie_zero" "sg_pvie_value s = pvie_zero"
    by (simp_all add: t(2) bl0942_drv_ops_def ele_boot_def)
  show "is_start_test (factory_test (chip s)) = (mode c = TDL_ELE_TEST_MODE)" "\<not> sample_finished (factory_test (chip s))"
    "uart_state (chip s) = TDD_BL0942_SEND" "elec (chip s) = elec_zero" "cal_i (chip s) = cal_i d" "errcnt (chip s) = errcnt d"
    by (simp_all add: t(2) bl0942_ctrl_on i)
qed

section \<open>A reading\<close>

definition coe_ok :: "TDL_ELE_ENERGY_COE_T \<Rightarrow> bool" where
  "coe_ok c \<longleftrightarrow> v_coe c \<noteq> 0 \<and> i_coe c \<noteq> 0 \<and> p_coe c \<noteq> 0 \<and> e_coe c \<noteq> 0"



section \<open>Damaged answers\<close>

definition frame_valid :: "u8 list \<Rightarrow> bool" where
  "frame_valid b \<longleftrightarrow> length b = 23 \<and> b ! 0 = 0x55 \<and> NOT (0x58 + sum_list (take 22 b)) = b ! 22"

lemma read_data_cases:
  assumes "uart_read env 23 (port s) = (b, u)"
  shows "read_data_form_reg env v s =
    (if frame_valid b
     then map_option (\<lambda>t. (True, bl0942_read_pvie v t)) (data_analysis_proc (Some b) (s\<lparr>port := u\<rparr>))
     else Some (False, v, s\<lparr>port := snd (uart_read env 23 u)\<rparr>))"
  using assms
  by (auto simp: read_data_form_reg_def frame_valid_def map_option_case Let_def split: option.splits bind_splits prod.splits)

lemma sum_list_upd: "k < length xs \<Longrightarrow> sum_list (xs[k := b]) = sum_list xs - xs ! k + (b :: u8)"
proof -
  assume k: "k < length xs"
  have "sum_list (xs[k := b]) = sum_list (take k xs) + b + sum_list (drop (Suc k) xs)"
    using k by (simp add: upd_conv_take_nth_drop add.assoc)
  moreover have "sum_list xs = sum_list (take k xs) + xs ! k + sum_list (drop (Suc k) xs)"
    by (subst id_take_nth_drop [OF k]) (simp add: add.assoc)
  ultimately show ?thesis by (simp add: algebra_simps)
qed

text \<open>C36: The checks of the driver find every change of a single byte of an answer: it is rejected, the measured values and the
  record of the caller stay as they are, and what is left in the port is read and thrown away.\<close>

theorem bl0942_single_byte_error:
  assumes "frame_valid f" and "k < 23" and "b \<noteq> f ! k" and "uart_read env 23 (port s) = (f[k := b], u)"
  shows "read_data_form_reg env v s = Some (False, v, s\<lparr>port := snd (uart_read env 23 u)\<rparr>)"
proof -
  have l: "length f = 23" using assms(1) by (simp add: frame_valid_def)
  have "\<not> frame_valid (f[k := b])"
  proof (cases "k = 22")
    case True
    then show ?thesis using assms(1,3) l by (auto simp: frame_valid_def)
  next
    case False
    have "sum_list (take 22 (f[k := b])) = sum_list (take 22 f) - f ! k + b"
      using sum_list_upd [of k "take 22 f" b] assms(2) False l by (simp add: take_update_swap)
    then have "NOT (0x58 + sum_list (take 22 (f[k := b]))) \<noteq> NOT (0x58 + sum_list (take 22 f))"
      using assms(3) by (auto simp: not_eq_complement diff_add_eq)
    then show ?thesis using assms(1) False unfolding frame_valid_def by (metis nth_list_update_neq)
  qed
  then show ?thesis using read_data_cases [OF assms(4), of v] by simp
qed

theorem bl0942_single_byte_error_witness:
  "read_data_form_reg \<lparr>uart_read = fifo_read, mutex_ret = 0, add_timer_ret = 0, hw_timer_ret = 0\<rparr> None
     \<lparr>elec = elec_zero, factory_test = fac_zero, uart_state = TDD_BL0942_RECV, coe_params = coe_zero, def_coe_params = coe_zero,
      ref_coe_params = coe_zero, hw_cfg = \<lparr>uart_no = 0\<rparr>, cal_i = 0, errcnt = 0,
      port = (bl0942_frame 1 2 3 4 5 6 7)[5 := 0xFF], uart_log = []\<rparr> =
   Some (False, None, \<lparr>elec = elec_zero, factory_test = fac_zero, uart_state = TDD_BL0942_RECV, coe_params = coe_zero, def_coe_params = coe_zero,
      ref_coe_params = coe_zero, hw_cfg = \<lparr>uart_no = 0\<rparr>, cal_i = 0, errcnt = 0, port = [], uart_log = []\<rparr>)"
proof -
  have "frame_valid (bl0942_frame 1 2 3 4 5 6 7)" using frame_checks by (simp add: frame_valid_def)
  moreover have "(0xFF :: u8) \<noteq> bl0942_frame 1 2 3 4 5 6 7 ! 5" by (simp add: bl0942_frame_def bytes24_def Let_def)
  ultimately show ?thesis
    by (subst bl0942_single_byte_error [where k = 5 and b = "0xFF" and f = "bl0942_frame 1 2 3 4 5 6 7" and u = "[]"])
      (simp_all add: fifo_read_def frame_checks)
qed

section \<open>The account of the meter\<close>

lemma data_analysis_total:
  assumes "coe_ok (coe_params s)"
  obtains e where "data_analysis_proc (Some b) s = Some (s\<lparr>elec := e\<rparr>)"
  using assms that by (simp add: data_analysis_proc_def coe_ok_def Let_def)

lemma read_data_total:
  assumes "coe_ok (coe_params s)"
  obtains r w e u where "read_data_form_reg env (Some v) s = Some (r, Some w, s\<lparr>port := u, elec := e\<rparr>)"
proof -
  obtain b u where b: "uart_read env 23 (port s) = (b, u)" by (meson surj_pair)
  show thesis
  proof (cases "frame_valid b")
    case True
    obtain e where "data_analysis_proc (Some b) (s\<lparr>port := u\<rparr>) = Some (s\<lparr>port := u, elec := e\<rparr>)"
      using data_analysis_total [of "s\<lparr>port := u\<rparr>" b] assms by auto
    then show thesis using True by (intro that [of True _ "e\<lparr>energy_kwh := 0\<rparr>" u]) (simp add: read_data_cases [OF b] bl0942_read_pvie_def)
  next
    case False
    then show thesis by (intro that [of False v "elec s" "snd (uart_read env 23 u)"]) (simp add: read_data_cases [OF b])
  qed
qed

text \<open>
  The pulse counter of an answer, read from its bytes, and the pulses that a 24-bit counter has gone on by from one reading to
  the next. The driver adds one pulse less whenever the counter fell.
\<close>

definition counter24 :: "u8 list \<Rightarrow> nat" where
  "counter24 b = unat (b ! 13) + 256 * unat (b ! 14) + 65536 * unat (b ! 15)"

definition counter_step :: "nat \<Rightarrow> nat \<Rightarrow> nat" where
  "counter_step old c = (c + 16777216 - old) mod 16777216"

fun counter_steps :: "nat \<Rightarrow> nat list \<Rightarrow> nat list" where
  "counter_steps old [] = []"
| "counter_steps old (c # cs) = counter_step old c # counter_steps c cs"

fun falls :: "nat \<Rightarrow> nat list \<Rightarrow> nat" where
  "falls old [] = 0"
| "falls old (c # cs) = (if c < old then 1 else 0) + falls c cs"

text \<open>The counter that the next call will take, if it takes an answer.\<close>

definition bl0942_obs :: "'u uart_env \<Rightarrow> 'u bl0942_sys \<Rightarrow> nat list" where
  "bl0942_obs env s =
     (let b = fst (uart_read env 23 (port s)) in
      if uart_state s = TDD_BL0942_RECV \<and> frame_valid b then [counter24 b] else [])"

definition bl0942_gn :: "nat \<Rightarrow> nat \<Rightarrow> nat" where
  "bl0942_gn old c = 1000 * (counter_step old c - (if c < old then 1 else 0))"

definition bl0942_fits :: "nat \<Rightarrow> nat \<Rightarrow> nat \<Rightarrow> bool" where
  "bl0942_fits w old c \<longleftrightarrow> w + 1000 * counter_step old c \<le> 4294967296"

definition bl0942_good :: "nat \<Rightarrow> 'u bl0942_sys \<Rightarrow> bool" where
  "bl0942_good w s \<longleftrightarrow> \<not> is_start_test (factory_test s) \<and> \<not> sample_finished (factory_test s) \<and> unat (e_coe (coe_params s)) = w \<and>
     energy_kwh (elec s) = 0 \<and> unat (mid_cf_cnt (elec s)) < w \<and> unat (fir_cf_cnt (elec s)) < 16777216"

lemma counter24_less: "counter24 b < 16777216"
  using unat_u8_less [of "b ! 13"] unat_u8_less [of "b ! 14"] unat_u8_less [of "b ! 15"] unfolding counter24_def by linarith

lemma frame_counter: "length b = 23 \<Longrightarrow> unat (int_byte (cf_cnt (flame_of b))) = counter24 b"
proof -
  assume l: "length b = 23"
  then have "take 3 (drop 13 b) = [b ! 13, b ! 14, b ! 15]" by (simp add: take_Suc_conv_app_nth numeral_3_eq_3)
  then show ?thesis by (simp add: flame_of_def unat_int_byte counter24_def)
qed

lemma unat_cf_delta:
  assumes "unat old < 16777216" and "unat c < 16777216"
  shows "unat (cf_delta old c) = counter_step (unat old) (unat c) - (if unat c < unat old then 1 else 0)"
proof (cases "old \<le> c")
  case True
  then have "unat old \<le> unat c" by (simp add: word_le_nat_alt)
  with True assms show ?thesis by (simp add: cf_delta_def unat_sub counter_step_def mod_if)
next
  case False
  then have lt: "unat c < unat old" by (simp add: word_le_nat_alt)
  have o: "old \<le> 0xFFFFFF" using assms(1) by (simp add: word_le_nat_alt)
  then have "unat (0xFFFFFF - old) = 16777215 - unat old" using unat_sub [OF o] by simp
  then have "unat (c + (0xFFFFFF - old)) = unat c + (16777215 - unat old)" using assms lt by (simp add: unat_word_ariths)
  then show ?thesis using False lt assms by (simp add: cf_delta_def counter_step_def)
qed

lemma data_analysis_energy:
  assumes run: "data_analysis_proc (Some b) s = Some t" and g: "bl0942_good w s" and l: "length b = 23"
    and fits: "bl0942_fits w (unat (fir_cf_cnt (elec s))) (counter24 b)"
  shows "factory_test t = factory_test s" "coe_params t = coe_params s" "unat (fir_cf_cnt (elec t)) = counter24 b"
    "unat (mid_cf_cnt (elec t)) < w"
    "w * unat (energy_kwh (elec t)) + unat (mid_cf_cnt (elec t)) =
      unat (mid_cf_cnt (elec s)) + bl0942_gn (unat (fir_cf_cnt (elec s))) (counter24 b)"
proof -
  let ?w = "e_coe (coe_params s)" and ?c = "int_byte (cf_cnt (flame_of b))" and ?f = "fir_cf_cnt (elec s)"
  let ?m = "mid_cf_cnt (elec s) + cf_delta ?f ?c * 1000"
  have w: "unat ?w = w" "0 < w" "unat (mid_cf_cnt (elec s)) < w" "energy_kwh (elec s) = 0" "unat ?f < 16777216"
    using g by (auto simp: bl0942_good_def)
  have t: "factory_test t = factory_test s" "coe_params t = coe_params s" "fir_cf_cnt (elec t) = ?c"
    "energy_kwh (elec t) = ?m div ?w" "mid_cf_cnt (elec t) = ?m mod ?w"
    using run w(4) by (auto simp: data_analysis_proc_def udiv_def Let_def split: if_splits)
  have c: "unat ?c = counter24 b" by (rule frame_counter [OF l])
  have d: "1000 * unat (cf_delta ?f ?c) = bl0942_gn (unat ?f) (counter24 b)"
    using unat_cf_delta [OF w(5), of ?c] counter24_less [of b] by (simp add: c bl0942_gn_def)
  have "bl0942_gn (unat ?f) (counter24 b) \<le> 1000 * counter_step (unat ?f) (counter24 b)" by (simp add: bl0942_gn_def)
  then have lt: "unat (mid_cf_cnt (elec s)) + bl0942_gn (unat ?f) (counter24 b) < 4294967296"
    using fits w(3) by (simp add: bl0942_fits_def)
  then have "unat (cf_delta ?f ?c * 1000) = bl0942_gn (unat ?f) (counter24 b)"
    using unat_times_small [of "cf_delta ?f ?c" 1000] d by (simp add: mult.commute)
  then have m: "unat ?m = unat (mid_cf_cnt (elec s)) + bl0942_gn (unat ?f) (counter24 b)"
    using lt by (simp add: unat_word_ariths)
  show "factory_test t = factory_test s" "coe_params t = coe_params s" "unat (fir_cf_cnt (elec t)) = counter24 b" using t c by simp_all
  show "unat (mid_cf_cnt (elec t)) < w" using w by (simp add: t unat_mod)
  show "w * unat (energy_kwh (elec t)) + unat (mid_cf_cnt (elec t)) =
      unat (mid_cf_cnt (elec s)) + bl0942_gn (unat ?f) (counter24 b)"
    unfolding t unat_div unat_mod w(1) m by (rule mult_div_mod_eq)
qed

lemma bl0942_read_step:
  assumes g: "bl0942_good w s" and run: "bl0942_read_pvie_value env (Some v) s = Some (r, s')" and v: "energy_val v = 0"
    and fits: "oks (bl0942_fits w) (\<lambda>_ c. c) (unat (fir_cf_cnt (elec s))) (bl0942_obs env s)"
  shows "bl0942_good w s' \<and> unat (fir_cf_cnt (elec s')) = foldl (\<lambda>_ c. c) (unat (fir_cf_cnt (elec s))) (bl0942_obs env s) \<and>
    (\<exists>v'. r = Some v' \<and> w * unat (energy_val v') + unat (mid_cf_cnt (elec s')) =
      unat (mid_cf_cnt (elec s)) + gains bl0942_gn (\<lambda>_ c. c) (unat (fir_cf_cnt (elec s))) (bl0942_obs env s))"
proof (cases "uart_state s")
  case TDD_BL0942_SEND
  then show ?thesis using assms
    by (auto simp: bl0942_read_pvie_value_def bl0942_good_def bl0942_obs_def bl0942_uio_def Let_def)
next
  case TDD_BL0942_END
  then show ?thesis using assms by (auto simp: bl0942_read_pvie_value_def bl0942_good_def bl0942_obs_def)
next
  case TDD_BL0942_RECV
  obtain b u where b: "uart_read env 23 (port s) = (b, u)" by (meson surj_pair)
  show ?thesis
  proof (cases "frame_valid b")
    case False
    then show ?thesis using assms TDD_BL0942_RECV b
      by (auto simp: bl0942_read_pvie_value_def read_data_cases [OF b] bl0942_good_def bl0942_obs_def Let_def)
  next
    case True
    then obtain t where t: "data_analysis_proc (Some b) (s\<lparr>port := u\<rparr>) = Some t"
      using run TDD_BL0942_RECV by (auto simp: bl0942_read_pvie_value_def read_data_cases [OF b] split: bind_splits)
    have o: "bl0942_obs env s = [counter24 b]" using True TDD_BL0942_RECV b by (simp add: bl0942_obs_def)
    have p: "bl0942_good w (s\<lparr>port := u\<rparr>)" "length b = 23"
      "bl0942_fits w (unat (fir_cf_cnt (elec (s\<lparr>port := u\<rparr>)))) (counter24 b)"
      using g fits True by (simp_all add: bl0942_good_def o frame_valid_def)
    note a = data_analysis_energy [OF t p]
    have s': "s' = t\<lparr>elec := (elec t)\<lparr>energy_kwh := 0\<rparr>, uart_state := TDD_BL0942_SEND\<rparr>"
      "r = Some (v\<lparr>power_val := power_value (elec t), volt_val := voltage_value (elec t), curr_val := current_value (elec t),
        energy_val := energy_kwh (elec t)\<rparr>)"
      using run g TDD_BL0942_RECV True t a(1)
      by (auto simp: bl0942_read_pvie_value_def read_data_cases [OF b] bl0942_read_pvie_def bl0942_good_def Let_def)
    have "bl0942_good w s'" using a g counter24_less [of b] by (simp add: s' bl0942_good_def)
    then show ?thesis using a by (simp add: s' o)
  qed
qed

lemma bl0942_ev_step:
  "bl0942_good w s \<Longrightarrow> bl0942_ev e s = Some s' \<Longrightarrow> bl0942_good w s' \<and> elec s' = elec s"
  by (cases e) (auto simp: bl0942_ev_def bl0942_good_def bl0942_fac_test_timer_cb_def)

interpretation bl0942: energy_meter "bl0942_read_pvie_value env" bl0942_ev w "\<lambda>s. unat (mid_cf_cnt (elec s))" "bl0942_obs env"
  "\<lambda>s. unat (fir_cf_cnt (elec s))" "\<lambda>_ c. c" bl0942_gn "bl0942_fits w" "bl0942_good w"
  for env w
proof unfold_locales
  fix d v r d'
  assume "bl0942_good w d" "energy_val v = 0" "oks (bl0942_fits w) (\<lambda>_ c. c) (unat (fir_cf_cnt (elec d))) (bl0942_obs env d)"
    "bl0942_read_pvie_value env (Some v) d = Some (r, d')"
  then show "bl0942_good w d' \<and> unat (fir_cf_cnt (elec d')) = foldl (\<lambda>_ c. c) (unat (fir_cf_cnt (elec d))) (bl0942_obs env d) \<and>
    (\<exists>v'. r = Some v' \<and> w * unat (energy_val v') + unat (mid_cf_cnt (elec d')) =
      unat (mid_cf_cnt (elec d)) + gains bl0942_gn (\<lambda>_ c. c) (unat (fir_cf_cnt (elec d))) (bl0942_obs env d))"
    using bl0942_read_step [of w d env v r d'] by blast
next
  fix d e d'
  assume "bl0942_good w d" "bl0942_ev e d = Some d'"
  then show "bl0942_good w d' \<and> unat (fir_cf_cnt (elec d')) = unat (fir_cf_cnt (elec d)) \<and>
      unat (mid_cf_cnt (elec d')) = unat (mid_cf_cnt (elec d))"
    using bl0942_ev_step [of w d e d'] by simp
qed

text \<open>With coefficients that are not zero no call of a meter in normal mode divides by zero.\<close>

definition bl0942_live :: "'u bl0942_sys \<Rightarrow> bool" where
  "bl0942_live s \<longleftrightarrow> coe_ok (coe_params s) \<and> \<not> is_start_test (factory_test s) \<and> \<not> sample_finished (factory_test s)"

interpretation bl0942_run: energy_live "bl0942_read_pvie_value env" bl0942_ev bl0942_live for env :: "'u uart_env"
proof unfold_locales
  fix d :: "'u bl0942_sys" and v
  assume d: "bl0942_live d"
  obtain r w e u where r: "read_data_form_reg env (Some v) d = Some (r, Some w, d\<lparr>port := u, elec := e\<rparr>)"
    using d by (auto simp: bl0942_live_def intro: read_data_total [of d env v])
  then show "\<exists>v' d'. bl0942_read_pvie_value env (Some v) d = Some (Some v', d') \<and> bl0942_live d'"
    using d by (cases "uart_state d") (auto simp: bl0942_read_pvie_value_def bl0942_live_def bl0942_uio_def Let_def)
next
  fix d :: "'u bl0942_sys" and e
  assume "bl0942_live d"
  then show "\<exists>d'. bl0942_ev e d = Some d' \<and> bl0942_live d'"
    by (cases e) (auto simp: bl0942_ev_def bl0942_live_def bl0942_fac_test_timer_cb_def)
qed

lemma counter_gains:
  "gains bl0942_gn (\<lambda>_ c. c) old cs + 1000 * falls old cs = 1000 * sum_list (counter_steps old cs)"
  if "old < 16777216" "\<forall>c \<in> set cs. c < 16777216"
  using that
proof (induction old cs rule: counter_steps.induct)
  case (2 old c cs)
  have "0 < counter_step old c" if "c < old" using that 2(2,3) by (simp add: counter_step_def)
  then have "bl0942_gn old c + 1000 * (if c < old then 1 else 0) = 1000 * counter_step old c"
    by (cases "c < old") (simp_all add: bl0942_gn_def diff_mult_distrib2)
  with 2 show ?case by simp
qed simp

lemma counter_oks:
  "oks (bl0942_fits w) (\<lambda>_ c. c) old cs \<longleftrightarrow> (\<forall>n \<in> set (counter_steps old cs). w + 1000 * n \<le> 4294967296)"
  by (induction old cs rule: counter_steps.induct) (simp_all add: bl0942_fits_def)

lemma observed_counters: "c \<in> set (observed bl0942_ev (bl0942_obs env) es x) \<Longrightarrow> c < 16777216"
proof (induction es arbitrary: x)
  case (Cons e es)
  then show ?case
    by (cases e) (auto simp: bl0942_obs_def counter24_less Let_def split: option.splits if_splits)
qed simp

text \<open>C27: Over any sequence of ticks, readings and serial input after a registration in normal mode with coefficients that are not
  zero, every call returns, and the account is exact: with \<open>cs\<close> the pulse counters of the answers taken, read from their
  bytes, the units of energy handed over and waiting, times the coefficient, and the remainder, which is below one
  unit, add up to a thousand times the pulses by which the 24-bit counter went on from zero, less a thousand
  for every time it was seen to fall: each overflow of the counter loses one pulse. Needed is that one step fits
  the 32-bit intermediate sum (about four million pulses between two answers) and that the whole energy fits its
  32-bit record.\<close>

theorem bl0942_energy_account:
  assumes "tdd_ele_energy_bl0942_init env timer_ret (ele_boot d) (Some c) (Some info) = Some (OPRT_OK, s)"
    and "mode c = TDL_ELE_NORMAL_MODE" and "coe_ok (coe_params (chip s))" and "w = unat (e_coe (coe_params (chip s)))"
    and "cs = observed bl0942_ev (bl0942_obs env) es ([], s)"
    and "\<forall>n \<in> set (counter_steps 0 cs). w + 1000 * n \<le> 2 ^ 32" and "1000 * sum_list (counter_steps 0 cs) < w * 2 ^ 32"
  shows "\<exists>out t. ele_run bl0942_ev es ([], s) = Some (out, t) \<and>
    w * (sum_list (map unat out) + unat (energy_val (sg_pvie_value t))) + unat (mid_cf_cnt (elec (chip t))) + 1000 * falls 0 cs =
      1000 * sum_list (counter_steps 0 cs) \<and>
    unat (mid_cf_cnt (elec (chip t))) < w"
proof -
  note i = bl0942_started [OF assms(1)]
  have w: "0 < w" using assms(3,4) by (simp add: coe_ok_def unat_gt_0)
  have l: "bl0942_live (chip s)" using i assms(2,3) by (simp add: bl0942_live_def)
  obtain out t where run: "ele_run bl0942_ev es ([], s) = Some (out, t)"
    using bl0942_run.run_live [OF l i(1), of es "[]"] by blast
  have a: "bl0942.attached env w s" using i assms(2,4) w by (simp add: bl0942.attached_def bl0942_good_def)
  have g: "gains bl0942_gn (\<lambda>_ c. c) 0 cs + 1000 * falls 0 cs = 1000 * sum_list (counter_steps 0 cs)"
    by (rule counter_gains) (use observed_counters assms(5) in auto)
  have z: "bl0942.account w ([], s) = 0" "unat (fir_cf_cnt (elec (chip s))) = 0" using i by (simp_all add: bl0942.account_def)
  have "bl0942.attached env w t \<and> bl0942.account w (out, t) = gains bl0942_gn (\<lambda>_ c. c) 0 cs"
    using bl0942.run_account [of env w "([], s)" es "(out, t)"] a run assms(5-7) g z by (simp add: counter_oks)
  then show ?thesis using run g by (auto simp: bl0942.account_def bl0942.attached_def bl0942_good_def)
qed

section \<open>The production test ends\<close>

text \<open>An upper bound of the ticks that are left until enough answers have been taken.\<close>

definition ticks_left :: "'u bl0942_sys \<Rightarrow> nat" where
  "ticks_left s = (if uart_state s = TDD_BL0942_SEND then 2 * (4 * (8 - unat (cal_i s)) - unat (errcnt s))
     else 2 * (4 * (9 - unat (cal_i s)) - unat (errcnt s)) - 1)"

definition test_inv :: "nat \<Rightarrow> 'u bl0942_sys \<Rightarrow> bool" where
  "test_inv n s \<longleftrightarrow> is_start_test (factory_test s) \<and>
     v_coe (ref_coe_params s) \<noteq> 0 \<and> i_coe (ref_coe_params s) \<noteq> 0 \<and> p_coe (ref_coe_params s) \<noteq> 0 \<and>
     (if sample_finished (factory_test s) then uart_state s = TDD_BL0942_END
      else coe_ok (coe_params s) \<and> unat (errcnt s) \<le> 3 \<and> n + ticks_left s \<le> 64 \<and>
        (uart_state s = TDD_BL0942_SEND \<and> unat (cal_i s) \<le> 7 \<or>
         uart_state s = TDD_BL0942_RECV \<and> 1 \<le> unat (cal_i s) \<and> unat (cal_i s) \<le> 8))"

lemma unat_inc: "unat x < 255 \<Longrightarrow> unat (x + 1 :: u8) = unat x + 1"
  by (simp add: unat_word_ariths)

lemma unat_dec: "1 \<le> unat x \<Longrightarrow> unat (x - 1 :: u8) = unat x - 1"
  by (simp add: unat_sub word_le_nat_alt)

lemma test_tick:
  assumes "test_inv n s"
  obtains w s' where "bl0942_read_pvie_value env (Some v) s = Some (Some w, s')" "test_inv (Suc n) s'"
proof (cases "sample_finished (factory_test s)")
  case True
  then show thesis using assms that [of v s] by (simp add: test_inv_def bl0942_read_pvie_value_def)
next
  case f: False
  then have i: "coe_ok (coe_params s)" "unat (errcnt s) \<le> 3" "n + ticks_left s \<le> 64" "is_start_test (factory_test s)"
    using assms by (simp_all add: test_inv_def)
  show thesis
  proof (cases "uart_state s = TDD_BL0942_SEND")
    case True
    then have c: "unat (cal_i s) \<le> 7" using assms f by (simp add: test_inv_def)
    have "cal_i s < 8" "unat (cal_i s + 1) = unat (cal_i s) + 1" using c by (simp_all add: word_less_nat_alt unat_inc)
    then show thesis using assms f True c i
      by (intro that) (auto simp: bl0942_read_pvie_value_def bl0942_uio_def test_inv_def ticks_left_def Let_def)
  next
    case False
    then have c: "uart_state s = TDD_BL0942_RECV" "1 \<le> unat (cal_i s)" "unat (cal_i s) \<le> 8" using assms f by (auto simp: test_inv_def)
    obtain r w e u where r: "read_data_form_reg env (Some v) s = Some (r, Some w, s\<lparr>port := u, elec := e\<rparr>)"
      using read_data_total [OF i(1)] by blast
    have m: "unat (errcnt s + 1) = unat (errcnt s) + 1" "unat (cal_i s - 1) = unat (cal_i s) - 1"
      "errcnt s + 1 \<ge> 4 \<longleftrightarrow> unat (errcnt s) \<ge> 3" "cal_i s = 8 \<longleftrightarrow> unat (cal_i s) = 8"
      using i(2) c by (auto simp: unat_inc unat_dec word_le_nat_alt word_unat_eq_iff)
    consider "r" "unat (cal_i s) = 8" | "r" "unat (cal_i s) < 8" | "\<not> r" "unat (errcnt s) = 3" | "\<not> r" "unat (errcnt s) < 3"
      using c i(2) by linarith
    then show thesis
      using assms f c i r m
      by cases (rule that, simp add: bl0942_read_pvie_value_def Let_def, auto simp: test_inv_def ticks_left_def)+
  qed
qed

lemma fac_test_cal_total:
  assumes "v_coe (ref_coe_params s) \<noteq> 0" "i_coe (ref_coe_params s) \<noteq> 0" "p_coe (ref_coe_params s) \<noteq> 0"
  obtains r c where "bl0942_fac_test_cal s = Some (r, s\<lparr>coe_params := c\<rparr>)"
proof (cases "tdl_ele_energy_rang_judge (voltage_value (elec s)) (v_coe (ref_coe_params s)) (ucast (err_percent (factory_test s))) \<and>
    tdl_ele_energy_rang_judge (power_value (elec s)) (p_coe (ref_coe_params s)) (ucast (err_percent (factory_test s)))")
  case True
  then show thesis using assms that by (simp add: bl0942_fac_test_cal_def Let_def)
next
  case False
  then show thesis using that [of TDL_ELE_TEST_FAIL "coe_params s"] by (auto simp: bl0942_fac_test_cal_def Let_def)
qed

lemma test_event:
  assumes "test_inv n s"
  obtains s' where "bl0942_ev e s = Some s'" "test_inv n s'"
    "e = Test_timer \<Longrightarrow> sample_finished (factory_test s) \<Longrightarrow> test_finished (factory_test s')"
proof (cases e)
  case (Uart_input u)
  then show thesis using assms by (intro that [of "s\<lparr>port := u\<rparr>"]) (auto simp: bl0942_ev_def test_inv_def ticks_left_def)
next
  case Test_timer
  show thesis
  proof (cases "sample_finished (factory_test s)")
    case True
    obtain r c where "bl0942_fac_test_cal s = Some (r, s\<lparr>coe_params := c\<rparr>)"
      using fac_test_cal_total [of s] assms by (auto simp: test_inv_def)
    then show thesis using Test_timer True assms
      by (intro that) (auto simp: bl0942_ev_def bl0942_fac_test_timer_cb_def bl0942_uio_def test_inv_def)
  next
    case False
    then show thesis using Test_timer assms by (intro that) (auto simp: bl0942_ev_def bl0942_fac_test_timer_cb_def)
  qed
qed

definition collects :: "'e ele_event list \<Rightarrow> nat" where
  "collects es = length (filter (\<lambda>e. case e of Collect \<Rightarrow> True | _ \<Rightarrow> False) es)"

lemma test_run:
  assumes "test_inv n (chip s)" and "sg_ops s = bl0942_drv_ops env"
  shows "\<exists>out' s'. ele_run bl0942_ev es (out, s) = Some (out', s') \<and> test_inv (n + collects es) (chip s') \<and> sg_ops s' = bl0942_drv_ops env"
  using assms
proof (induction es arbitrary: n out s)
  case Nil
  then show ?case by (simp add: ele_run_def collects_def)
next
  case (Cons e es)
  have "\<exists>out' s'. ele_step bl0942_ev e (out, s) = Some (out', s') \<and> test_inv (n + collects [e]) (chip s') \<and> sg_ops s' = bl0942_drv_ops env"
  proof (cases e)
    case Collect
    obtain w d where "bl0942_read_pvie_value env (Some (energy_data s)) (chip s) = Some (Some w, d)" "test_inv (Suc n) d"
      using test_tick [OF Cons.prems(1)] by blast
    then show ?thesis using Collect Cons.prems(2)
      by (simp add: ele_step_def ele_energy_timer_cb_def collects_def bl0942_drv_ops_def)
  next
    case Read_energy
    then show ?thesis using Cons.prems by (simp add: ele_step_def tdl_ele_energy_read_enery_value_def collects_def)
  next
    case (Chip_event f)
    obtain d where "bl0942_ev f (chip s) = Some d" "test_inv n d" using test_event [OF Cons.prems(1)] by blast
    then show ?thesis using Chip_event Cons.prems(2) by (simp add: ele_step_def collects_def)
  qed
  then obtain out' s' where s': "ele_step bl0942_ev e (out, s) = Some (out', s')" "test_inv (n + collects [e]) (chip s')"
    "sg_ops s' = bl0942_drv_ops env" by blast
  show ?case using Cons.IH [OF s'(2,3), of out'] s'(1) by (auto simp: ele_run_def collects_def add.assoc)
qed

lemma test_inv_finished: "test_inv n s \<Longrightarrow> 64 \<le> n \<Longrightarrow> sample_finished (factory_test s)"
  by (rule ccontr) (auto simp: test_inv_def ticks_left_def)

lemma def_coe_ok:
  assumes "r \<noteq> (0 :: u8)"
  shows "coe_ok \<lparr>v_coe = 15883, i_coe = 25699 * ucast r, p_coe = 6378 * ucast r, e_coe = 5474 * ucast r\<rparr>"
proof -
  note u = unat_u8_u32 [of r]
  have "0 < unat r" using assms by (simp add: unat_gt_0)
  moreover have "unat r < 256" by simp
  then have "25699 * unat r < 4294967296" "6378 * unat r < 4294967296" "5474 * unat r < 4294967296" by linarith+
  ultimately have "unat (25699 * ucast r :: u32) \<noteq> 0" "unat (6378 * ucast r :: u32) \<noteq> 0" "unat (5474 * ucast r :: u32) \<noteq> 0"
    by (simp_all add: unat_times_small u)
  then show ?thesis by (auto simp: coe_ok_def)
qed

lemma test_started:
  assumes "tdd_ele_energy_bl0942_init env timer_ret (ele_boot d) (Some c) (Some info) = Some (OPRT_OK, s)"
    and "mode c = TDL_ELE_TEST_MODE" and "cal_i d = 0" and "errcnt d = 0"
  shows "test_inv 0 (chip s)" and "sg_ops s = bl0942_drv_ops env"
proof -
  obtain t where t: "bl0942_chip_init env (Some c) (Some info) d = (OPRT_OK, t)"
    "s = (ele_boot d)\<lparr>sg_ops := bl0942_drv_ops env, chip := bl0942_ctrl True t, sg_pvie_value := pvie_zero,
      ele_timers := 1, ele_energy_is_reg := True\<rparr>"
    using bl0942_registered [OF assms(1)] by blast
  let ?r = "if resval (params c) = 0 then 1 else resval (params c)"
  have "coe_params t = \<lparr>v_coe = 15883, i_coe = 25699 * ucast ?r, p_coe = 6378 * ucast ?r, e_coe = 5474 * ucast ?r\<rparr>"
    "v_coe (ref_coe_params t) \<noteq> 0 \<and> i_coe (ref_coe_params t) \<noteq> 0 \<and> p_coe (ref_coe_params t) \<noteq> 0"
    using t(1) assms(2)
    by (auto simp: bl0942_chip_init_def bl0942_mode_init_def bl0942_run_params_init_def bl0942_coe_params_init_def bl0942_uio_def Let_def
        split: if_splits)
  moreover have "coe_ok \<lparr>v_coe = 15883, i_coe = 25699 * ucast ?r, p_coe = 6378 * ucast ?r, e_coe = 5474 * ucast ?r\<rparr>"
    by (rule def_coe_ok) simp
  ultimately show "test_inv 0 (chip s)"
    using bl0942_started [OF assms(1)] assms(2,3,4) by (simp add: test_inv_def ticks_left_def t(2) bl0942_ctrl_on)
  show "sg_ops s = bl0942_drv_ops env" by (simp add: t(2))
qed

text \<open>C9: The production test ends. Whatever comes over the serial port, answers, garbage or nothing, and whatever else is called in
  between, once the manager's timer has ticked 64 times the next run of the test timer finishes the test; no step divides by
  zero.\<close>

theorem bl0942_test_finishes:
  assumes "tdd_ele_energy_bl0942_init env timer_ret (ele_boot d) (Some c) (Some info) = Some (OPRT_OK, s)"
    and "mode c = TDL_ELE_TEST_MODE" and "cal_i d = 0" and "errcnt d = 0" and "64 \<le> collects es"
  shows "\<exists>out t. ele_run bl0942_ev (es @ [Chip_event Test_timer]) ([], s) = Some (out, t) \<and> tdl_ele_energy_read_fac_test_state t"
proof -
  obtain out t where t: "ele_run bl0942_ev es ([], s) = Some (out, t)" "test_inv (collects es) (chip t)" "sg_ops t = bl0942_drv_ops env"
    using test_run [OF test_started [OF assms(1-4)], of es "[]"] by auto
  obtain d' where d': "bl0942_ev Test_timer (chip t) = Some d'"
    "sample_finished (factory_test (chip t)) \<Longrightarrow> test_finished (factory_test d')"
    using test_event [OF t(2), of Test_timer] by metis
  have "test_finished (factory_test d')" using d'(2) test_inv_finished [OF t(2) assms(5)] by blast
  then show ?thesis
    using t(1,3) d'(1)
    by (simp add: ele_run_def foldM_append ele_step_def tdl_ele_energy_read_fac_test_state_def bl0942_drv_ops_def bl0942_read_fac_test_state_def)
qed

text \<open>The test looks at voltage and power only. When the current was read as zero while these two are in range, the calibration
  passes with a current coefficient of zero, and a meter that uses these coefficients divides by zero on every answer.\<close>

theorem bl0942_zero_current_calibrated:
  assumes "tdl_ele_energy_rang_judge (voltage_value (elec s)) (v_coe (ref_coe_params s)) (ucast (err_percent (factory_test s)))"
    and "tdl_ele_energy_rang_judge (power_value (elec s)) (p_coe (ref_coe_params s)) (ucast (err_percent (factory_test s)))"
    and "v_coe (ref_coe_params s) \<noteq> 0" and "i_coe (ref_coe_params s) \<noteq> 0" and "p_coe (ref_coe_params s) \<noteq> 0"
    and "current_value (elec s) = 0"
  shows "\<exists>s'. bl0942_fac_test_cal s = Some (TDL_ELE_TEST_PASS, s') \<and> i_coe (coe_params s') = 0 \<and>
    data_analysis_proc (Some b) (x\<lparr>coe_params := coe_params s'\<rparr>) = None"
  using assms by (simp add: bl0942_fac_test_cal_def data_analysis_proc_def Let_def)

section \<open>Witnesses\<close>

definition bl0942_ex_env :: "u8 list uart_env" where
  "bl0942_ex_env = \<lparr>uart_read = fifo_read, mutex_ret = 0, add_timer_ret = 0, hw_timer_ret = 0\<rparr>"

definition bl0942_ex_meter :: "u8 list bl0942_sys" where
  "bl0942_ex_meter = \<lparr>elec = elec_zero, factory_test = fac_zero, uart_state = TDD_BL0942_SEND, coe_params = coe_zero, def_coe_params = coe_zero,
     ref_coe_params = coe_zero, hw_cfg = \<lparr>uart_no = 0\<rparr>, cal_i = 0, errcnt = 0, port = [], uart_log = []\<rparr>"

definition bl0942_ex_cfg :: "TDL_ELE_ENERGY_MODE_E \<Rightarrow> TDL_ELE_ENERGY_CFG_T" where
  "bl0942_ex_cfg m = \<lparr>fac_test = \<lparr>cfg_test_result = TDL_ELE_TEST_FAIL, coe_data = coe_zero\<rparr>,
     params = \<lparr>cfg_err_percent = 0, resval = 1, volt_type = TDL_ELE_VOLT_220V\<rparr>, mode = m\<rparr>"

lemma bl0942_ex_started:
  obtains s where "tdd_ele_energy_bl0942_init bl0942_ex_env 0 (ele_boot bl0942_ex_meter) (Some (bl0942_ex_cfg m)) (Some \<lparr>uart_no = 1\<rparr>) = Some (OPRT_OK, s)"
    "coe_params (chip s) = \<lparr>v_coe = 15883, i_coe = 25699, p_coe = 6378, e_coe = 5474\<rparr>"
proof -
  have "\<exists>t. bl0942_chip_init bl0942_ex_env (Some (bl0942_ex_cfg m)) (Some \<lparr>uart_no = 1\<rparr>) bl0942_ex_meter = (OPRT_OK, t) \<and>
      coe_params t = \<lparr>v_coe = 15883, i_coe = 25699, p_coe = 6378, e_coe = 5474\<rparr>"
    by (cases m) (simp_all add: bl0942_ex_env_def bl0942_ex_cfg_def bl0942_ex_meter_def bl0942_chip_init_def bl0942_mode_init_def bl0942_coe_params_init_def
        bl0942_run_params_init_def bl0942_uio_def Let_def)
  then obtain t where "bl0942_chip_init bl0942_ex_env (Some (bl0942_ex_cfg m)) (Some \<lparr>uart_no = 1\<rparr>) bl0942_ex_meter = (OPRT_OK, t)"
    "coe_params t = \<lparr>v_coe = 15883, i_coe = 25699, p_coe = 6378, e_coe = 5474\<rparr>" by blast
  then show thesis
    by (intro that [of "(ele_boot bl0942_ex_meter)\<lparr>sg_ops := bl0942_drv_ops bl0942_ex_env, chip := bl0942_ctrl True t, sg_pvie_value := pvie_zero,
          ele_timers := 1, ele_energy_is_reg := True\<rparr>"])
      (simp_all add: tdd_ele_energy_bl0942_init_def tdl_ele_energy_driver_register_def ele_boot_def bl0942_drv_ops_def bl0942_ctrl_on Let_def)
qed


text \<open>Seven pulses are 7000 thousandths: one unit of 5474 is read, and 1526 remain.\<close>

theorem bl0942_energy_account_witness:
  "\<exists>s out t. tdd_ele_energy_bl0942_init bl0942_ex_env 0 (ele_boot bl0942_ex_meter) (Some (bl0942_ex_cfg TDL_ELE_NORMAL_MODE)) (Some \<lparr>uart_no = 1\<rparr>) = Some (OPRT_OK, s) \<and>
    ele_run bl0942_ev [Collect, Chip_event (Uart_input (bl0942_frame 0 0 0 0 7 20000 0)), Collect, Read_energy] ([], s) = Some (out, t) \<and>
    sum_list (map unat out) + unat (energy_val (sg_pvie_value t)) = 1 \<and> unat (mid_cf_cnt (elec (chip t))) = 1526"
proof -
  obtain s where s: "tdd_ele_energy_bl0942_init bl0942_ex_env 0 (ele_boot bl0942_ex_meter) (Some (bl0942_ex_cfg TDL_ELE_NORMAL_MODE)) (Some \<lparr>uart_no = 1\<rparr>) = Some (OPRT_OK, s)"
    "coe_params (chip s) = \<lparr>v_coe = 15883, i_coe = 25699, p_coe = 6378, e_coe = 5474\<rparr>" by (rule bl0942_ex_started)
  note i = bl0942_started [OF s(1)]
  let ?f = "bl0942_frame 0 0 0 0 7 20000 0"
  let ?es = "[Collect, Chip_event (Uart_input ?f), Collect, Read_energy]"
  have f: "uart_read bl0942_ex_env 23 ?f = (?f, [])" "frame_valid ?f" "counter24 ?f = 7"
    using frame_checks by (simp_all add: bl0942_ex_env_def fifo_read_def frame_valid_def counter24_def bl0942_frame_def bytes24_def Let_def)
  obtain s1 where s1: "ele_step bl0942_ev Collect ([], s) = Some ([], s1)" "uart_state (chip s1) = TDD_BL0942_RECV"
    using i by (auto simp: ele_step_def ele_energy_timer_cb_def bl0942_read_pvie_value_def bl0942_uio_def bl0942_ex_cfg_def Let_def)
  let ?s2 = "s1\<lparr>chip := (chip s1)\<lparr>port := ?f\<rparr>\<rparr>"
  have s2: "ele_step bl0942_ev (Chip_event (Uart_input ?f)) ([], s1) = Some ([], ?s2)"
    "bl0942_obs bl0942_ex_env (chip ?s2) = [7]" "bl0942_obs bl0942_ex_env (chip s) = []"
    using s1(2) f i(6) by (simp_all add: ele_step_def bl0942_ev_def bl0942_obs_def)
  have r0: "observed bl0942_ev (bl0942_obs bl0942_ex_env) [Read_energy] y = []" for y :: "u32 list \<times> (TDD_BL0942_DRV_RESOURCE_T, u8 list bl0942_sys) ele_sys"
    by (simp split: option.split)
  have r1: "observed bl0942_ev (bl0942_obs bl0942_ex_env) [Collect, Read_energy] ([], ?s2) = [7]"
    unfolding observed.simps(2) [of _ _ Collect] event_obs_simps snd_conv s2(2) by (simp only: r0 append.simps split: option.split) simp
  have o: "observed bl0942_ev (bl0942_obs bl0942_ex_env) ?es ([], s) = [7]"
    by (subst observed.simps(2), simp only: event_obs_simps snd_conv s1(1) s2(3) option.case append_Nil,
        subst observed.simps(2), simp only: event_obs_simps s2(1) option.case append_Nil r1)
  have "\<exists>out t. ele_run bl0942_ev ?es ([], s) = Some (out, t) \<and>
    5474 * (sum_list (map unat out) + unat (energy_val (sg_pvie_value t))) + unat (mid_cf_cnt (elec (chip t))) + 1000 * falls 0 [7] =
      1000 * sum_list (counter_steps 0 [7]) \<and> unat (mid_cf_cnt (elec (chip t))) < 5474"
    by (rule bl0942_energy_account [OF s(1)]) (use s(2) o in \<open>simp_all add: bl0942_ex_cfg_def coe_ok_def counter_step_def\<close>)
  then obtain out t where r: "ele_run bl0942_ev ?es ([], s) = Some (out, t)"
    "5474 * (sum_list (map unat out) + unat (energy_val (sg_pvie_value t))) + unat (mid_cf_cnt (elec (chip t))) + 1000 * falls 0 [7] =
      1000 * sum_list (counter_steps 0 [7])" "unat (mid_cf_cnt (elec (chip t))) < 5474"
    by blast
  have "n = 1 \<and> m = 1526" if "5474 * n + m + 1000 * falls 0 [7] = 1000 * sum_list (counter_steps 0 [7])" "m < 5474" for n m
  proof -
    have e: "5474 * n + m = 7000" using that(1) by (simp add: counter_step_def)
    then have "n < 2" by linarith
    moreover have "n \<noteq> 0" using e that(2) by auto
    ultimately have "n = 1" by linarith
    then show ?thesis using e by simp
  qed
  from s(1) r(1) this [OF r(2,3)] show ?thesis by blast
qed

theorem bl0942_test_finishes_witness:
  "\<exists>s out t. tdd_ele_energy_bl0942_init bl0942_ex_env 0 (ele_boot bl0942_ex_meter) (Some (bl0942_ex_cfg TDL_ELE_TEST_MODE)) (Some \<lparr>uart_no = 1\<rparr>) = Some (OPRT_OK, s) \<and>
    ele_run bl0942_ev (replicate 64 Collect @ [Chip_event Test_timer]) ([], s) = Some (out, t) \<and> tdl_ele_energy_read_fac_test_state t"
proof -
  obtain s where s: "tdd_ele_energy_bl0942_init bl0942_ex_env 0 (ele_boot bl0942_ex_meter) (Some (bl0942_ex_cfg TDL_ELE_TEST_MODE)) (Some \<lparr>uart_no = 1\<rparr>) = Some (OPRT_OK, s)"
    by (rule bl0942_ex_started)
  have "\<exists>out t. ele_run bl0942_ev (replicate 64 Collect @ [Chip_event Test_timer]) ([], s) = Some (out, t) \<and> tdl_ele_energy_read_fac_test_state t"
    by (rule bl0942_test_finishes [OF s]) (simp_all add: bl0942_ex_cfg_def bl0942_ex_meter_def collects_def)
  then show ?thesis using s by blast
qed

theorem bl0942_zero_current_calibrated_witness:
  "\<exists>s'. bl0942_fac_test_cal (bl0942_ex_meter\<lparr>elec := elec_zero\<lparr>voltage_value := 2200, power_value := 864\<rparr>,
      factory_test := fac_zero\<lparr>err_percent := 5\<rparr>, ref_coe_params := \<lparr>v_coe = 2200, i_coe = 392, p_coe = 864, e_coe = 0\<rparr>\<rparr>) =
    Some (TDL_ELE_TEST_PASS, s') \<and> i_coe (coe_params s') = 0 \<and>
    data_analysis_proc (Some (bl0942_frame 1 2 3 4 5 6 7)) (bl0942_ex_meter\<lparr>coe_params := coe_params s'\<rparr>) = None"
  by (rule bl0942_zero_current_calibrated) (simp_all add: tdl_ele_energy_rang_judge_def)

end
