(* ===== verification/Energy_Hlw8032.thy ===== *)
theory Energy_Hlw8032
  imports Energy_Uart
begin

text \<open>
  The metering chip HLW8032 on a serial port, \<^verbatim>\<open>tdd_ele_energy_hlw8032.c\<close>. The chip sends 24-byte frames on its own; every tick of the
  manager's timer looks for the start of a frame in the bytes received and takes one frame. A long is 32 bits wide. The
  factor 1.88 is the double \<open>2116691824864133 / 2^50\<close>.
\<close>

section \<open>Data\<close>

record RUNING_INFO_T =
  voltage :: u32
  current :: u32
  power :: u32
  add_energy :: u32
  energy :: u32
  energy_current :: u32
  energy_last :: u32
  energy_flowflag :: u32
  energy_unit :: u32

datatype UART_RECV_STAT_E = FLAME_HEAD1 | FLAME_HEAD2 | RECVING

record TDD_HLW8012_FAC_TEST_T =
  err_percent :: u8
  is_start_test :: bool
  test_finished :: bool
  sample_finished :: bool
  test_result :: TDL_ELE_ENERGY_TEST_RESULT_E

record TDD_HLW8032_DRV_RESOURCE_T =
  uart_no :: u8
  timer_no :: u8

text \<open>
  The static variables of the file and of \<^verbatim>\<open>__frame_data_analysis\<close> (three filters with their counters, and the number of frames whose
  energy is not trusted).
\<close>

record pvi_filter =
  arr :: "u32 list"
  same_cnt :: u32

record 'u hlw8032_sys =
  runing :: RUNING_INFO_T
  p_ref :: u16
  v_ref :: u16
  i_ref :: u16
  voltage_out :: u32
  elec_out :: u32
  power_out :: u32
  calc_accl :: u8
  uart_recvstat :: UART_RECV_STAT_E
  rev_buf :: "u8 list"
  addplus :: u32
  timecnt :: u32
  time_start :: u32
  time_end :: u32
  hw_cfg :: TDD_HLW8032_DRV_RESOURCE_T
  factory_test :: TDD_HLW8012_FAC_TEST_T
  coe_params :: TDL_ELE_ENERGY_COE_T
  voltage_a :: pvi_filter
  electricity_a :: pvi_filter
  power_a :: pvi_filter
  first_right_time :: u8
  port :: 'u
  uart_log :: "uart_io list"

definition hlw8032_uio :: "uart_io \<Rightarrow> 'u hlw8032_sys \<Rightarrow> 'u hlw8032_sys" where
  "hlw8032_uio e s = s\<lparr>uart_log := uart_log s @ [e]\<rparr>"

abbreviation (input) ARRAY_LEN :: nat where "ARRAY_LEN \<equiv> 3"
abbreviation (input) COUNT_NUM :: u32 where "COUNT_NUM \<equiv> 1"
abbreviation (input) ENERGY_FLOW_NUM :: u32 where "ENERGY_FLOW_NUM \<equiv> 65536"
abbreviation (input) MAX_ENERGY_CNT :: u8 where "MAX_ENERGY_CNT \<equiv> 15"
abbreviation (input) MAX_DATE_LEN :: nat where "MAX_DATE_LEN \<equiv> 96"

text \<open>Conversion of a double to 32 bits is undefined out of range.\<close>

definition times_K_V :: "u32 \<Rightarrow> u32 option" where
  "times_K_V n = (let x = fl_round 53 (unat n * 2116691824864133) div 2 ^ 50 in if x < 2 ^ 32 then Some (of_nat x) else None)"

text \<open>The quotient with its remainder kept as a sticky bit, then rounded.\<close>

definition div_K_P :: "u32 \<Rightarrow> u32" where
  "div_K_P n =
     (let a = unat n * 2 ^ 120; q = a div 2116691824864133; r = a mod 2116691824864133
      in of_nat (fl_round 53 (2 * q + (if r = 0 then 0 else 1)) div 2 ^ 71))"

section \<open>The smoothing filter\<close>


definition get_pvi_fiter_value :: "u32 list option \<Rightarrow> u32 option" where
  "get_pvi_fiter_value a =
     (case a of
        None \<Rightarrow> Some 0
      | Some xs \<Rightarrow> do {
          (mx, mn) \<leftarrow> foldM (\<lambda>j (mx, mn). do {
              x \<leftarrow> rd xs mx; n \<leftarrow> rd xs mn; y \<leftarrow> rd xs j;
              Some (if x \<le> y then j else mx, if n > y then j else mn) }) [1..<ARRAY_LEN] (0, 0);
          (case find (\<lambda>j. \<not> (mx = j \<or> mn = j)) [0..<ARRAY_LEN] of None \<Rightarrow> Some 0 | Some j \<Rightarrow> rd xs j) })"

definition is_need_updata_data :: "u32 list option \<Rightarrow> u32 \<Rightarrow> bool option" where
  "is_need_updata_data a data = (case a of None \<Rightarrow> Some False | Some xs \<Rightarrow> do { x \<leftarrow> rd xs 0; Some (x \<noteq> data) })"

definition updata_pvi_value :: "u32 list \<Rightarrow> u32 \<Rightarrow> u32 list option" where
  "updata_pvi_value xs data = do {
     xs \<leftarrow> foldM (\<lambda>i xs. do { x \<leftarrow> rd xs (i - 1); wr xs i x }) (rev [1..<ARRAY_LEN]) xs;
     wr xs 0 data }"

definition reset_pvi_value :: "u32 list \<Rightarrow> u32 \<Rightarrow> u32 list option" where
  "reset_pvi_value xs data = foldM (\<lambda>i xs. wr xs i data) (rev [0..<ARRAY_LEN]) xs"

text \<open>A new period goes into the filter; the filtered period comes out.\<close>

definition filter_step :: "u32 \<Rightarrow> pvi_filter \<Rightarrow> (u32 \<times> pvi_filter) option" where
  "filter_step t f = do {
     need \<leftarrow> is_need_updata_data (Some (arr f)) t;
     f \<leftarrow> (if need then do { xs \<leftarrow> updata_pvi_value (arr f) t; Some \<lparr>arr = xs, same_cnt = 0\<rparr> }
           else if same_cnt f + 1 \<ge> COUNT_NUM then do { xs \<leftarrow> updata_pvi_value (arr f) t; Some \<lparr>arr = xs, same_cnt = 0\<rparr> }
           else Some (f\<lparr>same_cnt := same_cnt f + 1\<rparr>));
     v \<leftarrow> get_pvi_fiter_value (Some (arr f));
     Some (v, f) }"

section \<open>Frames\<close>

definition frame_head_check :: "u8 list option \<Rightarrow> nat \<Rightarrow> bool option" where
  "frame_head_check src offset =
     (case src of
        None \<Rightarrow> Some False
      | Some b \<Rightarrow>
          if offset = 0 then do { x \<leftarrow> rd b 0; Some (x = 0xAA \<or> x = 0x55 \<or> x AND 0xF0 = 0xF0) }
          else if offset = 1 then do { x \<leftarrow> rd b 1; Some (x = 0x5A) }
          else Some False)"

definition frame_check_sum_cal :: "u8 list \<Rightarrow> u8" where
  "frame_check_sum_cal bs = sum_list bs"

definition reg24 :: "u8 list \<Rightarrow> nat \<Rightarrow> u32 option" where
  "reg24 b k = do { x \<leftarrow> rd b k; y \<leftarrow> rd b (k + 1); z \<leftarrow> rd b (k + 2);
     Some (push_bit 16 (ucast x) OR push_bit 8 (ucast y) OR ucast z) }"

definition calibrated :: "'u hlw8032_sys \<Rightarrow> bool" where
  "calibrated s = (test_result (factory_test s) = TDL_ELE_TEST_PASS \<and> \<not> is_start_test (factory_test s))"

text \<open>Each of the three quantities: nothing when the chip has no new value, or the value to store.\<close>

definition analyse_voltage :: "u8 \<Rightarrow> u8 \<Rightarrow> u8 list \<Rightarrow> 'u hlw8032_sys \<Rightarrow> (u32 option \<times> 'u hlw8032_sys) option" where
  "analyse_voltage startFlag fg b s =
     (if startFlag AND 0xF8 = 0xF8 then Some (Some 0, s)
      else if fg AND 0x40 = 0x40 then do {
        k \<leftarrow> reg24 b 2;
        t \<leftarrow> reg24 b 5;
        (t, f) \<leftarrow> filter_step t (voltage_a s);
        let s = s\<lparr>voltage_a := f, voltage_out := t\<rparr>;
        v \<leftarrow> (if t = 0 then Some 0
              else if calibrated s then Some (v_coe (coe_params s) div t * 100)
              else times_K_V (k * 100 div t * 10));
        Some (Some v, s) }
      else Some (None, s))"

definition analyse_electricity :: "u8 \<Rightarrow> u8 \<Rightarrow> u8 list \<Rightarrow> 'u hlw8032_sys \<Rightarrow> (u32 option \<times> 'u hlw8032_sys) option" where
  "analyse_electricity startFlag fg b s =
     (if startFlag AND 0xF4 = 0xF4 then Some (Some 0, s)
      else if fg AND 0x20 = 0x20 then do {
        k \<leftarrow> reg24 b 8;
        t \<leftarrow> reg24 b 11;
        (t, f) \<leftarrow> filter_step t (electricity_a s);
        let s = s\<lparr>electricity_a := f, elec_out := t\<rparr>;
        let v = (if t = 0 then 0
                 else if calibrated s then i_coe (coe_params s) div t
                 else if k < 4294967 then k * 1000 div t
                 else k * 100 div t * 10);
        Some (Some v, s) }
      else Some (None, s))"

definition analyse_power :: "u8 \<Rightarrow> u8 \<Rightarrow> u8 list \<Rightarrow> 'u hlw8032_sys \<Rightarrow> (u32 option \<times> 'u hlw8032_sys) option" where
  "analyse_power startFlag fg b s =
     (if startFlag AND 0xF2 = 0xF2 then Some (Some 0, s)
      else if fg AND 0x10 = 0x10 then do {
        t \<leftarrow> reg24 b 17;
        k \<leftarrow> reg24 b 14;
        (t, f) \<leftarrow> filter_step t (power_a s);
        let s = s\<lparr>power_a := f, power_out := t\<rparr>;
        v \<leftarrow> (if t = 0 then Some 0
              else if calibrated s then Some (p_coe (coe_params s) div t * 100)
              else times_K_V (k * 100 div t * 10));
        Some (Some v, s) }
      else Some (None, s))"

text \<open>The pulses since the last frame.\<close>

definition energy_count :: "u32 \<Rightarrow> u32 \<Rightarrow> RUNING_INFO_T \<Rightarrow> u32 \<times> RUNING_INFO_T" where
  "energy_count flag cur r =
     (let r = r\<lparr>energy_current := cur\<rparr>;
          (cnt, r) = (if energy_flowflag r \<noteq> flag
             then let r = r\<lparr>energy_flowflag := flag\<rparr>
                  in if energy_current r > energy_last r then (0, r\<lparr>energy_current := 0, energy_last := 0\<rparr>)
                     else (energy_current r + ENERGY_FLOW_NUM - energy_last r, r)
             else (energy_current r - energy_last r, r))
      in (cnt, r\<lparr>energy_last := energy_current r\<rparr>))"

definition energy_cal_step :: "u32 \<Rightarrow> 'u hlw8032_sys \<Rightarrow> 'u hlw8032_sys" where
  "energy_cal_step cnt s =
     (if is_start_test (factory_test s)
      then let s = (if calc_accl s = 0 then s\<lparr>time_start := timecnt s\<rparr>
                    else if calc_accl s = MAX_ENERGY_CNT then s\<lparr>time_end := timecnt s\<rparr> else s)
           in if calc_accl s \<le> MAX_ENERGY_CNT
              then let s = (if calc_accl s \<noteq> 0
                            then let s = s\<lparr>addplus := addplus s + cnt\<rparr>
                                 in if calc_accl s = MAX_ENERGY_CNT then s\<lparr>factory_test := (factory_test s)\<lparr>sample_finished := True\<rparr>\<rparr> else s
                            else s)
                   in s\<lparr>calc_accl := calc_accl s + 1\<rparr>
              else s
      else s)"

definition energy_unit_of :: "u32 \<Rightarrow> 'u hlw8032_sys \<Rightarrow> u32" where
  "energy_unit_of power_k s =
     (if calibrated s then e_coe (coe_params s) * 10
      else div_K_P ((if drop_bit 1 power_k \<noteq> 0 then 1800000000 div drop_bit 1 power_k else 0) * 10))"

definition analyse_energy :: "u8 \<Rightarrow> u8 \<Rightarrow> u8 list \<Rightarrow> 'u hlw8032_sys \<Rightarrow> 'u hlw8032_sys option" where
  "analyse_energy startFlag fg b s =
     (if startFlag = 0x55 then do {
        k \<leftarrow> reg24 b 14;
        x \<leftarrow> rd b 21;
        y \<leftarrow> rd b 22;
        let (cnt, r) = energy_count (ucast (drop_bit 7 fg)) (push_bit 8 (ucast x) OR ucast y) (runing s);
        let s = energy_cal_step cnt (s\<lparr>runing := r\<rparr>);
        let s = s\<lparr>runing := (runing s)\<lparr>energy_unit := energy_unit_of k s\<rparr>\<rparr>;
        let (cnt, s) = (if first_right_time s < 4 then (0, s\<lparr>first_right_time := first_right_time s + 1\<rparr>) else (cnt, s));
        let r = (runing s)\<lparr>energy := energy (runing s) + cnt * 10\<rparr>;
        let r = (if energy_unit r > 0
                 then r\<lparr>add_energy := add_energy r + energy r div energy_unit r, energy := energy r mod energy_unit r\<rparr> else r);
        Some (s\<lparr>runing := r\<rparr>) }
      else Some s)"

text \<open>Below 2 W nothing is shown, below 7 W the current follows from power and voltage.\<close>

definition small_load :: "RUNING_INFO_T \<Rightarrow> RUNING_INFO_T" where
  "small_load r =
     (if power r < 20 then r\<lparr>power := 0, current := 0\<rparr>
      else if power r < 70 \<and> voltage r \<noteq> 0 then r\<lparr>current := 1000 * power r div voltage r\<rparr>
      else r)"

definition frame_data_analysis :: "u8 list \<Rightarrow> 'u hlw8032_sys \<Rightarrow> 'u hlw8032_sys option" where
  "frame_data_analysis b s = do {
     startFlag \<leftarrow> rd b 0;
     fg \<leftarrow> rd b 20;
     (v, i, p, s) \<leftarrow> (if startFlag = 0xAA \<or> startFlag AND 0xF1 = 0xF1 then Some (None, None, None, s)
        else do {
          (v, s) \<leftarrow> analyse_voltage startFlag fg b s;
          (i, s) \<leftarrow> analyse_electricity startFlag fg b s;
          (p, s) \<leftarrow> analyse_power startFlag fg b s;
          s \<leftarrow> analyse_energy startFlag fg b s;
          Some (v, i, p, s) });
     let r = runing s;
     let r = (case p of None \<Rightarrow> r | Some p \<Rightarrow> r\<lparr>power := p div 100\<rparr>);
     let r = (case i of None \<Rightarrow> r | Some i \<Rightarrow> r\<lparr>current := i\<rparr>);
     let r = (case v of None \<Rightarrow> r | Some v \<Rightarrow> r\<lparr>voltage := v div 100\<rparr>);
     Some (s\<lparr>runing := small_load r\<rparr>) }"

text \<open>
  The search for the start of a frame: the first two bytes of the buffer and whether a start was found. It does not end as long as
  the port has bytes and none of them starts a frame.
\<close>

partial_function (option) hlw8032_sync :: "'u uart_reader \<Rightarrow> u8 list \<Rightarrow> 'u \<Rightarrow> (bool \<times> u8 list \<times> 'u) option" where
  "hlw8032_sync r buf u =
     (let (x, u) = r 1 u in
      if length x \<noteq> 1 then Some (False, buf, u)
      else let buf = buf[0 := x ! 0] in do {
        h \<leftarrow> frame_head_check (Some buf) 0;
        if \<not> h then hlw8032_sync r buf u
        else let (y, u) = r 1 u in
          if length y \<noteq> 1 then hlw8032_sync r buf u
          else let buf = buf[1 := y ! 0] in do {
            h \<leftarrow> frame_head_check (Some buf) 1;
            if h then Some (True, buf, u) else hlw8032_sync r buf u } })"

text \<open>Every way out of the reception ends at the label that empties the port.\<close>

definition frame_drop :: "'u uart_env \<Rightarrow> 'u hlw8032_sys \<Rightarrow> 'u hlw8032_sys" where
  "frame_drop env s = s\<lparr>uart_recvstat := FLAME_HEAD1, port := snd (uart_read env MAX_DATE_LEN (port s)),
     rev_buf := replicate MAX_DATE_LEN 0\<rparr>"

definition frame_take :: "'u uart_env \<Rightarrow> 'u hlw8032_sys \<Rightarrow> (bool \<times> 'u hlw8032_sys) option" where
  "frame_take env s =
     (let (x, u) = uart_read env 22 (port s);
          buf = blit (rev_buf s) 2 x;
          s = s\<lparr>rev_buf := buf, port := u\<rparr>
      in if length x = 22
         then if buf ! 23 = frame_check_sum_cal (take 21 (drop 2 buf))
              then do { s \<leftarrow> frame_data_analysis buf s; Some (True, frame_drop env s) }
              else Some (False, frame_drop env s)
         else Some (False, frame_drop env s))"

definition frame_data_receive :: "'u uart_env \<Rightarrow> 'u hlw8032_sys \<Rightarrow> (bool \<times> 'u hlw8032_sys) option" where
  "frame_data_receive env s =
     (case uart_recvstat s of
        FLAME_HEAD1 \<Rightarrow> do {
          (found, buf, u) \<leftarrow> hlw8032_sync (uart_read env) (rev_buf s) (port s);
          let s = s\<lparr>rev_buf := buf, port := u\<rparr>;
          if found then frame_take env (s\<lparr>uart_recvstat := RECVING\<rparr>) else Some (False, frame_drop env s) }
      | RECVING \<Rightarrow> frame_take env s
      | FLAME_HEAD2 \<Rightarrow> Some (False, frame_drop env s))"

section \<open>Operations\<close>

abbreviation (input) runing_zero :: RUNING_INFO_T where
  "runing_zero \<equiv> \<lparr>voltage = 0, current = 0, power = 0, add_energy = 0, energy = 0, energy_current = 0, energy_last = 0,
     energy_flowflag = 0, energy_unit = 0\<rparr>"

definition hlw8032_run_params_init :: "'u hlw8032_sys \<Rightarrow> 'u hlw8032_sys" where
  "hlw8032_run_params_init s = s\<lparr>runing := runing_zero\<rparr>"



definition hlw8032_coe_params_init :: "u8 \<Rightarrow> u32 \<Rightarrow> u32 \<Rightarrow> u32 \<Rightarrow> 'u hlw8032_sys \<Rightarrow> 'u hlw8032_sys" where
  "hlw8032_coe_params_init res vin iin pin s =
     (if vin = 0 \<or> iin = 0 \<or> pin = 0 \<or> res = 0 then s
      else s\<lparr>p_ref := ucast pin, v_ref := ucast vin, i_ref := ucast iin\<rparr>)"

definition hlw8032_fac_test_cal :: "'u hlw8032_sys \<Rightarrow> (TDL_ELE_ENERGY_TEST_RESULT_E \<times> 'u hlw8032_sys) option" where
  "hlw8032_fac_test_cal s =
     (let r = runing s; pc = ucast (err_percent (factory_test s))
      in if tdl_ele_energy_rang_judge (voltage r) (ucast (v_ref s)) pc \<and> tdl_ele_energy_rang_judge (power r) (ucast (p_ref s)) pc
         then do {
           a \<leftarrow> udiv 36000000 (ucast (p_ref s));
           b \<leftarrow> udiv a (time_end s - time_start s);
           Some (TDL_ELE_TEST_PASS, s\<lparr>coe_params := \<lparr>v_coe = ucast (v_ref s) * voltage_out s, i_coe = ucast (i_ref s) * elec_out s,
             p_coe = ucast (p_ref s) * power_out s, e_coe = b * addplus s\<rparr>\<rparr>) }
         else Some (TDL_ELE_TEST_FAIL, s))"


definition hlw8032_drv_hw_timer_init :: "'u uart_env \<Rightarrow> u8 \<Rightarrow> 'u hlw8032_sys \<Rightarrow> OPERATE_RET \<times> 'u hlw8032_sys" where
  "hlw8032_drv_hw_timer_init env t s = (hw_timer_ret env, hlw8032_uio (Hw_timer_init t) s)"

definition hlw8032_hw_timer_ctrl :: "u32 \<Rightarrow> u8 \<Rightarrow> bool \<Rightarrow> 'u hlw8032_sys \<Rightarrow> 'u hlw8032_sys" where
  "hlw8032_hw_timer_ctrl delay_times t stat s = hlw8032_uio (if stat then Hw_timer_start t (delay_times * 1000) else Hw_timer_stop t) s"

definition hlw8032_mode_init :: "'u uart_env \<Rightarrow> TDL_ELE_ENERGY_CFG_T \<Rightarrow> 'u hlw8032_sys \<Rightarrow> OPERATE_RET \<times> 'u hlw8032_sys" where
  "hlw8032_mode_init env c s =
     (case mode c of
        TDL_ELE_TEST_MODE \<Rightarrow>
          (let p = cfg_err_percent (params c);
               s = s\<lparr>factory_test := (factory_test s)\<lparr>is_start_test := True, test_result := TDL_ELE_TEST_FAIL,
                       err_percent := (if p > 100 \<or> p < 1 then 5 else p)\<rparr>\<rparr>;
               (ret, s) = hlw8032_drv_hw_timer_init env (timer_no (hw_cfg s)) s
           in if ret \<noteq> OPRT_OK then (ret, s)
              else let s = hlw8032_hw_timer_ctrl 1 (timer_no (hw_cfg s)) True s
                   in if add_timer_ret env \<noteq> OPRT_OK then (add_timer_ret env, s)
                      else (OPRT_OK, hlw8032_uio (Sys_timer_start 1000) s))
      | TDL_ELE_NORMAL_MODE \<Rightarrow>
          (let s = s\<lparr>factory_test := (factory_test s)\<lparr>is_start_test := False, test_result := cfg_test_result (fac_test c)\<rparr>\<rparr>
           in (OPRT_OK, if cfg_test_result (fac_test c) = TDL_ELE_TEST_PASS then s\<lparr>coe_params := coe_data (fac_test c)\<rparr> else s)))"

definition hlw8032_chip_init ::
  "'u uart_env \<Rightarrow> TDL_ELE_ENERGY_CFG_T option \<Rightarrow> TDD_HLW8032_DRV_RESOURCE_T option \<Rightarrow> 'u hlw8032_sys \<Rightarrow> OPERATE_RET \<times> 'u hlw8032_sys" where
  "hlw8032_chip_init env drv_cfg r s =
     (case (drv_cfg, r) of
        (Some c, Some info) \<Rightarrow>
          (let s = s\<lparr>coe_params := coe_zero, hw_cfg := info\<rparr>;
               s = hlw8032_uio (Uart_init (uart_no (hw_cfg s))) s;
               s = (if volt_type (params c) = TDL_ELE_VOLT_120V
                    then hlw8032_coe_params_init (resval (params c)) TDL_ELE_V_REF_120 TDL_ELE_I_REF_120 TDL_ELE_P_REF_120 s
                    else hlw8032_coe_params_init (resval (params c)) TDL_ELE_V_REF_220 TDL_ELE_I_REF_220 TDL_ELE_P_REF_220 s)
           in hlw8032_mode_init env c (hlw8032_run_params_init s))
      | _ \<Rightarrow> (OPRT_INVALID_PARM, s))"





section \<open>The filter is a median\<close>

lemma updata_pvi_shift: "updata_pvi_value [a, b, c] t = Some [t, a, b]"
  by (simp add: updata_pvi_value_def rd_def wr_def numeral_2_eq_2 numeral_3_eq_3)

lemma fiter_median: "get_pvi_fiter_value (Some [a, b, c]) = Some (sort [a, b, c] ! 1)"
  by (auto simp: get_pvi_fiter_value_def rd_def upt_rec numeral_2_eq_2 numeral_3_eq_3)

lemma filter_step_fresh:
  assumes "length (arr f) = 3" and "same_cnt f = 0"
  shows "filter_step t f = Some (sort (t # take 2 (arr f)) ! 1, \<lparr>arr = t # take 2 (arr f), same_cnt = 0\<rparr>)"
proof -
  obtain a b c where "arr f = [a, b, c]" using assms(1) by (auto simp: length_Suc_conv numeral_3_eq_3)
  then show ?thesis
    using assms(2) by (auto simp: filter_step_def is_need_updata_data_def rd_def updata_pvi_shift fiter_median numeral_2_eq_2)
qed

text \<open>A sequence of periods through the filter: what comes out after the last one.\<close>

fun filter_run :: "u32 list \<Rightarrow> pvi_filter \<Rightarrow> (u32 option \<times> pvi_filter) option" where
  "filter_run [] f = Some (None, f)"
| "filter_run (t # ts) f = do {
     (v, f) \<leftarrow> filter_step t f;
     if ts = [] then Some (Some v, f) else filter_run ts f }"

lemma filter_run_keeps:
  assumes "length (arr f) = 3" and "same_cnt f = 0" and "ts \<noteq> []"
  shows "filter_run ts f = (let xs = take 3 (rev ts @ arr f) in Some (Some (sort xs ! 1), \<lparr>arr = xs, same_cnt = 0\<rparr>))"
  using assms
proof (induction ts arbitrary: f)
  case Nil
  then show ?case by simp
next
  case (Cons t ts)
  let ?f = "\<lparr>arr = t # take 2 (arr f), same_cnt = 0\<rparr>"
  have l: "length (arr ?f) = 3" using Cons.prems(1) by simp
  have s: "filter_step t f = Some (sort (arr ?f) ! 1, ?f)" using filter_step_fresh [OF Cons.prems(1,2)] by simp
  show ?case
  proof (cases "ts = []")
    case True
    then show ?thesis using s Cons.prems(1) by (simp add: numeral_3_eq_3 numeral_2_eq_2)
  next
    case False
    have "take 3 (rev ts @ arr ?f) = take 3 (rev ts @ t # arr f)"
      using False by (cases "rev ts" rule: list.exhaust) (auto simp: take_Cons' numeral_3_eq_3 numeral_2_eq_2 Cons.prems(1) split: nat.split)
    then show ?thesis using Cons.IH [OF l _ False] s False by simp
  qed
qed

text \<open>C38: Whatever periods have gone through it before, the smoothing filter gives out the median of the last three.\<close>

theorem hlw8032_filter_median:
  assumes "length (arr f) = 3" and "same_cnt f = 0"
  shows "map_option fst (filter_run (ts @ [a, b, c]) f) = Some (Some (sort [a, b, c] ! 1))"
proof -
  have "sort [c, b, a] = sort [a, b, c]" by auto
  then show ?thesis using filter_run_keeps [OF assms, of "ts @ [a, b, c]"] by (simp add: Let_def numeral_3_eq_3)
qed

theorem hlw8032_filter_median_witness:
  "map_option fst (filter_run ([7] @ [100, 900, 101]) \<lparr>arr = [0, 0, 0], same_cnt = 0\<rparr>) = Some (Some 101)"
  using hlw8032_filter_median [of "\<lparr>arr = [0, 0, 0], same_cnt = 0\<rparr>" "[7]" 100 900 101] by simp

section \<open>Finding a frame\<close>

definition head_byte :: "u8 \<Rightarrow> bool" where
  "head_byte x \<longleftrightarrow> x = 0xAA \<or> x = 0x55 \<or> x AND 0xF0 = 0xF0"

lemma head_check_simps:
  "2 \<le> length buf \<Longrightarrow> frame_head_check (Some buf) 0 = Some (head_byte (buf ! 0))"
  "2 \<le> length buf \<Longrightarrow> frame_head_check (Some buf) (Suc 0) = Some (buf ! 1 = 0x5A)"
  by (auto simp: frame_head_check_def rd_def head_byte_def)

text \<open>One round of the search, with a buffer that has room for the two bytes.\<close>

lemma hlw8032_sync_round:
  assumes "2 \<le> length buf"
  shows "hlw8032_sync r buf u =
    (let (x, u1) = r 1 u in
     if length x \<noteq> 1 then Some (False, buf, u1)
     else if \<not> head_byte (x ! 0) then hlw8032_sync r (buf[0 := x ! 0]) u1
     else let (y, u2) = r 1 u1 in
       if length y \<noteq> 1 then hlw8032_sync r (buf[0 := x ! 0]) u2
       else if y ! 0 = 0x5A then Some (True, buf[0 := x ! 0, 1 := y ! 0], u2)
       else hlw8032_sync r (buf[0 := x ! 0, 1 := y ! 0]) u2)"
proof -
  have l: "0 < length buf" "1 < length buf" using assms by auto
  show ?thesis
    using assms l by (subst hlw8032_sync.simps) (simp add: head_check_simps Let_def split: prod.split)
qed

text \<open>C37: When the serial driver gives every byte once, the search for the start of a frame always ends: no stream of bytes keeps it
  running.\<close>

theorem hlw8032_sync_ends:
  assumes "uart_drains r avail" and "2 \<le> length buf"
  shows "\<exists>found buf' u'. hlw8032_sync r buf u = Some (found, buf', u') \<and> length buf' = length buf \<and> avail u' \<le> avail u"
  using assms(2)
proof (induction "avail u" arbitrary: buf u rule: less_induct)
  case less
  obtain x u1 where x: "r 1 u = (x, u1)" by (meson surj_pair)
  obtain y u2 where y: "r 1 u1 = (y, u2)" by (meson surj_pair)
  have d: "avail u1 + length x \<le> avail u" "avail u2 + length y \<le> avail u1"
    using assms(1) x y by (metis fst_conv snd_conv uart_drains_def)+
  show ?case
  proof (cases "length x = 1")
    case False
    then show ?thesis using hlw8032_sync_round [OF less.prems, of r u] x d by auto
  next
    case True
    have i1: "\<exists>found buf' u'. hlw8032_sync r (buf[0 := x ! 0]) u1 = Some (found, buf', u') \<and> length buf' = length buf \<and> avail u' \<le> avail u1"
      using less.hyps [of u1 "buf[0 := x ! 0]"] less.prems d True by simp
    have i2: "\<exists>found buf' u'. hlw8032_sync r b u2 = Some (found, buf', u') \<and> length buf' = length buf \<and> avail u' \<le> avail u2"
      if "length b = length buf" for b
      using less.hyps [of u2 b] less.prems d True that by simp
    have le: "avail u1 \<le> avail u" "avail u2 \<le> avail u" using d by linarith+
    consider "\<not> head_byte (x ! 0)" | "head_byte (x ! 0)" "length y \<noteq> 1" | "head_byte (x ! 0)" "length y = 1" "y ! 0 = 0x5A"
      | "head_byte (x ! 0)" "length y = 1" "y ! 0 \<noteq> 0x5A" by blast
    then show ?thesis
    proof cases
      case 1
      then show ?thesis using i1 hlw8032_sync_round [OF less.prems, of r u] x True le by (auto intro: order_trans)
    next
      case 2
      then show ?thesis using i2 [of "buf[0 := x ! 0]"] hlw8032_sync_round [OF less.prems, of r u] x y True le by (auto intro: order_trans)
    next
      case 3
      then show ?thesis using hlw8032_sync_round [OF less.prems, of r u] x y True le by auto
    next
      case 4
      then show ?thesis using i2 [of "buf[0 := x ! 0, 1 := y ! 0]"] hlw8032_sync_round [OF less.prems, of r u] x y True le by (auto intro: order_trans)
    qed
  qed
qed

theorem hlw8032_sync_ends_witness:
  "\<exists>found buf' u'. hlw8032_sync fifo_read [0, 0] [1, 0x55, 2] = Some (found, buf', u') \<and> length buf' = length [0, 0 :: u8] \<and>
    length u' \<le> length [1, 0x55, 2 :: u8]"
  by (rule hlw8032_sync_ends) (simp_all add: fifo_uart)

lemma fifo_one:
  assumes "uart_fifo r content" and "content u = x # xs" and "r 1 u = (b, u')"
  shows "b = [x]" and "content u' = xs"
proof -
  have "fst (r 1 u) = take 1 (content u) \<and> content (snd (r 1 u)) = drop 1 (content u)" using assms(1) by (simp only: uart_fifo_def)
  then show "b = [x]" "content u' = xs" using assms(2,3) by simp_all
qed

lemma sync_finds:
  assumes "uart_fifo r content" and "content u = pre @ h # 0x5A # rest" and "\<forall>x \<in> set pre. \<not> head_byte x" and "head_byte h"
    and "2 \<le> length buf"
  shows "\<exists>u'. hlw8032_sync r buf u = Some (True, buf[0 := h, 1 := 0x5A], u') \<and> content u' = rest"
  using assms(2,3,5)
proof (induction pre arbitrary: u buf)
  case Nil
  obtain x u1 where x: "r 1 u = (x, u1)" by (meson surj_pair)
  obtain y u2 where y: "r 1 u1 = (y, u2)" by (meson surj_pair)
  have "x = [h]" "content u1 = 0x5A # rest" using fifo_one [OF assms(1) _ x] Nil by simp_all
  moreover from this have "y = [0x5A]" "content u2 = rest" using fifo_one [OF assms(1) _ y] by simp_all
  ultimately show ?case using hlw8032_sync_round [OF Nil.prems(3), of r u] x y assms(4) by simp
next
  case (Cons a pre)
  obtain x u1 where x: "r 1 u = (x, u1)" by (meson surj_pair)
  have x1: "x = [a]" "content u1 = pre @ h # 0x5A # rest" using fifo_one [OF assms(1) _ x] Cons.prems by simp_all
  have "\<exists>u'. hlw8032_sync r (buf[0 := a]) u1 = Some (True, (buf[0 := a])[0 := h, 1 := 0x5A], u') \<and> content u' = rest"
    using Cons.IH [OF x1(2), of "buf[0 := a]"] Cons.prems by simp
  then show ?case using hlw8032_sync_round [OF Cons.prems(3), of r u] x x1 Cons.prems(2) by simp
qed

text \<open>A frame as the chip sends it.\<close>

definition frame_ok :: "u8 list \<Rightarrow> bool" where
  "frame_ok f \<longleftrightarrow> length f = 24 \<and> head_byte (f ! 0) \<and> f ! 1 = 0x5A \<and> f ! 23 = sum_list (take 21 (drop 2 f))"

lemma frame_split:
  assumes "length f = 24"
  shows "f = f ! 0 # f ! 1 # drop 2 f"
  using assms by (cases f; cases "tl f") auto

lemma buffer_frame:
  assumes "length buf = 96" and "length f = 24"
  shows "blit (buf[0 := f ! 0, 1 := f ! 1]) 2 (drop 2 f) = f @ drop 24 buf"
proof -
  have "take 2 (buf[0 := f ! 0, 1 := f ! 1]) = [f ! 0, f ! 1]"
    using assms(1) by (cases buf; cases "tl buf") (auto simp: numeral_2_eq_2)
  moreover have "drop 24 (buf[0 := f ! 0, 1 := f ! 1]) = drop 24 buf" by simp
  ultimately show ?thesis using assms(2) frame_split [OF assms(2)] by (simp add: blit_def)
qed

text \<open>The frame that the next call will analyse, if it finds one.\<close>

definition hlw8032_taken :: "'u uart_env \<Rightarrow> 'u hlw8032_sys \<Rightarrow> u8 list option" where
  "hlw8032_taken env s = (case hlw8032_sync (uart_read env) (rev_buf s) (port s) of
     Some (True, buf, u) \<Rightarrow>
       (let x = fst (uart_read env 22 u); b = blit buf 2 x
        in if length x = 22 \<and> b ! 23 = frame_check_sum_cal (take 21 (drop 2 b)) then Some b else None)
   | _ \<Rightarrow> None)"

lemma receives_frame:
  assumes "uart_fifo (uart_read env) content" and "content (port s) = pre @ f @ rest" and "\<forall>x \<in> set pre. \<not> head_byte x"
    and "frame_ok f" and "uart_recvstat s = FLAME_HEAD1" and "length (rev_buf s) = 96"
  shows "\<exists>u. frame_data_receive env s =
      map_option (\<lambda>t. (True, frame_drop env t))
        (frame_data_analysis (f @ drop 24 (rev_buf s)) (s\<lparr>uart_recvstat := RECVING, rev_buf := f @ drop 24 (rev_buf s), port := u\<rparr>)) \<and>
    content u = rest \<and> hlw8032_taken env s = Some (f @ drop 24 (rev_buf s))"
proof -
  have f: "length f = 24" "head_byte (f ! 0)" "f ! 1 = 0x5A" "f ! 23 = sum_list (take 21 (drop 2 f))" using assms(4) by (auto simp: frame_ok_def)
  have c: "content (port s) = pre @ f ! 0 # 0x5A # (drop 2 f @ rest)"
    using assms(2) frame_split [OF f(1)] f(3) by (metis append_Cons)
  obtain u1 where u1: "hlw8032_sync (uart_read env) (rev_buf s) (port s) = Some (True, (rev_buf s)[0 := f ! 0, 1 := f ! 1], u1)"
    "content u1 = drop 2 f @ rest"
    using sync_finds [OF assms(1) c assms(3) f(2), of "rev_buf s"] assms(6) f(3) by auto
  obtain x u2 where x: "uart_read env 22 u1 = (x, u2)" by (meson surj_pair)
  have "fst (uart_read env 22 u1) = take 22 (content u1) \<and> content (snd (uart_read env 22 u1)) = drop 22 (content u1)"
    using assms(1) by (simp only: uart_fifo_def)
  then have x2: "x = drop 2 f" "content u2 = rest" using x u1(2) f(1) by simp_all
  have n: "(f @ drop 24 (rev_buf s)) ! 23 = frame_check_sum_cal (take 21 (drop 2 (f @ drop 24 (rev_buf s))))"
    using f(1,4) by (simp add: nth_append frame_check_sum_cal_def)
  show ?thesis
    using u1(1) x x2 f(1) n assms(5) buffer_frame [OF assms(6) f(1)]
    by (intro exI [of _ u2]) (auto simp: frame_data_receive_def frame_take_def hlw8032_taken_def map_option_case Let_def split: option.split bind_splits)
qed

text \<open>C26: A frame with a right checksum is found behind any number of bytes that cannot start a frame, and analysed as it was sent;
  afterwards the port has been emptied of up to 96 bytes and the receiver looks for a new frame.\<close>

theorem hlw8032_receives:
  assumes "uart_fifo (uart_read env) content" and "content (port s) = pre @ f @ rest" and "\<forall>x \<in> set pre. \<not> head_byte x"
    and "frame_ok f" and "uart_recvstat s = FLAME_HEAD1" and "length (rev_buf s) = 96"
  shows "\<exists>u. frame_data_receive env s =
      map_option (\<lambda>t. (True, frame_drop env t))
        (frame_data_analysis (f @ drop 24 (rev_buf s)) (s\<lparr>uart_recvstat := RECVING, rev_buf := f @ drop 24 (rev_buf s), port := u\<rparr>)) \<and>
    content u = rest"
  using receives_frame [OF assms] by blast

text \<open>A byte that looks like a header takes the byte after it with it, even if that byte is the header of a frame: a frame behind a
  stray header byte is lost.\<close>

theorem hlw8032_stray_header:
  assumes "uart_fifo r content" and "content u = h # f" and "head_byte h" and "frame_ok f" and "f ! 0 \<noteq> 0x5A"
    and "\<forall>x \<in> set (drop 1 f). \<not> head_byte x" and "2 \<le> length buf"
  shows "\<exists>buf' u'. hlw8032_sync r buf u = Some (False, buf', u')"
proof -
  have l: "length f = 24" using assms(4) by (simp add: frame_ok_def)
  then have f: "f = f ! 0 # drop 1 f" by (cases f) auto
  have none: "\<exists>buf' u'. hlw8032_sync r b v = Some (False, buf', u')"
    if "content v = xs" "\<forall>x \<in> set xs. \<not> head_byte x" "2 \<le> length b" for xs b v
    using that
  proof (induction xs arbitrary: b v)
    case Nil
    obtain x v1 where x: "r 1 v = (x, v1)" by (meson surj_pair)
    have "fst (r 1 v) = take 1 (content v)" using assms(1) by (simp only: uart_fifo_def)
    then show ?case using hlw8032_sync_round [OF Nil.prems(3), of r v] x Nil.prems(1) by simp
  next
    case (Cons a xs)
    obtain x v1 where x: "r 1 v = (x, v1)" by (meson surj_pair)
    have "x = [a]" "content v1 = xs" using fifo_one [OF assms(1) Cons.prems(1) x] by simp_all
    then show ?case using hlw8032_sync_round [OF Cons.prems(3), of r v] x Cons.IH [of v1 "b[0 := a]"] Cons.prems by simp
  qed
  obtain x u1 where x: "r 1 u = (x, u1)" by (meson surj_pair)
  obtain y u2 where y: "r 1 u1 = (y, u2)" by (meson surj_pair)
  have x1: "x = [h]" "content u1 = f" using fifo_one [OF assms(1,2) x] by simp_all
  have y1: "y = [f ! 0]" "content u2 = drop 1 f" using fifo_one [OF assms(1) _ y, of "f ! 0" "drop 1 f"] x1(2) f by simp_all
  have "\<exists>buf' u'. hlw8032_sync r (buf[0 := h, 1 := f ! 0]) u2 = Some (False, buf', u')"
    using none [OF y1(2) assms(6), of "buf[0 := h, 1 := f ! 0]"] assms(7) by simp
  then show ?thesis
    using hlw8032_sync_round [OF assms(7), of r u] x y x1(1) y1(1) assms(3,5) by simp
qed

text \<open>The header documents that an unset resistor means one milliohm. The driver leaves its reference values at zero instead, and a
  calibration that passes then divides by zero.\<close>

theorem hlw8032_unset_resistor:
  assumes "resval (params c) = 0" and "p_ref d = 0" and "v_ref d = 0" and "hlw8032_chip_init env (Some c) (Some info) d = (r, s)"
    and "factory_test t = factory_test s" and "p_ref t = p_ref s" and "v_ref t = v_ref s" and "hlw8032_fac_test_cal t = Some (res, t')"
  shows "res = TDL_ELE_TEST_FAIL"
proof -
  have "p_ref s = 0" "v_ref s = 0"
    using assms(1-4)
    by (auto simp: hlw8032_chip_init_def hlw8032_coe_params_init_def hlw8032_mode_init_def hlw8032_run_params_init_def
        hlw8032_drv_hw_timer_init_def hlw8032_hw_timer_ctrl_def hlw8032_uio_def Let_def
        split: TDL_ELE_ENERGY_MODE_E.splits if_splits)
  then show ?thesis using assms(6-8) by (auto simp: hlw8032_fac_test_cal_def Let_def split: if_splits)
qed

section \<open>The account of the meter\<close>






































section \<open>Witnesses\<close>

definition hlw8032_ex_env :: "u8 list uart_env" where
  "hlw8032_ex_env = \<lparr>uart_read = fifo_read, mutex_ret = 0, add_timer_ret = 0, hw_timer_ret = 0\<rparr>"

definition ex_filter :: pvi_filter where
  "ex_filter = \<lparr>arr = [0, 0, 0], same_cnt = 0\<rparr>"

definition ex_fac :: TDD_HLW8012_FAC_TEST_T where
  "ex_fac = \<lparr>err_percent = 0, is_start_test = False, test_finished = False, sample_finished = False, test_result = TDL_ELE_TEST_ZERO\<rparr>"

definition hlw8032_ex_meter :: "u8 list \<Rightarrow> u8 list hlw8032_sys" where
  "hlw8032_ex_meter u = \<lparr>runing = runing_zero, p_ref = 0, v_ref = 0, i_ref = 0, voltage_out = 0, elec_out = 0, power_out = 0, calc_accl = 0,
     uart_recvstat = FLAME_HEAD1, rev_buf = replicate 96 0, addplus = 0, timecnt = 0, time_start = 0, time_end = 0,
     hw_cfg = \<lparr>uart_no = 0, timer_no = 0\<rparr>, factory_test = ex_fac, coe_params = coe_zero, voltage_a = ex_filter, electricity_a = ex_filter,
     power_a = ex_filter, first_right_time = 0, port = u, uart_log = []\<rparr>"

definition hlw8032_ex_frame :: "u8 list" where
  "hlw8032_ex_frame = [0x55, 0x5A] @ replicate 21 1 @ [21]"

theorem hlw8032_receives_witness:
  "\<exists>u. frame_data_receive hlw8032_ex_env (hlw8032_ex_meter ([1, 2] @ hlw8032_ex_frame @ [3])) =
      map_option (\<lambda>t. (True, frame_drop hlw8032_ex_env t))
        (frame_data_analysis (hlw8032_ex_frame @ drop 24 (replicate 96 0))
          ((hlw8032_ex_meter ([1, 2] @ hlw8032_ex_frame @ [3]))\<lparr>uart_recvstat := RECVING, rev_buf := hlw8032_ex_frame @ drop 24 (replicate 96 0), port := u\<rparr>)) \<and>
    u = [3]"
proof -
  have "uart_fifo (uart_read hlw8032_ex_env) (\<lambda>u. u)" by (simp add: hlw8032_ex_env_def fifo_uart)
  moreover have "\<forall>x \<in> set [1, 2 :: u8]. \<not> head_byte x" by (simp add: head_byte_def)
  moreover have "frame_ok hlw8032_ex_frame" by (simp add: frame_ok_def hlw8032_ex_frame_def head_byte_def sum_list_replicate nth_append)
  ultimately show ?thesis
    using hlw8032_receives [of hlw8032_ex_env "\<lambda>u. u" "hlw8032_ex_meter ([1, 2] @ hlw8032_ex_frame @ [3])" "[1, 2]" hlw8032_ex_frame "[3]"] by (simp add: hlw8032_ex_meter_def)
qed










end
