(* ===== verification/Spec2Isabelle.thy ===== *)
theory Spec2Isabelle
  imports Sensor_Drivers Sensor_Typed IR_Life IR_Tdd Pixel_Color Dimmer_Kp Dimmer_Pwm Energy_Pulse Energy_Bl0942 Energy_Hlw8032
begin

text \<open>
  Verification of the peripheral drivers of the TuyaOS development board T2.

  The repository is an SDK with example applications under \<^verbatim>\<open>src/software/TuyaOS/apps\<close>. The logic of its own is in
  the driver stacks of these applications. Each stack has two layers: a device manager (\<^verbatim>\<open>tdl_...\<close>) that
  keeps a list of named devices and offers open, write, read and close, and hardware drivers (\<^verbatim>\<open>tdd_...\<close>)
  that register with it a table of functions and are called through it. Five stacks are modelled.

  \<^bold>\<open>Prelude.\<close> \<^verbatim>\<open>Tuya_Prelude\<close>: machine integers, return codes, bounded memory accesses, counted loops,
  single bits of words, and the interfaces of the development as locales: a bounded first-in first-out
  buffer (\<^verbatim>\<open>fifo_buffer\<close>), a registry of named devices (\<^verbatim>\<open>device_registry\<close>). Each is interpreted on the
  model's own definitions in the theory of the component that provides it: the buffer in \<^verbatim>\<open>IR_Ring\<close>, the
  registry in \<^verbatim>\<open>IR_Dev\<close>, \<^verbatim>\<open>Pixel_Dev\<close> and \<^verbatim>\<open>Dimmer_Dev\<close>. The interface of a metering driver (\<^verbatim>\<open>energy_source\<close>)
  and that of a sensor driver (\<^verbatim>\<open>sensor_drivers\<close>) are stated beside the managers that rely on them.

  \<^bold>\<open>Infrared\<close> (\<^verbatim>\<open>tuyaos_ir_driver_demo_quickstart\<close>).
    \<^item> \<^verbatim>\<open>IR_Nec\<close>, from \<^verbatim>\<open>tdl_nec_protocol.c\<close>: building and decoding of NEC frames. Round trip, decoding of
      every pulse train within tolerance, progress of the decoder, the repeat counter that wraps.
    \<^item> \<^verbatim>\<open>IR_Ring\<close>, the ring buffer of \<^verbatim>\<open>tdl_ir_dev_manage.c\<close>: refinement of a bounded queue.
    \<^item> \<^verbatim>\<open>IR_Dev\<close>, the rest of that file but reception: registration, opening, sending and its completion
      interrupt, configuration. A run of send interrupts is a function with the number of interrupts as fuel; a
      transmission of a frame of \<open>n\<close> pulses repeated \<open>c\<close> times is shown to end after as many interrupts.
    \<^item> \<^verbatim>\<open>IR_Recv\<close>, reception: the edge callback, the receive task as one step between two sleeping points,
      both decoders. What a reception delivers, and safety of every interleaving of interrupts and steps.
    \<^item> \<^verbatim>\<open>IR_Life\<close>: resources over the life of a device, as a step relation over all calls and an
      invariant of the reachable states; the second close.
    \<^item> \<^verbatim>\<open>IR_Tdd\<close>, from \<^verbatim>\<open>tdd_ir_driver_t2.c\<close>: interrupt masks, timer and PWM calls, phases, edge interrupt;
      the pulses a transmission puts out, through manager and driver.

  \<^bold>\<open>Pixel strips\<close> (\<^verbatim>\<open>tuyaos_pixel_driver_demo_quickstart\<close>).
    \<^item> \<^verbatim>\<open>Pixel_Tdd\<close>, from \<^verbatim>\<open>tdd_pixel_basic.c\<close> and the seven chip files: SPI frames and their line codes.
    \<^item> \<^verbatim>\<open>Pixel_Dev\<close>, from \<^verbatim>\<open>tdl_pixel_dev_manage.c\<close>: registration, open, refresh, close, configuration.
    \<^item> \<^verbatim>\<open>Pixel_Color\<close>, from \<^verbatim>\<open>tdl_pixel_color_manage.c\<close>: setting, reading, shifting and copying colours.
    \<^item> this theory: a strip from registration to the bytes on the wire.

  \<^bold>\<open>Dimmers\<close> (\<^verbatim>\<open>tuyaos_dimmer_driver_demo_quickstart\<close>).
    \<^item> \<^verbatim>\<open>Dimmer_I2C\<close>, from \<^verbatim>\<open>tdd_sw_i2c.c\<close> and \<^verbatim>\<open>tdd_dimmer_common.c\<close>: the bit-banged bus as a sequence of GPIO
      calls. A receiver that knows only the two lines gets the bytes that were sent; a missing acknowledge
      cuts the frame and is reported as success. The wait for an acknowledge ends after eleven looks.
    \<^item> \<^verbatim>\<open>Dimmer_Dev\<close>, from \<^verbatim>\<open>tdl_dimmer_manage.c\<close>: scaling of colours, fading, the CCT rule, the device list.
    \<^item> \<^verbatim>\<open>Dimmer_Chips\<close>, from \<^verbatim>\<open>tdd_dimmer_bp5758d.c\<close>, \<^verbatim>\<open>bp1658cj\<close>, \<^verbatim>\<open>sm2x35egh\<close>, \<^verbatim>\<open>sm2135e\<close> and \<^verbatim>\<open>sm2135ex\<close>:
      frames, work modes, current codes; a light on a BP5758D from registration to the wires.
    \<^item> \<^verbatim>\<open>Dimmer_Kp\<close>, from \<^verbatim>\<open>tdd_dimmer_kp1805x.c\<close>: parity and the current that follows the colour.
    \<^item> \<^verbatim>\<open>Dimmer_Pwm\<close>, from \<^verbatim>\<open>tdd_dimmer_pwm_cw.c\<close> and \<^verbatim>\<open>tdd_dimmer_pwm_cct.c\<close>: duties and running channels.

  \<^bold>\<open>Energy metering\<close> (\<^verbatim>\<open>tuyaos_ele_energy_demo_quickstart\<close>).
    \<^item> \<^verbatim>\<open>Energy_Tdl\<close>, from \<^verbatim>\<open>tdl_ele_energy_ops.c\<close>: registration of a driver, the periodic collection, the readings.
      The locale \<^verbatim>\<open>energy_source\<close> says what a driver promises of its energy, and the account of the
      manager over any sequence of events is proved once inside it. It is interpreted on each of the three drivers below.
    \<^item> \<^verbatim>\<open>Energy_Pulse\<close>, from \<^verbatim>\<open>tdd_ele_energy_bl0937_hlw8012.c\<close>: pulses counted by interrupts, with the
      millisecond timer and the two pins as events in any order. What a steady load is read as, the switch between voltage and
      current, the account of the energy pulses.
    \<^item> \<^verbatim>\<open>Energy_Uart\<close>: the serial port as a parameter, unsigned division that traps on zero, rounding of a float.
    \<^item> \<^verbatim>\<open>Energy_Bl0942\<close>, from \<^verbatim>\<open>tdd_ele_energy_bl0942.c\<close>: frames, their checks, conversion and energy account; the
      production test ends whatever comes over the port, after at most 64 collections (eight good answers are asked for, and at
      most three bad ones come before each) and a look of its timer.
    \<^item> \<^verbatim>\<open>Energy_Hlw8032\<close>, from \<^verbatim>\<open>tdd_ele_energy_hlw8032.c\<close>: search for a frame (a \<^verbatim>\<open>partial_function\<close>, shown to return),
      checksum, median filters, conversion and energy account.

  \<^bold>\<open>Sensors\<close> (\<^verbatim>\<open>tuyaos_sensor_hub_demo_quickstart\<close>).
    \<^item> \<^verbatim>\<open>Sensor_Float\<close>: single precision as the drivers use it, on rationals rounded to 24 bits, infinities and not-a-number;
      error bounds of the formulas \<open>raw * a / 65535 - b\<close> and back.
    \<^item> \<^verbatim>\<open>Sensor_Hub\<close>, from \<^verbatim>\<open>tdl_sensor_hub.c\<close>: registration, checked configuration, opening and closing, control,
      reading on demand, timers and pin interrupts as events, and a round of the acquisition task as one step.
    \<^item> \<^verbatim>\<open>Sensor_Fifo\<close>: the acquisition, with its filter, packed buffers and reports, implements an abstract subscription with one queue per element.
    \<^item> \<^verbatim>\<open>Sensor_Life\<close>: a step function over all events and an invariant of every run. What a driver owes is the locale
      \<^verbatim>\<open>sensor_drivers\<close>, and safety of the manager is proved once inside it.
    \<^item> \<^verbatim>\<open>Sensor_Typed\<close>: every report is of an element that was registered, with its type, for any drivers and callers.
    \<^item> \<^verbatim>\<open>Sensor_I2C\<close>, from \<^verbatim>\<open>tdd_sensor_i2c.c\<close>: transfers in both directions on the bus of \<^verbatim>\<open>Dimmer_I2C\<close>; a read brings in the bytes
      the chip puts out, and every transfer ends.
    \<^item> \<^verbatim>\<open>Sensor_Crc\<close>: the check byte of the Sensirion chips is linear and shows every burst of up to eight bits and every two bits.
    \<^item> \<^verbatim>\<open>Sensor_Th\<close>, \<^verbatim>\<open>Sensor_Sht3x\<close>, \<^verbatim>\<open>Sensor_Sht4x\<close>, \<^verbatim>\<open>Sensor_Cht\<close>, from the three files under \<^verbatim>\<open>tdd_sensor_temp_humi\<close>:
      every operation of the drivers. What a reading of the SHT3x gives, its accuracy, disturbed readings, limits there and back.
    \<^item> \<^verbatim>\<open>Sensor_Imu\<close>, from \<^verbatim>\<open>tdd_sensor_mpu60x0.c\<close>: register fields, commands and readings of the motion sensor; the values of a
      reading with their accuracy, the fields written, the divider of the sample rate.
    \<^item> \<^verbatim>\<open>Sensor_Volt\<close>, from \<^verbatim>\<open>tdd_sensor_voltage.c\<close>: the scaled voltage, its accuracy, and a failure that is not reported.
    \<^item> \<^verbatim>\<open>Sensor_Drivers\<close>: the five drivers interpret the locale, and the whole stack is safe from power-up on.

  \<^bold>\<open>Conventions.\<close> A C function that returns is \<^term>\<open>Some\<close> of its return code and the state it leaves;
  undefined behaviour (an access outside an object, a null dereference, signed overflow) and a loop that does not end
  are \<^term>\<open>None\<close>. A pointer that may be null is an option. Unsigned values are words of their width, or naturals that
  are cut to their width where they are stored. Hardware and operating system are parameters: the calls
  made to them are recorded in order, and what they answer (allocations, return codes, levels of
  a pin) comes from an argument of the definitions. A mutex makes a call one step. Identifiers are
  those of the source; a leading double underscore is dropped, and replaced by \<^verbatim>\<open>static_\<close> where the exported function
  has the same name.

  \<^bold>\<open>Not modelled.\<close> The command line of \<^verbatim>\<open>tuya_cli.c\<close> and the serial ports of \<^verbatim>\<open>tuya_uart.c\<close> and \<^verbatim>\<open>tal_uart.c\<close> are tools of the
  developer around calls of the SDK. Example programs and start-up code only call
  the SDK. Headers of vendored libraries, prebuilt libraries and build scripts have no logic of this repository.
  Timing of the busy waits, the code under \<^verbatim>\<open>#if 0\<close> in the infrared driver, the build of the sensor drivers without
  floating point, which does not compile, and log output are left out.
\<close>

section \<open>A strip from registration to the wire\<close>

lemma strip_frame_uniform:
  assumes "\<And>j. j < n \<Longrightarrow> pixel_at prim b j = px"
  shows "strip_frame code prim order b n = concat (replicate n (concat (map (\<lambda>v. code (ucast v)) (wire order px))))"
proof -
  have "map (\<lambda>j. concat (map (\<lambda>v. code (ucast v)) (wire order (pixel_at prim b j)))) [0..<n] =
      map (\<lambda>j. concat (map (\<lambda>v. code (ucast v)) (wire order px))) [0..<n]"
    using assms by (intro map_cong) auto
  then show ?thesis by (simp add: strip_frame_def map_replicate_const)
qed

text \<open>The node that the WS2812 driver registers.\<close>

lemma ws2812_registered:
  assumes "tdd_ws2812_driver_register renv env [] (Some nm) order = Some (OPRT_OK, [device])"
  shows "is_start device = False" "color_num device = 3" "pixel_color device = PIXEL_COLOR_TP_RGB"
    "color_maximum device = 255" "px_intfs device = chip_intfs ws2812_chip env"
    "drv_handle device = \<lparr>drv_tx = None, rgb_order_mode = order, spi_trace = []\<rparr>"
  using assms type_get_rgb
  by (auto simp: tdd_ws2812_driver_register_def chip_register_def tdl_pixel_driver_register_def
      static_tdl_pixel_dev_register_def split: if_splits)

text \<open>Opening it for \<open>n\<close> pixels.\<close>

lemma ws2812_open:
  assumes reg: "tdd_ws2812_driver_register renv env [] (Some nm) order = Some (OPRT_OK, [device])"
    and env: "spi_init_ret env = OPRT_OK" "tx_malloc env" and n: "0 < n" "n < 65536"
    and m: "alloc (3 * n) = Some m" "length m = 3 * n"
  shows "\<exists>device'. tdl_pixel_dev_open alloc (Some device) (Some \<lparr>cfg_pixel_num = n, cfg_pixel_resolution = res\<rparr>) = (OPRT_OK, Some device') \<and>
    px_wf device' \<and> pixel_num device' = n \<and> color_num device' = 3 \<and> px_intfs device' = chip_intfs ws2812_chip env \<and>
    drv_handle device' = \<lparr>drv_tx = Some \<lparr>tx_buffer = replicate (24 * n) 0, tx_buffer_len = 24 * n\<rparr>,
      rgb_order_mode = order, spi_trace = [Spi_init 6600000]\<rparr>"
proof -
  note d = ws2812_registered [OF reg]
  let ?m = "memset_zero_bytes m (3 * n)"
  have l: "length ?m = 3 * n" using m(2) by (auto simp: memset_zero_bytes_def)
  have "chip_open ws2812_chip env (drv_handle device) n = (OPRT_OK,
      \<lparr>drv_tx = Some \<lparr>tx_buffer = replicate (24 * n) 0, tx_buffer_len = 24 * n\<rparr>, rgb_order_mode = order,
       spi_trace = [Spi_init 6600000]\<rparr>)"
    using d(6) env n by (simp add: chip_open_def tdd_pixel_create_tx_ctrl_def ws2812_chip_def spi_do_def)
  moreover have "cut16 n = n" "cut32 (3 * n) = 3 * n" "cut32 (3 * n * 2) div 2 = 3 * n" using n by simp_all
  ultimately show ?thesis
    using d m l n by (simp add: tdl_pixel_dev_open_def static_tdl_pixel_dev_open_def chip_intfs_def Let_def px_wf_def chan_num_def)
qed

text \<open>C5: A WS2812 strip that is registered, opened, set to one colour and refreshed: after the
  initialisation of the bus exactly one frame is on the wire, in which every pixel has the line code of
  the scaled colour in the line order of the registration.\<close>

theorem ws2812_show_color:
  assumes reg: "tdd_ws2812_driver_register renv env [] (Some nm) order = Some (OPRT_OK, [device])"
    and env: "spi_init_ret env = OPRT_OK" "tx_malloc env" and n: "0 < n" "n < 65536"
    and m: "alloc (3 * n) = Some m" "length m = 3 * n"
  shows "\<exists>d1 d2 d3. tdl_pixel_dev_open alloc (Some device) (Some \<lparr>cfg_pixel_num = n, cfg_pixel_resolution = res\<rparr>) = (OPRT_OK, Some d1) \<and>
    tdl_pixel_set_single_color_all (Some d1) (Some c) = Some (OPRT_OK, Some d2) \<and>
    tdl_pixel_dev_refresh (Some d2) = Some (spi_send_ret env, Some d3) \<and>
    spi_trace (drv_handle d3) = [Spi_init 6600000,
      Spi_send (concat (replicate n (concat (map (\<lambda>v. line_code 0xE0 0xFC (ucast v)) (wire order (pixel_cells d1 c))))))]"
proof -
  obtain d1 where d1: "tdl_pixel_dev_open alloc (Some device) (Some \<lparr>cfg_pixel_num = n, cfg_pixel_resolution = res\<rparr>) = (OPRT_OK, Some d1)"
    "px_wf d1" "pixel_num d1 = n" "color_num d1 = 3" "px_intfs d1 = chip_intfs ws2812_chip env"
    "drv_handle d1 = \<lparr>drv_tx = Some \<lparr>tx_buffer = replicate (24 * n) 0, tx_buffer_len = 24 * n\<rparr>,
      rgb_order_mode = order, spi_trace = [Spi_init 6600000]\<rparr>"
    using ws2812_open [OF reg env n, of alloc m res] m by blast
  obtain b where b: "pixel_buffer d1 = Some b" "length b = 3 * n" using px_wfD(2) [OF d1(2)] d1(3,4) by auto
  obtain b' where b': "set_pixels d1 0 n (\<lambda>_. Some c) (Some b) = Some (Some b')" "length b' = 3 * n"
    "\<forall>j < n. cells_at d1 b' j = pixel_cells d1 c"
    using set_pixels_cells [OF d1(2), of 0 n b "\<lambda>_. Some c" "\<lambda>_. c"] b d1(3,4) by auto
  let ?d2 = "put_buffer d1 (Some b')"
  have p: "chip_primary ws2812_chip = 3" "chip_len ws2812_chip = 8" by (simp_all add: ws2812_chip_def)
  have "tdl_pixel_set_single_color_all (Some d1) (Some c) = Some (OPRT_OK, Some ?d2)"
    using px_wfD(1) [OF d1(2)] d1(3) b b' by (simp add: tdl_pixel_set_single_color_all_def)
  moreover have fr: "strip_frame (line_code 0xE0 0xFC) 3 order b' n =
      concat (replicate n (concat (map (\<lambda>v. line_code 0xE0 0xFC (ucast v)) (wire order (pixel_cells d1 c)))))"
    by (rule strip_frame_uniform) (use b'(3) d1(4) in \<open>simp add: cells_at_def pixel_at_def mult.commute\<close>)
  moreover obtain h where h: "chip_send_data ws2812_chip env (drv_handle d1) (Some b') (length b') = Some (spi_send_ret env, h)"
    "spi_trace h = [Spi_init 6600000, Spi_send (strip_frame (line_code 0xE0 0xFC) 3 order b' n)]"
  proof -
    let ?tx = "\<lparr>tx_buffer = replicate (24 * n) 0, tx_buffer_len = 24 * n\<rparr>"
    let ?F = "ws2812.frame_code (rgb_order_mode (drv_handle d1)) b' n"
    have "chip_send_data ws2812_chip env (drv_handle d1) (Some b') (length b') = Some (spi_send_ret env,
        spi_do (Spi_send ?F) ((drv_handle d1)\<lparr>drv_tx := Some (?tx\<lparr>tx_buffer := ?F\<rparr>)\<rparr>))"
      by (rule ws2812.send) (simp_all add: d1(6) p b'(2) n(1))
    then show thesis by (rule that) (simp add: d1(6) spi_do_def ws2812.frame_code_strip p)
  qed
  moreover have "tdl_pixel_dev_refresh (Some ?d2) = Some (spi_send_ret env, Some (?d2\<lparr>drv_handle := h\<rparr>))"
    using px_wfD(1,3) [OF d1(2)] d1(3-5) b'(2) h(1)
    by (simp add: tdl_pixel_dev_refresh_def tdl_pixel_refresh_def chip_intfs_def put_buffer_def)
  ultimately show ?thesis using d1(1) by (intro exI [of _ d1] exI [of _ ?d2] exI [of _ "?d2\<lparr>drv_handle := h\<rparr>"]) simp
qed

theorem ws2812_show_color_witness:
  "\<exists>d1 d2 d3. tdl_pixel_dev_open (\<lambda>k. Some (replicate k 9)) (Some ex_led) (Some \<lparr>cfg_pixel_num = 10, cfg_pixel_resolution = 1000\<rparr>)
      = (OPRT_OK, Some d1) \<and>
    tdl_pixel_set_single_color_all (Some d1) (Some ex_color) = Some (OPRT_OK, Some d2) \<and>
    tdl_pixel_dev_refresh (Some d2) = Some (OPRT_OK, Some d3)"
proof -
  have r: "tdd_ws2812_driver_register ex_reg ex_spi [] (Some ''led'') GRB_ORDER = Some (OPRT_OK, [ex_led])"
    using ex_led_register by (simp add: tdd_ws2812_driver_register_def chip_register_def ex_led_drv_def)
  have "spi_init_ret ex_spi = OPRT_OK" "tx_malloc ex_spi" "spi_send_ret ex_spi = OPRT_OK" by (simp_all add: ex_spi_def)
  with ws2812_show_color [OF r, of 10 "\<lambda>k. Some (replicate k 9)" "replicate (3 * 10) 9" 1000 ex_color]
  show ?thesis by auto
qed

end
